(* ===== verification/Prelude.thy ===== *)
theory Prelude
  imports Main "HOL-Library.AList" "HOL-Library.Char_ord" "HOL-Library.List_Lexorder"
begin

text \<open>
  Shared vocabulary of the development: the Python values the orchestrator stores in
  JSONB columns and error payloads, dictionaries with insertion order, the error values
  every operation may return, and the generic facts on lists, options and association
  lists that the component theories rest on.

  \<^item> A UUID is an opaque \<open>nat\<close>; \<open>str\<close>/\<open>UUID\<close> conversions are the identity on it.
  \<^item> An instant is an \<open>int\<close> number of microseconds, the resolution of \<open>datetime\<close>.
  \<^item> A Python dictionary is an association list in insertion order with distinct keys;
    \<open>AList.update\<close> overwrites in place or appends, as \<open>d[k] = v\<close> does.
\<close>

type_synonym uuid = nat
type_synonym instant = int

subsection \<open>JSON values and dictionaries\<close>

datatype json =
    JNull
  | JBool bool
  | JInt int
  | JStr string
  | JArr "json list"
  | JObj "(string \<times> json) list"

type_synonym dict = "(string \<times> json) list"

definition dict_get :: "('k \<times> 'v) list \<Rightarrow> 'k \<Rightarrow> 'v option" where
  "dict_get d k = map_of d k"

text \<open>\<open>d.update(e)\<close>, and also \<open>{**d, **e}\<close>: the entries of \<open>e\<close> in order, each overwriting.\<close>

definition dict_update :: "('k \<times> 'v) list \<Rightarrow> ('k \<times> 'v) list \<Rightarrow> ('k \<times> 'v) list" where
  "dict_update d e = fold (\<lambda>(k, v) acc. AList.update k v acc) e d"

text \<open>Python truthiness of a JSON value, and of the optional result of \<open>dict.get\<close>.\<close>

fun truthy :: "json \<Rightarrow> bool" where
  "truthy JNull = False"
| "truthy (JBool b) = b"
| "truthy (JInt i) = (i \<noteq> 0)"
| "truthy (JStr s) = (s \<noteq> [])"
| "truthy (JArr xs) = (xs \<noteq> [])"
| "truthy (JObj d) = (d \<noteq> [])"

definition truthy_opt :: "json option \<Rightarrow> bool" where
  "truthy_opt v = (case v of None \<Rightarrow> False | Some j \<Rightarrow> truthy j)"

lemma map_of_dict_update:
  "map_of (dict_update d e) k = (case map_of (rev e) k of None \<Rightarrow> map_of d k | Some v \<Rightarrow> Some v)"
  by (induction e arbitrary: d)
    (auto simp: dict_update_def AList.update_conv' map_add_def split: option.splits)

lemma dict_get_alist_update:
  "dict_get (AList.update k v d) k' = (if k' = k then Some v else dict_get d k')"
  by (simp add: dict_get_def update_conv')

lemma map_of_rev_distinct: "distinct (map fst e) \<Longrightarrow> map_of (rev e) = map_of e"
  by (rule map_of_eqI) (auto simp: map_of_eq_Some_iff rev_map[symmetric])

lemma dict_get_update:
  "distinct (map fst e) \<Longrightarrow>
   dict_get (dict_update d e) k = (case dict_get e k of None \<Rightarrow> dict_get d k | Some v \<Rightarrow> Some v)"
  by (simp add: dict_get_def map_of_dict_update map_of_rev_distinct split: option.splits)

subsection \<open>Text\<close>

text \<open>\<open>sep.join(parts)\<close>.\<close>

fun join :: "string \<Rightarrow> string list \<Rightarrow> string" where
  "join sep [] = []"
| "join sep [p] = p"
| "join sep (p # ps) = p @ sep @ join sep ps"

text \<open>A value between single quotes, as the f-strings of error messages write it.\<close>

definition quoted :: "string \<Rightarrow> string" where
  "quoted s = [CHR 0x27] @ s @ [CHR 0x27]"

text \<open>\<open>str.lower\<close> on ASCII letters.\<close>

definition lower_char :: "char \<Rightarrow> char" where
  "lower_char c = (let n = of_char c :: nat in if 65 \<le> n \<and> n \<le> 90 then char_of (n + 32) else c)"

definition lower :: "string \<Rightarrow> string" where
  "lower s = map lower_char s"

text \<open>\<open>str(uuid)\<close>: 32 hexadecimal digits in the groups 8-4-4-4-12.\<close>

definition hex_digit :: "nat \<Rightarrow> char" where
  "hex_digit n = ''0123456789abcdef'' ! n"

fun hex_fixed :: "nat \<Rightarrow> nat \<Rightarrow> string" where
  "hex_fixed 0 n = []"
| "hex_fixed (Suc k) n = hex_fixed k (n div 16) @ [hex_digit (n mod 16)]"

definition uuid_str :: "uuid \<Rightarrow> string" where
  "uuid_str u = (let h = hex_fixed 32 u in
     join ''-'' [take 8 h, take 4 (drop 8 h), take 4 (drop 12 h), take 4 (drop 16 h), drop 20 h])"

text \<open>\<open>tuple.index\<close>: the first position of a member, \<open>None\<close> where Python raises.\<close>

fun tuple_index :: "'a \<Rightarrow> 'a list \<Rightarrow> nat option" where
  "tuple_index x [] = None"
| "tuple_index x (y # ys) = (if x = y then Some 0 else map_option Suc (tuple_index x ys))"

text \<open>\<open>uuid.UUID(text)\<close>: hyphens are dropped, then exactly 32 hexadecimal digits.\<close>

definition hex_value :: "char \<Rightarrow> nat option" where
  "hex_value c = tuple_index (lower_char c) ''0123456789abcdef''"

fun hex_parse :: "string \<Rightarrow> nat \<Rightarrow> nat option" where
  "hex_parse [] acc = Some acc"
| "hex_parse (c # cs) acc =
     (case hex_value c of None \<Rightarrow> None | Some v \<Rightarrow> hex_parse cs (acc * 16 + v))"

definition uuid_parse :: "string \<Rightarrow> uuid option" where
  "uuid_parse s = (let h = filter (\<lambda>c. c \<noteq> CHR ''-'') s in
     if length h = 32 then hex_parse h 0 else None)"

lemma below_16:
  "(n :: nat) < 16 \<Longrightarrow> n \<in> {0, 1, 2, 3, 4, 5, 6, 7, 8, 9, 10, 11, 12, 13, 14, 15}"
  by (simp add: eval_nat_numeral less_Suc_eq)

lemma hex_digits_table: "n < 16 \<Longrightarrow> hex_value (hex_digit n) = Some n \<and> hex_digit n \<noteq> CHR ''-''"
  by (drule below_16, elim insertE emptyE) (simp_all add: hex_value_def hex_digit_def lower_char_def Let_def)

lemma length_hex_fixed [simp]: "length (hex_fixed k n) = k"
  by (induction k arbitrary: n) auto

lemma hex_parse_append:
  "hex_parse (s @ t) acc = (case hex_parse s acc of None \<Rightarrow> None | Some v \<Rightarrow> hex_parse t v)"
  by (induction s arbitrary: acc) (auto split: option.splits)

lemma hex_parse_fixed: "hex_parse (hex_fixed k n) acc = Some (acc * 16 ^ k + n mod 16 ^ k)"
proof (induction k arbitrary: n acc)
  case (Suc k)
  have "n mod 16 ^ Suc k = (n div 16 mod 16 ^ k) * 16 + n mod 16"
    by (simp add: mod_mult2_eq)
  then show ?case
    by (simp add: hex_parse_append Suc hex_digits_table algebra_simps)
qed simp

lemma hex_fixed_plain: "filter (\<lambda>c. c \<noteq> CHR ''-'') (hex_fixed k n) = hex_fixed k n"
  by (induction k arbitrary: n) (simp_all add: hex_digits_table)

lemma uuid_parse_str: "u < 16 ^ 32 \<Longrightarrow> uuid_parse (uuid_str u) = Some u"
proof -
  assume "u < 16 ^ 32"
  define h where "h = hex_fixed 32 u"
  have parts: "h = take 8 h @ take 4 (drop 8 h) @ take 4 (drop 12 h) @ take 4 (drop 16 h) @ drop 20 h"
    using append_take_drop_id[of 8 h] append_take_drop_id[of 4 "drop 8 h"]
      append_take_drop_id[of 4 "drop 12 h"] append_take_drop_id[of 4 "drop 16 h"]
    by (simp only: drop_drop) simp
  have "filter (\<lambda>c. c \<noteq> CHR ''-'') h = h" by (simp only: h_def hex_fixed_plain)
  then have "filter (\<lambda>c. c \<noteq> CHR ''-'') (uuid_str u) = h"
    by (simp add: uuid_str_def Let_def h_def[symmetric])
      (metis (no_types, lifting) filter_append parts)
  moreover have "length h = 32" by (simp add: h_def)
  ultimately show ?thesis
    using \<open>u < 16 ^ 32\<close> by (simp add: uuid_parse_def h_def hex_parse_fixed)
qed

lemma uuid_str_inject: "u < 16 ^ 32 \<Longrightarrow> v < 16 ^ 32 \<Longrightarrow> uuid_str u = uuid_str v \<longleftrightarrow> u = v"
  by (metis option.inject uuid_parse_str)

text \<open>\<open>str(n)\<close> of a natural number.\<close>

fun decimal :: "nat \<Rightarrow> string" where
  "decimal n = (if n < 10 then [hex_digit n] else decimal (n div 10) @ [hex_digit (n mod 10)])"

text \<open>\<open>str(value)\<close> of a JSON scalar; no modelled code takes the text of an array or object.\<close>

fun json_str :: "json \<Rightarrow> string" where
  "json_str (JStr s) = s"
| "json_str (JInt i) = (if i < 0 then ''-'' @ decimal (nat (- i)) else decimal (nat i))"
| "json_str (JBool b) = (if b then ''True'' else ''False'')"
| "json_str _ = []"

text \<open>\<open>p in s\<close> on strings.\<close>

fun contains_sub :: "string \<Rightarrow> string \<Rightarrow> bool" where
  "contains_sub p [] = (p = [])"
| "contains_sub p (c # s) = (take (length p) (c # s) = p \<or> contains_sub p s)"

text \<open>\<open>(text or "")[:n] or None\<close>, how free text is cut to a column.\<close>

definition clip_text :: "nat \<Rightarrow> string option \<Rightarrow> string option" where
  "clip_text n t = (case t of None \<Rightarrow> None | Some s \<Rightarrow> if take n s = [] then None else Some (take n s))"

subsection \<open>Tables as lists of rows\<close>

text \<open>
  A table is the list of its rows. \<open>update_where\<close> is a set-based \<open>UPDATE ... WHERE\<close>;
  \<open>List.find\<close> is the single-row \<open>SELECT\<close>. The facts below are what the row operations
  of every repository rest on.
\<close>

named_theorems row_simps \<open>rewrite rules for row updates and lookups\<close>

definition update_where :: "('r \<Rightarrow> bool) \<Rightarrow> ('r \<Rightarrow> 'r) \<Rightarrow> 'r list \<Rightarrow> 'r list" where
  "update_where P f rs = map (\<lambda>r. if P r then f r else r) rs"

lemma length_update_where [simp]: "length (update_where P f rs) = length rs"
  by (simp add: update_where_def)

lemma set_update_where:
  "set (update_where P f rs) = f ` {r \<in> set rs. P r} \<union> {r \<in> set rs. \<not> P r}"
  by (auto simp: update_where_def)

lemma map_update_where [row_simps]:
  "(\<And>r. g (f r) = g r) \<Longrightarrow> map g (update_where P f rs) = map g rs"
  by (simp add: update_where_def)

lemma update_where_append [simp]:
  "update_where P f (rs @ ss) = update_where P f rs @ update_where P f ss"
  by (simp add: update_where_def)

lemma update_where_none: "(\<And>r. r \<in> set rs \<Longrightarrow> \<not> P r) \<Longrightarrow> update_where P f rs = rs"
  by (simp add: update_where_def map_idI)

lemma find_update_where [row_simps]:
  assumes "\<And>r. g (f r) = g r"
  shows "List.find (\<lambda>r. g r = k) (update_where (\<lambda>r. g r = k') f rs) =
    (if k = k' then map_option f (List.find (\<lambda>r. g r = k) rs)
     else List.find (\<lambda>r. g r = k) rs)"
  using assms by (induction rs) (auto simp: update_where_def)

lemma find_update_any:
  assumes "\<And>r. g (f r) = g r"
  shows "List.find (\<lambda>r. g r = k) (update_where P f rs) =
    map_option (\<lambda>r. if P r then f r else r) (List.find (\<lambda>r. g r = k) rs)"
  using assms by (induction rs) (auto simp: update_where_def)

lemma find_SomeD: "List.find P xs = Some x \<Longrightarrow> x \<in> set xs \<and> P x"
  by (auto simp: find_Some_iff)

lemma find_append:
  "List.find P (xs @ ys) = (case List.find P xs of None \<Rightarrow> List.find P ys | Some x \<Rightarrow> Some x)"
  by (induction xs) auto

lemma find_unique:
  "distinct (map g rs) \<Longrightarrow> r \<in> set rs \<Longrightarrow> List.find (\<lambda>x. g x = g r) rs = Some r"
  by (induction rs) auto

end
