(* ===== verification/Enums.thy ===== *)
theory Enums
  imports Prelude
begin

text \<open>
  \<^verbatim>\<open>backend/app/core/enums.py\<close>: the enumerations the orchestrator computes with, their wire
  values, and the static tables over them (execution order, dependency graph, stage
  to state, stage to artifacts). Constructors carry the initials of their enumeration,
  because several Python enums share member names. The member lists give the
  declaration order, which Postgres uses to sort a native enum column.
\<close>

subsection \<open>Pipeline stages\<close>

datatype pipeline_stage =
    PS_VALIDATION | PS_PARSER | PS_DOCPIPELINE | PS_EXTRACTION | PS_EMBEDDING | PS_INDEXING
  | PS_ENRICHMENT | PS_CLASSIFICATION | PS_CHUNKING | PS_AI_EXTRACTION

definition pipeline_stages :: "pipeline_stage list" where
  "pipeline_stages =
     [PS_VALIDATION, PS_PARSER, PS_DOCPIPELINE, PS_EXTRACTION, PS_EMBEDDING, PS_INDEXING,
      PS_ENRICHMENT, PS_CLASSIFICATION, PS_CHUNKING, PS_AI_EXTRACTION]"

fun stage_value :: "pipeline_stage \<Rightarrow> string" where
  "stage_value PS_VALIDATION = ''validation''"
| "stage_value PS_PARSER = ''parser''"
| "stage_value PS_DOCPIPELINE = ''docpipeline''"
| "stage_value PS_EXTRACTION = ''extraction''"
| "stage_value PS_EMBEDDING = ''embedding''"
| "stage_value PS_INDEXING = ''indexing''"
| "stage_value PS_ENRICHMENT = ''enrichment''"
| "stage_value PS_CLASSIFICATION = ''classification''"
| "stage_value PS_CHUNKING = ''chunking''"
| "stage_value PS_AI_EXTRACTION = ''ai_extraction''"

text \<open>\<open>PipelineStage(value)\<close>: \<open>None\<close> is the \<open>ValueError\<close>.\<close>

definition stage_of_value :: "string \<Rightarrow> pipeline_stage option" where
  "stage_of_value s = List.find (\<lambda>st. stage_value st = s) pipeline_stages"

text \<open>\<open>STAGE_ORDER\<close>: the six stages that are dispatched, in order.\<close>

definition STAGE_ORDER :: "pipeline_stage list" where
  "STAGE_ORDER =
     [PS_VALIDATION, PS_PARSER, PS_DOCPIPELINE, PS_EXTRACTION, PS_EMBEDDING, PS_INDEXING]"

text \<open>\<open>stage_index\<close> raises \<open>ValueError\<close> (here \<open>None\<close>) on a retired stage.\<close>

definition stage_index :: "pipeline_stage \<Rightarrow> nat option" where
  "stage_index st = tuple_index st STAGE_ORDER"

text \<open>\<open>stage_position\<close> catches that error and answers \<open>None\<close>.\<close>

definition stage_position :: "pipeline_stage \<Rightarrow> nat option" where
  "stage_position st = (case tuple_index st STAGE_ORDER of Some i \<Rightarrow> Some i | None \<Rightarrow> None)"

text \<open>\<open>stages_from\<close>: the stage and everything after it; raises on a retired stage.\<close>

definition stages_from :: "pipeline_stage \<Rightarrow> pipeline_stage list option" where
  "stages_from st = (case stage_index st of None \<Rightarrow> None | Some i \<Rightarrow> Some (drop i STAGE_ORDER))"

fun STAGE_DEPENDENCIES :: "pipeline_stage \<Rightarrow> pipeline_stage list" where
  "STAGE_DEPENDENCIES PS_VALIDATION = []"
| "STAGE_DEPENDENCIES PS_PARSER = [PS_VALIDATION]"
| "STAGE_DEPENDENCIES PS_DOCPIPELINE = [PS_PARSER]"
| "STAGE_DEPENDENCIES PS_EXTRACTION = [PS_DOCPIPELINE]"
| "STAGE_DEPENDENCIES PS_EMBEDDING = [PS_EXTRACTION]"
| "STAGE_DEPENDENCIES PS_INDEXING = [PS_EMBEDDING]"
| "STAGE_DEPENDENCIES PS_ENRICHMENT = [PS_PARSER]"
| "STAGE_DEPENDENCIES PS_CLASSIFICATION = [PS_ENRICHMENT]"
| "STAGE_DEPENDENCIES PS_CHUNKING = [PS_CLASSIFICATION]"
| "STAGE_DEPENDENCIES PS_AI_EXTRACTION = [PS_CHUNKING]"

subsection \<open>Job, stage-run and queue-row states\<close>

datatype job_state =
    JS_QUEUED | JS_VALIDATING | JS_PARSING | JS_ENRICHING | JS_CLASSIFYING | JS_CHUNKING
  | JS_AI_EXTRACTION | JS_EMBEDDING | JS_INDEXING | JS_READY | JS_FAILED | JS_RETRYING
  | JS_CANCELLED | JS_PAUSED

fun job_state_value :: "job_state \<Rightarrow> string" where
  "job_state_value JS_QUEUED = ''QUEUED''"
| "job_state_value JS_VALIDATING = ''VALIDATING''"
| "job_state_value JS_PARSING = ''PARSING''"
| "job_state_value JS_ENRICHING = ''ENRICHING''"
| "job_state_value JS_CLASSIFYING = ''CLASSIFYING''"
| "job_state_value JS_CHUNKING = ''CHUNKING''"
| "job_state_value JS_AI_EXTRACTION = ''AI_EXTRACTION''"
| "job_state_value JS_EMBEDDING = ''EMBEDDING''"
| "job_state_value JS_INDEXING = ''INDEXING''"
| "job_state_value JS_READY = ''READY''"
| "job_state_value JS_FAILED = ''FAILED''"
| "job_state_value JS_RETRYING = ''RETRYING''"
| "job_state_value JS_CANCELLED = ''CANCELLED''"
| "job_state_value JS_PAUSED = ''PAUSED''"

definition is_terminal :: "job_state \<Rightarrow> bool" where
  "is_terminal s \<longleftrightarrow> s \<in> {JS_READY, JS_FAILED, JS_CANCELLED}"

definition is_running :: "job_state \<Rightarrow> bool" where
  "is_running s \<longleftrightarrow> s \<in> {JS_VALIDATING, JS_PARSING, JS_ENRICHING, JS_CLASSIFYING, JS_CHUNKING,
     JS_AI_EXTRACTION, JS_EMBEDDING, JS_INDEXING}"

fun STAGE_TO_STATE :: "pipeline_stage \<Rightarrow> job_state" where
  "STAGE_TO_STATE PS_VALIDATION = JS_VALIDATING"
| "STAGE_TO_STATE PS_PARSER = JS_PARSING"
| "STAGE_TO_STATE PS_DOCPIPELINE = JS_AI_EXTRACTION"
| "STAGE_TO_STATE PS_EXTRACTION = JS_AI_EXTRACTION"
| "STAGE_TO_STATE PS_EMBEDDING = JS_EMBEDDING"
| "STAGE_TO_STATE PS_INDEXING = JS_INDEXING"
| "STAGE_TO_STATE PS_ENRICHMENT = JS_ENRICHING"
| "STAGE_TO_STATE PS_CLASSIFICATION = JS_CLASSIFYING"
| "STAGE_TO_STATE PS_CHUNKING = JS_CHUNKING"
| "STAGE_TO_STATE PS_AI_EXTRACTION = JS_AI_EXTRACTION"

datatype stage_status =
    SS_PENDING | SS_RUNNING | SS_SUCCEEDED | SS_FAILED | SS_SKIPPED | SS_CANCELLED

fun status_value :: "stage_status \<Rightarrow> string" where
  "status_value SS_PENDING = ''pending''"
| "status_value SS_RUNNING = ''running''"
| "status_value SS_SUCCEEDED = ''succeeded''"
| "status_value SS_FAILED = ''failed''"
| "status_value SS_SKIPPED = ''skipped''"
| "status_value SS_CANCELLED = ''cancelled''"

datatype stage_queue_state = SQ_PENDING | SQ_CLAIMED | SQ_DONE | SQ_DEAD

subsection \<open>Priorities\<close>

datatype job_priority = JP_HIGH | JP_NORMAL | JP_LOW

fun priority_value :: "job_priority \<Rightarrow> string" where
  "priority_value JP_HIGH = ''high''"
| "priority_value JP_NORMAL = ''normal''"
| "priority_value JP_LOW = ''low''"

definition priority_of_value :: "string \<Rightarrow> job_priority option" where
  "priority_of_value s = List.find (\<lambda>p. priority_value p = s) [JP_HIGH, JP_NORMAL, JP_LOW]"

fun queue_weight :: "job_priority \<Rightarrow> nat" where
  "queue_weight JP_HIGH = 1"
| "queue_weight JP_NORMAL = 5"
| "queue_weight JP_LOW = 10"

text \<open>Position of a label in the declaration, the rank \<open>ORDER BY priority\<close> sorts on.\<close>

fun priority_rank :: "job_priority \<Rightarrow> nat" where
  "priority_rank JP_HIGH = 0"
| "priority_rank JP_NORMAL = 1"
| "priority_rank JP_LOW = 2"

instantiation job_priority :: linorder
begin

definition less_eq_job_priority :: "job_priority \<Rightarrow> job_priority \<Rightarrow> bool" where
  "less_eq_job_priority p q \<longleftrightarrow> priority_rank p \<le> priority_rank q"

definition less_job_priority :: "job_priority \<Rightarrow> job_priority \<Rightarrow> bool" where
  "less_job_priority p q \<longleftrightarrow> priority_rank p < priority_rank q"

instance
proof
  fix p q r :: job_priority
  show "(p < q) = (p \<le> q \<and> \<not> q \<le> p)"
    by (auto simp: less_eq_job_priority_def less_job_priority_def)
  show "p \<le> p" by (simp add: less_eq_job_priority_def)
  show "p \<le> q \<Longrightarrow> q \<le> r \<Longrightarrow> p \<le> r" by (simp add: less_eq_job_priority_def)
  show "p \<le> q \<Longrightarrow> q \<le> p \<Longrightarrow> p = q"
    by (cases p; cases q) (auto simp: less_eq_job_priority_def)
  show "p \<le> q \<or> q \<le> p" by (auto simp: less_eq_job_priority_def)
qed

end

subsection \<open>Artifacts, files and contracts\<close>

datatype artifact_kind =
    AK_VALIDATION | AK_NORMALIZED_DOCUMENT | AK_CANONICAL_DOCUMENT | AK_CLASSIFICATION
  | AK_CHUNKS | AK_CHUNK_STATISTICS | AK_CHUNK_VALIDATION | AK_CLAUSES | AK_ENTITIES
  | AK_OBLIGATIONS | AK_RISKS | AK_TIMELINES | AK_RELATIONSHIPS | AK_EXTRACTION_STATISTICS
  | AK_SUMMARY_EMBEDDINGS | AK_CLAUSE_EMBEDDINGS | AK_CHUNK_EMBEDDINGS
  | AK_EMBEDDING_STATISTICS | AK_INDEX_STATISTICS | AK_STATISTICS | AK_EXPORT
  | AK_DOC_PIPELINE

fun STAGE_ARTIFACTS :: "pipeline_stage \<Rightarrow> artifact_kind list" where
  "STAGE_ARTIFACTS PS_VALIDATION = [AK_VALIDATION]"
| "STAGE_ARTIFACTS PS_PARSER = [AK_NORMALIZED_DOCUMENT]"
| "STAGE_ARTIFACTS PS_DOCPIPELINE = [AK_DOC_PIPELINE]"
| "STAGE_ARTIFACTS PS_EXTRACTION =
     [AK_CHUNKS, AK_CLAUSES, AK_ENTITIES, AK_OBLIGATIONS, AK_RISKS, AK_TIMELINES,
      AK_RELATIONSHIPS, AK_EXTRACTION_STATISTICS]"
| "STAGE_ARTIFACTS PS_EMBEDDING =
     [AK_SUMMARY_EMBEDDINGS, AK_CLAUSE_EMBEDDINGS, AK_CHUNK_EMBEDDINGS, AK_EMBEDDING_STATISTICS]"
| "STAGE_ARTIFACTS PS_INDEXING = [AK_INDEX_STATISTICS]"
| "STAGE_ARTIFACTS _ = []"

datatype file_type = FT_PDF | FT_DOC | FT_DOCX

definition needs_pdf_conversion :: "file_type \<Rightarrow> bool" where
  "needs_pdf_conversion t \<longleftrightarrow> t \<in> {FT_DOC, FT_DOCX}"

datatype contract_status =
    CS_UPLOADED | CS_PROCESSING | CS_READY | CS_FAILED | CS_NEEDS_REVIEW | CS_ARCHIVED
  | CS_CONVERSION_FAILED

subsection \<open>Facts on the tables\<close>

lemmas stage_order_simps = STAGE_ORDER_def stage_index_def stage_position_def stages_from_def

lemma stage_value_inj: "stage_value a = stage_value b \<Longrightarrow> a = b"
  by (cases a; cases b) simp_all

lemma stage_of_value_value [simp]: "stage_of_value (stage_value st) = Some st"
  by (cases st) (simp_all add: stage_of_value_def pipeline_stages_def)

lemma priority_of_value_value [simp]: "priority_of_value (priority_value p) = Some p"
  by (cases p) (simp_all add: priority_of_value_def)

lemma tuple_index_nth: "tuple_index x xs = Some i \<Longrightarrow> i < length xs \<and> xs ! i = x"
  by (induction xs arbitrary: i) (auto split: if_splits)

lemma tuple_index_None_iff: "tuple_index x xs = None \<longleftrightarrow> x \<notin> set xs"
  by (induction xs) auto

lemma tuple_index_distinct: "distinct xs \<Longrightarrow> i < length xs \<Longrightarrow> tuple_index (xs ! i) xs = Some i"
proof (induction xs arbitrary: i)
  case Nil
  then show ?case by simp
next
  case (Cons a xs)
  then show ?case by (cases i) auto
qed

lemma stage_index_less: "stage_index st = Some i \<Longrightarrow> i < 6"
  using tuple_index_nth[of st STAGE_ORDER i] by (simp add: stage_index_def STAGE_ORDER_def)

lemma stage_position_eq [simp]: "stage_position st = stage_index st"
  by (simp add: stage_position_def stage_index_def split: option.splits)

lemma distinct_STAGE_ORDER: "distinct STAGE_ORDER"
  by (simp add: STAGE_ORDER_def)

lemma stage_index_inj: "stage_index a = Some i \<Longrightarrow> stage_index b = Some i \<Longrightarrow> a = b"
  by (metis stage_index_def tuple_index_nth)

lemma stage_index_None_iff: "stage_index st = None \<longleftrightarrow> st \<notin> set STAGE_ORDER"
  by (simp add: stage_index_def tuple_index_None_iff)

lemma dependency_index:
  "d \<in> set (STAGE_DEPENDENCIES st) \<Longrightarrow> stage_index st = Some i \<Longrightarrow> stage_index d = Some (i - 1) \<and> 0 < i"
  by (cases st) (auto simp: stage_order_simps split: if_splits)

lemma queue_weight_mono: "p \<le> q \<longleftrightarrow> queue_weight p \<le> queue_weight q"
  by (cases p; cases q) (simp_all add: less_eq_job_priority_def)

end
