(* ===== verification/Versions.thy ===== *)
theory Versions
  imports Enums "HOL-Library.Sublist"
begin

text \<open>
  \<^verbatim>\<open>backend/app/core/versions.py\<close>: the version registry. A stage stamps the payload
  \<open>current_versions_for_stage\<close> on its checkpoint; the planner reuses the checkpoint
  exactly when \<open>matches\<close> says that no version the stage declares has moved.
  A field value is a string, an integer (\<open>embedding_dim\<close>) or the dictionary of prompt
  versions; dictionaries compare by content, not by order.
\<close>

subsection \<open>Payload values\<close>

datatype vval = VStr string | VInt int | VDict "(string \<times> string) list"

type_synonym vdict = "(string \<times> vval) list"

fun vtruthy :: "vval \<Rightarrow> bool" where
  "vtruthy (VStr s) = (s \<noteq> [])"
| "vtruthy (VInt i) = (i \<noteq> 0)"
| "vtruthy (VDict d) = (d \<noteq> [])"

definition same_dict :: "('k \<times> 'v) list \<Rightarrow> ('k \<times> 'v) list \<Rightarrow> bool" where
  "same_dict d e \<longleftrightarrow> list_all (\<lambda>k. map_of d k = map_of e k) (map fst d @ map fst e)"

fun vval_eq :: "vval \<Rightarrow> vval \<Rightarrow> bool" where
  "vval_eq (VStr a) (VStr b) = (a = b)"
| "vval_eq (VInt a) (VInt b) = (a = b)"
| "vval_eq (VDict a) (VDict b) = same_dict a b"
| "vval_eq _ _ = False"

text \<open>\<open>other_dict.get(key) != value\<close> is the negation of \<open>stored_eq\<close>.\<close>

definition stored_eq :: "vval option \<Rightarrow> vval \<Rightarrow> bool" where
  "stored_eq st v = (case st of None \<Rightarrow> False | Some w \<Rightarrow> vval_eq w v)"

subsection \<open>The payload\<close>

record component_versions =
  v_cdm_version :: "string option"
  v_parser_name :: "string option"
  v_parser_version :: "string option"
  v_parser_adapter_version :: "string option"
  v_enrichment_engine_version :: "string option"
  v_classification_engine_version :: "string option"
  v_classification_taxonomy_version :: "string option"
  v_profile_id :: "string option"
  v_profile_version :: "string option"
  v_chunk_engine_version :: "string option"
  v_chunk_strategy :: "string option"
  v_chunk_strategy_version :: "string option"
  v_extraction_engine_version :: "string option"
  v_extraction_schema_version :: "string option"
  v_validation_rules_version :: "string option"
  v_prompt_versions :: "(string \<times> string) list"
  v_model_name :: "string option"
  v_model_version :: "string option"
  v_embedding_provider :: "string option"
  v_embedding_model :: "string option"
  v_embedding_dim :: "int option"
  v_embedding_version :: "string option"
  v_embedding_strategy_version :: "string option"
  v_index_version :: "string option"
  v_graph_version :: "string option"
  v_risk_model_version :: "string option"
  v_source_artifact_version :: "string option"

definition no_versions :: component_versions where
  "no_versions = \<lparr>v_cdm_version = None, v_parser_name = None, v_parser_version = None,
     v_parser_adapter_version = None, v_enrichment_engine_version = None,
     v_classification_engine_version = None, v_classification_taxonomy_version = None,
     v_profile_id = None, v_profile_version = None, v_chunk_engine_version = None,
     v_chunk_strategy = None, v_chunk_strategy_version = None,
     v_extraction_engine_version = None, v_extraction_schema_version = None,
     v_validation_rules_version = None, v_prompt_versions = [], v_model_name = None,
     v_model_version = None, v_embedding_provider = None, v_embedding_model = None,
     v_embedding_dim = None, v_embedding_version = None, v_embedding_strategy_version = None,
     v_index_version = None, v_graph_version = None, v_risk_model_version = None,
     v_source_artifact_version = None\<rparr>"

text \<open>\<open>model_dump(exclude_none=True)\<close>: the fields that are not \<open>None\<close>, in declaration order.\<close>

definition dump_str :: "string \<Rightarrow> string option \<Rightarrow> vdict" where
  "dump_str k v = (case v of None \<Rightarrow> [] | Some s \<Rightarrow> [(k, VStr s)])"

definition dump_int :: "string \<Rightarrow> int option \<Rightarrow> vdict" where
  "dump_int k v = (case v of None \<Rightarrow> [] | Some i \<Rightarrow> [(k, VInt i)])"

definition model_dump :: "component_versions \<Rightarrow> vdict" where
  "model_dump v =
     dump_str ''cdm_version'' (v_cdm_version v)
   @ dump_str ''parser_name'' (v_parser_name v)
   @ dump_str ''parser_version'' (v_parser_version v)
   @ dump_str ''parser_adapter_version'' (v_parser_adapter_version v)
   @ dump_str ''enrichment_engine_version'' (v_enrichment_engine_version v)
   @ dump_str ''classification_engine_version'' (v_classification_engine_version v)
   @ dump_str ''classification_taxonomy_version'' (v_classification_taxonomy_version v)
   @ dump_str ''profile_id'' (v_profile_id v)
   @ dump_str ''profile_version'' (v_profile_version v)
   @ dump_str ''chunk_engine_version'' (v_chunk_engine_version v)
   @ dump_str ''chunk_strategy'' (v_chunk_strategy v)
   @ dump_str ''chunk_strategy_version'' (v_chunk_strategy_version v)
   @ dump_str ''extraction_engine_version'' (v_extraction_engine_version v)
   @ dump_str ''extraction_schema_version'' (v_extraction_schema_version v)
   @ dump_str ''validation_rules_version'' (v_validation_rules_version v)
   @ [(''prompt_versions'', VDict (v_prompt_versions v))]
   @ dump_str ''model_name'' (v_model_name v)
   @ dump_str ''model_version'' (v_model_version v)
   @ dump_str ''embedding_provider'' (v_embedding_provider v)
   @ dump_str ''embedding_model'' (v_embedding_model v)
   @ dump_int ''embedding_dim'' (v_embedding_dim v)
   @ dump_str ''embedding_version'' (v_embedding_version v)
   @ dump_str ''embedding_strategy_version'' (v_embedding_strategy_version v)
   @ dump_str ''index_version'' (v_index_version v)
   @ dump_str ''graph_version'' (v_graph_version v)
   @ dump_str ''risk_model_version'' (v_risk_model_version v)
   @ dump_str ''source_artifact_version'' (v_source_artifact_version v)"

text \<open>The loop of \<open>matches\<close>: falsy values are passed over, the first difference answers.\<close>

fun all_unchanged :: "vdict \<Rightarrow> vdict \<Rightarrow> bool" where
  "all_unchanged [] other = True"
| "all_unchanged ((k, v) # rest) other =
     (if \<not> vtruthy v then all_unchanged rest other
      else if \<not> stored_eq (dict_get other k) v then False
      else all_unchanged rest other)"

definition matches :: "component_versions \<Rightarrow> vdict option \<Rightarrow> bool" where
  "matches self other =
     (case other of None \<Rightarrow> False | Some d \<Rightarrow> all_unchanged (model_dump self) d)"

text \<open>\<open>diff\<close>: \<open>{field: (stored, current)}\<close>, in the order of the payload.\<close>

fun changed_fields :: "vdict \<Rightarrow> vdict \<Rightarrow> (string \<times> vval option \<times> vval) list" where
  "changed_fields [] other = []"
| "changed_fields ((k, v) # rest) other =
     (if \<not> vtruthy v then changed_fields rest other
      else if \<not> stored_eq (dict_get other k) v
        then (k, dict_get other k, v) # changed_fields rest other
      else changed_fields rest other)"

definition diff :: "component_versions \<Rightarrow> vdict option \<Rightarrow> (string \<times> vval option \<times> vval) list" where
  "diff self other = changed_fields (model_dump self) (case other of None \<Rightarrow> [] | Some d \<Rightarrow> d)"

subsection \<open>The registry\<close>

record version_settings =
  active_parser :: string
  llm_provider :: string
  azure_openai_deployment :: string
  llm_model_simple :: string
  emb_provider :: string
  emb_model :: string
  emb_dim :: int
  emb_version :: string

definition PARSER_FRAMEWORK_VERSION :: string where "PARSER_FRAMEWORK_VERSION = ''1.0.0''"

definition PARSER_ADAPTER_VERSIONS :: "(string \<times> string) list" where
  "PARSER_ADAPTER_VERSIONS =
     [(''adi'', ''1.0.0''), (''pdfextract'', ''1.0.0''), (''pymupdf'', ''1.0.0''),
      (''textract'', ''1.0.0''), (''googledocai'', ''1.0.0'')]"

definition EXTRACTION_ENGINE_VERSION :: string where "EXTRACTION_ENGINE_VERSION = ''1.0.0''"
definition DOCPIPELINE_VERSION :: string where "DOCPIPELINE_VERSION = ''1.0.0''"
definition EXTRACTION_SCHEMA_VERSION :: string where "EXTRACTION_SCHEMA_VERSION = ''1.1.0''"
definition EMBEDDING_STRATEGY_VERSION :: string where "EMBEDDING_STRATEGY_VERSION = ''1.0.0''"
definition INDEX_VERSION :: string where "INDEX_VERSION = ''1.0.0''"
definition GRAPH_VERSION :: string where "GRAPH_VERSION = ''1.0.0''"

definition PROMPT_VERSIONS :: "(string \<times> string) list" where
  "PROMPT_VERSIONS =
     [(''extraction.metadata'', ''1.0.0''), (''extraction.parties'', ''1.0.0''),
      (''extraction.clauses'', ''1.0.0''), (''extraction.financial'', ''1.0.0''),
      (''extraction.obligations'', ''1.0.0''), (''extraction.rights'', ''1.0.0''),
      (''extraction.risks'', ''1.0.0''), (''extraction.dates'', ''1.0.0''),
      (''extraction.relationships'', ''1.0.0''), (''classification.document'', ''1.0.0''),
      (''summary.document'', ''1.1.0''), (''rag.qa'', ''1.0.0''),
      (''rag.contract_summary'', ''1.0.0''), (''rag.executive_summary'', ''1.0.0''),
      (''rag.risk_report'', ''1.0.0''), (''rag.compliance_report'', ''1.0.0''),
      (''rag.clause_comparison'', ''1.0.0''), (''rag.timeline'', ''1.0.0''),
      (''rag.obligation_report'', ''1.0.0''), (''rag.action_items'', ''1.0.0''),
      (''planner.query_analysis'', ''1.0.0'')]"

definition prompt_version :: "string \<Rightarrow> string" where
  "prompt_version template_id =
     (case dict_get PROMPT_VERSIONS template_id of Some v \<Rightarrow> v | None \<Rightarrow> ''unknown'')"

definition adapter_version :: "string \<Rightarrow> string" where
  "adapter_version name =
     (case dict_get PARSER_ADAPTER_VERSIONS name of Some v \<Rightarrow> v | None \<Rightarrow> ''unknown'')"

definition simple_tier_model :: "version_settings \<Rightarrow> string" where
  "simple_tier_model s =
     (if llm_provider s = ''azure_openai'' \<and> azure_openai_deployment s \<noteq> []
      then azure_openai_deployment s else llm_model_simple s)"

text \<open>\<open>current_versions_for_stage\<close>, one equation per branch; retired stages stamp nothing.\<close>

fun current_versions_for_stage ::
    "version_settings \<Rightarrow> pipeline_stage \<Rightarrow> string option \<Rightarrow> string option \<Rightarrow> component_versions" where
  "current_versions_for_stage s PS_VALIDATION pid pver = no_versions"
| "current_versions_for_stage s PS_PARSER pid pver =
     no_versions\<lparr>v_parser_name := Some (active_parser s),
       v_parser_version := Some PARSER_FRAMEWORK_VERSION,
       v_parser_adapter_version := Some (adapter_version (active_parser s))\<rparr>"
| "current_versions_for_stage s PS_EXTRACTION pid pver =
     no_versions\<lparr>v_parser_name := Some (active_parser s),
       v_parser_adapter_version := Some (adapter_version (active_parser s)),
       v_extraction_engine_version := Some EXTRACTION_ENGINE_VERSION,
       v_extraction_schema_version := Some EXTRACTION_SCHEMA_VERSION,
       v_model_name := Some (simple_tier_model s),
       v_prompt_versions := PROMPT_VERSIONS\<rparr>"
| "current_versions_for_stage s PS_DOCPIPELINE pid pver =
     no_versions\<lparr>v_parser_name := Some (active_parser s),
       v_parser_adapter_version := Some (adapter_version (active_parser s)),
       v_extraction_engine_version := Some DOCPIPELINE_VERSION,
       v_model_name := Some (simple_tier_model s),
       v_embedding_provider := Some (emb_provider s),
       v_embedding_model := Some (emb_model s),
       v_embedding_dim := Some (emb_dim s),
       v_embedding_version := Some (emb_version s)\<rparr>"
| "current_versions_for_stage s PS_EMBEDDING pid pver =
     no_versions\<lparr>v_profile_id := pid, v_profile_version := pver,
       v_embedding_provider := Some (emb_provider s),
       v_embedding_model := Some (emb_model s),
       v_embedding_dim := Some (emb_dim s),
       v_embedding_version := Some (emb_version s),
       v_embedding_strategy_version := Some EMBEDDING_STRATEGY_VERSION\<rparr>"
| "current_versions_for_stage s PS_INDEXING pid pver =
     no_versions\<lparr>v_index_version := Some INDEX_VERSION, v_graph_version := Some GRAPH_VERSION,
       v_embedding_model := Some (emb_model s), v_embedding_version := Some (emb_version s)\<rparr>"
| "current_versions_for_stage s _ pid pver = no_versions"

subsection \<open>Comparison laws\<close>

lemma same_dict_iff: "same_dict d e \<longleftrightarrow> map_of d = map_of e"
proof
  assume sd: "same_dict d e"
  show "map_of d = map_of e"
  proof
    fix k
    show "map_of d k = map_of e k"
    proof (cases "k \<in> fst ` set d \<union> fst ` set e")
      case True
      with sd show ?thesis by (auto simp: same_dict_def list_all_iff)
    next
      case False
      then have "map_of d k = None" "map_of e k = None" by (simp_all add: map_of_eq_None_iff)
      then show ?thesis by simp
    qed
  qed
qed (simp add: same_dict_def list_all_iff)

lemma vval_eq_refl [simp]: "vval_eq v v"
  by (cases v) (simp_all add: same_dict_iff)

lemma stored_eq_simps [simp]:
  "\<not> stored_eq None v" "stored_eq (Some w) v = vval_eq w v"
  by (simp_all add: stored_eq_def)

lemma all_unchanged_iff:
  "all_unchanged xs d \<longleftrightarrow> (\<forall>(k, v) \<in> set xs. vtruthy v \<longrightarrow> stored_eq (dict_get d k) v)"
  by (induction xs d rule: all_unchanged.induct) auto

lemma changed_fields_filter:
  "changed_fields xs d =
     map (\<lambda>(k, v). (k, dict_get d k, v))
       (filter (\<lambda>(k, v). vtruthy v \<and> \<not> stored_eq (dict_get d k) v) xs)"
  by (induction xs d rule: changed_fields.induct) auto

lemma changed_fields_Nil_iff: "changed_fields xs d = [] \<longleftrightarrow> all_unchanged xs d"
  by (induction xs d rule: changed_fields.induct) auto

lemma fst_dump_str [simp]: "map fst (dump_str k v) = (case v of None \<Rightarrow> [] | Some _ \<Rightarrow> [k])"
  by (simp add: dump_str_def split: option.splits)

lemma fst_dump_int [simp]: "map fst (dump_int k v) = (case v of None \<Rightarrow> [] | Some _ \<Rightarrow> [k])"
  by (simp add: dump_int_def split: option.splits)

lemma subseq_case_option: "subseq (case v of None \<Rightarrow> [] | Some _ \<Rightarrow> [k]) [k]"
  by (simp split: option.splits)

definition version_fields :: "string list" where
  "version_fields =
     [''cdm_version''] @ [''parser_name''] @ [''parser_version''] @ [''parser_adapter_version''] @
     [''enrichment_engine_version''] @ [''classification_engine_version''] @
     [''classification_taxonomy_version''] @ [''profile_id''] @ [''profile_version''] @
     [''chunk_engine_version''] @ [''chunk_strategy''] @ [''chunk_strategy_version''] @
     [''extraction_engine_version''] @ [''extraction_schema_version''] @
     [''validation_rules_version''] @ [''prompt_versions''] @ [''model_name''] @
     [''model_version''] @ [''embedding_provider''] @ [''embedding_model''] @
     [''embedding_dim''] @ [''embedding_version''] @ [''embedding_strategy_version''] @
     [''index_version''] @ [''graph_version''] @ [''risk_model_version''] @
     [''source_artifact_version'']"

lemma distinct_version_fields: "distinct version_fields"
  by (simp add: version_fields_def)

lemma dump_keys_subseq: "subseq (map fst (model_dump v)) version_fields"
  unfolding model_dump_def version_fields_def map_append fst_dump_str fst_dump_int
  by (intro list_emb_append_mono subseq_case_option) simp

lemma distinct_model_dump: "distinct (map fst (model_dump v))"
  using dump_keys_subseq distinct_version_fields by (metis in_set_subseqs subseqs_distinctD)

lemma all_unchanged_self: "distinct (map fst d) \<Longrightarrow> all_unchanged d d"
  by (auto simp: all_unchanged_iff dict_get_def)

lemma matches_simps [simp]:
  "\<not> matches v None" "matches v (Some d) = all_unchanged (model_dump v) d"
  by (simp_all add: matches_def)

lemma matches_own_dump: "matches v (Some (model_dump v))"
  by (simp add: all_unchanged_self distinct_model_dump)

subsection \<open>Properties\<close>

text \<open>a stored payload matches the current one exactly when \<open>diff\<close> reports no moved
  field, so the planner's \<open>version_changed:\<close> reason is never empty when it re-runs a
  stage, and a stage it skips has no moved version.\<close>

theorem matches_iff_no_diff: "matches v (Some d) \<longleftrightarrow> diff v (Some d) = []"
  by (simp add: diff_def changed_fields_Nil_iff)

text \<open>a checkpoint stamped under the settings in force is current under the same
  settings: the payload a stage writes always matches the payload the planner compares.\<close>

theorem stamped_checkpoint_is_current:
  "matches (current_versions_for_stage s st pid pver)
     (Some (model_dump (current_versions_for_stage s st pid pver)))"
  by (rule matches_own_dump)

lemmas version_dump_simps =
  model_dump_def no_versions_def dump_str_def dump_int_def all_unchanged_iff dict_get_def

text \<open>changing only the embedding model invalidates the checkpoints of docpipeline,
  embedding and indexing, and of no other dispatched stage: a stage's checkpoint taken
  under the old settings matches under the new ones exactly for validation, parser and
  extraction.\<close>

theorem embedding_model_change_is_surgical:
  assumes "st \<in> set STAGE_ORDER" and "m \<noteq> emb_model s" and "m \<noteq> []"
  shows "matches (current_versions_for_stage (s\<lparr>emb_model := m\<rparr>) st pid pver)
           (Some (model_dump (current_versions_for_stage s st pid pver)))
         \<longleftrightarrow> st \<in> {PS_VALIDATION, PS_PARSER, PS_EXTRACTION}"
proof -
  have same: "current_versions_for_stage (s\<lparr>emb_model := m\<rparr>) st pid pver =
      current_versions_for_stage s st pid pver" if "st \<in> {PS_VALIDATION, PS_PARSER, PS_EXTRACTION}"
    using that by (auto simp: simple_tier_model_def)
  have moved: "(''embedding_model'', VStr m) \<in> set (model_dump (current_versions_for_stage (s\<lparr>emb_model := m\<rparr>) st pid pver))"
    "(''embedding_model'', VStr (emb_model s)) \<in> set (model_dump (current_versions_for_stage s st pid pver))"
    if "st \<in> {PS_DOCPIPELINE, PS_EMBEDDING, PS_INDEXING}"
    using that by (auto simp: model_dump_def dump_str_def)
  show ?thesis
  proof (cases "st \<in> {PS_VALIDATION, PS_PARSER, PS_EXTRACTION}")
    case True
    then show ?thesis using same[OF True] matches_own_dump by simp
  next
    case False
    with assms(1) have st: "st \<in> {PS_DOCPIPELINE, PS_EMBEDDING, PS_INDEXING}"
      by (auto simp: STAGE_ORDER_def)
    have "map_of (model_dump (current_versions_for_stage s st pid pver)) ''embedding_model'' =
        Some (VStr (emb_model s))"
      using moved(2)[OF st] distinct_model_dump by (simp add: map_of_eq_Some_iff)
    with moved(1)[OF st] assms(2,3) False show ?thesis
      by (force simp: all_unchanged_iff dict_get_def)
  qed
qed

theorem embedding_model_change_is_surgical_witness:
  "\<not> matches (current_versions_for_stage
       (\<lparr>active_parser = ''adi'', llm_provider = ''mock'', azure_openai_deployment = [],
         llm_model_simple = ''m'', emb_provider = ''nvidia'', emb_model = ''old'', emb_dim = 2048,
         emb_version = ''1''\<rparr>\<lparr>emb_model := ''new''\<rparr>) PS_INDEXING None None)
     (Some (model_dump (current_versions_for_stage
       \<lparr>active_parser = ''adi'', llm_provider = ''mock'', azure_openai_deployment = [],
         llm_model_simple = ''m'', emb_provider = ''nvidia'', emb_model = ''old'', emb_dim = 2048,
         emb_version = ''1''\<rparr> PS_INDEXING None None)))"
  by (subst embedding_model_change_is_surgical) (simp_all add: STAGE_ORDER_def)

text \<open>editing the profile (a new version of it) invalidates the embedding checkpoint and no other:
  every other stage, extraction included, keeps a checkpoint taken under the old profile, whatever
  profile the stage asked to be stamped with.\<close>

theorem profile_edit_invalidates_only_embedding:
  assumes "new \<noteq> old" and "new \<noteq> []"
  shows "matches (current_versions_for_stage s st (Some pid) (Some new))
           (Some (model_dump (current_versions_for_stage s st (Some pid) (Some old))))
         \<longleftrightarrow> st \<noteq> PS_EMBEDDING"
proof (cases "st = PS_EMBEDDING")
  case False
  then have "current_versions_for_stage s st (Some pid) (Some new) =
      current_versions_for_stage s st (Some pid) (Some old)" by (cases st) simp_all
  then show ?thesis using False matches_own_dump by simp
next
  case True
  have m: "(''profile_version'', VStr new) \<in> set (model_dump (current_versions_for_stage s PS_EMBEDDING (Some pid) (Some new)))"
    "(''profile_version'', VStr old) \<in> set (model_dump (current_versions_for_stage s PS_EMBEDDING (Some pid) (Some old)))"
    by (simp_all add: model_dump_def dump_str_def)
  have "map_of (model_dump (current_versions_for_stage s PS_EMBEDDING (Some pid) (Some old))) ''profile_version'' =
      Some (VStr old)"
    using m(2) distinct_model_dump by (simp add: map_of_eq_Some_iff)
  with m(1) assms True show ?thesis by (force simp: all_unchanged_iff dict_get_def)
qed

theorem profile_edit_invalidates_only_embedding_witness:
  "matches (current_versions_for_stage
       \<lparr>active_parser = ''adi'', llm_provider = ''mock'', azure_openai_deployment = [],
         llm_model_simple = ''m'', emb_provider = ''nvidia'', emb_model = ''e'', emb_dim = 2048,
         emb_version = ''1''\<rparr> PS_EXTRACTION (Some ''p'') (Some ''2''))
     (Some (model_dump (current_versions_for_stage
       \<lparr>active_parser = ''adi'', llm_provider = ''mock'', azure_openai_deployment = [],
         llm_model_simple = ''m'', emb_provider = ''nvidia'', emb_model = ''e'', emb_dim = 2048,
         emb_version = ''1''\<rparr> PS_EXTRACTION (Some ''p'') (Some ''1''))))"
  by (subst profile_edit_invalidates_only_embedding) simp_all

end
