(* ===== verification/Models.thy ===== *)
theory Models
  imports Versions
begin

text \<open>
  The rows the orchestrator reads and writes (\<^verbatim>\<open>backend/app/models/processing.py\<close>,
  \<^verbatim>\<open>contract.py\<close>, \<^verbatim>\<open>profile.py\<close>), the errors it raises
  (\<^verbatim>\<open>backend/app/core/errors.py\<close>) and the database as one record of row lists in
  insertion order. Columns no modelled operation reads or writes are left out.
  \<open>derived\<close> stands for every table the stage handlers own (clauses, chunks,
  embeddings, graph edges): its type is a parameter, because the handlers are.
\<close>

subsection \<open>Errors\<close>

record app_error =
  e_class :: string
  e_code :: string
  e_message :: string
  e_details :: dict
  e_retryable :: bool
  e_stage :: "string option"

text \<open>A raised exception: an \<open>AppError\<close>, or any other with its class name and text.\<close>

datatype exn = AppErr app_error | PyErr string string

fun exn_type :: "exn \<Rightarrow> string" where
  "exn_type (AppErr e) = e_class e"
| "exn_type (PyErr c m) = c"

definition InvalidStateTransitionError :: "string \<Rightarrow> dict \<Rightarrow> exn" where
  "InvalidStateTransitionError msg details =
     AppErr \<lparr>e_class = ''InvalidStateTransitionError'', e_code = ''invalid_state_transition'',
       e_message = msg, e_details = details, e_retryable = False, e_stage = None\<rparr>"

definition ConflictError :: "string \<Rightarrow> exn" where
  "ConflictError msg =
     AppErr \<lparr>e_class = ''ConflictError'', e_code = ''conflict'', e_message = msg,
       e_details = [], e_retryable = False, e_stage = None\<rparr>"

definition ValidationError :: "string \<Rightarrow> exn" where
  "ValidationError msg =
     AppErr \<lparr>e_class = ''ValidationError'', e_code = ''validation_error'', e_message = msg,
       e_details = [], e_retryable = False, e_stage = None\<rparr>"

definition QueueError :: "string \<Rightarrow> exn" where
  "QueueError msg =
     AppErr \<lparr>e_class = ''QueueError'', e_code = ''queue_error'', e_message = msg,
       e_details = [], e_retryable = True, e_stage = None\<rparr>"

text \<open>\<open>PipelineError(msg, stage=\<dots>, retryable=\<dots>, details=\<dots>)\<close> files a non-empty stage under
  \<open>details\<close> as well.\<close>

definition PipelineError :: "string \<Rightarrow> string option \<Rightarrow> bool \<Rightarrow> dict \<Rightarrow> exn" where
  "PipelineError msg st retryable details =
     AppErr \<lparr>e_class = ''PipelineError'', e_code = ''pipeline_error'', e_message = msg,
       e_details = (case st of None \<Rightarrow> details
                    | Some s \<Rightarrow> if s = [] then details else AList.update ''stage'' (JStr s) details),
       e_retryable = retryable, e_stage = st\<rparr>"

subsection \<open>Contracts and profiles\<close>

record contract_row =
  c_id :: uuid
  c_project_id :: uuid
  c_file_type :: file_type
  c_title :: "string option"
  c_status :: contract_status
  c_needs_review :: bool
  c_page_count :: "int option"
  c_language :: "string option"
  c_agreement_type :: "string option"
  c_agreement_subtype :: "string option"
  c_classification_confidence :: "json option"
  c_profile_id :: "uuid option"
  c_profile_version :: "string option"
  c_processed_at :: "instant option"
  c_deleted_at :: "instant option"

record profile_row =
  p_id :: uuid
  p_key :: string
  p_version :: string
  p_workflow_extensions :: "string list"

subsection \<open>Processing jobs\<close>

text \<open>One entry of \<open>execution_plan["stages"]\<close>, as \<open>ExecutionPlan.to_dict\<close> writes it.\<close>

record plan_item =
  pi_stage :: string
  pi_action :: string
  pi_reason :: "string option"
  pi_checkpoint_id :: "uuid option"
  pi_versions :: vdict

text \<open>The \<open>execution_plan\<close> document: the planner's keys (absent before the first plan) and
  the \<open>context\<close> key the runner merges handler updates into.\<close>

record plan_doc =
  pd_stages :: "plan_item list option"
  pd_branches :: "string list"
  pd_extensions :: "string list"
  pd_profile_key :: "string option"
  pd_profile_version :: "string option"
  pd_notes :: "string list"
  pd_context :: "dict option"

definition empty_plan_doc :: plan_doc where
  "empty_plan_doc = \<lparr>pd_stages = None, pd_branches = [], pd_extensions = [],
     pd_profile_key = None, pd_profile_version = None, pd_notes = [], pd_context = None\<rparr>"

record job_row =
  j_id :: uuid
  j_contract_id :: uuid
  j_project_id :: uuid
  j_state :: job_state
  j_priority :: job_priority
  j_current_stage :: "pipeline_stage option"
  j_progress :: int
  j_retry_count :: int
  j_max_retries :: int
  j_error :: "dict option"
  j_resume_from_stage :: "pipeline_stage option"
  j_profile_id :: "uuid option"
  j_profile_version :: "string option"
  j_execution_plan :: plan_doc
  j_trace_context :: "(string \<times> string) list"
  j_metrics :: dict
  j_queued_at :: "instant option"
  j_started_at :: "instant option"
  j_finished_at :: "instant option"
  j_heartbeat_at :: "instant option"
  j_worker_id :: "string option"
  j_is_reprocess :: bool
  j_triggered_by :: "uuid option"
  j_created_at :: instant
  j_updated_at :: instant

subsection \<open>Stage runs and artifacts\<close>

text \<open>\<open>StorageKey.artifact(project, contract, kind, generation)\<close>; the path text is injective
  in its four parts, so a key is represented by them.\<close>

datatype storage_key = ArtifactKey uuid uuid artifact_kind int

record run_row =
  r_id :: uuid
  r_job_id :: uuid
  r_contract_id :: uuid
  r_project_id :: uuid
  r_stage :: pipeline_stage
  r_status :: stage_status
  r_attempt :: int
  r_artifact_ref :: "storage_key option"
  r_versions :: vdict
  r_stats :: dict
  r_error :: "dict option"
  r_worker_id :: "string option"
  r_queue_job_id :: "string option"
  r_started_at :: "instant option"
  r_finished_at :: "instant option"
  r_duration_ms :: "int option"

record artifact_row =
  a_id :: uuid
  a_contract_id :: uuid
  a_project_id :: uuid
  a_job_id :: "uuid option"
  a_kind :: artifact_kind
  a_storage_path :: storage_key
  a_checksum :: string
  a_size_bytes :: "int option"
  a_versions :: vdict
  a_summary :: dict
  a_generation :: int
  a_is_current :: bool

text \<open>
  The database. \<open>next_id\<close> is the source of fresh primary keys (\<open>uuid4\<close>), above every id
  in use.
\<close>

record 'k db =
  db_jobs :: "job_row list"
  db_runs :: "run_row list"
  db_artifacts :: "artifact_row list"
  db_contracts :: "contract_row list"
  db_profiles :: "profile_row list"
  db_next_id :: uuid
  db_derived :: 'k

text \<open>\<open>int((b - a).total_seconds() * 1000)\<close>: whole milliseconds, truncated towards zero.\<close>

definition millis_between :: "instant \<Rightarrow> instant \<Rightarrow> int" where
  "millis_between a b = (if a \<le> b then (b - a) div 1000 else - ((a - b) div 1000))"

text \<open>\<open>ProcessingJob.duration_ms\<close>.\<close>

definition duration_ms :: "job_row \<Rightarrow> int option" where
  "duration_ms j = (case (j_started_at j, j_finished_at j) of
       (Some a, Some b) \<Rightarrow> Some (millis_between a b) | _ \<Rightarrow> None)"

text \<open>\<open>max(runs, key=lambda r: r.attempt, default=None)\<close>: the first row of greatest attempt.\<close>

fun max_attempt_run :: "run_row list \<Rightarrow> run_row option" where
  "max_attempt_run [] = None"
| "max_attempt_run (r # rs) =
     (case max_attempt_run rs of
        None \<Rightarrow> Some r
      | Some m \<Rightarrow> if r_attempt m > r_attempt r then Some m else Some r)"

text \<open>\<open>ProcessingJob.latest_run\<close> and \<open>.checkpoint\<close>, over the job's own stage runs.\<close>

definition latest_run :: "run_row list \<Rightarrow> pipeline_stage \<Rightarrow> run_row option" where
  "latest_run runs st = max_attempt_run (filter (\<lambda>r. r_stage r = st) runs)"

definition job_checkpoint :: "run_row list \<Rightarrow> pipeline_stage \<Rightarrow> run_row option" where
  "job_checkpoint runs st =
     max_attempt_run (filter (\<lambda>r. r_stage r = st \<and> r_status r = SS_SUCCEEDED) runs)"

lemma max_attempt_run_None [simp]: "max_attempt_run rs = None \<longleftrightarrow> rs = []"
  by (cases rs) (auto split: option.splits)

lemma max_attempt_run_max:
  "max_attempt_run rs = Some m \<Longrightarrow> m \<in> set rs \<and> (\<forall>r \<in> set rs. r_attempt r \<le> r_attempt m)"
proof (induction rs arbitrary: m)
  case (Cons r rs)
  then show ?case by (cases "max_attempt_run rs") (fastforce split: if_splits)+
qed simp

end
