(* ===== verification/Fixtures.thy ===== *)
theory Fixtures
  imports Models
begin

text \<open>
  Concrete settings and rows at which the witnesses instantiate the theorems: a deployment
  on the mock providers, one PDF contract, its queued job, and for each stage a successful
  run stamped with the versions in force.
\<close>

definition fx_settings :: version_settings where
  "fx_settings = \<lparr>active_parser = ''pymupdf'', llm_provider = ''mock'',
     azure_openai_deployment = [], llm_model_simple = ''mock-small'', emb_provider = ''mock'',
     emb_model = ''mock-embed'', emb_dim = 1024, emb_version = ''1''\<rparr>"

definition fx_contract :: contract_row where
  "fx_contract = \<lparr>c_id = 20, c_project_id = 30, c_file_type = FT_PDF, c_title = None,
     c_status = CS_UPLOADED, c_needs_review = False, c_page_count = None, c_language = None,
     c_agreement_type = None, c_agreement_subtype = None, c_classification_confidence = None,
     c_profile_id = None, c_profile_version = None, c_processed_at = None,
     c_deleted_at = None\<rparr>"

definition fx_job :: job_row where
  "fx_job = \<lparr>j_id = 10, j_contract_id = 20, j_project_id = 30, j_state = JS_QUEUED,
     j_priority = JP_NORMAL, j_current_stage = None, j_progress = 0, j_retry_count = 0,
     j_max_retries = 3, j_error = None, j_resume_from_stage = None, j_profile_id = None,
     j_profile_version = None, j_execution_plan = empty_plan_doc, j_trace_context = [],
     j_metrics = [],
     j_queued_at = Some 0, j_started_at = None, j_finished_at = None, j_heartbeat_at = None,
     j_worker_id = None, j_is_reprocess = False, j_triggered_by = None, j_created_at = 0,
     j_updated_at = 0\<rparr>"

definition fx_run :: "pipeline_stage \<Rightarrow> run_row" where
  "fx_run st = \<lparr>r_id = 40, r_job_id = 11, r_contract_id = 20, r_project_id = 30, r_stage = st,
     r_status = SS_SUCCEEDED, r_attempt = 1, r_artifact_ref = None,
     r_versions = model_dump (current_versions_for_stage fx_settings st None None),
     r_stats = [], r_error = None, r_worker_id = None, r_queue_job_id = None, r_started_at = Some 0,
     r_finished_at = Some 5000, r_duration_ms = Some 5\<rparr>"

definition fx_db :: "unit db" where
  "fx_db = \<lparr>db_jobs = [fx_job], db_runs = [], db_artifacts = [], db_contracts = [fx_contract],
     db_profiles = [], db_next_id = 1000, db_derived = ()\<rparr>"

text \<open>Every stage module imports.\<close>

definition fx_imports :: "string \<Rightarrow> string option" where
  "fx_imports m = None"

lemmas fx_defs = fx_settings_def fx_contract_def fx_job_def fx_run_def fx_db_def fx_imports_def

end
