(* ===== verification/Workflow.thy ===== *)
theory Workflow
  imports Fixtures
begin

text \<open>
  \<^verbatim>\<open>backend/app/orchestrator/workflow.py\<close>, the decision plane, with the handler registry of
  \<^verbatim>\<open>backend/app/orchestrator/stages/base.py\<close>. The planner turns the checkpoints of a contract
  into the ordered list of stages to run or skip; it is a pure function of its inputs.
  The registry is a parameter \<open>imps\<close>: the import error of each stage module, \<open>None\<close>
  where the module loads and registers its handler.
\<close>

subsection \<open>The handler registry\<close>

definition STAGE_MODULES :: "string list" where
  "STAGE_MODULES =
     [''validation'', ''parser'', ''docpipeline'', ''extraction'', ''embedding'', ''indexing'']"

type_synonym import_errors = "string \<Rightarrow> string option"

record handler_info =
  h_cacheable :: bool
  h_retryable :: bool

definition handler_cacheable :: "pipeline_stage \<Rightarrow> bool" where
  "handler_cacheable st \<longleftrightarrow> st \<noteq> PS_VALIDATION"

text \<open>After \<open>_load_handlers\<close>, a stage has a handler when its module is listed and imported.\<close>

definition handler_registered :: "import_errors \<Rightarrow> pipeline_stage \<Rightarrow> bool" where
  "handler_registered imps st \<longleftrightarrow>
     stage_value st \<in> set STAGE_MODULES \<and> imps (stage_value st) = None"

definition registered_stages :: "import_errors \<Rightarrow> pipeline_stage list" where
  "registered_stages imps = filter (handler_registered imps) pipeline_stages"

definition stage_load_errors :: "import_errors \<Rightarrow> (string \<times> string) list" where
  "stage_load_errors imps =
     List.map_filter (\<lambda>n. map_option (\<lambda>e. (n, e)) (imps n)) STAGE_MODULES"

definition get_stage_handler :: "import_errors \<Rightarrow> pipeline_stage \<Rightarrow> exn + handler_info" where
  "get_stage_handler imps st =
     (if handler_registered imps st
      then Inr \<lparr>h_cacheable = handler_cacheable st, h_retryable = True\<rparr>
      else let reason = dict_get (stage_load_errors imps) (stage_value st) in
        Inl (PipelineError
          (''No handler is registered for the '' @ quoted (stage_value st) @ '' stage.'' @
            (case reason of None \<Rightarrow> [] | Some e \<Rightarrow>
               if e = [] then [] else '' Its module failed to import: '' @ e))
          (Some (stage_value st)) False
          (case reason of None \<Rightarrow> [] | Some e \<Rightarrow>
             if e = [] then [] else [(''import_error'', JStr e)])))"

subsection \<open>Plans\<close>

record planned_stage =
  ps_stage :: pipeline_stage
  ps_action :: string
  ps_reason :: "string option"
  ps_checkpoint_id :: "uuid option"
  ps_versions :: vdict

definition should_run :: "planned_stage \<Rightarrow> bool" where
  "should_run p \<longleftrightarrow> ps_action p = ''run''"

definition planned_run :: "pipeline_stage \<Rightarrow> string \<Rightarrow> vdict \<Rightarrow> planned_stage" where
  "planned_run st reason vs = \<lparr>ps_stage = st, ps_action = ''run'', ps_reason = Some reason,
     ps_checkpoint_id = None, ps_versions = vs\<rparr>"

record execution_plan =
  ep_job_id :: uuid
  ep_contract_id :: uuid
  ep_project_id :: uuid
  ep_stages :: "planned_stage list"
  ep_branches :: "string list"
  ep_extensions :: "string list"
  ep_profile_key :: "string option"
  ep_profile_version :: "string option"
  ep_notes :: "string list"

definition next_stage :: "execution_plan \<Rightarrow> pipeline_stage option" where
  "next_stage p = map_option ps_stage (List.find should_run (ep_stages p))"

definition runnable :: "execution_plan \<Rightarrow> pipeline_stage list" where
  "runnable p = map ps_stage (filter should_run (ep_stages p))"

definition skipped :: "execution_plan \<Rightarrow> pipeline_stage list" where
  "skipped p = map ps_stage (filter (\<lambda>i. \<not> should_run i) (ep_stages p))"

definition for_stage :: "execution_plan \<Rightarrow> pipeline_stage \<Rightarrow> planned_stage option" where
  "for_stage p st = List.find (\<lambda>i. ps_stage i = st) (ep_stages p)"

definition item_to_dict :: "planned_stage \<Rightarrow> plan_item" where
  "item_to_dict i = \<lparr>pi_stage = stage_value (ps_stage i), pi_action = ps_action i,
     pi_reason = ps_reason i, pi_checkpoint_id = ps_checkpoint_id i, pi_versions = ps_versions i\<rparr>"

text \<open>\<open>{**(job.execution_plan or {}), **plan.to_dict()}\<close>: every planner key is overwritten,
  the \<open>context\<close> key stays.\<close>

definition merge_plan :: "plan_doc \<Rightarrow> execution_plan \<Rightarrow> plan_doc" where
  "merge_plan doc p = doc\<lparr>pd_stages := Some (map item_to_dict (ep_stages p)),
     pd_branches := ep_branches p, pd_extensions := ep_extensions p,
     pd_profile_key := ep_profile_key p, pd_profile_version := ep_profile_version p,
     pd_notes := ep_notes p\<rparr>"

subsection \<open>Planning one stage\<close>

type_synonym checkpoints = "pipeline_stage \<Rightarrow> run_row option"

definition versions_for ::
    "version_settings \<Rightarrow> pipeline_stage \<Rightarrow> profile_row option \<Rightarrow> component_versions" where
  "versions_for vs st profile = current_versions_for_stage vs st
     (map_option (\<lambda>p. uuid_str (p_id p)) profile) (map_option p_version profile)"

definition plan_stage :: "version_settings \<Rightarrow> import_errors \<Rightarrow> pipeline_stage \<Rightarrow> profile_row option \<Rightarrow>
    run_row option \<Rightarrow> bool \<Rightarrow> planned_stage" where
  "plan_stage vs imps st profile checkpoint force =
     (let current = versions_for vs st profile; serialised = model_dump current in
      if force then planned_run st ''forced'' serialised
      else case checkpoint of
        None \<Rightarrow> planned_run st ''no_checkpoint'' serialised
      | Some cp \<Rightarrow>
          (case get_stage_handler imps st of
             Inl _ \<Rightarrow> planned_run st ''handler_unavailable'' serialised
           | Inr handler \<Rightarrow>
               if \<not> h_cacheable handler
               then planned_run st ''stage_not_cacheable'' serialised
               else if matches current (Some (r_versions cp))
               then \<lparr>ps_stage = st, ps_action = ''skip'', ps_reason = Some ''checkpoint_current'',
                      ps_checkpoint_id = Some (r_id cp), ps_versions = r_versions cp\<rparr>
               else planned_run st
                 (''version_changed:'' @
                    join '','' (sort (map fst (diff current (Some (r_versions cp))))))
                 serialised))"

subsection \<open>Planning a job\<close>

text \<open>The loop over the scope: once a stage runs, every later skip becomes a run.\<close>

fun plan_scope :: "(pipeline_stage \<Rightarrow> planned_stage) \<Rightarrow> bool \<Rightarrow> pipeline_stage list \<Rightarrow>
    planned_stage list" where
  "plan_scope judge upstream [] = []"
| "plan_scope judge upstream (st # rest) =
     (let planned = judge st;
          planned' = (if upstream \<and> ps_action planned = ''skip''
                      then planned_run st ''upstream_rerun'' (ps_versions planned) else planned)
      in planned' # plan_scope judge (upstream \<or> ps_action planned' = ''run'') rest)"

definition missing_prerequisites :: "nat \<Rightarrow> checkpoints \<Rightarrow> string list" where
  "missing_prerequisites i cps =
     map stage_value (filter (\<lambda>st. cps st = None) (take i STAGE_ORDER))"

definition validate_prerequisites :: "pipeline_stage \<Rightarrow> checkpoints \<Rightarrow> exn + unit" where
  "validate_prerequisites from_stage cps =
     (case stage_index from_stage of
        None \<Rightarrow> Inl (PyErr ''ValueError'' ''tuple.index(x): x not in tuple'')
      | Some i \<Rightarrow>
          (let missing = missing_prerequisites i cps in
           if missing \<noteq> []
           then Inl (InvalidStateTransitionError
             (''Cannot resume at '' @ quoted (stage_value from_stage) @
              '': earlier stages have not completed ('' @ join '', '' missing @ '').'')
             [(''from_stage'', JStr (stage_value from_stage)),
              (''missing_stages'', JArr (map JStr missing))])
           else Inr ()))"

definition resolve_branches :: "contract_row \<Rightarrow> string list" where
  "resolve_branches c =
     (if c_file_type c = FT_PDF then [''pdf'', ''ocr_available'']
      else if c_file_type c = FT_DOCX then [''docx''] else [])"

definition plan :: "version_settings \<Rightarrow> import_errors \<Rightarrow> job_row \<Rightarrow> contract_row \<Rightarrow> profile_row option \<Rightarrow>
    pipeline_stage option \<Rightarrow> bool \<Rightarrow> checkpoints \<Rightarrow> exn + execution_plan" where
  "plan vs imps job contract profile from_stage force cps =
     (let build = (\<lambda>scope.
        let stages = plan_scope (\<lambda>st. plan_stage vs imps st profile (cps st) force) False scope;
            p = \<lparr>ep_job_id = j_id job, ep_contract_id = c_id contract,
                  ep_project_id = c_project_id contract, ep_stages = stages,
                  ep_branches = resolve_branches contract,
                  ep_extensions = (case profile of None \<Rightarrow> [] | Some pr \<Rightarrow> p_workflow_extensions pr),
                  ep_profile_key = map_option p_key profile,
                  ep_profile_version = map_option p_version profile, ep_notes = []\<rparr>
        in if runnable p = []
           then p\<lparr>ep_notes := [''Every stage has a current checkpoint; nothing needs to run.'']\<rparr>
           else p)
      in case from_stage of
           None \<Rightarrow> Inr (build STAGE_ORDER)
         | Some st \<Rightarrow>
             (case stages_from st of
                None \<Rightarrow> Inl (PyErr ''ValueError'' ''tuple.index(x): x not in tuple'')
              | Some scope \<Rightarrow>
                  (case validate_prerequisites st cps of
                     Inl e \<Rightarrow> Inl e
                   | Inr _ \<Rightarrow> Inr (build scope))))"

subsection \<open>Transitions\<close>

fun first_after :: "nat \<Rightarrow> planned_stage list \<Rightarrow> pipeline_stage option" where
  "first_after position [] = None"
| "first_after position (item # rest) =
     (case stage_position (ps_stage item) of
        None \<Rightarrow> first_after position rest
      | Some index \<Rightarrow>
          if index \<le> position then first_after position rest
          else if should_run item then Some (ps_stage item)
          else first_after position rest)"

definition next_after :: "execution_plan \<Rightarrow> pipeline_stage \<Rightarrow> pipeline_stage option" where
  "next_after p completed =
     (case stage_index completed of
        None \<Rightarrow> None
      | Some position \<Rightarrow> first_after position (ep_stages p))"

definition validate_transition :: "job_state \<Rightarrow> pipeline_stage \<Rightarrow> exn + unit" where
  "validate_transition state st =
     (if state \<in> {JS_CANCELLED, JS_PAUSED}
      then Inl (InvalidStateTransitionError
        (''This job is '' @ lower (job_state_value state) @ '' and cannot run further stages.'')
        [(''state'', JStr (job_state_value state)), (''stage'', JStr (stage_value st))])
      else if state = JS_READY \<and> st \<noteq> PS_INDEXING
      then Inl (InvalidStateTransitionError
        ''This job has already completed. Trigger a reprocess instead of a stage dispatch.''
        [(''state'', JStr (job_state_value state))])
      else Inr ())"

definition dependencies_satisfied :: "pipeline_stage \<Rightarrow> checkpoints \<Rightarrow> bool" where
  "dependencies_satisfied st cps =
     list_all (\<lambda>d. case cps d of None \<Rightarrow> False | Some r \<Rightarrow> r_status r = SS_SUCCEEDED)
       (STAGE_DEPENDENCIES st)"

definition progress_weights :: "pipeline_stage \<Rightarrow> int \<times> int" where
  "progress_weights st =
     (case st of PS_VALIDATION \<Rightarrow> (0, 3) | PS_PARSER \<Rightarrow> (3, 35) | PS_DOCPIPELINE \<Rightarrow> (35, 50)
      | PS_EXTRACTION \<Rightarrow> (50, 85) | PS_EMBEDDING \<Rightarrow> (85, 95) | PS_INDEXING \<Rightarrow> (95, 100)
      | _ \<Rightarrow> (0, 100))"

definition progress_for :: "pipeline_stage \<Rightarrow> bool \<Rightarrow> int" where
  "progress_for st completed =
     (let (start, stop) = progress_weights st in if completed then stop else start)"

subsection \<open>Laws of the planner\<close>

lemma ps_stage_planned_run [simp]:
  "ps_stage (planned_run st r v) = st" "ps_action (planned_run st r v) = ''run''"
  "ps_versions (planned_run st r v) = v" "should_run (planned_run st r v)"
  "ps_reason (planned_run st r v) = Some r" "ps_checkpoint_id (planned_run st r v) = None"
  by (simp_all add: planned_run_def should_run_def)

lemma plan_stage_stage [simp]: "ps_stage (plan_stage vs imps st pr cp force) = st"
  by (simp add: plan_stage_def Let_def split: option.splits sum.splits)

lemma plan_stage_action:
  "ps_action (plan_stage vs imps st pr cp force) = ''run'' \<or>
   ps_action (plan_stage vs imps st pr cp force) = ''skip''"
  by (simp add: plan_stage_def Let_def split: option.splits sum.splits)

text \<open>When exactly one stage reuses its checkpoint, and what the skip records.\<close>

lemma plan_stage_skip_iff:
  "ps_action (plan_stage vs imps st pr cp force) = ''skip'' \<longleftrightarrow>
   \<not> force \<and> handler_registered imps st \<and> handler_cacheable st \<and>
   (\<exists>r. cp = Some r \<and> matches (versions_for vs st pr) (Some (r_versions r)))"
  by (auto simp: plan_stage_def Let_def get_stage_handler_def split: option.splits sum.splits)

lemma plan_stage_skip_record:
  assumes "ps_action (plan_stage vs imps st pr cp force) = ''skip''"
  shows "\<exists>r. cp = Some r \<and> plan_stage vs imps st pr cp force = \<lparr>ps_stage = st, ps_action = ''skip'',
       ps_reason = Some ''checkpoint_current'', ps_checkpoint_id = Some (r_id r),
       ps_versions = r_versions r\<rparr>"
proof -
  from assms obtain r where "\<not> force" "handler_registered imps st" "handler_cacheable st"
    "cp = Some r" "matches (versions_for vs st pr) (Some (r_versions r))"
    unfolding plan_stage_skip_iff by blast
  then show ?thesis by (simp add: plan_stage_def get_stage_handler_def)
qed

lemma plan_scope_stages:
  "(\<And>st. ps_stage (judge st) = st) \<Longrightarrow> map ps_stage (plan_scope judge up scope) = scope"
  by (induction scope arbitrary: up) (simp_all add: Let_def)

lemma plan_scope_upstream_all_run:
  assumes "\<And>st. ps_action (judge st) = ''run'' \<or> ps_action (judge st) = ''skip''"
  shows "\<forall>p \<in> set (plan_scope judge True scope). should_run p"
proof (induction scope)
  case (Cons st rest)
  then show ?case using assms[of st] by (auto simp: Let_def should_run_def)
qed simp

text \<open>The runs of a planned scope form a suffix of it.\<close>

lemma plan_scope_sorted:
  assumes judged: "\<And>st. ps_action (judge st) = ''run'' \<or> ps_action (judge st) = ''skip''"
  shows "sorted_wrt (\<lambda>a b. should_run a \<longrightarrow> should_run b) (plan_scope judge up scope)"
proof (induction scope arbitrary: up)
  case (Cons st rest)
  define p where "p = (if up \<and> ps_action (judge st) = ''skip''
    then planned_run st ''upstream_rerun'' (ps_versions (judge st)) else judge st)"
  have tail: "plan_scope judge up (st # rest) = p # plan_scope judge (up \<or> ps_action p = ''run'') rest"
    by (simp add: p_def Let_def)
  have "should_run p \<Longrightarrow> \<forall>q \<in> set (plan_scope judge (up \<or> ps_action p = ''run'') rest). should_run q"
    using plan_scope_upstream_all_run[OF judged] by (simp add: should_run_def)
  with Cons show ?case by (simp add: tail del: plan_scope.simps)
qed simp

lemma plan_scope_skip_judged:
  "p \<in> set (plan_scope judge up scope) \<Longrightarrow> \<not> should_run p \<Longrightarrow> \<exists>st \<in> set scope. p = judge st"
  by (induction scope arbitrary: up) (auto simp: Let_def split: if_splits)

lemma find_least_iff:
  fixes f :: "'a \<Rightarrow> nat"
  assumes "sorted_wrt (\<lambda>a b. f a < f b) xs"
  shows "List.find P xs = Some x \<longleftrightarrow> x \<in> set xs \<and> P x \<and> (\<forall>y \<in> set xs. P y \<longrightarrow> f x \<le> f y)"
  using assms by (induction xs) (auto simp: not_le[symmetric] dest: less_imp_le)

definition scope_of :: "pipeline_stage option \<Rightarrow> pipeline_stage list" where
  "scope_of fs = (case fs of None \<Rightarrow> STAGE_ORDER | Some st \<Rightarrow>
     (case stages_from st of None \<Rightarrow> [] | Some scope \<Rightarrow> scope))"

lemma plan_ep_stages:
  assumes "plan vs imps job c pr fs force cps = Inr p"
  shows "ep_stages p =
    plan_scope (\<lambda>st. plan_stage vs imps st pr (cps st) force) False (scope_of fs)"
  using assms
  by (cases fs) (auto simp: plan_def scope_of_def Let_def split: option.splits sum.splits if_splits)

lemma plan_ep_notes:
  assumes "plan vs imps job c pr fs force cps = Inr p" and "runnable p \<noteq> []"
  shows "ep_notes p = []"
  using assms
  by (cases fs) (auto simp: plan_def Let_def runnable_def simp del: plan_scope.simps
      split: option.splits sum.splits if_splits)

lemma plan_stages_scope:
  assumes "plan vs imps job c pr fs force cps = Inr p"
  shows "map ps_stage (ep_stages p) = scope_of fs"
  by (simp add: plan_ep_stages[OF assms] plan_scope_stages)

lemma sorted_wrt_drop: "sorted_wrt R xs \<Longrightarrow> sorted_wrt R (drop n xs)"
  by (metis append_take_drop_id sorted_wrt_append)

lemma STAGE_ORDER_sorted:
  "sorted_wrt (\<lambda>a b. the (stage_index a) < the (stage_index b)) STAGE_ORDER"
  by (simp add: stage_order_simps)

lemma scope_of_sorted:
  "sorted_wrt (\<lambda>a b. the (stage_index a) < the (stage_index b)) (scope_of fs)"
  using STAGE_ORDER_sorted
  by (auto simp: scope_of_def stages_from_def sorted_wrt_drop split: option.splits)

lemma scope_of_subset: "set (scope_of fs) \<subseteq> set STAGE_ORDER"
  by (auto simp: scope_of_def stages_from_def dest: in_set_dropD split: option.splits)

lemma first_after_find:
  "first_after pos items = map_option ps_stage
     (List.find (\<lambda>i. should_run i \<and> (\<exists>k. stage_index (ps_stage i) = Some k \<and> pos < k)) items)"
  by (induction pos items rule: first_after.induct) (auto split: option.splits)

lemma first_after_SomeD:
  assumes "first_after pos items = Some s"
  shows "\<exists>k. stage_index s = Some k \<and> pos < k"
  using assms by (auto simp: first_after_find dest!: find_SomeD)

lemma next_after_index:
  "next_after p c = Some s \<Longrightarrow>
   \<exists>i k. stage_index c = Some i \<and> stage_index s = Some k \<and> i < k"
  by (auto simp: next_after_def dest: first_after_SomeD split: option.splits)

lemma full_plan_runs_all:
  assumes "plan vs imps job c pr None force cps = Inr p"
  shows "runnable p = STAGE_ORDER"
proof -
  let ?judge = "\<lambda>st. plan_stage vs imps st pr (cps st) force"
  have judged: "ps_action (?judge st) = ''run'' \<or> ps_action (?judge st) = ''skip''" for st
    by (rule plan_stage_action)
  have first: "ps_action (?judge PS_VALIDATION) = ''run''"
    using judged plan_stage_skip_iff by (metis handler_cacheable_def)
  obtain rest where order: "STAGE_ORDER = PS_VALIDATION # rest" by (simp add: STAGE_ORDER_def)
  have "plan_scope ?judge False STAGE_ORDER = ?judge PS_VALIDATION # plan_scope ?judge True rest"
    by (simp only: order plan_scope.simps Let_def first simp_thms if_False)
  then have "ep_stages p = ?judge PS_VALIDATION # plan_scope ?judge True rest"
    by (simp add: plan_ep_stages[OF assms] scope_of_def)
  then have "\<forall>q \<in> set (ep_stages p). should_run q"
    using plan_scope_upstream_all_run[OF judged] first by (simp add: should_run_def)
  then show ?thesis
    using plan_stages_scope[OF assms] by (simp add: runnable_def scope_of_def)
qed

subsection \<open>The planner on the fixture rows\<close>

lemma fx_registered: "st \<in> set STAGE_ORDER \<Longrightarrow> handler_registered fx_imports st"
  by (auto simp: handler_registered_def STAGE_ORDER_def STAGE_MODULES_def fx_imports_def)

lemma fx_current: "matches (versions_for fx_settings st None) (Some (r_versions (fx_run st)))"
  using matches_own_dump by (simp add: versions_for_def fx_run_def)

lemma fx_plan_stage_skip:
  assumes "st \<in> set STAGE_ORDER" and "st \<noteq> PS_VALIDATION"
  shows "plan_stage fx_settings fx_imports st None (Some (fx_run st)) False =
    \<lparr>ps_stage = st, ps_action = ''skip'', ps_reason = Some ''checkpoint_current'',
     ps_checkpoint_id = Some 40, ps_versions = r_versions (fx_run st)\<rparr>"
  using assms fx_registered fx_current[of st]
  by (simp add: plan_stage_def get_stage_handler_def handler_cacheable_def) (simp add: fx_run_def)

lemma fx_resume_plan:
  "\<exists>p. plan fx_settings fx_imports fx_job fx_contract None (Some PS_EMBEDDING) False
         (\<lambda>st. Some (fx_run st)) = Inr p \<and>
     ep_stages p =
       [\<lparr>ps_stage = PS_EMBEDDING, ps_action = ''skip'', ps_reason = Some ''checkpoint_current'',
         ps_checkpoint_id = Some 40, ps_versions = r_versions (fx_run PS_EMBEDDING)\<rparr>,
        \<lparr>ps_stage = PS_INDEXING, ps_action = ''skip'', ps_reason = Some ''checkpoint_current'',
         ps_checkpoint_id = Some 40, ps_versions = r_versions (fx_run PS_INDEXING)\<rparr>]"
  by (simp add: plan_def stage_order_simps validate_prerequisites_def missing_prerequisites_def
      fx_plan_stage_skip[unfolded STAGE_ORDER_def] runnable_def should_run_def Let_def)

subsection \<open>Properties\<close>

text \<open>C22: a plan lists exactly the stages of its scope in execution order (all six without a
  starting stage, otherwise the starting stage and everything after it), and once one of
  them runs every later one runs too, so no stage reuses a checkpoint computed from an
  input that this job replaces.\<close>

theorem plan_covers_scope_and_cascades:
  assumes "plan vs imps job c pr fs force cps = Inr p"
  shows "map ps_stage (ep_stages p) = scope_of fs \<and>
    sorted_wrt (\<lambda>a b. should_run a \<longrightarrow> should_run b) (ep_stages p)"
  using plan_stages_scope[OF assms] plan_scope_sorted[OF plan_stage_action]
  by (simp add: plan_ep_stages[OF assms])

theorem plan_covers_scope_and_cascades_witness:
  "\<exists>p. plan fx_settings fx_imports fx_job fx_contract None (Some PS_EMBEDDING) False
       (\<lambda>st. Some (fx_run st)) = Inr p \<and>
     map ps_stage (ep_stages p) = [PS_EMBEDDING, PS_INDEXING] \<and>
     sorted_wrt (\<lambda>a b. should_run a \<longrightarrow> should_run b) (ep_stages p)"
proof -
  obtain p where p: "plan fx_settings fx_imports fx_job fx_contract None (Some PS_EMBEDDING) False
      (\<lambda>st. Some (fx_run st)) = Inr p" using fx_resume_plan by blast
  show ?thesis using p plan_covers_scope_and_cascades[OF p]
    by (simp add: scope_of_def stage_order_simps)
qed

text \<open>A stage is skipped only on the checkpoint it was given: reuse was not forced off, the handler is
  registered and cacheable, and the versions match the ones in force.\<close>

lemma skip_needs_matching_checkpoint:
  assumes "plan vs imps job c pr fs force cps = Inr p"
    and "item \<in> set (ep_stages p)" and "\<not> should_run item"
  shows "\<not> force \<and> handler_registered imps (ps_stage item) \<and> handler_cacheable (ps_stage item) \<and>
    (\<exists>r. cps (ps_stage item) = Some r \<and> ps_checkpoint_id item = Some (r_id r) \<and>
         ps_versions item = r_versions r \<and>
         matches (versions_for vs (ps_stage item) pr) (Some (r_versions r)))"
proof -
  from assms obtain st where item: "item = plan_stage vs imps st pr (cps st) force"
    by (auto simp: plan_ep_stages[OF assms(1)] dest: plan_scope_skip_judged)
  with assms(3) have skip: "ps_action (plan_stage vs imps st pr (cps st) force) = ''skip''"
    using plan_stage_action[of vs imps st pr "cps st" force] by (simp add: should_run_def)
  obtain r where r: "cps st = Some r"
    "ps_checkpoint_id item = Some (r_id r)" "ps_versions item = r_versions r"
    using plan_stage_skip_record[OF skip] by (auto simp: item)
  moreover have "ps_stage item = st" by (simp add: item)
  ultimately show ?thesis using skip unfolding plan_stage_skip_iff by auto
qed

text \<open>a plan built without a starting stage never reuses a checkpoint: validation is not
  cacheable, it is first in the order, and a running stage makes every later one run. The
  documented incremental reuse therefore happens on resumes past validation only.\<close>

theorem full_plan_runs_every_stage:
  assumes "plan vs imps job c pr None force cps = Inr p"
  shows "runnable p = STAGE_ORDER \<and> ep_notes p = []"
  using full_plan_runs_all[OF assms] plan_ep_notes[OF assms] by (simp add: STAGE_ORDER_def)

theorem full_plan_runs_every_stage_witness:
  "\<exists>p. plan fx_settings fx_imports fx_job fx_contract None None False
       (\<lambda>st. Some (fx_run st)) = Inr p \<and> runnable p = STAGE_ORDER"
proof -
  obtain p where p: "plan fx_settings fx_imports fx_job fx_contract None None False
      (\<lambda>st. Some (fx_run st)) = Inr p" by (simp add: plan_def Let_def)
  show ?thesis using p full_plan_runs_every_stage[OF p] by blast
qed

text \<open>planning from a starting stage raises exactly when that stage is retired or some
  earlier stage of the order has no checkpoint.\<close>

theorem plan_raises_iff:
  "(\<exists>e. plan vs imps job c pr (Some st) force cps = Inl e) \<longleftrightarrow>
   (case stage_index st of None \<Rightarrow> True
    | Some i \<Rightarrow> \<exists>d \<in> set (take i STAGE_ORDER). cps d = None)"
  by (auto simp: plan_def Let_def stages_from_def validate_prerequisites_def
      missing_prerequisites_def filter_empty_conv split: option.splits)

text \<open>for a plan the planner built, the stage dispatched after a completed one is the
  least stage later in the order that the plan runs, and nothing is dispatched exactly when
  no later stage runs.\<close>

theorem next_after_is_least_runnable:
  assumes "plan vs imps job c pr fs force cps = Inr p" and "stage_index done = Some i"
  shows "next_after p done = Some s \<longleftrightarrow>
    s \<in> set (runnable p) \<and> i < the (stage_index s) \<and>
    (\<forall>t \<in> set (runnable p). i < the (stage_index t) \<longrightarrow> the (stage_index s) \<le> the (stage_index t))"
proof -
  let ?idx = "\<lambda>it. the (stage_index (ps_stage it))"
  let ?P = "\<lambda>it. should_run it \<and> (\<exists>k. stage_index (ps_stage it) = Some k \<and> i < k)"
  have stages: "map ps_stage (ep_stages p) = scope_of fs" by (rule plan_stages_scope[OF assms(1)])
  then have sorted: "sorted_wrt (\<lambda>a b. ?idx a < ?idx b) (ep_stages p)"
    using scope_of_sorted[of fs] by (simp add: sorted_wrt_map stages[symmetric])
  have indexed: "\<exists>k. stage_index (ps_stage it) = Some k" if "it \<in> set (ep_stages p)" for it
  proof -
    have "ps_stage it \<in> set (scope_of fs)" using that by (simp flip: stages)
    then have "ps_stage it \<in> set STAGE_ORDER" using scope_of_subset by blast
    then show ?thesis using stage_index_None_iff by blast
  qed
  have "next_after p done = map_option ps_stage (List.find ?P (ep_stages p))"
    using assms(2) by (simp add: next_after_def first_after_find)
  then have "next_after p done = Some s \<longleftrightarrow>
      (\<exists>x. ps_stage x = s \<and> x \<in> set (ep_stages p) \<and> ?P x \<and> (\<forall>y \<in> set (ep_stages p). ?P y \<longrightarrow> ?idx x \<le> ?idx y))"
    using find_least_iff[OF sorted, of ?P] by auto
  also have "\<dots> \<longleftrightarrow> s \<in> set (runnable p) \<and> i < the (stage_index s) \<and>
      (\<forall>t \<in> set (runnable p). i < the (stage_index t) \<longrightarrow> the (stage_index s) \<le> the (stage_index t))"
    using indexed by (fastforce simp: runnable_def)
  finally show ?thesis .
qed

theorem next_after_is_least_runnable_witness:
  "\<exists>p. plan fx_settings fx_imports fx_job fx_contract None None False (\<lambda>st. None) = Inr p \<and>
     next_after p PS_PARSER = Some PS_DOCPIPELINE"
proof -
  obtain p where p: "plan fx_settings fx_imports fx_job fx_contract None None False
      (\<lambda>st. None) = Inr p" by (simp add: plan_def Let_def)
  have i: "stage_index PS_PARSER = Some 1" by (simp add: stage_order_simps)
  show ?thesis using p full_plan_runs_all[OF p]
    by (simp add: next_after_is_least_runnable[OF p i] stage_order_simps)
qed

text \<open>reported progress stays within 0 to 100, every stage advances it, and each stage
  starts where the one before it ended, so the bar neither jumps back nor reaches 100 early.\<close>

theorem progress_is_contiguous:
  "(\<forall>st. 0 \<le> progress_for st False \<and> progress_for st False < progress_for st True \<and>
      progress_for st True \<le> 100) \<and>
   progress_for (STAGE_ORDER ! 0) False = 0 \<and> progress_for (STAGE_ORDER ! 5) True = 100 \<and>
   map (\<lambda>st. progress_for st True) (butlast STAGE_ORDER) =
     map (\<lambda>st. progress_for st False) (tl STAGE_ORDER)"
  by (auto simp: progress_for_def progress_weights_def STAGE_ORDER_def numeral_eq_Suc
      split: pipeline_stage.splits)

end
