(* ===== verification/ProcessingRepo.thy ===== *)
theory ProcessingRepo
  imports Workflow
begin

text \<open>
  \<^verbatim>\<open>backend/app/repositories/processing.py\<close> over \<^verbatim>\<open>base.py\<close>, with the two operations of
  \<^verbatim>\<open>contract.py\<close> the runner uses. Every operation takes the database and returns it updated;
  \<open>now\<close> is the value \<open>datetime.now(UTC)\<close> (and the transaction's \<open>now()\<close>, which the
  \<open>updated_at\<close> trigger writes on every update of a job row). Rows of a table without an
  \<open>ORDER BY\<close> come in insertion order.
\<close>

subsection \<open>Job rows\<close>

definition get_job :: "uuid \<Rightarrow> 'k db \<Rightarrow> job_row option" where
  "get_job jid d = List.find (\<lambda>j. j_id j = jid) (db_jobs d)"

text \<open>\<open>bulk_update(ProcessingJob.id == job_id, \<dots>)\<close>; the trigger stamps \<open>updated_at\<close>.\<close>

definition update_job :: "instant \<Rightarrow> uuid \<Rightarrow> (job_row \<Rightarrow> job_row) \<Rightarrow> 'k db \<Rightarrow> 'k db" where
  "update_job now jid f d =
     d\<lparr>db_jobs := update_where (\<lambda>j. j_id j = jid) (\<lambda>j. (f j)\<lparr>j_updated_at := now\<rparr>) (db_jobs d)\<rparr>"

definition create_job :: "instant \<Rightarrow> uuid \<Rightarrow> uuid \<Rightarrow> job_priority \<Rightarrow> uuid option \<Rightarrow>
    (string \<times> string) list \<Rightarrow> bool \<Rightarrow> pipeline_stage option \<Rightarrow> 'k db \<Rightarrow> 'k db \<times> job_row" where
  "create_job now contract project priority triggered_by trace is_reprocess resume d =
     (let j = \<lparr>j_id = db_next_id d, j_contract_id = contract, j_project_id = project,
            j_state = JS_QUEUED, j_priority = priority, j_current_stage = None, j_progress = 0,
            j_retry_count = 0, j_max_retries = 3, j_error = None, j_resume_from_stage = resume,
            j_profile_id = None, j_profile_version = None, j_execution_plan = empty_plan_doc,
            j_trace_context = trace, j_metrics = [], j_queued_at = Some now,
            j_started_at = None, j_finished_at = None, j_heartbeat_at = None,
            j_worker_id = None, j_is_reprocess = is_reprocess, j_triggered_by = triggered_by,
            j_created_at = now, j_updated_at = now\<rparr>
      in (d\<lparr>db_jobs := db_jobs d @ [j], db_next_id := Suc (db_next_id d)\<rparr>, j))"

text \<open>The newest of a list by a strict order, the earlier row on ties:
  \<open>ORDER BY \<dots> DESC LIMIT 1\<close>.\<close>

fun first_max :: "('r \<Rightarrow> 'r \<Rightarrow> bool) \<Rightarrow> 'r list \<Rightarrow> 'r option" where
  "first_max older [] = None"
| "first_max older (r # rs) =
     (case first_max older rs of
        None \<Rightarrow> Some r
      | Some m \<Rightarrow> if older r m then Some m else Some r)"

definition active_for_contract :: "uuid \<Rightarrow> 'k db \<Rightarrow> job_row option" where
  "active_for_contract cid d =
     first_max (\<lambda>a b. j_created_at a < j_created_at b)
       (filter (\<lambda>j. j_contract_id j = cid \<and> j_state j \<notin> {JS_READY, JS_FAILED, JS_CANCELLED})
         (db_jobs d))"

definition filtered_query :: "uuid list \<Rightarrow> job_state list \<Rightarrow> pipeline_stage option \<Rightarrow> uuid option \<Rightarrow>
    bool \<Rightarrow> 'k db \<Rightarrow> job_row list" where
  "filtered_query project_ids states st contract failed_only d =
     filter (\<lambda>j. j_project_id j \<in> set project_ids \<and>
         (states \<noteq> [] \<longrightarrow> j_state j \<in> set states) \<and>
         (st \<noteq> None \<longrightarrow> j_current_stage j = st) \<and>
         (contract \<noteq> None \<longrightarrow> Some (j_contract_id j) = contract) \<and>
         (failed_only \<longrightarrow> j_state j = JS_FAILED)) (db_jobs d)"

definition state_count :: "uuid list \<Rightarrow> job_state \<Rightarrow> 'k db \<Rightarrow> nat" where
  "state_count project_ids s d =
     length (filter (\<lambda>j. j_project_id j \<in> set project_ids \<and> j_state j = s) (db_jobs d))"

definition count_in_flight :: "'k db \<Rightarrow> nat" where
  "count_in_flight d =
     length (filter (\<lambda>j. j_state j \<notin> {JS_READY, JS_FAILED, JS_CANCELLED}) (db_jobs d))"

subsection \<open>Transitions\<close>

definition stage_started_row :: "instant \<Rightarrow> pipeline_stage \<Rightarrow> string option \<Rightarrow> job_row \<Rightarrow> job_row" where
  "stage_started_row now st worker j = j\<lparr>j_state := STAGE_TO_STATE st, j_current_stage := Some st,
     j_heartbeat_at := Some now, j_worker_id := worker,
     j_started_at := (case j_started_at j of None \<Rightarrow> Some now | Some t \<Rightarrow> Some t)\<rparr>"

definition mark_stage_started :: "instant \<Rightarrow> uuid \<Rightarrow> pipeline_stage \<Rightarrow> string option \<Rightarrow> 'k db \<Rightarrow> 'k db" where
  "mark_stage_started now jid st worker d =
     (case get_job jid d of
        None \<Rightarrow> d
      | Some _ \<Rightarrow> update_job now jid (stage_started_row now st worker) d)"

definition progress_row :: "instant \<Rightarrow> int \<Rightarrow> job_row \<Rightarrow> job_row" where
  "progress_row now progress j = j\<lparr>j_progress := max 0 (min 100 progress), j_heartbeat_at := Some now\<rparr>"

definition update_progress :: "instant \<Rightarrow> uuid \<Rightarrow> int \<Rightarrow> 'k db \<Rightarrow> 'k db" where
  "update_progress now jid progress = update_job now jid (progress_row now progress)"

definition heartbeat_row :: "instant \<Rightarrow> job_row \<Rightarrow> job_row" where
  "heartbeat_row now j = j\<lparr>j_heartbeat_at := Some now\<rparr>"

definition heartbeat :: "instant \<Rightarrow> uuid \<Rightarrow> 'k db \<Rightarrow> 'k db" where
  "heartbeat now jid = update_job now jid (heartbeat_row now)"

definition ready_row :: "instant \<Rightarrow> job_row \<Rightarrow> job_row" where
  "ready_row now j = j\<lparr>j_state := JS_READY, j_current_stage := None, j_progress := 100,
     j_error := None, j_finished_at := Some now\<rparr>"

definition mark_ready :: "instant \<Rightarrow> uuid \<Rightarrow> 'k db \<Rightarrow> 'k db" where
  "mark_ready now jid = update_job now jid (ready_row now)"

definition failed_row :: "instant \<Rightarrow> pipeline_stage option \<Rightarrow> dict \<Rightarrow> job_row \<Rightarrow> job_row" where
  "failed_row now st err j = j\<lparr>j_state := JS_FAILED, j_current_stage := st,
     j_resume_from_stage := st, j_error := Some err, j_finished_at := Some now\<rparr>"

definition mark_failed :: "instant \<Rightarrow> uuid \<Rightarrow> pipeline_stage option \<Rightarrow> dict \<Rightarrow> 'k db \<Rightarrow> 'k db" where
  "mark_failed now jid st err = update_job now jid (failed_row now st err)"

definition retrying_row :: "instant \<Rightarrow> pipeline_stage \<Rightarrow> int \<Rightarrow> job_row \<Rightarrow> job_row" where
  "retrying_row now st attempt j = j\<lparr>j_state := JS_RETRYING, j_current_stage := Some st,
     j_retry_count := attempt, j_heartbeat_at := Some now\<rparr>"

definition mark_retrying :: "instant \<Rightarrow> uuid \<Rightarrow> pipeline_stage \<Rightarrow> int \<Rightarrow> 'k db \<Rightarrow> 'k db" where
  "mark_retrying now jid st attempt = update_job now jid (retrying_row now st attempt)"

definition cancelled_row :: "instant \<Rightarrow> job_row \<Rightarrow> job_row" where
  "cancelled_row now j = j\<lparr>j_state := JS_CANCELLED, j_finished_at := Some now\<rparr>"

definition mark_cancelled :: "instant \<Rightarrow> uuid \<Rightarrow> 'k db \<Rightarrow> 'k db" where
  "mark_cancelled now jid = update_job now jid (cancelled_row now)"

definition paused_row :: "job_row \<Rightarrow> job_row" where
  "paused_row j = j\<lparr>j_state := JS_PAUSED\<rparr>"

definition mark_paused :: "instant \<Rightarrow> uuid \<Rightarrow> 'k db \<Rightarrow> 'k db" where
  "mark_paused now jid = update_job now jid paused_row"

definition queued_row :: "instant \<Rightarrow> pipeline_stage option \<Rightarrow> job_row \<Rightarrow> job_row" where
  "queued_row now resume j = j\<lparr>j_state := JS_QUEUED, j_error := None,
     j_resume_from_stage := resume, j_queued_at := Some now, j_finished_at := None\<rparr>"

definition mark_queued :: "instant \<Rightarrow> uuid \<Rightarrow> pipeline_stage option \<Rightarrow> 'k db \<Rightarrow> 'k db" where
  "mark_queued now jid resume = update_job now jid (queued_row now resume)"

text \<open>
  \<open>isinstance(value, int | float)\<close>: booleans are ints in Python, so they add as 0 and 1.
  JSON floats are not represented in \<open>json\<close>.
\<close>

fun as_number :: "json \<Rightarrow> int option" where
  "as_number (JInt i) = Some i"
| "as_number (JBool b) = Some (of_bool b)"
| "as_number _ = None"

definition merge_metric :: "string \<times> json \<Rightarrow> dict \<Rightarrow> dict" where
  "merge_metric kv merged =
     (case (as_number (snd kv), Option.bind (dict_get merged (fst kv)) as_number) of
        (Some a, Some b) \<Rightarrow> AList.update (fst kv) (JInt (b + a)) merged
      | _ \<Rightarrow> AList.update (fst kv) (snd kv) merged)"

definition merge_metrics :: "dict \<Rightarrow> dict \<Rightarrow> dict" where
  "merge_metrics old values = fold merge_metric values old"

definition accumulate_metrics :: "instant \<Rightarrow> uuid \<Rightarrow> dict \<Rightarrow> 'k db \<Rightarrow> 'k db" where
  "accumulate_metrics now jid values d =
     (case get_job jid d of
        None \<Rightarrow> d
      | Some _ \<Rightarrow> update_job now jid (\<lambda>j. j\<lparr>j_metrics := merge_metrics (j_metrics j) values\<rparr>) d)"

text \<open>\<open>find_stalled\<close>: running jobs whose last sign of life is older than the cutoff. In SQL a
  comparison with NULL is not true.\<close>

definition is_stalled :: "instant \<Rightarrow> job_row \<Rightarrow> bool" where
  "is_stalled cutoff j \<longleftrightarrow>
     j_state j \<in> {JS_VALIDATING, JS_PARSING, JS_ENRICHING, JS_CLASSIFYING, JS_CHUNKING,
       JS_AI_EXTRACTION, JS_EMBEDDING, JS_INDEXING} \<and>
     (case j_heartbeat_at j of Some t \<Rightarrow> t < cutoff | None \<Rightarrow> j_updated_at j < cutoff)"

definition find_stalled :: "instant \<Rightarrow> int \<Rightarrow> 'k db \<Rightarrow> job_row list" where
  "find_stalled now timeout_minutes d =
     filter (is_stalled (now - timeout_minutes * 60000000)) (db_jobs d)"

subsection \<open>Stage runs\<close>

definition runs_of :: "uuid \<Rightarrow> pipeline_stage \<Rightarrow> 'k db \<Rightarrow> run_row list" where
  "runs_of jid st d = filter (\<lambda>r. r_job_id r = jid \<and> r_stage r = st) (db_runs d)"

definition next_attempt :: "uuid \<Rightarrow> pipeline_stage \<Rightarrow> 'k db \<Rightarrow> int" where
  "next_attempt jid st d =
     (case map r_attempt (runs_of jid st d) of [] \<Rightarrow> 0 | a # as \<Rightarrow> fold max as a) + 1"

definition start_run :: "instant \<Rightarrow> uuid \<Rightarrow> uuid \<Rightarrow> uuid \<Rightarrow> pipeline_stage \<Rightarrow> int option \<Rightarrow>
    string option \<Rightarrow> string option \<Rightarrow> vdict \<Rightarrow> 'k db \<Rightarrow> 'k db \<times> run_row" where
  "start_run now jid contract project st attempt worker queue_job versions d =
     (let r = \<lparr>r_id = db_next_id d, r_job_id = jid, r_contract_id = contract,
            r_project_id = project, r_stage = st, r_status = SS_RUNNING,
            r_attempt = (case attempt of
               None \<Rightarrow> next_attempt jid st d
             | Some a \<Rightarrow> if a = 0 then next_attempt jid st d else a),
            r_artifact_ref = None, r_versions = versions, r_stats = [], r_error = None,
            r_worker_id = worker, r_queue_job_id = queue_job, r_started_at = Some now,
            r_finished_at = None, r_duration_ms = None\<rparr>
      in (d\<lparr>db_runs := db_runs d @ [r], db_next_id := Suc (db_next_id d)\<rparr>, r))"

definition finished_row :: "instant \<Rightarrow> stage_status \<Rightarrow> storage_key option \<Rightarrow> dict \<Rightarrow> dict option \<Rightarrow>
    run_row \<Rightarrow> run_row" where
  "finished_row now status ref stats err r = r\<lparr>r_status := status,
     r_artifact_ref := (case ref of None \<Rightarrow> r_artifact_ref r | Some k \<Rightarrow> Some k),
     r_stats := (if stats = [] then r_stats r else stats), r_error := err,
     r_finished_at := Some now,
     r_duration_ms := (case r_started_at r of None \<Rightarrow> r_duration_ms r
                       | Some t \<Rightarrow> Some (millis_between t now))\<rparr>"

definition finish_run :: "instant \<Rightarrow> uuid \<Rightarrow> stage_status \<Rightarrow> storage_key option \<Rightarrow> dict \<Rightarrow>
    dict option \<Rightarrow> 'k db \<Rightarrow> 'k db" where
  "finish_run now rid status ref stats err d =
     d\<lparr>db_runs := update_where (\<lambda>r. r_id r = rid) (finished_row now status ref stats err) (db_runs d)\<rparr>"

definition succeeded_runs :: "uuid \<Rightarrow> 'k db \<Rightarrow> run_row list" where
  "succeeded_runs cid d =
     filter (\<lambda>r. r_contract_id r = cid \<and> r_status r = SS_SUCCEEDED) (db_runs d)"

text \<open>\<open>ORDER BY finished_at DESC NULLS LAST, attempt DESC\<close>.\<close>

definition less_recent :: "run_row \<Rightarrow> run_row \<Rightarrow> bool" where
  "less_recent a b =
     (case (r_finished_at a, r_finished_at b) of
        (None, None) \<Rightarrow> r_attempt a < r_attempt b
      | (None, Some _) \<Rightarrow> True
      | (Some _, None) \<Rightarrow> False
      | (Some x, Some y) \<Rightarrow> x < y \<or> (x = y \<and> r_attempt a < r_attempt b))"

definition checkpoint :: "uuid \<Rightarrow> pipeline_stage \<Rightarrow> 'k db \<Rightarrow> run_row option" where
  "checkpoint cid st d = first_max less_recent (filter (\<lambda>r. r_stage r = st) (succeeded_runs cid d))"

text \<open>\<open>checkpoints\<close>: rows by ascending attempt, each overwriting the entry of its stage.\<close>

definition checkpoints :: "uuid \<Rightarrow> 'k db \<Rightarrow> checkpoints" where
  "checkpoints cid d =
     fold (\<lambda>r result. result(r_stage r \<mapsto> r)) (sort_key r_attempt (succeeded_runs cid d)) Map.empty"

definition record_skipped :: "instant \<Rightarrow> uuid \<Rightarrow> uuid \<Rightarrow> uuid \<Rightarrow> pipeline_stage \<Rightarrow> run_row \<Rightarrow>
    'k db \<Rightarrow> 'k db" where
  "record_skipped now jid contract project st cp d =
     (let r = \<lparr>r_id = db_next_id d, r_job_id = jid, r_contract_id = contract,
            r_project_id = project, r_stage = st, r_status = SS_SKIPPED,
            r_attempt = next_attempt jid st d, r_artifact_ref = r_artifact_ref cp,
            r_versions = r_versions cp,
            r_stats = [(''reused_run_id'', JStr (uuid_str (r_id cp)))], r_error = None,
            r_worker_id = None, r_queue_job_id = None, r_started_at = Some now,
            r_finished_at = Some now, r_duration_ms = Some 0\<rparr>
      in d\<lparr>db_runs := db_runs d @ [r], db_next_id := Suc (db_next_id d)\<rparr>)"

definition runs_for_job :: "uuid \<Rightarrow> 'k db \<Rightarrow> run_row list" where
  "runs_for_job jid d = filter (\<lambda>r. r_job_id r = jid) (db_runs d)"

subsection \<open>Artifacts\<close>

definition current_rows :: "uuid \<Rightarrow> artifact_kind \<Rightarrow> 'k db \<Rightarrow> artifact_row list" where
  "current_rows cid kind d =
     filter (\<lambda>a. a_contract_id a = cid \<and> a_kind a = kind \<and> a_is_current a) (db_artifacts d)"

text \<open>\<open>scalar_one_or_none\<close>: more than one row raises.\<close>

definition current :: "uuid \<Rightarrow> artifact_kind \<Rightarrow> 'k db \<Rightarrow> exn + artifact_row option" where
  "current cid kind d =
     (case current_rows cid kind d of
        [] \<Rightarrow> Inr None
      | [a] \<Rightarrow> Inr (Some a)
      | _ \<Rightarrow> Inl (PyErr ''MultipleResultsFound'' ''Multiple rows were found when one or none was required''))"

definition current_map :: "uuid \<Rightarrow> 'k db \<Rightarrow> (artifact_kind \<rightharpoonup> artifact_row)" where
  "current_map cid d =
     fold (\<lambda>a m. m(a_kind a \<mapsto> a))
       (filter (\<lambda>a. a_contract_id a = cid \<and> a_is_current a) (db_artifacts d)) Map.empty"

definition retire :: "uuid \<Rightarrow> 'k db \<Rightarrow> 'k db" where
  "retire aid d =
     d\<lparr>db_artifacts := update_where (\<lambda>a. a_id a = aid) (\<lambda>a. a\<lparr>a_is_current := False\<rparr>) (db_artifacts d)\<rparr>"

definition supersede :: "uuid \<Rightarrow> uuid \<Rightarrow> uuid option \<Rightarrow> artifact_kind \<Rightarrow> storage_key \<Rightarrow> string \<Rightarrow>
    int option \<Rightarrow> vdict \<Rightarrow> dict \<Rightarrow> 'k db \<Rightarrow> exn + 'k db \<times> artifact_row" where
  "supersede contract project job kind path checksum nbytes versions summary d =
     (case current contract kind d of
        Inl e \<Rightarrow> Inl e
      | Inr existing \<Rightarrow>
          (let generation = (case existing of Some a \<Rightarrow> a_generation a + 1 | None \<Rightarrow> 1);
               d1 = (case existing of Some a \<Rightarrow> retire (a_id a) d | None \<Rightarrow> d);
               row = \<lparr>a_id = db_next_id d1, a_contract_id = contract, a_project_id = project,
                  a_job_id = job, a_kind = kind, a_storage_path = path, a_checksum = checksum,
                  a_size_bytes = nbytes, a_versions = versions, a_summary = summary,
                  a_generation = generation, a_is_current = True\<rparr>
           in Inr (d1\<lparr>db_artifacts := db_artifacts d1 @ [row], db_next_id := Suc (db_next_id d1)\<rparr>,
                   row)))"

definition invalidate_from_stage :: "uuid \<Rightarrow> pipeline_stage \<Rightarrow> 'k db \<Rightarrow> exn + 'k db \<times> nat" where
  "invalidate_from_stage cid st d =
     (case stages_from st of
        None \<Rightarrow> Inl (PyErr ''ValueError'' ''tuple.index(x): x not in tuple'')
      | Some downstream \<Rightarrow>
          (let kinds = concat (map STAGE_ARTIFACTS downstream);
               hit = (\<lambda>a. a_contract_id a = cid \<and> a_kind a \<in> set kinds \<and> a_is_current a)
           in if kinds = [] then Inr (d, 0)
              else Inr (d\<lparr>db_artifacts := update_where hit (\<lambda>a. a\<lparr>a_is_current := False\<rparr>)
                           (db_artifacts d)\<rparr>, length (filter hit (db_artifacts d)))))"

subsection \<open>Contracts\<close>

definition get_contract :: "uuid \<Rightarrow> 'k db \<Rightarrow> contract_row option" where
  "get_contract cid d = List.find (\<lambda>c. c_deleted_at c = None \<and> c_id c = cid) (db_contracts d)"

definition update_contract :: "uuid \<Rightarrow> (contract_row \<Rightarrow> contract_row) \<Rightarrow> 'k db \<Rightarrow> 'k db" where
  "update_contract cid f d =
     d\<lparr>db_contracts := update_where (\<lambda>c. c_id c = cid) f (db_contracts d)\<rparr>"

definition mark_processed :: "instant \<Rightarrow> uuid \<Rightarrow> contract_status \<Rightarrow> int option \<Rightarrow> bool option \<Rightarrow>
    'k db \<Rightarrow> 'k db" where
  "mark_processed now cid status pages review =
     update_contract cid (\<lambda>c. c\<lparr>c_status := status,
       c_page_count := (case pages of None \<Rightarrow> c_page_count c | Some n \<Rightarrow> Some n),
       c_needs_review := (case review of None \<Rightarrow> c_needs_review c | Some b \<Rightarrow> b),
       c_processed_at := (if status = CS_READY then Some now else c_processed_at c)\<rparr>)"

definition get_profile :: "uuid \<Rightarrow> 'k db \<Rightarrow> profile_row option" where
  "get_profile pid d = List.find (\<lambda>p. p_id p = pid) (db_profiles d)"

subsection \<open>The invariant of the tables\<close>

text \<open>
  Primary keys are distinct and below \<open>db_next_id\<close>, the check constraint on \<open>progress\<close>, the
  unique constraint on (job, stage, attempt) and the partial unique index that keeps one
  current artifact per contract and kind.
\<close>

definition jobs_wf :: "'k db \<Rightarrow> bool" where
  "jobs_wf d \<longleftrightarrow> distinct (map j_id (db_jobs d)) \<and>
     (\<forall>j \<in> set (db_jobs d). 0 \<le> j_progress j \<and> j_progress j \<le> 100 \<and> j_id j < db_next_id d)"

definition run_key :: "run_row \<Rightarrow> uuid \<times> pipeline_stage \<times> int" where
  "run_key r = (r_job_id r, r_stage r, r_attempt r)"

definition runs_wf :: "'k db \<Rightarrow> bool" where
  "runs_wf d \<longleftrightarrow> distinct (map run_key (db_runs d)) \<and> distinct (map r_id (db_runs d)) \<and>
     (\<forall>r \<in> set (db_runs d). r_id r < db_next_id d \<and> 1 \<le> r_attempt r)"

definition current_key :: "artifact_row \<Rightarrow> uuid \<times> artifact_kind" where
  "current_key a = (a_contract_id a, a_kind a)"

definition artifacts_wf :: "'k db \<Rightarrow> bool" where
  "artifacts_wf d \<longleftrightarrow> distinct (map current_key (filter a_is_current (db_artifacts d))) \<and>
     distinct (map a_id (db_artifacts d)) \<and>
     (\<forall>a \<in> set (db_artifacts d). a_id a < db_next_id d \<and> 1 \<le> a_generation a)"

definition contracts_wf :: "'k db \<Rightarrow> bool" where
  "contracts_wf d \<longleftrightarrow> distinct (map c_id (db_contracts d))"

definition db_wf :: "'k db \<Rightarrow> bool" where
  "db_wf d \<longleftrightarrow> jobs_wf d \<and> runs_wf d \<and> artifacts_wf d \<and> contracts_wf d"

lemmas wf_defs = db_wf_def jobs_wf_def runs_wf_def artifacts_wf_def contracts_wf_def

text \<open>Every operation below leaves the tables it does not name alone.\<close>

named_theorems frame_simps \<open>which tables an operation leaves alone\<close>

lemma update_job_frame [frame_simps]:
  "db_runs (update_job now jid f d) = db_runs d"
  "db_artifacts (update_job now jid f d) = db_artifacts d"
  "db_contracts (update_job now jid f d) = db_contracts d"
  "db_profiles (update_job now jid f d) = db_profiles d"
  "db_next_id (update_job now jid f d) = db_next_id d"
  "db_derived (update_job now jid f d) = db_derived d"
  by (simp_all add: update_job_def)

lemma update_contract_frame [frame_simps]:
  "db_jobs (update_contract cid g d) = db_jobs d"
  "db_runs (update_contract cid g d) = db_runs d"
  "db_artifacts (update_contract cid g d) = db_artifacts d"
  "db_profiles (update_contract cid g d) = db_profiles d"
  "db_next_id (update_contract cid g d) = db_next_id d"
  by (simp_all add: update_contract_def)

lemma finish_run_frame [frame_simps]:
  "db_jobs (finish_run now rid s ref st e d) = db_jobs d"
  "db_artifacts (finish_run now rid s ref st e d) = db_artifacts d"
  "db_contracts (finish_run now rid s ref st e d) = db_contracts d"
  "db_profiles (finish_run now rid s ref st e d) = db_profiles d"
  "db_next_id (finish_run now rid s ref st e d) = db_next_id d"
  by (simp_all add: finish_run_def)

subsection \<open>The contract of a job transition\<close>

text \<open>
  What the callers of a \<open>mark_\<dots>\<close> operation rely on: the row keeps its identity and owner and
  its progress stays a percentage. Each transition of the repository is an instance.
\<close>

locale job_transition =
  fixes step :: "job_row \<Rightarrow> job_row"
  assumes keeps_id: "j_id (step j) = j_id j"
    and keeps_owner: "j_contract_id (step j) = j_contract_id j \<and> j_project_id (step j) = j_project_id j"
    and keeps_range: "0 \<le> j_progress j \<Longrightarrow> j_progress j \<le> 100 \<Longrightarrow>
      0 \<le> j_progress (step j) \<and> j_progress (step j) \<le> 100"
begin

lemma get_job_step:
  "get_job k (update_job now jid step d) =
     (if k = jid then map_option (\<lambda>j. (step j)\<lparr>j_updated_at := now\<rparr>) (get_job k d)
      else get_job k d)"
  using find_update_where[where g = j_id and f = "\<lambda>j. (step j)\<lparr>j_updated_at := now\<rparr>" and
      k = k and k' = jid and rs = "db_jobs d"] keeps_id
  by (simp add: get_job_def update_job_def)

lemma other_rows_untouched:
  "filter (\<lambda>j. j_id j \<noteq> jid) (db_jobs (update_job now jid step d)) =
   filter (\<lambda>j. j_id j \<noteq> jid) (db_jobs d)"
proof -
  have "filter (\<lambda>j. j_id j \<noteq> jid) (update_where (\<lambda>j. j_id j = jid)
      (\<lambda>j. (step j)\<lparr>j_updated_at := now\<rparr>) js) = filter (\<lambda>j. j_id j \<noteq> jid) js" for js
    by (induction js) (auto simp: update_where_def keeps_id)
  then show ?thesis by (simp add: update_job_def)
qed

lemma step_wf: "db_wf d \<Longrightarrow> db_wf (update_job now jid step d)"
proof -
  assume wf: "db_wf d"
  have ids: "map j_id (db_jobs (update_job now jid step d)) = map j_id (db_jobs d)"
    by (simp add: update_job_def map_update_where keeps_id)
  have "0 \<le> j_progress j \<and> j_progress j \<le> 100 \<and> j_id j < db_next_id d"
    if "j \<in> set (db_jobs (update_job now jid step d))" for j
    using that wf keeps_range
    by (fastforce simp: update_job_def set_update_where wf_defs keeps_id)
  with wf ids show ?thesis by (simp add: wf_defs frame_simps)
qed

end

interpretation stage_started: job_transition "stage_started_row now st w" for now st w
  by unfold_locales (auto simp: stage_started_row_def)

interpretation progress: job_transition "progress_row now p" for now p
  by unfold_locales (auto simp: progress_row_def)

interpretation heartbeat: job_transition "heartbeat_row now" for now
  by unfold_locales (auto simp: heartbeat_row_def)

interpretation ready: job_transition "ready_row now" for now
  by unfold_locales (auto simp: ready_row_def)

interpretation failed: job_transition "failed_row now st e" for now st e
  by unfold_locales (auto simp: failed_row_def)

interpretation retrying: job_transition "retrying_row now st a" for now st a
  by unfold_locales (auto simp: retrying_row_def)

interpretation cancelled: job_transition "cancelled_row now" for now
  by unfold_locales (auto simp: cancelled_row_def)

interpretation paused: job_transition paused_row
  by unfold_locales (auto simp: paused_row_def)

interpretation queued: job_transition "queued_row now r" for now r
  by unfold_locales (auto simp: queued_row_def)

interpretation metrics: job_transition "\<lambda>j. j\<lparr>j_metrics := merge_metrics (j_metrics j) v\<rparr>" for v
  by unfold_locales auto

lemmas transition_defs = mark_stage_started_def update_progress_def heartbeat_def mark_ready_def
  mark_failed_def mark_retrying_def mark_cancelled_def mark_paused_def mark_queued_def
  accumulate_metrics_def

subsection \<open>Properties of the job rows\<close>

lemma transitions_wf:
  assumes "db_wf d"
  shows "db_wf (mark_stage_started now jid st w d)" "db_wf (update_progress now jid p d)"
    "db_wf (heartbeat now jid d)" "db_wf (mark_ready now jid d)" "db_wf (mark_failed now jid fs e d)"
    "db_wf (mark_retrying now jid st a d)" "db_wf (mark_cancelled now jid d)"
    "db_wf (mark_paused now jid d)" "db_wf (mark_queued now jid fs d)"
    "db_wf (accumulate_metrics now jid v d)"
  using assms
  by (auto simp: transition_defs stage_started.step_wf progress.step_wf heartbeat.step_wf
    ready.step_wf failed.step_wf retrying.step_wf cancelled.step_wf paused.step_wf queued.step_wf
    metrics.step_wf split: option.splits)

text \<open>Every transition of the job repository keeps the tables well formed: row identities
  and owners stay, and whatever progress a stage reports, also below 0 or above 100, the stored
  progress stays within the column's check constraint.\<close>

theorem transitions_keep_tables:
  assumes "db_wf d"
  shows "db_wf (mark_stage_started now jid st w d) \<and> db_wf (update_progress now jid p d) \<and>
    db_wf (heartbeat now jid d) \<and> db_wf (mark_ready now jid d) \<and>
    db_wf (mark_failed now jid fs e d) \<and> db_wf (mark_retrying now jid st a d) \<and>
    db_wf (mark_cancelled now jid d) \<and> db_wf (mark_paused now jid d) \<and>
    db_wf (mark_queued now jid fs d) \<and> db_wf (accumulate_metrics now jid v d)"
  using transitions_wf[OF assms] by simp

lemma fx_db_wf: "db_wf fx_db"
  by (simp add: wf_defs fx_db_def fx_job_def)

theorem transitions_keep_tables_witness: "db_wf (update_progress 7 10 250 fx_db)"
  using transitions_keep_tables[OF fx_db_wf] by simp

lemma first_max_None [simp]: "first_max older rs = None \<longleftrightarrow> rs = []"
  by (cases rs) (auto split: option.splits)

lemma first_max_in: "first_max older rs = Some m \<Longrightarrow> m \<in> set rs"
  by (induction rs arbitrary: m) (auto split: option.splits if_splits)

lemma first_max_greatest:
  assumes irr: "\<And>a. \<not> older a a"
    and trans: "\<And>a b c. \<not> older a b \<Longrightarrow> \<not> older b c \<Longrightarrow> \<not> older a c"
    and asym: "\<And>a b. older a b \<Longrightarrow> \<not> older b a"
    and m: "first_max older rs = Some m"
  shows "\<forall>r \<in> set rs. \<not> older m r"
  using m
proof (induction rs arbitrary: m)
  case (Cons r rs)
  show ?case
  proof (cases "first_max older rs")
    case None
    then show ?thesis using Cons.prems irr by simp
  next
    case (Some b)
    then have best: "\<forall>x \<in> set rs. \<not> older b x" by (rule Cons.IH)
    show ?thesis
    proof (cases "older r b")
      case True
      then show ?thesis using Cons.prems Some best asym by auto
    next
      case False
      then have "m = r" using Cons.prems Some by simp
      then show ?thesis using False best trans irr by auto
    qed
  qed
qed simp

lemma less_recent_order:
  "\<not> less_recent a a" "\<not> less_recent a b \<Longrightarrow> \<not> less_recent b c \<Longrightarrow> \<not> less_recent a c"
  "less_recent a b \<Longrightarrow> \<not> less_recent b a"
  by (auto simp: less_recent_def split: option.splits)

text \<open>\<open>checkpoint\<close> answers the latest successful run of the stage for the contract, whatever
  job it belongs to: nothing exactly when no run of the stage succeeded, and otherwise a
  successful run no other one finished after.\<close>

theorem checkpoint_is_latest_success:
  "case checkpoint cid st d of
     None \<Rightarrow> \<not> (\<exists>r. r \<in> set (db_runs d) \<and> r_contract_id r = cid \<and> r_stage r = st \<and>
                r_status r = SS_SUCCEEDED)
   | Some r \<Rightarrow> r \<in> set (db_runs d) \<and> r_contract_id r = cid \<and> r_stage r = st \<and>
       r_status r = SS_SUCCEEDED \<and>
       (\<nexists>x. x \<in> set (db_runs d) \<and> r_contract_id x = cid \<and> r_stage x = st \<and>
            r_status x = SS_SUCCEEDED \<and> less_recent r x)"
proof (cases "checkpoint cid st d")
  case None
  then show ?thesis by (auto simp: checkpoint_def succeeded_runs_def filter_empty_conv)
next
  case (Some r)
  note found = Some[unfolded checkpoint_def]
  from first_max_in[OF found] first_max_greatest[OF less_recent_order found] show ?thesis
    by (auto simp: Some succeeded_runs_def)
qed

lemma checkpoints_fold:
  "fold (\<lambda>r result. result(r_stage r \<mapsto> r)) rs m st =
     (if filter (\<lambda>r. r_stage r = st) rs = [] then m st
      else Some (last (filter (\<lambda>r. r_stage r = st) rs)))"
  by (induction rs arbitrary: m) auto

lemma sorted_last_greatest:
  "sorted (map f rs) \<Longrightarrow> r \<in> set rs \<Longrightarrow> f r \<le> f (last rs)"
  by (induction rs) (auto split: if_splits)

lemma filter_sort_key_last:
  assumes "filter P (sort_key f rs) \<noteq> []"
  shows "last (filter P (sort_key f rs)) \<in> {r \<in> set rs. P r} \<and>
     (\<forall>r. r \<in> set rs \<longrightarrow> P r \<longrightarrow> f r \<le> f (last (filter P (sort_key f rs))))"
proof -
  have "last (filter P (sort_key f rs)) \<in> set (filter P (sort_key f rs))"
    using assms by (rule last_in_set)
  moreover have "sorted (map f (filter P (sort_key f rs)))" by (simp add: sorted_filter)
  ultimately show ?thesis using sorted_last_greatest[of f "filter P (sort_key f rs)"] by auto
qed

text \<open>\<open>checkpoints\<close>, which the planner reads, keeps per stage a successful run of the
  greatest attempt number over all jobs of the contract. It is defined exactly where
  \<open>checkpoint\<close> is.\<close>

theorem checkpoints_keep_highest_attempt:
  "(case checkpoints cid d st of
      None \<Rightarrow> checkpoint cid st d = None
    | Some r \<Rightarrow> r \<in> set (succeeded_runs cid d) \<and> r_stage r = st \<and>
        (\<nexists>x. x \<in> set (succeeded_runs cid d) \<and> r_stage x = st \<and> r_attempt r < r_attempt x))"
proof (cases "filter (\<lambda>r. r_stage r = st) (sort_key r_attempt (succeeded_runs cid d)) = []")
  case True
  then have "checkpoint cid st d = None" by (simp add: checkpoint_def filter_empty_conv)
  with True show ?thesis by (simp add: checkpoints_def checkpoints_fold)
next
  case False
  from filter_sort_key_last[OF False] False show ?thesis
    by (auto simp: checkpoints_def checkpoints_fold not_less)
qed

text \<open>C21: a stage is skipped only on evidence. In a plan made from the checkpoints of the contract, which is how
  the runner plans, a skipped stage was not forced to run, its handler is registered and cacheable, and the history
  holds a successful run of that stage for that contract, none of a higher attempt, whose versions match the ones in
  force and whose id and versions the plan records.\<close>

theorem skipped_stage_has_current_checkpoint:
  assumes "plan vs imps job c pr fs force (checkpoints (c_id c) d) = Inr p"
    and "item \<in> set (ep_stages p)" and "\<not> should_run item"
  shows "\<not> force \<and> handler_registered imps (ps_stage item) \<and> handler_cacheable (ps_stage item) \<and>
    (\<exists>r \<in> set (db_runs d). r_contract_id r = c_id c \<and> r_stage r = ps_stage item \<and> r_status r = SS_SUCCEEDED \<and>
       (\<forall>x \<in> set (db_runs d). r_contract_id x = c_id c \<and> r_stage x = ps_stage item \<and> r_status x = SS_SUCCEEDED \<longrightarrow>
          r_attempt x \<le> r_attempt r) \<and>
       ps_checkpoint_id item = Some (r_id r) \<and> ps_versions item = r_versions r \<and>
       matches (versions_for vs (ps_stage item) pr) (Some (r_versions r)))"
proof -
  obtain r where r: "checkpoints (c_id c) d (ps_stage item) = Some r" "ps_checkpoint_id item = Some (r_id r)"
    "ps_versions item = r_versions r" "matches (versions_for vs (ps_stage item) pr) (Some (r_versions r))"
    and skip: "\<not> force" "handler_registered imps (ps_stage item)" "handler_cacheable (ps_stage item)"
    using skip_needs_matching_checkpoint[OF assms] by blast
  have "r \<in> set (succeeded_runs (c_id c) d)" "r_stage r = ps_stage item"
    "\<nexists>x. x \<in> set (succeeded_runs (c_id c) d) \<and> r_stage x = ps_stage item \<and> r_attempt r < r_attempt x"
    using checkpoints_keep_highest_attempt[of "c_id c" "ps_stage item" d] r(1) by simp_all
  then show ?thesis
    using r skip by (auto simp: succeeded_runs_def not_less intro!: bexI[of _ r])
qed

definition fx_done :: "unit db" where
  "fx_done = fx_db\<lparr>db_runs := map fx_run pipeline_stages\<rparr>"

lemma fx_run_stage: "r_stage (fx_run st) = st"
  by (simp add: fx_run_def)

lemma fx_done_checkpoints: "checkpoints (c_id fx_contract) fx_done = (\<lambda>st. Some (fx_run st))"
proof -
  have "succeeded_runs (c_id fx_contract) fx_done = map fx_run pipeline_stages"
    by (simp add: succeeded_runs_def fx_done_def fx_run_def fx_contract_def pipeline_stages_def)
  moreover have "sort_key r_attempt (map fx_run pipeline_stages) = map fx_run pipeline_stages"
    by (rule sort_key_id_if_sorted) (simp add: fx_run_def pipeline_stages_def)
  moreover have "filter (\<lambda>r. r_stage r = st) (map fx_run pipeline_stages) = [fx_run st]" for st
    by (cases st) (simp_all add: fx_run_stage pipeline_stages_def)
  ultimately show ?thesis
    unfolding checkpoints_def by (intro ext) (simp add: checkpoints_fold)
qed

theorem skipped_stage_has_current_checkpoint_witness:
  "\<exists>p item. plan fx_settings fx_imports fx_job fx_contract None (Some PS_EMBEDDING) False
       (checkpoints (c_id fx_contract) fx_done) = Inr p \<and> item \<in> set (ep_stages p) \<and> \<not> should_run item \<and>
     (\<exists>r \<in> set (db_runs fx_done). ps_checkpoint_id item = Some (r_id r) \<and> r_status r = SS_SUCCEEDED)"
proof -
  obtain p where p: "plan fx_settings fx_imports fx_job fx_contract None (Some PS_EMBEDDING) False
      (checkpoints (c_id fx_contract) fx_done) = Inr p"
    and item: "\<exists>item \<in> set (ep_stages p). \<not> should_run item"
    using fx_resume_plan unfolding fx_done_checkpoints by (force simp: should_run_def)
  then show ?thesis using skipped_stage_has_current_checkpoint[OF p] by blast
qed

text \<open>The two selectors disagree on one history: a first job parsed on its second attempt, a
  later job of the same contract on its first. The planner compares the versions of the older
  run, while the runner reuses the newer one's artifact.\<close>

theorem checkpoint_selectors_disagree:
  "\<exists>d :: unit db. \<exists>old new. db_wf d \<and> checkpoint 20 PS_PARSER d = Some new \<and>
     checkpoints 20 d PS_PARSER = Some old \<and> r_finished_at old = Some 5000 \<and>
     r_finished_at new = Some 9000"
proof -
  define old where "old = fx_run PS_PARSER\<lparr>r_attempt := 2\<rparr>"
  define new where "new = fx_run PS_PARSER\<lparr>r_id := 41, r_job_id := 12, r_finished_at := Some 9000\<rparr>"
  define d where "d = fx_db\<lparr>db_runs := [old, new]\<rparr>"
  have "succeeded_runs 20 d = [old, new]"
    by (simp add: d_def old_def new_def succeeded_runs_def fx_run_def)
  then have "checkpoint 20 PS_PARSER d = Some new" "checkpoints 20 d PS_PARSER = Some old"
    by (simp_all add: checkpoint_def checkpoints_def old_def new_def fx_run_def less_recent_def)
  moreover have "db_wf d"
    by (simp add: d_def old_def new_def wf_defs fx_db_def fx_job_def fx_run_def run_key_def)
  ultimately show ?thesis by (force simp: old_def new_def fx_run_def)
qed

subsection \<open>Properties of the stage runs\<close>

lemma fold_max_ge: "a \<le> fold max as (a :: int) \<and> (\<forall>x \<in> set as. x \<le> fold max as a)"
proof (induction as arbitrary: a)
  case (Cons b as)
  from Cons[of "max b a"] show ?case by auto
qed simp

lemma next_attempt_greater:
  "r \<in> set (db_runs d) \<Longrightarrow> r_job_id r = jid \<Longrightarrow> r_stage r = st \<Longrightarrow> r_attempt r < next_attempt jid st d"
proof -
  assume "r \<in> set (db_runs d)" "r_job_id r = jid" "r_stage r = st"
  then have "r_attempt r \<in> set (map r_attempt (runs_of jid st d))" by (simp add: runs_of_def)
  then show ?thesis
    using fold_max_ge by (cases "map r_attempt (runs_of jid st d)") (force simp: next_attempt_def)+
qed

lemma next_attempt_pos: "db_wf d \<Longrightarrow> 1 \<le> next_attempt jid st d"
proof (cases "map r_attempt (runs_of jid st d)")
  case (Cons a as)
  assume "db_wf d"
  moreover have "a \<in> r_attempt ` set (runs_of jid st d)" using Cons by (metis list.set_intros(1) list.set_map)
  ultimately have "1 \<le> a" by (auto simp: wf_defs runs_of_def)
  then show ?thesis using Cons fold_max_ge[of a as] by (simp add: next_attempt_def)
qed (simp add: next_attempt_def)

lemma append_run_wf:
  assumes "db_wf d" "r_id r = db_next_id d" "r_attempt r = next_attempt (r_job_id r) (r_stage r) d"
  shows "db_wf (d\<lparr>db_runs := db_runs d @ [r], db_next_id := Suc (db_next_id d)\<rparr>)"
proof -
  have "run_key r \<notin> run_key ` set (db_runs d)"
    using next_attempt_greater[of _ d "r_job_id r" "r_stage r"] assms(3) by (fastforce simp: run_key_def)
  moreover have "r_id r \<notin> r_id ` set (db_runs d)" using assms(1,2) by (force simp: wf_defs)
  moreover have "1 \<le> r_attempt r" using next_attempt_pos[OF assms(1)] assms(3) by simp
  ultimately show ?thesis
    using assms(1,2) by (auto simp: wf_defs less_Suc_eq)
qed

lemma start_run_wf: "db_wf d \<Longrightarrow> db_wf (fst (start_run now jid c p st None w q vs d))"
  by (auto simp: start_run_def Let_def intro!: append_run_wf)

lemma record_skipped_wf: "db_wf d \<Longrightarrow> db_wf (record_skipped now jid c p st cp d)"
  by (auto simp: record_skipped_def Let_def intro!: append_run_wf)

lemma finish_run_wf: "db_wf d \<Longrightarrow> db_wf (finish_run now rid s ref st e d)"
proof -
  assume wf: "db_wf d"
  define d' where "d' = finish_run now rid s ref st e d"
  have "map run_key (db_runs d') = map run_key (db_runs d)" "map r_id (db_runs d') = map r_id (db_runs d)"
    by (simp_all add: d'_def finish_run_def map_update_where finished_row_def run_key_def)
  moreover have "\<forall>r \<in> set (db_runs d'). r_id r < db_next_id d \<and> 1 \<le> r_attempt r"
    using wf by (auto simp: d'_def finish_run_def set_update_where finished_row_def wf_defs)
  moreover note wf
  ultimately show ?thesis by (simp add: wf_defs d'_def frame_simps)
qed

text \<open>Starting or skipping a stage only appends to the run history, with an attempt number
  above every earlier run of that stage in the job, so the unique constraint on
  (job, stage, attempt) holds however often a stage is re-dispatched.\<close>

theorem run_history_append_only:
  assumes "db_wf d" and "start_run now jid c p st None w q vs d = (d', r)"
  shows "db_wf d' \<and> db_runs d' = db_runs d @ [r] \<and> r_status r = SS_RUNNING \<and>
    (\<forall>x \<in> set (runs_of jid st d). r_attempt x < r_attempt r) \<and>
    db_wf (record_skipped now jid c p st cp d) \<and>
    (\<exists>s. db_runs (record_skipped now jid c p st cp d) = db_runs d @ [s] \<and>
         r_status s = SS_SKIPPED \<and> r_attempt s = r_attempt r)"
  using assms start_run_wf[OF assms(1), of now jid c p st w q vs]
    record_skipped_wf[OF assms(1), of now jid c p st cp]
    next_attempt_greater[of _ d jid st]
  by (auto simp: start_run_def record_skipped_def Let_def runs_of_def)

theorem run_history_append_only_witness:
  "\<exists>d' r. start_run 5 11 20 30 PS_PARSER None None None [] (fx_db\<lparr>db_runs := [fx_run PS_PARSER]\<rparr>)
      = (d', r) \<and> db_wf d' \<and> r_attempt (fx_run PS_PARSER) < r_attempt r"
proof -
  define d where "d = fx_db\<lparr>db_runs := [fx_run PS_PARSER]\<rparr>"
  obtain d' r where s: "start_run 5 11 20 30 PS_PARSER None None None [] d = (d', r)"
    by (cases "start_run 5 11 20 30 PS_PARSER None None None [] d") blast
  have wf: "db_wf d" by (simp add: d_def wf_defs fx_db_def fx_job_def fx_run_def)
  have "fx_run PS_PARSER \<in> set (runs_of 11 PS_PARSER d)" by (simp add: runs_of_def d_def fx_run_def)
  with run_history_append_only[OF wf s] s show ?thesis by (auto simp: d_def)
qed

subsection \<open>Properties of the artifacts\<close>

lemma retire_wf: "db_wf d \<Longrightarrow> db_wf (retire aid d)"
proof -
  assume wf: "db_wf d"
  have sub: "filter a_is_current (update_where (\<lambda>a. a_id a = aid) (\<lambda>a. a\<lparr>a_is_current := False\<rparr>) as) =
      filter (\<lambda>a. a_is_current a \<and> a_id a \<noteq> aid) as" for as
    by (induction as) (auto simp: update_where_def)
  have "distinct (map current_key (filter (\<lambda>a. a_is_current a \<and> a_id a \<noteq> aid) as))"
    if "distinct (map current_key (filter a_is_current as))" for as
    using distinct_map_filter[OF that, of "\<lambda>a. a_id a \<noteq> aid"] by simp
  with wf show ?thesis
    by (auto simp: wf_defs retire_def sub map_update_where set_update_where)
qed

lemma current_rows_single: "artifacts_wf d \<Longrightarrow> length (current_rows c k d) \<le> 1"
proof -
  have "length (filter (\<lambda>a. a_contract_id a = c \<and> a_kind a = k \<and> a_is_current a) as) \<le> 1"
    if "distinct (map current_key (filter a_is_current as))" for as
    using that
  proof (induction as)
    case (Cons a as)
    have "filter (\<lambda>a. a_contract_id a = c \<and> a_kind a = k \<and> a_is_current a) as = []"
      if "a_is_current a" "current_key a = (c, k)"
    proof -
      have "current_key x \<noteq> (c, k)" if "x \<in> set as" "a_is_current x" for x
        using Cons.prems \<open>a_is_current a\<close> \<open>current_key a = (c, k)\<close> that by force
      then show ?thesis by (auto simp: filter_empty_conv current_key_def)
    qed
    then show ?case using Cons by (auto simp: current_key_def split: if_splits)
  qed simp
  then show "artifacts_wf d \<Longrightarrow> ?thesis" by (simp add: artifacts_wf_def current_rows_def)
qed

lemma current_ok: "artifacts_wf d \<Longrightarrow> \<exists>a. current c k d = Inr a"
  using current_rows_single[of d c k]
  by (auto simp: current_def split: list.splits)

lemma current_SomeD:
  "current c k d = Inr (Some a) \<Longrightarrow> current_rows c k d = [a] \<and> a \<in> set (db_artifacts d) \<and>
     a_contract_id a = c \<and> a_kind a = k \<and> a_is_current a"
proof -
  assume "current c k d = Inr (Some a)"
  then have rows: "current_rows c k d = [a]" by (auto simp: current_def split: list.splits)
  then have "a \<in> set (current_rows c k d)" by simp
  then have "a \<in> set (db_artifacts d) \<and> a_contract_id a = c \<and> a_kind a = k \<and> a_is_current a"
    unfolding current_rows_def by simp
  with rows show ?thesis by blast
qed

lemma current_NoneD: "current c k d = Inr None \<Longrightarrow> current_rows c k d = []"
  by (auto simp: current_def split: list.splits)

lemma retire_current_rows:
  assumes wf: "db_wf d" and cur: "current c k d = Inr (Some a)"
  shows "current_rows c' k' (retire (a_id a) d) =
    (if c' = c \<and> k' = k then [] else current_rows c' k' d)"
proof -
  have drop: "filter (\<lambda>x. a_contract_id x = c' \<and> a_kind x = k' \<and> a_is_current x)
      (update_where (\<lambda>x. a_id x = i) (\<lambda>x. x\<lparr>a_is_current := False\<rparr>) as) =
    filter (\<lambda>x. a_id x \<noteq> i) (filter (\<lambda>x. a_contract_id x = c' \<and> a_kind x = k' \<and> a_is_current x) as)"
    for as i by (induction as) (auto simp: update_where_def)
  then have rows: "current_rows c' k' (retire (a_id a) d) =
      filter (\<lambda>x. a_id x \<noteq> a_id a) (current_rows c' k' d)"
    by (simp add: current_rows_def retire_def)
  show ?thesis
  proof (cases "c' = c \<and> k' = k")
    case True
    then show ?thesis using rows current_SomeD[OF cur] by simp
  next
    case False
    have "a_id x \<noteq> a_id a" if "x \<in> set (current_rows c' k' d)" for x
    proof
      assume "a_id x = a_id a"
      moreover have "x \<in> set (db_artifacts d)" using that by (simp add: current_rows_def)
      ultimately have "x = a"
        using wf current_SomeD[OF cur] by (auto simp: wf_defs dest: inj_onD simp: distinct_map)
      then show False using False that current_SomeD[OF cur] by (auto simp: current_rows_def)
    qed
    then have "filter (\<lambda>x. a_id x \<noteq> a_id a) (current_rows c' k' d) = current_rows c' k' d"
      by (simp add: filter_id_conv)
    then show ?thesis using rows by (simp only: False if_False)
  qed
qed

lemma retire_frame [frame_simps]:
  "db_jobs (retire aid d) = db_jobs d" "db_runs (retire aid d) = db_runs d"
  "db_contracts (retire aid d) = db_contracts d" "db_profiles (retire aid d) = db_profiles d"
  "db_next_id (retire aid d) = db_next_id d" "db_derived (retire aid d) = db_derived d"
  "length (db_artifacts (retire aid d)) = length (db_artifacts d)"
  by (simp_all add: retire_def)

lemma append_artifact_wf:
  assumes wf: "db_wf d" and "a_id row = db_next_id d" "1 \<le> a_generation row"
    and none: "current_rows (a_contract_id row) (a_kind row) d = []"
  shows "db_wf (d\<lparr>db_artifacts := db_artifacts d @ [row], db_next_id := Suc (db_next_id d)\<rparr>)"
proof -
  have "a_id row \<notin> a_id ` set (db_artifacts d)" using assms(1,2) by (force simp: wf_defs)
  moreover have "current_key row \<notin> current_key ` set (filter a_is_current (db_artifacts d))"
    using none by (auto simp: current_rows_def current_key_def filter_empty_conv)
  ultimately show ?thesis using assms by (auto simp: wf_defs less_Suc_eq)
qed

lemma supersede_cases:
  assumes wf: "db_wf d"
  obtains d1 row where
    "supersede c p j k path csum n vs smry d =
      Inr (d1\<lparr>db_artifacts := db_artifacts d1 @ [row], db_next_id := Suc (db_next_id d1)\<rparr>, row)"
    "db_wf d1" "current_rows c k d1 = []" "db_next_id d1 = db_next_id d"
    "\<And>c' k'. (c', k') \<noteq> (c, k) \<Longrightarrow> current_rows c' k' d1 = current_rows c' k' d"
    "a_id row = db_next_id d" "a_contract_id row = c" "a_kind row = k" "a_is_current row"
    "a_storage_path row = path" "a_project_id row = p"
    "current c k d = Inr None \<and> a_generation row = 1 \<and> d1 = d \<or>
     (\<exists>a. current c k d = Inr (Some a) \<and> a_generation row = a_generation a + 1 \<and> d1 = retire (a_id a) d)"
proof -
  from wf have "artifacts_wf d" by (simp add: db_wf_def)
  with current_ok obtain e where e: "current c k d = Inr e" by blast
  define d1 where "d1 = (case e of Some a \<Rightarrow> retire (a_id a) d | None \<Rightarrow> d)"
  define row where "row = \<lparr>a_id = db_next_id d1, a_contract_id = c, a_project_id = p,
      a_job_id = j, a_kind = k, a_storage_path = path, a_checksum = csum,
      a_size_bytes = n, a_versions = vs, a_summary = smry,
      a_generation = (case e of Some a \<Rightarrow> a_generation a + 1 | None \<Rightarrow> 1), a_is_current = True\<rparr>"
  have 1: "supersede c p j k path csum n vs smry d =
      Inr (d1\<lparr>db_artifacts := db_artifacts d1 @ [row], db_next_id := Suc (db_next_id d1)\<rparr>, row)"
    by (simp add: supersede_def e Let_def d1_def row_def)
  have 2: "db_wf d1" using wf by (simp add: d1_def retire_wf split: option.split)
  have 3: "current_rows c' k' d1 = (if (c', k') = (c, k) then [] else current_rows c' k' d)" for c' k'
    using retire_current_rows[OF wf] current_NoneD[of c k d] e by (auto simp: d1_def split: option.split)
  have 4: "db_next_id d1 = db_next_id d" by (simp add: d1_def frame_simps split: option.split)
  have 5: "current c k d = Inr None \<and> a_generation row = 1 \<and> d1 = d \<or>
     (\<exists>a. current c k d = Inr (Some a) \<and> a_generation row = a_generation a + 1 \<and> d1 = retire (a_id a) d)"
    by (cases e) (simp_all add: e row_def d1_def)
  have 6: "a_id row = db_next_id d1" "a_contract_id row = c" "a_kind row = k" "a_is_current row"
    "a_storage_path row = path" "a_project_id row = p" by (simp_all add: row_def)
  show thesis
    by (rule that[OF 1 2 _ 4 _ _ 6(2-6) 5]) (auto simp: 3 4 6)
qed

lemma supersede_wf:
  assumes wf: "db_wf d"
  shows "\<exists>d' row. supersede c p j k path csum n vs smry d = Inr (d', row) \<and> db_wf d'"
proof -
  obtain d1 row where r: "supersede c p j k path csum n vs smry d =
      Inr (d1\<lparr>db_artifacts := db_artifacts d1 @ [row], db_next_id := Suc (db_next_id d1)\<rparr>, row)"
    "db_wf d1" "current_rows c k d1 = []" "db_next_id d1 = db_next_id d" "a_id row = db_next_id d"
    "a_contract_id row = c" "a_kind row = k"
    and gen: "a_generation row = 1 \<or> (\<exists>a. current c k d = Inr (Some a) \<and> a_generation row = a_generation a + 1)"
    by (rule supersede_cases[OF wf, of c p j k path csum n vs smry]) blast
  have "1 \<le> a_generation row"
    using gen current_SomeD[of c k d] wf by (force simp: wf_defs)
  with append_artifact_wf[of d1 row] r show ?thesis by auto
qed

text \<open>Recording a new artifact never fails on well-formed tables and leaves exactly one current
  row for its contract and kind, the new one; the previous current row is retired but kept, the
  new generation is one above it, and no other contract or kind is affected.\<close>

theorem supersede_keeps_one_current:
  assumes "db_wf d"
  shows "\<exists>d' row. supersede c p j k path csum n vs smry d = Inr (d', row) \<and> db_wf d' \<and>
    current c k d' = Inr (Some row) \<and> length (db_artifacts d') = Suc (length (db_artifacts d)) \<and>
    (current c k d = Inr None \<longrightarrow> a_generation row = 1) \<and>
    (\<forall>a. current c k d = Inr (Some a) \<longrightarrow> a_generation row = a_generation a + 1 \<and>
         a\<lparr>a_is_current := False\<rparr> \<in> set (db_artifacts d')) \<and>
    (\<forall>c' k'. (c', k') \<noteq> (c, k) \<longrightarrow> current c' k' d' = current c' k' d)"
proof -
  obtain d1 row where r: "supersede c p j k path csum n vs smry d =
      Inr (d1\<lparr>db_artifacts := db_artifacts d1 @ [row], db_next_id := Suc (db_next_id d1)\<rparr>, row)"
    "current_rows c k d1 = []" "a_contract_id row = c" "a_kind row = k" "a_is_current row"
    "\<And>c' k'. (c', k') \<noteq> (c, k) \<Longrightarrow> current_rows c' k' d1 = current_rows c' k' d"
    "current c k d = Inr None \<and> a_generation row = 1 \<and> d1 = d \<or>
     (\<exists>a. current c k d = Inr (Some a) \<and> a_generation row = a_generation a + 1 \<and> d1 = retire (a_id a) d)"
    by (rule supersede_cases[OF assms, of c p j k path csum n vs smry]) blast
  define d' where "d' = d1\<lparr>db_artifacts := db_artifacts d1 @ [row], db_next_id := Suc (db_next_id d1)\<rparr>"
  have "db_wf d'" using supersede_wf[OF assms, of c p j k path csum n vs smry] r(1) by (simp add: d'_def)
  moreover have rows: "current_rows c' k' d' = current_rows c' k' d1 @ (if c' = c \<and> k' = k then [row] else [])" for c' k'
    using r(3-5) by (simp add: current_rows_def d'_def)
  have "current c k d' = Inr (Some row)" using rows r(2) by (simp add: current_def)
  moreover have "current c' k' d' = current c' k' d" if "(c', k') \<noteq> (c, k)" for c' k'
    using rows r(6)[OF that] that by (auto simp: current_def)
  moreover have "length (db_artifacts d') = Suc (length (db_artifacts d))"
    using r(7) by (auto simp: d'_def frame_simps)
  moreover have "a\<lparr>a_is_current := False\<rparr> \<in> set (db_artifacts d')" if "current c k d = Inr (Some a)" for a
    using r(7) that current_SomeD[OF that] by (auto simp: d'_def retire_def set_update_where)
  moreover note r(1,7)
  ultimately show ?thesis by (intro exI[of _ d'] exI[of _ row]) (auto simp: d'_def)
qed

theorem supersede_keeps_one_current_witness:
  "\<exists>d' row. supersede 20 30 None AK_CHUNKS (ArtifactKey 30 20 AK_CHUNKS 1) [] None [] [] fx_db =
     Inr (d', row) \<and> current 20 AK_CHUNKS d' = Inr (Some row)"
  using supersede_keeps_one_current[OF fx_db_wf, of 20 30 None AK_CHUNKS "ArtifactKey 30 20 AK_CHUNKS 1"
      "[]" None "[]" "[]"] by (elim exE conjE) (intro exI conjI)

lemma filter_retired:
  assumes "\<And>a. \<not> P (a\<lparr>a_is_current := False\<rparr>)"
  shows "filter P (update_where hit (\<lambda>a. a\<lparr>a_is_current := False\<rparr>) as) = filter (\<lambda>a. P a \<and> \<not> hit a) as"
  by (induction as) (simp_all add: update_where_def assms)

lemma retire_kinds_rows:
  "filter (\<lambda>a. a_contract_id a = c \<and> a_kind a = k \<and> a_is_current a)
     (update_where (\<lambda>a. a_contract_id a = cid \<and> S (a_kind a) \<and> a_is_current a)
       (\<lambda>a. a\<lparr>a_is_current := False\<rparr>) as) =
   (if c = cid \<and> S k then []
    else filter (\<lambda>a. a_contract_id a = c \<and> a_kind a = k \<and> a_is_current a) as)"
proof (cases "c = cid \<and> S k")
  case True
  then show ?thesis by (subst filter_retired) (simp_all add: filter_empty_conv)
next
  case False
  then have "\<not> (a_contract_id a = cid \<and> S (a_kind a) \<and> a_is_current a)"
    if "a_contract_id a = c \<and> a_kind a = k \<and> a_is_current a" for a
    using that by metis
  then have "filter (\<lambda>a. (a_contract_id a = c \<and> a_kind a = k \<and> a_is_current a) \<and>
      \<not> (a_contract_id a = cid \<and> S (a_kind a) \<and> a_is_current a)) as =
    filter (\<lambda>a. a_contract_id a = c \<and> a_kind a = k \<and> a_is_current a) as"
    by (intro filter_cong) blast+
  then show ?thesis unfolding if_not_P[OF False] by (subst filter_retired) simp_all
qed

text \<open>Invalidating from a dispatched stage leaves no current artifact of that stage or of any
  later one for the contract, keeps every artifact of an earlier stage and of other contracts,
  and reports how many rows it retired; a retired stage name raises.\<close>

theorem invalidation_is_downstream_only:
  "case stage_index st of
     None \<Rightarrow> \<exists>e. invalidate_from_stage cid st d = Inl e
   | Some i \<Rightarrow> \<exists>d'. invalidate_from_stage cid st d =
        Inr (d', length (filter (\<lambda>a. a_contract_id a = cid \<and> a_is_current a \<and>
          a_kind a \<in> set (concat (map STAGE_ARTIFACTS (drop i STAGE_ORDER)))) (db_artifacts d))) \<and>
      (\<forall>c k. current_rows c k d' =
         (if c = cid \<and> k \<in> set (concat (map STAGE_ARTIFACTS (drop i STAGE_ORDER)))
          then [] else current_rows c k d))"
proof (cases "stage_index st")
  case None
  then show ?thesis by (simp add: invalidate_from_stage_def stages_from_def)
next
  case (Some i)
  define kinds where "kinds = concat (map STAGE_ARTIFACTS (drop i STAGE_ORDER))"
  define hit :: "artifact_row \<Rightarrow> bool" where "hit = (\<lambda>a. a_contract_id a = cid \<and> a_kind a \<in> set kinds \<and> a_is_current a)"
  define d' where "d' = d\<lparr>db_artifacts := update_where hit (\<lambda>a. a\<lparr>a_is_current := False\<rparr>) (db_artifacts d)\<rparr>"
  have "kinds \<noteq> []"
  proof -
    have "PS_INDEXING \<in> set (drop i STAGE_ORDER)"
      using stage_index_less[OF Some] by (auto simp: STAGE_ORDER_def less_Suc_eq numeral_eq_Suc)
    then have "AK_INDEX_STATISTICS \<in> set kinds" unfolding kinds_def by force
    then show ?thesis by auto
  qed
  then have A: "invalidate_from_stage cid st d = Inr (d', length (filter hit (db_artifacts d)))"
    by (simp add: invalidate_from_stage_def stages_from_def Some kinds_def[symmetric] hit_def d'_def
      Let_def)
  have "filter (\<lambda>a. a_contract_id a = c \<and> a_kind a = k \<and> a_is_current a)
      (update_where hit (\<lambda>a. a\<lparr>a_is_current := False\<rparr>) as) =
    (if c = cid \<and> k \<in> set kinds then []
     else filter (\<lambda>a. a_contract_id a = c \<and> a_kind a = k \<and> a_is_current a) as)" for c k as
    using retire_kinds_rows[of c k cid "\<lambda>k. k \<in> set kinds" as] by (simp only: hit_def)
  then have B: "\<forall>c k. current_rows c k d' =
      (if c = cid \<and> k \<in> set kinds then [] else current_rows c k d)"
    by (simp add: current_rows_def d'_def)
  have C: "(\<lambda>a. a_contract_id a = cid \<and> a_is_current a \<and> a_kind a \<in> set kinds) = hit"
    by (auto simp: hit_def fun_eq_iff)
  show ?thesis
    unfolding Some option.case kinds_def[symmetric] C by (rule exI[of _ d'], rule conjI[OF A B])
qed

subsection \<open>Metrics and the sweep\<close>

lemma merge_metric_get:
  "dict_get (merge_metric (k, v) m) k' =
     (if k' = k then (case (as_number v, Option.bind (dict_get m k) as_number) of
         (Some a, Some b) \<Rightarrow> Some (JInt (b + a)) | _ \<Rightarrow> Some v)
      else dict_get m k')"
  by (simp add: merge_metric_def dict_get_def update_conv' split: option.splits)

lemma dict_get_simps [simp]:
  "dict_get [] k = None" "dict_get ((a, v) # vs) k = (if k = a then Some v else dict_get vs k)"
  by (simp_all add: dict_get_def)

lemma dict_get_None_iff: "dict_get d k = None \<longleftrightarrow> k \<notin> fst ` set d"
  by (simp add: dict_get_def map_of_eq_None_iff)

lemma merge_metrics_get:
  "distinct (map fst vs) \<Longrightarrow> dict_get (merge_metrics m vs) k =
     (case dict_get vs k of
        None \<Rightarrow> dict_get m k
      | Some v \<Rightarrow> (case (as_number v, Option.bind (dict_get m k) as_number) of
           (Some a, Some b) \<Rightarrow> Some (JInt (b + a)) | _ \<Rightarrow> Some v))"
proof (induction vs arbitrary: m)
  case Nil
  then show ?case by (simp add: merge_metrics_def)
next
  case (Cons p vs)
  obtain k0 v0 where p: "p = (k0, v0)" by (cases p)
  have "merge_metrics m ((k0, v0) # vs) = merge_metrics (merge_metric (k0, v0) m) vs"
    by (simp add: merge_metrics_def)
  moreover have "dict_get vs k0 = None" using Cons.prems p by (simp add: dict_get_None_iff)
  moreover have "distinct (map fst vs)" using Cons.prems by simp
  note Cons.IH[OF this, of "merge_metric (k0, v0) m"]
  ultimately show ?case unfolding p by (cases "k = k0"; cases "dict_get vs k") (simp_all add: merge_metric_get)
qed

text \<open>Accumulating a stage's counters adds them to the job's totals key by key where both
  values are numbers (booleans counting as 0 and 1), replaces the value otherwise, keeps every
  other total, and leaves other jobs untouched.\<close>

theorem accumulated_metrics_add:
  assumes "distinct (map fst vs)" and "get_job jid d = Some j"
  shows "\<exists>j'. get_job jid (accumulate_metrics now jid vs d) = Some j' \<and>
    (\<forall>k. dict_get (j_metrics j') k =
       (case (dict_get vs k, dict_get (j_metrics j) k) of
          (None, old) \<Rightarrow> old
        | (Some v, None) \<Rightarrow> Some v
        | (Some v, Some old) \<Rightarrow> (case (as_number v, as_number old) of
             (Some a, Some b) \<Rightarrow> Some (JInt (b + a)) | _ \<Rightarrow> Some v))) \<and>
    (\<forall>k. k \<noteq> jid \<longrightarrow> get_job k (accumulate_metrics now jid vs d) = get_job k d)"
  using assms
  by (auto simp: accumulate_metrics_def metrics.get_job_step merge_metrics_get split: option.splits)

theorem accumulated_metrics_add_witness:
  "\<exists>j'. get_job 10 (accumulate_metrics 5 10 [(''tokens'', JInt 4)]
      (fx_db\<lparr>db_jobs := [fx_job\<lparr>j_metrics := [(''tokens'', JInt 3), (''pages'', JInt 2)]\<rparr>]\<rparr>)) = Some j' \<and>
    dict_get (j_metrics j') ''tokens'' = Some (JInt 7) \<and> dict_get (j_metrics j') ''pages'' = Some (JInt 2)"
proof -
  let ?d = "fx_db\<lparr>db_jobs := [fx_job\<lparr>j_metrics := [(''tokens'', JInt 3), (''pages'', JInt 2)]\<rparr>]\<rparr>"
  have "get_job 10 ?d = Some (fx_job\<lparr>j_metrics := [(''tokens'', JInt 3), (''pages'', JInt 2)]\<rparr>)"
    by (simp add: get_job_def fx_job_def)
  from accumulated_metrics_add[OF _ this, of "[(''tokens'', JInt 4)]" 5] show ?thesis
    by (auto simp: dict_get_def)
qed

text \<open>A job that reported within the timeout is never swept.\<close>

lemma recent_report_not_stalled:
  "j_heartbeat_at j = Some t \<Longrightarrow> now - timeout * 60000000 \<le> t \<Longrightarrow> j \<notin> set (find_stalled now timeout d)"
  by (simp add: find_stalled_def is_stalled_def)

end
