(* ===== verification/QueueMessage.thy ===== *)
theory QueueMessage
  imports Models "HOL-Library.Multiset"
begin

text \<open>
  \<^verbatim>\<open>backend/app/orchestrator/queue.py\<close>, the message: \<open>StageMessage\<close> with \<open>to_payload\<close> and
  \<open>from_payload\<close>, and the dispatch contract \<open>IQueueClient\<close> as a locale that the Postgres and
  Redis drivers interpret.
\<close>

record stage_message =
  m_job_id :: uuid
  m_contract_id :: uuid
  m_project_id :: uuid
  m_stage :: pipeline_stage
  m_attempt :: int
  m_priority :: job_priority
  m_trace :: "(string \<times> string) list"
  m_continue :: bool
  m_options :: dict
  m_dispatch_id :: string

subsection \<open>Serialisation\<close>

definition to_payload :: "stage_message \<Rightarrow> dict" where
  "to_payload m =
     [(''job_id'', JStr (uuid_str (m_job_id m))),
      (''contract_id'', JStr (uuid_str (m_contract_id m))),
      (''project_id'', JStr (uuid_str (m_project_id m))),
      (''stage'', JStr (stage_value (m_stage m))),
      (''attempt'', JInt (m_attempt m)),
      (''priority'', JStr (priority_value (m_priority m))),
      (''trace'', JObj (map (map_prod id JStr) (m_trace m))),
      (''continue_pipeline'', JBool (m_continue m)),
      (''options'', JObj (m_options m)),
      (''dispatch_id'', JStr (m_dispatch_id m))]"

definition KeyError :: "string \<Rightarrow> exn" where
  "KeyError k = PyErr ''KeyError'' k"

definition ValueError :: exn where
  "ValueError = PyErr ''ValueError'' []"

definition TypeError :: exn where
  "TypeError = PyErr ''TypeError'' []"

definition require :: "dict \<Rightarrow> string \<Rightarrow> exn + json" where
  "require d k = (case dict_get d k of None \<Rightarrow> Inl (KeyError k) | Some v \<Rightarrow> Inr v)"

text \<open>\<open>uuid.UUID(str(v))\<close>; the text of a value that is not a string is never 32 hexadecimal
  digits, an integer of 32 digits apart, which no writer of payloads produces.\<close>

definition read_uuid :: "dict \<Rightarrow> string \<Rightarrow> exn + uuid" where
  "read_uuid d k = (case require d k of
       Inl e \<Rightarrow> Inl e
     | Inr (JStr s) \<Rightarrow> (case uuid_parse s of None \<Rightarrow> Inl ValueError | Some u \<Rightarrow> Inr u)
     | Inr _ \<Rightarrow> Inl ValueError)"

definition read_stage :: "dict \<Rightarrow> exn + pipeline_stage" where
  "read_stage d = (case require d ''stage'' of
       Inl e \<Rightarrow> Inl e
     | Inr (JStr s) \<Rightarrow> (case stage_of_value s of None \<Rightarrow> Inl ValueError | Some st \<Rightarrow> Inr st)
     | Inr _ \<Rightarrow> Inl ValueError)"

text \<open>\<open>int(payload.get("attempt", 1))\<close>; decimal text is not written by any producer and is
  rejected here.\<close>

definition read_attempt :: "dict \<Rightarrow> exn + int" where
  "read_attempt d = (case dict_get d ''attempt'' of
       None \<Rightarrow> Inr 1
     | Some (JInt i) \<Rightarrow> Inr i
     | Some (JBool b) \<Rightarrow> Inr (of_bool b)
     | Some (JStr s) \<Rightarrow> Inl ValueError
     | Some _ \<Rightarrow> Inl TypeError)"

definition read_priority :: "dict \<Rightarrow> exn + job_priority" where
  "read_priority d = (case dict_get d ''priority'' of
       None \<Rightarrow> Inr JP_NORMAL
     | Some (JStr s) \<Rightarrow> (case priority_of_value s of None \<Rightarrow> Inl ValueError | Some p \<Rightarrow> Inr p)
     | Some _ \<Rightarrow> Inl ValueError)"

text \<open>\<open>dict(payload.get(key) or {})\<close>.\<close>

definition read_dict :: "dict \<Rightarrow> string \<Rightarrow> exn + dict" where
  "read_dict d k = (case dict_get d k of
       None \<Rightarrow> Inr []
     | Some v \<Rightarrow> if \<not> truthy v then Inr []
        else (case v of JObj e \<Rightarrow> Inr e | JArr _ \<Rightarrow> Inl ValueError | JStr _ \<Rightarrow> Inl ValueError
              | _ \<Rightarrow> Inl TypeError))"

fun as_text :: "json \<Rightarrow> string" where
  "as_text (JStr s) = s"
| "as_text _ = []"

definition read_trace :: "dict \<Rightarrow> exn + (string \<times> string) list" where
  "read_trace d = map_sum id (map (map_prod id as_text)) (read_dict d ''trace'')"

text \<open>\<open>str(payload.get("dispatch_id") or fresh)\<close>, the id being text wherever it is written.\<close>

definition read_dispatch :: "string \<Rightarrow> dict \<Rightarrow> string" where
  "read_dispatch fresh d = (case dict_get d ''dispatch_id'' of
       Some (JStr s) \<Rightarrow> if s = [] then fresh else s | _ \<Rightarrow> fresh)"

text \<open>The arguments are read in the order of the call; the first that raises decides.\<close>

definition from_payload :: "string \<Rightarrow> dict \<Rightarrow> exn + stage_message" where
  "from_payload fresh d =
     (case read_uuid d ''job_id'' of Inl e \<Rightarrow> Inl e | Inr job \<Rightarrow>
     (case read_uuid d ''contract_id'' of Inl e \<Rightarrow> Inl e | Inr contract \<Rightarrow>
     (case read_uuid d ''project_id'' of Inl e \<Rightarrow> Inl e | Inr project \<Rightarrow>
     (case read_stage d of Inl e \<Rightarrow> Inl e | Inr st \<Rightarrow>
     (case read_attempt d of Inl e \<Rightarrow> Inl e | Inr attempt \<Rightarrow>
     (case read_priority d of Inl e \<Rightarrow> Inl e | Inr priority \<Rightarrow>
     (case read_trace d of Inl e \<Rightarrow> Inl e | Inr trace \<Rightarrow>
     (case read_dict d ''options'' of Inl e \<Rightarrow> Inl e | Inr options \<Rightarrow>
       Inr \<lparr>m_job_id = job, m_contract_id = contract, m_project_id = project, m_stage = st,
          m_attempt = attempt, m_priority = priority, m_trace = trace,
          m_continue = (case dict_get d ''continue_pipeline'' of None \<Rightarrow> True | Some v \<Rightarrow> truthy v),
          m_options = options, m_dispatch_id = read_dispatch fresh d\<rparr>))))))))"

subsection \<open>The round trip\<close>

text \<open>A queued message reads back as the message that was written, whatever its stage,
  priority, attempt, trace and options: nothing is lost between \<open>to_payload\<close> and
  \<open>from_payload\<close>, and the dispatch id that deduplicates deliveries is kept.\<close>

theorem payload_roundtrip:
  assumes "m_job_id m < 16 ^ 32" "m_contract_id m < 16 ^ 32" "m_project_id m < 16 ^ 32"
    and "m_dispatch_id m \<noteq> []"
  shows "from_payload fresh (to_payload m) = Inr m"
  using assms
  by (simp add: from_payload_def to_payload_def read_uuid_def read_stage_def read_attempt_def
      read_priority_def read_trace_def read_dict_def read_dispatch_def require_def dict_get_def
      uuid_parse_str map_prod_def comp_def split_def)

definition fx_message :: "pipeline_stage \<Rightarrow> int \<Rightarrow> string \<Rightarrow> stage_message" where
  "fx_message st attempt did = \<lparr>m_job_id = 10, m_contract_id = 20, m_project_id = 30, m_stage = st,
     m_attempt = attempt, m_priority = JP_NORMAL, m_trace = [], m_continue = True,
     m_options = [], m_dispatch_id = did\<rparr>"

theorem payload_roundtrip_witness:
  "from_payload ''f'' (to_payload (fx_message PS_PARSER 2 ''d1'')) = Inr (fx_message PS_PARSER 2 ''d1'')"
  using payload_roundtrip[of "fx_message PS_PARSER 2 ''d1''" "''f''"] by (simp add: fx_message_def)

subsection \<open>The dispatch contract\<close>

text \<open>
  What the runner and the API rely on when they call \<open>enqueue\<close>: a message that is accepted adds
  one dispatch of its (job, stage, attempt) to the work the queue holds, unless its dispatch id is
  already known, in which case the delivery collapses and nothing changes. \<open>pending\<close> is the work
  not yet handed to a worker; \<open>key\<close> is how the driver identifies a dispatch.
\<close>

definition message_key :: "stage_message \<Rightarrow> uuid \<times> pipeline_stage \<times> int" where
  "message_key m = (m_job_id m, m_stage m, m_attempt m)"

text \<open>\<open>enqueue_many\<close> of the base class: one call per message, stopping at the first that raises.\<close>

fun enqueue_many :: "(stage_message \<Rightarrow> 'q \<Rightarrow> exn + 'q) \<Rightarrow> stage_message list \<Rightarrow> 'q \<Rightarrow> exn + 'q" where
  "enqueue_many enq [] q = Inr q"
| "enqueue_many enq (m # ms) q =
     (case enq m q of Inl e \<Rightarrow> Inl e | Inr q' \<Rightarrow> enqueue_many enq ms q')"

locale queue_client =
  fixes key :: "stage_message \<Rightarrow> 'w"
    and enqueue :: "instant \<Rightarrow> stage_message \<Rightarrow> int \<Rightarrow> 'q \<Rightarrow> exn + 'q"
    and pending :: "'q \<Rightarrow> 'w multiset"
    and known :: "stage_message \<Rightarrow> 'q \<Rightarrow> bool"
  assumes enqueue_new: "enqueue now m delay q = Inr q' \<Longrightarrow> \<not> known m q \<Longrightarrow>
      pending q' = add_mset (key m) (pending q)"
    and enqueue_known: "enqueue now m delay q = Inr q' \<Longrightarrow> known m q \<Longrightarrow> pending q' = pending q"
begin

lemma enqueue_monotone: "enqueue now m delay q = Inr q' \<Longrightarrow> pending q \<subseteq># pending q'"
  using enqueue_new[of now m delay q q'] enqueue_known[of now m delay q q']
  by (cases "known m q") (auto simp: subset_mset.le_add_same_cancel1 subseteq_mset_def)

lemma enqueue_at_most_one: "enqueue now m delay q = Inr q' \<Longrightarrow> size (pending q') \<le> Suc (size (pending q))"
  using enqueue_new[of now m delay q q'] enqueue_known[of now m delay q q']
  by (cases "known m q") auto

lemma enqueue_many_monotone:
  "enqueue_many (\<lambda>m. enqueue now m 0) ms q = Inr q' \<Longrightarrow> pending q \<subseteq># pending q'"
proof (induction ms arbitrary: q)
  case (Cons m ms)
  then obtain q1 where "enqueue now m 0 q = Inr q1" "enqueue_many (\<lambda>m. enqueue now m 0) ms q1 = Inr q'"
    by (auto split: sum.splits)
  with Cons.IH enqueue_monotone show ?case by (meson subset_mset.order_trans)
qed simp

end

end
