(* ===== verification/Dates.thy ===== *)
theory Dates
  imports Models
begin

text \<open>
  Calendar dates and the integers and numbers-as-text the services read out of configuration.

  A \<open>date\<close> is its proleptic Gregorian ordinal (\<open>date.toordinal()\<close>: 0001-01-01 is 1), so that
  \<open>(a - b).days\<close> is a subtraction. Adding a \<open>timedelta\<close> leaves the range of \<open>date\<close> with an
  \<open>OverflowError\<close>. \<open>isoformat\<close> follows the calendar arithmetic of the standard library.
\<close>

type_synonym date = int

definition MAX_ORDINAL :: int where
  "MAX_ORDINAL = 3652059"

definition OverflowError :: exn where
  "OverflowError = PyErr ''OverflowError'' ''date value out of range''"

text \<open>\<open>d + timedelta(days=n)\<close>. A number of days that \<open>timedelta\<close> itself rejects leaves the range
  of dates as well, with the same exception.\<close>

definition date_plus :: "date \<Rightarrow> int \<Rightarrow> exn + date" where
  "date_plus d n = (if 1 \<le> d + n \<and> d + n \<le> MAX_ORDINAL then Inr (d + n) else Inl OverflowError)"

definition is_leap :: "int \<Rightarrow> bool" where
  "is_leap y \<longleftrightarrow> y mod 4 = 0 \<and> (y mod 100 \<noteq> 0 \<or> y mod 400 = 0)"

definition days_in_month :: "int \<Rightarrow> int \<Rightarrow> int" where
  "days_in_month y m = (if m = 2 then (if is_leap y then 29 else 28)
     else if m \<in> {4, 6, 9, 11} then 30 else 31)"

definition days_before_year :: "int \<Rightarrow> int" where
  "days_before_year y = (let p = y - 1 in p * 365 + p div 4 - p div 100 + p div 400)"

text \<open>The month and day of the n-th day (from 0) of a year, searched from month \<open>m\<close> on.\<close>

function month_day :: "int \<Rightarrow> int \<Rightarrow> int \<Rightarrow> int \<times> int" where
  "month_day y m n =
     (if m \<ge> 12 \<or> n < days_in_month y m then (m, n + 1) else month_day y (m + 1) (n - days_in_month y m))"
  by pat_completeness auto
termination by (relation "measure (\<lambda>(y, m, n). nat (12 - m))") auto

declare month_day.simps [simp del]

text \<open>The year of an ordinal: the number of whole 400, 100, 4 and 1 year cycles before it, the last
  day of a cycle belonging to the year before the next.\<close>

definition year_of :: "date \<Rightarrow> int" where
  "year_of d =
     (let n = d - 1; n400 = n div 146097; n = n mod 146097; n100 = n div 36524; n = n mod 36524;
          n4 = n div 1461; n = n mod 1461; n1 = n div 365;
          y = n400 * 400 + n100 * 100 + n4 * 4 + n1 + 1
      in if n1 = 4 \<or> n100 = 4 then y - 1 else y)"

definition civil :: "date \<Rightarrow> int \<times> int \<times> int" where
  "civil d = (let y = year_of d in case month_day y 1 (d - 1 - days_before_year y) of (m, k) \<Rightarrow> (y, m, k))"

definition pad2 :: "int \<Rightarrow> string" where
  "pad2 n = (if n < 10 then ''0'' else []) @ decimal (nat n)"

definition pad4 :: "int \<Rightarrow> string" where
  "pad4 n = (if n < 10 then ''000'' else if n < 100 then ''00'' else if n < 1000 then ''0'' else [])
     @ decimal (nat n)"

definition iso_date :: "date \<Rightarrow> string" where
  "iso_date d = (case civil d of (y, m, k) \<Rightarrow> pad4 y @ ''-'' @ pad2 m @ ''-'' @ pad2 k)"

subsection \<open>Integers as text\<close>

definition str_int :: "int \<Rightarrow> string" where
  "str_int i = json_str (JInt i)"

text \<open>\<open>int(text)\<close>: surrounding white space, a sign, and decimal digits with single underscores
  between them.\<close>

definition is_space :: "char \<Rightarrow> bool" where
  "is_space c \<longleftrightarrow> c \<in> {CHR '' '', CHR 0x09, CHR 0x0A, CHR 0x0B, CHR 0x0C, CHR 0x0D,
     CHR 0x1C, CHR 0x1D, CHR 0x1E, CHR 0x1F}"

definition strip :: "string \<Rightarrow> string" where
  "strip s = rev (dropWhile is_space (rev (dropWhile is_space s)))"

fun parse_digits :: "string \<Rightarrow> int \<Rightarrow> int option" where
  "parse_digits [] acc = Some acc"
| "parse_digits (c # cs) acc =
     (if c = CHR ''_''
      then (case cs of [] \<Rightarrow> None | d # ds \<Rightarrow> if d = CHR ''_'' then None else parse_digits cs acc)
      else case tuple_index c ''0123456789'' of
          None \<Rightarrow> None
        | Some v \<Rightarrow> parse_digits cs (acc * 10 + int v))"

definition parse_unsigned :: "string \<Rightarrow> int option" where
  "parse_unsigned s = (if s = [] \<or> hd s = CHR ''_'' then None else parse_digits s 0)"

definition parse_int :: "string \<Rightarrow> int option" where
  "parse_int s = (case strip s of
       [] \<Rightarrow> None
     | c # cs \<Rightarrow> if c = CHR ''-'' then map_option uminus (parse_unsigned cs)
                 else if c = CHR ''+'' then parse_unsigned cs else parse_unsigned (c # cs))"

text \<open>\<open>int(value)\<close> of a JSON value, \<open>None\<close> where it raises \<open>TypeError\<close> or \<open>ValueError\<close>.\<close>

fun int_of_json :: "json \<Rightarrow> int option" where
  "int_of_json (JInt i) = Some i"
| "int_of_json (JBool b) = Some (if b then 1 else 0)"
| "int_of_json (JStr s) = parse_int s"
| "int_of_json _ = None"

subsection \<open>The text of a value\<close>

text \<open>\<open>repr(text)\<close> on 8-bit characters: single quotes unless the text has one and no double quote, a
  backslash before the quote and itself, escapes for what does not print.\<close>

definition repr_char :: "char \<Rightarrow> char \<Rightarrow> string" where
  "repr_char q c = (let n = of_char c :: nat in
     if c = q \<or> c = CHR 0x5C then [CHR 0x5C, c]
     else if n = 9 then [CHR 0x5C, CHR ''t''] else if n = 10 then [CHR 0x5C, CHR ''n'']
     else if n = 13 then [CHR 0x5C, CHR ''r'']
     else if n < 32 \<or> (127 \<le> n \<and> n \<le> 160) \<or> n = 173 then [CHR 0x5C, CHR ''x''] @ hex_fixed 2 n
     else [c])"

definition repr_str :: "string \<Rightarrow> string" where
  "repr_str s = (let q = (if CHR 0x27 \<in> set s \<and> CHR 0x22 \<notin> set s then CHR 0x22 else CHR 0x27)
     in [q] @ concat (map (repr_char q) s) @ [q])"

fun py_repr :: "json \<Rightarrow> string" where
  "py_repr JNull = ''None''"
| "py_repr (JBool b) = (if b then ''True'' else ''False'')"
| "py_repr (JInt i) = str_int i"
| "py_repr (JStr s) = repr_str s"
| "py_repr (JArr xs) = ''['' @ join '', '' (map py_repr xs) @ '']''"
| "py_repr (JObj d) = ''{'' @ join '', '' (map (\<lambda>e. repr_str (fst e) @ '': '' @ py_repr (snd e)) d) @ ''}''"

definition py_str :: "json \<Rightarrow> string" where
  "py_str j = (case j of JStr s \<Rightarrow> s | _ \<Rightarrow> py_repr j)"

text \<open>\<open>datetime.isoformat()\<close> of an instant in UTC, counted in microseconds from 1970-01-01.\<close>

definition pad6 :: "int \<Rightarrow> string" where
  "pad6 n = replicate (6 - length (decimal (nat n))) (CHR ''0'') @ decimal (nat n)"

definition iso_instant :: "instant \<Rightarrow> string" where
  "iso_instant t =
     (let s = t div 1000000; us = t mod 1000000; sod = s mod 86400
      in iso_date (s div 86400 + 719163) @ ''T'' @ pad2 (sod div 3600) @ '':'' @ pad2 (sod mod 3600 div 60)
         @ '':'' @ pad2 (sod mod 60) @ (if us = 0 then [] else ''.'' @ pad6 us) @ ''+00:00'')"

subsection \<open>Facts\<close>

lemma civil_examples:
  "civil 738886 = (2024, 1, 1)" "civil 739251 = (2024, 12, 31)" "civil 738945 = (2024, 2, 29)"
  "civil 1 = (1, 1, 1)" "civil 3652059 = (9999, 12, 31)" "civil 739252 = (2025, 1, 1)"
  by (simp_all add: civil_def year_of_def days_before_year_def month_day.simps days_in_month_def
      is_leap_def)

lemma iso_examples: "iso_date 738945 = ''2024-02-29''" "iso_date 1 = ''0001-01-01''"
  "iso_instant 1708387505000250 = ''2024-02-20T00:05:05.000250+00:00''"
  by code_simp+

lemma iso_instant_nonempty [simp]: "iso_instant t \<noteq> []"
  by (simp add: iso_instant_def Let_def)

lemma date_plus_simps [simp]:
  "date_plus d n = Inr e \<longleftrightarrow> e = d + n \<and> 1 \<le> d + n \<and> d + n \<le> MAX_ORDINAL"
  by (auto simp: date_plus_def)

text \<open>How long the texts are: a date that exists takes a bounded number of characters.\<close>

lemma length_decimal: "n < 10 ^ k \<Longrightarrow> 0 < k \<Longrightarrow> length (decimal n) \<le> k"
proof (induction n arbitrary: k rule: decimal.induct)
  case (1 n)
  show ?case
  proof (cases "n < 10")
    case False
    obtain j where k: "k = Suc j" using "1.prems"(2) gr0_implies_Suc by blast
    have "n div 10 < 10 ^ j" using "1.prems"(1) k by (simp add: less_mult_imp_div_less mult.commute)
    moreover have "0 < j" using False "1.prems"(1) k by (cases j) auto
    ultimately have "length (decimal (n div 10)) \<le> j" using "1.IH" False by blast
    then show ?thesis using False k by (subst decimal.simps) (simp del: decimal.simps)
  qed (use "1.prems" in simp)
qed

lemma length_uuid_str [simp]: "length (uuid_str u) = 36"
  by (simp add: uuid_str_def Let_def)

lemma month_day_bounds: "m \<le> 12 \<Longrightarrow> fst (month_day y m n) \<le> 12 \<and> snd (month_day y m n) \<le> n + 1"
proof (induction y m n rule: month_day.induct)
  case (1 y m n)
  show ?case
  proof (cases "m \<ge> 12 \<or> n < days_in_month y m")
    case True
    then show ?thesis using "1.prems" by (simp add: month_day.simps)
  next
    case False
    have "0 \<le> days_in_month y m" by (simp add: days_in_month_def)
    moreover have "fst (month_day y (m + 1) (n - days_in_month y m)) \<le> 12 \<and>
        snd (month_day y (m + 1) (n - days_in_month y m)) \<le> n - days_in_month y m + 1"
      using "1.IH"[OF False] False by linarith
    ultimately show ?thesis using False by (subst (1 2) month_day.simps) simp
  qed
qed

lemma year_of_bounds:
  assumes "1 \<le> d" "d \<le> MAX_ORDINAL"
  shows "1 \<le> year_of d" "year_of d < 100000"
proof -
  define n100 n4 n1 where "n100 = (d - 1) mod 146097 div 36524"
    and "n4 = (d - 1) mod 146097 mod 36524 div 1461" and "n1 = (d - 1) mod 146097 mod 36524 mod 1461 div 365"
  have "0 \<le> (d - 1) div 146097" "(d - 1) div 146097 < 25"
    using assms by (simp_all add: MAX_ORDINAL_def)
  moreover have "0 \<le> n100" "n100 < 5"
    by (simp_all add: n100_def)
  moreover have "0 \<le> n4" "n4 < 25"
    by (simp_all add: n4_def)
  moreover have "0 \<le> n1" "n1 < 5"
    by (simp_all add: n1_def)
  ultimately have "1 \<le> year_of d \<and> year_of d < 100000"
    by (simp add: year_of_def Let_def n100_def[symmetric] n4_def[symmetric] n1_def[symmetric])
  then show "1 \<le> year_of d" "year_of d < 100000" by auto
qed

lemma length_iso_date:
  assumes "1 \<le> d" "d \<le> MAX_ORDINAL"
  shows "length (iso_date d) \<le> 30"
proof -
  let ?y = "year_of d"
  obtain m k where md: "month_day ?y 1 (d - 1 - days_before_year ?y) = (m, k)" by fastforce
  have "0 \<le> (?y - 1) div 4" "0 \<le> (?y - 1) div 400"
    using year_of_bounds[OF assms] by (simp_all add: pos_imp_zdiv_nonneg_iff)
  moreover have "(?y - 1) div 100 \<le> (?y - 1) * 365"
    using zdiv_mono2[of "?y - 1" 1 100] year_of_bounds(1)[OF assms] by simp
  ultimately have "0 \<le> days_before_year ?y" using year_of_bounds(1)[OF assms] by (simp add: days_before_year_def Let_def)
  then have "m \<le> 12" "k \<le> 3652059"
    using month_day_bounds[of 1 ?y "d - 1 - days_before_year ?y"] md assms by (auto simp: MAX_ORDINAL_def)
  then have "length (decimal (nat m)) \<le> 2" "length (decimal (nat k)) \<le> 7"
    by (auto intro!: length_decimal simp: nat_less_iff simp del: decimal.simps)
  moreover have "length (decimal (nat ?y)) \<le> 5"
    using year_of_bounds[OF assms] by (intro length_decimal) (auto simp: nat_less_iff)
  ultimately show ?thesis
    by (simp add: iso_date_def civil_def Let_def md pad2_def pad4_def del: decimal.simps)
qed

text \<open>The civil date determines the day: no two days are written alike.\<close>

fun days_before_month :: "int \<Rightarrow> nat \<Rightarrow> int" where
  "days_before_month y 0 = 0"
| "days_before_month y (Suc 0) = 0"
| "days_before_month y (Suc m) = days_before_month y m + days_in_month y (int m)"

definition ordinal :: "int \<times> int \<times> int \<Rightarrow> date" where
  "ordinal = (\<lambda>(y, m, k). days_before_year y + days_before_month y (nat m) + k)"

lemma month_day_ordinal:
  "1 \<le> m \<Longrightarrow> m \<le> 12 \<Longrightarrow> month_day y m n = (m', k) \<Longrightarrow>
    days_before_month y (nat m') + k = days_before_month y (nat m) + n + 1"
proof (induction y m n rule: month_day.induct)
  case (1 y m n)
  show ?case
  proof (cases "m \<ge> 12 \<or> n < days_in_month y m")
    case True
    then show ?thesis using "1.prems" by (simp add: month_day.simps)
  next
    case False
    have "month_day y (m + 1) (n - days_in_month y m) = (m', k)"
      using "1.prems"(3) False by (subst (asm) month_day.simps) simp
    then have "days_before_month y (nat m') + k
        = days_before_month y (nat (m + 1)) + (n - days_in_month y m) + 1"
      using "1.IH"[OF False] False "1.prems"(1) by simp
    moreover obtain j where "nat m = Suc j" "m = int (Suc j)"
      using "1.prems"(1) by (metis Suc_nat_eq_nat_zadd1 int_nat_eq nat_0_iff not_one_le_zero old.nat.exhaust
          order.trans zero_le_one)
    then have "days_before_month y (nat (m + 1)) = days_before_month y (nat m) + days_in_month y m"
      by (simp add: nat_add_distrib)
    ultimately show ?thesis by simp
  qed
qed

lemma ordinal_civil: "ordinal (civil d) = d"
proof -
  obtain m k where md: "month_day (year_of d) 1 (d - 1 - days_before_year (year_of d)) = (m, k)" by fastforce
  then show ?thesis
    using month_day_ordinal[OF _ _ md] by (simp add: civil_def ordinal_def Let_def)
qed

end
