(* ===== verification/Runner.thy ===== *)
theory Runner
  imports ProcessingRepo QueueMessage Dates
begin

text \<open>
  \<^verbatim>\<open>backend/app/orchestrator/runner.py\<close>: the execution of one stage in one transaction, the
  dispatch of what follows after the commit, and the recording of failures.

  \<^item> The stage handlers, the object storage and the queue driver are parameters: a handler is what
    \<open>StageHandler\<close> promises (\<open>versions_for\<close>, \<open>cleanup\<close>, \<open>run\<close>), each acting on the database, and
    \<open>enqueue\<close> is the dispatch contract of \<open>QueueMessage\<close>.
  \<^item> \<open>session_scope\<close>: an exception out of \<open>_execute\<close> is \<open>Inl\<close> and leaves the database as it was.
  \<^item> \<open>en_start\<close> is the clock until the handler is called and \<open>en_end\<close> the clock from its return.
    Spans, metrics, log lines, \<open>duration_ms\<close> of the outcome, the cache eviction, the project
    counters and the failure alert (whose errors are swallowed) have no effect on this state.
  \<^item> A write of the runner's own rows does not fail, so the rollback branch of \<open>_handle_failure\<close> is
    not taken.
\<close>

subsection \<open>What the runner is given\<close>

record stage_artifact =
  sa_kind :: artifact_kind
  sa_payload :: json
  sa_summary :: dict

record stage_result =
  sr_artifacts :: "stage_artifact list"
  sr_stats :: dict
  sr_context_updates :: dict
  sr_halt :: bool
  sr_halt_reason :: "string option"
  sr_warnings :: "string list"

record stage_context =
  x_job :: job_row
  x_contract :: contract_row
  x_stage :: pipeline_stage
  x_attempt :: int
  x_profile :: "profile_row option"
  x_options :: dict

record 'k stage_handler =
  hd_versions :: "stage_context \<Rightarrow> component_versions"
  hd_cleanup :: "stage_context \<Rightarrow> 'k db \<Rightarrow> 'k db \<times> (exn + unit)"
  hd_run :: "stage_context \<Rightarrow> 'k db \<Rightarrow> 'k db \<times> (exn + stage_result)"

record 'k runner_env =
  en_versions :: version_settings
  en_imports :: import_errors
  en_handlers :: "pipeline_stage \<Rightarrow> 'k stage_handler"
  en_put_json :: "storage_key \<Rightarrow> json \<Rightarrow> exn + string option \<times> int"
  en_backoff_ms :: int
  en_worker_id :: string
  en_dispatch_id :: string
  en_start :: instant
  en_end :: instant

record stage_outcome =
  o_job_id :: uuid
  o_stage :: pipeline_stage
  o_status :: stage_status
  o_attempt :: int
  o_next_stage :: "pipeline_stage option"
  o_artifact_ref :: "storage_key option"
  o_stats :: dict
  o_warnings :: "string list"
  o_error :: "dict option"
  o_should_retry :: bool
  o_retry_delay_ms :: int

definition outcome :: "uuid \<Rightarrow> stage_message \<Rightarrow> stage_status \<Rightarrow> stage_outcome" where
  "outcome jid m status = \<lparr>o_job_id = jid, o_stage = m_stage m, o_status = status,
     o_attempt = m_attempt m, o_next_stage = None, o_artifact_ref = None, o_stats = [],
     o_warnings = [], o_error = None, o_should_retry = False, o_retry_delay_ms = 0\<rparr>"

subsection \<open>The plan of a job\<close>

definition restore_item :: "plan_item \<Rightarrow> exn + planned_stage" where
  "restore_item i = (case stage_of_value (pi_stage i) of
       None \<Rightarrow> Inl ValueError
     | Some st \<Rightarrow> Inr \<lparr>ps_stage = st, ps_action = pi_action i, ps_reason = pi_reason i,
          ps_checkpoint_id = pi_checkpoint_id i, ps_versions = pi_versions i\<rparr>)"

fun restore_items :: "plan_item list \<Rightarrow> exn + planned_stage list" where
  "restore_items [] = Inr []"
| "restore_items (i # is) =
     (case restore_item i of Inl e \<Rightarrow> Inl e | Inr p \<Rightarrow> map_sum id (Cons p) (restore_items is))"

definition restore_plan :: "job_row \<Rightarrow> contract_row \<Rightarrow> plan_item list \<Rightarrow> exn + execution_plan" where
  "restore_plan j c items = map_sum id (\<lambda>stages.
     \<lparr>ep_job_id = j_id j, ep_contract_id = c_id c, ep_project_id = c_project_id c,
      ep_stages = stages, ep_branches = pd_branches (j_execution_plan j),
      ep_extensions = pd_extensions (j_execution_plan j),
      ep_profile_key = pd_profile_key (j_execution_plan j),
      ep_profile_version = pd_profile_version (j_execution_plan j), ep_notes = []\<rparr>)
     (restore_items items)"

definition load_profile :: "job_row \<Rightarrow> 'k db \<Rightarrow> profile_row option" where
  "load_profile j d = (case j_profile_id j of None \<Rightarrow> None | Some pid \<Rightarrow> get_profile pid d)"

text \<open>The job and the contract are objects of the session: reading them gives the row as the
  transaction has left it so far.\<close>

definition session_job :: "job_row \<Rightarrow> 'k db \<Rightarrow> job_row" where
  "session_job j d = (case get_job (j_id j) d of None \<Rightarrow> j | Some j' \<Rightarrow> j')"

definition session_contract :: "contract_row \<Rightarrow> 'k db \<Rightarrow> contract_row" where
  "session_contract c d =
     (case List.find (\<lambda>x. c_id x = c_id c) (db_contracts d) of None \<Rightarrow> c | Some c' \<Rightarrow> c')"

definition store_plan :: "instant \<Rightarrow> uuid \<Rightarrow> execution_plan \<Rightarrow> 'k db \<Rightarrow> 'k db" where
  "store_plan now jid p = update_job now jid (\<lambda>j. j\<lparr>j_execution_plan := merge_plan (j_execution_plan j) p\<rparr>)"

definition resolve_plan :: "'k runner_env \<Rightarrow> instant \<Rightarrow> job_row \<Rightarrow> contract_row \<Rightarrow> profile_row option \<Rightarrow>
    'k db \<Rightarrow> exn + 'k db \<times> execution_plan" where
  "resolve_plan env now j c profile d =
     (case pd_stages (j_execution_plan j) of
        Some (i # items) \<Rightarrow> map_sum id (\<lambda>p. (d, p)) (restore_plan j c (i # items))
      | _ \<Rightarrow> map_sum id (\<lambda>p. (store_plan now (j_id j) p d, p))
             (plan (en_versions env) (en_imports env) j c profile (j_resume_from_stage j) False
                (checkpoints (c_id c) d)))"

subsection \<open>Artifacts and context\<close>

text \<open>The first artifact's key is the primary reference.\<close>

fun persist_artifacts :: "'k runner_env \<Rightarrow> uuid \<Rightarrow> contract_row \<Rightarrow> vdict \<Rightarrow> stage_artifact list \<Rightarrow>
    'k db \<Rightarrow> exn + 'k db \<times> storage_key option" where
  "persist_artifacts env jid c versions [] d = Inr (d, None)"
| "persist_artifacts env jid c versions (a # rest) d =
     (case current (c_id c) (sa_kind a) d of
        Inl e \<Rightarrow> Inl e
      | Inr existing \<Rightarrow>
          (let generation = (case existing of Some r \<Rightarrow> a_generation r + 1 | None \<Rightarrow> 1);
               key = ArtifactKey (c_project_id c) (c_id c) (sa_kind a) generation
           in case en_put_json env key (sa_payload a) of
                Inl e \<Rightarrow> Inl e
              | Inr (checksum, nbytes) \<Rightarrow>
                  (case supersede (c_id c) (c_project_id c) (Some jid) (sa_kind a) key
                     (case checksum of None \<Rightarrow> [] | Some s \<Rightarrow> s) (Some nbytes) versions (sa_summary a) d of
                     Inl e \<Rightarrow> Inl e
                   | Inr (d', _) \<Rightarrow> map_sum id (\<lambda>(d'', _). (d'', Some key))
                       (persist_artifacts env jid c versions rest d'))))"

text \<open>\<open>int(value)\<close> of a JSON value.\<close>

fun json_int :: "json \<Rightarrow> exn + int" where
  "json_int (JInt i) = Inr i"
| "json_int (JBool b) = Inr (of_bool b)"
| "json_int (JStr s) = (case parse_int s of None \<Rightarrow> Inl ValueError | Some i \<Rightarrow> Inr i)"
| "json_int _ = Inl TypeError"

text \<open>\<open>updates.get(key)\<close> when it is truthy.\<close>

definition update_of :: "dict \<Rightarrow> string \<Rightarrow> json option" where
  "update_of u k = (case dict_get u k of None \<Rightarrow> None | Some v \<Rightarrow> if truthy v then Some v else None)"

definition set_str :: "json option \<Rightarrow> string option \<Rightarrow> string option" where
  "set_str u old = (case u of None \<Rightarrow> old | Some v \<Rightarrow> Some (json_str v))"

definition promote_contract :: "dict \<Rightarrow> uuid option \<Rightarrow> int option \<Rightarrow> contract_row \<Rightarrow> contract_row" where
  "promote_contract u profile pages c =
     c\<lparr>c_profile_id := (case profile of None \<Rightarrow> c_profile_id c | Some p \<Rightarrow> Some p),
       c_profile_version := set_str (update_of u ''profile_version'') (c_profile_version c),
       c_agreement_type := set_str (update_of u ''agreement_type'') (c_agreement_type c),
       c_agreement_subtype := set_str (update_of u ''agreement_subtype'') (c_agreement_subtype c),
       c_classification_confidence := (case dict_get u ''classification_confidence'' of
          None \<Rightarrow> c_classification_confidence c
        | Some JNull \<Rightarrow> c_classification_confidence c
        | Some v \<Rightarrow> Some v),
       c_page_count := (case pages of None \<Rightarrow> c_page_count c | Some n \<Rightarrow> Some n),
       c_language := set_str (update_of u ''language'') (c_language c),
       c_title := (case update_of u ''title'' of
          None \<Rightarrow> c_title c
        | Some v \<Rightarrow> (case c_title c of
             Some t \<Rightarrow> if t = [] then Some (take 512 (json_str v)) else Some t
           | None \<Rightarrow> Some (take 512 (json_str v))))\<rparr>"

definition promote_job :: "dict \<Rightarrow> uuid option \<Rightarrow> job_row \<Rightarrow> job_row" where
  "promote_job u profile j =
     j\<lparr>j_profile_id := (case profile of None \<Rightarrow> j_profile_id j | Some p \<Rightarrow> Some p),
       j_profile_version := set_str (update_of u ''profile_version'') (j_profile_version j)\<rparr>"

definition apply_context_updates :: "instant \<Rightarrow> uuid \<Rightarrow> uuid \<Rightarrow> dict \<Rightarrow> 'k db \<Rightarrow> exn + 'k db" where
  "apply_context_updates now jid cid u d =
     (let profile = (case update_of u ''profile_id'' of
            None \<Rightarrow> Inr None
          | Some v \<Rightarrow> (case uuid_parse (json_str v) of None \<Rightarrow> Inl ValueError | Some p \<Rightarrow> Inr (Some p)));
          pages = (case update_of u ''page_count'' of
            None \<Rightarrow> Inr None | Some v \<Rightarrow> map_sum id Some (json_int v))
      in case profile of
           Inl e \<Rightarrow> Inl e
         | Inr p \<Rightarrow> (case pages of
             Inl e \<Rightarrow> Inl e
           | Inr n \<Rightarrow> Inr (update_contract cid (promote_contract u p n)
                           (update_job now jid (promote_job u p) d))))"

text \<open>\<open>merged.setdefault("context", {}).update(updates)\<close>: the document the session holds from then on. The copy
  is shallow, so a context that was there already is updated in place, inside the loaded value as well; the assigned
  value then equals the loaded one and the flush writes nothing. Only a context that is new is written.\<close>

definition session_doc :: "dict \<Rightarrow> plan_doc \<Rightarrow> plan_doc" where
  "session_doc u doc = doc\<lparr>pd_context :=
     Some (dict_update (case pd_context doc of None \<Rightarrow> [] | Some c \<Rightarrow> c) u)\<rparr>"

definition merge_context :: "dict \<Rightarrow> job_row \<Rightarrow> job_row" where
  "merge_context u j = (case pd_context (j_execution_plan j) of
     None \<Rightarrow> j\<lparr>j_execution_plan := session_doc u (j_execution_plan j)\<rparr>
   | Some _ \<Rightarrow> j)"

text \<open>A plan stored later in the same session goes on top of the session's document, and the whole document is
  written when it differs. (Merging the same updates twice is merging them once.)\<close>

definition replan_row :: "dict \<Rightarrow> execution_plan \<Rightarrow> job_row \<Rightarrow> job_row" where
  "replan_row u p j =
     (let doc = session_doc u (j_execution_plan j); doc' = merge_plan doc p
      in if doc' = doc then j else j\<lparr>j_execution_plan := doc'\<rparr>)"

definition store_replan :: "instant \<Rightarrow> uuid \<Rightarrow> dict \<Rightarrow> execution_plan \<Rightarrow> 'k db \<Rightarrow> 'k db" where
  "store_replan now jid u p = update_job now jid (replan_row u p)"

subsection \<open>Finishing and failing\<close>

definition finalise_if_last :: "instant \<Rightarrow> uuid \<Rightarrow> contract_row \<Rightarrow> pipeline_stage option \<Rightarrow> 'k db \<Rightarrow> 'k db" where
  "finalise_if_last now jid c next_st d =
     (case next_st of
        Some _ \<Rightarrow> d
      | None \<Rightarrow> mark_processed now (c_id c)
          (if c_needs_review c then CS_NEEDS_REVIEW else CS_READY) None None (mark_ready now jid d))"

definition failure_error :: "stage_message \<Rightarrow> bool \<Rightarrow> exn \<Rightarrow> dict" where
  "failure_error m retryable exc =
     (let base = [(''stage'', JStr (stage_value (m_stage m))), (''attempt'', JInt (m_attempt m)),
            (''retryable'', JBool retryable), (''exception'', JStr (exn_type exc))]
      in case exc of
           AppErr e \<Rightarrow>
             (let err = base @ [(''code'', JStr (e_code e)), (''message'', JStr (e_message e))] @
                    (if e_details e = [] then [] else [(''details'', JObj (e_details e))])
              in case e_stage e of
                   Some st \<Rightarrow> if st = [] then err else AList.update ''stage'' (JStr st) err
                 | None \<Rightarrow> err)
         | PyErr _ _ \<Rightarrow> base @ [(''code'', JStr ''internal_error''),
             (''message'', JStr ''An unexpected error occurred.'')])"

definition retry_delay :: "int \<Rightarrow> int \<Rightarrow> int" where
  "retry_delay backoff_ms attempt = backoff_ms * 2 ^ nat (attempt - 1)"

definition handle_failure :: "'k runner_env \<Rightarrow> int \<Rightarrow> stage_message \<Rightarrow> uuid \<Rightarrow> uuid \<Rightarrow> uuid \<Rightarrow> exn \<Rightarrow> bool \<Rightarrow>
    'k db \<Rightarrow> 'k db \<times> stage_outcome" where
  "handle_failure env max_attempts m jid cid rid exc retryable d =
     (let err = failure_error m retryable exc;
          now = en_end env;
          d1 = finish_run now rid SS_FAILED None [] (Some err) d
      in if retryable \<and> m_attempt m < max_attempts
         then (mark_retrying now jid (m_stage m) (m_attempt m) d1,
               (outcome jid m SS_FAILED)\<lparr>o_error := Some err, o_should_retry := True,
                  o_retry_delay_ms := retry_delay (en_backoff_ms env) (m_attempt m)\<rparr>)
         else (mark_processed now cid CS_FAILED None None
                 (mark_failed now jid (Some (m_stage m)) err d1),
               (outcome jid m SS_FAILED)\<lparr>o_error := Some err\<rparr>))"

subsection \<open>Executing one stage\<close>

definition simple_error :: "string \<Rightarrow> string \<Rightarrow> dict" where
  "simple_error code msg =
     [(''code'', JStr code), (''message'', JStr msg), (''retryable'', JBool False)]"

definition halt_error :: "stage_message \<Rightarrow> stage_result \<Rightarrow> dict" where
  "halt_error m r =
     [(''code'', JStr ''halted''),
      (''message'', JStr (case sr_halt_reason r of
         None \<Rightarrow> ''Processing stopped.''
       | Some s \<Rightarrow> if s = [] then ''Processing stopped.'' else s)),
      (''retryable'', JBool False), (''stage'', JStr (stage_value (m_stage m)))]"

text \<open>Checkpoint reuse: record the skip and move on.\<close>

definition reuse_checkpoint :: "'k runner_env \<Rightarrow> stage_message \<Rightarrow> job_row \<Rightarrow> contract_row \<Rightarrow>
    execution_plan \<Rightarrow> run_row \<Rightarrow> 'k db \<Rightarrow> 'k db \<times> stage_outcome" where
  "reuse_checkpoint env m j c p cp d =
     (let now = en_start env;
          d1 = record_skipped now (j_id j) (c_id c) (c_project_id c) (m_stage m) cp d;
          nxt = next_after p (m_stage m)
      in (finalise_if_last now (j_id j) c nxt d1,
          (outcome (j_id j) m SS_SKIPPED)\<lparr>o_next_stage := nxt, o_artifact_ref := r_artifact_ref cp,
             o_stats := [(''reused'', JBool True)]\<rparr>))"

text \<open>What follows a handler that returned: artifacts, the checkpoint, metrics, context, and then
  either the halt or the advance to the next stage.\<close>

definition advance :: "'k runner_env \<Rightarrow> stage_message \<Rightarrow> job_row \<Rightarrow> contract_row \<Rightarrow> execution_plan \<Rightarrow>
    stage_result \<Rightarrow> storage_key option \<Rightarrow> 'k db \<Rightarrow> exn + 'k db \<times> stage_outcome" where
  "advance env m j c p r ref d =
     (let now = en_end env;
          replanned = (if m_stage m = PS_DOCPIPELINE \<and> sr_context_updates r \<noteq> []
            then map_sum id (\<lambda>q. (store_replan now (j_id j) (sr_context_updates r) q d, q))
                   (plan (en_versions env) (en_imports env) (session_job j d) (session_contract c d)
                      (load_profile (session_job j d) d) None False (checkpoints (c_id c) d))
            else Inr (d, p))
      in case replanned of
           Inl e \<Rightarrow> Inl e
         | Inr (d1, q) \<Rightarrow>
             (let nxt = next_after q (m_stage m) in
              Inr (finalise_if_last now (j_id j) (session_contract c d1) nxt d1,
                   (outcome (j_id j) m SS_SUCCEEDED)\<lparr>o_next_stage := nxt, o_artifact_ref := ref,
                      o_stats := sr_stats r, o_warnings := sr_warnings r\<rparr>)))"

text \<open>The transaction commits a checkpoint only with the artifacts it points to: every write below
  happens in the one session.\<close>

definition record_success :: "'k runner_env \<Rightarrow> stage_message \<Rightarrow> uuid \<Rightarrow> uuid \<Rightarrow> run_row \<Rightarrow>
    stage_result \<Rightarrow> storage_key option \<Rightarrow> 'k db \<Rightarrow> exn + 'k db" where
  "record_success env m jid cid run r ref d1 =
     (let now = en_end env;
          d2 = finish_run now (r_id run) SS_SUCCEEDED ref (sr_stats r) None d1;
          d3 = (if sr_stats r = [] then d2 else accumulate_metrics now jid (sr_stats r) d2);
          promoted = (if sr_context_updates r = [] then Inr d3
            else apply_context_updates now jid cid (sr_context_updates r)
              (update_job now jid (merge_context (sr_context_updates r)) d3))
      in map_sum id (update_progress now jid (progress_for (m_stage m) True)) promoted)"

definition complete_stage :: "'k runner_env \<Rightarrow> stage_message \<Rightarrow> job_row \<Rightarrow> contract_row \<Rightarrow> run_row \<Rightarrow>
    execution_plan \<Rightarrow> stage_result \<Rightarrow> 'k db \<Rightarrow> exn + 'k db \<times> stage_outcome" where
  "complete_stage env m j c run p r d0 =
     (case persist_artifacts env (j_id j) c (r_versions run) (sr_artifacts r) d0 of
        Inl e \<Rightarrow> Inl e
      | Inr (d1, ref) \<Rightarrow>
          (case record_success env m (j_id j) (c_id c) run r ref d1 of
             Inl e \<Rightarrow> Inl e
           | Inr d2 \<Rightarrow>
               (if sr_halt r
                then Inr (mark_processed (en_end env) (c_id c) CS_FAILED None None
                            (mark_failed (en_end env) (j_id j) (Some (m_stage m)) (halt_error m r) d2),
                          (outcome (j_id j) m SS_SUCCEEDED)\<lparr>o_artifact_ref := ref,
                             o_stats := sr_stats r, o_warnings := sr_warnings r\<rparr>)
                else advance env m j c p r ref d2)))"

text \<open>The handler: its cleanup, then its run; the first that raises decides.\<close>

definition call_handler :: "'k stage_handler \<Rightarrow> stage_context \<Rightarrow> 'k db \<Rightarrow> 'k db \<times> (exn + stage_result)" where
  "call_handler h x d =
     (case hd_cleanup h x d of
        (d1, Inl e) \<Rightarrow> (d1, Inl e)
      | (d1, Inr _) \<Rightarrow> hd_run h x d1)"

fun exn_retryable :: "exn \<Rightarrow> bool" where
  "exn_retryable (AppErr e) = e_retryable e"
| "exn_retryable (PyErr _ _) = True"

definition run_handler :: "'k runner_env \<Rightarrow> int \<Rightarrow> stage_message \<Rightarrow> job_row \<Rightarrow> contract_row \<Rightarrow>
    profile_row option \<Rightarrow> execution_plan \<Rightarrow> 'k db \<Rightarrow> exn + 'k db \<times> stage_outcome" where
  "run_handler env max_attempts m j c profile p d =
     (case get_stage_handler (en_imports env) (m_stage m) of
        Inl e \<Rightarrow> Inl e
      | Inr info \<Rightarrow>
          (let now = en_start env;
               h = en_handlers env (m_stage m);
               d1 = mark_stage_started now (j_id j) (m_stage m) (Some (en_worker_id env)) d;
               d2 = update_progress now (j_id j) (progress_for (m_stage m) False) d1;
               x = \<lparr>x_job = session_job j d2, x_contract = c, x_stage = m_stage m, x_attempt = m_attempt m,
                    x_profile = profile, x_options = m_options m\<rparr>
           in case start_run now (j_id j) (c_id c) (c_project_id c) (m_stage m) None
                     (Some (en_worker_id env)) None (model_dump (hd_versions h x)) d2 of
                (d3, run) \<Rightarrow>
                  (case call_handler h x d3 of
                     (d4, Inl exc) \<Rightarrow>
                       Inr (handle_failure env max_attempts m (j_id j) (c_id c) (r_id run) exc
                              (exn_retryable exc \<and> h_retryable info) d4)
                   | (d4, Inr r) \<Rightarrow> complete_stage env m j c run p r d4)))"

definition execute :: "'k runner_env \<Rightarrow> int \<Rightarrow> stage_message \<Rightarrow> 'k db \<Rightarrow> exn + 'k db \<times> stage_outcome" where
  "execute env max_attempts m d =
     (case get_job (m_job_id m) d of
        None \<Rightarrow> Inr (d, (outcome (m_job_id m) m SS_FAILED)
          \<lparr>o_error := Some (simple_error ''job_not_found'' ''Job no longer exists.'')\<rparr>)
      | Some j \<Rightarrow>
          if j_state j \<in> {JS_CANCELLED, JS_PAUSED} then Inr (d, outcome (j_id j) m SS_CANCELLED)
          else (case get_contract (m_contract_id m) d of
            None \<Rightarrow> Inr (d, (outcome (j_id j) m SS_FAILED)
              \<lparr>o_error := Some (simple_error ''contract_not_found'' ''Contract no longer exists.'')\<rparr>)
          | Some c \<Rightarrow>
              (let profile = load_profile j d in
               case resolve_plan env (en_start env) j c profile d of
                 Inl e \<Rightarrow> Inl e
               | Inr (d1, p) \<Rightarrow>
                   (case for_stage p (m_stage m) of
                      Some item \<Rightarrow>
                        (if should_run item then run_handler env max_attempts m j c profile p d1
                         else (case checkpoint (c_id c) (m_stage m) d1 of
                                 Some cp \<Rightarrow> Inr (reuse_checkpoint env m j c p cp d1)
                               | None \<Rightarrow> run_handler env max_attempts m j c profile p d1))
                    | None \<Rightarrow> run_handler env max_attempts m j c profile p d1))))"

subsection \<open>Dispatch after the commit\<close>

definition next_message :: "'k runner_env \<Rightarrow> stage_message \<Rightarrow> pipeline_stage \<Rightarrow> stage_message" where
  "next_message env m st = \<lparr>m_job_id = m_job_id m, m_contract_id = m_contract_id m,
     m_project_id = m_project_id m, m_stage = st, m_attempt = 1, m_priority = m_priority m,
     m_trace = m_trace m, m_continue = True, m_options = m_options m,
     m_dispatch_id = en_dispatch_id env\<rparr>"

definition retry_message :: "'k runner_env \<Rightarrow> stage_message \<Rightarrow> stage_message" where
  "retry_message env m = m\<lparr>m_attempt := m_attempt m + 1, m_dispatch_id := en_dispatch_id env\<rparr>"

definition dispatch_error :: "string \<Rightarrow> pipeline_stage \<Rightarrow> dict" where
  "dispatch_error msg st =
     [(''code'', JStr ''queue_error''), (''message'', JStr msg), (''retryable'', JBool True),
      (''stage'', JStr (stage_value st))]"

definition dispatch_next :: "(instant \<Rightarrow> stage_message \<Rightarrow> int \<Rightarrow> 'q \<Rightarrow> exn + 'q) \<Rightarrow> 'k runner_env \<Rightarrow>
    stage_message \<Rightarrow> pipeline_stage \<Rightarrow> 'k db \<times> 'q \<Rightarrow> 'k db \<times> 'q" where
  "dispatch_next enq env m st dq =
     (case dq of (d, q) \<Rightarrow>
        (case enq (en_end env) (next_message env m st) 0 q of
           Inr q' \<Rightarrow> (d, q')
         | Inl _ \<Rightarrow> (mark_failed (en_end env) (m_job_id m) (Some st) (dispatch_error
             ''Could not queue the next processing stage. Retry the job.'' st) d, q)))"

definition schedule_retry :: "(instant \<Rightarrow> stage_message \<Rightarrow> int \<Rightarrow> 'q \<Rightarrow> exn + 'q) \<Rightarrow> 'k runner_env \<Rightarrow>
    stage_message \<Rightarrow> int \<Rightarrow> 'k db \<times> 'q \<Rightarrow> 'k db \<times> 'q" where
  "schedule_retry enq env m delay_ms dq =
     (case dq of (d, q) \<Rightarrow>
        (case enq (en_end env) (retry_message env m) delay_ms q of
           Inr q' \<Rightarrow> (d, q')
         | Inl _ \<Rightarrow> (mark_failed (en_end env) (m_job_id m) (Some (m_stage m)) (dispatch_error
             ''Could not re-queue the stage for retry.'' (m_stage m)) d, q)))"

definition run_stage :: "(instant \<Rightarrow> stage_message \<Rightarrow> int \<Rightarrow> 'q \<Rightarrow> exn + 'q) \<Rightarrow> 'k runner_env \<Rightarrow> int \<Rightarrow>
    stage_message \<Rightarrow> 'k db \<times> 'q \<Rightarrow> ('k db \<times> 'q) \<times> (exn + stage_outcome)" where
  "run_stage enq env max_attempts m dq =
     (case execute env max_attempts m (fst dq) of
        Inl e \<Rightarrow> (dq, Inl e)
      | Inr (d1, o1) \<Rightarrow>
          (let dq1 = (case o_next_stage o1 of
                 Some st \<Rightarrow> if m_continue m then dispatch_next enq env m st (d1, snd dq) else (d1, snd dq)
               | None \<Rightarrow> (d1, snd dq));
               dq2 = (if o_should_retry o1 then schedule_retry enq env m (o_retry_delay_ms o1) dq1 else dq1)
           in (dq2, Inr o1)))"

end
