(* ===== verification/PgQueue.thy ===== *)
theory PgQueue
  imports QueueMessage
begin

text \<open>
  The Postgres driver of \<^verbatim>\<open>backend/app/orchestrator/queue.py\<close> over the table of
  \<^verbatim>\<open>backend/app/models/queue.py\<close>. Each operation is one committed transaction, so concurrent
  workers are sequences of operations; \<open>SKIP LOCKED\<close> appears as the set of rows another
  transaction holds at that moment. \<open>now\<close> is the clock of the call (Python's \<open>datetime.now\<close> and
  Postgres' \<open>now()\<close> are read as one).
\<close>

subsection \<open>The table\<close>

record queue_row =
  q_id :: uuid
  q_dispatch_id :: string
  q_job_id :: uuid
  q_contract_id :: uuid
  q_project_id :: uuid
  q_stage :: pipeline_stage
  q_priority :: job_priority
  q_payload :: dict
  q_attempt :: int
  q_max_attempts :: int
  q_state :: stage_queue_state
  q_available_at :: instant
  q_claimed_at :: "instant option"
  q_claimed_by :: "string option"
  q_last_error :: "dict option"

record stage_queue =
  q_rows :: "queue_row list"
  q_next :: uuid

text \<open>
  What the driver reads from its settings and surroundings: \<open>queue.max_attempts\<close>,
  \<open>queue.backoff_ms\<close>, the telemetry call \<open>inject_context\<close>, and the foreign keys of the row (the
  job, contract and project it names are visible to the inserting transaction).
\<close>

record queue_env =
  qe_max_attempts :: int
  qe_backoff_ms :: int
  qe_inject :: "(string \<times> string) list \<Rightarrow> (string \<times> string) list"
  qe_keys_visible :: "stage_message \<Rightarrow> bool"

definition ms :: "int \<Rightarrow> int" where
  "ms n = n * 1000"

text \<open>The row \<open>_insert\<close> builds for one message.\<close>

definition new_row :: "queue_env \<Rightarrow> instant \<Rightarrow> uuid \<Rightarrow> stage_message \<Rightarrow> int \<Rightarrow> queue_row" where
  "new_row e now rid m delay_ms = \<lparr>q_id = rid, q_dispatch_id = m_dispatch_id m, q_job_id = m_job_id m,
     q_contract_id = m_contract_id m, q_project_id = m_project_id m, q_stage = m_stage m,
     q_priority = m_priority m,
     q_payload = AList.update ''trace'' (JObj (map (map_prod id JStr) (qe_inject e (m_trace m)))) (to_payload m),
     q_attempt = m_attempt m, q_max_attempts = qe_max_attempts e, q_state = SQ_PENDING,
     q_available_at = now + ms delay_ms, q_claimed_at = None, q_claimed_by = None,
     q_last_error = None\<rparr>"

text \<open>\<open>INSERT ... ON CONFLICT (dispatch_id) DO NOTHING RETURNING id\<close>, row by row. A row to insert
  that breaks a foreign key or the 32 characters of \<open>dispatch_id\<close> fails the whole statement.\<close>

fun insert_rows :: "queue_env \<Rightarrow> instant \<Rightarrow> (stage_message \<times> int) list \<Rightarrow> stage_queue \<Rightarrow>
    exn + stage_queue \<times> uuid list" where
  "insert_rows e now [] q = Inr (q, [])"
| "insert_rows e now ((m, delay) # items) q =
     (if m_dispatch_id m \<in> set (map q_dispatch_id (q_rows q)) then insert_rows e now items q
      else if \<not> (qe_keys_visible e m \<and> length (m_dispatch_id m) \<le> 32)
      then Inl (QueueError ''Could not enqueue to Postgres'')
      else map_sum id (map_prod id (Cons (q_next q))) (insert_rows e now items
             \<lparr>q_rows = q_rows q @ [new_row e now (q_next q) m delay], q_next = Suc (q_next q)\<rparr>))"

definition pg_enqueue :: "queue_env \<Rightarrow> instant \<Rightarrow> stage_message \<Rightarrow> int \<Rightarrow> stage_queue \<Rightarrow>
    exn + stage_queue \<times> string" where
  "pg_enqueue e now m delay_ms q =
     (case insert_rows e now [(m, delay_ms)] q of
        Inl err \<Rightarrow> Inl err
      | Inr (q', ids) \<Rightarrow> Inr (q', (case ids of [] \<Rightarrow> [] | i # _ \<Rightarrow> uuid_str i)))"

definition pg_enqueue_many :: "queue_env \<Rightarrow> instant \<Rightarrow> stage_message list \<Rightarrow> stage_queue \<Rightarrow>
    exn + stage_queue \<times> string list" where
  "pg_enqueue_many e now msgs q =
     (if msgs = [] then Inr (q, [])
      else map_sum id (map_prod id (map uuid_str)) (insert_rows e now (map (\<lambda>m. (m, 0)) msgs) q))"

subsection \<open>Claiming\<close>

record claimed_stage =
  cs_row_id :: uuid
  cs_message :: stage_message
  cs_attempt :: int
  cs_max_attempts :: int

definition claimable :: "instant \<Rightarrow> pipeline_stage list \<Rightarrow> uuid set \<Rightarrow> queue_row \<Rightarrow> bool" where
  "claimable now stages locked r \<longleftrightarrow> q_state r = SQ_PENDING \<and> q_available_at r \<le> now \<and>
     (stages \<noteq> [] \<longrightarrow> q_stage r \<in> set stages) \<and> q_id r \<notin> locked"

text \<open>\<open>ORDER BY priority, available_at\<close>: a stable sort on the second key, then on the first.\<close>

definition claim_order :: "queue_row list \<Rightarrow> queue_row list" where
  "claim_order rs = sort_key q_priority (sort_key q_available_at rs)"

definition candidates :: "instant \<Rightarrow> pipeline_stage list \<Rightarrow> uuid set \<Rightarrow> int \<Rightarrow> stage_queue \<Rightarrow>
    queue_row list" where
  "candidates now stages locked limit q =
     take (nat limit) (claim_order (filter (claimable now stages locked) (q_rows q)))"

definition claimed_row :: "instant \<Rightarrow> string \<Rightarrow> queue_row \<Rightarrow> queue_row" where
  "claimed_row now worker r = r\<lparr>q_state := SQ_CLAIMED, q_claimed_at := Some now,
     q_claimed_by := Some (take 128 worker)\<rparr>"

text \<open>Decoding the payloads happens after the commit; a payload that does not parse raises with
  the rows already leased.\<close>

fun decode_claims :: "(uuid \<Rightarrow> string) \<Rightarrow> queue_row list \<Rightarrow> exn + claimed_stage list" where
  "decode_claims fresh [] = Inr []"
| "decode_claims fresh (r # rs) =
     (case from_payload (fresh (q_id r)) (q_payload r) of
        Inl e \<Rightarrow> Inl e
      | Inr m \<Rightarrow> map_sum id (Cons \<lparr>cs_row_id = q_id r, cs_message = m\<lparr>m_attempt := q_attempt r\<rparr>,
            cs_attempt = q_attempt r, cs_max_attempts = q_max_attempts r\<rparr>) (decode_claims fresh rs))"

definition claim :: "(uuid \<Rightarrow> string) \<Rightarrow> instant \<Rightarrow> string \<Rightarrow> int \<Rightarrow> pipeline_stage list \<Rightarrow> uuid set \<Rightarrow>
    stage_queue \<Rightarrow> stage_queue \<times> (exn + claimed_stage list)" where
  "claim fresh now worker limit stages locked q =
     (if limit \<le> 0 then (q, Inr [])
      else let picked = candidates now stages locked limit q in
        (q\<lparr>q_rows := update_where (\<lambda>r. q_id r \<in> set (map q_id picked)) (claimed_row now worker) (q_rows q)\<rparr>,
         decode_claims fresh picked))"

subsection \<open>Releasing a lease\<close>

definition done_row :: "queue_row \<Rightarrow> queue_row" where
  "done_row r = r\<lparr>q_state := SQ_DONE, q_claimed_at := None, q_claimed_by := None\<rparr>"

definition complete :: "uuid \<Rightarrow> stage_queue \<Rightarrow> stage_queue" where
  "complete rid q = q\<lparr>q_rows := update_where (\<lambda>r. q_id r = rid) done_row (q_rows q)\<rparr>"

text \<open>\<open>backoff_ms * 2 ** (attempt - 1)\<close>; attempts start at 1.\<close>

definition backoff :: "int \<Rightarrow> int \<Rightarrow> int" where
  "backoff base attempt = base * 2 ^ nat (attempt - 1)"

definition failed_queue_row :: "queue_env \<Rightarrow> instant \<Rightarrow> dict \<Rightarrow> queue_row \<Rightarrow> queue_row" where
  "failed_queue_row e now err r =
     (if q_attempt r < q_max_attempts r
      then r\<lparr>q_state := SQ_PENDING, q_attempt := q_attempt r + 1,
             q_available_at := now + ms (backoff (qe_backoff_ms e) (q_attempt r)),
             q_claimed_at := None, q_claimed_by := None, q_last_error := Some err\<rparr>
      else r\<lparr>q_state := SQ_DEAD, q_claimed_at := None, q_claimed_by := None,
             q_last_error := Some err\<rparr>)"

definition fail :: "queue_env \<Rightarrow> instant \<Rightarrow> uuid \<Rightarrow> dict \<Rightarrow> stage_queue \<Rightarrow> stage_queue \<times> bool" where
  "fail e now rid err q =
     (case List.find (\<lambda>r. q_id r = rid) (q_rows q) of
        None \<Rightarrow> (q, False)
      | Some r \<Rightarrow> (q\<lparr>q_rows := update_where (\<lambda>r. q_id r = rid) (failed_queue_row e now err) (q_rows q)\<rparr>,
                   q_attempt r < q_max_attempts r))"

definition stale :: "instant \<Rightarrow> int \<Rightarrow> queue_row \<Rightarrow> bool" where
  "stale now lease_seconds r \<longleftrightarrow> q_state r = SQ_CLAIMED \<and>
     (case q_claimed_at r of None \<Rightarrow> False | Some t \<Rightarrow> t < now - ms (1000 * lease_seconds))"

definition reclaimed_row :: "instant \<Rightarrow> queue_row \<Rightarrow> queue_row" where
  "reclaimed_row now r =
     r\<lparr>q_state := (if q_attempt r < q_max_attempts r then SQ_PENDING else SQ_DEAD),
       q_attempt := q_attempt r + 1, q_available_at := now, q_claimed_at := None,
       q_claimed_by := None\<rparr>"

definition reclaim_stale :: "instant \<Rightarrow> int \<Rightarrow> stage_queue \<Rightarrow> stage_queue \<times> nat" where
  "reclaim_stale now lease_seconds q =
     (q\<lparr>q_rows := update_where (stale now lease_seconds) (reclaimed_row now) (q_rows q)\<rparr>,
      length (filter (stale now lease_seconds) (q_rows q)))"

subsection \<open>Depths\<close>

record queue_stats =
  qs_waiting :: nat
  qs_active :: nat
  qs_completed :: nat
  qs_failed :: nat
  qs_delayed :: nat

definition in_state :: "pipeline_stage \<Rightarrow> stage_queue_state \<Rightarrow> stage_queue \<Rightarrow> queue_row list" where
  "in_state st s q = filter (\<lambda>r. q_stage r = st \<and> q_state r = s) (q_rows q)"

text \<open>The entry of one stage; stages without a row have none.\<close>

definition pg_stats :: "instant \<Rightarrow> pipeline_stage \<Rightarrow> stage_queue \<Rightarrow> queue_stats option" where
  "pg_stats now st q =
     (if \<not> list_ex (\<lambda>r. q_stage r = st) (q_rows q) then None
      else let pending = in_state st SQ_PENDING q;
               held = length (filter (\<lambda>r. q_available_at r > now) pending) in
        Some \<lparr>qs_waiting = length pending - held, qs_active = length (in_state st SQ_CLAIMED q),
              qs_completed = length (in_state st SQ_DONE q),
              qs_failed = length (in_state st SQ_DEAD q), qs_delayed = held\<rparr>)"

definition dlq_size :: "stage_queue \<Rightarrow> nat" where
  "dlq_size q = length (filter (\<lambda>r. q_state r = SQ_DEAD) (q_rows q))"

subsection \<open>The invariant of the table\<close>

text \<open>Primary keys and dispatch ids are unique, and a row carries a lease time exactly while it is
  claimed.\<close>

definition q_wf :: "stage_queue \<Rightarrow> bool" where
  "q_wf q \<longleftrightarrow> distinct (map q_id (q_rows q)) \<and> distinct (map q_dispatch_id (q_rows q)) \<and>
     (\<forall>r \<in> set (q_rows q). q_id r < q_next q \<and> (q_state r = SQ_CLAIMED \<longleftrightarrow> q_claimed_at r \<noteq> None))"

definition row_of :: "uuid \<Rightarrow> stage_queue \<Rightarrow> queue_row option" where
  "row_of rid q = List.find (\<lambda>r. q_id r = rid) (q_rows q)"

definition empty_queue :: stage_queue where
  "empty_queue = \<lparr>q_rows = [], q_next = 0\<rparr>"

lemma empty_queue_wf: "q_wf empty_queue"
  by (simp add: q_wf_def empty_queue_def)

text \<open>What each set-based update of the driver is: a row keeps its identity and dispatch id, and
  the lease time follows the state.\<close>

locale queue_update =
  fixes upd :: "queue_row \<Rightarrow> queue_row"
  assumes upd_id [simp]: "q_id (upd r) = q_id r"
    and upd_dispatch [simp]: "q_dispatch_id (upd r) = q_dispatch_id r"
    and upd_lease: "q_state (upd r) = SQ_CLAIMED \<longleftrightarrow> q_claimed_at (upd r) \<noteq> None"
begin

lemma row_of_update:
  "row_of rid (q\<lparr>q_rows := update_where P upd (q_rows q)\<rparr>) =
     map_option (\<lambda>r. if P r then upd r else r) (row_of rid q)"
  by (simp add: row_of_def find_update_any)

lemma update_wf: "q_wf q \<Longrightarrow> q_wf (q\<lparr>q_rows := update_where P upd (q_rows q)\<rparr>)"
  by (auto simp: q_wf_def map_update_where set_update_where upd_lease)

end

interpretation claim_upd: queue_update "claimed_row now w" for now w
  by unfold_locales (auto simp: claimed_row_def)

interpretation done_upd: queue_update done_row
  by unfold_locales (auto simp: done_row_def)

interpretation fail_upd: queue_update "failed_queue_row e now err" for e now err
  by unfold_locales (auto simp: failed_queue_row_def)

interpretation reclaim_upd: queue_update "reclaimed_row now" for now
  by unfold_locales (auto simp: reclaimed_row_def)

lemma row_of_Some: "q_wf q \<Longrightarrow> row_of rid q = Some r \<longleftrightarrow> r \<in> set (q_rows q) \<and> q_id r = rid"
  using find_unique[of q_id "q_rows q" r] find_SomeD[of "\<lambda>r. q_id r = rid" "q_rows q" r]
  by (auto simp: q_wf_def row_of_def)

lemma append_row_wf:
  "q_wf q \<Longrightarrow> m_dispatch_id m \<notin> set (map q_dispatch_id (q_rows q)) \<Longrightarrow>
   q_wf \<lparr>q_rows = q_rows q @ [new_row e now (q_next q) m delay], q_next = Suc (q_next q)\<rparr>"
  by (force simp: q_wf_def new_row_def less_Suc_eq)

lemma insert_rows_wf: "insert_rows e now items q = Inr (q', ids) \<Longrightarrow> q_wf q \<Longrightarrow> q_wf q'"
proof (induction items arbitrary: q ids)
  case (Cons i items)
  obtain m delay where i: "i = (m, delay)" by (cases i)
  show ?case
  proof (cases "m_dispatch_id m \<in> set (map q_dispatch_id (q_rows q))")
    case True
    then show ?thesis using Cons i by simp
  next
    case False
    from Cons.prems(1) False i obtain ids' where
      "insert_rows e now items \<lparr>q_rows = q_rows q @ [new_row e now (q_next q) m delay],
         q_next = Suc (q_next q)\<rparr> = Inr (q', ids')"
      by (auto simp: map_sum_def split: sum.splits if_splits)
    with Cons.IH append_row_wf[OF Cons.prems(2) False] show ?thesis by blast
  qed
qed simp

lemma insert_rows_prefix:
  "insert_rows e now items q = Inr (q', ids) \<Longrightarrow> \<exists>new. q_rows q' = q_rows q @ new"
proof (induction items arbitrary: q ids)
  case (Cons i items)
  then show ?case
    by (cases i) (fastforce simp: map_sum_def split: sum.splits if_splits)
qed simp

lemma pg_enqueue_cases:
  assumes "pg_enqueue e now m delay q = Inr (q', i)"
  shows "(m_dispatch_id m \<in> set (map q_dispatch_id (q_rows q)) \<and> q' = q \<and> i = []) \<or>
    (m_dispatch_id m \<notin> set (map q_dispatch_id (q_rows q)) \<and> i = uuid_str (q_next q) \<and>
     q' = \<lparr>q_rows = q_rows q @ [new_row e now (q_next q) m delay], q_next = Suc (q_next q)\<rparr>)"
  using assms by (auto simp: pg_enqueue_def split: sum.splits if_splits)

subsection \<open>What a claim takes\<close>

lemma claim_order_mset [simp]: "mset (claim_order rs) = mset rs"
  by (simp add: claim_order_def)

lemma claim_order_set [simp]: "set (claim_order rs) = set rs"
  by (metis claim_order_mset set_mset_mset)

definition before :: "queue_row \<Rightarrow> queue_row \<Rightarrow> bool" where
  "before a b \<longleftrightarrow> q_priority a < q_priority b \<or>
     (q_priority a = q_priority b \<and> q_available_at a < q_available_at b)"

lemma claim_order_sorted: "sorted_wrt (\<lambda>a b. \<not> before b a) (claim_order rs)"
proof -
  define ts where "ts = claim_order rs"
  have outer: "sorted (map q_priority ts)" by (simp add: ts_def claim_order_def)
  have inner: "sorted (map q_available_at (filter (\<lambda>r. q_priority r = p) ts))" for p
  proof -
    have "filter (\<lambda>r. q_priority r = p) ts = filter (\<lambda>r. q_priority r = p) (sort_key q_available_at rs)"
      by (simp add: ts_def claim_order_def sort_key_stable)
    then show ?thesis by (simp add: sorted_filter)
  qed
  have "sorted_wrt (\<lambda>a b. \<not> before b a) ts"
    using outer inner
  proof (induction ts)
    case (Cons t ts)
    have "\<not> before b t" if "b \<in> set ts" for b
    proof (cases "q_priority b = q_priority t")
      case True
      then show ?thesis
        using Cons.prems(2)[of "q_priority t"] that by (auto simp: before_def not_less)
    next
      case False
      then show ?thesis using Cons.prems(1) that by (auto simp: before_def)
    qed
    moreover have "sorted (map q_available_at (filter (\<lambda>r. q_priority r = p) ts))" for p
      using Cons.prems(2)[of p] by (auto split: if_splits)
    ultimately show ?case using Cons by simp
  qed simp
  then show ?thesis by (simp add: ts_def)
qed

lemma candidates_distinct: "q_wf q \<Longrightarrow> distinct (map q_id (candidates now stages locked limit q))"
proof -
  assume "q_wf q"
  then have "distinct (map q_id (filter (claimable now stages locked) (q_rows q)))"
    by (simp add: q_wf_def distinct_map_filter)
  moreover have "mset (map q_id (claim_order rs)) = mset (map q_id rs)" for rs
    by simp
  ultimately have "distinct (map q_id (claim_order (filter (claimable now stages locked) (q_rows q))))"
    by (metis mset_eq_imp_distinct_iff)
  then show ?thesis by (simp add: candidates_def take_map[symmetric] distinct_take)
qed

lemma candidates_claimable:
  "r \<in> set (candidates now stages locked limit q) \<Longrightarrow> r \<in> set (q_rows q) \<and> claimable now stages locked r"
  by (auto simp: candidates_def dest: in_set_takeD)

text \<open>A claim leases at most \<open>limit\<close> rows, each pending, due, of a wanted stage and not locked
  by another worker, and it leases all of them when there are no more than \<open>limit\<close>. No row it
  leaves behind is more urgent (priority first, then due time) than one it takes. Exactly the
  taken rows become claimed, stamped with the worker and the time.\<close>

theorem claim_takes_most_urgent:
  assumes "q_wf q" and "0 < limit" and "claim fresh now w limit stages locked q = (q', result)"
  shows "\<exists>picked. int (length picked) = min limit (int (length (filter (claimable now stages locked) (q_rows q)))) \<and>
     distinct (map q_id picked) \<and>
     (\<forall>r \<in> set picked. r \<in> set (q_rows q) \<and> claimable now stages locked r \<and>
        row_of (q_id r) q' = Some (claimed_row now w r)) \<and>
     (\<forall>r \<in> set (q_rows q). r \<notin> set picked \<longrightarrow> row_of (q_id r) q' = Some r \<and>
        (claimable now stages locked r \<longrightarrow> (\<forall>p \<in> set picked. \<not> before r p)))"
proof -
  define open_rows where "open_rows = filter (claimable now stages locked) (q_rows q)"
  define picked where "picked = candidates now stages locked limit q"
  have q': "q' = q\<lparr>q_rows := update_where (\<lambda>r. q_id r \<in> set (map q_id picked)) (claimed_row now w) (q_rows q)\<rparr>"
    using assms(2,3) by (simp add: claim_def picked_def Let_def)
  have lookup: "row_of (q_id r) q' = Some (if q_id r \<in> q_id ` set picked then claimed_row now w r else r)"
    if "r \<in> set (q_rows q)" for r
    using row_of_Some[OF assms(1), of "q_id r" r] that by (simp add: q' claim_upd.row_of_update)
  have same: "r \<in> set picked" if "r \<in> set (q_rows q)" "q_id r \<in> q_id ` set picked" for r
    using that assms(1) candidates_claimable unfolding picked_def q_wf_def distinct_map
    by (metis (no_types, lifting) imageE inj_onD)
  have len: "length (claim_order open_rows) = length open_rows"
    by (metis claim_order_mset size_mset)
  have "int (length picked) = min limit (int (length open_rows))"
    using assms(2) len by (simp add: picked_def candidates_def open_rows_def[symmetric] min_def) linarith
  moreover have "\<not> before r p"
    if "r \<in> set open_rows" "r \<notin> set picked" "p \<in> set picked" for r p
  proof -
    have split: "claim_order open_rows = picked @ drop (nat limit) (claim_order open_rows)"
      by (simp add: picked_def candidates_def open_rows_def)
    have "r \<in> set (claim_order open_rows)" using that by simp
    then have "r \<in> set (drop (nat limit) (claim_order open_rows))"
      using that(2) by (subst (asm) split) simp
    moreover have "sorted_wrt (\<lambda>a b. \<not> before b a) (picked @ drop (nat limit) (claim_order open_rows))"
      using claim_order_sorted[of open_rows] split by simp
    ultimately show ?thesis using that(3) by (auto simp: sorted_wrt_append)
  qed
  moreover have "r \<in> set (q_rows q) \<and> claimable now stages locked r \<and>
      row_of (q_id r) q' = Some (claimed_row now w r)" if "r \<in> set picked" for r
    using that candidates_claimable lookup unfolding picked_def by fastforce
  moreover have "row_of (q_id r) q' = Some r" if "r \<in> set (q_rows q)" "r \<notin> set picked" for r
    using lookup[OF that(1)] same[OF that(1)] that(2) by auto
  moreover have "distinct (map q_id picked)"
    unfolding picked_def by (rule candidates_distinct[OF assms(1)])
  ultimately show ?thesis
    by (intro exI[of _ picked] conjI ballI impI) (simp_all add: open_rows_def)
qed

definition fx_env :: queue_env where
  "fx_env = \<lparr>qe_max_attempts = 3, qe_backoff_ms = 1000, qe_inject = id, qe_keys_visible = (\<lambda>m. True)\<rparr>"

definition fx_queue :: stage_queue where
  "fx_queue = \<lparr>q_rows = [new_row fx_env 0 0 (fx_message PS_VALIDATION 1 ''d0'') 0,
     new_row fx_env 0 1 (fx_message PS_PARSER 1 ''d1'') 0], q_next = 2\<rparr>"

lemma fx_queue_wf: "q_wf fx_queue"
  by (simp add: q_wf_def fx_queue_def new_row_def fx_message_def)

lemma fx_row_0: "row_of 0 fx_queue = Some (new_row fx_env 0 0 (fx_message PS_VALIDATION 1 ''d0'') 0)"
  by (simp add: row_of_def fx_queue_def new_row_def)

theorem claim_takes_most_urgent_witness:
  "\<exists>picked. length picked = 1 \<and> (\<forall>r \<in> set picked. r \<in> set (q_rows fx_queue) \<and>
     row_of (q_id r) (fst (claim (\<lambda>_. ''f'') 5 ''w'' 1 [] {} fx_queue)) = Some (claimed_row 5 ''w'' r))"
proof -
  obtain q' res where c: "claim (\<lambda>_. ''f'') 5 ''w'' 1 [] {} fx_queue = (q', res)"
    by (cases "claim (\<lambda>_. ''f'') 5 ''w'' 1 [] {} fx_queue") blast
  have two: "length (filter (claimable 5 [] {}) (q_rows fx_queue)) = 2"
    by (simp add: fx_queue_def claimable_def new_row_def ms_def)
  show ?thesis
    using claim_takes_most_urgent[OF fx_queue_wf _ c] two by (auto simp: c)
qed

subsection \<open>Executions\<close>

text \<open>
  One committed operation of the driver, with the rows it hands to a worker. Operations of several
  workers and of the sweep interleave freely: an execution is any sequence of steps.
\<close>

inductive pg_step :: "queue_env \<Rightarrow> stage_queue \<Rightarrow> uuid list \<Rightarrow> stage_queue \<Rightarrow> bool" for e where
  step_enqueue: "insert_rows e now items q = Inr (q', ids) \<Longrightarrow> pg_step e q [] q'"
| step_claim: "claim fresh now w limit stages locked q = (q', r) \<Longrightarrow>
    pg_step e q (if limit \<le> 0 then [] else map q_id (candidates now stages locked limit q)) q'"
| step_complete: "pg_step e q [] (complete rid q)"
| step_fail: "pg_step e q [] (fst (fail e now rid err q))"
| step_reclaim: "pg_step e q [] (fst (reclaim_stale now lease q))"

inductive_cases pg_stepE: "pg_step e q ds q'"

inductive pg_run :: "queue_env \<Rightarrow> stage_queue \<Rightarrow> uuid list \<Rightarrow> stage_queue \<Rightarrow> bool" for e where
  run_refl: "pg_run e q [] q"
| run_step: "pg_step e q ds q1 \<Longrightarrow> pg_run e q1 ds' q2 \<Longrightarrow> pg_run e q (ds @ ds') q2"

lemma fail_fst:
  "fst (fail e now rid err q) =
     q\<lparr>q_rows := update_where (\<lambda>r. q_id r = rid) (failed_queue_row e now err) (q_rows q)\<rparr>"
proof (cases "List.find (\<lambda>r. q_id r = rid) (q_rows q)")
  case None
  then have "update_where (\<lambda>r. q_id r = rid) (failed_queue_row e now err) (q_rows q) = q_rows q"
    by (intro update_where_none) (auto simp: find_None_iff)
  then show ?thesis by (simp add: fail_def None)
qed (simp add: fail_def)

lemmas op_defs = claim_def complete_def fail_fst reclaim_stale_def Let_def

lemma pg_step_wf: "pg_step e q ds q' \<Longrightarrow> q_wf q \<Longrightarrow> q_wf q'"
  by (erule pg_stepE)
    (auto simp: op_defs insert_rows_wf claim_upd.update_wf done_upd.update_wf fail_upd.update_wf
      reclaim_upd.update_wf split: if_splits)

text \<open>C20: Whatever the workers, the API and the sweep do, in any interleaving, the queue table keeps
  its invariant: ids and dispatch ids stay unique and a row has a lease time exactly while it is
  claimed.\<close>

theorem queue_invariant:
  assumes "pg_run e q ds q'" and "q_wf q"
  shows "q_wf q'"
  using assms by (induction rule: pg_run.induct) (auto intro: pg_step_wf)

theorem queue_invariant_witness:
  "q_wf (fst (reclaim_stale 900000000 60 (complete 1 fx_queue)))"
  by (rule queue_invariant[OF run_step[OF step_complete run_step[OF step_reclaim run_refl]] fx_queue_wf])

subsection \<open>The retry budget\<close>

text \<open>How often a row can still be handed out.\<close>

fun deliveries_left :: "queue_row \<Rightarrow> nat" where
  "deliveries_left r =
     nat (q_max_attempts r - q_attempt r) + (if q_state r = SQ_PENDING then 1 else 0)"

lemmas budget_simps = claimed_row_def done_row_def failed_queue_row_def reclaimed_row_def
  claimable_def stale_def

lemma budget_updates:
  "deliveries_left (done_row r) \<le> deliveries_left r"
  "deliveries_left (failed_queue_row e now err r) \<le> deliveries_left r"
  "stale now lease r \<Longrightarrow> deliveries_left (reclaimed_row now r) \<le> deliveries_left r"
  "claimable now stages locked r \<Longrightarrow> Suc (deliveries_left (claimed_row now w r)) = deliveries_left r"
  by (auto simp: budget_simps)

lemma find_append_Some: "List.find P xs = Some r \<Longrightarrow> List.find P (xs @ ys) = Some r"
  by (induction xs) (auto split: if_splits)

lemma row_of_insert:
  "insert_rows e now items q = Inr (q', ids) \<Longrightarrow> row_of rid q = Some r \<Longrightarrow> row_of rid q' = Some r"
  using insert_rows_prefix[of e now items q q' ids] by (auto simp: row_of_def find_append_Some)

lemma count_distinct: "distinct xs \<Longrightarrow> count_list xs x = (if x \<in> set xs then 1 else 0)"
  by (induction xs) auto

lemma pg_step_budget:
  assumes step: "pg_step e q ds q'" and wf: "q_wf q" and r: "row_of rid q = Some r"
  shows "\<exists>r'. row_of rid q' = Some r' \<and> count_list ds rid + deliveries_left r' \<le> deliveries_left r"
  using step
proof cases
  case (step_enqueue now items ids)
  then show ?thesis using row_of_insert[OF _ r] by simp
next
  case (step_claim fresh now w limit stages locked res)
  show ?thesis
  proof (cases "limit \<le> 0")
    case True
    then show ?thesis using step_claim r by (simp add: claim_def)
  next
    case False
    define picked where "picked = candidates now stages locked limit q"
    have q': "q' = q\<lparr>q_rows := update_where (\<lambda>r. q_id r \<in> set (map q_id picked)) (claimed_row now w) (q_rows q)\<rparr>"
      using step_claim False by (simp add: claim_def picked_def Let_def)
    have rid: "q_id r = rid" "r \<in> set (q_rows q)" using r row_of_Some[OF wf] by auto
    have "count_list ds rid = (if rid \<in> q_id ` set picked then 1 else 0)"
      using step_claim(1) False candidates_distinct[OF wf, of now stages locked limit]
      by (simp add: count_distinct picked_def)
    moreover have "claimable now stages locked r" if "rid \<in> q_id ` set picked"
    proof -
      from that obtain p where "p \<in> set picked" "q_id p = rid" by auto
      moreover from this have "row_of rid q = Some p"
        using candidates_claimable row_of_Some[OF wf] by (auto simp: picked_def)
      ultimately show ?thesis using r candidates_claimable[of p] by (auto simp: picked_def)
    qed
    ultimately show ?thesis
      using r rid budget_updates(4)[of now stages locked r w] by (auto simp: q' claim_upd.row_of_update)
  qed
next
  case (step_complete k)
  then show ?thesis using r budget_updates(1)[of r] by (auto simp: complete_def done_upd.row_of_update)
next
  case (step_fail now k err)
  then show ?thesis using r budget_updates(2)[of e now err r] by (auto simp: fail_fst fail_upd.row_of_update)
next
  case (step_reclaim now lease)
  then show ?thesis
    using r budget_updates(3)[of now lease r] by (auto simp: reclaim_stale_def reclaim_upd.row_of_update)
qed

text \<open>C19: Delivery is bounded: along every execution a row is handed to a worker at most once more
  than it has attempts left, however workers fail it, lose their leases, or report on rows that
  are no longer theirs.\<close>

theorem delivery_is_bounded:
  assumes "pg_run e q ds q'" and "q_wf q" and "row_of rid q = Some r"
  shows "count_list ds rid \<le> nat (q_max_attempts r - q_attempt r) + 1"
proof -
  have "\<exists>r'. row_of rid q' = Some r' \<and> count_list ds rid + deliveries_left r' \<le> deliveries_left r"
    using assms
  proof (induction arbitrary: r rule: pg_run.induct)
    case (run_step q ds q1 ds' q2)
    from pg_step_budget[OF run_step(1,4,5)] obtain r1 where
      "row_of rid q1 = Some r1" "count_list ds rid + deliveries_left r1 \<le> deliveries_left r" by blast
    moreover from run_step.IH[OF pg_step_wf[OF run_step(1,4)] this(1)] obtain r2 where
      "row_of rid q2 = Some r2" "count_list ds' rid + deliveries_left r2 \<le> deliveries_left r1" by blast
    ultimately show ?case by (auto simp del: deliveries_left.simps)
  qed simp
  then show ?thesis by (auto split: if_splits)
qed

theorem delivery_is_bounded_witness:
  "count_list (map q_id (candidates 5 [] {} 2 fx_queue)) 0 \<le> 3"
proof -
  obtain q' res where c: "claim (\<lambda>_. ''f'') 5 ''w'' 2 [] {} fx_queue = (q', res)"
    by (cases "claim (\<lambda>_. ''f'') 5 ''w'' 2 [] {} fx_queue") blast
  from delivery_is_bounded[OF run_step[OF step_claim[OF c] run_refl] fx_queue_wf fx_row_0]
  show ?thesis by (simp add: new_row_def fx_env_def fx_message_def)
qed

subsection \<open>Deduplication, failure and recovery\<close>

definition pg_pending :: "stage_queue \<Rightarrow> (uuid \<times> pipeline_stage \<times> int) multiset" where
  "pg_pending q = image_mset (\<lambda>r. (q_job_id r, q_stage r, q_attempt r))
     (filter_mset (\<lambda>r. q_state r = SQ_PENDING) (mset (q_rows q)))"

definition pg_known :: "stage_message \<Rightarrow> stage_queue \<Rightarrow> bool" where
  "pg_known m q \<longleftrightarrow> m_dispatch_id m \<in> set (map q_dispatch_id (q_rows q))"

definition pg_client :: "queue_env \<Rightarrow> instant \<Rightarrow> stage_message \<Rightarrow> int \<Rightarrow> stage_queue \<Rightarrow> exn + stage_queue" where
  "pg_client e now m delay q = map_sum id fst (pg_enqueue e now m delay q)"

lemma pg_client_cases:
  assumes "pg_client e now m delay q = Inr q'"
  shows "if pg_known m q then q' = q
    else q' = \<lparr>q_rows = q_rows q @ [new_row e now (q_next q) m delay], q_next = Suc (q_next q)\<rparr>"
proof -
  from assms obtain i where "pg_enqueue e now m delay q = Inr (q', i)"
    by (cases "pg_enqueue e now m delay q") (auto simp: pg_client_def)
  from pg_enqueue_cases[OF this] show ?thesis by (auto simp: pg_known_def)
qed

interpretation pg: queue_client message_key "pg_client e" pg_pending pg_known for e
proof
  fix now m delay q q'
  assume new: "pg_client e now m delay q = Inr q'"
  show "\<not> pg_known m q \<Longrightarrow> pg_pending q' = add_mset (message_key m) (pg_pending q)"
    using pg_client_cases[OF new] by (simp add: pg_pending_def new_row_def message_key_def)
  show "pg_known m q \<Longrightarrow> pg_pending q' = pg_pending q"
    using pg_client_cases[OF new] by simp
qed

text \<open>Enqueueing is idempotent per dispatch decision: delivering the same message again changes
  nothing and answers no id, while a message with a new dispatch id adds exactly one pending row
  for its job, stage and attempt, due after its delay.\<close>

theorem enqueue_deduplicates:
  assumes "pg_enqueue e now m delay q = Inr (q1, i1)" and "pg_enqueue e later m delay' q1 = Inr (q2, i2)"
  shows "q2 = q1 \<and> i2 = [] \<and>
    (if pg_known m q then q1 = q
     else \<exists>row. q_rows q1 = q_rows q @ [row] \<and> q_state row = SQ_PENDING \<and>
        q_available_at row = now + delay * 1000 \<and>
        pg_pending q1 = add_mset (m_job_id m, m_stage m, m_attempt m) (pg_pending q))"
proof -
  have "m_dispatch_id m \<in> set (map q_dispatch_id (q_rows q1))"
    using pg_enqueue_cases[OF assms(1)] by (auto simp: new_row_def)
  then have "q2 = q1 \<and> i2 = []" using pg_enqueue_cases[OF assms(2)] by auto
  moreover have "pg_client e now m delay q = Inr q1" using assms(1) by (simp add: pg_client_def)
  ultimately show ?thesis
    using pg_client_cases[of e now m delay q q1] pg.enqueue_new[of e now m delay q q1]
    by (auto simp: new_row_def ms_def message_key_def)
qed

theorem enqueue_deduplicates_witness:
  "\<exists>q1 i1. pg_enqueue fx_env 0 (fx_message PS_PARSER 1 ''d'') 5 empty_queue = Inr (q1, i1) \<and>
     pg_enqueue fx_env 9 (fx_message PS_PARSER 1 ''d'') 5 q1 = Inr (q1, [])"
proof -
  obtain q1 i1 where 1: "pg_enqueue fx_env 0 (fx_message PS_PARSER 1 ''d'') 5 empty_queue = Inr (q1, i1)"
    by (simp add: pg_enqueue_def empty_queue_def fx_env_def fx_message_def)
  obtain q2 i2 where 2: "pg_enqueue fx_env 9 (fx_message PS_PARSER 1 ''d'') 5 q1 = Inr (q2, i2)"
    using pg_enqueue_cases[OF 1] by (force simp: pg_enqueue_def empty_queue_def new_row_def fx_message_def)
  from enqueue_deduplicates[OF 1 2] 1 2 show ?thesis by auto
qed

text \<open>Failing a row is answered from its attempts alone, whatever its state: with attempts left
  it becomes pending again with the next attempt number and an exponentially growing delay, also
  when another worker has already completed it, and otherwise it is dead. The row of another id
  is never touched.\<close>

theorem fail_outcome:
  assumes "q_wf q" and "row_of rid q = Some r"
  shows "\<exists>q' r'. fail e now rid err q = (q', q_attempt r < q_max_attempts r) \<and>
    row_of rid q' = Some r' \<and> q_last_error r' = Some err \<and> q_claimed_at r' = None \<and>
    (if q_attempt r < q_max_attempts r
     then q_state r' = SQ_PENDING \<and> q_attempt r' = q_attempt r + 1 \<and>
       q_available_at r' = now + 1000 * (qe_backoff_ms e * 2 ^ nat (q_attempt r - 1))
     else q_state r' = SQ_DEAD \<and> q_attempt r' = q_attempt r) \<and>
    (\<forall>k. k \<noteq> rid \<longrightarrow> row_of k q' = row_of k q)"
proof -
  define q' where "q' = fst (fail e now rid err q)"
  have ans: "fail e now rid err q = (q', q_attempt r < q_max_attempts r)"
    using assms(2) by (simp add: q'_def fail_def row_of_def)
  have upd: "row_of k q' = map_option (\<lambda>r. if q_id r = rid then failed_queue_row e now err r else r) (row_of k q)" for k
    by (simp add: q'_def fail_fst fail_upd.row_of_update)
  have "q_id r = rid" using assms row_of_Some by blast
  then have mine: "row_of rid q' = Some (failed_queue_row e now err r)" using upd assms(2) by simp
  have "row_of k q' = row_of k q" if "k \<noteq> rid" for k
  proof (cases "row_of k q")
    case (Some a)
    then have "q_id a = k" using row_of_Some[OF assms(1)] by blast
    then show ?thesis using upd[of k] Some that by simp
  qed (simp add: upd)
  with ans mine show ?thesis
    by (intro exI[of _ q'] exI[of _ "failed_queue_row e now err r"])
      (simp add: failed_queue_row_def ms_def backoff_def)
qed

theorem fail_outcome_witness:
  "\<exists>r'. row_of 0 (fst (fail fx_env 7 0 [] (complete 0 fx_queue))) = Some r' \<and> q_state r' = SQ_PENDING \<and>
     q_attempt r' = 2"
proof -
  have wf: "q_wf (complete 0 fx_queue)" by (simp add: complete_def done_upd.update_wf fx_queue_wf)
  have r: "row_of 0 (complete 0 fx_queue) =
      Some (done_row (new_row fx_env 0 0 (fx_message PS_VALIDATION 1 ''d0'') 0))"
    using fx_row_0 by (simp add: complete_def done_upd.row_of_update) (simp add: new_row_def)
  from fail_outcome[OF wf r, of fx_env 7 "[]"] show ?thesis
    by (auto simp: done_row_def new_row_def fx_env_def fx_message_def)
qed

text \<open>The sweep returns every expired lease and nothing else: afterwards no claimed row is older
  than the lease, each expired row is pending again when it had an attempt left and dead
  otherwise, every other row is as it was, and the count reported is the number of expired
  leases.\<close>

theorem reclaim_returns_expired_leases:
  assumes "q_wf q"
  shows "\<exists>q'. reclaim_stale now lease q = (q', length (filter (stale now lease) (q_rows q))) \<and>
    \<not> list_ex (stale now lease) (q_rows q') \<and>
    (\<forall>r \<in> set (q_rows q). \<exists>r'. row_of (q_id r) q' = Some r' \<and>
       (if stale now lease r
        then q_state r' = (if q_attempt r < q_max_attempts r then SQ_PENDING else SQ_DEAD) \<and>
          q_attempt r' = q_attempt r + 1 \<and> q_claimed_at r' = None
        else r' = r))"
proof -
  define q' where "q' = fst (reclaim_stale now lease q)"
  have q': "q' = q\<lparr>q_rows := update_where (stale now lease) (reclaimed_row now) (q_rows q)\<rparr>"
    by (simp add: q'_def reclaim_stale_def)
  have "\<not> list_ex (stale now lease) (q_rows q')"
    by (auto simp: q' list_ex_iff set_update_where stale_def reclaimed_row_def split: option.splits)
  moreover have "row_of (q_id r) q' = Some (if stale now lease r then reclaimed_row now r else r)"
    if "r \<in> set (q_rows q)" for r
    using row_of_Some[OF assms(1), of "q_id r" r] that by (simp add: q' reclaim_upd.row_of_update)
  ultimately show ?thesis
    by (intro exI[of _ q']) (auto simp: q'[symmetric] reclaimed_row_def reclaim_stale_def)
qed

theorem reclaim_returns_expired_leases_witness:
  "\<exists>q'. reclaim_stale 900000000 60 fx_queue = (q', 0) \<and> \<not> list_ex (stale 900000000 60) (q_rows q')"
proof -
  have "length (filter (stale 900000000 60) (q_rows fx_queue)) = 0"
    by (simp add: fx_queue_def stale_def new_row_def)
  with reclaim_returns_expired_leases[OF fx_queue_wf, of 900000000 60] show ?thesis by auto
qed

lemma length_by_state:
  "length rs = length (filter (\<lambda>r. q_state r = SQ_PENDING) rs) + length (filter (\<lambda>r. q_state r = SQ_CLAIMED) rs) +
     length (filter (\<lambda>r. q_state r = SQ_DONE) rs) + length (filter (\<lambda>r. q_state r = SQ_DEAD) rs)"
proof (induction rs)
  case (Cons r rs)
  then show ?case by (cases "q_state r") simp_all
qed simp

text \<open>The depths account for every row: for each stage the waiting, delayed, active, completed
  and failed counts add up to its rows, a stage without rows has no entry, and the waiting count
  is exactly what a claim for that stage could take now.\<close>

theorem stats_account_for_every_row:
  "case pg_stats now st q of
     None \<Rightarrow> (\<nexists>r. r \<in> set (q_rows q) \<and> q_stage r = st)
   | Some s \<Rightarrow> qs_waiting s + qs_delayed s + qs_active s + qs_completed s + qs_failed s =
        length (filter (\<lambda>r. q_stage r = st) (q_rows q)) \<and>
      qs_waiting s = length (filter (claimable now [st] {}) (q_rows q))"
proof (cases "list_ex (\<lambda>r. q_stage r = st) (q_rows q)")
  case True
  define mine where "mine = filter (\<lambda>r. q_stage r = st) (q_rows q)"
  have states: "in_state st s q = filter (\<lambda>r. q_state r = s) mine" for s
    by (simp add: in_state_def mine_def conj_commute)
  have pend: "length (in_state st SQ_PENDING q) =
      length (filter (\<lambda>r. q_available_at r > now) (in_state st SQ_PENDING q)) +
      length (filter (\<lambda>r. \<not> q_available_at r > now) (in_state st SQ_PENDING q))"
    by (simp only: sum_length_filter_compl)
  have "filter (\<lambda>r. \<not> q_available_at r > now) (in_state st SQ_PENDING q) =
      filter (claimable now [st] {}) (q_rows q)"
    by (auto simp: in_state_def claimable_def not_less intro!: filter_cong)
  with pend length_by_state[of mine] True show ?thesis
    by (simp add: pg_stats_def Let_def states mine_def[symmetric])
qed (auto simp: pg_stats_def list_ex_iff)

end
