(* ===== verification/RedisQueue.thy ===== *)
theory RedisQueue
  imports QueueMessage
begin

text \<open>
  The Redis driver of \<^verbatim>\<open>backend/app/orchestrator/queue.py\<close>: one list per stage, a sorted set of
  delayed entries and the dead-letter list. A list is written head first, so \<open>LPUSH\<close> is \<open>#\<close>,
  \<open>RPUSH\<close> appends and \<open>BRPOP\<close> takes the last element. Entries are the decoded payloads; the
  fresh \<open>queue_job_id\<close> in each makes them distinct members of the sorted set. \<open>up\<close> says whether
  the server answers.
\<close>

record redis =
  rd_lists :: "pipeline_stage \<Rightarrow> dict list"
  rd_delayed :: "(instant \<times> pipeline_stage \<times> dict) list"
  rd_dlq :: "dict list"

record redis_env =
  re_up :: bool
  re_inject :: "(string \<times> string) list \<Rightarrow> (string \<times> string) list"

definition list_push_head :: "pipeline_stage \<Rightarrow> dict \<Rightarrow> redis \<Rightarrow> redis" where
  "list_push_head st p r = r\<lparr>rd_lists := (rd_lists r)(st := p # rd_lists r st)\<rparr>"

definition list_push_tail :: "pipeline_stage \<Rightarrow> dict \<Rightarrow> redis \<Rightarrow> redis" where
  "list_push_tail st p r = r\<lparr>rd_lists := (rd_lists r)(st := rd_lists r st @ [p])\<rparr>"

definition redis_payload :: "redis_env \<Rightarrow> string \<Rightarrow> stage_message \<Rightarrow> dict" where
  "redis_payload e queue_job_id m =
     AList.update ''queue_job_id'' (JStr queue_job_id)
       (AList.update ''trace'' (JObj (map (map_prod id JStr) (re_inject e (m_trace m)))) (to_payload m))"

definition redis_enqueue :: "redis_env \<Rightarrow> string \<Rightarrow> instant \<Rightarrow> stage_message \<Rightarrow> int \<Rightarrow> redis \<Rightarrow>
    exn + redis \<times> string" where
  "redis_enqueue e queue_job_id now m delay_ms r =
     (let p = redis_payload e queue_job_id m in
      if \<not> re_up e then Inl (QueueError ''Could not enqueue to Redis'')
      else if delay_ms > 0
      then Inr (r\<lparr>rd_delayed := rd_delayed r @ [(now + delay_ms * 1000, m_stage m, p)]\<rparr>, queue_job_id)
      else if m_priority m = JP_HIGH then Inr (list_push_tail (m_stage m) p r, queue_job_id)
      else Inr (list_push_head (m_stage m) p r, queue_job_id))"

definition redis_depth :: "pipeline_stage \<Rightarrow> redis \<Rightarrow> nat" where
  "redis_depth st r = length (rd_lists r st)"

definition redis_dlq_size :: "redis \<Rightarrow> nat" where
  "redis_dlq_size r = length (rd_dlq r)"

definition send_to_dlq :: "stage_message \<Rightarrow> dict \<Rightarrow> redis \<Rightarrow> redis" where
  "send_to_dlq m err r =
     r\<lparr>rd_dlq := [(''payload'', JObj (to_payload m)), (''error'', JObj err)] # rd_dlq r\<rparr>"

definition pop :: "string \<Rightarrow> pipeline_stage \<Rightarrow> redis \<Rightarrow> redis \<times> (exn + stage_message option)" where
  "pop fresh st r =
     (if rd_lists r st = [] then (r, Inr None)
      else (r\<lparr>rd_lists := (rd_lists r)(st := butlast (rd_lists r st))\<rparr>,
            map_sum id Some (from_payload fresh (last (rd_lists r st)))))"

definition is_due :: "instant \<Rightarrow> instant \<times> pipeline_stage \<times> dict \<Rightarrow> bool" where
  "is_due now x \<longleftrightarrow> 0 \<le> fst x \<and> fst x \<le> now"

definition due_entries :: "instant \<Rightarrow> redis \<Rightarrow> (instant \<times> pipeline_stage \<times> dict) list" where
  "due_entries now r = take 200 (sort_key fst (filter (is_due now) (rd_delayed r)))"

definition promote_one :: "instant \<times> pipeline_stage \<times> dict \<Rightarrow> redis \<Rightarrow> redis" where
  "promote_one entry r =
     (case entry of (t, st, p) \<Rightarrow>
        (list_push_head st p r)\<lparr>rd_delayed := remove1 entry (rd_delayed r)\<rparr>)"

definition promote_delayed :: "instant \<Rightarrow> redis \<Rightarrow> redis \<times> nat" where
  "promote_delayed now r = (fold promote_one (due_entries now r) r, length (due_entries now r))"

subsection \<open>The contract\<close>

definition payload_key :: "dict \<Rightarrow> json option \<times> json option \<times> json option" where
  "payload_key p = (dict_get p ''job_id'', dict_get p ''stage'', dict_get p ''attempt'')"

definition redis_key :: "stage_message \<Rightarrow> json option \<times> json option \<times> json option" where
  "redis_key m = payload_key (to_payload m)"

definition queued :: "redis \<Rightarrow> dict multiset" where
  "queued r = (\<Sum>st \<leftarrow> pipeline_stages. mset (rd_lists r st))"

definition redis_work :: "redis \<Rightarrow> dict multiset" where
  "redis_work r = queued r + mset (map (\<lambda>(t, st, p). p) (rd_delayed r))"

definition redis_pending :: "redis \<Rightarrow> (json option \<times> json option \<times> json option) multiset" where
  "redis_pending r = image_mset payload_key (redis_work r)"

definition redis_client :: "redis_env \<Rightarrow> string \<Rightarrow> instant \<Rightarrow> stage_message \<Rightarrow> int \<Rightarrow> redis \<Rightarrow> exn + redis" where
  "redis_client e qid now m delay r = map_sum id fst (redis_enqueue e qid now m delay r)"

lemma queued_push [simp]:
  "queued (list_push_head st p r) = add_mset p (queued r)"
  "queued (list_push_tail st p r) = add_mset p (queued r)"
  by (cases st; simp add: queued_def pipeline_stages_def list_push_head_def list_push_tail_def)+

lemma delayed_push [simp]:
  "rd_delayed (list_push_head st p r) = rd_delayed r" "rd_delayed (list_push_tail st p r) = rd_delayed r"
  by (simp_all add: list_push_head_def list_push_tail_def)

lemma queued_delayed_update [simp]: "queued (r\<lparr>rd_delayed := d\<rparr>) = queued r"
  by (simp add: queued_def)

lemma redis_payload_key: "payload_key (redis_payload e qid m) = redis_key m"
  by (simp add: payload_key_def redis_key_def redis_payload_def dict_get_alist_update)

lemma redis_enqueue_work:
  "redis_enqueue e qid now m delay r = Inr (r', i) \<Longrightarrow>
   redis_work r' = add_mset (redis_payload e qid m) (redis_work r)"
  by (auto simp: redis_enqueue_def redis_work_def Let_def split: if_splits)

interpretation redis: queue_client redis_key "redis_client e qid" redis_pending "\<lambda>m r. False" for e qid
proof
  fix now m delay r r'
  assume "redis_client e qid now m delay r = Inr r'"
  then obtain i where "redis_enqueue e qid now m delay r = Inr (r', i)"
    by (cases "redis_enqueue e qid now m delay r") (auto simp: redis_client_def)
  then show "redis_pending r' = add_mset (redis_key m) (redis_pending r)"
    by (simp add: redis_pending_def redis_enqueue_work redis_payload_key)
qed simp

subsection \<open>The delay tier\<close>

lemma promote_one_work:
  assumes "x \<in> set (rd_delayed r)"
  shows "redis_work (promote_one x r) = redis_work r"
proof -
  obtain t st p where x: "x = (t, st, p)" by (cases x)
  have "image_mset f (mset (rd_delayed r) - {#x#}) + {#f x#} = image_mset f (mset (rd_delayed r))"
    for f :: "instant \<times> pipeline_stage \<times> dict \<Rightarrow> dict"
    using assms by (simp add: image_mset_Diff)
  from this[of "\<lambda>(t, st, p). p"] show ?thesis
    by (simp add: redis_work_def promote_one_def x)
qed

lemma promote_one_delayed: "mset (rd_delayed (promote_one x r)) = mset (rd_delayed r) - {#x#}"
  by (cases x) (simp add: promote_one_def)

lemma promote_fold:
  "mset es \<subseteq># mset (rd_delayed r) \<Longrightarrow>
   redis_work (fold promote_one es r) = redis_work r \<and>
   mset (rd_delayed (fold promote_one es r)) = mset (rd_delayed r) - mset es"
proof (induction es arbitrary: r)
  case (Cons x es)
  have "x \<in> set (rd_delayed r)" using Cons.prems by (meson in_multiset_in_set list.set_intros(1) mset_subset_eqD)
  moreover have "mset es \<subseteq># mset (rd_delayed (promote_one x r))"
    using Cons.prems by (simp add: promote_one_delayed insert_subset_eq_iff)
  ultimately show ?case using Cons.IH[of "promote_one x r"]
    by (simp add: promote_one_work promote_one_delayed)
qed simp

lemma due_entries_subset: "mset (due_entries now r) \<subseteq># mset (rd_delayed r)"
proof -
  have "mset (take 200 xs) \<subseteq># mset xs" for xs :: "(instant \<times> pipeline_stage \<times> dict) list"
    by (metis append_take_drop_id mset_append mset_subset_eq_add_left)
  then have "mset (due_entries now r) \<subseteq># mset (filter (is_due now) (rd_delayed r))"
    unfolding due_entries_def by (metis mset_sort)
  also have "\<dots> \<subseteq># mset (rd_delayed r)" by (simp add: multiset_filter_subset)
  finally show ?thesis .
qed

text \<open>Promoting due entries loses and duplicates nothing: the payloads in the delay tier and the
  lists together stay the same, exactly the selected due entries leave the tier, and unless the
  batch of 200 was full no due entry is left behind.\<close>

theorem promotion_conserves_work:
  "case promote_delayed now r of (r', n) \<Rightarrow>
     redis_work r' = redis_work r \<and>
     mset (rd_delayed r') = mset (rd_delayed r) - mset (due_entries now r) \<and>
     n = min 200 (length (filter (is_due now) (rd_delayed r))) \<and>
     (n = 200 \<or> list_all (\<lambda>x. fst x < 0 \<or> now < fst x) (rd_delayed r'))"
proof -
  define r' where "r' = fold promote_one (due_entries now r) r"
  note f = promote_fold[OF due_entries_subset, of now r, folded r'_def]
  have n: "length (due_entries now r) = min 200 (length (filter (is_due now) (rd_delayed r)))"
    by (simp add: due_entries_def min.commute)
  have "list_all (\<lambda>x. fst x < 0 \<or> now < fst x) (rd_delayed r')" if "length (due_entries now r) \<noteq> 200"
  proof -
    have "length (filter (is_due now) (rd_delayed r)) \<le> 200" using that n by linarith
    then have "mset (due_entries now r) = mset (filter (is_due now) (rd_delayed r))"
      by (simp add: due_entries_def)
    then have "mset (rd_delayed r') = filter_mset (\<lambda>x. \<not> is_due now x) (mset (rd_delayed r))"
      using f by (metis add_diff_cancel_left' mset_filter multiset_partition)
    then have "set (rd_delayed r') = {x \<in> set (rd_delayed r). \<not> is_due now x}"
      by (simp flip: set_mset_mset)
    then show ?thesis by (auto simp: list_all_iff is_due_def)
  qed
  with f n show ?thesis unfolding promote_delayed_def prod.case r'_def[symmetric] by blast
qed

subsection \<open>The order of service\<close>

lemma pop_push_tail:
  "pop fresh st (list_push_tail st p r) = (r, map_sum id Some (from_payload fresh p))"
  by (simp add: pop_def list_push_tail_def)

lemma pop_push_head:
  "rd_lists r st \<noteq> [] \<Longrightarrow> snd (pop fresh st (list_push_head st p r)) = snd (pop fresh st r)"
  by (simp add: pop_def list_push_head_def)

lemma redis_payload_decodes:
  assumes "m_job_id m < 16 ^ 32" "m_contract_id m < 16 ^ 32" "m_project_id m < 16 ^ 32"
    and "m_dispatch_id m \<noteq> []"
  shows "from_payload fresh (redis_payload e qid m) = Inr (m\<lparr>m_trace := re_inject e (m_trace m)\<rparr>)"
  using assms
  by (simp add: redis_payload_def from_payload_def to_payload_def read_uuid_def read_stage_def
      read_attempt_def read_priority_def read_trace_def read_dict_def read_dispatch_def require_def
      dict_get_def uuid_parse_str map_prod_def comp_def split_def)

text \<open>An immediate high-priority message is the very next one a worker pops, with the trace
  injected and nothing else changed, and the queue is then as before; any other message leaves
  the next pop of a non-empty list unchanged.\<close>

theorem high_priority_jumps_the_queue:
  assumes "redis_enqueue e qid now m 0 r = Inr (r', i)"
    and "m_job_id m < 16 ^ 32" "m_contract_id m < 16 ^ 32" "m_project_id m < 16 ^ 32"
    and "m_dispatch_id m \<noteq> []" and "rd_lists r (m_stage m) \<noteq> []"
  shows "if m_priority m = JP_HIGH
    then pop fresh (m_stage m) r' = (r, Inr (Some (m\<lparr>m_trace := re_inject e (m_trace m)\<rparr>)))
    else snd (pop fresh (m_stage m) r') = snd (pop fresh (m_stage m) r)"
  using assms
  by (auto simp: redis_enqueue_def Let_def pop_push_tail pop_push_head redis_payload_decodes
      split: if_splits)

definition fx_redis_env :: redis_env where
  "fx_redis_env = \<lparr>re_up = True, re_inject = id\<rparr>"

definition fx_redis :: redis where
  "fx_redis = \<lparr>rd_lists = (\<lambda>st. if st = PS_PARSER
     then [redis_payload fx_redis_env ''q0'' (fx_message PS_PARSER 1 ''d0'')] else []),
     rd_delayed = [], rd_dlq = []\<rparr>"

theorem high_priority_jumps_the_queue_witness:
  "\<exists>r' i. redis_enqueue fx_redis_env ''q1'' 0 (fx_message PS_PARSER 2 ''d1''\<lparr>m_priority := JP_HIGH\<rparr>) 0 fx_redis
      = Inr (r', i) \<and>
     pop ''f'' PS_PARSER r' = (fx_redis, Inr (Some (fx_message PS_PARSER 2 ''d1''\<lparr>m_priority := JP_HIGH\<rparr>)))"
proof -
  let ?m = "fx_message PS_PARSER 2 ''d1''\<lparr>m_priority := JP_HIGH\<rparr>"
  obtain r' i where r: "redis_enqueue fx_redis_env ''q1'' 0 ?m 0 fx_redis = Inr (r', i)"
    by (simp add: redis_enqueue_def fx_redis_env_def fx_message_def)
  from high_priority_jumps_the_queue[OF r] r show ?thesis
    by (simp add: fx_message_def fx_redis_def fx_redis_env_def)
qed

text \<open>A delayed message, which every retry is, loses its priority: once due it is promoted behind
  everything already waiting, so the next pop is unchanged even when it is of high priority.\<close>

theorem delayed_message_waits_behind:
  assumes "0 < delay" and "redis_enqueue e qid now m delay r = Inr (r1, i)"
    and "rd_delayed r = []" and "rd_lists r (m_stage m) \<noteq> []" and "0 \<le> now"
  shows "\<exists>r2. promote_delayed (now + delay * 1000) r1 = (r2, 1) \<and> rd_delayed r2 = [] \<and>
    snd (pop fresh (m_stage m) r2) = snd (pop fresh (m_stage m) r)"
proof -
  define x where "x = (now + delay * 1000, m_stage m, redis_payload e qid m)"
  have r1: "r1 = r\<lparr>rd_delayed := [x]\<rparr>"
    using assms(1-3) by (auto simp: redis_enqueue_def Let_def x_def split: if_splits)
  have due: "due_entries (now + delay * 1000) r1 = [x]"
    using assms(1,5) by (simp add: due_entries_def r1 is_due_def x_def)
  have "snd (pop fresh (m_stage m) (promote_one x r1)) = snd (pop fresh (m_stage m) r)"
    using assms(4) by (simp add: promote_one_def x_def r1 list_push_head_def pop_def)
  moreover have "rd_delayed (promote_one x r1) = []"
    by (simp add: promote_one_def x_def r1 list_push_head_def)
  ultimately show ?thesis by (simp add: promote_delayed_def due)
qed

theorem delayed_message_waits_behind_witness:
  "\<exists>r1 i r2. redis_enqueue fx_redis_env ''q1'' 0 (fx_message PS_PARSER 2 ''d1''\<lparr>m_priority := JP_HIGH\<rparr>) 5 fx_redis
      = Inr (r1, i) \<and> promote_delayed 5000 r1 = (r2, 1) \<and>
     snd (pop ''f'' PS_PARSER r2) = snd (pop ''f'' PS_PARSER fx_redis)"
proof -
  let ?m = "fx_message PS_PARSER 2 ''d1''\<lparr>m_priority := JP_HIGH\<rparr>"
  obtain r1 i where r: "redis_enqueue fx_redis_env ''q1'' 0 ?m 5 fx_redis = Inr (r1, i)"
    by (simp add: redis_enqueue_def fx_redis_env_def fx_message_def Let_def)
  from delayed_message_waits_behind[OF _ r, of "''f''"] r show ?thesis
    by (auto simp: fx_message_def fx_redis_def)
qed

end
