(* ===== verification/RunnerLaws.thy ===== *)
theory RunnerLaws
  imports Runner PgQueue RedisQueue
begin

text \<open>
  What the runner guarantees. The handlers enter through \<open>isolated\<close>, the promise of
  \<open>StageHandler\<close>: a handler writes its own tables, reports progress and may annotate the contract,
  but leaves the orchestrator's rows to the runner.
\<close>

subsection \<open>The promise of a handler\<close>

definition job_core :: "job_row \<Rightarrow> job_row" where
  "job_core j = j\<lparr>j_progress := 0, j_heartbeat_at := None, j_updated_at := 0\<rparr>"

definition contract_core :: "contract_row \<Rightarrow> uuid \<times> uuid \<times> instant option" where
  "contract_core c = (c_id c, c_project_id c, c_deleted_at c)"

definition rows_kept :: "'k db \<Rightarrow> 'k db \<Rightarrow> bool" where
  "rows_kept d d' \<longleftrightarrow> map job_core (db_jobs d') = map job_core (db_jobs d) \<and>
     db_runs d' = db_runs d \<and> db_artifacts d' = db_artifacts d \<and> db_profiles d' = db_profiles d \<and>
     map contract_core (db_contracts d') = map contract_core (db_contracts d) \<and>
     db_next_id d \<le> db_next_id d' \<and>
     (\<forall>j \<in> set (db_jobs d'). 0 \<le> j_progress j \<and> j_progress j \<le> 100)"

definition isolated :: "'k stage_handler \<Rightarrow> bool" where
  "isolated h \<longleftrightarrow> (\<forall>x d. db_wf d \<longrightarrow> rows_kept d (fst (hd_cleanup h x d)) \<and> rows_kept d (fst (hd_run h x d)))"

lemma find_by_key:
  "map f xs = map f ys \<Longrightarrow> (\<And>x. g x = h (f x)) \<Longrightarrow>
   map_option f (List.find (\<lambda>x. g x = k) xs) = map_option f (List.find (\<lambda>x. g x = k) ys)"
proof (induction xs arbitrary: ys)
  case (Cons x xs)
  then obtain y ys' where "ys = y # ys'" "f x = f y" "map f xs = map f ys'" by (cases ys) auto
  with Cons show ?case by auto
qed auto

lemma rows_kept_job: "rows_kept d d' \<Longrightarrow> map_option job_core (get_job k d') = map_option job_core (get_job k d)"
  unfolding get_job_def rows_kept_def
  by (rule find_by_key[where h = j_id]) (auto simp: job_core_def)

lemma rows_kept_ids:
  "rows_kept d d' \<Longrightarrow> map j_id (db_jobs d') = map j_id (db_jobs d)"
  "rows_kept d d' \<Longrightarrow> map c_id (db_contracts d') = map c_id (db_contracts d)"
proof -
  assume k: "rows_kept d d'"
  have "map j_id js = map j_id (map job_core js)" for js by (simp add: job_core_def comp_def)
  then show "map j_id (db_jobs d') = map j_id (db_jobs d)" using k unfolding rows_kept_def by metis
  have "map c_id cs = map fst (map contract_core cs)" for cs by (simp add: contract_core_def comp_def)
  then show "map c_id (db_contracts d') = map c_id (db_contracts d)" using k unfolding rows_kept_def by metis
qed

lemma rows_kept_wf: "db_wf d \<Longrightarrow> rows_kept d d' \<Longrightarrow> db_wf d'"
proof -
  assume wf: "db_wf d" and k: "rows_kept d d'"
  have "j_id j < db_next_id d'" if "j \<in> set (db_jobs d')" for j
  proof -
    from that have "j_id j \<in> set (map j_id (db_jobs d))"
      unfolding rows_kept_ids(1)[OF k, symmetric] by simp
    with wf have "j_id j < db_next_id d" by (auto simp: wf_defs)
    with k show ?thesis by (simp add: rows_kept_def)
  qed
  with wf k rows_kept_ids[OF k] show ?thesis
    by (force simp: wf_defs rows_kept_def)
qed

lemma call_handler_kept:
  assumes "isolated h" and "db_wf d" and "call_handler h x d = (d', res)"
  shows "db_wf d' \<and> map_option job_core (get_job k d') = map_option job_core (get_job k d) \<and>
    db_runs d' = db_runs d"
proof -
  obtain d1 r1 where c: "hd_cleanup h x d = (d1, r1)" by (cases "hd_cleanup h x d")
  have k1: "rows_kept d d1" using assms(1,2) c unfolding isolated_def by (metis fst_conv)
  then have wf1: "db_wf d1" using assms(2) rows_kept_wf by blast
  show ?thesis
  proof (cases r1)
    case (Inl e)
    then show ?thesis using assms(3) c k1 wf1 rows_kept_job[OF k1]
      by (auto simp: call_handler_def rows_kept_def)
  next
    case (Inr u)
    then have "hd_run h x d1 = (d', res)" using assms(3) c by (simp add: call_handler_def)
    then have k2: "rows_kept d1 d'" using assms(1) wf1 unfolding isolated_def by (metis fst_conv)
    show ?thesis using rows_kept_wf[OF wf1 k2] rows_kept_job[OF k1] rows_kept_job[OF k2] k1 k2
      by (simp add: rows_kept_def)
  qed
qed

subsection \<open>Job rows through the runner's writes\<close>

interpretation plan_stored: job_transition "\<lambda>j. j\<lparr>j_execution_plan := merge_plan (j_execution_plan j) p\<rparr>" for p
  by unfold_locales auto

interpretation context_merged: job_transition "merge_context u" for u
  by unfold_locales (auto simp: merge_context_def split: option.splits)

lemma merge_context_state [simp]: "j_state (merge_context u j) = j_state j"
  by (simp add: merge_context_def split: option.split)

interpretation replanned: job_transition "replan_row u p" for u p
  by unfold_locales (auto simp: replan_row_def Let_def)

interpretation job_promoted: job_transition "promote_job u p" for u p
  by unfold_locales (auto simp: promote_job_def)

named_theorems job_lookup \<open>the job row after an operation\<close>

lemma get_job_cong: "db_jobs d' = db_jobs d \<Longrightarrow> get_job k d' = get_job k d"
  by (simp add: get_job_def)

lemma accumulate_metrics_alt:
  "accumulate_metrics now jid v = update_job now jid (\<lambda>j. j\<lparr>j_metrics := merge_metrics (j_metrics j) v\<rparr>)"
proof
  fix d :: "'a db"
  show "accumulate_metrics now jid v d = update_job now jid (\<lambda>j. j\<lparr>j_metrics := merge_metrics (j_metrics j) v\<rparr>) d"
  proof (cases "get_job jid d")
    case None
    then have "update_where (\<lambda>j. j_id j = jid) f (db_jobs d) = db_jobs d" for f
      by (intro update_where_none) (auto simp: get_job_def find_None_iff)
    then show ?thesis by (simp add: accumulate_metrics_def None update_job_def)
  qed (simp add: accumulate_metrics_def)
qed

lemma mark_stage_started_alt:
  "mark_stage_started now jid st w = update_job now jid (stage_started_row now st w)"
proof
  fix d :: "'a db"
  show "mark_stage_started now jid st w d = update_job now jid (stage_started_row now st w) d"
  proof (cases "get_job jid d")
    case None
    then have "update_where (\<lambda>j. j_id j = jid) f (db_jobs d) = db_jobs d" for f
      by (intro update_where_none) (auto simp: get_job_def find_None_iff)
    then show ?thesis by (simp add: mark_stage_started_def None update_job_def)
  qed (simp add: mark_stage_started_def)
qed

lemma get_job_marks [job_lookup]:
  "get_job k (mark_stage_started now jid st w d) = (if k = jid
     then map_option (\<lambda>j. (stage_started_row now st w j)\<lparr>j_updated_at := now\<rparr>) (get_job k d) else get_job k d)"
  "get_job k (update_progress now jid pct d) = (if k = jid
     then map_option (\<lambda>j. (progress_row now pct j)\<lparr>j_updated_at := now\<rparr>) (get_job k d) else get_job k d)"
  "get_job k (mark_ready now jid d) = (if k = jid
     then map_option (\<lambda>j. (ready_row now j)\<lparr>j_updated_at := now\<rparr>) (get_job k d) else get_job k d)"
  "get_job k (mark_failed now jid fs err d) = (if k = jid
     then map_option (\<lambda>j. (failed_row now fs err j)\<lparr>j_updated_at := now\<rparr>) (get_job k d) else get_job k d)"
  "get_job k (mark_retrying now jid st a d) = (if k = jid
     then map_option (\<lambda>j. (retrying_row now st a j)\<lparr>j_updated_at := now\<rparr>) (get_job k d) else get_job k d)"
  "get_job k (store_plan now jid p d) = (if k = jid
     then map_option (\<lambda>j. (j\<lparr>j_execution_plan := merge_plan (j_execution_plan j) p\<rparr>)\<lparr>j_updated_at := now\<rparr>)
       (get_job k d) else get_job k d)"
  "get_job k (accumulate_metrics now jid v d) = (if k = jid
     then map_option (\<lambda>j. (j\<lparr>j_metrics := merge_metrics (j_metrics j) v\<rparr>)\<lparr>j_updated_at := now\<rparr>)
       (get_job k d) else get_job k d)"
  by (simp_all add: mark_stage_started_alt stage_started.get_job_step update_progress_def
      progress.get_job_step mark_ready_def ready.get_job_step mark_failed_def failed.get_job_step
      mark_retrying_def retrying.get_job_step store_plan_def plan_stored.get_job_step
      accumulate_metrics_alt metrics.get_job_step)

lemma get_job_store_replan [job_lookup]:
  "get_job k (store_replan now jid u p d) =
     (if k = jid then map_option (\<lambda>j. (replan_row u p j)\<lparr>j_updated_at := now\<rparr>) (get_job k d) else get_job k d)"
  by (simp add: store_replan_def replanned.get_job_step)

lemmas get_job_rows [job_lookup] = context_merged.get_job_step job_promoted.get_job_step

lemmas job_rows = stage_started_row_def progress_row_def ready_row_def failed_row_def
  retrying_row_def promote_job_def

lemma mark_processed_frame [frame_simps]:
  "db_jobs (mark_processed now c s p r d) = db_jobs d" "db_runs (mark_processed now c s p r d) = db_runs d"
  "db_artifacts (mark_processed now c s p r d) = db_artifacts d"
  "db_next_id (mark_processed now c s p r d) = db_next_id d"
  by (simp_all add: mark_processed_def frame_simps)

lemma start_run_frame [frame_simps]:
  "db_jobs (fst (start_run now j c p st a w q vs d)) = db_jobs d"
  "db_contracts (fst (start_run now j c p st a w q vs d)) = db_contracts d"
  by (simp_all add: start_run_def Let_def)

lemma record_skipped_frame [frame_simps]:
  "db_jobs (record_skipped now j c p st cp d) = db_jobs d"
  "db_contracts (record_skipped now j c p st cp d) = db_contracts d"
  by (simp_all add: record_skipped_def Let_def)

lemma get_job_frames [job_lookup]:
  "get_job k (mark_processed now c s p r d) = get_job k d"
  "get_job k (finish_run now rid fs ref st e d) = get_job k d"
  "get_job k (record_skipped now j c pr ps cp d) = get_job k d"
  "get_job k (fst (start_run now j c pr ps a w q vs d)) = get_job k d"
  "get_job k (update_contract cid f d) = get_job k d"
  by (auto intro!: get_job_cong simp: frame_simps)

lemma map_sum_id_iff [simp]:
  "map_sum id f s = Inr y \<longleftrightarrow> (\<exists>x. s = Inr x \<and> f x = y)"
  "map_sum id f s = Inl e \<longleftrightarrow> s = Inl e"
  by (cases s; auto)+

lemma supersede_frame:
  "supersede c p j k path csum n vs smry d = Inr (d', row) \<Longrightarrow>
   db_jobs d' = db_jobs d \<and> db_runs d' = db_runs d \<and> db_contracts d' = db_contracts d"
  by (auto simp: supersede_def Let_def frame_simps split: sum.splits option.splits)

lemma persist_artifacts_frame:
  "persist_artifacts env jid c vs as d = Inr (d', ref) \<Longrightarrow>
   db_jobs d' = db_jobs d \<and> db_runs d' = db_runs d \<and> db_contracts d' = db_contracts d"
proof (induction as arbitrary: d ref)
  case (Cons a as)
  then show ?case
    by (fastforce simp: Let_def dest: supersede_frame split: sum.splits prod.splits)
qed simp

subsection \<open>Well-formedness through the runner's writes\<close>

lemma update_contract_wf: "(\<And>c. c_id (f c) = c_id c) \<Longrightarrow> db_wf d \<Longrightarrow> db_wf (update_contract cid f d)"
  by (simp add: wf_defs update_contract_def map_update_where)

lemma mark_processed_wf: "db_wf d \<Longrightarrow> db_wf (mark_processed now cid s p r d)"
  by (simp add: mark_processed_def update_contract_wf)

lemma persist_artifacts_wf:
  "persist_artifacts env jid c vs as d = Inr (d', ref) \<Longrightarrow> db_wf d \<Longrightarrow> db_wf d'"
proof (induction as arbitrary: d ref)
  case (Cons a as)
  have "supersede cc p j k path csum n v smry d = Inr (d1, row) \<Longrightarrow> db_wf d1"
    for cc p j k path csum n v smry d1 row
    using supersede_wf[OF Cons.prems(2), of cc p j k path csum n v smry] by auto
  with Cons show ?case
    by (fastforce simp: Let_def split: sum.splits prod.splits)
qed simp

lemma apply_context_updates_laws:
  assumes "apply_context_updates now jid cid u d = Inr d'"
  shows "db_wf d \<Longrightarrow> db_wf d'" "db_runs d' = db_runs d"
    "\<exists>p. get_job k d' = (if k = jid then map_option (\<lambda>j. (promote_job u p j)\<lparr>j_updated_at := now\<rparr>) (get_job k d)
       else get_job k d)"
proof -
  from assms obtain p n where
    d': "d' = update_contract cid (promote_contract u p n) (update_job now jid (promote_job u p) d)"
    by (auto simp: apply_context_updates_def Let_def split: sum.splits)
  show "db_wf d \<Longrightarrow> db_wf d'"
    by (simp add: d' update_contract_wf promote_contract_def job_promoted.step_wf)
  show "db_runs d' = db_runs d" by (simp add: d' frame_simps)
  show "\<exists>p. get_job k d' = (if k = jid then map_option (\<lambda>j. (promote_job u p j)\<lparr>j_updated_at := now\<rparr>) (get_job k d)
       else get_job k d)"
    by (intro exI[of _ p]) (simp add: d' job_lookup)
qed

lemma record_success_laws:
  assumes "record_success env m jid cid run r ref d = Inr d'"
  shows "db_wf d \<Longrightarrow> db_wf d'"
    "db_runs d' = db_runs (finish_run (en_end env) (r_id run) SS_SUCCEEDED ref (sr_stats r) None d)"
    "get_job jid d = Some j \<Longrightarrow> \<exists>j'. get_job jid d' = Some j' \<and> j_state j' = j_state j"
proof -
  define d3 where "d3 = (let d2 = finish_run (en_end env) (r_id run) SS_SUCCEEDED ref (sr_stats r) None d in
    if sr_stats r = [] then d2 else accumulate_metrics (en_end env) jid (sr_stats r) d2)"
  have 3: "db_wf d \<Longrightarrow> db_wf d3"
    "db_runs d3 = db_runs (finish_run (en_end env) (r_id run) SS_SUCCEEDED ref (sr_stats r) None d)"
    "get_job jid d = Some j \<Longrightarrow> \<exists>j'. get_job jid d3 = Some j' \<and> j_state j' = j_state j"
    by (auto simp: d3_def Let_def finish_run_wf transitions_wf accumulate_metrics_alt frame_simps job_lookup
        metrics.get_job_step metrics.step_wf)
  define promoted where "promoted = (if sr_context_updates r = [] then Inr d3
    else apply_context_updates (en_end env) jid cid (sr_context_updates r)
      (update_job (en_end env) jid (merge_context (sr_context_updates r)) d3))"
  have "record_success env m jid cid run r ref d =
      map_sum id (update_progress (en_end env) jid (progress_for (m_stage m) True)) promoted"
    by (simp add: record_success_def Let_def promoted_def d3_def)
  with assms obtain d4 where d4: "promoted = Inr d4"
    "d' = update_progress (en_end env) jid (progress_for (m_stage m) True) d4"
    by auto
  have 4: "db_wf d3 \<Longrightarrow> db_wf d4" "db_runs d4 = db_runs d3"
    "get_job jid d3 = Some j3 \<Longrightarrow> \<exists>j'. get_job jid d4 = Some j' \<and> j_state j' = j_state j3" for j3
  proof -
    show "db_wf d3 \<Longrightarrow> db_wf d4"
      using d4(1) by (auto simp: promoted_def context_merged.step_wf dest: apply_context_updates_laws(1)
          split: if_splits)
    show "db_runs d4 = db_runs d3"
      using d4(1) by (auto simp: promoted_def frame_simps dest: apply_context_updates_laws(2) split: if_splits)
    show "get_job jid d3 = Some j3 \<Longrightarrow> \<exists>j'. get_job jid d4 = Some j' \<and> j_state j' = j_state j3"
      using d4(1) apply_context_updates_laws(3)[of "en_end env" jid cid "sr_context_updates r" _ d4 jid]
      by (fastforce simp: promoted_def job_lookup promote_job_def split: if_splits)
  qed
  show "db_wf d \<Longrightarrow> db_wf d'" using 3 4 d4 by (simp add: transitions_wf)
  show "db_runs d' = db_runs (finish_run (en_end env) (r_id run) SS_SUCCEEDED ref (sr_stats r) None d)"
    using 3 4 d4 by (simp add: update_progress_def frame_simps)
  show "get_job jid d = Some j \<Longrightarrow> \<exists>j'. get_job jid d' = Some j' \<and> j_state j' = j_state j"
    using 3(3) 4(3) d4(2) by (fastforce simp: job_lookup progress_row_def)
qed

lemma finalise_wf: "db_wf d \<Longrightarrow> db_wf (finalise_if_last now jid c nxt d)"
  by (simp add: finalise_if_last_def mark_processed_wf transitions_wf split: option.splits)

lemma finalise_job:
  "get_job jid d = Some j \<Longrightarrow> \<exists>j'. get_job jid (finalise_if_last now jid c nxt d) = Some j' \<and>
     j_state j' = (if nxt = None then JS_READY else j_state j)"
  by (auto simp: finalise_if_last_def job_lookup ready_row_def split: option.splits)

lemma finalise_frame [frame_simps]: "db_runs (finalise_if_last now jid c nxt d) = db_runs d"
  by (simp add: finalise_if_last_def mark_ready_def frame_simps split: option.splits)

subsection \<open>Where a stage leaves its job\<close>

text \<open>
  The contract of one execution, as a relation of the reported outcome and the job's state: a retry
  is scheduled only within the budget and with the job \<open>RETRYING\<close>; a following stage is later in
  the pipeline; and otherwise the job is terminal.
\<close>

definition settled :: "int \<Rightarrow> stage_message \<Rightarrow> stage_outcome \<Rightarrow> job_state \<Rightarrow> bool" where
  "settled max_attempts m o1 s =
     (if o_should_retry o1
      then o_status o1 = SS_FAILED \<and> o_next_stage o1 = None \<and> m_attempt m < max_attempts \<and> s = JS_RETRYING
      else case o_next_stage o1 of
        Some st \<Rightarrow> o_status o1 \<in> {SS_SUCCEEDED, SS_SKIPPED} \<and>
          (\<exists>i k. stage_index (m_stage m) = Some i \<and> stage_index st = Some k \<and> i < k)
      | None \<Rightarrow> (o_status o1 = SS_FAILED \<and> s = JS_FAILED) \<or>
          (o_status o1 = SS_SKIPPED \<and> s = JS_READY) \<or>
          (o_status o1 = SS_SUCCEEDED \<and> (s = JS_READY \<or> s = JS_FAILED)))"

definition job_settled :: "int \<Rightarrow> stage_message \<Rightarrow> uuid \<Rightarrow> 'k db \<Rightarrow> stage_outcome \<Rightarrow> bool" where
  "job_settled max_attempts m jid d o1 \<longleftrightarrow>
     db_wf d \<and> (\<exists>j. get_job jid d = Some j \<and> settled max_attempts m o1 (j_state j))"

lemma outcome_simps [simp]:
  "o_status (outcome jid m s) = s" "o_next_stage (outcome jid m s) = None"
  "o_should_retry (outcome jid m s) = False" "o_error (outcome jid m s) = None"
  "o_artifact_ref (outcome jid m s) = None"
  by (simp_all add: outcome_def)

lemma handle_failure_settled:
  assumes "db_wf d" and "get_job jid d = Some j"
  shows "case handle_failure env mx m jid cid rid exc rt d of (d', o1) \<Rightarrow> job_settled mx m jid d' o1"
  using assms
  by (simp add: handle_failure_def Let_def job_settled_def finish_run_wf transitions_wf mark_processed_wf
      job_lookup job_rows settled_def)

lemma store_plan_wf:
  "db_wf d \<Longrightarrow> db_wf (store_plan now jid p d)" "db_wf d \<Longrightarrow> db_wf (store_replan now jid u p d)"
  by (simp_all add: store_plan_def plan_stored.step_wf store_replan_def replanned.step_wf)

lemma finalise_settled:
  assumes "db_wf d" and "get_job jid d = Some j" and "nxt = next_after p (m_stage m)"
    and "o_next_stage o1 = nxt" "o_should_retry o1 = False" "o_status o1 \<in> {SS_SUCCEEDED, SS_SKIPPED}"
  shows "job_settled mx m jid (finalise_if_last now jid c nxt d) o1"
  using finalise_job[OF assms(2), of now c nxt] finalise_wf[OF assms(1)] assms next_after_index
  by (auto simp: job_settled_def settled_def split: option.splits)

lemma advance_settled:
  assumes "db_wf d" and "get_job (j_id j) d = Some j1" and "advance env m j c p r ref d = Inr (d', o1)"
  shows "job_settled mx m (j_id j) d' o1"
proof -
  have step: "job_settled mx m (j_id j) (finalise_if_last (en_end env) (j_id j) cc (next_after q (m_stage m)) d1)
      ((outcome (j_id j) m SS_SUCCEEDED)\<lparr>o_next_stage := next_after q (m_stage m), o_artifact_ref := ref,
         o_stats := sr_stats r, o_warnings := sr_warnings r\<rparr>)"
    if "db_wf d1" "get_job (j_id j) d1 = Some j2" for q d1 j2 cc
    by (rule finalise_settled[OF that, where p = q]) simp_all
  show ?thesis
  proof (cases "m_stage m = PS_DOCPIPELINE \<and> sr_context_updates r \<noteq> []")
    case True
    with assms(3) obtain q where "(d', o1) =
        (finalise_if_last (en_end env) (j_id j) (session_contract c (store_replan (en_end env) (j_id j) (sr_context_updates r) q d))
           (next_after q (m_stage m)) (store_replan (en_end env) (j_id j) (sr_context_updates r) q d),
         (outcome (j_id j) m SS_SUCCEEDED)\<lparr>o_next_stage := next_after q (m_stage m), o_artifact_ref := ref,
           o_stats := sr_stats r, o_warnings := sr_warnings r\<rparr>)"
      by (auto simp: advance_def Let_def split: sum.splits)
    moreover have "\<exists>j2. get_job (j_id j) (store_replan (en_end env) (j_id j) (sr_context_updates r) q d) = Some j2" for q
      using assms(2) by (simp add: job_lookup)
    ultimately show ?thesis using step[OF store_plan_wf(2)[OF assms(1)]] by blast
  next
    case False
    with assms(3) have "(d', o1) = (finalise_if_last (en_end env) (j_id j) (session_contract c d)
           (next_after p (m_stage m)) d,
         (outcome (j_id j) m SS_SUCCEEDED)\<lparr>o_next_stage := next_after p (m_stage m), o_artifact_ref := ref,
           o_stats := sr_stats r, o_warnings := sr_warnings r\<rparr>)"
      by (auto simp: advance_def Let_def)
    then show ?thesis using step[OF assms(1,2)] by blast
  qed
qed

lemma complete_stage_settled:
  assumes "db_wf d" and "get_job (j_id j) d = Some j1" and "complete_stage env m j c run p r d = Inr (d', o1)"
  shows "job_settled mx m (j_id j) d' o1"
proof -
  from assms(3) obtain d1 ref d2 where
    1: "persist_artifacts env (j_id j) c (r_versions run) (sr_artifacts r) d = Inr (d1, ref)" and
    2: "record_success env m (j_id j) (c_id c) run r ref d1 = Inr d2"
    by (auto simp: complete_stage_def split: sum.splits prod.splits)
  have job1: "get_job (j_id j) d1 = Some j1"
    using assms(2) persist_artifacts_frame[OF 1] get_job_cong by metis
  obtain j2 where job2: "get_job (j_id j) d2 = Some j2" using record_success_laws(3)[OF 2 job1] by blast
  have wf2: "db_wf d2" using record_success_laws(1)[OF 2] persist_artifacts_wf[OF 1 assms(1)] by blast
  show ?thesis
  proof (cases "sr_halt r")
    case True
    then show ?thesis
      using assms(3) 1 2 wf2 job2
      by (auto simp: complete_stage_def job_settled_def settled_def mark_processed_wf transitions_wf
          job_lookup job_rows)
  next
    case False
    then show ?thesis using assms(3) 1 2 advance_settled[OF wf2 job2] by (simp add: complete_stage_def)
  qed
qed

lemma reuse_settled:
  assumes "db_wf d" and "get_job (j_id j) d = Some j1"
  shows "case reuse_checkpoint env m j c p cp d of (d', o1) \<Rightarrow> job_settled mx m (j_id j) d' o1"
proof -
  define d1 where "d1 = record_skipped (en_start env) (j_id j) (c_id c) (c_project_id c) (m_stage m) cp d"
  have "db_wf d1" using assms(1) by (simp add: d1_def record_skipped_wf)
  moreover have "get_job (j_id j) d1 = Some j1" using assms(2) by (simp add: d1_def job_lookup)
  ultimately show ?thesis
    unfolding reuse_checkpoint_def Let_def d1_def[symmetric] prod.case
    by (rule finalise_settled[where p = p]) simp_all
qed

subsection \<open>What an execution records\<close>

text \<open>The run row that mirrors an outcome.\<close>

definition mirrors :: "'k runner_env \<Rightarrow> stage_message \<Rightarrow> stage_outcome \<Rightarrow> run_row \<Rightarrow> bool" where
  "mirrors env m o1 r \<longleftrightarrow> r_job_id r = m_job_id m \<and> r_contract_id r = m_contract_id m \<and> r_stage r = m_stage m \<and>
     r_status r = o_status o1 \<and> r_error r = o_error o1 \<and> r_artifact_ref r = o_artifact_ref o1 \<and>
     r_finished_at r = Some (if o_status o1 = SS_SKIPPED then en_start env else en_end env)"

lemma finish_appended_run:
  assumes "\<forall>x \<in> set rs. r_id x \<noteq> r_id run" and "db_runs d = rs @ [run]"
  shows "db_runs (finish_run now (r_id run) s ref st e d) = rs @ [finished_row now s ref st e run]"
proof -
  have "update_where (\<lambda>x. r_id x = r_id run) f rs = rs" for f
    using assms(1) by (intro update_where_none) auto
  then show ?thesis using assms(2) by (simp add: finish_run_def) (simp add: update_where_def)
qed

lemma advance_runs: "advance env m j c p r ref d = Inr (d', o1) \<Longrightarrow> db_runs d' = db_runs d \<and>
    o_status o1 = SS_SUCCEEDED \<and> o_error o1 = None \<and> o_artifact_ref o1 = ref"
  by (auto simp: advance_def Let_def frame_simps store_replan_def split: sum.splits if_splits)

lemma run_handler_laws:
  assumes iso: "isolated (en_handlers env (m_stage m))" and wf: "db_wf d"
    and j: "get_job (j_id j) d = Some j0"
    and ids: "j_id j = m_job_id m" "c_id c = m_contract_id m"
    and run: "run_handler env mx m j c profile p d = Inr (d', o1)"
  shows "job_settled mx m (j_id j) d' o1 \<and> (\<exists>r. db_runs d' = db_runs d @ [r] \<and> mirrors env m o1 r)"
proof -
  from run obtain info where info: "get_stage_handler (en_imports env) (m_stage m) = Inr info"
    by (auto simp: run_handler_def split: sum.splits)
  define h where "h = en_handlers env (m_stage m)"
  define d2 where "d2 = update_progress (en_start env) (j_id j) (progress_for (m_stage m) False)
    (mark_stage_started (en_start env) (j_id j) (m_stage m) (Some (en_worker_id env)) d)"
  define x where "x = \<lparr>x_job = session_job j d2, x_contract = c, x_stage = m_stage m,
    x_attempt = m_attempt m, x_profile = profile, x_options = m_options m\<rparr>"
  obtain d3 r0 where 3: "start_run (en_start env) (j_id j) (c_id c) (c_project_id c) (m_stage m) None
      (Some (en_worker_id env)) None (model_dump (hd_versions h x)) d2 = (d3, r0)" by fastforce
  obtain d4 res where 4: "call_handler h x d3 = (d4, res)" by fastforce
  have wf2: "db_wf d2" using wf by (simp add: d2_def transitions_wf)
  have wf3: "db_wf d3" using start_run_wf[OF wf2] 3 by (metis fst_conv)
  have runs2: "db_runs d2 = db_runs d" by (simp add: d2_def update_progress_def mark_stage_started_alt frame_simps)
  have r0: "db_runs d3 = db_runs d2 @ [r0]" "r_id r0 = db_next_id d2" "r_job_id r0 = j_id j"
    "r_contract_id r0 = c_id c" "r_stage r0 = m_stage m" "r_artifact_ref r0 = None"
    using 3 by (auto simp: start_run_def Let_def)
  have job3: "\<exists>j3. get_job (j_id j) d3 = Some j3"
  proof -
    have "get_job (j_id j) d3 = get_job (j_id j) d2" using get_job_frames(4) 3 by (metis fst_conv)
    then show ?thesis using j by (simp add: d2_def job_lookup)
  qed
  note kept = call_handler_kept[OF iso[folded h_def] wf3 4]
  have job4: "\<exists>j4. get_job (j_id j) d4 = Some j4" using job3 kept[of "j_id j"] by force
  have runs4: "db_runs d4 = db_runs d @ [r0]" using kept r0(1) runs2 by simp
  have fresh: "\<forall>y \<in> set (db_runs d). r_id y \<noteq> r_id r0"
    using wf2 runs2 r0(2) by (fastforce simp: wf_defs)
  have eq: "run_handler env mx m j c profile p d = (case res of
      Inl exc \<Rightarrow> Inr (handle_failure env mx m (j_id j) (c_id c) (r_id r0) exc (exn_retryable exc \<and> h_retryable info) d4)
    | Inr r \<Rightarrow> complete_stage env m j c r0 p r d4)"
    by (simp add: run_handler_def info Let_def d2_def[symmetric] x_def[symmetric] h_def[symmetric] 3 4)
  show ?thesis
  proof (cases res)
    case (Inl exc)
    then have hf: "handle_failure env mx m (j_id j) (c_id c) (r_id r0) exc (exn_retryable exc \<and> h_retryable info) d4
        = (d', o1)" using run eq by simp
    obtain j4 where j4: "get_job (j_id j) d4 = Some j4" using job4 by blast
    have "db_wf d4" using kept by blast
    from handle_failure_settled[OF this j4, where env = env and mx = mx and m = m and
        cid = "c_id c" and rid = "r_id r0" and exc = exc and rt = "exn_retryable exc \<and> h_retryable info"]
    have "job_settled mx m (j_id j) d' o1" by (simp add: hf)
    moreover have "db_runs d' = db_runs (finish_run (en_end env) (r_id r0) SS_FAILED None []
        (Some (failure_error m (exn_retryable exc \<and> h_retryable info) exc)) d4) \<and> o_status o1 = SS_FAILED \<and>
        o_error o1 = Some (failure_error m (exn_retryable exc \<and> h_retryable info) exc) \<and> o_artifact_ref o1 = None"
      using hf by (auto simp: handle_failure_def Let_def frame_simps mark_failed_def mark_retrying_def
          split: if_splits)
    ultimately show ?thesis
      using finish_appended_run[OF fresh runs4] ids r0 by (simp add: mirrors_def finished_row_def)
  next
    case (Inr r)
    then have cs: "complete_stage env m j c r0 p r d4 = Inr (d', o1)" using run eq by simp
    from cs obtain d5 ref d6 where
      5: "persist_artifacts env (j_id j) c (r_versions r0) (sr_artifacts r) d4 = Inr (d5, ref)" and
      6: "record_success env m (j_id j) (c_id c) r0 r ref d5 = Inr d6"
      by (auto simp: complete_stage_def split: sum.splits prod.splits)
    have "db_runs d' = db_runs d6 \<and> o_status o1 = SS_SUCCEEDED \<and> o_error o1 = None \<and> o_artifact_ref o1 = ref"
      using cs 5 6 advance_runs[of env m j c p r ref d6 d' o1]
      by (auto simp: complete_stage_def frame_simps mark_failed_def split: if_splits)
    moreover have "db_runs d5 = db_runs d @ [r0]" using persist_artifacts_frame[OF 5] runs4 by simp
    ultimately have "\<exists>s. db_runs d' = db_runs d @ [s] \<and> mirrors env m o1 s"
      using record_success_laws(2)[OF 6] finish_appended_run[OF fresh, of d5] ids r0
      by (auto simp: mirrors_def finished_row_def split: option.splits)
    then show ?thesis using complete_stage_settled[OF _ _ cs] kept job4 by blast
  qed
qed

lemma resolve_plan_laws:
  assumes "resolve_plan env now j c profile d = Inr (d1, p)"
  shows "db_wf d \<Longrightarrow> db_wf d1" "db_runs d1 = db_runs d"
    "get_job k d = Some j0 \<Longrightarrow> \<exists>j1. get_job k d1 = Some j1 \<and> j_state j1 = j_state j0"
proof -
  have "d1 = d \<or> d1 = store_plan now (j_id j) p d"
    using assms by (auto simp: resolve_plan_def split: option.splits list.splits)
  then show "db_wf d \<Longrightarrow> db_wf d1" "db_runs d1 = db_runs d"
    "get_job k d = Some j0 \<Longrightarrow> \<exists>j1. get_job k d1 = Some j1 \<and> j_state j1 = j_state j0"
    by (auto simp: store_plan_wf job_lookup) (simp_all add: store_plan_def frame_simps)
qed

lemma get_job_id: "get_job k d = Some j \<Longrightarrow> j_id j = k"
  by (auto simp: get_job_def dest: find_SomeD)

lemma get_contract_id: "get_contract k d = Some c \<Longrightarrow> c_id c = k"
  by (auto simp: get_contract_def dest: find_SomeD)

lemma reuse_runs:
  "reuse_checkpoint env m j c p cp d = (d', o1) \<Longrightarrow> j_id j = m_job_id m \<Longrightarrow> c_id c = m_contract_id m \<Longrightarrow>
   \<exists>r. db_runs d' = db_runs d @ [r] \<and> mirrors env m o1 r"
  by (auto simp: reuse_checkpoint_def Let_def frame_simps record_skipped_def mirrors_def)

definition active :: "'k db \<Rightarrow> stage_message \<Rightarrow> bool" where
  "active d m \<longleftrightarrow> (\<exists>j. get_job (m_job_id m) d = Some j \<and> j_state j \<notin> {JS_CANCELLED, JS_PAUSED}) \<and>
     get_contract (m_contract_id m) d \<noteq> None"

lemma execute_laws:
  assumes iso: "isolated (en_handlers env (m_stage m))" and wf: "db_wf d" and act: "active d m"
    and ex: "execute env mx m d = Inr (d', o1)"
  shows "job_settled mx m (m_job_id m) d' o1 \<and> (\<exists>r. db_runs d' = db_runs d @ [r] \<and> mirrors env m o1 r)"
proof -
  from act obtain j c where j: "get_job (m_job_id m) d = Some j" "j_state j \<notin> {JS_CANCELLED, JS_PAUSED}"
    and c: "get_contract (m_contract_id m) d = Some c" by (auto simp: active_def)
  note ids = get_job_id[OF j(1)] get_contract_id[OF c]
  from ex j c obtain d1 p where rp: "resolve_plan env (en_start env) j c (load_profile j d) d = Inr (d1, p)"
    by (auto simp: execute_def Let_def split: sum.splits)
  obtain j1 where j1: "get_job (j_id j) d1 = Some j1"
    using resolve_plan_laws(3)[OF rp, of "j_id j" j] j(1) ids(1) by auto
  have wf1: "db_wf d1" and runs1: "db_runs d1 = db_runs d" using resolve_plan_laws(1,2)[OF rp] wf by auto
  have "run_handler env mx m j c (load_profile j d) p d1 = Inr (d', o1) \<or>
    (\<exists>cp. reuse_checkpoint env m j c p cp d1 = (d', o1))"
    using ex j c rp by (auto simp: execute_def Let_def split: option.splits if_splits)
  then show ?thesis
  proof (elim disjE exE)
    assume "run_handler env mx m j c (load_profile j d) p d1 = Inr (d', o1)"
    from run_handler_laws[OF iso wf1 j1 ids this] show ?thesis using runs1 ids by simp
  next
    fix cp assume r: "reuse_checkpoint env m j c p cp d1 = (d', o1)"
    from reuse_settled[OF wf1 j1, where env = env and m = m and p = p and cp = cp and c = c] r
    show ?thesis using reuse_runs[OF r ids] runs1 ids by simp
  qed
qed

lemma complete_stage_status: "complete_stage env m j c run p r d = Inr (d', o1) \<Longrightarrow> o_status o1 = SS_SUCCEEDED"
  by (auto simp: complete_stage_def dest: advance_runs split: sum.splits if_splits)

lemma run_handler_failed:
  assumes "run_handler env mx m j c profile p d = Inr (d', o1)" and "o_status o1 = SS_FAILED"
  shows "\<exists>x d3 d4 rid exc. call_handler (en_handlers env (m_stage m)) x d3 = (d4, Inl exc) \<and>
    handle_failure env mx m (j_id j) (c_id c) rid exc (exn_retryable exc) d4 = (d', o1)"
proof -
  have retr: "get_stage_handler imps st = Inr info \<Longrightarrow> h_retryable info" for imps st info
    by (auto simp: get_stage_handler_def Let_def split: if_splits)
  from assms(1) obtain info where info: "get_stage_handler (en_imports env) (m_stage m) = Inr info"
    by (auto simp: run_handler_def split: sum.splits)
  show ?thesis
    using assms by (auto simp: run_handler_def Let_def info retr[OF info] dest: complete_stage_status
      split: sum.splits prod.splits) blast
qed

lemma execute_failed:
  assumes act: "active d m" and ex: "execute env mx m d = Inr (d', o1)" and failed: "o_status o1 = SS_FAILED"
  shows "\<exists>x d3 d4 rid exc. call_handler (en_handlers env (m_stage m)) x d3 = (d4, Inl exc) \<and>
    handle_failure env mx m (m_job_id m) (m_contract_id m) rid exc (exn_retryable exc) d4 = (d', o1)"
proof -
  from act obtain j c where j: "get_job (m_job_id m) d = Some j" "j_state j \<notin> {JS_CANCELLED, JS_PAUSED}"
    and c: "get_contract (m_contract_id m) d = Some c" by (auto simp: active_def)
  from ex j c obtain d1 p where rp: "resolve_plan env (en_start env) j c (load_profile j d) d = Inr (d1, p)"
    by (auto simp: execute_def Let_def split: sum.splits)
  have "reuse_checkpoint env m j c p cp d1 \<noteq> (d', o1)" for cp
    using failed by (auto simp: reuse_checkpoint_def Let_def)
  moreover have "run_handler env mx m j c (load_profile j d) p d1 = Inr (d', o1) \<or>
    (\<exists>cp. reuse_checkpoint env m j c p cp d1 = (d', o1))"
    using ex j c rp by (auto simp: execute_def Let_def split: option.splits if_splits)
  ultimately have "run_handler env mx m j c (load_profile j d) p d1 = Inr (d', o1)" by blast
  from run_handler_failed[OF this failed] get_job_id[OF j(1)] get_contract_id[OF c] show ?thesis by simp
qed

subsection \<open>Properties of one execution\<close>

text \<open>C1: Executing a stage of an active job always leaves the job settled, with the tables well
  formed: it is \<open>RETRYING\<close> exactly when a retry is asked for, which only happens below the attempt
  limit; a following stage is one later in the pipeline; and with neither the job is \<open>READY\<close> or
  \<open>FAILED\<close>, \<open>FAILED\<close> when the stage failed. The hypothesis is that the handler keeps to its own
  tables.\<close>

theorem stage_settles_its_job:
  assumes "isolated (en_handlers env (m_stage m))" and "db_wf d" and "active d m"
    and "execute env mx m d = Inr (d', o1)"
  shows "db_wf d' \<and> (\<exists>j. get_job (m_job_id m) d' = Some j \<and> settled mx m o1 (j_state j))"
  using execute_laws[OF assms] by (simp add: job_settled_def)

text \<open>C3: Every execution for an active job that returns adds exactly one row to the run history and changes none:
  finished, for the message's job, contract and stage, with the status, the error and the artifact reference the
  outcome reports. For a job that is missing, cancelled or paused, or whose contract is gone, it changes nothing at
  all; and one that raises is rolled back, so it leaves neither a row nor a message.\<close>

theorem execution_adds_one_run:
  assumes "isolated (en_handlers env (m_stage m))" and "db_wf d"
  shows "case execute env mx m d of
      Inl e \<Rightarrow> run_stage enq env mx m (d, q) = ((d, q), Inl e)
    | Inr (d', o1) \<Rightarrow>
        if active d m
        then \<exists>r. db_runs d' = db_runs d @ [r] \<and> r_job_id r = m_job_id m \<and> r_contract_id r = m_contract_id m \<and>
          r_stage r = m_stage m \<and> r_status r = o_status o1 \<and> r_error r = o_error o1 \<and>
          r_artifact_ref r = o_artifact_ref o1 \<and>
          r_finished_at r = Some (if o_status o1 = SS_SKIPPED then en_start env else en_end env)
        else d' = d"
proof (cases "execute env mx m d")
  case (Inl e)
  then show ?thesis by (simp add: run_stage_def)
next
  case (Inr x)
  obtain d' o1 where x: "x = (d', o1)" by (cases x)
  show ?thesis
  proof (cases "active d m")
    case True
    from execute_laws[OF assms True Inr[unfolded x]] show ?thesis
      using True Inr x by (auto simp: mirrors_def)
  next
    case False
    then show ?thesis
      using Inr x by (auto simp: execute_def active_def split: option.splits if_splits)
  qed
qed

text \<open>C4: A failed execution is decided by the exception the handler raised and nothing else. An
  \<open>AppError\<close> is retried only if it says so, any other exception always, and only below the attempt
  limit; the delay doubles with each attempt. A retried job is \<open>RETRYING\<close> with the attempt as its
  retry count; otherwise it is \<open>FAILED\<close> with the error on the row and the failed stage as the place
  to resume, and an unexpected exception's own text is not in the record.\<close>

theorem failure_is_decided_by_the_exception:
  assumes "isolated (en_handlers env (m_stage m))" and "db_wf d" and "active d m"
    and "execute env mx m d = Inr (d', o1)" and "o_status o1 = SS_FAILED"
  shows "\<exists>exc j. (\<exists>x d3. snd (call_handler (en_handlers env (m_stage m)) x d3) = Inl exc) \<and>
    get_job (m_job_id m) d' = Some j \<and>
    o_error o1 = Some (failure_error m (exn_retryable exc) exc) \<and>
    o_should_retry o1 = (exn_retryable exc \<and> m_attempt m < mx) \<and> j_current_stage j = Some (m_stage m) \<and>
    (if o_should_retry o1
     then o_retry_delay_ms o1 = en_backoff_ms env * 2 ^ nat (m_attempt m - 1) \<and>
       j_state j = JS_RETRYING \<and> j_retry_count j = m_attempt m
     else j_state j = JS_FAILED \<and> j_error j = o_error o1 \<and> j_resume_from_stage j = Some (m_stage m))"
proof -
  obtain x d3 d4 rid exc where
    h: "call_handler (en_handlers env (m_stage m)) x d3 = (d4, Inl exc)" and
    f: "handle_failure env mx m (m_job_id m) (m_contract_id m) rid exc (exn_retryable exc) d4 = (d', o1)"
    using execute_failed[OF assms(3-5)] by blast
  obtain j where j: "get_job (m_job_id m) d' = Some j"
    using execute_laws[OF assms(1-4)] by (auto simp: job_settled_def)
  then have "get_job (m_job_id m) d4 \<noteq> None"
    using f by (auto simp: handle_failure_def Let_def job_lookup split: if_splits)
  then obtain j4 where "get_job (m_job_id m) d4 = Some j4" by blast
  moreover have "\<exists>x d3. snd (call_handler (en_handlers env (m_stage m)) x d3) = Inl exc"
    using h by (metis snd_conv)
  ultimately show ?thesis
    using f j by (intro exI[of _ exc] exI[of _ j] conjI)
      (auto simp: handle_failure_def Let_def job_lookup job_rows retry_delay_def outcome_def split: if_splits)
qed

lemma first_max_last: "(\<And>x. x \<in> set xs \<Longrightarrow> older x r) \<Longrightarrow> first_max older (xs @ [r]) = Some r"
  by (induction xs) (auto split: option.splits)

text \<open>The checkpoint is written with the success: once a stage has succeeded, the checkpoint that
  later jobs of the contract find for it is the run this execution recorded, provided every earlier
  success finished before.\<close>

theorem success_becomes_the_checkpoint:
  assumes "isolated (en_handlers env (m_stage m))" and "db_wf d" and "active d m"
    and "execute env mx m d = Inr (d', o1)" and "o_status o1 = SS_SUCCEEDED"
    and "\<forall>x \<in> set (succeeded_runs (m_contract_id m) d). \<exists>t. r_finished_at x = Some t \<and> t < en_end env"
  shows "\<exists>r. checkpoint (m_contract_id m) (m_stage m) d' = Some r \<and> r_job_id r = m_job_id m \<and>
    r_artifact_ref r = o_artifact_ref o1 \<and> r \<notin> set (db_runs d)"
proof -
  obtain r where r: "db_runs d' = db_runs d @ [r]" "mirrors env m o1 r"
    using execute_laws[OF assms(1-4)] by blast
  have rows: "filter (\<lambda>x. r_stage x = m_stage m) (succeeded_runs (m_contract_id m) d') =
      filter (\<lambda>x. r_stage x = m_stage m) (succeeded_runs (m_contract_id m) d) @ [r]"
    using r assms(5) by (simp add: succeeded_runs_def mirrors_def)
  have "less_recent x r" if "x \<in> set (succeeded_runs (m_contract_id m) d)" for x
    using assms(5,6) that r(2) by (force simp: less_recent_def mirrors_def)
  then have "checkpoint (m_contract_id m) (m_stage m) d' = Some r"
    unfolding checkpoint_def rows by (intro first_max_last) simp
  moreover have "r \<notin> set (db_runs d)"
  proof
    assume "r \<in> set (db_runs d)"
    moreover have "distinct (map r_id (db_runs d'))"
      using execute_laws[OF assms(1-4)] by (simp add: job_settled_def wf_defs)
    ultimately show False by (auto simp: r(1))
  qed
  ultimately show ?thesis using r(2) by (auto simp: mirrors_def)
qed

subsection \<open>The runner on the fixture rows\<close>

definition fx_ok_handler :: "unit stage_handler" where
  "fx_ok_handler = \<lparr>hd_versions = (\<lambda>x. no_versions), hd_cleanup = (\<lambda>x d. (d, Inr ())),
     hd_run = (\<lambda>x d. (d, Inr \<lparr>sr_artifacts = [], sr_stats = [], sr_context_updates = [],
       sr_halt = False, sr_halt_reason = None, sr_warnings = []\<rparr>))\<rparr>"

definition fx_bad_handler :: "unit stage_handler" where
  "fx_bad_handler = fx_ok_handler\<lparr>hd_run := (\<lambda>x d. (d, Inl (PyErr ''TimeoutError'' ''t'')))\<rparr>"

definition fx_runner :: "unit stage_handler \<Rightarrow> unit runner_env" where
  "fx_runner h = \<lparr>en_versions = fx_settings, en_imports = fx_imports, en_handlers = (\<lambda>st. h),
     en_put_json = (\<lambda>k p. Inr (None, 0)), en_backoff_ms = 2000, en_worker_id = ''w'',
     en_dispatch_id = ''next'', en_start = 100, en_end = 200\<rparr>"

lemma fx_runner_simps [simp]:
  "en_handlers (fx_runner h) st = h" "en_end (fx_runner h) = 200" "en_imports (fx_runner h) = fx_imports"
  "en_backoff_ms (fx_runner h) = 2000" "en_dispatch_id (fx_runner h) = ''next''"
  by (simp_all add: fx_runner_def)

lemma fx_isolated [simp]: "isolated fx_ok_handler" "isolated fx_bad_handler"
  by (auto simp: isolated_def fx_ok_handler_def fx_bad_handler_def rows_kept_def wf_defs)

definition fx_validate :: stage_message where
  "fx_validate = fx_message PS_VALIDATION 1 ''d''"

lemma fx_validate_simps [simp]:
  "m_job_id fx_validate = 10" "m_contract_id fx_validate = 20" "m_stage fx_validate = PS_VALIDATION"
  "m_attempt fx_validate = 1" "m_continue fx_validate"
  by (simp_all add: fx_validate_def fx_message_def)

lemma fx_rows: "get_job 10 fx_db = Some fx_job" "get_contract 20 fx_db = Some fx_contract"
  by (simp_all add: get_job_def get_contract_def fx_db_def fx_job_def fx_contract_def)

lemma fx_active: "active fx_db fx_validate"
  by (simp add: active_def fx_rows) (simp add: fx_job_def)

lemma plan_full_total: "\<exists>p. plan vs imps j c pr None force cps = Inr p"
  by (simp add: plan_def Let_def)

text \<open>The first execution of the fixture job plans all six stages, so its validation always runs.\<close>

lemma fx_execute:
  "\<exists>p d1. execute (fx_runner h) mx fx_validate fx_db =
     run_handler (fx_runner h) mx fx_validate fx_job fx_contract None p d1 \<and> runnable p = STAGE_ORDER"
proof -
  obtain p where p: "plan fx_settings fx_imports fx_job fx_contract None None False (checkpoints 20 fx_db) = Inr p"
    using plan_full_total by blast
  define d1 where "d1 = store_plan 100 10 p fx_db"
  have rp: "resolve_plan (fx_runner h) 100 fx_job fx_contract None fx_db = Inr (d1, p)"
    using p by (simp add: resolve_plan_def fx_job_def empty_plan_doc_def d1_def fx_runner_def fx_contract_def)
  have runs: "runnable p = STAGE_ORDER" by (rule full_plan_runs_all[OF p])
  have "checkpoint 20 PS_VALIDATION d1 = None"
    by (simp add: checkpoint_def succeeded_runs_def d1_def store_plan_def frame_simps) (simp add: fx_db_def)
  then have "execute (fx_runner h) mx fx_validate fx_db =
      run_handler (fx_runner h) mx fx_validate fx_job fx_contract None p d1"
    using rp by (simp add: execute_def fx_rows) (simp add: fx_job_def fx_contract_def fx_runner_def load_profile_def split: option.splits)
  with runs show ?thesis by blast
qed

lemma fx_handler: "\<exists>info. get_stage_handler fx_imports PS_VALIDATION = Inr info \<and> h_retryable info"
  using fx_registered[of PS_VALIDATION] by (simp add: get_stage_handler_def STAGE_ORDER_def)

lemma fx_execute_bad:
  "\<exists>d' o1. execute (fx_runner fx_bad_handler) 3 fx_validate fx_db = Inr (d', o1) \<and>
     o_status o1 = SS_FAILED \<and> o_should_retry o1 \<and> o_retry_delay_ms o1 = 2000"
proof -
  obtain p d1 where e: "execute (fx_runner fx_bad_handler) 3 fx_validate fx_db =
      run_handler (fx_runner fx_bad_handler) 3 fx_validate fx_job fx_contract None p d1"
    using fx_execute by blast
  obtain info where "get_stage_handler fx_imports PS_VALIDATION = Inr info" "h_retryable info"
    using fx_handler by blast
  then show ?thesis unfolding e
    by (simp add: run_handler_def Let_def call_handler_def fx_bad_handler_def fx_ok_handler_def
        handle_failure_def retry_delay_def outcome_def split: prod.split)
qed

lemma fx_execute_ok:
  "\<exists>d' o1. execute (fx_runner fx_ok_handler) 3 fx_validate fx_db = Inr (d', o1) \<and>
     o_status o1 = SS_SUCCEEDED \<and> \<not> o_should_retry o1"
proof -
  obtain p d1 where e: "execute (fx_runner fx_ok_handler) 3 fx_validate fx_db =
      run_handler (fx_runner fx_ok_handler) 3 fx_validate fx_job fx_contract None p d1"
    using fx_execute by blast
  obtain info where "get_stage_handler fx_imports PS_VALIDATION = Inr info" "h_retryable info"
    using fx_handler by blast
  then show ?thesis unfolding e
    by (simp add: run_handler_def Let_def call_handler_def fx_ok_handler_def complete_stage_def
        record_success_def advance_def split: prod.split)
qed

theorem stage_settles_its_job_witness:
  "\<exists>d' o1. execute (fx_runner fx_bad_handler) 3 fx_validate fx_db = Inr (d', o1) \<and> db_wf d' \<and>
     (\<exists>j. get_job 10 d' = Some j \<and> settled 3 fx_validate o1 (j_state j))"
proof -
  obtain d' o1 where e: "execute (fx_runner fx_bad_handler) 3 fx_validate fx_db = Inr (d', o1)"
    using fx_execute_bad by blast
  from stage_settles_its_job[OF _ fx_db_wf fx_active e] e show ?thesis by simp
qed

theorem execution_adds_one_run_witness:
  "\<exists>d' o1 r. execute (fx_runner fx_ok_handler) 3 fx_validate fx_db = Inr (d', o1) \<and>
     db_runs d' = db_runs fx_db @ [r] \<and> r_status r = SS_SUCCEEDED"
proof -
  obtain d' o1 where e: "execute (fx_runner fx_ok_handler) 3 fx_validate fx_db = Inr (d', o1)"
    and s: "o_status o1 = SS_SUCCEEDED" using fx_execute_ok by blast
  from execution_adds_one_run[where env = "fx_runner fx_ok_handler" and m = fx_validate and mx = 3, OF _ fx_db_wf]
    e s fx_active show ?thesis by auto
qed

theorem failure_is_decided_by_the_exception_witness:
  "\<exists>d' o1 j. execute (fx_runner fx_bad_handler) 3 fx_validate fx_db = Inr (d', o1) \<and>
     get_job 10 d' = Some j \<and> j_state j = JS_RETRYING \<and> o_retry_delay_ms o1 = 2000"
proof -
  obtain d' o1 where e: "execute (fx_runner fx_bad_handler) 3 fx_validate fx_db = Inr (d', o1)"
    and s: "o_status o1 = SS_FAILED" "o_should_retry o1" using fx_execute_bad by blast
  from failure_is_decided_by_the_exception[OF _ fx_db_wf fx_active e s(1)] e s(2) show ?thesis by auto
qed

theorem success_becomes_the_checkpoint_witness:
  "\<exists>d' o1 r. execute (fx_runner fx_ok_handler) 3 fx_validate fx_db = Inr (d', o1) \<and>
     checkpoint 20 PS_VALIDATION d' = Some r \<and> r_job_id r = 10"
proof -
  obtain d' o1 where e: "execute (fx_runner fx_ok_handler) 3 fx_validate fx_db = Inr (d', o1)"
    and s: "o_status o1 = SS_SUCCEEDED" using fx_execute_ok by blast
  have "succeeded_runs 20 fx_db = []" by (simp add: succeeded_runs_def fx_db_def)
  with success_becomes_the_checkpoint[OF _ fx_db_wf fx_active e s] e show ?thesis by auto
qed

subsection \<open>Dispatch\<close>

text \<open>A job that was cancelled or paused is not touched: the message is consumed with the outcome
  \<open>cancelled\<close>, the database stays as it is and nothing is enqueued.\<close>

theorem inactive_job_is_left_alone:
  assumes "get_job (m_job_id m) d = Some j" and "j_state j \<in> {JS_CANCELLED, JS_PAUSED}"
  shows "\<exists>o1. run_stage enq env mx m (d, q) = ((d, q), Inr o1) \<and> o_status o1 = SS_CANCELLED"
  using assms by (auto simp: run_stage_def execute_def)

theorem inactive_job_is_left_alone_witness:
  "\<exists>o1. run_stage (\<lambda>t m s q. Inr (m # q)) (fx_runner fx_ok_handler) 3 fx_validate
      (fx_db\<lparr>db_jobs := [fx_job\<lparr>j_state := JS_PAUSED\<rparr>]\<rparr>, [])
     = ((fx_db\<lparr>db_jobs := [fx_job\<lparr>j_state := JS_PAUSED\<rparr>]\<rparr>, []), Inr o1) \<and> o_status o1 = SS_CANCELLED"
  by (rule inactive_job_is_left_alone[where j = "fx_job\<lparr>j_state := JS_PAUSED\<rparr>"])
    (simp_all add: get_job_def fx_job_def)

context queue_client
begin

text \<open>What one run hands to the queue: the next stage at its first attempt, or the same stage at
  the next attempt, or nothing.\<close>

lemma dispatch_next_pending:
  "dispatch_next enqueue env m st (d, q) = (d', q') \<Longrightarrow> \<not> known (next_message env m st) q \<Longrightarrow>
   (d' = d \<and> pending q' = add_mset (key (next_message env m st)) (pending q)) \<or>
   (q' = q \<and> (\<exists>err. d' = mark_failed (en_end env) (m_job_id m) (Some st) err d))"
  by (auto simp: dispatch_next_def enqueue_new split: sum.splits)

lemma schedule_retry_pending:
  "schedule_retry enqueue env m delay (d, q) = (d', q') \<Longrightarrow> \<not> known (retry_message env m) q \<Longrightarrow>
   (d' = d \<and> pending q' = add_mset (key (retry_message env m)) (pending q)) \<or>
   (q' = q \<and> (\<exists>err. d' = mark_failed (en_end env) (m_job_id m) (Some (m_stage m)) err d))"
  by (auto simp: schedule_retry_def enqueue_new split: sum.splits)

lemma run_stage_pending:
  assumes iso: "isolated (en_handlers env (m_stage m))" and wf: "db_wf d" and act: "active d m"
    and run: "run_stage enqueue env mx m (d, q) = ((d', q'), Inr o1)"
    and fresh: "\<And>m'. m_dispatch_id m' = en_dispatch_id env \<Longrightarrow> \<not> known m' q"
  shows "(\<exists>j. get_job (m_job_id m) d' = Some j \<and> j_state j = JS_FAILED \<and> q' = q) \<or>
    (case (if o_should_retry o1 then Some (retry_message env m)
           else if m_continue m then map_option (next_message env m) (o_next_stage o1) else None) of
       None \<Rightarrow> q' = q
     | Some m' \<Rightarrow> pending q' = add_mset (key m') (pending q))"
proof -
  obtain d1 where ex: "execute env mx m d = Inr (d1, o1)"
    using run by (auto simp: run_stage_def Let_def split: sum.splits)
  obtain j where j: "get_job (m_job_id m) d1 = Some j" and s: "settled mx m o1 (j_state j)"
    using execute_laws[OF iso wf act ex] by (auto simp: job_settled_def)
  have fail: "\<exists>j'. get_job (m_job_id m) (mark_failed t (m_job_id m) fs err d1) = Some j' \<and> j_state j' = JS_FAILED"
    for t fs err using j by (simp add: job_lookup job_rows)
  show ?thesis
  proof (cases "o_should_retry o1")
    case True
    then have "o_next_stage o1 = None" using s by (simp add: settled_def)
    then have "schedule_retry enqueue env m (o_retry_delay_ms o1) (d1, q) = (d', q')"
      using run ex True by (simp add: run_stage_def)
    from schedule_retry_pending[OF this] fresh True show ?thesis
      using fail by (auto simp: retry_message_def)
  next
    case False
    show ?thesis
    proof (cases "o_next_stage o1")
      case None
      then show ?thesis using run ex False by (simp add: run_stage_def)
    next
      case (Some st)
      show ?thesis
      proof (cases "m_continue m")
        case True
        then have "dispatch_next enqueue env m st (d1, q) = (d', q')"
          using run ex False Some by (simp add: run_stage_def)
        from dispatch_next_pending[OF this] fresh True Some False show ?thesis
          using fail by (auto simp: next_message_def)
      qed (use run ex False Some in \<open>simp add: run_stage_def\<close>)
    qed
  qed
qed

end

text \<open>On the Postgres queue, a run of an active job hands on exactly one piece of work: the same
  stage with the next attempt number when a retry was decided, otherwise the following stage at its
  first attempt when the message asks to continue, otherwise nothing. If the queue refuses it, the
  queue is unchanged and the job is \<open>FAILED\<close>, never left waiting for work that does not exist.\<close>

theorem postgres_run_hands_on_one_stage:
  assumes "isolated (en_handlers env (m_stage m))" and "db_wf d" and "active d m"
    and "run_stage (pg_client qe) env mx m (d, q) = ((d', q'), Inr o1)"
    and "en_dispatch_id env \<notin> set (map q_dispatch_id (q_rows q))"
  shows "(\<exists>j. get_job (m_job_id m) d' = Some j \<and> j_state j = JS_FAILED \<and> q' = q) \<or>
    pg_pending q' = pg_pending q +
      (if o_should_retry o1 then {#(m_job_id m, m_stage m, m_attempt m + 1)#}
       else case o_next_stage o1 of
         Some st \<Rightarrow> if m_continue m then {#(m_job_id m, st, 1)#} else {#}
       | None \<Rightarrow> {#})"
  using pg.run_stage_pending[OF assms(1-4)] assms(5)
  by (auto simp: pg_known_def message_key_def next_message_def retry_message_def split: if_splits option.splits)

lemma run_stage_ok:
  "execute env mx m d = Inr (d1, o1) \<Longrightarrow> \<exists>d' q'. run_stage enq env mx m (d, q) = ((d', q'), Inr o1)"
  by (simp add: run_stage_def Let_def)

theorem postgres_run_hands_on_one_stage_witness:
  "\<exists>d' q' o1. run_stage (pg_client fx_env) (fx_runner fx_bad_handler) 3 fx_validate (fx_db, empty_queue)
      = ((d', q'), Inr o1) \<and>
     ((\<exists>j. get_job 10 d' = Some j \<and> j_state j = JS_FAILED \<and> q' = empty_queue) \<or>
      pg_pending q' = pg_pending empty_queue + {#(10, PS_VALIDATION, 2)#})"
proof -
  obtain d1 o1 where e: "execute (fx_runner fx_bad_handler) 3 fx_validate fx_db = Inr (d1, o1)"
    and s: "o_should_retry o1" using fx_execute_bad by blast
  obtain d' q' where r: "run_stage (pg_client fx_env) (fx_runner fx_bad_handler) 3 fx_validate
      (fx_db, empty_queue) = ((d', q'), Inr o1)"
    using run_stage_ok[OF e, of "pg_client fx_env" empty_queue] by blast
  from postgres_run_hands_on_one_stage[OF _ fx_db_wf fx_active r] r s show ?thesis
    by (simp add: empty_queue_def)
qed

text \<open>On the Redis queue the same holds of the entries in the lists and the delay tier.\<close>

theorem redis_run_hands_on_one_stage:
  assumes "isolated (en_handlers env (m_stage m))" and "db_wf d" and "active d m"
    and "run_stage (redis_client re qid) env mx m (d, r) = ((d', r'), Inr o1)"
  shows "(\<exists>j. get_job (m_job_id m) d' = Some j \<and> j_state j = JS_FAILED \<and> r' = r) \<or>
    redis_pending r' = redis_pending r +
      (if o_should_retry o1 then {#redis_key (retry_message env m)#}
       else case o_next_stage o1 of
         Some st \<Rightarrow> if m_continue m then {#redis_key (next_message env m st)#} else {#}
       | None \<Rightarrow> {#})"
  using redis.run_stage_pending[OF assms] by (auto split: if_splits option.splits)

theorem redis_run_hands_on_one_stage_witness:
  "\<exists>d' r' o1. run_stage (redis_client fx_redis_env ''q'') (fx_runner fx_bad_handler) 3 fx_validate (fx_db, fx_redis)
      = ((d', r'), Inr o1) \<and>
     ((\<exists>j. get_job 10 d' = Some j \<and> j_state j = JS_FAILED \<and> r' = fx_redis) \<or>
      redis_pending r' = redis_pending fx_redis +
        {#redis_key (retry_message (fx_runner fx_bad_handler) fx_validate)#})"
proof -
  obtain d1 o1 where e: "execute (fx_runner fx_bad_handler) 3 fx_validate fx_db = Inr (d1, o1)"
    and s: "o_should_retry o1" using fx_execute_bad by blast
  obtain d' r' where r: "run_stage (redis_client fx_redis_env ''q'') (fx_runner fx_bad_handler) 3 fx_validate
      (fx_db, fx_redis) = ((d', r'), Inr o1)"
    using run_stage_ok[OF e, of "redis_client fx_redis_env ''q''" fx_redis] by blast
  from redis_run_hands_on_one_stage[OF _ fx_db_wf fx_active r] r s show ?thesis by simp
qed

end
