(* ===== verification/Pipeline.thy ===== *)
theory Pipeline
  imports RunnerLaws
begin

text \<open>
  The pipeline driven to its end: \<open>InlineDriver\<close> of \<^verbatim>\<open>backend/app/orchestrator/queue.py\<close>, whose
  \<open>enqueue\<close> runs the stage at once and so walks the pipeline by recursion, and the settling of a
  leased row by \<open>_run_claimed\<close> of \<^verbatim>\<open>backend/app/cli.py\<close>. The recursion is bounded by the stage
  order and the attempt limit, which is the termination proof. \<open>E\<close> gives the surroundings (clock,
  worker, dispatch id) of each execution.
\<close>

subsection \<open>What an execution may ask for next\<close>

definition next_offered :: "stage_message \<Rightarrow> stage_outcome \<Rightarrow> bool" where
  "next_offered m o1 \<longleftrightarrow> o_next_stage o1 = None \<or> (\<exists>q. o_next_stage o1 = next_after q (m_stage m))"

lemma advance_next:
  "advance env m j c p r ref d = Inr (d', o1) \<Longrightarrow> \<not> o_should_retry o1 \<and>
     next_offered m o1"
  by (auto simp: next_offered_def advance_def Let_def split: sum.splits if_splits)

lemma complete_stage_next:
  "complete_stage env m j c run p r d = Inr (d', o1) \<Longrightarrow> \<not> o_should_retry o1 \<and>
     next_offered m o1"
  by (auto simp: complete_stage_def next_offered_def[of m "outcome _ _ _\<lparr>o_artifact_ref := _, o_stats := _, o_warnings := _\<rparr>"]
      dest: advance_next split: sum.splits if_splits)

lemma handle_failure_next:
  "handle_failure env mx m jid cid rid exc rt d = (d', o1) \<Longrightarrow>
     next_offered m o1 \<and> (o_should_retry o1 \<longrightarrow> m_attempt m < mx)"
  by (auto simp: handle_failure_def next_offered_def Let_def split: if_splits)

lemma run_handler_next:
  assumes "run_handler env mx m j c profile p d = Inr (d', o1)"
  shows "(o_should_retry o1 \<longrightarrow> m_attempt m < mx) \<and>
     next_offered m o1"
  using assms
  by (auto simp: run_handler_def Let_def dest: complete_stage_next handle_failure_next
      split: sum.splits prod.splits)

lemma reuse_next:
  "reuse_checkpoint env m j c p cp d = (d', o1) \<Longrightarrow>
     \<not> o_should_retry o1 \<and> next_offered m o1"
  by (auto simp: reuse_checkpoint_def next_offered_def Let_def)

lemma execute_next:
  assumes "execute env mx m d = Inr (d', o1)"
  shows "(o_should_retry o1 \<longrightarrow> m_attempt m < mx) \<and>
     next_offered m o1"
proof -
  have "next_offered m (outcome jid m s)" "next_offered m ((outcome jid m s)\<lparr>o_error := e\<rparr>)" for jid s e
    by (simp_all add: next_offered_def)
  then show ?thesis
    using assms by (auto simp: execute_def Let_def dest: run_handler_next reuse_next
      split: option.splits if_splits sum.splits)
qed

definition stage_rank :: "pipeline_stage \<Rightarrow> nat" where
  "stage_rank st = (case stage_index st of None \<Rightarrow> 0 | Some i \<Rightarrow> 6 - i)"

lemma execute_next_rank:
  assumes "execute env mx m d = Inr (d', o1)" and "o_next_stage o1 = Some st"
  shows "stage_rank st < stage_rank (m_stage m)"
proof -
  obtain q where "next_after q (m_stage m) = Some st" 
    using execute_next[OF assms(1)] assms(2) by (force simp: next_offered_def)
  then obtain i k where "stage_index (m_stage m) = Some i" "stage_index st = Some k" "i < k"
    using next_after_index by blast
  with stage_index_less[of st k] show ?thesis by (simp add: stage_rank_def)
qed

subsection \<open>The inline driver\<close>

definition queue_failed :: "'k runner_env \<Rightarrow> stage_message \<Rightarrow> string \<Rightarrow> pipeline_stage \<Rightarrow>
    ('k db \<times> stage_message list) \<times> (exn + stage_outcome) \<Rightarrow> 'k db \<times> stage_message list" where
  "queue_failed env m msg st res =
     (case res of
        ((d, log), Inr _) \<Rightarrow> (d, log)
      | ((d, log), Inl _) \<Rightarrow> (mark_failed (en_end env) (m_job_id m) (Some st) (dispatch_error msg st) d, log))"

text \<open>\<open>InlineDriver.enqueue\<close>: the message is logged and \<open>run_stage\<close> is awaited, whose own dispatches
  come back here. An exception of the nested run is what \<open>_dispatch_next\<close> or \<open>_schedule_retry\<close>
  catches.\<close>

function inline_run :: "(pipeline_stage \<Rightarrow> int \<Rightarrow> 'k runner_env) \<Rightarrow> int \<Rightarrow> stage_message \<Rightarrow>
    'k db \<times> stage_message list \<Rightarrow> ('k db \<times> stage_message list) \<times> (exn + stage_outcome)" where
  "inline_run E mx m dl =
     (let env = E (m_stage m) (m_attempt m); log = snd dl @ [m] in
      case execute env mx m (fst dl) of
        Inl e \<Rightarrow> ((fst dl, log), Inl e)
      | Inr (d1, o1) \<Rightarrow>
          (let s1 = (if o_next_stage o1 \<noteq> None \<and> m_continue m
             then queue_failed env m ''Could not queue the next processing stage. Retry the job.''
               (the (o_next_stage o1))
               (inline_run E mx (next_message env m (the (o_next_stage o1))) (d1, log))
             else (d1, log));
             s2 = (if o_should_retry o1
               then queue_failed env m ''Could not re-queue the stage for retry.'' (m_stage m)
                 (inline_run E mx (retry_message env m) s1)
               else s1)
           in (s2, Inr o1)))"
  by pat_completeness auto

termination
proof (relation "measures [\<lambda>(E, mx, m, dl). stage_rank (m_stage m), \<lambda>(E, mx, m, dl). nat (mx - m_attempt m)]")
qed (auto simp: next_message_def retry_message_def dest: execute_next_rank execute_next)

declare inline_run.simps [simp del]

subsection \<open>The contract stays\<close>

definition contracts_kept :: "'k db \<Rightarrow> 'k db \<Rightarrow> bool" where
  "contracts_kept d d' \<longleftrightarrow> map contract_core (db_contracts d') = map contract_core (db_contracts d)"

lemma contracts_kept_trans: "contracts_kept d e \<Longrightarrow> contracts_kept e f \<Longrightarrow> contracts_kept d f"
  by (simp add: contracts_kept_def)

lemma contracts_kept_eq: "db_contracts d' = db_contracts d \<Longrightarrow> contracts_kept d d'"
  by (simp add: contracts_kept_def)

lemma contracts_kept_get: "contracts_kept d d' \<Longrightarrow> get_contract k d \<noteq> None \<Longrightarrow> get_contract k d' \<noteq> None"
proof -
  assume kept: "contracts_kept d d'"
  have "get_contract k e \<noteq> None \<longleftrightarrow> (k, None) \<in> set (map (\<lambda>(i, p, t). (i, t)) (map contract_core (db_contracts e)))"
    for e :: "'a db" by (auto simp: get_contract_def find_None_iff contract_core_def image_iff)
  with kept show "get_contract k d \<noteq> None \<Longrightarrow> get_contract k d' \<noteq> None"
    unfolding contracts_kept_def by metis
qed

lemma contracts_kept_update [intro]:
  "(\<And>c. contract_core (f c) = contract_core c) \<Longrightarrow> contracts_kept d e \<Longrightarrow> contracts_kept d (update_contract cid f e)"
  by (simp add: contracts_kept_def update_contract_def map_update_where)

lemma contracts_kept_mark [intro]: "contracts_kept d e \<Longrightarrow> contracts_kept d (mark_processed now cid s p r e)"
  unfolding mark_processed_def by (rule contracts_kept_update) (simp add: contract_core_def)

lemma contracts_kept_promote [intro]:
  "contracts_kept d e \<Longrightarrow> contracts_kept d (update_contract cid (promote_contract u p n) e)"
  by (rule contracts_kept_update) (simp_all add: contract_core_def promote_contract_def)

lemma contracts_kept_job [intro]: "contracts_kept d e \<Longrightarrow> contracts_kept d (update_job now jid f e)"
  by (simp add: contracts_kept_def frame_simps)

lemma contracts_kept_ops [intro]:
  assumes "contracts_kept d e"
  shows "contracts_kept d (mark_ready now jid e)" "contracts_kept d (mark_failed now jid fs err e)"
    "contracts_kept d (mark_retrying now jid st a e)" "contracts_kept d (update_progress now jid pct e)"
    "contracts_kept d (mark_stage_started now jid st w e)" "contracts_kept d (accumulate_metrics now jid v e)"
    "contracts_kept d (store_plan now jid p e)" "contracts_kept d (store_replan now jid u p e)" "contracts_kept d (finish_run now rid ss ref stt er e)"
    "contracts_kept d (record_skipped now jid c pr st cp e)"
    "contracts_kept d (fst (start_run now jid c pr st att w q vs e))"
    "contracts_kept d (finalise_if_last now jid cc nxt e)"
  using assms
  by (auto simp: mark_ready_def mark_failed_def mark_retrying_def update_progress_def
      mark_stage_started_alt accumulate_metrics_alt store_plan_def store_replan_def finalise_if_last_def
      intro: contracts_kept_trans[OF _ contracts_kept_eq] simp: frame_simps split: option.splits)

lemma handler_contracts:
  assumes "isolated h" and "db_wf d" and "call_handler h x d = (d', res)"
  shows "contracts_kept d d'"
proof -
  obtain d1 r1 where c: "hd_cleanup h x d = (d1, r1)" by (cases "hd_cleanup h x d")
  have k1: "rows_kept d d1" using assms(1,2) c unfolding isolated_def by (metis fst_conv)
  show ?thesis
  proof (cases r1)
    case (Inl e)
    then show ?thesis using assms(3) c k1 by (auto simp: call_handler_def rows_kept_def contracts_kept_def)
  next
    case (Inr u)
    then have "hd_run h x d1 = (d', res)" using assms(3) c by (simp add: call_handler_def)
    then have "rows_kept d1 d'"
      using assms(1) rows_kept_wf[OF assms(2) k1] unfolding isolated_def by (metis fst_conv)
    then show ?thesis using k1 by (simp add: rows_kept_def contracts_kept_def)
  qed
qed

lemma record_success_contracts:
  "record_success env m jid cid run r ref d = Inr d' \<Longrightarrow> contracts_kept e d \<Longrightarrow> contracts_kept e d'"
  by (auto simp: record_success_def apply_context_updates_def Let_def split: if_splits sum.splits
      intro!: contracts_kept_ops contracts_kept_promote contracts_kept_job)

lemma advance_contracts:
  "advance env m j c p r ref d = Inr (d', o1) \<Longrightarrow> contracts_kept e d \<Longrightarrow> contracts_kept e d'"
  by (auto simp: advance_def Let_def split: if_splits sum.splits)

lemma complete_stage_contracts:
  assumes "complete_stage env m j c run p r d = Inr (d', o1)" and "contracts_kept e d"
  shows "contracts_kept e d'"
proof -
  from assms(1) obtain d1 ref d2 where
    1: "persist_artifacts env (j_id j) c (r_versions run) (sr_artifacts r) d = Inr (d1, ref)" and
    2: "record_success env m (j_id j) (c_id c) run r ref d1 = Inr d2"
    by (auto simp: complete_stage_def split: sum.splits prod.splits)
  have "contracts_kept e d1"
    using persist_artifacts_frame[OF 1] assms(2) by (simp add: contracts_kept_def)
  then have "contracts_kept e d2" by (rule record_success_contracts[OF 2])
  then show ?thesis
    using assms(1) 1 2 by (auto simp: complete_stage_def dest: advance_contracts split: if_splits)
qed

lemma handle_failure_contracts:
  "handle_failure env mx m jid cid rid exc rt d = (d', o1) \<Longrightarrow> contracts_kept e d \<Longrightarrow> contracts_kept e d'"
  by (auto simp: handle_failure_def Let_def split: if_splits)

lemma run_handler_contracts:
  assumes iso: "isolated (en_handlers env (m_stage m))" and wf: "db_wf d"
    and run: "run_handler env mx m j c profile p d = Inr (d', o1)"
  shows "contracts_kept d d'"
proof -
  define d2 where "d2 = update_progress (en_start env) (j_id j) (progress_for (m_stage m) False)
    (mark_stage_started (en_start env) (j_id j) (m_stage m) (Some (en_worker_id env)) d)"
  define x where "x = \<lparr>x_job = session_job j d2, x_contract = c, x_stage = m_stage m,
    x_attempt = m_attempt m, x_profile = profile, x_options = m_options m\<rparr>"
  obtain d3 r0 where 3: "start_run (en_start env) (j_id j) (c_id c) (c_project_id c) (m_stage m) None
      (Some (en_worker_id env)) None (model_dump (hd_versions (en_handlers env (m_stage m)) x)) d2 = (d3, r0)"
    by fastforce
  obtain d4 res where 4: "call_handler (en_handlers env (m_stage m)) x d3 = (d4, res)" by fastforce
  have "contracts_kept d d2" by (auto simp: d2_def contracts_kept_def update_progress_def mark_stage_started_alt frame_simps)
  then have "contracts_kept d d3" using 3 contracts_kept_ops(11) by (metis fst_conv)
  moreover have "db_wf d3" using start_run_wf 3 wf by (metis d2_def fst_conv transitions_wf(1,2))
  ultimately have "contracts_kept d d4" using handler_contracts[OF iso _ 4] contracts_kept_trans by blast
  then show ?thesis
    using run 3 4
    by (auto simp: run_handler_def Let_def d2_def[symmetric] x_def[symmetric]
        dest: complete_stage_contracts handle_failure_contracts split: sum.splits)
qed

lemma execute_contracts:
  assumes iso: "isolated (en_handlers env (m_stage m))" and wf: "db_wf d"
    and ex: "execute env mx m d = Inr (d', o1)"
  shows "contracts_kept d d'"
proof (cases "active d m")
  case False
  then have "d' = d" using ex by (auto simp: active_def execute_def split: option.splits if_splits)
  then show ?thesis by (simp add: contracts_kept_def)
next
  case True
  then obtain j c where j: "get_job (m_job_id m) d = Some j" "j_state j \<notin> {JS_CANCELLED, JS_PAUSED}"
    and c: "get_contract (m_contract_id m) d = Some c" by (auto simp: active_def)
  from ex j c obtain d1 p where rp: "resolve_plan env (en_start env) j c (load_profile j d) d = Inr (d1, p)"
    by (auto simp: execute_def Let_def split: sum.splits)
  have wf1: "db_wf d1" using resolve_plan_laws(1)[OF rp] wf by blast
  have k1: "contracts_kept d d1"
  proof -
    have "d1 = d \<or> d1 = store_plan (en_start env) (j_id j) p d"
      using rp by (auto simp: resolve_plan_def split: option.splits list.splits)
    then show ?thesis by (auto simp: contracts_kept_def store_plan_def frame_simps)
  qed
  have "run_handler env mx m j c (load_profile j d) p d1 = Inr (d', o1) \<or>
    (\<exists>cp. reuse_checkpoint env m j c p cp d1 = (d', o1))"
    using ex j c rp by (auto simp: execute_def Let_def split: option.splits if_splits)
  then show ?thesis
  proof (elim disjE exE)
    assume "run_handler env mx m j c (load_profile j d) p d1 = Inr (d', o1)"
    from run_handler_contracts[OF iso wf1 this] k1 show ?thesis by (rule contracts_kept_trans[rotated])
  next
    fix cp assume "reuse_checkpoint env m j c p cp d1 = (d', o1)"
    then show ?thesis using k1 by (auto simp: reuse_checkpoint_def Let_def)
  qed
qed

subsection \<open>The pipeline ends\<close>

definition at_rest :: "uuid \<Rightarrow> 'k db \<Rightarrow> bool" where
  "at_rest jid d \<longleftrightarrow> (\<exists>j. get_job jid d = Some j \<and> j_state j \<in> {JS_READY, JS_FAILED, JS_CANCELLED, JS_PAUSED})"

definition present :: "stage_message \<Rightarrow> 'k db \<Rightarrow> bool" where
  "present m d \<longleftrightarrow> db_wf d \<and> get_job (m_job_id m) d \<noteq> None \<and> get_contract (m_contract_id m) d \<noteq> None"

lemma message_ids [simp]:
  "m_job_id (next_message env m st) = m_job_id m" "m_contract_id (next_message env m st) = m_contract_id m"
  "m_job_id (retry_message env m) = m_job_id m" "m_contract_id (retry_message env m) = m_contract_id m"
  "m_continue (next_message env m st)" "m_continue (retry_message env m) = m_continue m"
  by (simp_all add: next_message_def retry_message_def)

lemma execute_present:
  assumes iso: "isolated (en_handlers env (m_stage m))" and pres: "present m d"
    and ex: "execute env mx m d = Inr (d', o1)"
  shows "present m d'"
    "o_next_stage o1 = None \<Longrightarrow> \<not> o_should_retry o1 \<Longrightarrow> at_rest (m_job_id m) d'"
    "o_next_stage o1 = None \<or> \<not> o_should_retry o1"
proof -
  have wf: "db_wf d" and c: "get_contract (m_contract_id m) d \<noteq> None" using pres by (auto simp: present_def)
  have c': "get_contract (m_contract_id m) d' \<noteq> None"
    using contracts_kept_get[OF execute_contracts[OF iso wf ex] c] .
  have "present m d' \<and> (o_next_stage o1 = None \<longrightarrow> \<not> o_should_retry o1 \<longrightarrow> at_rest (m_job_id m) d') \<and>
    (o_next_stage o1 = None \<or> \<not> o_should_retry o1)"
  proof (cases "active d m")
    case True
    from execute_laws[OF iso wf True ex] obtain j where
      "db_wf d'" "get_job (m_job_id m) d' = Some j" "settled mx m o1 (j_state j)"
      by (auto simp: job_settled_def)
    then show ?thesis using c' by (auto simp: present_def at_rest_def settled_def split: if_splits option.splits)
  next
    case False
    obtain j where j: "get_job (m_job_id m) d = Some j" using pres by (auto simp: present_def)
    then have "j_state j \<in> {JS_CANCELLED, JS_PAUSED}" using False c by (auto simp: active_def)
    then have "d' = d \<and> o1 = outcome (j_id j) m SS_CANCELLED" using ex j by (simp add: execute_def)
    then show ?thesis using pres j \<open>j_state j \<in> _\<close> by (auto simp: at_rest_def)
  qed
  then show "present m d'" "o_next_stage o1 = None \<Longrightarrow> \<not> o_should_retry o1 \<Longrightarrow> at_rest (m_job_id m) d'"
    "o_next_stage o1 = None \<or> \<not> o_should_retry o1" by blast+
qed

lemma get_contract_mark_failed: "get_contract k (mark_failed now jid fs err d) = get_contract k d"
  by (simp add: get_contract_def mark_failed_def frame_simps)

lemma mark_failed_rest: "present m d \<Longrightarrow> present m (mark_failed now (m_job_id m) fs err d) \<and>
    at_rest (m_job_id m) (mark_failed now (m_job_id m) fs err d)"
  by (auto simp: present_def at_rest_def transitions_wf job_lookup job_rows get_contract_mark_failed)

lemma queue_failed_rest:
  assumes "present m (fst (fst res))" and "\<And>o1. snd res = Inr o1 \<Longrightarrow> at_rest (m_job_id m) (fst (fst res))"
  shows "present m (fst (queue_failed env m msg st res)) \<and> at_rest (m_job_id m) (fst (queue_failed env m msg st res))"
proof (cases res)
  case (Pair dl r)
  obtain d log where dl: "dl = (d, log)" by (cases dl)
  show ?thesis using assms mark_failed_rest[of m d]
    by (cases r) (auto simp: queue_failed_def Pair dl)
qed

lemma present_messages [simp]:
  "present (next_message env m st) d = present m d" "present (retry_message env m) d = present m d"
  by (simp_all add: present_def)

lemma inline_run_rests:
  assumes iso: "\<And>st a. isolated (en_handlers (E st a) st)"
  shows "present m (fst dl) \<Longrightarrow> m_continue m \<Longrightarrow> inline_run E mx m dl = (dl', res) \<Longrightarrow>
    present m (fst dl') \<and> (\<forall>o1. res = Inr o1 \<longrightarrow> at_rest (m_job_id m) (fst dl'))"
proof (induction "(stage_rank (m_stage m), nat (mx - m_attempt m))" arbitrary: m dl dl' res
    rule: wf_induct_rule[OF wf_lex_prod[OF wf_less_than wf_less_than]])
  case (1 m dl dl' res)
  define env where "env = E (m_stage m) (m_attempt m)"
  define log where "log = snd dl @ [m]"
  show ?case
  proof (cases "execute env mx m (fst dl)")
    case (Inl e)
    then have "inline_run E mx m dl = ((fst dl, log), Inl e)"
      by (simp add: inline_run.simps[of E mx m dl] env_def[symmetric] log_def[symmetric] Let_def)
    then show ?thesis using 1(2,4) by auto
  next
    case (Inr r)
    obtain d1 o1 where r: "r = (d1, o1)" by (cases r)
    note ex = Inr[unfolded r]
    note p1 = execute_present[OF iso[of "m_stage m" "m_attempt m", folded env_def] 1(2) ex]
    show ?thesis
    proof (cases "o_next_stage o1")
      case None
      show ?thesis
      proof (cases "o_should_retry o1")
        case True
        define again where "again = inline_run E mx (retry_message env m) (d1, log)"
        have eq: "(dl', res) = (queue_failed env m ''Could not re-queue the stage for retry.'' (m_stage m) again, Inr o1)"
          using 1(4) ex None True
          by (simp add: inline_run.simps[of E mx m dl] env_def[symmetric] log_def[symmetric] Let_def again_def)
        have "((stage_rank (m_stage (retry_message env m)), nat (mx - m_attempt (retry_message env m))),
            (stage_rank (m_stage m), nat (mx - m_attempt m))) \<in> less_than <*lex*> less_than"
          using execute_next[OF ex] True by (simp add: retry_message_def)
        note ih = 1(1)[OF this _ _ again_def[symmetric, THEN trans, OF surjective_pairing]]
        have "present m (fst (fst again)) \<and> (\<forall>o2. snd again = Inr o2 \<longrightarrow> at_rest (m_job_id m) (fst (fst again)))"
          using ih p1(1) 1(3) by simp
        then show ?thesis using queue_failed_rest[of m again] eq by auto
      next
        case False
        have "(dl', res) = ((d1, log), Inr o1)"
          using 1(4) ex None False
          by (simp add: inline_run.simps[of E mx m dl] env_def[symmetric] log_def[symmetric] Let_def)
        then show ?thesis using p1 None False by auto
      qed
    next
      case (Some st)
      define nxt where "nxt = inline_run E mx (next_message env m st) (d1, log)"
      have nr: "\<not> o_should_retry o1" using p1(3) Some by simp
      have eq: "(dl', res) = (queue_failed env m ''Could not queue the next processing stage. Retry the job.'' st nxt, Inr o1)"
        using 1(3,4) ex Some nr
        by (simp add: inline_run.simps[of E mx m dl] env_def[symmetric] log_def[symmetric] Let_def nxt_def)
      have "((stage_rank (m_stage (next_message env m st)), nat (mx - m_attempt (next_message env m st))),
          (stage_rank (m_stage m), nat (mx - m_attempt m))) \<in> less_than <*lex*> less_than"
        using execute_next_rank[OF ex Some] by (simp add: next_message_def)
      note ih = 1(1)[OF this _ _ nxt_def[symmetric, THEN trans, OF surjective_pairing]]
      have "present m (fst (fst nxt)) \<and> (\<forall>o2. snd nxt = Inr o2 \<longrightarrow> at_rest (m_job_id m) (fst (fst nxt)))"
        using ih p1(1) by simp
      then show ?thesis using queue_failed_rest[of m nxt] eq by auto
    qed
  qed
qed

lemma inline_run_raises:
  "inline_run E mx m dl = (dl', Inl e) \<Longrightarrow> dl' = (fst dl, snd dl @ [m])"
  by (auto simp: inline_run.simps[of E mx m dl] Let_def split: sum.splits)

lemma inline_run_returns:
  "execute (E (m_stage m) (m_attempt m)) mx m (fst dl) = Inr (d1, o1) \<Longrightarrow>
     \<exists>dl'. inline_run E mx m dl = (dl', Inr o1)"
  by (simp add: inline_run.simps[of E mx m dl] Let_def)

text \<open>C2: The inline driver always comes back (the recursion is well founded: each nested run is of a
  later stage or of a later attempt of the same one), and a message for an existing job and contract
  that asks to continue drives its job to rest: \<open>READY\<close>, \<open>FAILED\<close>, or cancelled or paused as it was.
  If the first execution itself raises, the database is as it was and nothing else was run.\<close>

theorem inline_pipeline_comes_to_rest:
  assumes "\<And>st a. isolated (en_handlers (E st a) st)" and "present m d" and "m_continue m"
  shows "\<exists>d' log' res. inline_run E mx m (d, log) = ((d', log'), res) \<and>
    (case res of Inl e \<Rightarrow> d' = d \<and> log' = log @ [m] | Inr o1 \<Rightarrow> present m d' \<and> at_rest (m_job_id m) d')"
proof -
  obtain d' log' res where r: "inline_run E mx m (d, log) = ((d', log'), res)" by (metis prod.exhaust)
  have "case res of Inl e \<Rightarrow> d' = d \<and> log' = log @ [m] | Inr o1 \<Rightarrow> present m d' \<and> at_rest (m_job_id m) d'"
    using inline_run_rests[OF assms(1) _ assms(3) r] inline_run_raises[of E mx m "(d, log)"] assms(2) r
    by (cases res) auto
  with r show ?thesis by blast
qed

theorem inline_pipeline_comes_to_rest_witness:
  "\<exists>d' log' o1. inline_run (\<lambda>st a. fx_runner fx_bad_handler) 3 fx_validate (fx_db, []) = ((d', log'), Inr o1) \<and>
     at_rest 10 d'"
proof -
  obtain d1 o1 where e: "execute (fx_runner fx_bad_handler) 3 fx_validate fx_db = Inr (d1, o1)"
    using fx_execute_bad by blast
  have pres: "present fx_validate fx_db" by (simp add: present_def fx_db_wf fx_rows)
  obtain dl' where r: "inline_run (\<lambda>st a. fx_runner fx_bad_handler) 3 fx_validate (fx_db, []) = (dl', Inr o1)"
    using inline_run_returns[of "\<lambda>st a. fx_runner fx_bad_handler" fx_validate 3 "(fx_db, [])"] e by auto
  obtain d' log' where dl': "dl' = (d', log')" by (cases dl')
  from inline_pipeline_comes_to_rest[of "\<lambda>st a. fx_runner fx_bad_handler" fx_validate fx_db 3 "[]"] pres r
  have "at_rest 10 d'" by (simp add: dl')
  then show ?thesis using r dl' by blast
qed

end
