(* ===== verification/JobsApi.thy ===== *)
theory JobsApi
  imports Pipeline
begin

text \<open>
  The operations a user or operator has on a job: \<open>retry_job\<close>, \<open>cancel_job\<close>, \<open>reprocess_contract\<close> and
  \<open>_enqueue_reprocess\<close> of \<^verbatim>\<open>backend/app/api/v1/jobs.py\<close>, and \<open>_reprocess\<close> of
  \<^verbatim>\<open>backend/app/cli.py\<close>.

  \<^item> A request runs in one transaction: \<open>Inl\<close> rolls it back. \<open>enq\<close> is the dispatch contract of
    \<open>QueueMessage\<close>, called inside it.
  \<^item> \<open>visible\<close> is the caller's access scope (the projects of the caller's memberships), \<open>permitted\<close>
    the answer of \<open>ContractContext.require\<close>, \<open>did\<close> the generated dispatch id.
  \<^item> The audit record and the response body do not act on the modelled state.
\<close>

subsection \<open>Operations\<close>

definition NotFoundError :: "string \<Rightarrow> uuid \<Rightarrow> exn" where
  "NotFoundError resource ident =
     AppErr \<lparr>e_class = ''NotFoundError'', e_code = ''not_found'', e_message = resource @ '' not found.'',
       e_details = [(''resource'', JStr resource), (''id'', JStr (uuid_str ident))],
       e_retryable = False, e_stage = None\<rparr>"

definition PermissionDeniedError :: "string \<Rightarrow> exn" where
  "PermissionDeniedError permission =
     AppErr \<lparr>e_class = ''PermissionDeniedError'', e_code = ''permission_denied'',
       e_message = ''Your role does not grant this permission.'',
       e_details = (if permission = [] then [] else [(''required_permission'', JStr permission)]),
       e_retryable = False, e_stage = None\<rparr>"

definition is_retryable_state :: "job_state \<Rightarrow> bool" where
  "is_retryable_state s \<longleftrightarrow> s \<in> {JS_FAILED, JS_CANCELLED}"

definition is_finished_state :: "job_state \<Rightarrow> bool" where
  "is_finished_state s \<longleftrightarrow> s \<in> {JS_READY, JS_FAILED, JS_CANCELLED}"

definition load_job :: "(uuid \<Rightarrow> bool) \<Rightarrow> uuid \<Rightarrow> 'k db \<Rightarrow> exn + job_row" where
  "load_job visible jid d =
     (case get_job jid d of
        None \<Rightarrow> Inl (NotFoundError ''Job'' jid)
      | Some j \<Rightarrow> if visible (j_project_id j) then Inr j else Inl (NotFoundError ''Job'' jid))"

definition reprocess_message :: "string \<Rightarrow> job_row \<Rightarrow> pipeline_stage \<Rightarrow> job_priority \<Rightarrow> dict \<Rightarrow> stage_message" where
  "reprocess_message did j st priority options =
     \<lparr>m_job_id = j_id j, m_contract_id = j_contract_id j, m_project_id = j_project_id j, m_stage = st,
      m_attempt = 1, m_priority = priority, m_trace = [], m_continue = True, m_options = options,
      m_dispatch_id = did\<rparr>"

definition enqueue_reprocess :: "(instant \<Rightarrow> stage_message \<Rightarrow> int \<Rightarrow> 'q \<Rightarrow> exn + 'q) \<Rightarrow> instant \<Rightarrow> string \<Rightarrow>
    uuid \<Rightarrow> uuid \<Rightarrow> uuid \<Rightarrow> pipeline_stage \<Rightarrow> job_priority \<Rightarrow> dict \<Rightarrow> 'k db \<times> 'q \<Rightarrow>
    exn + ('k db \<times> 'q) \<times> job_row" where
  "enqueue_reprocess enq now did actor contract project from_stage priority options dq =
     (case dq of (d, q) \<Rightarrow>
       (case create_job now contract project priority (Some actor) [] True (Some from_stage) d of
          (d1, j) \<Rightarrow>
            map_sum id (\<lambda>q1. ((d1, q1), j))
              (enq now (reprocess_message did j from_stage priority options) 0 q)))"

definition retry_job :: "(instant \<Rightarrow> stage_message \<Rightarrow> int \<Rightarrow> 'q \<Rightarrow> exn + 'q) \<Rightarrow> (uuid \<Rightarrow> bool) \<Rightarrow> instant \<Rightarrow>
    string \<Rightarrow> uuid \<Rightarrow> uuid \<Rightarrow> 'k db \<times> 'q \<Rightarrow> exn + ('k db \<times> 'q) \<times> job_row" where
  "retry_job enq visible now did actor jid dq =
     (case load_job visible jid (fst dq) of
        Inl e \<Rightarrow> Inl e
      | Inr j \<Rightarrow>
          if \<not> is_retryable_state (j_state j)
          then Inl (ConflictError (''This job is '' @ job_state_value (j_state j) @
            '' and cannot be retried. Only failed or cancelled jobs can be retried.''))
          else enqueue_reprocess enq now did actor (j_contract_id j) (j_project_id j)
            (case j_current_stage j of None \<Rightarrow> PS_VALIDATION | Some st \<Rightarrow> st) (j_priority j)
            [(''force'', JBool True)] dq)"

definition cancel_job :: "(uuid \<Rightarrow> bool) \<Rightarrow> instant \<Rightarrow> uuid \<Rightarrow> 'k db \<Rightarrow> exn + 'k db" where
  "cancel_job visible now jid d =
     (case load_job visible jid d of
        Inl e \<Rightarrow> Inl e
      | Inr j \<Rightarrow>
          if is_finished_state (j_state j)
          then Inl (ConflictError (''This job has already finished ('' @ job_state_value (j_state j) @ '').''))
          else Inr (mark_cancelled now (j_id j) d))"

text \<open>\<open>{**payload.options, "force": payload.force}\<close>.\<close>

definition reprocess_contract :: "(instant \<Rightarrow> stage_message \<Rightarrow> int \<Rightarrow> 'q \<Rightarrow> exn + 'q) \<Rightarrow> bool \<Rightarrow> instant \<Rightarrow>
    string \<Rightarrow> uuid \<Rightarrow> uuid \<Rightarrow> uuid \<Rightarrow> pipeline_stage \<Rightarrow> job_priority \<Rightarrow> dict \<Rightarrow> bool \<Rightarrow> 'k db \<times> 'q \<Rightarrow>
    exn + ('k db \<times> 'q) \<times> job_row" where
  "reprocess_contract enq permitted now did actor contract project from_stage priority options force dq =
     (if \<not> permitted then Inl (PermissionDeniedError ''job:control'')
      else enqueue_reprocess enq now did actor contract project from_stage priority
        (AList.update ''force'' (JBool force) options) dq)"

text \<open>The command line replays the same job. \<open>stages_from\<close> raises for a stage that is not
  dispatched; a missing job ends the command.\<close>

definition cli_reprocess :: "(instant \<Rightarrow> stage_message \<Rightarrow> int \<Rightarrow> 'q \<Rightarrow> exn + 'q) \<Rightarrow> instant \<Rightarrow> string \<Rightarrow> uuid \<Rightarrow>
    pipeline_stage \<Rightarrow> 'k db \<times> 'q \<Rightarrow> exn + 'k db \<times> 'q" where
  "cli_reprocess enq now did jid st dq =
     (case get_job jid (fst dq) of
        None \<Rightarrow> Inl (PyErr ''Exit'' ''1'')
      | Some j \<Rightarrow>
          (case stages_from st of
             None \<Rightarrow> Inl (PyErr ''ValueError'' ''tuple.index(x): x not in tuple'')
           | Some _ \<Rightarrow>
               map_sum id (Pair (fst dq))
                 (enq now (reprocess_message did j st JP_NORMAL [(''force'', JBool True)]) 0 (snd dq))))"

subsection \<open>A retry\<close>

lemma create_job_laws:
  assumes "db_wf d" and "create_job now contract project pr by tr re res d = (d1, j)"
  shows "db_wf d1" "db_jobs d1 = db_jobs d @ [j]" "j_id j = db_next_id d" "db_runs d1 = db_runs d"
    "db_contracts d1 = db_contracts d" "db_derived d1 = db_derived d" "get_job (j_id j) d1 = Some j"
    "db_artifacts d1 = db_artifacts d" "db_profiles d1 = db_profiles d"
proof -
  have d1: "d1 = d\<lparr>db_jobs := db_jobs d @ [j], db_next_id := Suc (db_next_id d)\<rparr>"
    and j: "j_id j = db_next_id d" "j_progress j = 0"
    using assms(2) by (auto simp: create_job_def Let_def)
  from d1 j show "db_jobs d1 = db_jobs d @ [j]" "j_id j = db_next_id d" "db_runs d1 = db_runs d"
    "db_contracts d1 = db_contracts d" "db_derived d1 = db_derived d" "db_artifacts d1 = db_artifacts d"
    "db_profiles d1 = db_profiles d"
    by simp_all
  have new: "\<forall>x \<in> set (db_jobs d). j_id x \<noteq> db_next_id d" using assms(1) by (force simp: wf_defs)
  show "db_wf d1" using assms(1) new j by (force simp: d1 wf_defs less_Suc_eq)
  have "List.find (\<lambda>x. j_id x = db_next_id d) (db_jobs d) = None" using new by (simp add: find_None_iff)
  then have "List.find (\<lambda>x. j_id x = db_next_id d) (db_jobs d @ [j]) = Some j"
    using j(1) by (simp add: find_append)
  then show "get_job (j_id j) d1 = Some j" by (simp add: get_job_def d1 j)
qed

lemma retry_creates:
  assumes "get_job jid d = Some j" and "retry_job enq visible now did actor jid (d, q) = Inr ((d', q'), j')"
  defines "st \<equiv> (case j_current_stage j of None \<Rightarrow> PS_VALIDATION | Some st \<Rightarrow> st)"
  shows "visible (j_project_id j) \<and> is_retryable_state (j_state j) \<and>
    create_job now (j_contract_id j) (j_project_id j) (j_priority j) (Some actor) [] True (Some st) d = (d', j') \<and>
    enq now (reprocess_message did j' st (j_priority j) [(''force'', JBool True)]) 0 q = Inr q'"
  using assms(1,2)
  by (auto simp: retry_job_def load_job_def enqueue_reprocess_def st_def split: if_splits prod.splits sum.splits)

text \<open>A retry that is accepted was asked for a visible job that is failed or cancelled. It leaves
  that job and the whole run history as they are, appends a new queued job for the same contract that
  resumes at the stage the old one stopped at, and puts exactly one message on the queue: that
  stage's first attempt for the new job.\<close>

theorem retry_opens_a_fresh_job:
  assumes "db_wf d" and "get_job jid d = Some j" and "did \<notin> set (map q_dispatch_id (q_rows q))"
    and "retry_job (pg_client qe) visible now did actor jid (d, q) = Inr ((d', q'), j')"
  shows "visible (j_project_id j) \<and> j_state j \<in> {JS_FAILED, JS_CANCELLED} \<and> db_wf d' \<and>
    db_jobs d' = db_jobs d @ [j'] \<and> db_runs d' = db_runs d \<and> j' \<notin> set (db_jobs d) \<and>
    j_state j' = JS_QUEUED \<and> j_contract_id j' = j_contract_id j \<and>
    (\<exists>st. j_resume_from_stage j' = Some st \<and> (j_current_stage j = Some st \<or> j_current_stage j = None \<and> st = PS_VALIDATION) \<and>
      pg_pending q' = add_mset (j_id j', st, 1) (pg_pending q))"
proof -
  define st where "st = (case j_current_stage j of None \<Rightarrow> PS_VALIDATION | Some st \<Rightarrow> st)"
  define m where "m = reprocess_message did j' st (j_priority j) [(''force'', JBool True)]"
  from retry_creates[OF assms(2,4)] have r: "visible (j_project_id j)" "is_retryable_state (j_state j)"
    and c: "create_job now (j_contract_id j) (j_project_id j) (j_priority j) (Some actor) [] True (Some st) d = (d', j')"
    and e: "pg_client qe now m 0 q = Inr q'" by (auto simp: st_def m_def)
  have j': "j_state j' = JS_QUEUED" "j_contract_id j' = j_contract_id j" "j_resume_from_stage j' = Some st"
    using c by (auto simp: create_job_def Let_def)
  have "j' \<notin> set (db_jobs d)" using create_job_laws(3)[OF assms(1) c] assms(1) by (force simp: wf_defs)
  moreover have "\<not> pg_known m q" using assms(3) by (simp add: pg_known_def m_def reprocess_message_def)
  ultimately show ?thesis
    using r create_job_laws[OF assms(1) c] j' pg.enqueue_new[OF e]
    by (auto simp: is_retryable_state_def m_def reprocess_message_def message_key_def st_def split: option.splits)
qed

subsection \<open>A retry of a stage that already has a current checkpoint\<close>

lemma checkpoints_checkpoint:
  assumes "checkpoints cid d st = Some r"
  shows "\<exists>cp. checkpoint cid st d = Some cp"
proof -
  have "filter (\<lambda>r. r_stage r = st) (sort_key r_attempt (succeeded_runs cid d)) \<noteq> []"
    using assms unfolding checkpoints_def checkpoints_fold by (auto split: if_splits)
  then obtain x where "x \<in> set (sort_key r_attempt (succeeded_runs cid d))" "r_stage x = st"
    by (auto simp: filter_empty_conv)
  then have "filter (\<lambda>r. r_stage r = st) (succeeded_runs cid d) \<noteq> []" by (auto simp: filter_empty_conv)
  then have "checkpoint cid st d \<noteq> None" by (simp add: checkpoint_def)
  then show ?thesis by blast
qed

definition reusable :: "'k runner_env \<Rightarrow> uuid \<Rightarrow> 'k db \<Rightarrow> pipeline_stage \<Rightarrow> bool" where
  "reusable env cid d st \<longleftrightarrow> handler_registered (en_imports env) st \<and> handler_cacheable st \<and>
     (\<exists>r. checkpoints cid d st = Some r \<and> matches (versions_for (en_versions env) st None) (Some (r_versions r)))"

lemma reusable_plan:
  assumes scope: "stages_from st = Some scope" and all: "list_all (reusable env (c_id c) d) scope"
    and prior: "missing_prerequisites i (checkpoints (c_id c) d) = []" and idx: "stage_index st = Some i"
  shows "\<exists>p. plan (en_versions env) (en_imports env) j c None (Some st) False (checkpoints (c_id c) d) = Inr p \<and>
    map ps_stage (ep_stages p) = scope \<and> list_all (\<lambda>x. ps_action x = ''skip'') (ep_stages p)"
proof -
  define judge where "judge = (\<lambda>s. plan_stage (en_versions env) (en_imports env) s None (checkpoints (c_id c) d s) False)"
  have "list_all (\<lambda>s. ps_action (judge s) = ''skip'') scope"
    using all by (simp add: list_all_iff reusable_def judge_def plan_stage_skip_iff)
  then have skips: "list_all (\<lambda>x. ps_action x = ''skip'') (plan_scope judge False scope)"
    by (induction scope) (simp_all add: Let_def)
  obtain p where p: "plan (en_versions env) (en_imports env) j c None (Some st) False (checkpoints (c_id c) d) = Inr p"
    using scope prior idx by (simp add: plan_def validate_prerequisites_def Let_def)
  have eq: "ep_stages p = plan_scope judge False scope"
    using plan_ep_stages[OF p] scope by (simp add: scope_of_def judge_def)
  have "map ps_stage (ep_stages p) = scope" unfolding eq by (rule plan_scope_stages) (simp add: judge_def)
  with p skips eq show ?thesis by auto
qed

lemma next_after_skips:
  assumes "list_all (\<lambda>x. ps_action x = ''skip'') (ep_stages p)"
  shows "next_after p st = None"
proof -
  have "first_after n xs = None" if "list_all (\<lambda>x. ps_action x = ''skip'') xs" for n xs
    using that by (induction xs) (auto simp: should_run_def split: option.splits)
  then show ?thesis using assms by (simp add: next_after_def split: option.splits)
qed

lemma for_stage_member:
  assumes "st \<in> set (map ps_stage (ep_stages p))"
  shows "\<exists>x. for_stage p st = Some x \<and> x \<in> set (ep_stages p)"
proof -
  have "List.find (\<lambda>x. ps_stage x = st) (ep_stages p) \<noteq> None" using assms by (auto simp: find_None_iff)
  then show ?thesis by (auto simp: for_stage_def dest: find_SomeD)
qed

lemma stages_from_head: "stages_from st = Some scope \<Longrightarrow> st \<in> set scope"
  by (cases st) (auto simp: stage_order_simps)

text \<open>The first execution of a fresh resumed job whose whole scope is reusable.\<close>

lemma execute_reuses:
  assumes j: "get_job (m_job_id m) d = Some j" "j_state j = JS_QUEUED" "j_execution_plan j = empty_plan_doc"
      "j_resume_from_stage j = Some (m_stage m)" "j_profile_id j = None"
    and c: "get_contract (m_contract_id m) d = Some c"
    and scope: "stages_from (m_stage m) = Some scope" "list_all (reusable env (c_id c) d) scope"
    and prior: "stage_index (m_stage m) = Some i" "missing_prerequisites i (checkpoints (c_id c) d) = []"
  shows "\<exists>d1 p cp. d1 = store_plan (en_start env) (m_job_id m) p d \<and> next_after p (m_stage m) = None \<and>
    execute env mx m d = Inr (reuse_checkpoint env m j c p cp d1)"
proof -
  obtain p where p: "plan (en_versions env) (en_imports env) j c None (Some (m_stage m)) False (checkpoints (c_id c) d) = Inr p"
      "map ps_stage (ep_stages p) = scope" "list_all (\<lambda>x. ps_action x = ''skip'') (ep_stages p)"
    using reusable_plan[OF scope prior(2,1)] by blast
  define d1 where "d1 = store_plan (en_start env) (m_job_id m) p d"
  have jid: "j_id j = m_job_id m" by (rule get_job_id[OF j(1)])
  have rp: "resolve_plan env (en_start env) j c None d = Inr (d1, p)"
    using p(1) by (simp add: resolve_plan_def j empty_plan_doc_def d1_def jid)
  obtain x where x: "for_stage p (m_stage m) = Some x" "\<not> should_run x"
    using for_stage_member[of "m_stage m" p] stages_from_head[OF scope(1)] p(2,3)
    by (auto simp: list_all_iff should_run_def)
  have "reusable env (c_id c) d (m_stage m)" using stages_from_head[OF scope(1)] scope(2) by (simp add: list_all_iff)
  then obtain cp where "checkpoint (c_id c) (m_stage m) d = Some cp"
    unfolding reusable_def using checkpoints_checkpoint by blast
  then have cp: "checkpoint (c_id c) (m_stage m) d1 = Some cp"
    by (simp add: checkpoint_def succeeded_runs_def d1_def store_plan_def frame_simps)
  have "execute env mx m d = Inr (reuse_checkpoint env m j c p cp d1)"
    by (simp add: execute_def j c load_profile_def rp x cp)
  with next_after_skips[OF p(3)] d1_def show ?thesis by blast
qed

text \<open>The \<open>force\<close> option that a retry puts on its message does not reach the planner: when the
  stage that failed and every later one have an older success stamped with the versions now in
  force, the first execution of the retried job runs no handler. It records one skip, asks for no
  further stage, and marks the job \<open>READY\<close>.\<close>

theorem forced_retry_reuses_current_checkpoints:
  assumes "db_wf d" and "get_job jid d = Some j" and "get_contract (j_contract_id j) d = Some c"
    and "retry_job enq visible now did actor jid (d, q) = Inr ((d', q'), j')"
    and "m = reprocess_message did j' (the (j_resume_from_stage j')) (j_priority j) [(''force'', JBool True)]"
    and "stages_from (m_stage m) = Some scope" and "list_all (reusable env (j_contract_id j) d) scope"
    and "stage_index (m_stage m) = Some i" and "missing_prerequisites i (checkpoints (j_contract_id j) d) = []"
  shows "\<exists>d2 o1 r j2. execute env mx m d' = Inr (d2, o1) \<and> o_status o1 = SS_SKIPPED \<and>
    o_next_stage o1 = None \<and> db_derived d2 = db_derived d \<and> db_runs d2 = db_runs d @ [r] \<and>
    r_status r = SS_SKIPPED \<and> get_job (j_id j') d2 = Some j2 \<and> j_state j2 = JS_READY"
proof -
  define st where "st = (case j_current_stage j of None \<Rightarrow> PS_VALIDATION | Some st \<Rightarrow> st)"
  from retry_creates[OF assms(2,4)]
  have cr: "create_job now (j_contract_id j) (j_project_id j) (j_priority j) (Some actor) [] True (Some st) d = (d', j')"
    by (simp add: st_def)
  note laws = create_job_laws[OF assms(1) cr]
  have j': "j_state j' = JS_QUEUED" "j_execution_plan j' = empty_plan_doc" "j_resume_from_stage j' = Some st"
      "j_profile_id j' = None" "j_contract_id j' = j_contract_id j"
    using cr by (auto simp: create_job_def Let_def)
  have m: "m_job_id m = j_id j'" "m_contract_id m = j_contract_id j" "m_stage m = st"
    using j' by (simp_all add: assms(5) reprocess_message_def)
  have c: "get_contract (m_contract_id m) d' = Some c"
    using assms(3) laws(5) by (simp add: m get_contract_def)
  have cid: "c_id c = j_contract_id j" by (rule get_contract_id[OF assms(3)])
  have cps: "checkpoints k d' = checkpoints k d" for k
    using laws(4) by (simp add: checkpoints_def succeeded_runs_def)
  have reus: "reusable env k d' = reusable env k d" for k by (rule ext) (simp add: reusable_def cps)
  have "list_all (reusable env (c_id c) d') scope" "missing_prerequisites i (checkpoints (c_id c) d') = []"
    using assms(7,9) reus by (simp_all add: cps cid)
  with execute_reuses[of m d' j' c scope env i mx] laws(7) j' c assms(6,8) m
  obtain d1 p cp where d1: "d1 = store_plan (en_start env) (j_id j') p d'" "next_after p st = None"
    and ex: "execute env mx m d' = Inr (reuse_checkpoint env m j' c p cp d1)" by auto
  obtain d2 o1 where r: "reuse_checkpoint env m j' c p cp d1 = (d2, o1)" by fastforce
  obtain run where run: "db_runs d2 = db_runs d1 @ [run]" "mirrors env m o1 run"
    using reuse_runs[OF r] m cid by auto
  have o1: "o_status o1 = SS_SKIPPED" "o_next_stage o1 = None"
    using r d1(2) m by (auto simp: reuse_checkpoint_def Let_def outcome_def)
  have "get_job (j_id j') d1 \<noteq> None" using laws(7) by (simp add: d1 job_lookup)
  then have ready: "\<exists>j2. get_job (j_id j') d2 = Some j2 \<and> j_state j2 = JS_READY"
    using r d1(2) m by (auto simp: reuse_checkpoint_def Let_def finalise_if_last_def job_lookup job_rows)
  have "db_derived d2 = db_derived d"
    using r d1 m laws(6) by (auto simp: reuse_checkpoint_def Let_def finalise_if_last_def mark_processed_def
        mark_ready_def record_skipped_def store_plan_def update_job_def update_contract_def)
  moreover have "db_runs d1 = db_runs d" using laws(4) by (simp add: d1 store_plan_def frame_simps)
  ultimately show ?thesis using ex r run o1 ready by (auto simp: mirrors_def)
qed

subsection \<open>Witnesses\<close>

text \<open>A contract processed once in full, whose second job failed in the parser.\<close>

definition fx_failed_job :: job_row where
  "fx_failed_job = fx_job\<lparr>j_state := JS_FAILED, j_current_stage := Some PS_PARSER\<rparr>"

definition fx_history :: "unit db" where
  "fx_history = fx_db\<lparr>db_jobs := [fx_failed_job],
     db_runs := map (\<lambda>(st, n). (fx_run st)\<lparr>r_id := n\<rparr>) (zip STAGE_ORDER [40..<46])\<rparr>"

lemma fx_history_wf: "db_wf fx_history"
  by (simp add: wf_defs fx_history_def fx_failed_job_def STAGE_ORDER_def run_key_def upt_rec fx_defs)

lemma fx_history_job: "get_job 10 fx_history = Some fx_failed_job"
  by (simp add: get_job_def fx_history_def fx_failed_job_def fx_job_def)

lemma fx_history_checkpoint:
  assumes "st \<in> set STAGE_ORDER"
  shows "\<exists>n. checkpoints 20 fx_history st = Some ((fx_run st)\<lparr>r_id := n\<rparr>)"
proof -
  have "sorted (map r_attempt (succeeded_runs 20 fx_history))"
    by (simp add: succeeded_runs_def fx_history_def STAGE_ORDER_def upt_rec fx_run_def)
  then have "sort_key r_attempt (succeeded_runs 20 fx_history) = db_runs fx_history"
    by (simp add: sort_key_id_if_sorted) (simp add: succeeded_runs_def fx_history_def STAGE_ORDER_def upt_rec fx_run_def)
  then show ?thesis using assms
    unfolding checkpoints_def checkpoints_fold
    by (auto simp: fx_history_def STAGE_ORDER_def upt_rec) (simp_all add: fx_run_def)
qed

lemma fx_history_reusable:
  assumes "st \<in> set STAGE_ORDER" and "st \<noteq> PS_VALIDATION"
  shows "reusable (fx_runner h) 20 fx_history st"
proof -
  obtain n where "checkpoints 20 fx_history st = Some ((fx_run st)\<lparr>r_id := n\<rparr>)"
    using fx_history_checkpoint[OF assms(1)] by blast
  moreover have "r_versions ((fx_run st)\<lparr>r_id := n\<rparr>) = r_versions (fx_run st)" by simp
  ultimately show ?thesis using fx_registered[OF assms(1)] fx_current[of st] assms(2)
    by (simp add: reusable_def handler_cacheable_def fx_runner_def)
qed

lemma fx_retry:
  "\<exists>d' q' j'. retry_job (pg_client fx_env) (\<lambda>p. True) 300 ''again'' 5 10 (fx_history, empty_queue)
     = Inr ((d', q'), j') \<and> j_resume_from_stage j' = Some PS_PARSER"
  by (simp add: retry_job_def load_job_def fx_history_job enqueue_reprocess_def create_job_def Let_def
      is_retryable_state_def pg_client_def pg_enqueue_def empty_queue_def fx_env_def reprocess_message_def
      fx_failed_job_def)

theorem retry_opens_a_fresh_job_witness:
  "\<exists>d' q' j'. retry_job (pg_client fx_env) (\<lambda>p. True) 300 ''again'' 5 10 (fx_history, empty_queue)
     = Inr ((d', q'), j') \<and> db_jobs d' = [fx_failed_job, j'] \<and> pg_pending q' = {#(j_id j', PS_PARSER, 1)#}"
proof -
  obtain d' q' j' where r: "retry_job (pg_client fx_env) (\<lambda>p. True) 300 ''again'' 5 10 (fx_history, empty_queue)
     = Inr ((d', q'), j')" "j_resume_from_stage j' = Some PS_PARSER" using fx_retry by blast
  have "''again'' \<notin> set (map q_dispatch_id (q_rows empty_queue))" by (simp add: empty_queue_def)
  from retry_opens_a_fresh_job[OF fx_history_wf fx_history_job this r(1)] r show ?thesis
    by (auto simp: fx_history_def pg_pending_def empty_queue_def)
qed

theorem forced_retry_reuses_current_checkpoints_witness:
  "\<exists>d' q' j' d2 o1 j2. retry_job (pg_client fx_env) (\<lambda>p. True) 300 ''again'' 5 10 (fx_history, empty_queue)
       = Inr ((d', q'), j') \<and>
     execute (fx_runner fx_bad_handler) 3 (reprocess_message ''again'' j' PS_PARSER JP_NORMAL [(''force'', JBool True)]) d'
       = Inr (d2, o1) \<and> get_job (j_id j') d2 = Some j2 \<and> j_state j2 = JS_READY"
proof -
  obtain d' q' j' where r: "retry_job (pg_client fx_env) (\<lambda>p. True) 300 ''again'' 5 10 (fx_history, empty_queue)
     = Inr ((d', q'), j')" "j_resume_from_stage j' = Some PS_PARSER" using fx_retry by blast
  define m where "m = reprocess_message ''again'' j' (the (j_resume_from_stage j')) (j_priority fx_failed_job)
    [(''force'', JBool True)]"
  have pr: "j_priority fx_failed_job = JP_NORMAL" by (simp add: fx_failed_job_def fx_job_def)
  have st: "m_stage m = PS_PARSER" using r(2) by (simp add: m_def reprocess_message_def)
  have cid: "j_contract_id fx_failed_job = 20" by (simp add: fx_failed_job_def fx_job_def)
  have c: "get_contract (j_contract_id fx_failed_job) fx_history = Some fx_contract"
    unfolding cid by (simp add: get_contract_def fx_history_def fx_db_def fx_contract_def)
  have scope: "stages_from (m_stage m) = Some (tl STAGE_ORDER)" "stage_index (m_stage m) = Some 1"
    by (simp_all add: st stage_order_simps)
  have reus: "list_all (reusable (fx_runner fx_bad_handler) (j_contract_id fx_failed_job) fx_history) (tl STAGE_ORDER)"
    unfolding cid by (simp add: STAGE_ORDER_def fx_history_reusable[unfolded STAGE_ORDER_def])
  have "\<exists>x. checkpoints 20 fx_history PS_VALIDATION = Some x"
    using fx_history_checkpoint[of PS_VALIDATION] by (auto simp: STAGE_ORDER_def)
  then have prior: "missing_prerequisites 1 (checkpoints (j_contract_id fx_failed_job) fx_history) = []"
    unfolding cid by (auto simp: missing_prerequisites_def STAGE_ORDER_def)
  from forced_retry_reuses_current_checkpoints[OF fx_history_wf fx_history_job c r(1) m_def scope(1) reus scope(2) prior, of 3]
  have "\<exists>d2 o1 j2. execute (fx_runner fx_bad_handler) 3 m d' = Inr (d2, o1) \<and> get_job (j_id j') d2 = Some j2 \<and>
      j_state j2 = JS_READY" by blast
  moreover have "m = reprocess_message ''again'' j' PS_PARSER JP_NORMAL [(''force'', JBool True)]"
    using r(2) pr by (simp add: m_def)
  ultimately show ?thesis using r(1) by blast
qed

subsection \<open>A cancellation\<close>

text \<open>C23: Cancelling succeeds exactly for a visible job that is not finished. It changes nothing but
  that job's row, and from then on every message of the job still queued or in flight is consumed
  without running a stage, changing the database or dispatching anything.\<close>

theorem cancel_stops_the_job:
  assumes "get_job jid d = Some j"
  shows "(case cancel_job visible now jid d of
      Inl e \<Rightarrow> \<not> visible (j_project_id j) \<or> j_state j \<in> {JS_READY, JS_FAILED, JS_CANCELLED}
    | Inr d' \<Rightarrow> visible (j_project_id j) \<and> j_state j \<notin> {JS_READY, JS_FAILED, JS_CANCELLED} \<and>
        db_runs d' = db_runs d \<and> db_artifacts d' = db_artifacts d \<and> db_contracts d' = db_contracts d \<and>
        (\<forall>k. k \<noteq> jid \<longrightarrow> get_job k d' = get_job k d) \<and>
        (\<forall>m. m_job_id m = jid \<longrightarrow>
           (\<exists>o1. run_stage enq env mx m (d', q) = ((d', q), Inr o1) \<and> o_status o1 = SS_CANCELLED)))"
proof -
  have jid: "j_id j = jid" by (rule get_job_id[OF assms])
  have c: "get_job jid (mark_cancelled now jid d) = Some ((cancelled_row now j)\<lparr>j_updated_at := now\<rparr>)"
    using assms by (simp add: mark_cancelled_def cancelled.get_job_step)
  have "\<forall>m. m_job_id m = jid \<longrightarrow>
     (\<exists>o1. run_stage enq env mx m (mark_cancelled now jid d, q) = ((mark_cancelled now jid d, q), Inr o1) \<and>
        o_status o1 = SS_CANCELLED)"
    using c by (simp add: run_stage_def execute_def cancelled_row_def)
  then show ?thesis
    using assms by (simp add: cancel_job_def load_job_def is_finished_state_def jid)
      (simp add: mark_cancelled_def cancelled.get_job_step frame_simps)
qed

theorem cancel_stops_the_job_witness:
  "\<exists>d'. cancel_job (\<lambda>p. True) 300 10 fx_db = Inr d' \<and>
     (\<exists>o1. run_stage (\<lambda>t m s q. Inr (m # q)) (fx_runner fx_ok_handler) 3 fx_validate (d', []) = ((d', []), Inr o1) \<and>
        o_status o1 = SS_CANCELLED)"
proof -
  have "j_state fx_job = JS_QUEUED" by (simp add: fx_job_def)
  with cancel_stops_the_job[OF fx_rows(1), where visible = "\<lambda>p. True" and now = 300
      and enq = "\<lambda>t m s q. Inr (m # q)" and env = "fx_runner fx_ok_handler" and mx = 3 and q = "[]"]
  show ?thesis by (cases "cancel_job (\<lambda>p. True) 300 10 fx_db") simp_all
qed

end
