(* ===== verification/Maintenance.thy ===== *)
theory Maintenance
  imports JobsApi
begin

text \<open>
  The periodic sweeps of \<^verbatim>\<open>backend/app/orchestrator/maintenance.py\<close>: stalled jobs, expired leases,
  exports and alerts, under one advisory lock. The export and alert sweeps act on other tables and
  are parameters: \<open>recov\<close> and \<open>purge\<close> of \<open>ExportService\<close> and \<open>evaluate\<close> of \<open>AlertEvaluator\<close> (whether
  the alert set changed). A sweep that raises rolls its own transaction back and lets the rest run.
\<close>

subsection \<open>Operations\<close>

text \<open>\<open>repository.update(job, state=FAILED, error_message=\<dots>)\<close>: \<open>BaseRepository.update\<close> sets only
  attributes that exist, and a job has no \<open>error_message\<close>.\<close>

definition stalled_row :: "job_row \<Rightarrow> job_row" where
  "stalled_row j = j\<lparr>j_state := JS_FAILED\<rparr>"

definition reclaim_stalled_jobs :: "instant \<Rightarrow> int \<Rightarrow> 'k db \<Rightarrow> 'k db \<times> nat" where
  "reclaim_stalled_jobs now timeout_minutes d =
     (let stalled = find_stalled now timeout_minutes d
      in (fold (\<lambda>j. update_job now (j_id j) stalled_row) stalled d, length stalled))"

record sweep_counts =
  sw_jobs :: nat
  sw_leases :: nat
  sw_exports_recovered :: nat
  sw_exports_purged :: nat
  sw_alerts :: nat

definition no_changes :: sweep_counts where
  "no_changes = \<lparr>sw_jobs = 0, sw_leases = 0, sw_exports_recovered = 0, sw_exports_purged = 0, sw_alerts = 0\<rparr>"

text \<open>The recovered count is assigned before the purge is called, so it stays when the purge raises
  and the recovery is rolled back.\<close>

definition export_sweep :: "('k db \<Rightarrow> exn + 'k db \<times> nat) \<Rightarrow> ('k db \<Rightarrow> exn + 'k db \<times> nat) \<Rightarrow>
    'k db \<times> sweep_counts \<Rightarrow> 'k db \<times> sweep_counts" where
  "export_sweep recov purge dc =
     (case dc of (d, c) \<Rightarrow>
       (case recov d of
          Inl _ \<Rightarrow> (d, c)
        | Inr (d1, n) \<Rightarrow>
            (case purge d1 of
               Inl _ \<Rightarrow> (d, c\<lparr>sw_exports_recovered := n\<rparr>)
             | Inr (d2, k) \<Rightarrow> (d2, c\<lparr>sw_exports_recovered := n, sw_exports_purged := k\<rparr>))))"

definition alert_sweep :: "bool \<Rightarrow> ('k db \<Rightarrow> exn + 'k db \<times> bool) \<Rightarrow> 'k db \<times> sweep_counts \<Rightarrow>
    'k db \<times> sweep_counts" where
  "alert_sweep include_alerts evaluate dc =
     (if \<not> include_alerts then dc
      else case dc of (d, c) \<Rightarrow>
        (case evaluate d of
           Inl _ \<Rightarrow> (d, c)
         | Inr (d1, changed) \<Rightarrow> (d1, if changed then c\<lparr>sw_alerts := 1\<rparr> else c)))"

definition run_maintenance_sweep :: "bool \<Rightarrow> bool \<Rightarrow> instant \<Rightarrow> int \<Rightarrow> bool \<Rightarrow>
    ('k db \<Rightarrow> exn + 'k db \<times> nat) \<Rightarrow> ('k db \<Rightarrow> exn + 'k db \<times> nat) \<Rightarrow> ('k db \<Rightarrow> exn + 'k db \<times> bool) \<Rightarrow>
    'k db \<times> stage_queue \<Rightarrow> ('k db \<times> stage_queue) \<times> sweep_counts" where
  "run_maintenance_sweep acquired postgres now timeout_minutes include_alerts recov purge evaluate dq =
     (if \<not> acquired then (dq, no_changes)
      else case dq of (d, q) \<Rightarrow>
        (let (d1, jobs) = reclaim_stalled_jobs now timeout_minutes d;
             (q1, leases) = (if postgres then reclaim_stale now (timeout_minutes * 60) q else (q, 0));
             (d2, c) = alert_sweep include_alerts evaluate (export_sweep recov purge
               (d1, no_changes\<lparr>sw_jobs := jobs, sw_leases := leases\<rparr>))
         in ((d2, q1), c)))"

text \<open>One turn of \<open>maintenance_loop\<close>: whether the alerts are due, and when they are next.\<close>

definition maintenance_tick :: "int \<Rightarrow> int \<Rightarrow> int \<Rightarrow> bool \<times> int" where
  "maintenance_tick alert_interval now next_alert_sweep =
     (let due = next_alert_sweep \<le> now in (due, if due then now + alert_interval else next_alert_sweep))"

subsection \<open>What a sweep does\<close>

interpretation stalled: job_transition stalled_row
  by unfold_locales (auto simp: stalled_row_def)

lemma reclaim_fold:
  assumes "distinct (map j_id js)"
  shows "get_job k (fold (\<lambda>j. update_job now (j_id j) stalled_row) js d) =
    map_option (\<lambda>j. if k \<in> j_id ` set js then (stalled_row j)\<lparr>j_updated_at := now\<rparr> else j) (get_job k d)"
  using assms
proof (induction js arbitrary: d)
  case Nil
  then show ?case by (cases "get_job k d") simp_all
next
  case (Cons x js)
  then show ?case by (cases "get_job k d") (auto simp: stalled.get_job_step)
qed

lemma find_stalled_ids:
  assumes "db_wf d" and "get_job k d = Some j"
  shows "k \<in> j_id ` set (find_stalled now t d) \<longleftrightarrow> is_stalled (now - t * 60000000) j"
proof -
  have j: "j \<in> set (db_jobs d)" "j_id j = k" using assms(2) by (auto simp: get_job_def dest: find_SomeD)
  have inj: "inj_on j_id (set (db_jobs d))" using assms(1) by (simp add: wf_defs distinct_map)
  show ?thesis
  proof
    assume "k \<in> j_id ` set (find_stalled now t d)"
    then obtain x where x: "x \<in> set (db_jobs d)" "j_id x = k" "is_stalled (now - t * 60000000) x"
      by (auto simp: find_stalled_def)
    have "x = j" by (rule inj_onD[OF inj]) (simp_all add: x j)
    with x(3) show "is_stalled (now - t * 60000000) j" by simp
  next
    assume "is_stalled (now - t * 60000000) j"
    then have "j \<in> set (find_stalled now t d)" using j(1) by (simp add: find_stalled_def)
    then show "k \<in> j_id ` set (find_stalled now t d)" using j(2) by blast
  qed
qed

lemma reclaim_stalled_job:
  assumes "db_wf d" and "get_job k d = Some j"
  shows "get_job k (fst (reclaim_stalled_jobs now t d)) =
    Some (if is_stalled (now - t * 60000000) j then j\<lparr>j_state := JS_FAILED, j_updated_at := now\<rparr> else j)"
proof -
  have "distinct (map j_id (find_stalled now t d))"
    using assms(1) by (simp add: find_stalled_def distinct_map_filter wf_defs)
  from reclaim_fold[OF this, of k now d] find_stalled_ids[OF assms, of now t] assms(2) show ?thesis
    by (simp add: reclaim_stalled_jobs_def Let_def stalled_row_def)
qed

lemma fold_update_frame:
  "db_contracts (fold (\<lambda>j. update_job now (j_id j) f) js e) = db_contracts e"
  "db_runs (fold (\<lambda>j. update_job now (j_id j) f) js e) = db_runs e"
  by (induction js arbitrary: e) (simp_all add: frame_simps)

lemma reclaim_frame:
  "db_contracts (fst (reclaim_stalled_jobs now t d)) = db_contracts d"
  "db_runs (fst (reclaim_stalled_jobs now t d)) = db_runs d"
  by (simp_all add: reclaim_stalled_jobs_def Let_def fold_update_frame)

definition elsewhere :: "('k db \<Rightarrow> exn + 'k db \<times> 'r) \<Rightarrow> bool" where
  "elsewhere f \<longleftrightarrow> (\<forall>d d' r. f d = Inr (d', r) \<longrightarrow> db_jobs d' = db_jobs d \<and> db_contracts d' = db_contracts d \<and>
     db_runs d' = db_runs d)"

lemma other_sweeps:
  assumes "elsewhere recov" and "elsewhere purge" and "elsewhere evaluate"
    and "alert_sweep ia evaluate (export_sweep recov purge (d, c)) = (d', c')"
  shows "db_jobs d' = db_jobs d \<and> db_contracts d' = db_contracts d \<and> db_runs d' = db_runs d \<and>
    sw_jobs c' = sw_jobs c \<and> sw_leases c' = sw_leases c"
proof -
  obtain e x where e: "export_sweep recov purge (d, c) = (e, x)" by fastforce
  have 1: "db_jobs e = db_jobs d \<and> db_contracts e = db_contracts d \<and> db_runs e = db_runs d \<and>
      sw_jobs x = sw_jobs c \<and> sw_leases x = sw_leases c"
    using e assms(1,2) by (auto simp: export_sweep_def elsewhere_def split: sum.splits prod.splits) metis+
  have "db_jobs d' = db_jobs e \<and> db_contracts d' = db_contracts e \<and> db_runs d' = db_runs e \<and>
      sw_jobs c' = sw_jobs x \<and> sw_leases c' = sw_leases x"
    using assms(4) assms(3) unfolding e by (auto simp: alert_sweep_def elsewhere_def split: sum.splits if_splits)
  with 1 show ?thesis by simp
qed

text \<open>A sweep that got the lock fails exactly the stalled jobs and counts them, and leaves every other
  job as it was. It also returns the expired leases, with the same timeout, so the row of a job it has
  just failed is delivered again; and as failing a job does not make a message of it inactive, that
  delivery runs the stage. A sweep without the lock changes nothing.\<close>

theorem sweep_fails_stalled_jobs:
  assumes "db_wf d" and "q_wf q" and "elsewhere recov" and "elsewhere purge" and "elsewhere evaluate"
    and "run_maintenance_sweep acquired True now timeout ia recov purge evaluate (d, q) = ((d', q'), c)"
  shows "if acquired
    then sw_jobs c = length (find_stalled now timeout d) \<and>
      (\<forall>k j. get_job k d = Some j \<longrightarrow> get_job k d' =
         Some (if is_stalled (now - timeout * 60000000) j then j\<lparr>j_state := JS_FAILED, j_updated_at := now\<rparr> else j)) \<and>
      (\<forall>r \<in> set (q_rows q). stale now (timeout * 60) r \<and> q_attempt r < q_max_attempts r \<longrightarrow>
         (\<exists>r'. row_of (q_id r) q' = Some r' \<and> q_state r' = SQ_PENDING \<and> q_available_at r' = now)) \<and>
      (\<forall>m. active d m \<longrightarrow> active d' m)
    else d' = d \<and> q' = q \<and> c = no_changes"
proof (cases acquired)
  case False
  then show ?thesis using assms(6) by (simp add: run_maintenance_sweep_def)
next
  case True
  define d1 where "d1 = fst (reclaim_stalled_jobs now timeout d)"
  have jobs: "reclaim_stalled_jobs now timeout d = (d1, length (find_stalled now timeout d))"
    by (simp add: d1_def reclaim_stalled_jobs_def Let_def)
  obtain q1 n where q1: "reclaim_stale now (timeout * 60) q = (q1, n)" by fastforce
  from assms(6) True have q': "q' = q1" and
    o: "alert_sweep ia evaluate (export_sweep recov purge
      (d1, no_changes\<lparr>sw_jobs := length (find_stalled now timeout d), sw_leases := n\<rparr>)) = (d', c)"
    by (auto simp: run_maintenance_sweep_def jobs q1 split: prod.splits)
  note same = other_sweeps[OF assms(3-5) o]
  have look: "get_job k d' = get_job k d1" for k using same by (simp add: get_job_def)
  have job: "get_job k d' = Some (if is_stalled (now - timeout * 60000000) j
      then j\<lparr>j_state := JS_FAILED, j_updated_at := now\<rparr> else j)" if "get_job k d = Some j" for k j
    using reclaim_stalled_job[OF assms(1) that] by (simp add: look d1_def)
  have con: "get_contract k d' = get_contract k d" for k
    using same by (simp add: get_contract_def d1_def reclaim_frame)
  have act: "active d' m" if "active d m" for m
    using that job[of "m_job_id m"] by (fastforce simp: active_def con)
  have rows: "\<exists>r'. row_of (q_id r) q' = Some r' \<and> q_state r' = SQ_PENDING \<and> q_available_at r' = now"
    if "r \<in> set (q_rows q)" "stale now (timeout * 60) r" "q_attempt r < q_max_attempts r" for r
  proof -
    have "row_of (q_id r) q = Some r" using row_of_Some[OF assms(2)] that(1) by blast
    then have "row_of (q_id r) q1 = Some (reclaimed_row now r)"
      using q1 that(2) by (auto simp: reclaim_stale_def reclaim_upd.row_of_update)
    then show ?thesis using that(3) by (simp add: q' reclaimed_row_def)
  qed
  show ?thesis using True job act rows same by simp
qed

text \<open>A job whose worker died between two stages, with its leased row.\<close>

definition fx_dead_worker :: "unit db" where
  "fx_dead_worker = fx_db\<lparr>db_jobs := [fx_job\<lparr>j_state := JS_PARSING\<rparr>]\<rparr>"

lemma fx_elsewhere: "elsewhere (\<lambda>d. Inr (d, x))"
  by (simp add: elsewhere_def)

theorem sweep_fails_stalled_jobs_witness:
  "\<exists>d' q' c j. run_maintenance_sweep True True 3000000000 45 False (\<lambda>d. Inr (d, 0)) (\<lambda>d. Inr (d, 0))
       (\<lambda>d. Inr (d, False)) (fx_dead_worker, fx_queue) = ((d', q'), c) \<and>
     sw_jobs c = 1 \<and> get_job 10 d' = Some j \<and> j_state j = JS_FAILED \<and> active d' fx_validate"
proof -
  have wf: "db_wf fx_dead_worker" using fx_db_wf by (simp add: wf_defs fx_dead_worker_def fx_db_def fx_job_def)
  have j: "get_job 10 fx_dead_worker = Some (fx_job\<lparr>j_state := JS_PARSING\<rparr>)"
    by (simp add: get_job_def fx_dead_worker_def fx_job_def)
  have act: "active fx_dead_worker fx_validate"
    by (simp add: active_def j) (simp add: get_contract_def fx_dead_worker_def fx_db_def fx_contract_def)
  have st: "is_stalled 300000000 (fx_job\<lparr>j_state := JS_PARSING\<rparr>)" by (simp add: is_stalled_def fx_job_def)
  have n: "length (find_stalled 3000000000 45 fx_dead_worker) = 1"
    using st by (simp add: find_stalled_def fx_dead_worker_def)
  obtain d' q' c where s: "run_maintenance_sweep True True 3000000000 45 False (\<lambda>d. Inr (d, 0)) (\<lambda>d. Inr (d, 0))
       (\<lambda>d. Inr (d, False)) (fx_dead_worker, fx_queue) = ((d', q'), c)" by (metis prod.exhaust)
  from sweep_fails_stalled_jobs[OF wf fx_queue_wf fx_elsewhere fx_elsewhere fx_elsewhere s]
  have "sw_jobs c = 1" "get_job 10 d' = Some ((fx_job\<lparr>j_state := JS_PARSING\<rparr>)\<lparr>j_state := JS_FAILED, j_updated_at := 3000000000\<rparr>)"
    "active d' fx_validate"
    using n j st act by simp_all
  with s show ?thesis by fastforce
qed

end
