(* ===== verification/AuditLog.thy ===== *)
theory AuditLog
  imports Models
begin

text \<open>
  \<^verbatim>\<open>backend/app/services/audit.py\<close>: redaction and truncation of audit payloads, the reduction
  of a before/after pair to what changed, and the rows written for sign-ins and denials.
  A dictionary is an association list; the order in which \<open>set(before) | set(after)\<close> is
  traversed is the one of \<open>before\<close> followed by \<open>after\<close>, on which nothing below depends.
\<close>

subsection \<open>Payloads\<close>

text \<open>A column value: a UUID object, or anything that is stored as it is.\<close>

datatype field_value = FUuid uuid | FJson json

type_synonym payload = "(string \<times> field_value) list"

definition SENSITIVE_FIELDS :: "string list" where
  "SENSITIVE_FIELDS =
     [''password'', ''password_hash'', ''new_password'', ''current_password'',
      ''confirm_password'', ''token'', ''token_hash'', ''refresh_token'', ''access_token'',
      ''api_key'', ''client_secret'', ''azure_openai_api_key'', ''openai_api_key'',
      ''anthropic_api_key'', ''azure_docintel_key'', ''s3_secret_access_key'',
      ''azure_account_key'', ''jwt_secret'', ''internal_api_token'']"

definition NOISE_FIELDS :: "string list" where
  "NOISE_FIELDS = [''updated_at'', ''created_at'', ''last_accessed_at'', ''heartbeat_at'']"

definition MAX_VALUE_CHARS :: nat where
  "MAX_VALUE_CHARS = 2000"

definition sensitive_key :: "string \<Rightarrow> bool" where
  "sensitive_key key \<longleftrightarrow>
     (let lowered = lower key in
      lowered \<in> set SENSITIVE_FIELDS \<or>
      (\<exists>marker \<in> set [''password'', ''secret'', ''token'', ''api_key'']. contains_sub marker lowered))"

definition redacted :: field_value where
  "redacted = FJson (JStr ''***redacted***'')"

definition truncated :: "string \<Rightarrow> string" where
  "truncated s = take MAX_VALUE_CHARS s @ ''... ['' @ decimal (length s) @ '' chars]''"

definition sanitize_value :: "string \<Rightarrow> field_value \<Rightarrow> field_value" where
  "sanitize_value key v =
     (if sensitive_key key then redacted
      else case v of
          FUuid u \<Rightarrow> FJson (JStr (uuid_str u))
        | FJson (JStr s) \<Rightarrow>
            if length s > MAX_VALUE_CHARS then FJson (JStr (truncated s)) else v
        | FJson j \<Rightarrow> v)"

definition sanitize :: "payload \<Rightarrow> payload" where
  "sanitize p = map (\<lambda>(k, v). (k, sanitize_value k v)) p"

text \<open>\<open>d.get(key)\<close>: an absent key and a \<open>None\<close> value are the same.\<close>

definition field_get :: "payload \<Rightarrow> string \<Rightarrow> field_value" where
  "field_get p k = (case map_of p k of None \<Rightarrow> FJson JNull | Some v \<Rightarrow> v)"

definition changed_keys :: "payload \<Rightarrow> payload \<Rightarrow> string list" where
  "changed_keys before after =
     filter (\<lambda>k. k \<notin> set NOISE_FIELDS \<and> field_get before k \<noteq> field_get after k)
       (remdups (map fst before @ map fst after))"

definition audit_diff :: "payload \<Rightarrow> payload \<Rightarrow> payload \<times> payload" where
  "audit_diff before after =
     (let ks = changed_keys before after in
      (sanitize (map (\<lambda>k. (k, field_get before k)) ks),
       sanitize (map (\<lambda>k. (k, field_get after k)) ks)))"

text \<open>\<open>snapshot(entity, fields)\<close> over the column values of the entity.\<close>

definition snapshot :: "string list \<Rightarrow> payload \<Rightarrow> payload" where
  "snapshot only columns =
     sanitize (if only = [] then columns else filter (\<lambda>(k, v). k \<in> set only) columns)"

subsection \<open>Rows\<close>

datatype audit_action =
    AA_CREATE | AA_UPDATE | AA_DELETE | AA_LOGIN | AA_LOGIN_FAILED | AA_LOGOUT | AA_UPLOAD
  | AA_DOWNLOAD | AA_EXPORT | AA_SEARCH | AA_COPILOT_QUERY | AA_JOB_RETRY | AA_JOB_CANCEL
  | AA_JOB_PAUSE | AA_JOB_RESUME | AA_REVIEW_DECISION | AA_PERMISSION_CHANGE | AA_CONFIG_CHANGE

record audit_row =
  au_action :: audit_action
  au_entity_type :: string
  au_entity_id :: "uuid option"
  au_entity_label :: "string option"
  au_project_id :: "uuid option"
  au_user_id :: "uuid option"
  au_user_email :: "string option"
  au_before :: "payload option"
  au_after :: "payload option"
  au_ip :: "string option"
  au_user_agent :: "string option"
  au_succeeded :: bool
  au_error_code :: "string option"

text \<open>The keyword arguments of \<open>record\<close> with their defaults: the values that stay \<open>None\<close>.\<close>

definition audit_args :: "audit_action \<Rightarrow> string \<Rightarrow> uuid option \<Rightarrow> audit_row" where
  "audit_args action entity_type entity_id =
     \<lparr>au_action = action, au_entity_type = entity_type, au_entity_id = entity_id,
      au_entity_label = None, au_project_id = None, au_user_id = None, au_user_email = None,
      au_before = None, au_after = None, au_ip = None, au_user_agent = None,
      au_succeeded = True, au_error_code = None\<rparr>"

definition none_if_empty :: "payload \<Rightarrow> payload option" where
  "none_if_empty p = (if p = [] then None else Some p)"

definition payload_or_empty :: "payload option \<Rightarrow> payload" where
  "payload_or_empty p = (case p of None \<Rightarrow> [] | Some q \<Rightarrow> q)"

text \<open>The row \<open>record\<close> adds for its arguments.\<close>

definition audit_entry :: "audit_row \<Rightarrow> audit_row" where
  "audit_entry a =
     (case audit_diff (payload_or_empty (au_before a)) (payload_or_empty (au_after a)) of
        (changed_before, changed_after) \<Rightarrow>
          a\<lparr>au_entity_label := clip_text 512 (au_entity_label a),
            au_before := none_if_empty changed_before,
            au_after := none_if_empty changed_after,
            au_user_agent := clip_text 512 (au_user_agent a)\<rparr>)"

definition login_entry :: "uuid option \<Rightarrow> string \<Rightarrow> bool \<Rightarrow> string \<Rightarrow> string option \<Rightarrow> string option \<Rightarrow>
    string option \<Rightarrow> audit_row" where
  "login_entry user_id email succeeded meth ip user_agent reason =
     audit_entry ((audit_args (if succeeded then AA_LOGIN else AA_LOGIN_FAILED) ''user'' user_id)
       \<lparr>au_entity_label := Some email, au_user_id := user_id, au_user_email := Some email,
        au_after := (if succeeded then Some [(''method'', FJson (JStr meth))] else None),
        au_ip := ip, au_user_agent := user_agent, au_succeeded := succeeded,
        au_error_code := reason\<rparr>)"

definition denial_entry :: "uuid option \<Rightarrow> string option \<Rightarrow> string \<Rightarrow> uuid option \<Rightarrow> string \<Rightarrow>
    string option \<Rightarrow> audit_row" where
  "denial_entry user_id email entity_type entity_id reason ip =
     audit_entry ((audit_args (if reason = ''permission_change'' then AA_PERMISSION_CHANGE
                              else AA_LOGIN_FAILED) entity_type entity_id)
       \<lparr>au_user_id := user_id, au_user_email := email, au_ip := ip, au_succeeded := False,
        au_error_code := Some reason\<rparr>)"

subsection \<open>What a payload can and cannot contain\<close>

lemma payload_or_empty_none: "payload_or_empty (none_if_empty p) = p"
  by (simp add: payload_or_empty_def none_if_empty_def)

lemma map_fst_sanitize [simp]: "map fst (sanitize p) = map fst p"
  by (induction p) (auto simp: sanitize_def)

lemma sanitize_mem: "(k, v) \<in> set (sanitize p) \<longleftrightarrow> (\<exists>w. (k, w) \<in> set p \<and> v = sanitize_value k w)"
  by (auto simp: sanitize_def)

lemma sanitize_Nil [simp]: "sanitize [] = []"
  by (simp add: sanitize_def)

lemma map_of_sanitize: "map_of (sanitize p) k = map_option (sanitize_value k) (map_of p k)"
  by (induction p) (auto simp: sanitize_def)

lemma field_get_sanitize:
  "field_get (sanitize p) k =
    (if k \<in> fst ` set p then sanitize_value k (field_get p k) else FJson JNull)"
  by (auto simp: field_get_def map_of_sanitize map_of_eq_None_iff split: option.splits)
    (metis map_of_eq_None_iff option.distinct(1))+

lemma set_changed_keys:
  "set (changed_keys b a) =
    {k. k \<in> fst ` set b \<union> fst ` set a \<and> k \<notin> set NOISE_FIELDS \<and> field_get b k \<noteq> field_get a k}"
  by (auto simp: changed_keys_def)

text \<open>What a row holds under a key: nothing where the two sides agree, else both sanitised values.\<close>

lemma changed_key_iff:
  "k \<in> set (changed_keys b a) \<longleftrightarrow> k \<notin> set NOISE_FIELDS \<and> field_get b k \<noteq> field_get a k"
proof -
  have "k \<in> fst ` set b \<union> fst ` set a" if "field_get b k \<noteq> field_get a k"
  proof (rule ccontr)
    assume "\<not> ?thesis"
    then have "map_of b k = None" "map_of a k = None"
      by (simp_all add: map_of_eq_None_iff)
    with that show False by (simp add: field_get_def)
  qed
  then show ?thesis by (auto simp: set_changed_keys)
qed

lemma recorded_field:
  "(k, v) \<in> set (payload_or_empty (au_before (audit_entry a))) \<longleftrightarrow>
    k \<notin> set NOISE_FIELDS \<and> field_get (payload_or_empty (au_before a)) k \<noteq> field_get (payload_or_empty (au_after a)) k \<and>
    v = sanitize_value k (field_get (payload_or_empty (au_before a)) k)"
  "(k, v) \<in> set (payload_or_empty (au_after (audit_entry a))) \<longleftrightarrow>
    k \<notin> set NOISE_FIELDS \<and> field_get (payload_or_empty (au_before a)) k \<noteq> field_get (payload_or_empty (au_after a)) k \<and>
    v = sanitize_value k (field_get (payload_or_empty (au_after a)) k)"
  by (auto simp: audit_entry_def audit_diff_def Let_def payload_or_empty_none sanitize_mem changed_key_iff image_iff)

text \<open>C25: The value of a field whose key names a credential, in any spelling or case, never reaches the audit
  table: wherever the key occurs at the top of a row's old or new values, the redaction mark stands. That such a
  field changed is recorded none the less, on both sides. Only top-level keys are covered: a dictionary stored under
  a harmless key is not inspected.\<close>

theorem credential_fields_are_redacted:
  assumes "sensitive_key k"
  shows "((k, v) \<in> set (payload_or_empty (au_before (audit_entry a))) \<longleftrightarrow>
      v = redacted \<and> k \<notin> set NOISE_FIELDS \<and>
      field_get (payload_or_empty (au_before a)) k \<noteq> field_get (payload_or_empty (au_after a)) k) \<and>
    ((k, v) \<in> set (payload_or_empty (au_after (audit_entry a))) \<longleftrightarrow>
      v = redacted \<and> k \<notin> set NOISE_FIELDS \<and>
      field_get (payload_or_empty (au_before a)) k \<noteq> field_get (payload_or_empty (au_after a)) k)"
  using assms recorded_field[of k v a] by (auto simp: sanitize_value_def)

text \<open>A dictionary under a key that names no credential is stored as it is, whatever the keys inside it are.\<close>

theorem nested_credentials_are_stored:
  assumes "\<not> sensitive_key k" "k \<notin> set NOISE_FIELDS"
    and "field_get (payload_or_empty (au_after a)) k = FJson (JObj entries)"
    and "field_get (payload_or_empty (au_before a)) k \<noteq> FJson (JObj entries)"
  shows "(k, FJson (JObj entries)) \<in> set (payload_or_empty (au_after (audit_entry a)))"
  using assms recorded_field[of k _ a] by (simp add: sanitize_value_def)

theorem nested_credentials_are_stored_witness:
  "(''settings'', FJson (JObj [(''password'', JStr ''s3cr3t'')])) \<in> set (payload_or_empty (au_after (audit_entry
      ((audit_args AA_UPDATE ''project'' None)
        \<lparr>au_after := Some [(''settings'', FJson (JObj [(''password'', JStr ''s3cr3t'')]))]\<rparr>))))"
proof (rule nested_credentials_are_stored)
  show "\<not> sensitive_key ''settings''" by code_simp
qed (simp_all add: NOISE_FIELDS_def audit_args_def payload_or_empty_def field_get_def)

text \<open>A row records exactly the fields that changed, noise columns apart, and it records both
  sides of each.\<close>

theorem audit_records_exactly_the_changes:
  "map fst (fst (audit_diff b a)) = map fst (snd (audit_diff b a)) \<and>
   distinct (map fst (fst (audit_diff b a))) \<and>
   (k \<in> set (map fst (fst (audit_diff b a))) \<longleftrightarrow>
      k \<notin> set NOISE_FIELDS \<and> field_get b k \<noteq> field_get a k)"
  by (simp add: audit_diff_def Let_def comp_def changed_key_iff) (simp add: changed_keys_def)

text \<open>The snapshots of \<open>update_user\<close> and its siblings are truncated before they are compared,
  so an edit that keeps the length and the first 2000 characters of a text leaves no trace.\<close>

theorem audit_misses_edits_past_the_limit:
  assumes "\<not> sensitive_key k" "take MAX_VALUE_CHARS s = take MAX_VALUE_CHARS t"
    "length s = length t" "length s > MAX_VALUE_CHARS"
  shows "audit_diff (snapshot [] [(k, FJson (JStr s))]) (snapshot [] [(k, FJson (JStr t))]) = ([], [])"
  using assms
  by (simp add: audit_diff_def snapshot_def sanitize_def sanitize_value_def truncated_def
      changed_keys_def)

theorem audit_misses_edits_past_the_limit_witness:
  "audit_diff (snapshot [] [(''definition'', FJson (JStr (replicate 2000 CHR ''x'' @ ''a'')))])
     (snapshot [] [(''definition'', FJson (JStr (replicate 2000 CHR ''x'' @ ''b'')))]) = ([], [])"
proof (rule audit_misses_edits_past_the_limit)
  show "\<not> sensitive_key ''definition''" by code_simp
qed (simp_all add: MAX_VALUE_CHARS_def)

theorem credential_fields_are_redacted_witness:
  "(''API_KEY_2'', redacted) \<in> set (payload_or_empty (au_after (audit_entry
      ((audit_args AA_CONFIG_CHANGE ''settings'' None)\<lparr>au_after := Some [(''API_KEY_2'', FJson (JStr ''s3cr3t''))]\<rparr>))))"
proof -
  have key: "sensitive_key ''API_KEY_2''" by code_simp
  show ?thesis
    using credential_fields_are_redacted[OF key, of redacted "(audit_args AA_CONFIG_CHANGE ''settings'' None)
      \<lparr>au_after := Some [(''API_KEY_2'', FJson (JStr ''s3cr3t''))]\<rparr>"]
    by (simp add: audit_args_def payload_or_empty_def NOISE_FIELDS_def field_get_def)
qed

end
