(* ===== verification/Identity.thy ===== *)
theory Identity
  imports AuditLog
begin

text \<open>
  \<^verbatim>\<open>backend/app/models/identity.py\<close>, \<^verbatim>\<open>models/project.py\<close> and their repositories
  \<^verbatim>\<open>repositories/identity.py\<close> and \<^verbatim>\<open>repositories/project.py\<close>: users, roles, refresh tokens,
  projects and memberships, the operations on them, and the request-scoped transaction of
  \<^verbatim>\<open>db/session.py\<close>. Emails are \<open>CITEXT\<close>: every comparison is up to case. Columns that no
  modelled operation reads (display fields, preferences) are left out.
\<close>

subsection \<open>Errors of the access layer\<close>

definition access_error :: "string \<Rightarrow> string \<Rightarrow> dict \<Rightarrow> string \<Rightarrow> exn" where
  "access_error cls code details msg =
     AppErr \<lparr>e_class = cls, e_code = code, e_message = msg, e_details = details,
       e_retryable = False, e_stage = None\<rparr>"

definition UnauthenticatedError :: "string \<Rightarrow> exn" where
  "UnauthenticatedError = access_error ''UnauthenticatedError'' ''unauthenticated'' []"

definition InvalidCredentialsError :: "string \<Rightarrow> exn" where
  "InvalidCredentialsError = access_error ''InvalidCredentialsError'' ''invalid_credentials'' []"

definition TokenExpiredError :: exn where
  "TokenExpiredError = access_error ''TokenExpiredError'' ''token_expired'' []
     ''Your session has expired. Please sign in again.''"

definition TokenInvalidError :: "string \<Rightarrow> exn" where
  "TokenInvalidError = access_error ''TokenInvalidError'' ''token_invalid'' []"

definition ForbiddenError :: "string \<Rightarrow> dict \<Rightarrow> exn" where
  "ForbiddenError msg details = access_error ''ForbiddenError'' ''forbidden'' details msg"

definition ProjectAccessDeniedError :: exn where
  "ProjectAccessDeniedError = access_error ''ProjectAccessDeniedError'' ''project_access_denied'' []
     ''You do not have access to this project.''"

definition PermissionDeniedError :: "string \<Rightarrow> string \<Rightarrow> exn" where
  "PermissionDeniedError perm msg = access_error ''PermissionDeniedError'' ''permission_denied''
     (if perm = [] then [] else [(''required_permission'', JStr perm)]) msg"

definition PERMISSION_DENIED_MESSAGE :: string where
  "PERMISSION_DENIED_MESSAGE = ''Your role does not grant this permission.''"

definition NotFoundError :: "string \<Rightarrow> string \<Rightarrow> exn" where
  "NotFoundError resource ident = access_error ''NotFoundError'' ''not_found''
     [(''resource'', JStr resource), (''id'', JStr ident)] (resource @ '' not found.'')"

definition NotImplementedFeatureError :: "string \<Rightarrow> exn" where
  "NotImplementedFeatureError = access_error ''NotImplementedFeatureError'' ''not_implemented'' []"

text \<open>What the driver raises when a unique constraint is violated.\<close>

definition IntegrityError :: "string \<Rightarrow> exn" where
  "IntegrityError constraint = PyErr ''IntegrityError'' constraint"

subsection \<open>Enumerations\<close>

datatype role_name = RN_SYSTEM_ADMIN | RN_PROJECT_MANAGER | RN_REVIEWER | RN_VIEWER

fun role_value :: "role_name \<Rightarrow> string" where
  "role_value RN_SYSTEM_ADMIN = ''system_admin''"
| "role_value RN_PROJECT_MANAGER = ''project_manager''"
| "role_value RN_REVIEWER = ''reviewer''"
| "role_value RN_VIEWER = ''viewer''"

datatype auth_provider = AP_LOCAL | AP_MICROSOFT

fun provider_value :: "auth_provider \<Rightarrow> string" where
  "provider_value AP_LOCAL = ''local''"
| "provider_value AP_MICROSOFT = ''microsoft''"

subsection \<open>Rows\<close>

record user_row =
  u_id :: uuid
  u_email :: string
  u_full_name :: string
  u_password_hash :: "string option"
  u_is_active :: bool
  u_is_system_admin :: bool
  u_must_change_password :: bool
  u_auth_provider :: auth_provider
  u_external_subject :: "string option"
  u_last_login_at :: "instant option"
  u_failed_login_count :: int
  u_locked_until :: "instant option"
  u_deleted_at :: "instant option"

record role_row =
  ro_id :: uuid
  ro_name :: role_name
  ro_display_name :: string
  ro_description :: "string option"
  ro_permissions :: "string list"
  ro_rank :: int

record token_row =
  t_id :: uuid
  t_user_id :: uuid
  t_token_hash :: string
  t_expires_at :: instant
  t_revoked_at :: "instant option"
  t_replaced_by_id :: "uuid option"
  t_user_agent :: "string option"
  t_ip_address :: "string option"
  t_created_at :: instant

record project_row =
  pr_id :: uuid
  pr_name :: string
  pr_slug :: string
  pr_deleted_at :: "instant option"

record member_row =
  pm_id :: uuid
  pm_project_id :: uuid
  pm_user_id :: uuid
  pm_role_id :: uuid
  pm_added_by :: "uuid option"
  pm_overrides :: "string list"
  pm_is_favourite :: bool
  pm_created_at :: instant

text \<open>The tables of the access layer.\<close>

record id_db =
  i_users :: "user_row list"
  i_roles :: "role_row list"
  i_tokens :: "token_row list"
  i_projects :: "project_row list"
  i_members :: "member_row list"
  i_contracts :: "contract_row list"
  i_audits :: "audit_row list"
  i_activities :: "(uuid \<times> string) list"
  i_next_id :: nat

definition audit :: "audit_row \<Rightarrow> id_db \<Rightarrow> id_db" where
  "audit entry d = d\<lparr>i_audits := i_audits d @ [entry]\<rparr>"

subsection \<open>The request-scoped transaction\<close>

text \<open>\<open>get_db\<close>: the session of a request is committed when the handler returns and rolled back
  when it raises, whatever it raises.\<close>

definition in_request :: "('s \<Rightarrow> 's \<times> (exn + 'a)) \<Rightarrow> 's \<Rightarrow> 's \<times> (exn + 'a)" where
  "in_request handler s =
     (case handler s of
        (s', Inl e) \<Rightarrow> (s, Inl e)
      | (s', Inr a) \<Rightarrow> (s', Inr a))"

lemma in_request_simps:
  "snd (in_request h s) = snd (h s)"
  "snd (h s) = Inl e \<Longrightarrow> fst (in_request h s) = s"
  "snd (h s) = Inr a \<Longrightarrow> fst (in_request h s) = fst (h s)"
  by (auto simp: in_request_def split: prod.splits sum.splits)

subsection \<open>Users\<close>

definition MAX_FAILED_LOGINS :: int where
  "MAX_FAILED_LOGINS = 8"

definition LOCKOUT_MINUTES :: int where
  "LOCKOUT_MINUTES = 15"

definition minutes :: "int \<Rightarrow> instant" where
  "minutes n = n * 60 * 1000000"

definition days :: "int \<Rightarrow> instant" where
  "days n = n * 24 * 3600 * 1000000"

definition is_locked :: "instant \<Rightarrow> user_row \<Rightarrow> bool" where
  "is_locked now u = (case u_locked_until u of None \<Rightarrow> False | Some t \<Rightarrow> t > now)"

definition live_users :: "id_db \<Rightarrow> user_row list" where
  "live_users d = filter (\<lambda>u. u_deleted_at u = None) (i_users d)"

definition get_user :: "uuid \<Rightarrow> id_db \<Rightarrow> user_row option" where
  "get_user uid d = List.find (\<lambda>u. u_id u = uid) (live_users d)"

definition get_by_email :: "bool \<Rightarrow> string \<Rightarrow> id_db \<Rightarrow> user_row option" where
  "get_by_email include_deleted email d =
     List.find (\<lambda>u. lower (u_email u) = lower email)
       (if include_deleted then i_users d else live_users d)"

definition get_by_external_subject :: "auth_provider \<Rightarrow> string \<Rightarrow> id_db \<Rightarrow> user_row option" where
  "get_by_external_subject provider subject d =
     List.find (\<lambda>u. u_auth_provider u = provider \<and> u_external_subject u = Some subject)
       (live_users d)"

definition update_user_row :: "uuid \<Rightarrow> (user_row \<Rightarrow> user_row) \<Rightarrow> id_db \<Rightarrow> id_db" where
  "update_user_row uid f d = d\<lparr>i_users := update_where (\<lambda>u. u_id u = uid) f (i_users d)\<rparr>"

definition login_row :: "instant \<Rightarrow> user_row \<Rightarrow> user_row" where
  "login_row now u = u\<lparr>u_last_login_at := Some now, u_failed_login_count := 0,
     u_locked_until := None\<rparr>"

definition record_successful_login :: "instant \<Rightarrow> uuid \<Rightarrow> id_db \<Rightarrow> id_db" where
  "record_successful_login now uid d = update_user_row uid (login_row now) d"

text \<open>The failure that reaches the limit locks the account and starts a fresh count.\<close>

definition failed_login_row :: "instant \<Rightarrow> user_row \<Rightarrow> user_row" where
  "failed_login_row now u =
     (let n = u_failed_login_count u + 1 in
      if n \<ge> MAX_FAILED_LOGINS
      then u\<lparr>u_failed_login_count := 0, u_locked_until := Some (now + minutes LOCKOUT_MINUTES)\<rparr>
      else u\<lparr>u_failed_login_count := n\<rparr>)"

definition record_failed_login :: "instant \<Rightarrow> user_row \<Rightarrow> id_db \<Rightarrow> id_db \<times> bool" where
  "record_failed_login now u d =
     (update_user_row (u_id u) (failed_login_row now) d,
      u_failed_login_count u + 1 \<ge> MAX_FAILED_LOGINS)"

definition set_password_hash :: "uuid \<Rightarrow> string \<Rightarrow> bool \<Rightarrow> id_db \<Rightarrow> id_db" where
  "set_password_hash uid h must_change d =
     update_user_row uid (\<lambda>u. u\<lparr>u_password_hash := Some h, u_must_change_password := must_change\<rparr>) d"

text \<open>The unique constraints of the table, checked by the flush of an insert or update: the email,
  and the pair of provider and subject where there is a subject. A deleted row still counts.\<close>

definition email_taken :: "uuid option \<Rightarrow> string \<Rightarrow> id_db \<Rightarrow> bool" where
  "email_taken self email d \<longleftrightarrow>
     (\<exists>u \<in> set (i_users d). lower (u_email u) = lower email \<and> Some (u_id u) \<noteq> self)"

definition subject_taken :: "uuid option \<Rightarrow> auth_provider \<Rightarrow> string option \<Rightarrow> id_db \<Rightarrow> bool" where
  "subject_taken self provider subject d \<longleftrightarrow>
     subject \<noteq> None \<and>
     (\<exists>u \<in> set (i_users d). u_auth_provider u = provider \<and> u_external_subject u = subject \<and>
        Some (u_id u) \<noteq> self)"

text \<open>\<open>users.create\<close>: the row given with the next id, or the violated constraint.\<close>

definition create_user_row :: "user_row \<Rightarrow> id_db \<Rightarrow> id_db \<times> (exn + user_row)" where
  "create_user_row proto d =
     (if email_taken None (u_email proto) d then (d, Inl (IntegrityError ''ix_users_email''))
      else if subject_taken None (u_auth_provider proto) (u_external_subject proto) d
      then (d, Inl (IntegrityError ''uq_users_provider_subject''))
      else (let u = proto\<lparr>u_id := i_next_id d\<rparr> in
            (d\<lparr>i_users := i_users d @ [u], i_next_id := Suc (i_next_id d)\<rparr>, Inr u)))"

definition new_user :: "string \<Rightarrow> string \<Rightarrow> string option \<Rightarrow> bool \<Rightarrow> bool \<Rightarrow> bool \<Rightarrow> auth_provider \<Rightarrow>
    string option \<Rightarrow> user_row" where
  "new_user email full_name h active admin must_change provider subject =
     \<lparr>u_id = 0, u_email = email, u_full_name = full_name, u_password_hash = h,
      u_is_active = active, u_is_system_admin = admin, u_must_change_password = must_change,
      u_auth_provider = provider, u_external_subject = subject, u_last_login_at = None,
      u_failed_login_count = 0, u_locked_until = None, u_deleted_at = None\<rparr>"

subsection \<open>Roles\<close>

definition role_by_name :: "role_name \<Rightarrow> id_db \<Rightarrow> role_row option" where
  "role_by_name n d = List.find (\<lambda>r. ro_name r = n) (i_roles d)"

definition role_by_id :: "uuid \<Rightarrow> id_db \<Rightarrow> role_row option" where
  "role_by_id rid d = List.find (\<lambda>r. ro_id r = rid) (i_roles d)"

definition has_permission :: "role_row \<Rightarrow> string \<Rightarrow> bool" where
  "has_permission r p \<longleftrightarrow> p \<in> set (ro_permissions r)"

subsection \<open>Refresh tokens\<close>

definition token_active :: "instant \<Rightarrow> token_row \<Rightarrow> bool" where
  "token_active now t \<longleftrightarrow> t_revoked_at t = None \<and> t_expires_at t > now"

definition get_active_by_hash :: "instant \<Rightarrow> string \<Rightarrow> id_db \<Rightarrow> token_row option" where
  "get_active_by_hash now h d =
     List.find (\<lambda>t. t_token_hash t = h \<and> t_revoked_at t = None \<and> t_expires_at t > now) (i_tokens d)"

definition get_any_by_hash :: "string \<Rightarrow> id_db \<Rightarrow> token_row option" where
  "get_any_by_hash h d = List.find (\<lambda>t. t_token_hash t = h) (i_tokens d)"

definition issue_token :: "instant \<Rightarrow> uuid \<Rightarrow> string \<Rightarrow> instant \<Rightarrow> string option \<Rightarrow> string option \<Rightarrow>
    id_db \<Rightarrow> id_db \<times> token_row" where
  "issue_token now uid h expires_at user_agent ip d =
     (let t = \<lparr>t_id = i_next_id d, t_user_id = uid, t_token_hash = h, t_expires_at = expires_at,
            t_revoked_at = None, t_replaced_by_id = None, t_user_agent = clip_text 512 user_agent,
            t_ip_address = ip, t_created_at = now\<rparr>
      in (d\<lparr>i_tokens := i_tokens d @ [t], i_next_id := Suc (i_next_id d)\<rparr>, t))"

definition update_token :: "uuid \<Rightarrow> (token_row \<Rightarrow> token_row) \<Rightarrow> id_db \<Rightarrow> id_db" where
  "update_token tid f d = d\<lparr>i_tokens := update_where (\<lambda>t. t_id t = tid) f (i_tokens d)\<rparr>"

definition rotate_token :: "instant \<Rightarrow> token_row \<Rightarrow> string \<Rightarrow> instant \<Rightarrow> string option \<Rightarrow> string option \<Rightarrow>
    id_db \<Rightarrow> id_db \<times> token_row" where
  "rotate_token now old h expires_at user_agent ip d =
     (case issue_token now (t_user_id old) h expires_at user_agent ip d of
        (d1, replacement) \<Rightarrow>
          (update_token (t_id old)
             (\<lambda>t. t\<lparr>t_revoked_at := Some now, t_replaced_by_id := Some (t_id replacement)\<rparr>) d1,
           replacement))"

definition revoke_token :: "instant \<Rightarrow> token_row \<Rightarrow> id_db \<Rightarrow> id_db" where
  "revoke_token now t d = update_token (t_id t) (\<lambda>t. t\<lparr>t_revoked_at := Some now\<rparr>) d"

definition unrevoked_of :: "uuid \<Rightarrow> token_row \<Rightarrow> bool" where
  "unrevoked_of uid t \<longleftrightarrow> t_user_id t = uid \<and> t_revoked_at t = None"

definition revoke_all_for_user :: "instant \<Rightarrow> uuid \<Rightarrow> id_db \<Rightarrow> id_db \<times> nat" where
  "revoke_all_for_user now uid d =
     (d\<lparr>i_tokens := update_where (unrevoked_of uid) (\<lambda>t. t\<lparr>t_revoked_at := Some now\<rparr>) (i_tokens d)\<rparr>,
      length (filter (unrevoked_of uid) (i_tokens d)))"

text \<open>Newest first: a stable sort of the matching rows.\<close>

definition active_sessions :: "instant \<Rightarrow> uuid \<Rightarrow> id_db \<Rightarrow> token_row list" where
  "active_sessions now uid d =
     sort_key (\<lambda>t. - t_created_at t)
       (filter (\<lambda>t. t_user_id t = uid \<and> token_active now t) (i_tokens d))"

text \<open>The delete also clears \<open>replaced_by_id\<close> where it pointed at a deleted row
  (\<open>ON DELETE SET NULL\<close>).\<close>

definition purge_expired_tokens :: "instant \<Rightarrow> int \<Rightarrow> id_db \<Rightarrow> id_db \<times> nat" where
  "purge_expired_tokens now older_than_days d =
     (let cutoff = now - days older_than_days;
          gone = filter (\<lambda>t. t_expires_at t < cutoff) (i_tokens d);
          kept = filter (\<lambda>t. \<not> t_expires_at t < cutoff) (i_tokens d)
      in (d\<lparr>i_tokens := map (\<lambda>t. if \<exists>g \<in> set gone. t_replaced_by_id t = Some (t_id g)
                                   then t\<lparr>t_replaced_by_id := None\<rparr> else t) kept\<rparr>,
          length gone))"

subsection \<open>Projects and memberships\<close>

definition get_project :: "uuid \<Rightarrow> id_db \<Rightarrow> project_row option" where
  "get_project pid d = List.find (\<lambda>p. pr_id p = pid \<and> pr_deleted_at p = None) (i_projects d)"

definition get_membership :: "uuid \<Rightarrow> uuid \<Rightarrow> id_db \<Rightarrow> member_row option" where
  "get_membership pid uid d =
     List.find (\<lambda>m. pm_project_id m = pid \<and> pm_user_id m = uid) (i_members d)"

text \<open>The inner join of the live projects with the caller's memberships: one row per pair.\<close>

definition accessible_ids :: "uuid \<Rightarrow> bool \<Rightarrow> id_db \<Rightarrow> uuid list" where
  "accessible_ids uid is_system_admin d =
     (let live = filter (\<lambda>p. pr_deleted_at p = None) (i_projects d) in
      if is_system_admin then map pr_id live
      else concat (map (\<lambda>p. map (\<lambda>m. pr_id p)
             (filter (\<lambda>m. pm_project_id m = pr_id p \<and> pm_user_id m = uid) (i_members d))) live))"

definition list_for_user :: "uuid \<Rightarrow> id_db \<Rightarrow> member_row list" where
  "list_for_user uid d = sort_key pm_created_at (filter (\<lambda>m. pm_user_id m = uid) (i_members d))"

definition add_member_row :: "instant \<Rightarrow> uuid \<Rightarrow> uuid \<Rightarrow> uuid \<Rightarrow> uuid option \<Rightarrow> string list \<Rightarrow>
    id_db \<Rightarrow> id_db \<times> (exn + member_row)" where
  "add_member_row now pid uid rid added_by overrides d =
     (if \<exists>m \<in> set (i_members d). pm_project_id m = pid \<and> pm_user_id m = uid
      then (d, Inl (IntegrityError ''uq_project_members_project_id_user_id''))
      else (let m = \<lparr>pm_id = i_next_id d, pm_project_id = pid, pm_user_id = uid, pm_role_id = rid,
              pm_added_by = added_by, pm_overrides = overrides, pm_is_favourite = False,
              pm_created_at = now\<rparr>
            in (d\<lparr>i_members := i_members d @ [m], i_next_id := Suc (i_next_id d)\<rparr>, Inr m)))"

definition remove_member_rows :: "uuid \<Rightarrow> uuid \<Rightarrow> id_db \<Rightarrow> id_db \<times> bool" where
  "remove_member_rows pid uid d =
     (d\<lparr>i_members := filter (\<lambda>m. \<not> (pm_project_id m = pid \<and> pm_user_id m = uid)) (i_members d)\<rparr>,
      \<exists>m \<in> set (i_members d). pm_project_id m = pid \<and> pm_user_id m = uid)"

definition manages :: "id_db \<Rightarrow> uuid \<Rightarrow> role_name set \<Rightarrow> member_row \<Rightarrow> bool" where
  "manages d pid names m \<longleftrightarrow> pm_project_id m = pid \<and>
     (case role_by_id (pm_role_id m) d of None \<Rightarrow> False | Some r \<Rightarrow> ro_name r \<in> names)"

definition count_managers :: "uuid \<Rightarrow> id_db \<Rightarrow> nat" where
  "count_managers pid d =
     length (filter (manages d pid {RN_PROJECT_MANAGER, RN_SYSTEM_ADMIN}) (i_members d))"

definition members_with_permission :: "uuid \<Rightarrow> string \<Rightarrow> id_db \<Rightarrow> user_row list" where
  "members_with_permission pid perm d =
     concat (map (\<lambda>m. filter (\<lambda>u. u_id u = pm_user_id m \<and> u_is_active u \<and> u_deleted_at u = None)
         (i_users d))
       (filter (\<lambda>m. pm_project_id m = pid \<and>
          (case role_by_id (pm_role_id m) d of None \<Rightarrow> False | Some r \<Rightarrow> has_permission r perm))
         (i_members d)))"

end
