(* ===== verification/Security.thy ===== *)
theory Security
  imports Identity
begin

text \<open>
  \<^verbatim>\<open>backend/app/core/security.py\<close>: password verification and policy, and the typed tokens.
  The hash functions, SHA-256, the random generator and the JWT codec are not part of the
  repository: they are fields of \<open>sec_env\<close>. A JWT is whatever the codec produces, so its type
  is a parameter; its payload is the dictionary the code builds. Text is ASCII.
\<close>

datatype hash_scheme = Argon2 | Bcrypt

text \<open>\<open>jwt.decode\<close> returns the payload or raises one of two classes the code tells apart.\<close>

datatype jwt_result = JwtOk dict | JwtExpired | JwtInvalid

record 'tok sec_env =
  se_now :: instant
  se_scheme :: hash_scheme
  se_min_length :: nat
  se_refresh_days :: int
  se_access_minutes :: int
  se_app_name :: string
  se_argon_verify :: "string \<Rightarrow> string \<Rightarrow> bool option"
  se_bcrypt_check :: "string \<Rightarrow> string \<Rightarrow> bool option"
  se_argon_hash :: "string \<Rightarrow> string"
  se_bcrypt_hash :: "string \<Rightarrow> string"
  se_argon_needs_rehash :: "string \<Rightarrow> bool option"
  se_digest :: "string \<Rightarrow> string"
  se_fresh_token :: string
  se_jti :: string
  se_encode :: "dict \<Rightarrow> 'tok"
  se_decode :: "'tok \<Rightarrow> jwt_result"

subsection \<open>Passwords\<close>

definition starts_with :: "string \<Rightarrow> string \<Rightarrow> bool" where
  "starts_with p s \<longleftrightarrow> take (length p) s = p"

definition is_argon_hash :: "string \<Rightarrow> bool" where
  "is_argon_hash h \<longleftrightarrow> starts_with ''$argon2'' h"

definition is_bcrypt_hash :: "string \<Rightarrow> bool" where
  "is_bcrypt_hash h \<longleftrightarrow> starts_with ''$2a$'' h \<or> starts_with ''$2b$'' h \<or> starts_with ''$2y$'' h"

definition hash_password :: "'tok sec_env \<Rightarrow> string \<Rightarrow> exn + string" where
  "hash_password env pw =
     (if pw = [] then Inl (ValidationError ''Password must not be empty.'')
      else Inr (case se_scheme env of
          Bcrypt \<Rightarrow> se_bcrypt_hash env pw
        | Argon2 \<Rightarrow> se_argon_hash env pw))"

text \<open>A missing or empty hash, an unknown scheme and an exception of the hash library are all
  \<open>False\<close>.\<close>

definition verify_password :: "'tok sec_env \<Rightarrow> string \<Rightarrow> string option \<Rightarrow> bool" where
  "verify_password env pw h =
     (case h of
        None \<Rightarrow> False
      | Some hs \<Rightarrow>
          if hs = [] then False
          else if is_argon_hash hs then se_argon_verify env hs pw = Some True
          else if is_bcrypt_hash hs then se_bcrypt_check env hs pw = Some True
          else False)"

definition needs_rehash :: "'tok sec_env \<Rightarrow> string \<Rightarrow> bool" where
  "needs_rehash env h =
     (case se_scheme env of
        Argon2 \<Rightarrow>
          if \<not> is_argon_hash h then True
          else (case se_argon_needs_rehash env h of None \<Rightarrow> True | Some b \<Rightarrow> b)
      | Bcrypt \<Rightarrow> \<not> is_bcrypt_hash h)"

definition is_lower :: "char \<Rightarrow> bool" where
  "is_lower c \<longleftrightarrow> (let n = of_char c :: nat in 97 \<le> n \<and> n \<le> 122)"

definition is_upper :: "char \<Rightarrow> bool" where
  "is_upper c \<longleftrightarrow> (let n = of_char c :: nat in 65 \<le> n \<and> n \<le> 90)"

definition is_digit :: "char \<Rightarrow> bool" where
  "is_digit c \<longleftrightarrow> (let n = of_char c :: nat in 48 \<le> n \<and> n \<le> 57)"

text \<open>\<open>str.isalnum\<close> is false on the empty string.\<close>

definition is_alnum :: "string \<Rightarrow> bool" where
  "is_alnum s \<longleftrightarrow> s \<noteq> [] \<and> list_all (\<lambda>c. is_lower c \<or> is_upper c \<or> is_digit c) s"

definition password_problems :: "nat \<Rightarrow> string \<Rightarrow> string list" where
  "password_problems minimum pw =
     (if length pw < minimum then [''at least '' @ decimal minimum @ '' characters''] else []) @
     (if \<not> list_ex is_lower pw then [''a lowercase letter''] else []) @
     (if \<not> list_ex is_upper pw then [''an uppercase letter''] else []) @
     (if \<not> list_ex is_digit pw then [''a digit''] else []) @
     (if is_alnum pw then [''a special character''] else [])"

definition validate_password_strength :: "'tok sec_env \<Rightarrow> string \<Rightarrow> exn + unit" where
  "validate_password_strength env pw =
     (let problems = password_problems (se_min_length env) pw in
      if problems \<noteq> [] then Inl (ValidationError
        (''Password must contain '' @ join '', '' problems @ ''.''))
      else Inr ())"

subsection \<open>Tokens\<close>

definition timestamp :: "instant \<Rightarrow> json" where
  "timestamp t = JInt (t div 1000000)"

definition create_access_token :: "'tok sec_env \<Rightarrow> uuid \<Rightarrow> bool \<Rightarrow> string \<Rightarrow> string \<Rightarrow> 'tok \<times> instant" where
  "create_access_token env subject is_admin email provider =
     (let issued_at = se_now env; expires_at = issued_at + minutes (se_access_minutes env);
          payload = [(''sub'', JStr (uuid_str subject)), (''type'', JStr ''access''),
            (''iat'', timestamp issued_at), (''exp'', timestamp expires_at),
            (''jti'', JStr (se_jti env)), (''iss'', JStr (se_app_name env)),
            (''adm'', JBool is_admin), (''ap'', JStr provider)]
            @ (if email = [] then [] else [(''email'', JStr email)])
      in (se_encode env payload, expires_at))"

definition create_refresh_token :: "'tok sec_env \<Rightarrow> string \<times> string \<times> instant" where
  "create_refresh_token env =
     (se_fresh_token env, se_digest env (se_fresh_token env), se_now env + days (se_refresh_days env))"

definition decode_token :: "'tok sec_env \<Rightarrow> 'tok \<Rightarrow> string \<Rightarrow> exn + dict" where
  "decode_token env tok expected =
     (case se_decode env tok of
        JwtExpired \<Rightarrow> Inl TokenExpiredError
      | JwtInvalid \<Rightarrow> Inl (TokenInvalidError ''Invalid authentication token.'')
      | JwtOk payload \<Rightarrow>
          if dict_get payload ''type'' \<noteq> Some (JStr expected)
          then Inl (TokenInvalidError (''Expected a '' @ expected @ '' token.''))
          else Inr payload)"

text \<open>\<open>{"type": \<dots>, "sub": \<dots>, "iat": \<dots>, "exp": \<dots>, **data}\<close>.\<close>

definition create_signed_state :: "'tok sec_env \<Rightarrow> dict \<Rightarrow> int \<Rightarrow> 'tok" where
  "create_signed_state env d ttl_seconds =
     se_encode env (dict_update
       [(''type'', JStr ''oidc_state''), (''sub'', JStr (se_jti env)),
        (''iat'', timestamp (se_now env)),
        (''exp'', timestamp (se_now env + ttl_seconds * 1000000))] d)"

definition verify_signed_state :: "'tok sec_env \<Rightarrow> 'tok \<Rightarrow> exn + dict" where
  "verify_signed_state env tok = decode_token env tok ''oidc_state''"

definition create_download_token :: "'tok sec_env \<Rightarrow> uuid \<Rightarrow> string \<Rightarrow> uuid \<Rightarrow> int \<Rightarrow> 'tok" where
  "create_download_token env subject resource resource_id ttl_seconds =
     se_encode env
       [(''sub'', JStr (uuid_str subject)), (''type'', JStr ''download''),
        (''res'', JStr resource), (''rid'', JStr (uuid_str resource_id)),
        (''iat'', timestamp (se_now env)),
        (''exp'', timestamp (se_now env + ttl_seconds * 1000000)),
        (''jti'', JStr (se_jti env))]"

definition verify_download_token :: "'tok sec_env \<Rightarrow> 'tok \<Rightarrow> string \<Rightarrow> uuid \<Rightarrow> exn + dict" where
  "verify_download_token env tok resource resource_id =
     (case decode_token env tok ''download'' of
        Inl e \<Rightarrow> Inl e
      | Inr payload \<Rightarrow>
          if dict_get payload ''res'' \<noteq> Some (JStr resource) \<or>
             dict_get payload ''rid'' \<noteq> Some (JStr (uuid_str resource_id))
          then Inl (TokenInvalidError ''This download link is not valid for this item.'')
          else Inr payload)"

text \<open>The shared secret of the queue service.\<close>

definition verify_internal_token :: "string \<Rightarrow> string option \<Rightarrow> bool" where
  "verify_internal_token expected presented =
     (case presented of None \<Rightarrow> False | Some p \<Rightarrow> if p = [] then False else p = expected)"

subsection \<open>What the policy and the token types guarantee\<close>

lemma password_accepted_iff:
  assumes "0 < se_min_length env"
  shows "validate_password_strength env pw = Inr () \<longleftrightarrow>
    se_min_length env \<le> length pw \<and> list_ex is_lower pw \<and> list_ex is_upper pw \<and>
    list_ex is_digit pw \<and> list_ex (\<lambda>c. \<not> is_lower c \<and> \<not> is_upper c \<and> \<not> is_digit c) pw"
  using assms
  by (auto simp: validate_password_strength_def password_problems_def Let_def is_alnum_def
      list_ex_iff list_all_iff)

text \<open>PyJWT's documented contract for \<open>decode\<close> with the options the code passes: what \<open>encode\<close>
  produced comes back while it carries the required claims and has not expired.\<close>

definition jwt_read :: "instant \<Rightarrow> dict \<Rightarrow> jwt_result" where
  "jwt_read now p =
     (case (dict_get p ''exp'', dict_get p ''iat'', dict_get p ''sub'') of
        (Some (JInt e), Some i, Some s) \<Rightarrow> if e \<le> now div 1000000 then JwtExpired else JwtOk p
      | _ \<Rightarrow> JwtInvalid)"

definition jwt_contract :: "'tok sec_env \<Rightarrow> bool" where
  "jwt_contract env \<longleftrightarrow> (\<forall>p. se_decode env (se_encode env p) = jwt_read (se_now env) p)"

lemma jwt_contractD:
  assumes "jwt_contract env" "dict_get p ''exp'' = Some (JInt e)" "dict_get p ''iat'' = Some i"
    "dict_get p ''sub'' = Some s"
  shows "se_decode env (se_encode env p) = (if e \<le> se_now env div 1000000 then JwtExpired else JwtOk p)"
  using assms by (simp add: jwt_contract_def jwt_read_def)

lemma decode_token_wrong_type:
  assumes "decode_token env tok a = Inr p" "a \<noteq> b"
  shows "decode_token env tok b = Inl (TokenInvalidError (''Expected a '' @ b @ '' token.''))"
  using assms by (auto simp: decode_token_def split: jwt_result.splits if_splits)

text \<open>A download link opens exactly the object it was minted for: while it is fresh it
  verifies for that resource and id, for any other it is refused, and it never passes for an
  access token.\<close>

theorem download_token_opens_one_object:
  assumes jwt: "jwt_contract env" and ttl: "0 < ttl" and ids: "rid < 16 ^ 32" "rid' < 16 ^ 32"
  shows "(case verify_download_token env (create_download_token env u res rid ttl) res' rid' of
           Inr p \<Rightarrow> res' = res \<and> rid' = rid
         | Inl e \<Rightarrow> (res' \<noteq> res \<or> rid' \<noteq> rid) \<and>
             e = TokenInvalidError ''This download link is not valid for this item.'') \<and>
    decode_token env (create_download_token env u res rid ttl) ''access'' =
      Inl (TokenInvalidError ''Expected a access token.'')"
proof -
  have "se_now env div 1000000 < (se_now env + ttl * 1000000) div 1000000"
    using ttl by simp
  then show ?thesis
    using jwt_contractD[OF jwt, of _ "(se_now env + ttl * 1000000) div 1000000"] ids
    by (auto simp: verify_download_token_def decode_token_def create_download_token_def
        timestamp_def dict_get_def uuid_str_inject)
qed

text \<open>A codec that meets the contract: the token is the payload itself.\<close>

definition fx_sec :: "dict sec_env" where
  "fx_sec = \<lparr>se_now = 5000000000, se_scheme = Argon2, se_min_length = 8, se_refresh_days = 14,
     se_access_minutes = 30, se_app_name = ''clear'',
     se_argon_verify = (\<lambda>h p. Some (h = ''$argon2'' @ p)), se_bcrypt_check = (\<lambda>h p. None),
     se_argon_hash = (\<lambda>p. ''$argon2'' @ p), se_bcrypt_hash = (\<lambda>p. ''$2b$'' @ p),
     se_argon_needs_rehash = (\<lambda>h. Some False), se_digest = (\<lambda>t. ''#'' @ t),
     se_fresh_token = ''fresh'', se_jti = ''jti'', se_encode = (\<lambda>p. p),
     se_decode = jwt_read 5000000000\<rparr>"

lemma fx_sec_codec [simp]:
  "se_now fx_sec = 5000000000" "se_encode fx_sec p = p"
  "se_decode fx_sec = jwt_read 5000000000"
  by (simp_all add: fx_sec_def)

lemma fx_sec_contract: "jwt_contract fx_sec"
  by (simp add: jwt_contract_def)

theorem download_token_opens_one_object_witness:
  "(case verify_download_token fx_sec (create_download_token fx_sec 1 ''export'' 7 300) ''export'' 8 of
      Inr p \<Rightarrow> False | Inl e \<Rightarrow> True) \<and>
   decode_token fx_sec (create_download_token fx_sec 1 ''export'' 7 300) ''access'' =
     Inl (TokenInvalidError ''Expected a access token.'')"
  using download_token_opens_one_object[OF fx_sec_contract,
      where ttl = 300 and rid = 7 and rid' = 8 and u = 1 and res = "''export''" and res' = "''export''"]
  by (simp split: sum.splits)

end
