(* ===== verification/Auth.thy ===== *)
theory Auth
  imports Security
begin

text \<open>
  \<^verbatim>\<open>backend/app/services/auth.py\<close> and the endpoints of \<^verbatim>\<open>api/v1/auth.py\<close>: password sign-in,
  Microsoft sign-in, refresh rotation, sign-out and password change. A service operation
  returns the tables as it leaves them in the session, also when it raises; an endpoint is the
  operation inside \<open>in_request\<close>, which keeps them only when it returns. The exchange of an
  authorization code with the identity provider is an argument: the claims, or the error.
\<close>

record oidc_settings =
  oi_configured :: bool
  oi_allowed_domains :: "string list"
  oi_auto_provision :: bool

record membership_info =
  mi_project_id :: uuid
  mi_role :: role_name
  mi_permissions :: "string list"

record current_user =
  cu_user :: user_row
  cu_memberships :: "membership_info list"

record 'tok token_response =
  tr_access_token :: 'tok
  tr_expires_in :: int
  tr_expires_at :: instant
  tr_refresh_token :: "string option"
  tr_user :: current_user

record session_info =
  si_id :: uuid
  si_expires_at :: instant
  si_is_current :: bool

subsection \<open>Session assembly\<close>

text \<open>What a member may do: the role's permissions, narrowed by overrides where there are any.\<close>

definition effective_permissions :: "role_row \<Rightarrow> member_row \<Rightarrow> string list" where
  "effective_permissions r m =
     (if pm_overrides m \<noteq> [] then filter (\<lambda>p. p \<in> set (pm_overrides m)) (ro_permissions r)
      else ro_permissions r)"

text \<open>The project and role of a membership exist by its foreign keys.\<close>

definition membership_info_of :: "id_db \<Rightarrow> member_row \<Rightarrow> membership_info option" where
  "membership_info_of d m =
     (case List.find (\<lambda>p. pr_id p = pm_project_id m) (i_projects d) of
        None \<Rightarrow> None
      | Some p \<Rightarrow>
          if pr_deleted_at p \<noteq> None then None
          else (case role_by_id (pm_role_id m) d of
              None \<Rightarrow> None
            | Some r \<Rightarrow> Some \<lparr>mi_project_id = pr_id p, mi_role = ro_name r,
                mi_permissions = effective_permissions r m\<rparr>))"

definition build_current_user :: "id_db \<Rightarrow> user_row \<Rightarrow> current_user" where
  "build_current_user d u =
     \<lparr>cu_user = u, cu_memberships = List.map_filter (membership_info_of d) (list_for_user (u_id u) d)\<rparr>"

definition token_response_for :: "'tok sec_env \<Rightarrow> user_row \<Rightarrow> string \<Rightarrow> id_db \<Rightarrow> 'tok token_response" where
  "token_response_for env u refresh d =
     (case create_access_token env (u_id u) (u_is_system_admin u) (u_email u)
             (provider_value (u_auth_provider u)) of
        (access, access_expires) \<Rightarrow>
          \<lparr>tr_access_token = access, tr_expires_in = se_access_minutes env * 60,
           tr_expires_at = access_expires, tr_refresh_token = Some refresh,
           tr_user = build_current_user d u\<rparr>)"

text \<open>\<open>remember_me\<close> doubles the window, capped at 90 days.\<close>

definition session_expiry :: "'tok sec_env \<Rightarrow> bool \<Rightarrow> instant \<Rightarrow> instant" where
  "session_expiry env remember_me refresh_expires =
     (if remember_me then min (refresh_expires + days (se_refresh_days env)) (se_now env + days 90)
      else refresh_expires)"

definition issue_session :: "'tok sec_env \<Rightarrow> user_row \<Rightarrow> bool \<Rightarrow> string option \<Rightarrow> string option \<Rightarrow>
    id_db \<Rightarrow> id_db \<times> (exn + 'tok token_response)" where
  "issue_session env u remember_me ip user_agent d =
     (case create_refresh_token env of
        (refresh_value, refresh_hash, refresh_expires) \<Rightarrow>
          (case issue_token (se_now env) (u_id u) refresh_hash
                  (session_expiry env remember_me refresh_expires) user_agent ip d of
             (d1, _) \<Rightarrow> (d1, Inr (token_response_for env u refresh_value d1))))"

subsection \<open>Password sign-in\<close>

definition INVALID_CREDENTIALS :: exn where
  "INVALID_CREDENTIALS = InvalidCredentialsError ''Incorrect email or password.''"

definition ACCOUNT_LOCKED :: exn where
  "ACCOUNT_LOCKED = ForbiddenError
     (''This account is temporarily locked after repeated failed sign-in '' @
      ''attempts. Please try again shortly.'') []"

definition ACCOUNT_DEACTIVATED :: exn where
  "ACCOUNT_DEACTIVATED =
     ForbiddenError ''This account has been deactivated. Contact your administrator.'' []"

text \<open>The opportunistic upgrade of an outdated hash.\<close>

definition rehash_on_login :: "'tok sec_env \<Rightarrow> string \<Rightarrow> user_row \<Rightarrow> id_db \<Rightarrow> id_db \<times> (exn + user_row)" where
  "rehash_on_login env pw u d =
     (case u_password_hash u of
        None \<Rightarrow> (d, Inr u)
      | Some h \<Rightarrow>
          if h \<noteq> [] \<and> needs_rehash env h
          then (case hash_password env pw of
              Inl e \<Rightarrow> (d, Inl e)
            | Inr h' \<Rightarrow> (set_password_hash (u_id u) h' (u_must_change_password u) d,
                Inr (u\<lparr>u_password_hash := Some h'\<rparr>)))
          else (d, Inr u))"

definition login :: "'tok sec_env \<Rightarrow> string \<Rightarrow> string \<Rightarrow> bool \<Rightarrow> string option \<Rightarrow> string option \<Rightarrow>
    id_db \<Rightarrow> id_db \<times> (exn + 'tok token_response)" where
  "login env email pw remember_me ip user_agent d =
     (let now = se_now env; user = get_by_email False email d;
          log = (\<lambda>uid ok reason. audit (login_entry uid email ok ''password'' ip user_agent reason));
          password_ok = verify_password env pw
            (case user of None \<Rightarrow> None | Some u \<Rightarrow> u_password_hash u)
      in case user of
           None \<Rightarrow> (log None False (Some ''invalid_credentials'') d, Inl INVALID_CREDENTIALS)
         | Some u \<Rightarrow>
             if \<not> password_ok
             then (log (Some (u_id u)) False (Some ''invalid_credentials'')
                     (fst (record_failed_login now u d)), Inl INVALID_CREDENTIALS)
             else if is_locked now u
             then (log (Some (u_id u)) False (Some ''account_locked'') d, Inl ACCOUNT_LOCKED)
             else if \<not> u_is_active u
             then (log (Some (u_id u)) False (Some ''inactive_account'') d, Inl ACCOUNT_DEACTIVATED)
             else (case rehash_on_login env pw u d of
                 (d1, Inl e) \<Rightarrow> (d1, Inl e)
               | (d1, Inr u1) \<Rightarrow>
                   issue_session env (login_row now u1) remember_me ip user_agent
                     (log (Some (u_id u)) True None (record_successful_login now (u_id u) d1))))"

subsection \<open>Microsoft sign-in\<close>

text \<open>\<open>str(claims.get(a) or claims.get(b) or "")\<close>.\<close>

fun first_claim :: "dict \<Rightarrow> string list \<Rightarrow> string" where
  "first_claim c [] = []"
| "first_claim c (k # ks) =
     (case dict_get c k of
        None \<Rightarrow> first_claim c ks
      | Some v \<Rightarrow> if truthy v then json_str v else first_claim c ks)"

definition email_local :: "string \<Rightarrow> string" where
  "email_local email = takeWhile (\<lambda>c. c \<noteq> CHR ''@'') email"

definition email_domain :: "string \<Rightarrow> string" where
  "email_domain email = lower (rev (takeWhile (\<lambda>c. c \<noteq> CHR ''@'') (rev email)))"

definition require_allowed_domain :: "oidc_settings \<Rightarrow> string \<Rightarrow> exn + unit" where
  "require_allowed_domain oi email =
     (if oi_allowed_domains oi = [] then Inr ()
      else if email_domain email \<in> set (oi_allowed_domains oi) then Inr ()
      else Inl (ForbiddenError
        ''That Microsoft account is not permitted to sign in to this workspace.'' []))"

text \<open>The flush of a change to a user row, under the unique constraints.\<close>

definition flush_user :: "user_row \<Rightarrow> id_db \<Rightarrow> id_db \<times> (exn + user_row)" where
  "flush_user u d =
     (if email_taken (Some (u_id u)) (u_email u) d then (d, Inl (IntegrityError ''ix_users_email''))
      else if subject_taken (Some (u_id u)) (u_auth_provider u) (u_external_subject u) d
      then (d, Inl (IntegrityError ''uq_users_provider_subject''))
      else (update_user_row (u_id u) (\<lambda>_. u) d, Inr u))"

definition resolve_sso_user :: "oidc_settings \<Rightarrow> string \<Rightarrow> string \<Rightarrow> string \<Rightarrow> id_db \<Rightarrow>
    id_db \<times> (exn + user_row)" where
  "resolve_sso_user oi subject email full_name d =
     (case get_by_external_subject AP_MICROSOFT subject d of
        Some u \<Rightarrow>
          if u_full_name u \<noteq> full_name \<or> lower (u_email u) \<noteq> email
          then flush_user (u\<lparr>u_full_name := full_name, u_email := email\<rparr>) d
          else (d, Inr u)
      | None \<Rightarrow>
          (case get_by_email False email d of
             Some existing \<Rightarrow>
               flush_user (existing\<lparr>u_auth_provider := AP_MICROSOFT,
                 u_external_subject := Some subject,
                 u_full_name := (if u_full_name existing = [] then full_name
                                 else u_full_name existing)\<rparr>) d
           | None \<Rightarrow>
               if \<not> oi_auto_provision oi
               then (d, Inl (ForbiddenError
                 ''No account exists for this address. Contact your administrator.'' []))
               else create_user_row
                 (new_user email full_name None True False False AP_MICROSOFT (Some subject)) d))"

definition complete_oidc_login :: "'tok sec_env \<Rightarrow> oidc_settings \<Rightarrow> 'tok \<Rightarrow> (exn + dict) \<Rightarrow>
    string option \<Rightarrow> string option \<Rightarrow> id_db \<Rightarrow> id_db \<times> (exn + 'tok token_response)" where
  "complete_oidc_login env oi state exchange ip user_agent d =
     (if \<not> oi_configured oi
      then (d, Inl (NotImplementedFeatureError ''Microsoft sign-in is not configured.''))
      else (case verify_signed_state env state of
        Inl _ \<Rightarrow> (d, Inl (TokenInvalidError ''Sign-in request expired or was tampered with.''))
      | Inr state_claims \<Rightarrow>
        (case exchange of
          Inl e \<Rightarrow> (d, Inl e)
        | Inr claims \<Rightarrow>
          (let nonce = first_claim state_claims [''nonce''];
               subject = first_claim claims [''oid'', ''sub''];
               email = lower (first_claim claims [''email'', ''preferred_username'']);
               nm = first_claim claims [''name''];
               full_name = (if nm \<noteq> [] then nm else if email_local email \<noteq> [] then email_local email
                            else ''Unknown'')
           in if nonce \<noteq> [] \<and> first_claim claims [''nonce''] \<noteq> nonce
              then (d, Inl (TokenInvalidError ''Sign-in response did not match the request.''))
              else if subject = [] \<or> email = []
              then (d, Inl (TokenInvalidError
                ''The identity provider did not return an email address.''))
              else (case require_allowed_domain oi email of
                Inl e \<Rightarrow> (d, Inl e)
              | Inr _ \<Rightarrow>
                (case resolve_sso_user oi subject email full_name d of
                  (d1, Inl e) \<Rightarrow> (d1, Inl e)
                | (d1, Inr u) \<Rightarrow>
                    if \<not> u_is_active u
                    then (audit (login_entry (Some (u_id u)) email False ''microsoft'' ip None
                            (Some ''inactive_account'')) d1, Inl ACCOUNT_DEACTIVATED)
                    else issue_session env (login_row (se_now env) u) False ip user_agent
                      (audit (login_entry (Some (u_id u)) email True ''microsoft'' ip user_agent None)
                        (record_successful_login (se_now env) (u_id u) d1))))))))"

subsection \<open>Refresh, sign-out, sessions\<close>

definition SESSION_INVALID :: exn where
  "SESSION_INVALID = TokenInvalidError ''Your session is no longer valid. Please sign in again.''"

definition refresh :: "'tok sec_env \<Rightarrow> string \<Rightarrow> string option \<Rightarrow> string option \<Rightarrow> id_db \<Rightarrow>
    id_db \<times> (exn + 'tok token_response)" where
  "refresh env token ip user_agent d =
     (if token = [] then (d, Inl (UnauthenticatedError ''No refresh token supplied.''))
      else (let digest = se_digest env token; now = se_now env in
        case get_active_by_hash now digest d of
          None \<Rightarrow>
            (case get_any_by_hash digest d of
               None \<Rightarrow> (d, Inl SESSION_INVALID)
             | Some replayed \<Rightarrow>
                 (audit (denial_entry (Some (t_user_id replayed)) None ''refresh_token''
                    (Some (t_id replayed)) ''refresh_token_reuse'' ip)
                    (fst (revoke_all_for_user now (t_user_id replayed) d)), Inl SESSION_INVALID))
        | Some stored \<Rightarrow>
            (case get_user (t_user_id stored) d of
               None \<Rightarrow> (revoke_token now stored d,
                 Inl (ForbiddenError ''This account is no longer active.'' []))
             | Some u \<Rightarrow>
                 if \<not> u_is_active u
                 then (revoke_token now stored d,
                   Inl (ForbiddenError ''This account is no longer active.'' []))
                 else (case create_refresh_token env of
                   (new_token, new_hash, expires_at) \<Rightarrow>
                     (case rotate_token now stored new_hash expires_at user_agent ip d of
                        (d1, _) \<Rightarrow> (d1, Inr (token_response_for env u new_token d1)))))))"

definition logout :: "'tok sec_env \<Rightarrow> uuid \<Rightarrow> string option \<Rightarrow> bool \<Rightarrow> id_db \<Rightarrow> id_db \<times> (exn + nat)" where
  "logout env uid token all_sessions d =
     (if all_sessions
      then (case revoke_all_for_user (se_now env) uid d of (d1, n) \<Rightarrow> (d1, Inr n))
      else (case token of
          None \<Rightarrow> (d, Inr 0)
        | Some t \<Rightarrow>
            if t = [] then (d, Inr 0)
            else (case get_active_by_hash (se_now env) (se_digest env t) d of
                None \<Rightarrow> (d, Inr 0)
              | Some stored \<Rightarrow>
                  if t_user_id stored = uid then (revoke_token (se_now env) stored d, Inr 1)
                  else (d, Inr 0))))"

definition list_sessions :: "'tok sec_env \<Rightarrow> uuid \<Rightarrow> string option \<Rightarrow> id_db \<Rightarrow> session_info list" where
  "list_sessions env uid current d =
     (let current_hash = (case current of None \<Rightarrow> None
                          | Some t \<Rightarrow> if t = [] then None else Some (se_digest env t))
      in map (\<lambda>t. \<lparr>si_id = t_id t, si_expires_at = t_expires_at t,
                  si_is_current = (Some (t_token_hash t) = current_hash)\<rparr>)
           (active_sessions (se_now env) uid d))"

subsection \<open>Password change\<close>

definition change_password :: "'tok sec_env \<Rightarrow> user_row \<Rightarrow> string \<Rightarrow> string \<Rightarrow> string option \<Rightarrow>
    id_db \<Rightarrow> id_db \<times> (exn + unit)" where
  "change_password env u current_password new_password ip d =
     (case u_password_hash u of
        None \<Rightarrow> (d, Inl (ValidationError
          ''This account signs in with Microsoft and has no password to change.''))
      | Some h \<Rightarrow>
          if \<not> verify_password env current_password (Some h)
          then (audit (denial_entry (Some (u_id u)) (Some (u_email u)) ''user'' (Some (u_id u))
                  ''wrong_current_password'' ip) d,
                Inl (InvalidCredentialsError ''Your current password is incorrect.''))
          else (case validate_password_strength env new_password of
              Inl e \<Rightarrow> (d, Inl e)
            | Inr _ \<Rightarrow>
              (case hash_password env new_password of
                 Inl e \<Rightarrow> (d, Inl e)
               | Inr h' \<Rightarrow>
                 (case revoke_all_for_user (se_now env) (u_id u)
                         (set_password_hash (u_id u) h' False d) of
                    (d1, revoked) \<Rightarrow>
                      (audit (audit_entry ((audit_args AA_UPDATE ''user'' (Some (u_id u)))
                         \<lparr>au_entity_label := Some (u_email u), au_user_id := Some (u_id u),
                          au_user_email := Some (u_email u),
                          au_after := Some [(''password_changed'', FJson (JBool True)),
                            (''sessions_revoked'', FJson (JInt (int revoked)))],
                          au_ip := ip\<rparr>)) d1, Inr ())))))"

subsection \<open>Endpoints\<close>

text \<open>The refresh cookie is its value and its \<open>max_age\<close>; the body carries the token only on
  request.\<close>

record 'tok http_session =
  hs_cookie :: "(string \<times> int) option"
  hs_body :: "'tok token_response"

definition refresh_cookie :: "'tok sec_env \<Rightarrow> bool \<Rightarrow> 'tok token_response \<Rightarrow> 'tok http_session" where
  "refresh_cookie env token_in_body r =
     (case tr_refresh_token r of
        None \<Rightarrow> \<lparr>hs_cookie = None, hs_body = r\<rparr>
      | Some t \<Rightarrow>
          if t = [] then \<lparr>hs_cookie = None, hs_body = r\<rparr>
          else \<lparr>hs_cookie = Some (t, se_refresh_days env * 24 * 3600),
                hs_body = (if token_in_body then r else r\<lparr>tr_refresh_token := None\<rparr>)\<rparr>)"

definition login_endpoint :: "'tok sec_env \<Rightarrow> string \<Rightarrow> string \<Rightarrow> bool \<Rightarrow> bool \<Rightarrow> string option \<Rightarrow>
    string option \<Rightarrow> id_db \<Rightarrow> id_db \<times> (exn + 'tok http_session)" where
  "login_endpoint env email pw remember_me token_in_body ip user_agent =
     in_request (\<lambda>d. apsnd (map_sum id (refresh_cookie env token_in_body))
       (login env email pw remember_me ip user_agent d))"

definition presented_token :: "string option \<Rightarrow> string option \<Rightarrow> string option" where
  "presented_token payload cookie =
     (case payload of Some t \<Rightarrow> if t = [] then cookie else Some t | None \<Rightarrow> cookie)"

definition refresh_endpoint :: "'tok sec_env \<Rightarrow> string option \<Rightarrow> string option \<Rightarrow> bool \<Rightarrow> string option \<Rightarrow>
    string option \<Rightarrow> id_db \<Rightarrow> id_db \<times> (exn + 'tok http_session)" where
  "refresh_endpoint env payload cookie token_in_body ip user_agent =
     in_request (\<lambda>d. case presented_token payload cookie of
         None \<Rightarrow> (d, Inl (UnauthenticatedError ''No refresh token supplied.''))
       | Some t \<Rightarrow> apsnd (map_sum id (refresh_cookie env token_in_body))
           (refresh env t ip user_agent d))"

definition logout_endpoint :: "'tok sec_env \<Rightarrow> uuid \<Rightarrow> string option \<Rightarrow> string option \<Rightarrow> bool \<Rightarrow>
    id_db \<Rightarrow> id_db \<times> (exn + nat)" where
  "logout_endpoint env uid payload cookie all_sessions =
     in_request (logout env uid (presented_token payload cookie) all_sessions)"

definition change_password_endpoint :: "'tok sec_env \<Rightarrow> user_row \<Rightarrow> string \<Rightarrow> string \<Rightarrow> string option \<Rightarrow>
    id_db \<Rightarrow> id_db \<times> (exn + unit)" where
  "change_password_endpoint env u current_password new_password ip =
     in_request (change_password env u current_password new_password ip)"

end
