(* ===== verification/AuthLaws.thy ===== *)
theory AuthLaws
  imports Auth
begin

text \<open>
  Laws of sign-in: the contracts of an update of a user row and of a token row as locales,
  the invariants of the two tables, the order \<open>tokens_forward\<close> in which every operation moves the
  tokens, the step relation of the endpoints, and the properties that rest on them.
\<close>

subsection \<open>Updates of user rows\<close>

text \<open>The uniqueness the schema promises: identifiers, emails up to case, and subjects.\<close>

definition subject_key :: "user_row \<Rightarrow> (auth_provider \<times> string) option" where
  "subject_key u = map_option (Pair (u_auth_provider u)) (u_external_subject u)"

definition users_wf :: "id_db \<Rightarrow> bool" where
  "users_wf d \<longleftrightarrow>
     distinct (map u_id (i_users d)) \<and> list_all (\<lambda>u. u_id u < i_next_id d) (i_users d) \<and>
     distinct (map (\<lambda>u. lower (u_email u)) (i_users d)) \<and>
     distinct (List.map_filter subject_key (i_users d))"

lemma map_filter_update_where:
  "(\<And>u. h (f u) = h u) \<Longrightarrow> List.map_filter h (update_where P f us) = List.map_filter h us"
  by (induction us) (auto simp: update_where_def List.map_filter_simps split: option.splits)

lemma list_all_update_where:
  "(\<And>u. P (f u) = P u) \<Longrightarrow> list_all P (update_where Q f us) = list_all P us"
  by (induction us) (auto simp: update_where_def)

lemma set_map_filter: "set (List.map_filter h xs) = {y. \<exists>x \<in> set xs. h x = Some y}"
  by (induction xs) (auto simp: List.map_filter_simps split: option.splits)

lemma map_filter_append [simp]:
  "List.map_filter h (xs @ ys) = List.map_filter h xs @ List.map_filter h ys"
  by (induction xs) (auto simp: List.map_filter_simps split: option.splits)

locale user_update =
  fixes f :: "user_row \<Rightarrow> user_row"
  assumes keeps_id: "u_id (f u) = u_id u"
    and keeps_email: "u_email (f u) = u_email u"
    and keeps_provider: "u_auth_provider (f u) = u_auth_provider u"
    and keeps_subject: "u_external_subject (f u) = u_external_subject u"
    and keeps_deleted: "u_deleted_at (f u) = u_deleted_at u"
begin

lemma wf: "users_wf d \<Longrightarrow> users_wf (update_user_row uid f d)"
  by (simp add: users_wf_def update_user_row_def map_update_where keeps_id keeps_email
      map_filter_update_where list_all_update_where subject_key_def keeps_provider keeps_subject)

lemma lookup:
  "get_user k (update_user_row uid f d) =
    (if k = uid then map_option f (get_user k d) else get_user k d)"
proof -
  have "filter (\<lambda>u. u_deleted_at u = None) (update_where P f us) =
      update_where P f (filter (\<lambda>u. u_deleted_at u = None) us)" for P us
    by (induction us) (auto simp: update_where_def keeps_deleted)
  then show ?thesis
    by (simp add: get_user_def live_users_def update_user_row_def find_update_where keeps_id)
qed

end

interpretation login_update: user_update "login_row now"
  by unfold_locales (simp_all add: login_row_def)

interpretation failed_login_update: user_update "failed_login_row now"
  by unfold_locales (simp_all add: failed_login_row_def Let_def)

interpretation password_update: user_update
  "\<lambda>u. u\<lparr>u_password_hash := h, u_must_change_password := b\<rparr>"
  by unfold_locales simp_all

subsection \<open>Tokens only move forward\<close>

definition tokens_wf :: "id_db \<Rightarrow> bool" where
  "tokens_wf d \<longleftrightarrow>
     distinct (map t_id (i_tokens d)) \<and>
     (\<forall>t \<in> set (i_tokens d). t_id t < i_next_id d \<and>
        (\<forall>r. t_replaced_by_id t = Some r \<longrightarrow> t_id t < r \<and> t_revoked_at t \<noteq> None))"

text \<open>A token of the later state is a new one, or an older one with its owner, digest and expiry,
  revoked if it was.\<close>

definition tokens_forward :: "id_db \<Rightarrow> id_db \<Rightarrow> bool" where
  "tokens_forward d d' \<longleftrightarrow> i_next_id d \<le> i_next_id d' \<and>
     (\<forall>t' \<in> set (i_tokens d'). i_next_id d \<le> t_id t' \<or>
        (\<exists>t \<in> set (i_tokens d). t_id t = t_id t' \<and> t_user_id t = t_user_id t' \<and>
           t_token_hash t = t_token_hash t' \<and> t_expires_at t = t_expires_at t' \<and>
           (t_revoked_at t \<noteq> None \<longrightarrow> t_revoked_at t' \<noteq> None)))"

lemma tokens_forward_refl [simp]: "tokens_forward d d"
  by (auto simp: tokens_forward_def)

lemma tokens_forward_trans:
  assumes "tokens_forward a b" "tokens_forward b c"
  shows "tokens_forward a c"
  unfolding tokens_forward_def
proof (intro conjI ballI)
  show "i_next_id a \<le> i_next_id c" using assms by (simp add: tokens_forward_def)
next
  fix t' assume "t' \<in> set (i_tokens c)"
  then consider (new) "i_next_id b \<le> t_id t'"
    | (old) t where "t \<in> set (i_tokens b)" "t_id t = t_id t'" "t_user_id t = t_user_id t'"
        "t_token_hash t = t_token_hash t'" "t_expires_at t = t_expires_at t'"
        "t_revoked_at t \<noteq> None \<Longrightarrow> t_revoked_at t' \<noteq> None"
    using assms(2) unfolding tokens_forward_def by blast
  then show "i_next_id a \<le> t_id t' \<or>
      (\<exists>t \<in> set (i_tokens a). t_id t = t_id t' \<and> t_user_id t = t_user_id t' \<and>
         t_token_hash t = t_token_hash t' \<and> t_expires_at t = t_expires_at t' \<and>
         (t_revoked_at t \<noteq> None \<longrightarrow> t_revoked_at t' \<noteq> None))"
  proof cases
    case new
    then show ?thesis using assms(1) by (auto simp: tokens_forward_def)
  next
    case old
    then show ?thesis using assms(1) unfolding tokens_forward_def by (metis (no_types))
  qed
qed

lemma tokens_forward_eq:
  "i_tokens d' = i_tokens d \<Longrightarrow> i_next_id d \<le> i_next_id d' \<Longrightarrow> tokens_forward d d'"
  by (auto simp: tokens_forward_def)

locale token_update =
  fixes f :: "token_row \<Rightarrow> token_row"
  assumes keeps_id: "t_id (f t) = t_id t"
    and keeps_owner: "t_user_id (f t) = t_user_id t"
    and keeps_hash: "t_token_hash (f t) = t_token_hash t"
    and keeps_expiry: "t_expires_at (f t) = t_expires_at t"
    and revokes: "t_revoked_at (f t) \<noteq> None"
begin

lemma forward: "tokens_forward d (d\<lparr>i_tokens := update_where P f (i_tokens d)\<rparr>)"
  unfolding tokens_forward_def
  by (auto simp: set_update_where keeps_id keeps_owner keeps_hash keeps_expiry revokes)

lemma wf:
  assumes "tokens_wf d"
    and "\<And>t r. t \<in> set (i_tokens d) \<Longrightarrow> P t \<Longrightarrow> t_replaced_by_id (f t) = Some r \<Longrightarrow> t_id t < r"
  shows "tokens_wf (d\<lparr>i_tokens := update_where P f (i_tokens d)\<rparr>)"
  using assms unfolding tokens_wf_def
  by (auto simp: map_update_where keeps_id set_update_where revokes[simplified])

end

interpretation revoke_update: token_update "\<lambda>t. t\<lparr>t_revoked_at := Some now\<rparr>"
  by unfold_locales simp_all

interpretation rotate_update: token_update
  "\<lambda>t. t\<lparr>t_revoked_at := Some now, t_replaced_by_id := Some r\<rparr>"
  by unfold_locales simp_all

subsection \<open>What each repository operation does to the two tables\<close>

definition id_ok :: "id_db \<Rightarrow> id_db \<Rightarrow> bool" where
  "id_ok d d' \<longleftrightarrow> tokens_forward d d' \<and>
     (users_wf d \<and> tokens_wf d \<longrightarrow> users_wf d' \<and> tokens_wf d')"

lemma id_ok_refl [simp]: "id_ok d d"
  by (simp add: id_ok_def)

lemma id_ok_trans: "id_ok a b \<Longrightarrow> id_ok b c \<Longrightarrow> id_ok a c"
  unfolding id_ok_def by (meson tokens_forward_trans)

lemma wf_frame:
  "i_users d' = i_users d \<Longrightarrow> i_next_id d \<le> i_next_id d' \<Longrightarrow> users_wf d \<Longrightarrow> users_wf d'"
  "i_tokens d' = i_tokens d \<Longrightarrow> i_next_id d \<le> i_next_id d' \<Longrightarrow> tokens_wf d \<Longrightarrow> tokens_wf d'"
  by (auto simp: users_wf_def tokens_wf_def list_all_iff)

lemma ok_audit [simp]: "id_ok d (audit e d)"
  by (auto simp: id_ok_def audit_def intro: wf_frame tokens_forward_eq)

lemma ok_user_update:
  assumes "user_update f" shows "id_ok d (update_user_row uid f d)"
  using user_update.wf[OF assms]
  by (auto simp: id_ok_def update_user_row_def intro: wf_frame(2) tokens_forward_eq)

lemma ok_create_user: "id_ok d (fst (create_user_row proto d))"
proof -
  let ?u = "proto\<lparr>u_id := i_next_id d\<rparr>"
  let ?d = "d\<lparr>i_users := i_users d @ [?u], i_next_id := Suc (i_next_id d)\<rparr>"
  have "users_wf ?d" if wf: "users_wf d" and email: "\<not> email_taken None (u_email proto) d"
    and subject: "\<not> subject_taken None (u_auth_provider proto) (u_external_subject proto) d"
  proof -
    have "lower (u_email proto) \<notin> (\<lambda>u. lower (u_email u)) ` set (i_users d)"
      using email by (auto simp: email_taken_def)
    moreover have "subject_key v \<noteq> subject_key ?u \<or> subject_key v = None" if "v \<in> set (i_users d)" for v
      using subject that
      by (cases "u_external_subject v"; cases "u_external_subject proto")
        (auto simp: subject_taken_def subject_key_def)
    moreover have "i_next_id d \<notin> u_id ` set (i_users d)"
      using wf by (auto simp: users_wf_def list_all_iff)
    ultimately show ?thesis
      using wf by (cases "subject_key ?u")
        (auto simp: users_wf_def list_all_iff less_Suc_eq List.map_filter_simps set_map_filter)
  qed
  then show ?thesis
    by (auto simp: id_ok_def create_user_row_def Let_def intro: tokens_forward_eq wf_frame(2))
qed

lemma distinct_map_filter_replace:
  assumes "distinct (map u_id us)" "distinct (List.map_filter h us)"
    and "\<And>v y. v \<in> set us \<Longrightarrow> u_id v \<noteq> uid \<Longrightarrow> h w = Some y \<Longrightarrow> h v \<noteq> Some y"
  shows "distinct (List.map_filter h (update_where (\<lambda>v. u_id v = uid) (\<lambda>_. w) us))"
  using assms
proof (induction us)
  case (Cons v us)
  show ?case
  proof (cases "u_id v = uid")
    case True
    then have "update_where (\<lambda>v. u_id v = uid) (\<lambda>_. w) us = us"
      using Cons.prems(1) by (intro update_where_none) (metis distinct.simps(2) imageI list.set_map list.simps(9))
    moreover have "y \<notin> set (List.map_filter h us)" if "h w = Some y" for y
    proof -
      have "u_id x \<noteq> uid" if "x \<in> set us" for x
        using that Cons.prems(1) True by auto (metis imageI)
      then show ?thesis
        using Cons.prems(3) \<open>h w = Some y\<close> by (auto simp: set_map_filter)
    qed
    ultimately show ?thesis
      using True Cons.prems(2)
      by (auto simp: update_where_def List.map_filter_simps split: option.splits)
  next
    case False
    have IH: "distinct (List.map_filter h (update_where (\<lambda>v. u_id v = uid) (\<lambda>_. w) us))"
      using Cons.prems by (intro Cons.IH) (auto simp: List.map_filter_simps split: option.splits)
    moreover have "y \<notin> set (List.map_filter h (update_where (\<lambda>v. u_id v = uid) (\<lambda>_. w) us))"
      if "h v = Some y" for y
      using that False Cons.prems
      by (auto simp: set_map_filter set_update_where List.map_filter_simps)
    ultimately show ?thesis
      using False by (auto simp: update_where_def List.map_filter_simps split: option.splits)
  qed
qed (simp add: update_where_def List.map_filter_simps)

lemma map_filter_Some: "List.map_filter (\<lambda>u. Some (g u)) us = map g us"
  by (induction us) (simp_all add: List.map_filter_simps)

lemma ok_flush_user:
  assumes "u \<in> set (i_users d) \<or> (\<exists>v \<in> set (i_users d). u_id v = u_id u)"
  shows "id_ok d (fst (flush_user u d))"
proof -
  have "users_wf (update_user_row (u_id u) (\<lambda>_. u) d)"
    if wf: "users_wf d" and email: "\<not> email_taken (Some (u_id u)) (u_email u) d"
      and subject: "\<not> subject_taken (Some (u_id u)) (u_auth_provider u) (u_external_subject u) d"
  proof -
    let ?us = "update_where (\<lambda>v. u_id v = u_id u) (\<lambda>_. u) (i_users d)"
    have ids: "distinct (map u_id (i_users d))" and lt: "u_id u < i_next_id d"
      using wf assms by (auto simp: users_wf_def list_all_iff)
    have "map u_id ?us = map u_id (i_users d)" by (auto simp: update_where_def)
    moreover have "list_all (\<lambda>v. u_id v < i_next_id d) ?us"
      using wf lt by (auto simp: users_wf_def list_all_iff set_update_where)
    moreover have "distinct (List.map_filter (\<lambda>v. Some (lower (u_email v))) ?us)"
      by (rule distinct_map_filter_replace[OF ids])
        (use wf email in \<open>auto simp: users_wf_def map_filter_Some email_taken_def\<close>)
    moreover have "distinct (List.map_filter subject_key ?us)"
      by (rule distinct_map_filter_replace[OF ids])
        (use wf subject in \<open>auto simp: users_wf_def subject_taken_def subject_key_def\<close>)
    ultimately show ?thesis
      using ids by (simp add: users_wf_def update_user_row_def map_filter_Some)
  qed
  then show ?thesis
    by (auto simp: id_ok_def flush_user_def update_user_row_def intro: tokens_forward_eq wf_frame(2))
qed

lemma ok_issue: "id_ok d (fst (issue_token now uid h ex ua ip d))"
proof -
  let ?d = "fst (issue_token now uid h ex ua ip d)"
  have "tokens_forward d ?d"
    by (auto simp: issue_token_def Let_def tokens_forward_def)
  moreover have "tokens_wf ?d" if "tokens_wf d"
    using that by (auto simp: issue_token_def Let_def tokens_wf_def less_Suc_eq)
  ultimately show ?thesis
    by (auto simp: id_ok_def issue_token_def Let_def intro: wf_frame(1))
qed

lemma ok_revoke: "id_ok d (revoke_token now t d)"
proof -
  have "tokens_wf (revoke_token now t d)" if "tokens_wf d"
    unfolding revoke_token_def update_token_def
    by (rule revoke_update.wf[OF that]) (use that in \<open>auto simp: tokens_wf_def\<close>)
  then show ?thesis
    using revoke_update.forward[of d "\<lambda>u. t_id u = t_id t" now]
    by (auto simp: id_ok_def revoke_token_def update_token_def intro: wf_frame(1))
qed

lemma ok_revoke_all: "id_ok d (fst (revoke_all_for_user now uid d))"
proof -
  have "tokens_wf (fst (revoke_all_for_user now uid d))" if "tokens_wf d"
    unfolding revoke_all_for_user_def fst_conv
    by (rule revoke_update.wf[OF that]) (use that in \<open>auto simp: tokens_wf_def\<close>)
  then show ?thesis
    using revoke_update.forward[of d "unrevoked_of uid" now]
    by (auto simp: id_ok_def revoke_all_for_user_def intro: wf_frame(1))
qed

lemma ok_rotate:
  assumes "old \<in> set (i_tokens d)"
  shows "id_ok d (fst (rotate_token now old h ex ua ip d))"
proof -
  let ?i = "issue_token now (t_user_id old) h ex ua ip d"
  let ?f = "\<lambda>t. t\<lparr>t_revoked_at := Some now, t_replaced_by_id := Some (t_id (snd ?i))\<rparr>"
  let ?d = "fst ?i"
  have eq: "fst (rotate_token now old h ex ua ip d) = update_token (t_id old) ?f ?d"
    by (simp add: rotate_token_def split: prod.splits)
  have new: "t_id (snd ?i) = i_next_id d" by (simp add: issue_token_def Let_def)
  have "tokens_wf (update_token (t_id old) ?f ?d)" if "tokens_wf d"
  proof -
    have wf: "tokens_wf ?d" using ok_issue[of d now "t_user_id old" h ex ua ip] that
      by (auto simp: id_ok_def issue_token_def Let_def tokens_wf_def less_Suc_eq)
    have "t_id old < i_next_id d" using that assms by (auto simp: tokens_wf_def)
    then show ?thesis
      unfolding update_token_def by (intro rotate_update.wf[OF wf]) (simp add: new)
  qed
  moreover have "tokens_forward ?d (update_token (t_id old) ?f ?d)"
    unfolding update_token_def by (rule rotate_update.forward)
  moreover have "users_wf d \<Longrightarrow> users_wf (update_token (t_id old) ?f ?d)"
    by (rule wf_frame(1)[where d = d]) (simp_all add: update_token_def issue_token_def Let_def)
  ultimately show ?thesis
    using ok_issue[of d now "t_user_id old" h ex ua ip] unfolding eq id_ok_def
    by (meson tokens_forward_trans)
qed

lemma ok_purge: "id_ok d (fst (purge_expired_tokens now n d))"
proof -
  let ?d = "fst (purge_expired_tokens now n d)"
  have "tokens_forward d ?d"
    by (auto simp: purge_expired_tokens_def Let_def tokens_forward_def)
  moreover have "tokens_wf ?d" if "tokens_wf d"
  proof -
    have "map t_id (i_tokens ?d) = map t_id (filter (\<lambda>t. \<not> t_expires_at t < now - days n) (i_tokens d))"
      by (simp add: purge_expired_tokens_def Let_def)
    then have "distinct (map t_id (i_tokens ?d))"
      using that by (simp add: tokens_wf_def distinct_map_filter)
    then show ?thesis
      using that by (auto simp: purge_expired_tokens_def Let_def tokens_wf_def)
  qed
  ultimately show ?thesis
    by (auto simp: id_ok_def purge_expired_tokens_def Let_def intro: wf_frame(1))
qed

subsection \<open>The endpoints\<close>

lemmas ok_update_login = ok_user_update[OF login_update.user_update_axioms]
lemmas ok_update_failed = ok_user_update[OF failed_login_update.user_update_axioms]
lemmas ok_update_password = ok_user_update[OF password_update.user_update_axioms]

lemma ok_in_request: "id_ok d (fst (h d)) \<Longrightarrow> id_ok d (fst (in_request h d))"
  by (auto simp: in_request_def split: prod.splits sum.splits)

lemma ok_apsnd [simp]: "fst (apsnd f p) = fst p"
  by (simp add: apsnd_def)

lemma ok_issue_session: "id_ok d (fst (issue_session env u rm ip ua d))"
  using ok_issue by (auto simp: issue_session_def create_refresh_token_def split: prod.splits)
    (metis fst_conv)

lemma ok_rehash: "id_ok d (fst (rehash_on_login env pw u d))"
  using ok_update_password
  by (auto simp: rehash_on_login_def set_password_hash_def split: option.splits sum.splits)

lemma ok_login: "id_ok d (fst (login env email pw rm ip ua d))"
proof (cases "get_by_email False email d")
  case None
  then show ?thesis by (simp add: login_def)
next
  case (Some u)
  obtain d1 r where reh: "rehash_on_login env pw u d = (d1, r)" by fastforce
  then have d1: "id_ok d d1" using ok_rehash[of d env pw u] by simp
  have "id_ok d (fst (issue_session env v rm ip ua (audit e (record_successful_login now uid d1))))"
    for v e now uid
    using d1 ok_update_login[of d1 uid now] ok_audit ok_issue_session
    unfolding record_successful_login_def by (meson id_ok_trans)
  moreover have "id_ok d (audit e (fst (record_failed_login now u d)))" for e now
    using ok_update_failed[of d "u_id u" now] ok_audit unfolding record_failed_login_def fst_conv
    by (meson id_ok_trans)
  ultimately show ?thesis
    using Some reh d1 by (auto simp: login_def Let_def split: sum.splits)
qed

lemma get_by_email_in: "get_by_email b email d = Some u \<Longrightarrow> u \<in> set (i_users d)"
  by (auto simp: get_by_email_def live_users_def dest!: find_SomeD split: if_splits)

lemma get_by_subject_in: "get_by_external_subject p s d = Some u \<Longrightarrow> u \<in> set (i_users d)"
  by (auto simp: get_by_external_subject_def live_users_def dest!: find_SomeD)

lemma ok_resolve: "id_ok d (fst (resolve_sso_user oi s e n d))"
proof -
  have "id_ok d (fst (flush_user (u\<lparr>u_full_name := x, u_email := y\<rparr>) d))"
    "id_ok d (fst (flush_user (u\<lparr>u_auth_provider := a, u_external_subject := b, u_full_name := x\<rparr>) d))"
    "id_ok d (fst (flush_user (u\<lparr>u_auth_provider := a, u_external_subject := b\<rparr>) d))"
    if "u \<in> set (i_users d)" for u x y a b
    using that by (intro ok_flush_user; force)+
  then show ?thesis
    using ok_create_user
    by (auto simp: resolve_sso_user_def dest: get_by_email_in get_by_subject_in split: option.splits)
qed

lemma ok_oidc: "id_ok d (fst (complete_oidc_login env oi st ex ip ua d))"
proof -
  have "id_ok d (fst (case resolve_sso_user oi s e n d of
      (d1, Inl x) \<Rightarrow> (d1, Inl x)
    | (d1, Inr u) \<Rightarrow> if \<not> u_is_active u then (audit (a1 u) d1, Inl ACCOUNT_DEACTIVATED)
        else issue_session env (login_row (se_now env) u) False ip ua
          (audit (a2 u) (record_successful_login (se_now env) (u_id u) d1))))" for s e n a1 a2
  proof -
    obtain d1 r where r: "resolve_sso_user oi s e n d = (d1, r)" by fastforce
    then have d1: "id_ok d d1" using ok_resolve[of d oi s e n] by simp
    have "id_ok d (fst (issue_session env v False ip ua (audit x (record_successful_login now uid d1))))"
      "id_ok d (audit x d1)" for v x now uid
      using d1 ok_update_login[of d1 uid now] ok_audit ok_issue_session
      unfolding record_successful_login_def by (meson id_ok_trans)+
    with r d1 show ?thesis by (cases r) auto
  qed
  then show ?thesis
    by (simp add: complete_oidc_login_def Let_def split: sum.splits)
qed

lemma active_in: "get_active_by_hash now h d = Some t \<Longrightarrow>
    t \<in> set (i_tokens d) \<and> t_token_hash t = h \<and> t_revoked_at t = None \<and> t_expires_at t > now"
  by (auto simp: get_active_by_hash_def dest!: find_SomeD)

lemma ok_refresh: "id_ok d (fst (refresh env token ip ua d))"
proof (cases "token = [] \<or> get_active_by_hash (se_now env) (se_digest env token) d = None")
  case True
  have "id_ok d (audit e (fst (revoke_all_for_user now uid d)))" for e now uid
    using ok_revoke_all ok_audit by (meson id_ok_trans)
  with True show ?thesis by (auto simp: refresh_def Let_def split: option.splits)
next
  case False
  then obtain t where t: "get_active_by_hash (se_now env) (se_digest env token) d = Some t" by auto
  then have "id_ok d (fst (rotate_token now t h ex ua ip d))" for now h ex
    by (intro ok_rotate) (auto dest: active_in)
  with t False show ?thesis
    by (auto simp: refresh_def Let_def create_refresh_token_def ok_revoke
        split: option.splits prod.splits) (metis fst_conv)
qed

lemma ok_logout: "id_ok d (fst (logout env uid token a d))"
  using ok_revoke_all ok_revoke
  by (auto simp: logout_def split: option.splits prod.splits) (metis fst_conv)+

lemma ok_change: "id_ok d (fst (change_password env u cp np ip d))"
proof -
  have "id_ok d (audit e (fst (revoke_all_for_user now uid (set_password_hash uid h b d))))" for e now uid h b
    using ok_update_password ok_revoke_all ok_audit unfolding set_password_hash_def
    by (meson id_ok_trans)
  then show ?thesis
    by (auto simp: change_password_def split: option.splits sum.splits prod.splits) (metis fst_conv)
qed

text \<open>What can happen to the tables: one endpoint call, or the periodic purge. \<open>envs\<close> are the
  environments the calls meet: the clock, the settings, the random values.\<close>

inductive auth_step :: "'tok sec_env set \<Rightarrow> id_db \<Rightarrow> id_db \<Rightarrow> bool" for envs where
  sign_in: "env \<in> envs \<Longrightarrow> auth_step envs d (fst (login_endpoint env email pw rm tb ip ua d))"
| sso: "env \<in> envs \<Longrightarrow>
    auth_step envs d (fst (in_request (complete_oidc_login env oi state exchange ip ua) d))"
| rotation: "env \<in> envs \<Longrightarrow>
    auth_step envs d (fst (refresh_endpoint env payload cookie tb ip ua d))"
| sign_out: "env \<in> envs \<Longrightarrow>
    auth_step envs d (fst (logout_endpoint env uid payload cookie a d))"
| password: "env \<in> envs \<Longrightarrow>
    auth_step envs d (fst (change_password_endpoint env u cp np ip d))"
| purge: "env \<in> envs \<Longrightarrow> auth_step envs d (fst (purge_expired_tokens (se_now env) n d))"

lemma auth_step_ok: "auth_step envs d d' \<Longrightarrow> id_ok d d'"
proof (induction rule: auth_step.induct)
  case (rotation env d payload cookie tb ip ua)
  show ?case
    unfolding refresh_endpoint_def
    by (rule ok_in_request) (simp add: ok_refresh split: option.splits)
qed (simp_all add: login_endpoint_def logout_endpoint_def change_password_endpoint_def
      ok_in_request ok_login ok_oidc ok_logout ok_change ok_purge)

lemma auth_steps_ok: "(auth_step envs)\<^sup>*\<^sup>* d d' \<Longrightarrow> id_ok d d'"
  by (induction rule: rtranclp_induct) (auto intro: id_ok_trans auth_step_ok)

subsection \<open>Properties\<close>

text \<open>C17: Along every sequence of endpoint calls and purges, a revoked refresh token stays revoked
  under its own digest, a replaced token points at a later one (so chains of successors do not
  loop), and identifiers, emails and subjects stay unique.\<close>

theorem revoked_tokens_stay_revoked:
  assumes steps: "(auth_step envs)\<^sup>*\<^sup>* d d'" and wf: "users_wf d" "tokens_wf d"
    and t: "t \<in> set (i_tokens d)" "t_revoked_at t \<noteq> None"
    and t': "t' \<in> set (i_tokens d')" "t_id t' = t_id t"
  shows "t_revoked_at t' \<noteq> None \<and> t_token_hash t' = t_token_hash t \<and> users_wf d' \<and> tokens_wf d'"
proof -
  have ok: "tokens_forward d d'" "users_wf d'" "tokens_wf d'"
    using auth_steps_ok[OF steps] wf by (auto simp: id_ok_def)
  have "t_id t' < i_next_id d" using wf(2) t(1) t'(2) by (auto simp: tokens_wf_def)
  then obtain s where s: "s \<in> set (i_tokens d)" "t_id s = t_id t'" "t_token_hash s = t_token_hash t'"
      "t_revoked_at s \<noteq> None \<longrightarrow> t_revoked_at t' \<noteq> None"
    using ok(1) t'(1) unfolding tokens_forward_def by force
  moreover have "s = t"
    using wf(2) s(1,2) t(1) t'(2) unfolding tokens_wf_def distinct_map by (metis inj_onD)
  ultimately show ?thesis using ok t(2) by simp
qed

text \<open>C24: Sign-in succeeds exactly for a live account with the right password that is neither
  locked nor deactivated; an unknown email and a wrong password get the same answer, and a
  refused sign-in changes nothing.\<close>

theorem sign_in_succeeds_iff:
  assumes "pw \<noteq> []"
  shows "(case snd (login_endpoint env email pw rm tb ip ua d) of
      Inr s \<Rightarrow> (\<exists>u. get_by_email False email d = Some u \<and> u_is_active u \<and>
          \<not> is_locked (se_now env) u \<and> verify_password env pw (u_password_hash u))
    | Inl e \<Rightarrow> fst (login_endpoint env email pw rm tb ip ua d) = d \<and>
        e = (case get_by_email False email d of
            None \<Rightarrow> INVALID_CREDENTIALS
          | Some u \<Rightarrow> if \<not> verify_password env pw (u_password_hash u) then INVALID_CREDENTIALS
                      else if is_locked (se_now env) u then ACCOUNT_LOCKED
                      else ACCOUNT_DEACTIVATED) \<and>
        (case get_by_email False email d of None \<Rightarrow> True
          | Some u \<Rightarrow> \<not> (verify_password env pw (u_password_hash u) \<and>
                          \<not> is_locked (se_now env) u \<and> u_is_active u)))"
proof -
  have reh: "\<exists>d1 u1. rehash_on_login env pw u d = (d1, Inr u1)" for u
    using assms by (auto simp: rehash_on_login_def hash_password_def split: option.splits)
  have iss: "\<exists>d1 r. issue_session env u rm ip ua d0 = (d1, Inr r)" for u d0
    by (auto simp: issue_session_def split: prod.splits)
  show ?thesis
  proof (cases "get_by_email False email d")
    case None
    then show ?thesis by (simp add: login_endpoint_def in_request_def login_def)
  next
    case (Some u)
    obtain d1 u1 where r: "rehash_on_login env pw u d = (d1, Inr u1)" using reh by blast
    show ?thesis
    proof (cases "verify_password env pw (u_password_hash u) \<and> \<not> is_locked (se_now env) u \<and> u_is_active u")
      case True
      obtain d2 x where x: "login env email pw rm ip ua d = (d2, Inr x)"
        using iss[of "login_row (se_now env) u1"] True Some r that
        by (auto simp: login_def Let_def simp del: split_paired_All)
      show ?thesis using True Some by (simp add: login_endpoint_def in_request_def x)
    next
      case False
      then show ?thesis
        using Some by (auto simp: login_endpoint_def in_request_def login_def Let_def)
    qed
  qed
qed

text \<open>A run of sign-ins, and an attempt with a wrong password or an unknown email.\<close>

definition run_sign_ins :: "('tok sec_env \<times> string \<times> string) list \<Rightarrow> id_db \<Rightarrow> id_db" where
  "run_sign_ins attempts d =
     fold (\<lambda>(env, email, pw) d. fst (login_endpoint env email pw False False None None d)) attempts d"

definition wrong_password :: "id_db \<Rightarrow> 'tok sec_env \<times> string \<times> string \<Rightarrow> bool" where
  "wrong_password d = (\<lambda>(env, email, pw). pw \<noteq> [] \<and>
     (case get_by_email False email d of
        None \<Rightarrow> True | Some u \<Rightarrow> \<not> verify_password env pw (u_password_hash u)))"

lemma wrong_password_no_trace:
  assumes "wrong_password d (env, email, pw)"
  shows "fst (login_endpoint env email pw rm tb ip ua d) = d"
  using assms
  by (auto simp: wrong_password_def login_endpoint_def in_request_def login_def Let_def
      split: option.splits)

lemma failed_login_rows:
  assumes "u_failed_login_count u = int k" "k + n = 8" "0 < n"
  shows "is_locked now ((failed_login_row now ^^ n) u)"
  using assms
proof (induction n arbitrary: u k)
  case (Suc n)
  show ?case
  proof (cases n)
    case 0
    then show ?thesis using Suc.prems
      by (simp add: failed_login_row_def MAX_FAILED_LOGINS_def is_locked_def minutes_def LOCKOUT_MINUTES_def)
  next
    case (Suc m)
    have "u_failed_login_count (failed_login_row now u) = int (Suc k)"
      using Suc Suc.prems by (simp add: failed_login_row_def MAX_FAILED_LOGINS_def)
    then have "is_locked now ((failed_login_row now ^^ n) (failed_login_row now u))"
      using Suc.IH[of "failed_login_row now u" "Suc k"] Suc Suc.prems by simp
    then show ?thesis by (simp add: funpow_Suc_right del: funpow.simps)
  qed
qed simp

text \<open>The account lockout never takes effect. \<open>record_failed_login\<close> alone would lock the
  account at the eighth failure, but the sign-in that calls it raises, and the request's
  transaction is rolled back: any number of wrong passwords leaves the tables as they were.\<close>

theorem wrong_passwords_never_lock:
  assumes "list_all (wrong_password d) attempts" and "u_failed_login_count u = 0"
  shows "run_sign_ins attempts d = d \<and> is_locked now ((failed_login_row now ^^ 8) u)"
proof -
  have "run_sign_ins attempts d = d"
    using assms(1)
    by (induction attempts) (auto simp: run_sign_ins_def wrong_password_no_trace)
  then show ?thesis using failed_login_rows[of u 0 8] assms(2) by simp
qed

text \<open>C16: A replayed refresh token revokes every session of its owner inside the session, and the
  request's rollback restores them all: after the refused refresh, the tables are as before.\<close>

theorem reuse_detection_is_rolled_back:
  assumes "tok \<noteq> []" "get_active_by_hash (se_now env) (se_digest env tok) d = None"
    "get_any_by_hash (se_digest env tok) d = Some stolen"
  shows "\<not> list_ex (unrevoked_of (t_user_id stolen)) (i_tokens (fst (refresh env tok ip ua d))) \<and>
    fst (refresh_endpoint env (Some tok) cookie tb ip ua d) = d \<and>
    snd (refresh_endpoint env (Some tok) cookie tb ip ua d) = Inl SESSION_INVALID"
  using assms
  by (auto simp: refresh_def refresh_endpoint_def presented_token_def in_request_def Let_def
      revoke_all_for_user_def audit_def list_ex_iff set_update_where unrevoked_of_def)

lemma rotated_tokens:
  assumes "rotate_token now old h ex ua ip d = (d', t)"
  shows "i_tokens d' = update_where (\<lambda>x. t_id x = t_id old)
      (\<lambda>x. x\<lparr>t_revoked_at := Some now, t_replaced_by_id := Some (t_id t)\<rparr>) (i_tokens d @ [t])"
    "t = \<lparr>t_id = i_next_id d, t_user_id = t_user_id old, t_token_hash = h, t_expires_at = ex,
      t_revoked_at = None, t_replaced_by_id = None, t_user_agent = clip_text 512 ua,
      t_ip_address = ip, t_created_at = now\<rparr>"
  using assms by (auto simp: rotate_token_def issue_token_def update_token_def Let_def)

lemma filter_update_where_other:
  "(\<And>r. r \<in> set rs \<Longrightarrow> P r \<Longrightarrow> \<not> Q r \<and> \<not> Q (f r)) \<Longrightarrow> filter Q (update_where P f rs) = filter Q rs"
  by (induction rs) (auto simp: update_where_def)

lemma endpoint_returns:
  assumes "in_request (\<lambda>d. apsnd (map_sum id g) (h d)) d = (d', Inr s)"
  shows "\<exists>r. h d = (d', Inr r) \<and> s = g r"
  using assms by (cases "h d"; cases "snd (h d)") (auto simp: in_request_def)

lemma refresh_returns:
  assumes "refresh env tok ip ua d = (d', Inr r)"
  shows "\<exists>old t. get_active_by_hash (se_now env) (se_digest env tok) d = Some old \<and>
    rotate_token (se_now env) old (se_digest env (se_fresh_token env))
      (se_now env + days (se_refresh_days env)) ua ip d = (d', t) \<and>
    tr_refresh_token r = Some (se_fresh_token env)"
proof -
  obtain old where old: "get_active_by_hash (se_now env) (se_digest env tok) d = Some old" "tok \<noteq> []"
    using assms by (auto simp: refresh_def Let_def split: option.splits if_splits)
  then show ?thesis
    using assms
    by (auto simp: refresh_def Let_def create_refresh_token_def token_response_for_def
        create_access_token_def split: option.splits if_splits prod.splits)
qed

lemma refresh_endpoint_returns:
  assumes "refresh_endpoint env (Some tok) None tb ip ua d = (d', Inr s)"
  shows "\<exists>r. refresh env tok ip ua d = (d', Inr r) \<and> s = refresh_cookie env tb r"
proof -
  have "tok \<noteq> []"
    using assms by (auto simp: refresh_endpoint_def presented_token_def in_request_def)
  then show ?thesis
    using assms by (intro endpoint_returns) (simp add: refresh_endpoint_def presented_token_def)
qed

lemma revoking_one_drops_one:
  assumes "old \<in> set ts" "distinct (map t_id ts)" "Q old" "\<And>x. \<not> Q (f x)"
  shows "length (filter Q (update_where (\<lambda>x. t_id x = t_id old) f ts)) + 1 = length (filter Q ts)"
  using assms(1,2)
proof (induction ts)
  case (Cons x xs)
  show ?case
  proof (cases "x = old")
    case True
    then have "update_where (\<lambda>y. t_id y = t_id old) f xs = xs"
      using Cons.prems(2)
      by (intro update_where_none) (metis distinct.simps(2) imageI list.set_map list.simps(9))
    then show ?thesis using True assms(3,4) by (simp add: update_where_def)
  next
    case False
    then have "t_id x \<noteq> t_id old" using Cons.prems by auto
    then show ?thesis using Cons False by (auto simp: update_where_def)
  qed
qed simp

text \<open>A successful refresh replaces exactly one session: the presented token is revoked with its
  successor recorded and never matches again, the returned token is the one active match of its
  digest, the number of the owner's active sessions is unchanged, and nobody else's row moves.\<close>

theorem rotation_replaces_one_session:
  assumes wf: "tokens_wf d" and hashes: "distinct (map t_token_hash (i_tokens d))"
    and fresh: "se_digest env (se_fresh_token env) \<notin> t_token_hash ` set (i_tokens d)"
    and window: "0 < se_refresh_days env"
    and ok: "refresh_endpoint env (Some tok) None tb ip ua d = (d', Inr s)"
  shows "hs_cookie s = (if se_fresh_token env = [] then None
          else Some (se_fresh_token env, se_refresh_days env * 24 * 3600)) \<and>
    get_active_by_hash now (se_digest env tok) d' = None \<and>
    (\<exists>t old. get_active_by_hash (se_now env) (se_digest env (se_fresh_token env)) d' = Some t \<and>
       get_active_by_hash (se_now env) (se_digest env tok) d = Some old \<and>
       t_user_id t = t_user_id old \<and>
       length (active_sessions (se_now env) (t_user_id old) d') =
         length (active_sessions (se_now env) (t_user_id old) d) \<and>
       filter (\<lambda>x. t_user_id x \<noteq> t_user_id old) (i_tokens d') =
         filter (\<lambda>x. t_user_id x \<noteq> t_user_id old) (i_tokens d))"
proof -
  let ?dig = "se_digest env tok" and ?new = "se_digest env (se_fresh_token env)"
  let ?now = "se_now env"
  obtain r old t where r: "s = refresh_cookie env tb r" "tr_refresh_token r = Some (se_fresh_token env)"
    and old: "get_active_by_hash ?now ?dig d = Some old"
    and t: "rotate_token ?now old ?new (?now + days (se_refresh_days env)) ua ip d = (d', t)"
    using refresh_endpoint_returns[OF ok] refresh_returns by metis
  note old_in = active_in[OF old] and tnew = rotated_tokens(2)[OF t]
  have ids: "distinct (map t_id (i_tokens d))" "t_id t \<noteq> t_id old"
    using wf old_in by (auto simp: tokens_wf_def tnew)
  let ?f = "\<lambda>x. x\<lparr>t_revoked_at := Some ?now, t_replaced_by_id := Some (t_id t)\<rparr>"
  let ?us = "update_where (\<lambda>x. t_id x = t_id old) ?f (i_tokens d)"
  have d': "i_tokens d' = ?us @ [t]" using rotated_tokens(1)[OF t] ids(2) by (simp add: update_where_def)
  have same: "x = old" if "x \<in> set (i_tokens d)" "t_id x = t_id old \<or> t_token_hash x = ?dig" for x
    using that old_in ids(1) hashes unfolding distinct_map by (metis inj_onD)
  have "?new \<noteq> ?dig" using fresh old_in by (metis imageI)
  then have gone: "get_active_by_hash now ?dig d' = None"
    using same
    by (auto simp: get_active_by_hash_def find_None_iff d' set_update_where tnew)
  have "List.find (\<lambda>x. t_token_hash x = ?new \<and> t_revoked_at x = None \<and> t_expires_at x > ?now) ?us = None"
    using fresh by (auto simp: find_None_iff set_update_where image_iff)
  then have found: "get_active_by_hash ?now ?new d' = Some t"
    using window by (simp add: get_active_by_hash_def d' find_append) (simp add: tnew days_def)
  have len: "length (active_sessions ?now (t_user_id old) d') = length (active_sessions ?now (t_user_id old) d)"
    using revoking_one_drops_one[of old "i_tokens d" "\<lambda>x. t_user_id x = t_user_id old \<and> token_active ?now x" ?f]
      ids(1) old_in window
    by (simp add: active_sessions_def d' tnew token_active_def days_def)
  have others: "filter (\<lambda>x. t_user_id x \<noteq> t_user_id old) (i_tokens d') =
      filter (\<lambda>x. t_user_id x \<noteq> t_user_id old) (i_tokens d)"
    using same[THEN arg_cong, of _ t_user_id]
    by (simp add: d' tnew) (rule filter_update_where_other, simp)
  show ?thesis
    using gone found old len others r by (simp add: tnew refresh_cookie_def)
qed

lemma sort_key_Nil_iff: "sort_key k xs = [] \<longleftrightarrow> xs = []"
  by (metis length_0_conv length_sort)

lemma revoke_all_ends_sessions:
  "active_sessions now' uid (fst (revoke_all_for_user now uid d)) = []"
  "filter (\<lambda>t. t_user_id t \<noteq> uid) (i_tokens (fst (revoke_all_for_user now uid d))) =
     filter (\<lambda>t. t_user_id t \<noteq> uid) (i_tokens d)"
proof -
  show "active_sessions now' uid (fst (revoke_all_for_user now uid d)) = []"
  proof -
    let ?ts = "update_where (unrevoked_of uid) (\<lambda>t. t\<lparr>t_revoked_at := Some now\<rparr>) (i_tokens d)"
    have "\<not> (t_user_id t = uid \<and> token_active now' t)" if t: "t \<in> set ?ts" for t
    proof -
      obtain x where "t = (if unrevoked_of uid x then x\<lparr>t_revoked_at := Some now\<rparr> else x)"
        using t unfolding update_where_def set_map by blast
      then show ?thesis by (cases "unrevoked_of uid x") (simp_all add: token_active_def unrevoked_of_def)
    qed
    then have "filter (\<lambda>t. t_user_id t = uid \<and> token_active now' t) ?ts = []"
      by (simp add: filter_empty_conv)
    then show ?thesis by (simp add: active_sessions_def revoke_all_for_user_def)
  qed
  show "filter (\<lambda>t. t_user_id t \<noteq> uid) (i_tokens (fst (revoke_all_for_user now uid d))) =
     filter (\<lambda>t. t_user_id t \<noteq> uid) (i_tokens d)"
    by (simp add: revoke_all_for_user_def) (rule filter_update_where_other, simp add: unrevoked_of_def)
qed

text \<open>A password change and a sign-out everywhere leave the user no usable session at any later
  time and touch nobody else's.\<close>

theorem every_session_ended:
  "active_sessions now' uid (fst (logout_endpoint env uid payload cookie True d)) = [] \<and>
   filter (\<lambda>t. t_user_id t \<noteq> uid) (i_tokens (fst (logout_endpoint env uid payload cookie True d))) =
     filter (\<lambda>t. t_user_id t \<noteq> uid) (i_tokens d) \<and>
   (case change_password_endpoint env u cp np ip d of
      (d', Inr _) \<Rightarrow> active_sessions now' (u_id u) d' = [] \<and>
        filter (\<lambda>t. t_user_id t \<noteq> u_id u) (i_tokens d') = filter (\<lambda>t. t_user_id t \<noteq> u_id u) (i_tokens d)
    | (d', Inl e) \<Rightarrow> d' = d)"
proof -
  have logout: "fst (logout_endpoint env uid payload cookie True d) = fst (revoke_all_for_user (se_now env) uid d)"
    by (simp add: logout_endpoint_def in_request_def logout_def split: prod.splits)
  have keep: "active_sessions now' k (audit e d0) = active_sessions now' k d0"
    "i_tokens (audit e d0) = i_tokens d0" "i_tokens (set_password_hash k h b d0) = i_tokens d0" for k e d0 h b
    by (simp_all add: audit_def active_sessions_def set_password_hash_def update_user_row_def)
  have "\<exists>h e. d' = audit e (fst (revoke_all_for_user (se_now env) (u_id u) (set_password_hash (u_id u) h False d)))"
    if "change_password env u cp np ip d = (d', Inr x)" for d' x
    using that
    by (auto simp: change_password_def split: option.splits if_splits sum.splits prod.splits)
      (metis fst_conv)
  then show ?thesis
    by (auto simp: logout revoke_all_ends_sessions change_password_endpoint_def in_request_def keep
        split: prod.splits sum.splits)
qed

lemma login_returns:
  assumes "login env email pw rm ip ua d = (d', Inr r)"
  shows "\<exists>u d0. issue_session env u rm ip ua d0 = (d', Inr r)"
  using assms
  by (auto simp: login_def Let_def split: option.splits if_splits prod.splits sum.splits)

text \<open>The window of a sign-in: the configured days, or with \<open>remember_me\<close> twice as many up to
  90, which is fewer where more than 90 are configured; the cookie that carries the token lives
  the configured days in either case.\<close>

theorem session_window:
  assumes "login_endpoint env email pw rm tb ip ua d = (d', Inr s)"
    and "se_fresh_token env \<noteq> []"
  shows "t_expires_at (last (i_tokens d')) =
      se_now env + days (if rm then min (2 * se_refresh_days env) 90 else se_refresh_days env) \<and>
    hs_cookie s = Some (se_fresh_token env, se_refresh_days env * 24 * 3600)"
proof -
  obtain r where r: "login env email pw rm ip ua d = (d', Inr r)" "s = refresh_cookie env tb r"
    using endpoint_returns assms(1) unfolding login_endpoint_def by metis
  then obtain u d0 where iss: "issue_session env u rm ip ua d0 = (d', Inr r)"
    using login_returns by metis
  then have "d' = fst (issue_token (se_now env) (u_id u) (se_digest env (se_fresh_token env))
      (session_expiry env rm (se_now env + days (se_refresh_days env))) ua ip d0)"
    and "tr_refresh_token r = Some (se_fresh_token env)"
    by (auto simp: issue_session_def create_refresh_token_def token_response_for_def
        create_access_token_def split: prod.splits)
  then show ?thesis
    using r(2) assms(2)
    by (auto simp: issue_token_def Let_def refresh_cookie_def session_expiry_def days_def min_def)
qed

text \<open>Microsoft sign-in of an address whose account is archived fails on the unique constraint of
  the email, not with an answer of its own: the lookups see live accounts only, so it provisions a
  second account with the same address.\<close>

theorem archived_account_breaks_sso:
  assumes "u \<in> set (i_users d)" "lower (u_email u) = lower email"
    and "get_by_email False email d = None"
    and "get_by_external_subject AP_MICROSOFT subject d = None" and "oi_auto_provision oi"
  shows "resolve_sso_user oi subject email full_name d = (d, Inl (IntegrityError ''ix_users_email''))"
proof -
  have "email_taken None email d" using assms(1,2) by (auto simp: email_taken_def)
  then show ?thesis
    using assms(3-5) by (simp add: resolve_sso_user_def create_user_row_def new_user_def)
qed

subsection \<open>Witnesses\<close>

text \<open>One live account with an active, a revoked and an expired session, and an archived account.\<close>

definition fx_user :: user_row where
  "fx_user = \<lparr>u_id = 1, u_email = ''ana@x.com'', u_full_name = ''Ana'',
     u_password_hash = Some ''$argon2secret'', u_is_active = True, u_is_system_admin = True,
     u_must_change_password = False, u_auth_provider = AP_LOCAL, u_external_subject = None,
     u_last_login_at = None, u_failed_login_count = 0, u_locked_until = None,
     u_deleted_at = None\<rparr>"

definition fx_token :: "nat \<Rightarrow> string \<Rightarrow> instant option \<Rightarrow> token_row" where
  "fx_token i h revoked = \<lparr>t_id = i, t_user_id = 1, t_token_hash = h,
     t_expires_at = 9000000000, t_revoked_at = revoked, t_replaced_by_id = None,
     t_user_agent = None, t_ip_address = None, t_created_at = 0\<rparr>"

definition fx_id :: id_db where
  "fx_id = \<lparr>i_users = [fx_user, fx_user\<lparr>u_id := 2, u_email := ''Old@x.com'', u_deleted_at := Some 5\<rparr>],
     i_roles = [], i_tokens = [fx_token 3 ''#live'' None, fx_token 4 ''#used'' (Some 7)],
     i_projects = [], i_members = [], i_contracts = [], i_audits = [], i_activities = [],
     i_next_id = 10\<rparr>"

lemmas fx_id_defs = fx_id_def fx_user_def fx_token_def

lemma fx_lower:
  "lower ''ANA@x.com'' = ''ana@x.com''" "lower ''ana@x.com'' = ''ana@x.com''"
  "lower ''Old@x.com'' = ''old@x.com''" "lower ''old@x.com'' = ''old@x.com''"
  by code_simp+

lemma fx_id_wf: "users_wf fx_id" "tokens_wf fx_id"
  by (simp_all add: fx_id_defs users_wf_def tokens_wf_def subject_key_def List.map_filter_simps
      fx_lower)

text \<open>Two requests: the session is refreshed, which replaces its token by token 10, and then the user
  signs out everywhere.\<close>

definition fx_rotated :: id_db where
  "fx_rotated = fst (refresh_endpoint fx_sec (Some ''live'') None False None None fx_id)"

definition fx_signed_out :: id_db where
  "fx_signed_out = fst (logout_endpoint fx_sec 1 None None True fx_rotated)"

lemma fx_rotated_eval:
  "map (\<lambda>t. (t_id t, t_revoked_at t, t_replaced_by_id t)) (i_tokens fx_rotated) =
     [(3, Some 5000000000, Some 10), (4, Some 7, None), (10, None, None)]"
  "map (\<lambda>t. (t_id t, t_revoked_at t \<noteq> None \<or> t_user_id t = 1, t_replaced_by_id t)) (i_tokens fx_rotated) =
     [(3, True, Some 10), (4, True, None), (10, True, None)]"
  by (simp_all add: fx_rotated_def refresh_endpoint_def presented_token_def in_request_def refresh_def Let_def
      get_active_by_hash_def get_user_def live_users_def fx_id_defs fx_sec_def create_refresh_token_def
      session_expiry_def rotate_token_def issue_token_def update_token_def update_where_def split: prod.splits)

lemma fx_signed_out_tokens:
  "map (\<lambda>t. (t_id t, t_revoked_at t \<noteq> None, t_replaced_by_id t)) (i_tokens fx_signed_out) =
     [(3, True, Some 10), (4, True, None), (10, True, None)]"
proof -
  have "map (\<lambda>t. (t_id t, t_revoked_at t \<noteq> None, t_replaced_by_id t)) (i_tokens fx_signed_out) =
      map (\<lambda>t. (t_id t, t_revoked_at t \<noteq> None \<or> t_user_id t = 1, t_replaced_by_id t)) (i_tokens fx_rotated)"
    by (auto simp: fx_signed_out_def logout_endpoint_def in_request_def logout_def revoke_all_for_user_def
        update_where_def unrevoked_of_def Let_def comp_def)
  then show ?thesis
    by (simp only: fx_rotated_eval(2))
qed

theorem revoked_tokens_stay_revoked_witness:
  "(auth_step {fx_sec})\<^sup>*\<^sup>* fx_id fx_rotated \<and> (auth_step {fx_sec})\<^sup>*\<^sup>* fx_rotated fx_signed_out \<and>
   (\<exists>t \<in> set (i_tokens fx_rotated). t_id t = 3 \<and> t_revoked_at t = Some 5000000000 \<and> t_replaced_by_id t = Some 10 \<and>
     (\<exists>t' \<in> set (i_tokens fx_signed_out). t_id t' = 3 \<and> t_revoked_at t' \<noteq> None \<and> t_token_hash t' = t_token_hash t))"
proof -
  have first: "auth_step {fx_sec} fx_id fx_rotated" and second: "auth_step {fx_sec} fx_rotated fx_signed_out"
    unfolding fx_rotated_def fx_signed_out_def by (auto intro: auth_step.intros)
  have wf: "users_wf fx_rotated" "tokens_wf fx_rotated"
    using auth_step_ok[OF first] fx_id_wf by (auto simp: id_ok_def)
  have "(3, Some 5000000000, Some 10) \<in> set (map (\<lambda>t. (t_id t, t_revoked_at t, t_replaced_by_id t)) (i_tokens fx_rotated))"
    unfolding fx_rotated_eval(1) by simp
  then obtain t where t: "t \<in> set (i_tokens fx_rotated)" "t_id t = 3" "t_revoked_at t = Some 5000000000"
      "t_replaced_by_id t = Some 10"
    by auto
  have "(3, True, Some 10) \<in> set (map (\<lambda>t. (t_id t, t_revoked_at t \<noteq> None, t_replaced_by_id t)) (i_tokens fx_signed_out))"
    unfolding fx_signed_out_tokens by simp
  then obtain t' where t': "t' \<in> set (i_tokens fx_signed_out)" "t_id t' = 3"
    by auto
  have "t_revoked_at t' \<noteq> None \<and> t_token_hash t' = t_token_hash t"
    using revoked_tokens_stay_revoked[OF r_into_rtranclp[of "auth_step {fx_sec}", OF second] wf t(1) _ t'(1)] t(2,3) t'(2)
    by simp
  then show ?thesis
    using t t' first second by (meson r_into_rtranclp)
qed

theorem sign_in_succeeds_iff_witness:
  "\<exists>s. snd (login_endpoint fx_sec ''ANA@x.com'' ''secret'' False False None None fx_id) = Inr s"
proof -
  have u: "get_by_email False ''ANA@x.com'' fx_id = Some fx_user"
    by (simp add: get_by_email_def live_users_def fx_id_defs fx_lower)
  have ok: "verify_password fx_sec ''secret'' (u_password_hash fx_user)"
    by (simp add: verify_password_def fx_user_def fx_sec_def is_argon_hash_def starts_with_def)
  show ?thesis
    using sign_in_succeeds_iff[of "''secret''" fx_sec "''ANA@x.com''" False False None None fx_id] u ok
    by (cases "snd (login_endpoint fx_sec ''ANA@x.com'' ''secret'' False False None None fx_id)")
      (simp_all add: fx_user_def is_locked_def)
qed

theorem wrong_passwords_never_lock_witness:
  "run_sign_ins (replicate 20 (fx_sec, ''ana@x.com'', ''guess'')) fx_id = fx_id"
proof -
  have "wrong_password fx_id (fx_sec, ''ana@x.com'', ''guess'')"
    by (simp add: wrong_password_def get_by_email_def live_users_def fx_id_defs fx_lower verify_password_def fx_sec_def is_argon_hash_def starts_with_def)
  then have "list_all (wrong_password fx_id) (replicate 20 (fx_sec, ''ana@x.com'', ''guess''))"
    by (simp add: list_all_iff)
  then show ?thesis
    using wrong_passwords_never_lock[of fx_id "replicate 20 (fx_sec, ''ana@x.com'', ''guess'')" fx_user 0]
    by (simp add: fx_user_def)
qed

theorem reuse_detection_is_rolled_back_witness:
  "\<not> list_ex (unrevoked_of 1) (i_tokens (fst (refresh fx_sec ''used'' None None fx_id))) \<and>
   fst (refresh_endpoint fx_sec (Some ''used'') None False None None fx_id) = fx_id"
  using reuse_detection_is_rolled_back[of "''used''" fx_sec fx_id "fx_token 4 ''#used'' (Some 7)"
      None None None False]
  by (simp add: get_active_by_hash_def get_any_by_hash_def fx_id_defs fx_sec_def)

theorem rotation_replaces_one_session_witness:
  "get_active_by_hash 5000000001 ''#live''
     (fst (refresh_endpoint fx_sec (Some ''live'') None False None None fx_id)) = None"
proof -
  obtain d' r where call: "refresh_endpoint fx_sec (Some ''live'') None False None None fx_id = (d', r)"
    by fastforce
  have "\<exists>s. snd (refresh_endpoint fx_sec (Some ''live'') None False None None fx_id) = Inr s"
    by (simp add: refresh_endpoint_def presented_token_def in_request_def refresh_def Let_def
        get_active_by_hash_def get_user_def live_users_def fx_id_defs fx_sec_def
        create_refresh_token_def split: prod.splits)
  then obtain s where "r = Inr s" using call by auto
  then show ?thesis
    using rotation_replaces_one_session[OF fx_id_wf(2), of fx_sec "''live''" False None None d' s 5000000001] call
    by (simp add: fx_sec_def fx_id_defs)
qed

theorem session_window_witness:
  "\<exists>d'. t_expires_at (last (i_tokens d')) = 5000000000 + days 28 \<and>
     fst (login_endpoint fx_sec ''ANA@x.com'' ''secret'' True False None None fx_id) = d'"
proof -
  have u: "get_by_email False ''ANA@x.com'' fx_id = Some fx_user"
    by (simp add: get_by_email_def live_users_def fx_id_defs fx_lower)
  have ok: "verify_password fx_sec ''secret'' (u_password_hash fx_user)"
    by (simp add: verify_password_def fx_user_def fx_sec_def is_argon_hash_def starts_with_def)
  obtain d' r where call: "login_endpoint fx_sec ''ANA@x.com'' ''secret'' True False None None fx_id = (d', r)"
    by fastforce
  obtain s where "r = Inr s"
    using call u ok
    by (auto simp: login_endpoint_def in_request_def login_def Let_def rehash_on_login_def
        issue_session_def fx_user_def is_locked_def needs_rehash_def fx_sec_def is_argon_hash_def
        starts_with_def split: prod.splits sum.splits)
  then show ?thesis
    using session_window[of fx_sec "''ANA@x.com''" "''secret''" True False None None fx_id d' s] call
    by (simp add: fx_sec_def)
qed

theorem archived_account_breaks_sso_witness:
  "resolve_sso_user \<lparr>oi_configured = True, oi_allowed_domains = [], oi_auto_provision = True\<rparr>
     ''subj'' ''old@x.com'' ''Old'' fx_id = (fx_id, Inl (IntegrityError ''ix_users_email''))"
  by (rule archived_account_breaks_sso[where
        u = "fx_user\<lparr>u_id := 2, u_email := ''Old@x.com'', u_deleted_at := Some 5\<rparr>"])
    (simp_all add: fx_id_defs fx_lower get_by_email_def live_users_def
      get_by_external_subject_def)

end
