(* ===== verification/Access.thy ===== *)
theory Access
  imports AuthLaws Fixtures
begin

text \<open>
  \<^verbatim>\<open>backend/app/core/deps.py\<close>: who is calling, which project they may see, and what they may do
  there. A dependency is a function of the tables that returns the context or the error the
  endpoint answers with; none of them writes.
\<close>

subsection \<open>Permissions\<close>

datatype permission =
    P_PROJECT_CREATE | P_PROJECT_READ | P_PROJECT_UPDATE | P_PROJECT_DELETE | P_PROJECT_MEMBER_MANAGE
  | P_CONTRACT_UPLOAD | P_CONTRACT_READ | P_CONTRACT_UPDATE | P_CONTRACT_DELETE | P_CONTRACT_DOWNLOAD
  | P_JOB_READ | P_JOB_CONTROL | P_KNOWLEDGE_READ | P_KNOWLEDGE_REVIEW | P_SEARCH_EXECUTE
  | P_COPILOT_USE | P_REPORT_VIEW | P_EXPORT_CREATE | P_USER_MANAGE | P_ROLE_MANAGE
  | P_CLAUSE_MASTER_MANAGE | P_AI_SETTINGS_MANAGE | P_PROFILE_MANAGE | P_AUDIT_READ
  | P_ALERT_RULE_MANAGE

fun perm_value :: "permission \<Rightarrow> string" where
  "perm_value P_PROJECT_CREATE = ''project:create''"
| "perm_value P_PROJECT_READ = ''project:read''"
| "perm_value P_PROJECT_UPDATE = ''project:update''"
| "perm_value P_PROJECT_DELETE = ''project:delete''"
| "perm_value P_PROJECT_MEMBER_MANAGE = ''project:member:manage''"
| "perm_value P_CONTRACT_UPLOAD = ''contract:upload''"
| "perm_value P_CONTRACT_READ = ''contract:read''"
| "perm_value P_CONTRACT_UPDATE = ''contract:update''"
| "perm_value P_CONTRACT_DELETE = ''contract:delete''"
| "perm_value P_CONTRACT_DOWNLOAD = ''contract:download''"
| "perm_value P_JOB_READ = ''job:read''"
| "perm_value P_JOB_CONTROL = ''job:control''"
| "perm_value P_KNOWLEDGE_READ = ''knowledge:read''"
| "perm_value P_KNOWLEDGE_REVIEW = ''knowledge:review''"
| "perm_value P_SEARCH_EXECUTE = ''search:execute''"
| "perm_value P_COPILOT_USE = ''copilot:use''"
| "perm_value P_REPORT_VIEW = ''report:view''"
| "perm_value P_EXPORT_CREATE = ''export:create''"
| "perm_value P_USER_MANAGE = ''user:manage''"
| "perm_value P_ROLE_MANAGE = ''role:manage''"
| "perm_value P_CLAUSE_MASTER_MANAGE = ''clause_master:manage''"
| "perm_value P_AI_SETTINGS_MANAGE = ''ai_settings:manage''"
| "perm_value P_PROFILE_MANAGE = ''profile:manage''"
| "perm_value P_AUDIT_READ = ''audit:read''"
| "perm_value P_ALERT_RULE_MANAGE = ''alert_rule:manage''"

definition permissions :: "permission list" where
  "permissions =
     [P_PROJECT_CREATE, P_PROJECT_READ, P_PROJECT_UPDATE, P_PROJECT_DELETE,
      P_PROJECT_MEMBER_MANAGE, P_CONTRACT_UPLOAD, P_CONTRACT_READ, P_CONTRACT_UPDATE,
      P_CONTRACT_DELETE, P_CONTRACT_DOWNLOAD, P_JOB_READ, P_JOB_CONTROL, P_KNOWLEDGE_READ,
      P_KNOWLEDGE_REVIEW, P_SEARCH_EXECUTE, P_COPILOT_USE, P_REPORT_VIEW, P_EXPORT_CREATE,
      P_USER_MANAGE, P_ROLE_MANAGE, P_CLAUSE_MASTER_MANAGE, P_AI_SETTINGS_MANAGE,
      P_PROFILE_MANAGE, P_AUDIT_READ, P_ALERT_RULE_MANAGE]"

definition ADMIN_EXCLUDED_PERMISSIONS :: "string list" where
  "ADMIN_EXCLUDED_PERMISSIONS = [perm_value P_CONTRACT_UPLOAD]"

subsection \<open>Who is calling\<close>

text \<open>\<open>credentials\<close> is the bearer token of the request, where it has a non-empty one.\<close>

definition get_current_user :: "'tok sec_env \<Rightarrow> 'tok option \<Rightarrow> id_db \<Rightarrow> exn + user_row" where
  "get_current_user env credentials d =
     (case credentials of
        None \<Rightarrow> Inl (UnauthenticatedError ''Authentication required.'')
      | Some tok \<Rightarrow>
        (case decode_token env tok ''access'' of
           Inl e \<Rightarrow> Inl e
         | Inr payload \<Rightarrow>
           (case (case dict_get payload ''sub'' of None \<Rightarrow> None | Some v \<Rightarrow> uuid_parse (json_str v)) of
              None \<Rightarrow> Inl (UnauthenticatedError ''Malformed authentication token.'')
            | Some uid \<Rightarrow>
              (case get_user uid d of
                 None \<Rightarrow> Inl (UnauthenticatedError ''This account no longer exists.'')
               | Some u \<Rightarrow>
                   if \<not> u_is_active u
                   then Inl (ForbiddenError ''This account has been deactivated.'' [])
                   else Inr u))))"

text \<open>Only two classes are caught; the subclasses of \<open>ForbiddenError\<close> do not arise here.\<close>

definition get_current_user_optional :: "'tok sec_env \<Rightarrow> 'tok option \<Rightarrow> id_db \<Rightarrow> exn + user_row option" where
  "get_current_user_optional env credentials d =
     (case credentials of
        None \<Rightarrow> Inr None
      | Some tok \<Rightarrow>
        (case get_current_user env (Some tok) d of
           Inr u \<Rightarrow> Inr (Some u)
         | Inl e \<Rightarrow> if exn_type e \<in> {''UnauthenticatedError'', ''ForbiddenError''} then Inr None else Inl e))"

definition require_password_current :: "user_row \<Rightarrow> exn + user_row" where
  "require_password_current u =
     (if u_must_change_password u
      then Inl (ForbiddenError ''You must change your password before continuing.''
        [(''must_change_password'', JBool True)])
      else Inr u)"

text \<open>\<open>PermissionDeniedError(text)\<close> takes its first argument for the name of a permission.\<close>

definition require_system_admin :: "user_row \<Rightarrow> exn + user_row" where
  "require_system_admin u =
     (if \<not> u_is_system_admin u
      then Inl (PermissionDeniedError ''This action requires System Administrator access.''
        PERMISSION_DENIED_MESSAGE)
      else Inr u)"

definition require_internal_caller :: "string \<Rightarrow> string option \<Rightarrow> exn + bool" where
  "require_internal_caller expected presented =
     (if verify_internal_token expected presented then Inr True
      else Inl (UnauthenticatedError ''Invalid internal service token.''))"

text \<open>A permission on any project: the join of the caller's memberships with their roles.\<close>

definition require_permission_global :: "permission \<Rightarrow> user_row \<Rightarrow> id_db \<Rightarrow> exn + user_row" where
  "require_permission_global p u d =
     (if u_is_system_admin u \<and> perm_value p \<notin> set ADMIN_EXCLUDED_PERMISSIONS then Inr u
      else if \<exists>m \<in> set (i_members d). pm_user_id m = u_id u \<and>
             (case role_by_id (pm_role_id m) d of None \<Rightarrow> False | Some r \<Rightarrow> has_permission r (perm_value p))
      then Inr u
      else Inl (PermissionDeniedError (perm_value p) PERMISSION_DENIED_MESSAGE))"

subsection \<open>The project context\<close>

record project_context =
  pc_user :: user_row
  pc_project :: project_row
  pc_membership :: "member_row option"
  pc_permissions :: "string list"
  pc_role :: string

definition ctx_has :: "project_context \<Rightarrow> string \<Rightarrow> bool" where
  "ctx_has ctx p \<longleftrightarrow>
     (if u_is_system_admin (pc_user ctx) \<and> p \<notin> set ADMIN_EXCLUDED_PERMISSIONS then True
      else p \<in> set (pc_permissions ctx))"

definition ctx_require :: "project_context \<Rightarrow> string \<Rightarrow> exn + unit" where
  "ctx_require ctx p =
     (if ctx_has ctx p then Inr () else Inl (PermissionDeniedError p PERMISSION_DENIED_MESSAGE))"

definition get_project_context :: "uuid \<Rightarrow> user_row \<Rightarrow> id_db \<Rightarrow> exn + project_context" where
  "get_project_context pid u d =
     (case get_project pid d of
        None \<Rightarrow> Inl (NotFoundError ''Project'' (uuid_str pid))
      | Some p \<Rightarrow>
          if u_is_system_admin u
          then Inr \<lparr>pc_user = u, pc_project = p, pc_membership = None,
            pc_permissions = filter (\<lambda>v. v \<notin> set ADMIN_EXCLUDED_PERMISSIONS) (map perm_value permissions),
            pc_role = role_value RN_SYSTEM_ADMIN\<rparr>
          else (case get_membership pid (u_id u) d of
              None \<Rightarrow> Inl (NotFoundError ''Project'' (uuid_str pid))
            | Some m \<Rightarrow>
                (case role_by_id (pm_role_id m) d of
                   None \<Rightarrow> Inl (PyErr ''AttributeError'' ''permissions'')
                 | Some r \<Rightarrow> Inr \<lparr>pc_user = u, pc_project = p, pc_membership = Some m,
                     pc_permissions = effective_permissions r m, pc_role = role_value (ro_name r)\<rparr>)))"

definition require_permission :: "permission list \<Rightarrow> bool \<Rightarrow> project_context \<Rightarrow> exn + project_context" where
  "require_permission perms require_all ctx =
     (let held = map (\<lambda>p. ctx_has ctx (perm_value p)) perms;
          ok = (if require_all then list_all id held else list_ex id held);
          missing = map perm_value (map fst (filter (\<lambda>(p, granted). \<not> granted) (zip perms held)))
      in if ok then Inr ctx
         else if u_is_system_admin (pc_user ctx)
         then Inl (PermissionDeniedError (join '', '' missing)
           (''System Administrators cannot upload contracts. Sign in as a '' @
            ''project member, or ask one to upload on your behalf.''))
         else Inl (PermissionDeniedError (join '', '' missing) PERMISSION_DENIED_MESSAGE))"

definition require_project_role :: "role_name list \<Rightarrow> project_context \<Rightarrow> exn + project_context" where
  "require_project_role roles ctx =
     (if u_is_system_admin (pc_user ctx) then Inr ctx
      else if pc_role ctx \<notin> role_value ` set roles
      then Inl (access_error ''PermissionDeniedError'' ''permission_denied''
        [(''required_roles'', JArr (map (JStr \<circ> role_value) roles)),
         (''actual_role'', JStr (pc_role ctx))] PERMISSION_DENIED_MESSAGE)
      else Inr ctx)"

text \<open>An endpoint of a project with its declared permissions.\<close>

definition project_endpoint :: "permission list \<Rightarrow> bool \<Rightarrow> uuid \<Rightarrow> user_row \<Rightarrow> id_db \<Rightarrow>
    exn + project_context" where
  "project_endpoint perms require_all pid u d =
     (case get_project_context pid u d of
        Inl e \<Rightarrow> Inl e
      | Inr ctx \<Rightarrow> require_permission perms require_all ctx)"

definition get_contract_context :: "uuid \<Rightarrow> user_row \<Rightarrow> id_db \<Rightarrow> exn + (uuid \<times> project_context)" where
  "get_contract_context cid u d =
     (case List.find (\<lambda>c. c_id c = cid \<and> c_deleted_at c = None) (i_contracts d) of
        None \<Rightarrow> Inl (NotFoundError ''Contract'' (uuid_str cid))
      | Some c \<Rightarrow> map_sum id (Pair cid) (get_project_context (c_project_id c) u d))"

subsection \<open>The access scope\<close>

record access_scope =
  as_user :: user_row
  as_project_ids :: "uuid list"

definition scope_contains :: "access_scope \<Rightarrow> uuid \<Rightarrow> bool" where
  "scope_contains s pid \<longleftrightarrow> pid \<in> set (as_project_ids s)"

definition scope_require :: "access_scope \<Rightarrow> uuid \<Rightarrow> exn + unit" where
  "scope_require s pid = (if scope_contains s pid then Inr () else Inl ProjectAccessDeniedError)"

definition get_access_scope :: "user_row \<Rightarrow> id_db \<Rightarrow> access_scope" where
  "get_access_scope u d =
     \<lparr>as_user = u, as_project_ids = accessible_ids (u_id u) (u_is_system_admin u) d\<rparr>"

definition resolve_scope_for_project :: "uuid option \<Rightarrow> access_scope \<Rightarrow> exn + uuid list" where
  "resolve_scope_for_project pid s =
     (case pid of
        None \<Rightarrow> Inr (as_project_ids s)
      | Some p \<Rightarrow> (case scope_require s p of Inl e \<Rightarrow> Inl e | Inr _ \<Rightarrow> Inr [p]))"

subsection \<open>The policy the dependencies implement\<close>

text \<open>What the schema guarantees: unique keys, one membership per user and project, roles that
  exist.\<close>

definition access_wf :: "id_db \<Rightarrow> bool" where
  "access_wf d \<longleftrightarrow>
     distinct (map pr_id (i_projects d)) \<and>
     distinct (map (\<lambda>m. (pm_project_id m, pm_user_id m)) (i_members d)) \<and>
     distinct (map ro_id (i_roles d)) \<and>
     list_all (\<lambda>m. pm_role_id m \<in> ro_id ` set (i_roles d)) (i_members d)"

definition visible :: "id_db \<Rightarrow> user_row \<Rightarrow> uuid \<Rightarrow> bool" where
  "visible d u pid \<longleftrightarrow>
     (\<exists>p \<in> set (i_projects d). pr_id p = pid \<and> pr_deleted_at p = None) \<and>
     (u_is_system_admin u \<or> (\<exists>m \<in> set (i_members d). pm_project_id m = pid \<and> pm_user_id m = u_id u))"

definition may :: "id_db \<Rightarrow> user_row \<Rightarrow> uuid \<Rightarrow> permission \<Rightarrow> bool" where
  "may d u pid p \<longleftrightarrow> visible d u pid \<and>
     (if u_is_system_admin u then p \<noteq> P_CONTRACT_UPLOAD
      else \<exists>m \<in> set (i_members d). \<exists>r \<in> set (i_roles d).
        pm_project_id m = pid \<and> pm_user_id m = u_id u \<and> ro_id r = pm_role_id m \<and>
        perm_value p \<in> set (ro_permissions r) \<and>
        (pm_overrides m = [] \<or> perm_value p \<in> set (pm_overrides m)))"

lemma perm_value_inject: "perm_value p = perm_value q \<longleftrightarrow> p = q"
  by (cases p; cases q; simp)

lemma permissions_complete: "p \<in> set permissions"
  by (cases p) (simp_all add: permissions_def)

lemma get_project_None:
  "get_project pid d = None \<longleftrightarrow> \<not> (\<exists>p \<in> set (i_projects d). pr_id p = pid \<and> pr_deleted_at p = None)"
  by (auto simp: get_project_def find_None_iff)

lemma get_membership_iff:
  assumes "access_wf d"
  shows "get_membership pid uid d = Some m \<longleftrightarrow>
    m \<in> set (i_members d) \<and> pm_project_id m = pid \<and> pm_user_id m = uid"
proof
  assume "get_membership pid uid d = Some m"
  then show "m \<in> set (i_members d) \<and> pm_project_id m = pid \<and> pm_user_id m = uid"
    by (auto simp: get_membership_def dest: find_SomeD)
next
  assume m: "m \<in> set (i_members d) \<and> pm_project_id m = pid \<and> pm_user_id m = uid"
  have "distinct (map (\<lambda>m. (pm_project_id m, pm_user_id m)) (i_members d))"
    using assms by (simp add: access_wf_def)
  from find_unique[OF this, of m] m show "get_membership pid uid d = Some m"
    by (simp add: get_membership_def)
qed

lemma role_by_id_iff:
  assumes "access_wf d"
  shows "role_by_id rid d = Some r \<longleftrightarrow> r \<in> set (i_roles d) \<and> ro_id r = rid"
proof
  assume "role_by_id rid d = Some r"
  then show "r \<in> set (i_roles d) \<and> ro_id r = rid" by (auto simp: role_by_id_def dest: find_SomeD)
next
  assume r: "r \<in> set (i_roles d) \<and> ro_id r = rid"
  have "distinct (map ro_id (i_roles d))" using assms by (simp add: access_wf_def)
  from find_unique[OF this, of r] r show "role_by_id rid d = Some r" by (simp add: role_by_id_def)
qed

lemma member_role_exists:
  assumes "access_wf d" "m \<in> set (i_members d)"
  obtains r where "r \<in> set (i_roles d)" "ro_id r = pm_role_id m" "role_by_id (pm_role_id m) d = Some r"
proof -
  obtain r where "r \<in> set (i_roles d)" "ro_id r = pm_role_id m"
    using assms by (auto simp: access_wf_def list_all_iff)
  then show ?thesis using that role_by_id_iff[OF assms(1)] by blast
qed

lemma context_cases:
  assumes wf: "access_wf d"
  shows "(\<exists>ctx. get_project_context pid u d = Inr ctx \<and> pc_user ctx = u \<and> visible d u pid \<and>
            (\<forall>p. ctx_has ctx (perm_value p) \<longleftrightarrow> may d u pid p)) \<or>
         (get_project_context pid u d = Inl (NotFoundError ''Project'' (uuid_str pid)) \<and>
            \<not> visible d u pid)"
proof (cases "get_project pid d")
  case None
  then have "get_project_context pid u d = Inl (NotFoundError ''Project'' (uuid_str pid))"
    by (simp add: get_project_context_def)
  moreover have "\<not> visible d u pid" using None get_project_None[of pid d] by (simp add: visible_def)
  ultimately show ?thesis by blast
next
  case (Some p)
  then have live: "\<exists>p \<in> set (i_projects d). pr_id p = pid \<and> pr_deleted_at p = None"
    using get_project_None[of pid d] by auto
  show ?thesis
  proof (cases "u_is_system_admin u")
    case True
    have "ctx_has \<lparr>pc_user = u, pc_project = p, pc_membership = None,
        pc_permissions = filter (\<lambda>v. v \<notin> set ADMIN_EXCLUDED_PERMISSIONS) (map perm_value permissions),
        pc_role = role_value RN_SYSTEM_ADMIN\<rparr> (perm_value q) \<longleftrightarrow> may d u pid q" for q
      using True live perm_value_inject[of q P_CONTRACT_UPLOAD]
      by (auto simp: ctx_has_def may_def visible_def ADMIN_EXCLUDED_PERMISSIONS_def)
    then show ?thesis
      using True Some live by (simp add: get_project_context_def visible_def)
  next
    case False
    show ?thesis
    proof (cases "get_membership pid (u_id u) d")
      case None
      then have "\<not> visible d u pid"
        using False by (auto simp: visible_def get_membership_def find_None_iff)
      then show ?thesis using None False Some by (simp add: get_project_context_def)
    next
      case m: (Some m)
      then have m': "m \<in> set (i_members d)" "pm_project_id m = pid" "pm_user_id m = u_id u"
        using get_membership_iff[OF wf] by auto
      obtain r where r: "r \<in> set (i_roles d)" "ro_id r = pm_role_id m" "role_by_id (pm_role_id m) d = Some r"
        using member_role_exists[OF wf m'(1)] by blast
      have uniq: "m2 = m" if "m2 \<in> set (i_members d)" "pm_project_id m2 = pid" "pm_user_id m2 = u_id u" for m2
        using that m get_membership_iff[OF wf] by (metis option.inject)
      have uniq_r: "r2 = r" if "r2 \<in> set (i_roles d)" "ro_id r2 = pm_role_id m" for r2
        using that r role_by_id_iff[OF wf] by (metis option.inject)
      have "(perm_value q \<in> set (effective_permissions r m)) \<longleftrightarrow> may d u pid q" for q
      proof -
        have "may d u pid q \<longleftrightarrow> perm_value q \<in> set (ro_permissions r) \<and>
            (pm_overrides m = [] \<or> perm_value q \<in> set (pm_overrides m))"
          using False live m' r(1,2) uniq uniq_r unfolding may_def visible_def by (metis (no_types))
        then show ?thesis by (auto simp: effective_permissions_def)
      qed
      then show ?thesis
        using False Some m r live m' by (auto simp: get_project_context_def ctx_has_def visible_def)
    qed
  qed
qed

text \<open>C15: The dependencies of an endpoint admit a caller exactly when the policy allows it. The policy:
  a live project; a system administrator for everything but uploading contracts; everyone else
  what the role of their membership grants, cut down by the membership's overrides.\<close>

theorem access_policy_refined:
  assumes "access_wf d"
  shows "((\<exists>ctx. project_endpoint perms True pid u d = Inr ctx) \<longleftrightarrow>
      visible d u pid \<and> (\<forall>p \<in> set perms. may d u pid p)) \<and>
    ((\<exists>ctx. project_endpoint perms False pid u d = Inr ctx) \<longleftrightarrow>
      visible d u pid \<and> (\<exists>p \<in> set perms. may d u pid p))"
  using context_cases[OF assms, of pid u]
proof
  assume "\<exists>ctx. get_project_context pid u d = Inr ctx \<and> pc_user ctx = u \<and> visible d u pid \<and>
      (\<forall>p. ctx_has ctx (perm_value p) \<longleftrightarrow> may d u pid p)"
  then obtain ctx where ctx: "get_project_context pid u d = Inr ctx" "visible d u pid"
    "\<And>p. ctx_has ctx (perm_value p) \<longleftrightarrow> may d u pid p" by blast
  have "(\<exists>c. require_permission perms b ctx = Inr c) \<longleftrightarrow>
      (if b then \<forall>p \<in> set perms. may d u pid p else \<exists>p \<in> set perms. may d u pid p)" for b
    by (simp add: require_permission_def Let_def list_all_iff list_ex_iff ctx(3))
  from this[of True] this[of False] show ?thesis using ctx(1,2) by (simp add: project_endpoint_def)
next
  assume "get_project_context pid u d = Inl (NotFoundError ''Project'' (uuid_str pid)) \<and> \<not> visible d u pid"
  then show ?thesis by (simp add: project_endpoint_def)
qed

lemma accessible_mem:
  "pid \<in> set (accessible_ids (u_id u) (u_is_system_admin u) d) \<longleftrightarrow> visible d u pid"
  by (auto simp: accessible_ids_def visible_def Let_def)

lemma member_filter_singleton:
  "distinct (map (\<lambda>m. (pm_project_id m, pm_user_id m)) ms) \<Longrightarrow>
    length (filter (\<lambda>m. pm_project_id m = p \<and> pm_user_id m = u) ms) \<le> 1"
proof (induction ms)
  case (Cons m ms)
  show ?case
  proof (cases "pm_project_id m = p \<and> pm_user_id m = u")
    case True
    then have "filter (\<lambda>m. pm_project_id m = p \<and> pm_user_id m = u) ms = []"
      using Cons.prems unfolding filter_empty_conv by (auto simp: image_iff)
    then show ?thesis using True by simp
  next
    case False
    then have "filter (\<lambda>m. pm_project_id m = p \<and> pm_user_id m = u) (m # ms) =
        filter (\<lambda>m. pm_project_id m = p \<and> pm_user_id m = u) ms" by auto
    then show ?thesis using Cons.IH Cons.prems by simp
  qed
qed simp

lemma accessible_distinct:
  assumes "access_wf d" shows "distinct (accessible_ids uid a d)"
proof -
  let ?ms = "i_members d"
  have "distinct (concat (map (\<lambda>p. map (\<lambda>m. pr_id p)
      (filter (\<lambda>m. pm_project_id m = pr_id p \<and> pm_user_id m = uid) ?ms)) ps))"
    if "distinct (map pr_id ps)" for ps :: "project_row list"
    using that
  proof (induction ps)
    case (Cons p ps)
    have "length (filter (\<lambda>m. pm_project_id m = pr_id p \<and> pm_user_id m = uid) ?ms) \<le> 1"
      using assms by (intro member_filter_singleton) (simp add: access_wf_def)
    then have "distinct (map (\<lambda>m. pr_id p) (filter (\<lambda>m. pm_project_id m = pr_id p \<and> pm_user_id m = uid) ?ms))"
      by (cases "filter (\<lambda>m. pm_project_id m = pr_id p \<and> pm_user_id m = uid) ?ms") auto
    then show ?case using Cons by auto
  qed simp
  moreover have "distinct (map pr_id (filter (\<lambda>p. pr_deleted_at p = None) (i_projects d)))"
    using assms by (simp add: access_wf_def distinct_map_filter)
  ultimately show ?thesis by (simp add: accessible_ids_def Let_def)
qed

text \<open>A project a caller is not a member of is answered like a project that does not exist, and
  the access scope of the cross-project endpoints lists, once each, exactly the projects the
  caller can open.\<close>

theorem outsiders_see_no_project:
  assumes "access_wf d"
  shows "distinct (as_project_ids (get_access_scope u d)) \<and>
    (if scope_contains (get_access_scope u d) pid
     then \<exists>ctx. get_project_context pid u d = Inr ctx
     else get_project_context pid u d = get_project_context pid u (d\<lparr>i_projects := []\<rparr>))"
  using context_cases[OF assms, of pid u] accessible_distinct[OF assms]
  by (auto simp: get_access_scope_def scope_contains_def accessible_mem)
    (simp add: get_project_context_def get_project_def)

text \<open>Contract identifiers can be probed. For a contract of a project the caller is not a member
  of, the answer is a missing project, with the project's identifier, where an identifier
  that names no contract is answered with a missing contract.\<close>

theorem contracts_can_be_probed:
  assumes "\<not> u_is_system_admin u" and c: "c \<in> set (i_contracts d)" "c_deleted_at c = None"
    and ids: "distinct (map c_id (i_contracts d))"
    and outsider: "get_membership (c_project_id c) (u_id u) d = None"
    and absent: "cid \<notin> c_id ` set (i_contracts d)"
  shows "get_contract_context (c_id c) u d = Inl (NotFoundError ''Project'' (uuid_str (c_project_id c))) \<and>
    get_contract_context cid u d = Inl (NotFoundError ''Contract'' (uuid_str cid)) \<and>
    NotFoundError ''Project'' a \<noteq> NotFoundError ''Contract'' b"
proof -
  obtain c' where c': "List.find (\<lambda>x. c_id x = c_id c \<and> c_deleted_at x = None) (i_contracts d) = Some c'"
    using c by (cases "List.find (\<lambda>x. c_id x = c_id c \<and> c_deleted_at x = None) (i_contracts d)")
      (auto simp: find_None_iff)
  then have "c' = c" using find_SomeD[OF c'] c ids unfolding distinct_map by (metis inj_onD)
  moreover have "List.find (\<lambda>x. c_id x = cid \<and> c_deleted_at x = None) (i_contracts d) = None"
    using absent by (auto simp: find_None_iff)
  ultimately show ?thesis
    using c' assms(1) outsider
    by (auto simp: get_contract_context_def get_project_context_def NotFoundError_def
        access_error_def split: option.splits)
qed

text \<open>The check for endpoints that span projects ignores the overrides and the project: a member
  whose role grants a permission passes it even where overrides took that permission away on
  the only project they belong to, or where that project is deleted.\<close>

theorem global_permission_ignores_overrides:
  assumes wf: "access_wf d" and m: "m \<in> set (i_members d)" "pm_user_id m = u_id u"
    and only: "\<And>m'. m' \<in> set (i_members d) \<Longrightarrow> pm_user_id m' = u_id u \<Longrightarrow> m' = m"
    and role: "role_by_id (pm_role_id m) d = Some r" "perm_value p \<in> set (ro_permissions r)"
    and narrowed: "pm_overrides m \<noteq> [] \<and> perm_value p \<notin> set (pm_overrides m) \<or>
      get_project (pm_project_id m) d = None"
    and user: "\<not> u_is_system_admin u"
  shows "require_permission_global p u d = Inr u \<and> (\<forall>pid. \<not> may d u pid p)"
proof -
  have "\<not> may d u pid p" for pid
  proof
    assume may: "may d u pid p"
    then have "\<exists>m' \<in> set (i_members d). pm_project_id m' = pid \<and> pm_user_id m' = u_id u \<and>
        (pm_overrides m' = [] \<or> perm_value p \<in> set (pm_overrides m'))"
      using user unfolding may_def by (simp only: if_False) blast
    then have "pid = pm_project_id m" "pm_overrides m = [] \<or> perm_value p \<in> set (pm_overrides m)"
      using only by blast+
    moreover have "get_project pid d \<noteq> None"
      using may get_project_None[of pid d] unfolding may_def visible_def by blast
    ultimately show False using narrowed by auto
  qed
  moreover have "require_permission_global p u d = Inr u"
    using m role by (auto simp: require_permission_global_def has_permission_def intro!: bexI[of _ m])
  ultimately show ?thesis by blast
qed

text \<open>An access token authenticates its own user: within its minutes, while the account is live
  and active at the time of the call, and never after the account was deactivated or deleted.\<close>

theorem access_token_identifies_its_user:
  assumes jwt: "jwt_contract env" and window: "0 < se_access_minutes env" and "uid < 16 ^ 32"
  shows "get_current_user env (Some (fst (create_access_token env uid adm email provider))) d =
    (case get_user uid d of
       None \<Rightarrow> Inl (UnauthenticatedError ''This account no longer exists.'')
     | Some u \<Rightarrow> if u_is_active u then Inr u
                 else Inl (ForbiddenError ''This account has been deactivated.'' []))"
proof -
  define p where "p = [(''sub'', JStr (uuid_str uid)), (''type'', JStr ''access''),
      (''iat'', timestamp (se_now env)), (''exp'', timestamp (se_now env + minutes (se_access_minutes env))),
      (''jti'', JStr (se_jti env)), (''iss'', JStr (se_app_name env)),
      (''adm'', JBool adm), (''ap'', JStr provider)]
      @ (if email = [] then [] else [(''email'', JStr email)])"
  have tok: "fst (create_access_token env uid adm email provider) = se_encode env p"
    by (simp add: create_access_token_def p_def Let_def)
  have get: "dict_get p ''exp'' = Some (JInt ((se_now env + minutes (se_access_minutes env)) div 1000000))"
    "dict_get p ''iat'' = Some (timestamp (se_now env))" "dict_get p ''sub'' = Some (JStr (uuid_str uid))"
    "dict_get p ''type'' = Some (JStr ''access'')"
    by (simp_all add: p_def dict_get_def timestamp_def)
  have "se_now env div 1000000 < (se_now env + minutes (se_access_minutes env)) div 1000000"
    using window by (simp add: minutes_def)
  then have "decode_token env (se_encode env p) ''access'' = Inr p"
    using jwt_contractD[OF jwt get(1-3)] get(4) by (simp add: decode_token_def)
  then show ?thesis
    by (simp add: get_current_user_def tok get uuid_parse_str[OF assms(3)] split: option.splits)
qed

subsection \<open>Witnesses\<close>

text \<open>A member whose role reads contracts and the audit log, narrowed to reading contracts.\<close>

definition fx_member :: user_row where
  "fx_member = fx_user\<lparr>u_id := 6, u_is_system_admin := False\<rparr>"

definition fx_outsider :: user_row where
  "fx_outsider = fx_user\<lparr>u_id := 8, u_is_system_admin := False\<rparr>"

definition fx_role :: role_row where
  "fx_role = \<lparr>ro_id = 50, ro_name = RN_VIEWER, ro_display_name = ''Viewer'', ro_description = None,
     ro_permissions = [''contract:read'', ''audit:read''], ro_rank = 1\<rparr>"

definition fx_membership :: member_row where
  "fx_membership = \<lparr>pm_id = 7, pm_project_id = 30, pm_user_id = 6, pm_role_id = 50,
     pm_added_by = None, pm_overrides = [''contract:read''], pm_is_favourite = False,
     pm_created_at = 0\<rparr>"

definition fx_access :: id_db where
  "fx_access = fx_id\<lparr>i_roles := [fx_role], i_members := [fx_membership], i_contracts := [fx_contract],
     i_projects := [\<lparr>pr_id = 30, pr_name = ''P'', pr_slug = ''p'', pr_deleted_at = None\<rparr>]\<rparr>"

lemmas fx_access_defs = fx_access_def fx_member_def fx_outsider_def fx_role_def fx_membership_def

lemma fx_access_wf: "access_wf fx_access"
  by (simp add: access_wf_def fx_access_defs)

theorem access_policy_refined_witness:
  "(\<exists>ctx. project_endpoint [P_CONTRACT_READ] True 30 fx_member fx_access = Inr ctx) \<and>
   \<not> (\<exists>ctx. project_endpoint [P_AUDIT_READ] True 30 fx_member fx_access = Inr ctx)"
proof -
  have "may fx_access fx_member 30 P_CONTRACT_READ" "\<not> may fx_access fx_member 30 P_AUDIT_READ"
    "visible fx_access fx_member 30"
    by (simp_all add: may_def visible_def fx_access_defs)
  then show ?thesis
    using access_policy_refined[OF fx_access_wf, of "[P_CONTRACT_READ]" 30 fx_member]
      access_policy_refined[OF fx_access_wf, of "[P_AUDIT_READ]" 30 fx_member] by simp
qed

theorem outsiders_see_no_project_witness:
  "get_project_context 30 fx_outsider fx_access =
     get_project_context 30 fx_outsider (fx_access\<lparr>i_projects := []\<rparr>)"
proof -
  have "\<not> scope_contains (get_access_scope fx_outsider fx_access) 30"
    by (simp add: scope_contains_def get_access_scope_def accessible_ids_def fx_access_defs)
  then show ?thesis
    using outsiders_see_no_project[OF fx_access_wf, of fx_outsider 30] by simp
qed

theorem contracts_can_be_probed_witness:
  "get_contract_context 20 fx_outsider fx_access = Inl (NotFoundError ''Project'' (uuid_str 30)) \<and>
   get_contract_context 21 fx_outsider fx_access = Inl (NotFoundError ''Contract'' (uuid_str 21))"
  using contracts_can_be_probed[of fx_outsider fx_contract fx_access 21]
  by (simp add: fx_access_defs fx_contract_def get_membership_def)

theorem global_permission_ignores_overrides_witness:
  "require_permission_global P_AUDIT_READ fx_member fx_access = Inr fx_member"
proof -
  have "require_permission_global P_AUDIT_READ fx_member fx_access = Inr fx_member \<and>
      (\<forall>pid. \<not> may fx_access fx_member pid P_AUDIT_READ)"
    by (rule global_permission_ignores_overrides[OF fx_access_wf, where m = fx_membership and r = fx_role])
      (simp_all add: fx_access_defs role_by_id_def)
  then show ?thesis by blast
qed

theorem access_token_identifies_its_user_witness:
  "get_current_user fx_sec (Some (fst (create_access_token fx_sec 1 True ''ana@x.com'' ''local''))) fx_id
     = Inr fx_user"
  using access_token_identifies_its_user[OF fx_sec_contract, of 1 True "''ana@x.com''" "''local''" fx_id]
  by (simp add: fx_sec_def get_user_def live_users_def fx_id_def fx_user_def)

end
