(* ===== verification/Users.thy ===== *)
theory Users
  imports Access
begin

text \<open>
  \<^verbatim>\<open>backend/app/services/user.py\<close> and the membership half of \<^verbatim>\<open>services/project.py\<close>: accounts,
  role permissions and project members, each mutation with its guards and its audit row. A
  partial update is a record of optional fields, \<open>None\<close> where the request does not set one; of the
  display-only columns it says whether any is set. They are not columns of the model; the audit snapshots of a user are its modelled columns.
\<close>

subsection \<open>Accounts\<close>

record user_changes =
  ch_full_name :: "string option"
  ch_is_active :: "bool option"
  ch_is_system_admin :: "bool option"
  ch_must_change_password :: "bool option"
  ch_display :: bool

record user_create =
  uc_email :: string
  uc_full_name :: string
  uc_password :: "string option"
  uc_use_default_password :: bool
  uc_is_active :: bool
  uc_is_system_admin :: bool
  uc_must_change_password :: bool
  uc_assignments :: "(uuid \<times> role_name) list"

definition user_snapshot :: "user_row \<Rightarrow> payload" where
  "user_snapshot u = snapshot []
     [(''id'', FUuid (u_id u)), (''email'', FJson (JStr (u_email u))),
      (''full_name'', FJson (JStr (u_full_name u))),
      (''password_hash'', FJson (case u_password_hash u of None \<Rightarrow> JNull | Some h \<Rightarrow> JStr h)),
      (''is_active'', FJson (JBool (u_is_active u))),
      (''is_system_admin'', FJson (JBool (u_is_system_admin u))),
      (''must_change_password'', FJson (JBool (u_must_change_password u)))]"

definition audit_user :: "audit_action \<Rightarrow> user_row \<Rightarrow> user_row \<Rightarrow> payload option \<Rightarrow> payload option \<Rightarrow>
    string option \<Rightarrow> id_db \<Rightarrow> id_db" where
  "audit_user action u actor before after ip d =
     audit (audit_entry ((audit_args action ''user'' (Some (u_id u)))
       \<lparr>au_entity_label := Some (u_email u), au_user_id := Some (u_id actor),
        au_user_email := Some (u_email actor), au_before := before, au_after := after,
        au_ip := ip\<rparr>)) d"

definition LAST_ADMIN :: exn where
  "LAST_ADMIN = ForbiddenError
     (''This is the only active System Administrator. Promote another '' @
      ''administrator before changing this account.'') []"

definition active_admin :: "user_row \<Rightarrow> bool" where
  "active_admin u \<longleftrightarrow> u_is_system_admin u \<and> u_is_active u \<and> u_deleted_at u = None"

definition guard_last_admin :: "user_row \<Rightarrow> id_db \<Rightarrow> exn + unit" where
  "guard_last_admin u d =
     (if \<not> u_is_system_admin u then Inr ()
      else if filter (\<lambda>v. active_admin v \<and> u_id v \<noteq> u_id u) (i_users d) = [] then Inl LAST_ADMIN
      else Inr ())"

text \<open>The password of a new account: the given one, the deployment's, or none; and whether it must
  be changed.\<close>

definition initial_password :: "'tok sec_env \<Rightarrow> string \<Rightarrow> user_create \<Rightarrow> exn + (string option \<times> bool)" where
  "initial_password env default_pw p =
     (case (case uc_password p of None \<Rightarrow> [] | Some pw \<Rightarrow> pw) of
        c # cs \<Rightarrow>
          (case validate_password_strength env (c # cs) of
             Inl e \<Rightarrow> Inl e
           | Inr _ \<Rightarrow> map_sum id (\<lambda>h. (Some h, uc_must_change_password p)) (hash_password env (c # cs)))
      | [] \<Rightarrow>
          if uc_use_default_password p
          then map_sum id (\<lambda>h. (Some h, True)) (hash_password env default_pw)
          else Inr (None, uc_must_change_password p))"

fun assign_projects :: "instant \<Rightarrow> uuid \<Rightarrow> uuid \<Rightarrow> (uuid \<times> role_name) list \<Rightarrow> id_db \<Rightarrow>
    id_db \<times> (exn + unit)" where
  "assign_projects now actor uid [] d = (d, Inr ())"
| "assign_projects now actor uid ((pid, rn) # rest) d =
     (case get_project pid d of
        None \<Rightarrow> (d, Inl (NotFoundError ''Project'' (uuid_str pid)))
      | Some p \<Rightarrow>
        (case role_by_name rn d of
           None \<Rightarrow> (d, Inl (ValidationError (''Role '' @ quoted (role_value rn) @ '' is not configured.'')))
         | Some r \<Rightarrow>
           (case add_member_row now pid uid (ro_id r) (Some actor) [] d of
              (d1, Inl e) \<Rightarrow> (d1, Inl e)
            | (d1, Inr _) \<Rightarrow> assign_projects now actor uid rest d1)))"

definition create_user :: "'tok sec_env \<Rightarrow> string \<Rightarrow> user_create \<Rightarrow> user_row \<Rightarrow> string option \<Rightarrow>
    id_db \<Rightarrow> id_db \<times> (exn + user_row)" where
  "create_user env default_pw p actor ip d =
     (case get_by_email True (uc_email p) d of
        Some existing \<Rightarrow>
          (d, Inl (if u_deleted_at existing \<noteq> None
            then access_error ''ConflictError'' ''conflict''
              [(''user_id'', JStr (uuid_str (u_id existing)))]
              (''An archived account already uses this email address. '' @
               ''Restore it instead of creating a duplicate.'')
            else ConflictError ''An account with this email address already exists.''))
      | None \<Rightarrow>
        (case initial_password env default_pw p of
           Inl e \<Rightarrow> (d, Inl e)
         | Inr (h, force_change) \<Rightarrow>
           (case create_user_row (new_user (lower (uc_email p)) (uc_full_name p) h (uc_is_active p)
                   (uc_is_system_admin p) (h \<noteq> None \<and> force_change) AP_LOCAL None) d of
              (d1, Inl e) \<Rightarrow> (d1, Inl e)
            | (d1, Inr u) \<Rightarrow>
              (case assign_projects (se_now env) (u_id actor) (u_id u) (uc_assignments p) d1 of
                 (d2, Inl e) \<Rightarrow> (d2, Inl e)
               | (d2, Inr _) \<Rightarrow>
                   (audit_user AA_CREATE u actor None (Some (user_snapshot u)) ip d2, Inr u)))))"

definition no_changes :: "user_changes \<Rightarrow> bool" where
  "no_changes c \<longleftrightarrow> ch_full_name c = None \<and> ch_is_active c = None \<and>
     ch_is_system_admin c = None \<and> ch_must_change_password c = None \<and> \<not> ch_display c"

definition apply_changes :: "user_changes \<Rightarrow> user_row \<Rightarrow> user_row" where
  "apply_changes c u = u
     \<lparr>u_full_name := (case ch_full_name c of None \<Rightarrow> u_full_name u | Some x \<Rightarrow> x),
      u_is_active := (case ch_is_active c of None \<Rightarrow> u_is_active u | Some x \<Rightarrow> x),
      u_is_system_admin := (case ch_is_system_admin c of None \<Rightarrow> u_is_system_admin u | Some x \<Rightarrow> x),
      u_must_change_password :=
        (case ch_must_change_password c of None \<Rightarrow> u_must_change_password u | Some x \<Rightarrow> x)\<rparr>"

definition update_user :: "instant \<Rightarrow> uuid \<Rightarrow> user_changes \<Rightarrow> user_row \<Rightarrow> string option \<Rightarrow> id_db \<Rightarrow>
    id_db \<times> (exn + user_row)" where
  "update_user now uid c actor ip d =
     (case get_user uid d of
        None \<Rightarrow> (d, Inl (NotFoundError ''User'' (uuid_str uid)))
      | Some u \<Rightarrow>
          if no_changes c then (d, Inr u)
          else if u_id u = u_id actor \<and> (ch_is_system_admin c \<noteq> None \<or> ch_is_active c \<noteq> None)
          then (d, Inl (ForbiddenError
            ''You cannot change your own administrator status or active state.'' []))
          else (case (if ch_is_system_admin c = Some False \<or> ch_is_active c = Some False
                      then guard_last_admin u d else Inr ()) of
              Inl e \<Rightarrow> (d, Inl e)
            | Inr _ \<Rightarrow>
              (let u' = apply_changes c u;
                   d1 = update_user_row uid (apply_changes c) d;
                   d2 = (if ch_is_active c = Some False then fst (revoke_all_for_user now uid d1) else d1);
                   action = (if ch_is_system_admin c \<noteq> None \<or> ch_is_active c \<noteq> None
                             then AA_PERMISSION_CHANGE else AA_UPDATE)
               in (audit_user action u' actor (Some (user_snapshot u)) (Some (user_snapshot u')) ip d2,
                   Inr u'))))"

text \<open>Self-service: the name and display columns; no other field exists in the request.\<close>

definition update_own_profile :: "user_row \<Rightarrow> string option \<Rightarrow> bool \<Rightarrow> string option \<Rightarrow> id_db \<Rightarrow>
    id_db \<times> (exn + user_row)" where
  "update_own_profile u full_name display ip d =
     (if full_name = None \<and> \<not> display then (d, Inr u)
      else (let f = (\<lambda>v. v\<lparr>u_full_name := (case full_name of None \<Rightarrow> u_full_name v | Some n \<Rightarrow> n)\<rparr>) in
        (audit_user AA_UPDATE (f u) u (Some (user_snapshot u)) (Some (user_snapshot (f u))) ip
           (update_user_row (u_id u) f d), Inr (f u))))"

definition admin_set_password :: "'tok sec_env \<Rightarrow> uuid \<Rightarrow> string \<Rightarrow> bool \<Rightarrow> user_row \<Rightarrow> string option \<Rightarrow>
    id_db \<Rightarrow> id_db \<times> (exn + unit)" where
  "admin_set_password env uid pw must_change actor ip d =
     (case get_user uid d of
        None \<Rightarrow> (d, Inl (NotFoundError ''User'' (uuid_str uid)))
      | Some u \<Rightarrow>
        (case validate_password_strength env pw of
           Inl e \<Rightarrow> (d, Inl e)
         | Inr _ \<Rightarrow>
           (case hash_password env pw of
              Inl e \<Rightarrow> (d, Inl e)
            | Inr h \<Rightarrow>
              (case revoke_all_for_user (se_now env) uid (set_password_hash uid h must_change d) of
                 (d1, revoked) \<Rightarrow>
                   (audit_user AA_UPDATE u actor None
                      (Some [(''password_reset_by_admin'', FJson (JBool True)),
                             (''sessions_revoked'', FJson (JInt (int revoked)))]) ip d1, Inr ())))))"

definition delete_user :: "instant \<Rightarrow> uuid \<Rightarrow> user_row \<Rightarrow> string option \<Rightarrow> id_db \<Rightarrow> id_db \<times> (exn + unit)" where
  "delete_user now uid actor ip d =
     (case get_user uid d of
        None \<Rightarrow> (d, Inl (NotFoundError ''User'' (uuid_str uid)))
      | Some u \<Rightarrow>
          if u_id u = u_id actor
          then (d, Inl (ForbiddenError ''You cannot delete your own account.'' []))
          else (case guard_last_admin u d of
              Inl e \<Rightarrow> (d, Inl e)
            | Inr _ \<Rightarrow>
              (case revoke_all_for_user now uid
                  (update_user_row uid (\<lambda>v. v\<lparr>u_deleted_at := Some now, u_is_active := False\<rparr>) d) of
                 (d1, revoked) \<Rightarrow>
                   (audit_user AA_DELETE u actor (Some (user_snapshot u))
                      (Some [(''deleted'', FJson (JBool True)),
                             (''sessions_revoked'', FJson (JInt (int revoked)))]) ip d1, Inr ()))))"

definition update_role_permissions :: "role_name \<Rightarrow> string list option \<Rightarrow> string option \<Rightarrow> user_row \<Rightarrow>
    string option \<Rightarrow> id_db \<Rightarrow> id_db \<times> (exn + role_row)" where
  "update_role_permissions rn perms description actor ip d =
     (case role_by_name rn d of
        None \<Rightarrow> (d, Inl (NotFoundError ''Role'' (role_value rn)))
      | Some r \<Rightarrow>
          if ro_name r = RN_SYSTEM_ADMIN
          then (d, Inl (ForbiddenError ''The System Administrator role cannot be modified.'' []))
          else if (case perms of None \<Rightarrow> False
                   | Some ps \<Rightarrow> filter (\<lambda>p. p \<notin> perm_value ` set permissions) ps \<noteq> [])
          then (d, Inl (access_error ''ValidationError'' ''validation_error''
            [(''unknown'', JArr (map JStr (filter (\<lambda>p. p \<notin> perm_value ` set permissions)
               (case perms of None \<Rightarrow> [] | Some ps \<Rightarrow> ps))))] ''Unknown permissions supplied.''))
          else (let f = (\<lambda>x. x\<lparr>ro_permissions := (case perms of None \<Rightarrow> ro_permissions x | Some ps \<Rightarrow> ps),
                               ro_description := (case description of None \<Rightarrow> ro_description x | Some t \<Rightarrow> Some t)\<rparr>);
                    perms_payload = (\<lambda>x. [(''permissions'', FJson (JArr (map JStr (ro_permissions x))))])
                in (audit (audit_entry ((audit_args AA_PERMISSION_CHANGE ''role'' (Some (ro_id r)))
                      \<lparr>au_entity_label := Some (role_value (ro_name r)), au_user_id := Some (u_id actor),
                       au_user_email := Some (u_email actor), au_before := Some (perms_payload r),
                       au_after := Some (perms_payload (f r)), au_ip := ip\<rparr>))
                      (d\<lparr>i_roles := update_where (\<lambda>x. ro_id x = ro_id r) f (i_roles d)\<rparr>), Inr (f r))))"

subsection \<open>Project members\<close>

definition record_activity :: "uuid \<Rightarrow> string \<Rightarrow> id_db \<Rightarrow> id_db" where
  "record_activity pid kind d = d\<lparr>i_activities := i_activities d @ [(pid, kind)]\<rparr>"

record member_spec =
  ms_user_id :: uuid
  ms_role :: role_name
  ms_overrides :: "string list"

definition audit_member :: "uuid \<Rightarrow> uuid \<Rightarrow> string \<Rightarrow> user_row \<Rightarrow> payload option \<Rightarrow> payload option \<Rightarrow>
    string option \<Rightarrow> id_db \<Rightarrow> id_db" where
  "audit_member entity pid label actor before after ip d =
     audit (audit_entry ((audit_args AA_PERMISSION_CHANGE ''project_member'' (Some entity))
       \<lparr>au_entity_label := Some label, au_project_id := Some pid, au_user_id := Some (u_id actor),
        au_user_email := Some (u_email actor), au_before := before, au_after := after,
        au_ip := ip\<rparr>)) d"

definition add_member_internal :: "instant \<Rightarrow> project_row \<Rightarrow> member_spec \<Rightarrow> user_row \<Rightarrow> string option \<Rightarrow>
    id_db \<Rightarrow> id_db \<times> (exn + member_row)" where
  "add_member_internal now p spec actor ip d =
     (case get_user (ms_user_id spec) d of
        None \<Rightarrow> (d, Inl (NotFoundError ''User'' (uuid_str (ms_user_id spec))))
      | Some u \<Rightarrow>
          if \<not> u_is_active u
          then (d, Inl (ValidationError ''Cannot add a deactivated user to a project.''))
          else if get_membership (pr_id p) (u_id u) d \<noteq> None
          then (d, Inl (access_error ''ConflictError'' ''conflict''
            [(''user_id'', JStr (uuid_str (u_id u)))]
            (u_full_name u @ '' is already a member of this project.'')))
          else (case role_by_name (ms_role spec) d of
              None \<Rightarrow> (d, Inl (ValidationError
                (''Role '' @ quoted (role_value (ms_role spec)) @ '' is not configured.'')))
            | Some r \<Rightarrow>
              (case add_member_row now (pr_id p) (u_id u) (ro_id r) (Some (u_id actor))
                      (ms_overrides spec) d of
                 (d1, Inl e) \<Rightarrow> (d1, Inl e)
               | (d1, Inr m) \<Rightarrow>
                   (audit_member (pm_id m) (pr_id p) (u_email u @ '' -> '' @ pr_name p) actor None
                      (Some [(''user_id'', FJson (JStr (uuid_str (u_id u)))),
                             (''role'', FJson (JStr (role_value (ro_name r)))),
                             (''granted'', FJson (JBool True))]) ip
                      (record_activity (pr_id p) ''member_added'' d1), Inr m))))"

text \<open>Members already present are skipped, and so is a user the addition refuses with one of the two
  caught classes.\<close>

fun add_members_bulk :: "instant \<Rightarrow> project_row \<Rightarrow> role_name \<Rightarrow> uuid list \<Rightarrow> user_row \<Rightarrow> string option \<Rightarrow>
    id_db \<Rightarrow> id_db \<times> (exn + member_row list)" where
  "add_members_bulk now p rn [] actor ip d = (d, Inr [])"
| "add_members_bulk now p rn (uid # uids) actor ip d =
     (if get_membership (pr_id p) uid d \<noteq> None then add_members_bulk now p rn uids actor ip d
      else (case add_member_internal now p \<lparr>ms_user_id = uid, ms_role = rn, ms_overrides = []\<rparr> actor ip d of
          (d1, Inl e) \<Rightarrow>
            if exn_type e \<in> {''NotFoundError'', ''ValidationError''}
            then add_members_bulk now p rn uids actor ip d1
            else (d1, Inl e)
        | (d1, Inr m) \<Rightarrow> apsnd (map_sum id (Cons m)) (add_members_bulk now p rn uids actor ip d1)))"

definition LAST_MANAGER :: exn where
  "LAST_MANAGER = ForbiddenError
     (''A project must keep at least one Contract Manager. Assign another '' @
      ''manager before changing this membership.'') []"

definition guard_last_manager :: "uuid \<Rightarrow> id_db \<Rightarrow> exn + unit" where
  "guard_last_manager pid d = (if count_managers pid d \<le> 1 then Inl LAST_MANAGER else Inr ())"

definition role_of :: "member_row \<Rightarrow> id_db \<Rightarrow> role_name option" where
  "role_of m d = map_option ro_name (role_by_id (pm_role_id m) d)"

definition member_label :: "uuid \<Rightarrow> project_row \<Rightarrow> id_db \<Rightarrow> string" where
  "member_label uid p d =
     (case List.find (\<lambda>u. u_id u = uid) (i_users d) of None \<Rightarrow> [] | Some u \<Rightarrow> u_email u) @ '' @ '' @ pr_name p"

definition update_member_row :: "uuid \<Rightarrow> (member_row \<Rightarrow> member_row) \<Rightarrow> id_db \<Rightarrow> id_db" where
  "update_member_row mid f d = d\<lparr>i_members := update_where (\<lambda>m. pm_id m = mid) f (i_members d)\<rparr>"

text \<open>The role of the row is changed through its foreign key; the loaded object keeps the role it was
  loaded with, which is what the audit row and the answer show as the new one.\<close>

definition update_member :: "project_row \<Rightarrow> uuid \<Rightarrow> role_name option \<Rightarrow> string list option \<Rightarrow> user_row \<Rightarrow>
    string option \<Rightarrow> id_db \<Rightarrow> id_db \<times> (exn + member_row)" where
  "update_member p uid new_role overrides actor ip d =
     (case get_membership (pr_id p) uid d of
        None \<Rightarrow> (d, Inl (NotFoundError ''Project member'' (uuid_str uid)))
      | Some m \<Rightarrow>
        (case (case new_role of
                 None \<Rightarrow> Inr (pm_role_id m)
               | Some rn \<Rightarrow>
                   if role_of m d = Some rn then Inr (pm_role_id m)
                   else (case (if role_of m d = Some RN_PROJECT_MANAGER
                               then guard_last_manager (pr_id p) d else Inr ()) of
                       Inl e \<Rightarrow> Inl e
                     | Inr _ \<Rightarrow>
                       (case role_by_name rn d of
                          None \<Rightarrow> Inl (ValidationError
                            (''Role '' @ quoted (role_value rn) @ '' is not configured.''))
                        | Some r \<Rightarrow> Inr (ro_id r)))) of
           Inl e \<Rightarrow> (d, Inl e)
         | Inr rid \<Rightarrow>
             (let f = (\<lambda>x. x\<lparr>pm_role_id := rid,
                      pm_overrides := (case overrides of None \<Rightarrow> pm_overrides x | Some os \<Rightarrow> os)\<rparr>);
                  shown = (\<lambda>x. [(''role'', FJson (JStr (case role_of m d of None \<Rightarrow> [] | Some rn \<Rightarrow> role_value rn))),
                    (''permission_overrides'', FJson (JArr (map JStr (pm_overrides x))))])
              in (audit_member (pm_id m) (pr_id p)
                    (member_label uid p d) actor
                    (Some (shown m)) (Some (shown (f m))) ip (update_member_row (pm_id m) f d),
                  Inr (f m)))))"

definition remove_member :: "project_row \<Rightarrow> uuid \<Rightarrow> user_row \<Rightarrow> string option \<Rightarrow> id_db \<Rightarrow>
    id_db \<times> (exn + unit)" where
  "remove_member p uid actor ip d =
     (case get_membership (pr_id p) uid d of
        None \<Rightarrow> (d, Inl (NotFoundError ''Project member'' (uuid_str uid)))
      | Some m \<Rightarrow>
        (case (if role_of m d = Some RN_PROJECT_MANAGER then guard_last_manager (pr_id p) d else Inr ()) of
           Inl e \<Rightarrow> (d, Inl e)
         | Inr _ \<Rightarrow>
             (audit_member uid (pr_id p)
                (member_label uid p d) actor
                (Some [(''user_id'', FJson (JStr (uuid_str uid))), (''granted'', FJson (JBool True))])
                (Some [(''granted'', FJson (JBool False))]) ip
                (record_activity (pr_id p) ''member_removed'' (fst (remove_member_rows (pr_id p) uid d))),
              Inr ())))"

definition set_favourite :: "project_row \<Rightarrow> uuid \<Rightarrow> bool \<Rightarrow> id_db \<Rightarrow> id_db \<times> (exn + unit)" where
  "set_favourite p uid fav d =
     (case get_membership (pr_id p) uid d of
        None \<Rightarrow> (d, Inl (NotFoundError ''Project member'' (uuid_str uid)))
      | Some m \<Rightarrow>
          (d\<lparr>i_members := update_where (\<lambda>m. pm_project_id m = pr_id p \<and> pm_user_id m = uid)
             (\<lambda>m. m\<lparr>pm_is_favourite := fav\<rparr>) (i_members d)\<rparr>, Inr ()))"

subsection \<open>Projects\<close>

text \<open>\<open>slugify\<close>: runs of other characters become one hyphen, none at the ends.\<close>

fun slug_runs :: "bool \<Rightarrow> string \<Rightarrow> string" where
  "slug_runs pending [] = []"
| "slug_runs pending (c # cs) =
     (if is_lower c \<or> is_digit c
      then (if pending then [CHR ''-'', c] else [c]) @ slug_runs False cs
      else slug_runs True cs)"

definition slugify :: "string \<Rightarrow> string" where
  "slugify name =
     (let s = slug_runs False (dropWhile (\<lambda>c. \<not> is_lower c \<and> \<not> is_digit c) (lower name));
          cut = take 140 s
      in if cut = [] then ''project'' else cut)"

definition slug_exists :: "string \<Rightarrow> id_db \<Rightarrow> bool" where
  "slug_exists s d \<longleftrightarrow> s \<in> pr_slug ` set (i_projects d)"

text \<open>The base, the first free suffix from 2 to 999, or a random one.\<close>

definition unique_slug :: "string \<Rightarrow> string \<Rightarrow> id_db \<Rightarrow> string" where
  "unique_slug fresh base d =
     (if \<not> slug_exists base d then base
      else (case List.find (\<lambda>s. \<not> slug_exists s d)
                (map (\<lambda>n. take 135 base @ ''-'' @ decimal n) [2..<1000]) of
          Some s \<Rightarrow> s
        | None \<Rightarrow> take 120 base @ ''-'' @ take 8 fresh))"

fun add_initial_members :: "instant \<Rightarrow> project_row \<Rightarrow> member_spec list \<Rightarrow> user_row \<Rightarrow> id_db \<Rightarrow>
    id_db \<times> (exn + unit)" where
  "add_initial_members now p [] actor d = (d, Inr ())"
| "add_initial_members now p (spec # specs) actor d =
     (if ms_user_id spec = u_id actor then add_initial_members now p specs actor d
      else (case add_member_internal now p spec actor None d of
          (d1, Inl e) \<Rightarrow> (d1, Inl e)
        | (d1, Inr _) \<Rightarrow> add_initial_members now p specs actor d1))"

definition create_project :: "instant \<Rightarrow> string \<Rightarrow> string \<Rightarrow> string option \<Rightarrow> member_spec list \<Rightarrow> user_row \<Rightarrow>
    string option \<Rightarrow> id_db \<Rightarrow> id_db \<times> (exn + project_row)" where
  "create_project now fresh name slug specs actor ip d =
     (let base = (case slug of None \<Rightarrow> slugify name | Some s \<Rightarrow> if s = [] then slugify name else s);
          s = unique_slug fresh base d
      in if slug_exists s d then (d, Inl (IntegrityError ''ix_projects_slug''))
         else (let p = \<lparr>pr_id = i_next_id d, pr_name = name, pr_slug = s, pr_deleted_at = None\<rparr>;
                   d1 = d\<lparr>i_projects := i_projects d @ [p], i_next_id := Suc (i_next_id d)\<rparr>
               in case role_by_name RN_PROJECT_MANAGER d1 of
                    None \<Rightarrow> (d1, Inl (ValidationError ''Roles are not seeded. Run the seed step.''))
                  | Some r \<Rightarrow>
                    (case add_member_row now (pr_id p) (u_id actor) (ro_id r) (Some (u_id actor)) [] d1 of
                       (d2, Inl e) \<Rightarrow> (d2, Inl e)
                     | (d2, Inr _) \<Rightarrow>
                       (case add_initial_members now p specs actor d2 of
                          (d3, Inl e) \<Rightarrow> (d3, Inl e)
                        | (d3, Inr _) \<Rightarrow>
                            (audit (audit_entry ((audit_args AA_CREATE ''project'' (Some (pr_id p)))
                               \<lparr>au_entity_label := Some name, au_project_id := Some (pr_id p),
                                au_user_id := Some (u_id actor), au_user_email := Some (u_email actor),
                                au_after := Some (snapshot [] [(''id'', FUuid (pr_id p)),
                                  (''name'', FJson (JStr name)), (''slug'', FJson (JStr s))]),
                                au_ip := ip\<rparr>))
                              (record_activity (pr_id p) ''project_created'' d3), Inr p)))))"

definition delete_project :: "instant \<Rightarrow> project_row \<Rightarrow> user_row \<Rightarrow> string option \<Rightarrow> id_db \<Rightarrow>
    id_db \<times> (exn + unit)" where
  "delete_project now p actor ip d =
     (audit (audit_entry ((audit_args AA_DELETE ''project'' (Some (pr_id p)))
        \<lparr>au_entity_label := Some (pr_name p), au_project_id := Some (pr_id p),
         au_user_id := Some (u_id actor), au_user_email := Some (u_email actor),
         au_before := Some (snapshot [] [(''id'', FUuid (pr_id p)),
           (''name'', FJson (JStr (pr_name p))), (''slug'', FJson (JStr (pr_slug p)))]),
         au_after := Some [(''deleted'', FJson (JBool True))], au_ip := ip\<rparr>))
       (d\<lparr>i_projects := update_where (\<lambda>x. pr_id x = pr_id p) (\<lambda>x. x\<lparr>pr_deleted_at := Some now\<rparr>)
          (i_projects d)\<rparr>), Inr ())"

end
