(* ===== verification/UsersLaws.thy ===== *)
theory UsersLaws
  imports Users
begin

text \<open>
  Laws of accounts and memberships: the platform always keeps an active administrator, a removed
  or deactivated account has no way in, what the manager guard of a project does and does not
  protect, and what an invitation and a new project establish.
\<close>

subsection \<open>Administrators\<close>

definition user_ids_ok :: "id_db \<Rightarrow> bool" where
  "user_ids_ok d \<longleftrightarrow> distinct (map u_id (i_users d)) \<and> list_all (\<lambda>u. u_id u < i_next_id d) (i_users d)"

definition has_admin :: "id_db \<Rightarrow> bool" where
  "has_admin d \<longleftrightarrow> list_ex active_admin (i_users d)"

text \<open>The two facts the invariant needs, of a transition.\<close>

definition keeps_admin :: "id_db \<Rightarrow> id_db \<Rightarrow> bool" where
  "keeps_admin d d' \<longleftrightarrow> user_ids_ok d \<and> has_admin d \<longrightarrow> user_ids_ok d' \<and> has_admin d'"

lemma keeps_admin_refl [simp]: "keeps_admin d d"
  by (simp add: keeps_admin_def)

lemma keeps_admin_trans: "keeps_admin a b \<Longrightarrow> keeps_admin b c \<Longrightarrow> keeps_admin a c"
  by (simp add: keeps_admin_def)

lemma keeps_admin_frame:
  "i_users d' = i_users d \<Longrightarrow> i_next_id d \<le> i_next_id d' \<Longrightarrow> keeps_admin d d'"
  by (auto simp: keeps_admin_def user_ids_ok_def has_admin_def list_all_iff)

lemma keeps_admin_audit [simp]: "keeps_admin d (audit e d)"
  by (rule keeps_admin_frame) (simp_all add: audit_def)

lemma keeps_admin_revoke [simp]: "keeps_admin d (fst (revoke_all_for_user now uid d))"
  by (rule keeps_admin_frame) (simp_all add: revoke_all_for_user_def)

lemma keeps_admin_then:
  "keeps_admin d x \<Longrightarrow> keeps_admin d (audit e x)"
  "keeps_admin d x \<Longrightarrow> keeps_admin d (fst (revoke_all_for_user now uid x))"
  by (meson keeps_admin_audit keeps_admin_revoke keeps_admin_trans)+

lemma keeps_admin_audit_user: "keeps_admin d x \<Longrightarrow> keeps_admin d (audit_user action u actor bf af ip x)"
  unfolding audit_user_def by (rule keeps_admin_then)

lemma keeps_admin_update:
  assumes ids: "\<And>u. u_id (f u) = u_id u"
    and other: "(\<exists>v \<in> set (i_users d). active_admin v \<and> u_id v \<noteq> uid) \<or>
      (\<forall>u \<in> set (i_users d). u_id u = uid \<longrightarrow> active_admin u \<longrightarrow> active_admin (f u))"
  shows "keeps_admin d (update_user_row uid f d)"
proof -
  have "has_admin (update_user_row uid f d)" if "has_admin d"
  proof -
    have "\<exists>v \<in> set (i_users d). active_admin (if u_id v = uid then f v else v)"
    proof (cases "\<exists>v \<in> set (i_users d). active_admin v \<and> u_id v \<noteq> uid")
      case True
      then show ?thesis by auto
    next
      case False
      then show ?thesis using that other by (auto simp: has_admin_def list_ex_iff)
    qed
    then obtain v where v: "v \<in> set (i_users d)" "active_admin (if u_id v = uid then f v else v)" by blast
    then have "(if u_id v = uid then f v else v) \<in> set (update_where (\<lambda>u. u_id u = uid) f (i_users d))"
      by (auto simp: update_where_def)
    with v(2) show ?thesis unfolding has_admin_def list_ex_iff update_user_row_def by auto
  qed
  moreover have "user_ids_ok (update_user_row uid f d)" if "user_ids_ok d"
    using that ids by (auto simp: user_ids_ok_def update_user_row_def map_update_where list_all_update_where)
  ultimately show ?thesis by (simp add: keeps_admin_def)
qed

lemma guard_last_admin_ok:
  assumes "guard_last_admin u d = Inr ()" "user_ids_ok d" "u \<in> set (i_users d)" "has_admin d"
  shows "\<exists>v \<in> set (i_users d). active_admin v \<and> u_id v \<noteq> u_id u"
proof (cases "u_is_system_admin u")
  case True
  then show ?thesis using assms(1)
    by (auto simp: guard_last_admin_def filter_empty_conv split: if_splits)
next
  case False
  obtain v where v: "v \<in> set (i_users d)" "active_admin v"
    using assms(4) by (auto simp: has_admin_def list_ex_iff)
  then have "v \<noteq> u" using False by (auto simp: active_admin_def)
  then have "u_id v \<noteq> u_id u"
    using v assms(2,3) unfolding user_ids_ok_def distinct_map by (metis inj_onD)
  then show ?thesis using v by blast
qed

lemma get_user_in: "get_user uid d = Some u \<Longrightarrow> u \<in> set (i_users d) \<and> u_id u = uid \<and> u_deleted_at u = None"
  by (auto simp: get_user_def live_users_def dest!: find_SomeD)

lemma keeps_admin_guarded:
  assumes "guard_last_admin u d = Inr ()" "get_user uid d = Some u" "\<And>u. u_id (f u) = u_id u"
  shows "keeps_admin d (update_user_row uid f d)"
proof (cases "user_ids_ok d \<and> has_admin d")
  case True
  then show ?thesis
    using guard_last_admin_ok[OF assms(1)] get_user_in[OF assms(2)] assms(3)
    by (intro keeps_admin_update) auto
qed (auto simp: keeps_admin_def)

text \<open>The two guarded operations, once the account is found.\<close>

lemma update_user_found:
  assumes "get_user uid d = Some u"
    and g: "g = (if ch_is_system_admin c = Some False \<or> ch_is_active c = Some False
      then guard_last_admin u d else Inr ())"
  shows "update_user now uid c actor ip d =
    (if no_changes c then (d, Inr u)
     else if u_id u = u_id actor \<and> (ch_is_system_admin c \<noteq> None \<or> ch_is_active c \<noteq> None)
     then (d, Inl (ForbiddenError ''You cannot change your own administrator status or active state.'' []))
     else (case g of Inl e \<Rightarrow> (d, Inl e) | Inr _ \<Rightarrow>
       (audit_user (if ch_is_system_admin c \<noteq> None \<or> ch_is_active c \<noteq> None then AA_PERMISSION_CHANGE
                    else AA_UPDATE) (apply_changes c u) actor (Some (user_snapshot u))
          (Some (user_snapshot (apply_changes c u))) ip
          (if ch_is_active c = Some False
           then fst (revoke_all_for_user now uid (update_user_row uid (apply_changes c) d))
           else update_user_row uid (apply_changes c) d), Inr (apply_changes c u))))"
  unfolding update_user_def assms(1) g Let_def by (simp only: option.case)

lemma delete_user_found:
  assumes "get_user uid d = Some u" "u_id u \<noteq> u_id actor" "guard_last_admin u d = Inr x"
  shows "\<exists>e. delete_user now uid actor ip d = (audit e (fst (revoke_all_for_user now uid
    (update_user_row uid (\<lambda>v. v\<lparr>u_deleted_at := Some now, u_is_active := False\<rparr>) d))), Inr ())"
  using assms by (simp add: delete_user_def audit_user_def split: prod.splits) blast

lemma keeps_admin_update_user: "keeps_admin d (fst (update_user now uid c actor ip d))"
proof (cases "get_user uid d")
  case None
  then show ?thesis by (simp add: update_user_def)
next
  case (Some u)
  have ids: "u_id (apply_changes c v) = u_id v" for v by (simp add: apply_changes_def)
  have plain: "keeps_admin d (update_user_row uid (apply_changes c) d)"
    if "\<not> (ch_is_system_admin c = Some False \<or> ch_is_active c = Some False)"
    using that ids
    by (intro keeps_admin_update) (auto simp: apply_changes_def active_admin_def split: option.splits)
  have guarded: "keeps_admin d (update_user_row uid (apply_changes c) d)"
    if "guard_last_admin u d = Inr ()"
    using keeps_admin_guarded[OF that Some] ids by blast
  define g where "g = (if ch_is_system_admin c = Some False \<or> ch_is_active c = Some False
    then guard_last_admin u d else Inr ())"
  have "keeps_admin d (update_user_row uid (apply_changes c) d)" if "g = Inr x" for x
    using that plain guarded by (cases x) (auto simp: g_def split: if_splits)
  then show ?thesis
    unfolding update_user_found[OF Some g_def]
    by (cases g) (simp_all add: keeps_admin_audit_user keeps_admin_then)
qed

lemma keeps_admin_delete: "keeps_admin d (fst (delete_user now uid actor ip d))"
proof (cases "get_user uid d")
  case None
  then show ?thesis by (simp add: delete_user_def)
next
  case (Some u)
  let ?f = "\<lambda>v. v\<lparr>u_deleted_at := Some now, u_is_active := False\<rparr>"
  have "keeps_admin d (fst (revoke_all_for_user now uid (update_user_row uid ?f d)))"
    if "guard_last_admin u d = Inr x" for x
    using keeps_admin_guarded[OF _ Some, of ?f] that by (cases x) (simp add: keeps_admin_then)
  then show ?thesis
    by (cases "guard_last_admin u d")
      (auto simp: delete_user_def Some intro!: keeps_admin_audit_user split: prod.splits)
qed

lemma assign_projects_frame:
  "i_users (fst (assign_projects now actor uid as d)) = i_users d \<and>
   i_next_id d \<le> i_next_id (fst (assign_projects now actor uid as d))"
proof (induction now actor uid as d rule: assign_projects.induct)
  case (2 now actor uid pid rn rest d)
  show ?case
  proof (cases "get_project pid d = None \<or> role_by_name rn d = None")
    case True
    then show ?thesis by (auto split: option.splits)
  next
    case False
    then obtain p r where pr: "get_project pid d = Some p" "role_by_name rn d = Some r" by auto
    obtain d1 x where a: "add_member_row now pid uid (ro_id r) (Some actor) [] d = (d1, x)" by fastforce
    then have "i_users d1 = i_users d" "i_next_id d \<le> i_next_id d1"
      by (auto simp: add_member_row_def Let_def split: if_splits)
    then show ?thesis using 2[OF pr a[symmetric]] pr a by (cases x) auto
  qed
qed simp

lemma keeps_admin_create: "keeps_admin d (fst (create_user env dp p actor ip d))"
proof -
  have new: "keeps_admin d (fst (create_user_row proto d))" for proto
    by (auto simp: keeps_admin_def create_user_row_def Let_def user_ids_ok_def has_admin_def
        list_all_iff less_Suc_eq)
  have assigned: "keeps_admin d d2"
    if "create_user_row proto d = (d1, r)" "assign_projects now a u as d1 = (d2, r')" for proto d1 r now a u as d2 r'
  proof -
    have "keeps_admin d1 d2"
      using assign_projects_frame[of now a u as d1] that(2) by (intro keeps_admin_frame) auto
    then show ?thesis using new[of proto] that(1) by (auto intro: keeps_admin_trans)
  qed
  have created: "keeps_admin d d1" if "create_user_row proto d = (d1, r)" for proto d1 r
    using new[of proto] that by simp
  show ?thesis
    by (auto simp: create_user_def intro!: keeps_admin_audit_user dest: assigned created
        split: option.splits sum.splits prod.splits)
qed

lemma keeps_admin_in_request: "keeps_admin d (fst (h d)) \<Longrightarrow> keeps_admin d (fst (in_request h d))"
  by (auto simp: in_request_def split: prod.splits sum.splits)

lemma keeps_admin_profile: "keeps_admin d (fst (update_own_profile u n b ip d))"
proof -
  have "keeps_admin d (update_user_row k (\<lambda>v. v\<lparr>u_full_name := (case n of None \<Rightarrow> u_full_name v | Some x \<Rightarrow> x)\<rparr>) d)"
    for k by (rule keeps_admin_update) (simp_all add: active_admin_def)
  then show ?thesis
    by (simp add: update_own_profile_def Let_def audit_user_def keeps_admin_then)
qed

lemma keeps_admin_set_password: "keeps_admin d (fst (admin_set_password env uid pw mc actor ip d))"
proof -
  have "keeps_admin d (set_password_hash uid h b d)" for h b
    unfolding set_password_hash_def by (rule keeps_admin_update) (simp_all add: active_admin_def)
  then have "keeps_admin d (audit e (fst (revoke_all_for_user now uid (set_password_hash uid h b d))))" for e now h b
    by (meson keeps_admin_audit keeps_admin_revoke keeps_admin_trans)
  then show ?thesis
    by (auto simp: admin_set_password_def audit_user_def split: option.splits sum.splits prod.splits)
      (metis fst_conv)
qed

text \<open>One request of user management, by whichever actor the endpoint admitted.\<close>

inductive user_step :: "'tok sec_env set \<Rightarrow> id_db \<Rightarrow> id_db \<Rightarrow> bool" for envs where
  create: "env \<in> envs \<Longrightarrow> user_step envs d (fst (in_request (create_user env dp p actor ip) d))"
| update: "env \<in> envs \<Longrightarrow> user_step envs d (fst (in_request (update_user (se_now env) uid c actor ip) d))"
| profile: "user_step envs d (fst (in_request (update_own_profile u n b ip) d))"
| reset: "env \<in> envs \<Longrightarrow> user_step envs d (fst (in_request (admin_set_password env uid pw mc actor ip) d))"
| delete: "env \<in> envs \<Longrightarrow> user_step envs d (fst (in_request (delete_user (se_now env) uid actor ip) d))"

inductive_simps user_step_iff: "user_step envs d d'"

lemma user_step_keeps_admin: "user_step envs d d' \<Longrightarrow> keeps_admin d d'"
  by (induction rule: user_step.induct)
    (intro keeps_admin_in_request keeps_admin_create keeps_admin_update_user keeps_admin_profile
      keeps_admin_set_password keeps_admin_delete)+

text \<open>C18: No sequence of user-management requests takes the platform its last active administrator:
  whoever acts, on whomever, with whatever fields, one remains.\<close>

theorem last_admin_is_never_lost:
  assumes steps: "(user_step envs)\<^sup>*\<^sup>* d d'" and "has_admin d" "user_ids_ok d"
  shows "has_admin d' \<and> user_ids_ok d'"
proof -
  have "keeps_admin d d'"
    using steps by (induction rule: rtranclp_induct) (auto intro: keeps_admin_trans user_step_keeps_admin)
  then show ?thesis using assms(2,3) by (simp add: keeps_admin_def)
qed

text \<open>The guard holds for requests that run one after the other. It reads without locking: where
  two administrators demote or deactivate each other at the same time, both requests count
  the other one, and the two updates together leave none.\<close>

theorem concurrent_demotions_leave_no_admin:
  assumes "user_ids_ok d" and a: "a \<in> set (i_users d)" "active_admin a"
    and b: "b \<in> set (i_users d)" "active_admin b" "u_id a \<noteq> u_id b"
    and only: "\<And>u. u \<in> set (i_users d) \<Longrightarrow> active_admin u \<Longrightarrow> u = a \<or> u = b"
  shows "guard_last_admin a d = Inr () \<and> guard_last_admin b d = Inr () \<and>
    \<not> has_admin (update_user_row (u_id a) (\<lambda>u. u\<lparr>u_is_active := False\<rparr>)
        (update_user_row (u_id b) (\<lambda>u. u\<lparr>u_is_active := False\<rparr>) d))"
proof -
  let ?off = "\<lambda>u. u\<lparr>u_is_active := False\<rparr>"
  have guards: "guard_last_admin a d = Inr ()" "guard_last_admin b d = Inr ()"
    using a b by (auto simp: guard_last_admin_def filter_empty_conv)
  have "\<not> active_admin x"
    if x: "x \<in> set (update_where (\<lambda>u. u_id u = u_id a) ?off (update_where (\<lambda>u. u_id u = u_id b) ?off (i_users d)))"
    for x
  proof
    assume act: "active_admin x"
    have "x \<in> set (i_users d)" "u_id x \<noteq> u_id a" "u_id x \<noteq> u_id b"
      using x act by (auto simp: set_update_where active_admin_def)
    then show False using only act by blast
  qed
  then show ?thesis
    using guards by (auto simp: has_admin_def list_ex_iff update_user_row_def)
qed

text \<open>Every token of the account is revoked and no row of it is active.\<close>

definition locked_out :: "uuid \<Rightarrow> id_db \<Rightarrow> bool" where
  "locked_out uid d \<longleftrightarrow> list_all (\<lambda>t. t_user_id t = uid \<longrightarrow> t_revoked_at t \<noteq> None) (i_tokens d) \<and>
     list_all (\<lambda>u. u_id u = uid \<longrightarrow> \<not> u_is_active u) (i_users d)"

lemma locked_out_no_entry:
  assumes "locked_out uid d"
  shows "active_sessions now uid d = []" "get_current_user env tok d \<noteq> Inr v \<or> u_id v \<noteq> uid"
proof -
  show "active_sessions now uid d = []"
    using assms by (auto simp: locked_out_def active_sessions_def sort_key_Nil_iff filter_empty_conv
        list_all_iff token_active_def)
  show "get_current_user env tok d \<noteq> Inr v \<or> u_id v \<noteq> uid"
    using assms get_user_in[of _ d v]
    by (auto simp: locked_out_def get_current_user_def list_all_iff split: option.splits sum.splits if_splits)
qed

lemma locked_out_revoked:
  assumes "\<And>u. \<not> u_is_active (f u)" "\<And>u. u_id (f u) = u_id u"
  shows "locked_out uid (audit e (fst (revoke_all_for_user now uid (update_user_row uid f d))))"
proof -
  have "list_all (\<lambda>t. t_user_id t = uid \<longrightarrow> t_revoked_at t \<noteq> None)
      (update_where (unrevoked_of uid) (\<lambda>t. t\<lparr>t_revoked_at := Some now\<rparr>) ts)" for ts
    by (induction ts) (auto simp: update_where_def unrevoked_of_def)
  moreover have "list_all (\<lambda>u. u_id u = uid \<longrightarrow> \<not> u_is_active u) (update_where (\<lambda>u. u_id u = uid) f us)" for us
    using assms by (induction us) (auto simp: update_where_def)
  ultimately show ?thesis
    by (simp add: locked_out_def audit_def revoke_all_for_user_def update_user_row_def)
qed

text \<open>A deactivated or deleted account has no way in: no refresh token of it stays usable at any
  time, and no access token, whenever it was issued, authenticates as it.\<close>

theorem removed_account_is_locked_out:
  "(case in_request (delete_user now uid actor ip) d of
      (d', Inr _) \<Rightarrow> active_sessions later uid d' = [] \<and>
        (get_current_user env tok d' \<noteq> Inr v \<or> u_id v \<noteq> uid)
    | (d', Inl e) \<Rightarrow> d' = d) \<and>
   (case in_request (update_user now uid c actor ip) d of
      (d', Inr _) \<Rightarrow> ch_is_active c \<noteq> Some False \<or> active_sessions later uid d' = [] \<and>
        (get_current_user env tok d' \<noteq> Inr v \<or> u_id v \<noteq> uid)
    | (d', Inl e) \<Rightarrow> d' = d)"
proof -
  have del: "locked_out uid d'" if run: "delete_user now uid actor ip d = (d', Inr x)" for d' x
  proof -
    obtain u y where u: "get_user uid d = Some u" "u_id u \<noteq> u_id actor" "guard_last_admin u d = Inr y"
      using run by (auto simp: delete_user_def split: option.splits sum.splits if_splits)
    show ?thesis using delete_user_found[OF u, of now ip] run locked_out_revoked by auto
  qed
  have upd: "locked_out uid d'" if run: "update_user now uid c actor ip d = (d', Inr x)"
    and off: "ch_is_active c = Some False" for d' x
  proof -
    obtain u where u: "get_user uid d = Some u"
      using run by (auto simp: update_user_def split: option.splits)
    have "\<not> no_changes c" using off by (simp add: no_changes_def)
    then obtain e where "d' = audit e (fst (revoke_all_for_user now uid (update_user_row uid (apply_changes c) d)))"
      using run off unfolding update_user_found[OF u refl] audit_user_def
      by (auto split: sum.splits if_splits)
    then show ?thesis
      using locked_out_revoked[of "apply_changes c"] off by (simp add: apply_changes_def)
  qed
  have no: "active_sessions later uid x = [] \<and> (get_current_user env tok x \<noteq> Inr v \<or> u_id v \<noteq> uid)"
    if "locked_out uid x" for x
    using locked_out_no_entry[OF that] by blast
  show ?thesis using del[THEN no] upd[THEN no]
    by (simp add: in_request_def split: prod.splits sum.splits)
qed

subsection \<open>Managers of a project\<close>

abbreviation managing :: "role_name set" where
  "managing \<equiv> {RN_PROJECT_MANAGER, RN_SYSTEM_ADMIN}"

lemma manages_role_of:
  "manages d pid managing m \<longleftrightarrow> pm_project_id m = pid \<and> role_of m d \<in> Some ` managing"
  by (cases "role_by_id (pm_role_id m) d") (auto simp: manages_def role_of_def)

lemma count_managers_frame:
  "i_members d' = i_members d \<Longrightarrow> i_roles d' = i_roles d \<Longrightarrow> count_managers pid d' = count_managers pid d"
  by (simp add: count_managers_def manages_def[abs_def] role_by_id_def)

lemma filter_remove_one:
  assumes "distinct (map key xs)" "x \<in> set xs" "Q x"
  shows "length (filter Q (filter (\<lambda>y. key y \<noteq> key x) xs)) + 1 = length (filter Q xs)"
  using assms
proof (induction xs)
  case (Cons y ys)
  show ?case
  proof (cases "y = x")
    case True
    then have "filter (\<lambda>y. key y \<noteq> key x) ys = ys"
      using Cons.prems(1) by (auto simp: filter_id_conv image_iff)
    then show ?thesis using True Cons.prems(3) by simp
  next
    case False
    then have "key y \<noteq> key x" using Cons.prems(1,2) by (auto simp: image_iff)
    then show ?thesis using False Cons by auto
  qed
qed simp

lemma filter_keep_others:
  "(\<And>x. x \<in> set xs \<Longrightarrow> \<not> P x \<Longrightarrow> \<not> Q x) \<Longrightarrow> filter Q (filter P xs) = filter Q xs"
  by (induction xs) auto

text \<open>Removing a member: a project manager is refused exactly when they are the last one counted;
  any other removal goes through and the project is left with a manager, unless the member
  removed held the administrator role. The count includes that role but the guard does not, so
  the last manager of a project can be removed when that is their role.\<close>

theorem removal_and_the_last_manager:
  assumes wf: "access_wf d" and m: "get_membership (pr_id p) uid d = Some m"
  shows "(case in_request (remove_member p uid actor ip) d of
      (d', Inl e) \<Rightarrow> d' = d \<and> e = LAST_MANAGER \<and> role_of m d = Some RN_PROJECT_MANAGER \<and>
        count_managers (pr_id p) d \<le> 1
    | (d', Inr _) \<Rightarrow> get_membership (pr_id p) uid d' = None \<and>
        count_managers (pr_id p) d' + (if role_of m d \<in> Some ` managing then 1 else 0) =
          count_managers (pr_id p) d \<and>
        (role_of m d = Some RN_PROJECT_MANAGER \<longrightarrow> 0 < count_managers (pr_id p) d'))"
proof -
  have m': "m \<in> set (i_members d)" "pm_project_id m = pr_id p" "pm_user_id m = uid"
    using m get_membership_iff[OF wf] by auto
  let ?k = "\<lambda>m. (pm_project_id m, pm_user_id m)"
  let ?d = "fst (remove_member_rows (pr_id p) uid d)"
  have rows: "i_members ?d = filter (\<lambda>x. ?k x \<noteq> ?k m) (i_members d)"
    using m' by (auto simp: remove_member_rows_def intro!: filter_cong)
  have mg: "manages ?d pid managing x = manages d pid managing x" for x pid
    by (simp add: manages_def role_by_id_def remove_member_rows_def)
  have count: "count_managers (pr_id p) ?d + (if role_of m d \<in> Some ` managing then 1 else 0) =
      count_managers (pr_id p) d"
  proof (cases "role_of m d \<in> Some ` managing")
    case True
    then show ?thesis
      using filter_remove_one[of ?k "i_members d" m "manages d (pr_id p) managing"] wf m'
      unfolding count_managers_def mg rows by (simp add: access_wf_def manages_role_of)
  next
    case False
    have "x = m" if "x \<in> set (i_members d)" "?k x = ?k m" for x
      using that m' m get_membership_iff[OF wf, of "pr_id p" uid x] by simp
    then have "filter (manages d (pr_id p) managing) (filter (\<lambda>x. ?k x \<noteq> ?k m) (i_members d)) =
        filter (manages d (pr_id p) managing) (i_members d)"
      using False by (intro filter_keep_others) (auto simp: manages_role_of)
    then show ?thesis using False unfolding count_managers_def mg rows by simp
  qed
  have gone: "get_membership (pr_id p) uid ?d = None"
    by (auto simp: get_membership_def remove_member_rows_def find_None_iff)
  have post: "get_membership a b (audit e (record_activity pid k x)) = get_membership a b x"
    "count_managers a (audit e (record_activity pid k x)) = count_managers a x" for a b e pid k x
  proof -
    show "get_membership a b (audit e (record_activity pid k x)) = get_membership a b x"
      by (simp add: audit_def record_activity_def get_membership_def)
    show "count_managers a (audit e (record_activity pid k x)) = count_managers a x"
      by (rule count_managers_frame) (simp_all add: audit_def record_activity_def)
  qed
  define refused where "refused \<longleftrightarrow> role_of m d = Some RN_PROJECT_MANAGER \<and> count_managers (pr_id p) d \<le> 1"
  have run: "\<exists>e. remove_member p uid actor ip d =
      (if refused then (d, Inl LAST_MANAGER)
       else (audit e (record_activity (pr_id p) ''member_removed'' ?d), Inr ()))"
    by (cases "role_of m d = Some RN_PROJECT_MANAGER"; cases "count_managers (pr_id p) d \<le> 1")
      (simp_all add: remove_member_def m guard_last_manager_def refused_def audit_member_def, blast+)
  then obtain e where run: "remove_member p uid actor ip d =
      (if refused then (d, Inl LAST_MANAGER)
       else (audit e (record_activity (pr_id p) ''member_removed'' ?d), Inr ()))" by blast
  show ?thesis
  proof (cases refused)
    case True
    then show ?thesis by (simp add: in_request_def run refused_def)
  next
    case False
    have "0 < count_managers (pr_id p) ?d" if "role_of m d = Some RN_PROJECT_MANAGER"
      using False that count by (simp add: refused_def)
    then show ?thesis using False gone count by (simp add: in_request_def run post)
  qed
qed

subsection \<open>Invitations and new projects\<close>

definition can_join :: "role_name \<Rightarrow> uuid \<Rightarrow> id_db \<Rightarrow> bool" where
  "can_join rn uid d \<longleftrightarrow> role_by_name rn d \<noteq> None \<and>
     (case get_user uid d of None \<Rightarrow> False | Some u \<Rightarrow> u_is_active u)"

lemma add_member_internal_cases:
  assumes "get_membership (pr_id p) (ms_user_id spec) d = None"
  shows "if can_join (ms_role spec) (ms_user_id spec) d
    then \<exists>d1 m r. add_member_internal now p spec actor ip d = (d1, Inr m) \<and>
      role_by_name (ms_role spec) d = Some r \<and> pm_role_id m = ro_id r \<and>
      i_members d1 = i_members d @ [m] \<and> pm_project_id m = pr_id p \<and>
      pm_user_id m = ms_user_id spec \<and> i_users d1 = i_users d \<and> i_roles d1 = i_roles d
    else \<exists>e. add_member_internal now p spec actor ip d = (d, Inl e) \<and>
      exn_type e \<in> {''NotFoundError'', ''ValidationError''}"
proof (cases "can_join (ms_role spec) (ms_user_id spec) d")
  case True
  then obtain u r where ur: "get_user (ms_user_id spec) d = Some u" "u_is_active u"
      "role_by_name (ms_role spec) d = Some r"
    by (auto simp: can_join_def split: option.splits)
  have uid: "u_id u = ms_user_id spec" using get_user_in[OF ur(1)] by simp
  have "\<not> (\<exists>m \<in> set (i_members d). pm_project_id m = pr_id p \<and> pm_user_id m = ms_user_id spec)"
    using assms by (auto simp: get_membership_def find_None_iff)
  then show ?thesis
    using True ur assms uid
    by (simp add: add_member_internal_def add_member_row_def Let_def audit_member_def audit_def
        record_activity_def)
next
  case False
  have ids: "get_user (ms_user_id spec) d = Some u \<Longrightarrow> u_id u = ms_user_id spec" for u
    using get_user_in by blast
  show ?thesis
    using False assms ids
    by (auto simp: add_member_internal_def can_join_def NotFoundError_def access_error_def
        ValidationError_def split: option.splits)
qed

text \<open>Inviting several users never fails as a whole: afterwards the members are those of before
  and, of the invited, exactly the active accounts, whatever repetitions, unknown ids and
  existing members the list holds.\<close>

theorem bulk_invite_adds_the_active:
  "case add_members_bulk now p rn uids actor ip d of
     (d', Inl e) \<Rightarrow> False
   | (d', Inr added) \<Rightarrow>
       (get_membership (pr_id p) k d' \<noteq> None \<longleftrightarrow>
          get_membership (pr_id p) k d \<noteq> None \<or> k \<in> set uids \<and> can_join rn k d) \<and>
       length (i_members d') = length (i_members d) + length added"
proof (induction now p rn uids actor ip d rule: add_members_bulk.induct)
  case (1 now p rn actor ip d)
  then show ?case by simp
next
  case (2 now p rn uid uids actor ip d)
  let ?spec = "\<lparr>ms_user_id = uid, ms_role = rn, ms_overrides = []\<rparr>"
  show ?case
  proof (cases "get_membership (pr_id p) uid d")
    case (Some m)
    then have "add_members_bulk now p rn (uid # uids) actor ip d = add_members_bulk now p rn uids actor ip d"
      by simp
    moreover have "get_membership (pr_id p) uid d \<noteq> None" using Some by simp
    ultimately show ?thesis
      using 2(1) by (simp only:) (auto split: prod.splits sum.splits)
  next
    case None
    note step = add_member_internal_cases[of p ?spec d now actor ip, simplified, OF None]
    show ?thesis
    proof (cases "can_join rn uid d")
      case False
      then obtain e where e: "add_member_internal now p ?spec actor ip d = (d, Inl e)"
        "exn_type e \<in> {''NotFoundError'', ''ValidationError''}"
        using step by auto
      then have "add_members_bulk now p rn (uid # uids) actor ip d = add_members_bulk now p rn uids actor ip d"
        using None by simp
      then show ?thesis
        using 2(2)[OF _ e(1)[symmetric] refl e(2)] None False
        by (simp only:) (auto split: prod.splits sum.splits)
    next
      case True
      then obtain d1 m where m: "add_member_internal now p ?spec actor ip d = (d1, Inr m)"
        "i_members d1 = i_members d @ [m]" "pm_project_id m = pr_id p" "pm_user_id m = uid"
        "i_users d1 = i_users d" "i_roles d1 = i_roles d"
        using step by auto
      have mem: "get_membership (pr_id p) k d1 \<noteq> None \<longleftrightarrow> get_membership (pr_id p) k d \<noteq> None \<or> k = uid"
        using m(2-4) by (auto simp: get_membership_def find_None_iff)
      have join: "can_join rn k d1 \<longleftrightarrow> can_join rn k d"
        using m(5,6) by (simp add: can_join_def role_by_name_def get_user_def live_users_def)
      have "add_members_bulk now p rn (uid # uids) actor ip d =
          apsnd (map_sum id (Cons m)) (add_members_bulk now p rn uids actor ip d1)"
        using None m(1) by simp
      then show ?thesis
        using 2(3)[OF _ m(1)[symmetric] refl] None mem join m(2) True
        by (simp only:) (auto split: prod.splits sum.splits)
    qed
  qed
qed

lemma add_initial_members_keeps:
  assumes "add_initial_members now p specs actor d = (d', Inr x)"
  shows "(get_membership (pr_id p) k d = Some m \<longrightarrow> get_membership (pr_id p) k d' = Some m) \<and>
    i_roles d' = i_roles d \<and> i_projects d' = i_projects d"
  using assms
proof (induction now p specs actor d rule: add_initial_members.induct)
  case (2 now p spec specs actor d)
  show ?case
  proof (cases "ms_user_id spec = u_id actor")
    case True
    then show ?thesis using 2 by simp
  next
    case False
    obtain d1 r where r: "add_member_internal now p spec actor None d = (d1, r)" by fastforce
    with 2(3) False obtain y where y: "r = Inr y" "add_initial_members now p specs actor d1 = (d', Inr x)"
      by (cases r) auto
    have "\<exists>ms. i_members d1 = i_members d @ ms \<and> i_roles d1 = i_roles d \<and> i_projects d1 = i_projects d"
      using r y(1)
      by (auto simp: add_member_internal_def add_member_row_def Let_def audit_member_def audit_def
          record_activity_def split: option.splits if_splits prod.splits sum.splits)
    then obtain ms where ms: "i_members d1 = i_members d @ ms" "i_roles d1 = i_roles d"
        "i_projects d1 = i_projects d" by blast
    have "get_membership (pr_id p) k d = Some m \<longrightarrow> get_membership (pr_id p) k d1 = Some m"
      by (simp add: get_membership_def ms(1) find_append)
    then show ?thesis using 2(2)[OF False r[unfolded y(1), symmetric] refl y(2)] ms by auto
  qed
qed simp

text \<open>A new project has a slug of its own, is visible to its creator, and the creator is its
  project manager, whatever members the request lists.\<close>

theorem new_project_is_administrable:
  assumes wf: "access_wf d" and fresh: "i_next_id d \<notin> pr_id ` set (i_projects d)"
    and run: "in_request (create_project now f name slug specs actor ip) d = (d', Inr p)"
  shows "\<not> slug_exists (pr_slug p) d \<and> visible d' actor (pr_id p) \<and>
    (\<exists>m. get_membership (pr_id p) (u_id actor) d' = Some m \<and> role_of m d' = Some RN_PROJECT_MANAGER) \<and>
    0 < count_managers (pr_id p) d'"
proof -
  have c: "create_project now f name slug specs actor ip d = (d', Inr p)"
    using run by (auto simp: in_request_def split: prod.splits sum.splits)
  define d1 where "d1 = d\<lparr>i_projects := i_projects d @ [p], i_next_id := Suc (i_next_id d)\<rparr>"
  obtain r m d2 d3 e where p: "pr_id p = i_next_id d" "pr_deleted_at p = None" "\<not> slug_exists (pr_slug p) d"
    and r: "role_by_name RN_PROJECT_MANAGER d1 = Some r"
    and m: "add_member_row now (pr_id p) (u_id actor) (ro_id r) (Some (u_id actor)) [] d1 = (d2, Inr m)"
    and d3: "add_initial_members now p specs actor d2 = (d3, Inr ())"
    and d': "d' = audit e (record_activity (pr_id p) ''project_created'' d3)"
    using c by (auto simp: create_project_def Let_def d1_def split: if_splits option.splits prod.splits sum.splits)
  have mrow: "i_members d2 = i_members d1 @ [m]" "pm_project_id m = pr_id p" "pm_user_id m = u_id actor"
      "pm_role_id m = ro_id r" "i_roles d2 = i_roles d" "i_projects d2 = i_projects d @ [p]"
    and none: "get_membership (pr_id p) (u_id actor) d1 = None"
    using m by (auto simp: add_member_row_def Let_def d1_def get_membership_def find_None_iff split: if_splits)
  then have "get_membership (pr_id p) (u_id actor) d2 = Some m"
    by (simp add: get_membership_def find_append)
  then have mem: "get_membership (pr_id p) (u_id actor) d3 = Some m" and
    same: "i_roles d3 = i_roles d" "i_projects d3 = i_projects d @ [p]"
    using add_initial_members_keeps[OF d3, of "u_id actor" m] mrow(5,6) by auto
  have "r \<in> set (i_roles d)" "ro_name r = RN_PROJECT_MANAGER"
    using r by (auto simp: role_by_name_def d1_def dest: find_SomeD)
  then have role: "role_of m d' = Some RN_PROJECT_MANAGER"
    using role_by_id_iff[OF wf, of "pm_role_id m" r] mrow(4)
    by (simp add: role_of_def d' audit_def record_activity_def role_by_id_def same)
  have mem': "get_membership (pr_id p) (u_id actor) d' = Some m"
    using mem by (simp add: d' audit_def record_activity_def get_membership_def)
  then have "m \<in> set (i_members d')" by (auto simp: get_membership_def dest: find_SomeD)
  moreover from this role mrow(2) have "0 < count_managers (pr_id p) d'"
    unfolding count_managers_def by (auto simp: filter_empty_conv manages_role_of)
  moreover have "p \<in> set (i_projects d')" by (simp add: d' audit_def record_activity_def same)
  ultimately show ?thesis
    using p mem' role mrow(2,3) unfolding visible_def by blast
qed

subsection \<open>Witnesses\<close>

text \<open>Two administrators; a project whose only manager holds the administrator role.\<close>

definition fx_admins :: id_db where
  "fx_admins = fx_access\<lparr>i_users := [fx_user, fx_user\<lparr>u_id := 2, u_email := ''bo@x.com''\<rparr>]\<rparr>"

definition fx_manager_role :: role_row where
  "fx_manager_role = fx_role\<lparr>ro_id := 51, ro_name := RN_PROJECT_MANAGER\<rparr>"

definition fx_project :: project_row where
  "fx_project = \<lparr>pr_id = 30, pr_name = ''P'', pr_slug = ''p'', pr_deleted_at = None\<rparr>"

definition fx_team :: id_db where
  "fx_team = fx_admins\<lparr>i_roles := [fx_role\<lparr>ro_name := RN_SYSTEM_ADMIN\<rparr>, fx_manager_role],
     i_next_id := 100\<rparr>"

lemmas fx_team_defs = fx_admins_def fx_manager_role_def fx_project_def fx_team_def fx_access_defs
  fx_id_def fx_user_def

lemma fx_team_wf: "access_wf fx_team"
  by (simp add: access_wf_def fx_team_defs)

theorem last_admin_is_never_lost_witness:
  "has_admin (fst (in_request (delete_user (se_now fx_sec) 2 fx_user None) fx_admins))"
proof -
  have "user_step {fx_sec} fx_admins (fst (in_request (delete_user (se_now fx_sec) 2 fx_user None) fx_admins))"
    by (rule user_step.delete) simp
  then have "(user_step {fx_sec})\<^sup>*\<^sup>* fx_admins
      (fst (in_request (delete_user (se_now fx_sec) 2 fx_user None) fx_admins))" by simp
  from last_admin_is_never_lost[OF this] show ?thesis
    by (simp add: has_admin_def user_ids_ok_def active_admin_def fx_team_defs)
qed

theorem removed_account_is_locked_out_witness:
  "\<exists>d'. in_request (delete_user 5 2 fx_user None) fx_admins = (d', Inr ()) \<and>
     active_sessions 6 2 d' = []"
proof -
  have u: "get_user 2 fx_admins = Some (fx_user\<lparr>u_id := 2, u_email := ''bo@x.com''\<rparr>)"
    by (simp add: get_user_def live_users_def fx_team_defs)
  have g: "guard_last_admin (fx_user\<lparr>u_id := 2, u_email := ''bo@x.com''\<rparr>) fx_admins = Inr ()"
    by (simp add: guard_last_admin_def active_admin_def fx_team_defs)
  obtain d' where run: "in_request (delete_user 5 2 fx_user None) fx_admins = (d', Inr ())"
    using delete_user_found[OF u _ g, where actor = fx_user and now = 5 and ip = None] by (auto simp: in_request_def fx_user_def)
  then show ?thesis
    using removed_account_is_locked_out[where now = 5 and uid = 2 and actor = fx_user and ip = None
        and d = fx_admins and later = 6 and env = fx_sec and tok = None and v = fx_user
        and c = "\<lparr>ch_full_name = None, ch_is_active = None, ch_is_system_admin = None,
          ch_must_change_password = None, ch_display = False\<rparr>"]
    by simp
qed

theorem concurrent_demotions_leave_no_admin_witness:
  "guard_last_admin fx_user fx_admins = Inr () \<and>
   \<not> has_admin (update_user_row 1 (\<lambda>u. u\<lparr>u_is_active := False\<rparr>)
      (update_user_row 2 (\<lambda>u. u\<lparr>u_is_active := False\<rparr>) fx_admins))"
  using concurrent_demotions_leave_no_admin[of fx_admins fx_user "fx_user\<lparr>u_id := 2, u_email := ''bo@x.com''\<rparr>"]
  by (simp add: user_ids_ok_def active_admin_def fx_team_defs)

theorem removal_and_the_last_manager_witness:
  "count_managers 30 fx_team = 1 \<and>
   (case in_request (remove_member fx_project 6 fx_user None) fx_team of
      (d', Inl e) \<Rightarrow> False | (d', Inr _) \<Rightarrow> count_managers 30 d' = 0)"
proof -
  have m: "get_membership (pr_id fx_project) 6 fx_team = Some fx_membership"
    by (simp add: get_membership_def fx_team_defs)
  have one: "count_managers 30 fx_team = 1" "role_of fx_membership fx_team = Some RN_SYSTEM_ADMIN"
    by (simp_all add: count_managers_def manages_def role_of_def role_by_id_def fx_team_defs)
  show ?thesis
    using removal_and_the_last_manager[OF fx_team_wf m, of fx_user None] one
    by (auto simp: fx_project_def split: prod.splits sum.splits)
qed

theorem new_project_is_administrable_witness:
  "\<exists>d' p. in_request (create_project 0 [] ''P'' None [] fx_user None) fx_team = (d', Inr p) \<and>
     pr_slug p = ''p-2'' \<and> 0 < count_managers (pr_id p) d'"
proof -
  have s: "slugify ''P'' = ''p''" by code_simp
  have u: "unique_slug [] ''p'' fx_team = ''p-2''"
  proof -
    have up: "[2..<1000] = 2 # [3..<1000]" by (simp add: upt_conv_Cons)
    have dec: "decimal 2 = ''2''" by code_simp
    show ?thesis
      by (simp add: unique_slug_def slug_exists_def fx_team_defs up dec del: decimal.simps upt_Suc upt_rec_numeral)
  qed
  have "\<exists>d' p. create_project 0 [] ''P'' None [] fx_user None fx_team = (d', Inr p) \<and> pr_slug p = ''p-2''"
    by (simp add: create_project_def s u Let_def)
      (simp add: slug_exists_def role_by_name_def add_member_row_def fx_team_defs Let_def)
  then obtain d' p where run: "in_request (create_project 0 [] ''P'' None [] fx_user None) fx_team = (d', Inr p)"
    and slug: "pr_slug p = ''p-2''"
    by (auto simp: in_request_def)
  have "i_next_id fx_team \<notin> pr_id ` set (i_projects fx_team)" by (simp add: fx_team_defs)
  from new_project_is_administrable[OF fx_team_wf this run] run slug show ?thesis by blast
qed

end
