(* ===== verification/Alerts.thy ===== *)
theory Alerts
  imports Dates Access
begin

text \<open>
  The alert tables (\<^verbatim>\<open>backend/app/models/alert.py\<close>), their enumerations, and the endpoints that
  change them (\<^verbatim>\<open>backend/app/api/v1/admin.py\<close>): an operator's decision on an alert, and the
  administration of the rules. The partial unique index on the key of an open alert and the
  constraints on the rules are checked when a session is flushed.
\<close>

subsection \<open>Enumerations\<close>

datatype alert_type =
    AT_CONTRACT_EXPIRING | AT_HIGH_RISK | AT_MISSING_MANDATORY_CLAUSE | AT_PROCESSING_FAILED
  | AT_AUTO_RENEWAL_NOTICE | AT_OBLIGATION_DUE | AT_REVIEW_REQUIRED

datatype alert_severity = SV_CRITICAL | SV_HIGH | SV_MEDIUM | SV_LOW | SV_INFO

datatype alert_status = AS_OPEN | AS_ACKNOWLEDGED | AS_RESOLVED | AS_DISMISSED

fun alert_type_value :: "alert_type \<Rightarrow> string" where
  "alert_type_value AT_CONTRACT_EXPIRING = ''contract_expiring''"
| "alert_type_value AT_HIGH_RISK = ''high_risk''"
| "alert_type_value AT_MISSING_MANDATORY_CLAUSE = ''missing_mandatory_clause''"
| "alert_type_value AT_PROCESSING_FAILED = ''processing_failed''"
| "alert_type_value AT_AUTO_RENEWAL_NOTICE = ''auto_renewal_notice''"
| "alert_type_value AT_OBLIGATION_DUE = ''obligation_due''"
| "alert_type_value AT_REVIEW_REQUIRED = ''review_required''"

fun severity_value :: "alert_severity \<Rightarrow> string" where
  "severity_value SV_CRITICAL = ''critical''"
| "severity_value SV_HIGH = ''high''"
| "severity_value SV_MEDIUM = ''medium''"
| "severity_value SV_LOW = ''low''"
| "severity_value SV_INFO = ''info''"

fun alert_status_value :: "alert_status \<Rightarrow> string" where
  "alert_status_value AS_OPEN = ''open''"
| "alert_status_value AS_ACKNOWLEDGED = ''acknowledged''"
| "alert_status_value AS_RESOLVED = ''resolved''"
| "alert_status_value AS_DISMISSED = ''dismissed''"

text \<open>\<open>_LADDER\<close>, the severities from the weakest to the strongest, and the steps on it. Severities are
  ordered by their place on the ladder.\<close>

definition LADDER :: "alert_severity list" where
  "LADDER = [SV_INFO, SV_LOW, SV_MEDIUM, SV_HIGH, SV_CRITICAL]"

fun ladder_index :: "alert_severity \<Rightarrow> nat" where
  "ladder_index SV_INFO = 0"
| "ladder_index SV_LOW = 1"
| "ladder_index SV_MEDIUM = 2"
| "ladder_index SV_HIGH = 3"
| "ladder_index SV_CRITICAL = 4"

definition severity_at_least :: "alert_severity \<Rightarrow> alert_severity \<Rightarrow> alert_severity" where
  "severity_at_least current floor = (if ladder_index current \<ge> ladder_index floor then current else floor)"

definition promote :: "alert_severity \<Rightarrow> alert_severity" where
  "promote current = LADDER ! min (ladder_index current + 1) (length LADDER - 1)"

instantiation alert_severity :: linorder
begin

definition less_eq_alert_severity :: "alert_severity \<Rightarrow> alert_severity \<Rightarrow> bool" where
  "less_eq_alert_severity a b \<longleftrightarrow> ladder_index a \<le> ladder_index b"

definition less_alert_severity :: "alert_severity \<Rightarrow> alert_severity \<Rightarrow> bool" where
  "less_alert_severity a b \<longleftrightarrow> ladder_index a < ladder_index b"

instance
proof
  fix a b :: alert_severity
  have inj: "ladder_index a = ladder_index b \<Longrightarrow> a = b"
    by (cases a; cases b) simp_all
  show "a = b" if "a \<le> b" "b \<le> a"
    by (rule inj) (use that in \<open>simp add: less_eq_alert_severity_def\<close>)
qed (auto simp: less_eq_alert_severity_def less_alert_severity_def)

end

lemma ladder_index_nth: "tuple_index s LADDER = Some (ladder_index s)"
  by (cases s) (simp_all add: LADDER_def)

lemma severity_at_least_max [simp]: "severity_at_least a b = max a b"
  by (cases a; cases b) (simp_all add: severity_at_least_def max_def less_eq_alert_severity_def)

lemma promote_simps [simp]:
  "promote SV_INFO = SV_LOW" "promote SV_LOW = SV_MEDIUM" "promote SV_MEDIUM = SV_HIGH"
  "promote SV_HIGH = SV_CRITICAL" "promote SV_CRITICAL = SV_CRITICAL"
  by (simp_all add: promote_def LADDER_def)

lemma promote_increases: "s \<le> promote s"
  by (cases s) (simp_all add: less_eq_alert_severity_def)

subsection \<open>Rows\<close>

record alert_row =
  al_id :: uuid
  al_project_id :: uuid
  al_contract_id :: "uuid option"
  al_type :: alert_type
  al_severity :: alert_severity
  al_status :: alert_status
  al_title :: string
  al_message :: string
  al_details :: dict
  al_due_date :: "date option"
  al_dedupe_key :: string
  al_rule_id :: "uuid option"
  al_acknowledged_at :: "instant option"
  al_acknowledged_by :: "uuid option"
  al_resolved_at :: "instant option"
  al_note :: "string option"
  al_created_at :: instant

text \<open>The JSONB columns of a rule may hold a JSON null, here \<open>None\<close>.\<close>

record rule_row =
  ru_id :: uuid
  ru_project_id :: "uuid option"
  ru_name :: "string option"
  ru_type :: alert_type
  ru_is_enabled :: bool
  ru_severity :: alert_severity
  ru_config :: "dict option"
  ru_escalate_after_days :: "int option"
  ru_notify_channels :: "string list option"
  ru_updated_by :: "uuid option"

record alert_db =
  ad_alerts :: "alert_row list"
  ad_rules :: "rule_row list"
  ad_audits :: "audit_row list"
  ad_next_id :: nat

definition al_open :: "alert_row \<Rightarrow> bool" where
  "al_open a \<longleftrightarrow> al_status a = AS_OPEN"

text \<open>\<open>uq_alerts_open_dedupe\<close>, and the two unique indexes of the rules: a null project is not equal to
  itself in the first, so the second one covers the platform defaults.\<close>

definition open_keys_unique :: "alert_row list \<Rightarrow> bool" where
  "open_keys_unique as \<longleftrightarrow> distinct (map al_dedupe_key (filter al_open as))"

definition rule_keys_unique :: "rule_row list \<Rightarrow> bool" where
  "rule_keys_unique rs \<longleftrightarrow> distinct (map (\<lambda>r. (ru_project_id r, ru_type r)) rs)"

text \<open>\<open>db.flush()\<close>: the constraints are checked, the violation is raised.\<close>

definition flush_alerts :: "alert_db \<Rightarrow> exn + alert_db" where
  "flush_alerts d =
     (if \<not> open_keys_unique (ad_alerts d) then Inl (IntegrityError ''uq_alerts_open_dedupe'')
      else if \<not> rule_keys_unique (ad_rules d) then Inl (IntegrityError ''uq_alert_rules_project_type'')
      else Inr d)"

definition audit_alert :: "audit_row \<Rightarrow> alert_db \<Rightarrow> alert_db" where
  "audit_alert entry d = d\<lparr>ad_audits := ad_audits d @ [audit_entry entry]\<rparr>"

subsection \<open>Decisions on an alert\<close>

record alert_update =
  up_status :: alert_status
  up_note :: "string option"

definition decided_row :: "instant \<Rightarrow> uuid \<Rightarrow> alert_update \<Rightarrow> alert_row \<Rightarrow> alert_row" where
  "decided_row now actor p a =
     (let a1 = a\<lparr>al_status := up_status p,
                 al_note := (case up_note p of None \<Rightarrow> al_note a
                             | Some n \<Rightarrow> if n = [] then al_note a else Some n)\<rparr>
      in if up_status p = AS_ACKNOWLEDGED
         then a1\<lparr>al_acknowledged_at := Some now, al_acknowledged_by := Some actor\<rparr>
         else if up_status p \<in> {AS_RESOLVED, AS_DISMISSED} then a1\<lparr>al_resolved_at := Some now\<rparr>
         else a1)"

text \<open>\<open>update_alert\<close>: \<open>exn\<close> where it raises, with the session rolled back by the request.\<close>

definition update_alert :: "instant \<Rightarrow> user_row \<Rightarrow> access_scope \<Rightarrow> uuid \<Rightarrow> alert_update \<Rightarrow> alert_db \<Rightarrow>
    exn + (alert_db \<times> alert_row)" where
  "update_alert now u scope alert_id p d =
     (case List.find (\<lambda>a. al_id a = alert_id) (ad_alerts d) of
        None \<Rightarrow> Inl (NotFoundError ''Alert'' (uuid_str alert_id))
      | Some a \<Rightarrow>
          if \<not> scope_contains scope (al_project_id a)
          then Inl (NotFoundError ''Alert'' (uuid_str alert_id))
          else let a' = decided_row now (u_id u) p a
               in case flush_alerts (d\<lparr>ad_alerts :=
                      update_where (\<lambda>x. al_id x = alert_id) (decided_row now (u_id u) p) (ad_alerts d)\<rparr>) of
                    Inl e \<Rightarrow> Inl e
                  | Inr d1 \<Rightarrow> Inr (audit_alert ((audit_args AA_UPDATE ''alert'' (Some alert_id))
                      \<lparr>au_project_id := Some (al_project_id a), au_user_id := Some (u_id u),
                       au_user_email := Some (u_email u),
                       au_before := Some [(''status'', FJson (JStr (alert_status_value (al_status a))))],
                       au_after := Some [(''status'', FJson (JStr (alert_status_value (up_status p))))]\<rparr>) d1, a'))"

subsection \<open>Rules\<close>

record rule_spec =
  rs_name :: string
  rs_type :: alert_type
  rs_severity :: alert_severity
  rs_is_enabled :: bool
  rs_config :: dict
  rs_escalate_after_days :: "int option"
  rs_notify_channels :: "string list"
  rs_project_id :: "uuid option"

definition json_opt :: "('a \<Rightarrow> json) \<Rightarrow> 'a option \<Rightarrow> json" where
  "json_opt f v = (case v of None \<Rightarrow> JNull | Some x \<Rightarrow> f x)"

definition spec_payload :: "rule_spec \<Rightarrow> payload" where
  "spec_payload p = map (\<lambda>(k, v). (k, FJson v))
     [(''name'', JStr (rs_name p)), (''alert_type'', JStr (alert_type_value (rs_type p))),
      (''severity'', JStr (severity_value (rs_severity p))), (''is_enabled'', JBool (rs_is_enabled p)),
      (''config'', JObj (rs_config p)), (''escalate_after_days'', json_opt JInt (rs_escalate_after_days p)),
      (''notify_channels'', JArr (map JStr (rs_notify_channels p))),
      (''project_id'', json_opt (JStr \<circ> uuid_str) (rs_project_id p))]"

definition create_alert_rule :: "user_row \<Rightarrow> rule_spec \<Rightarrow> alert_db \<Rightarrow> exn + (alert_db \<times> rule_row)" where
  "create_alert_rule u p d =
     (let r = \<lparr>ru_id = ad_next_id d, ru_project_id = rs_project_id p, ru_name = Some (rs_name p),
               ru_type = rs_type p, ru_is_enabled = rs_is_enabled p, ru_severity = rs_severity p,
               ru_config = Some (rs_config p), ru_escalate_after_days = rs_escalate_after_days p,
               ru_notify_channels = Some (rs_notify_channels p), ru_updated_by = Some (u_id u)\<rparr>
      in case flush_alerts (d\<lparr>ad_rules := ad_rules d @ [r], ad_next_id := Suc (ad_next_id d)\<rparr>) of
           Inl e \<Rightarrow> Inl e
         | Inr d1 \<Rightarrow> Inr (audit_alert ((audit_args AA_CREATE ''alert_rule'' (Some (ru_id r)))
             \<lparr>au_entity_label := Some (rs_name p), au_project_id := rs_project_id p,
              au_user_id := Some (u_id u), au_user_email := Some (u_email u),
              au_after := Some (spec_payload p)\<rparr>) d1, r))"

text \<open>\<open>AlertRuleUpdate\<close> with \<open>exclude_unset\<close>: a field that is absent is \<open>None\<close>, an explicit null is
  \<open>Some None\<close>. Severity and the switch are columns without nulls.\<close>

record rule_update =
  ru_set_name :: "string option option"
  ru_set_severity :: "alert_severity option option"
  ru_set_is_enabled :: "bool option option"
  ru_set_config :: "dict option option"
  ru_set_escalate :: "int option option"
  ru_set_channels :: "string list option option"

definition changed_rule :: "uuid \<Rightarrow> rule_update \<Rightarrow> rule_row \<Rightarrow> rule_row" where
  "changed_rule actor p r =
     r\<lparr>ru_name := (case ru_set_name p of None \<Rightarrow> ru_name r | Some v \<Rightarrow> v),
       ru_severity := (case ru_set_severity p of Some (Some v) \<Rightarrow> v | _ \<Rightarrow> ru_severity r),
       ru_is_enabled := (case ru_set_is_enabled p of Some (Some v) \<Rightarrow> v | _ \<Rightarrow> ru_is_enabled r),
       ru_config := (case ru_set_config p of None \<Rightarrow> ru_config r | Some v \<Rightarrow> v),
       ru_escalate_after_days := (case ru_set_escalate p of None \<Rightarrow> ru_escalate_after_days r | Some v \<Rightarrow> v),
       ru_notify_channels := (case ru_set_channels p of None \<Rightarrow> ru_notify_channels r | Some v \<Rightarrow> v),
       ru_updated_by := Some actor\<rparr>"

definition set_field :: "string \<Rightarrow> ('a \<Rightarrow> json) \<Rightarrow> 'a option option \<Rightarrow> payload" where
  "set_field k f v = (case v of None \<Rightarrow> [] | Some w \<Rightarrow> [(k, FJson (json_opt f w))])"

definition update_payload :: "rule_update \<Rightarrow> payload" where
  "update_payload p =
     set_field ''name'' JStr (ru_set_name p) @
     set_field ''severity'' (\<lambda>s. JStr (severity_value s)) (ru_set_severity p) @
     set_field ''is_enabled'' JBool (ru_set_is_enabled p) @ set_field ''config'' JObj (ru_set_config p) @
     set_field ''escalate_after_days'' JInt (ru_set_escalate p) @
     set_field ''notify_channels'' (\<lambda>cs. JArr (map JStr cs)) (ru_set_channels p)"

definition config_or_empty :: "rule_row \<Rightarrow> dict" where
  "config_or_empty r = (case ru_config r of None \<Rightarrow> [] | Some c \<Rightarrow> c)"

definition update_alert_rule :: "user_row \<Rightarrow> uuid \<Rightarrow> rule_update \<Rightarrow> alert_db \<Rightarrow> exn + (alert_db \<times> rule_row)" where
  "update_alert_rule u rule_id p d =
     (case List.find (\<lambda>r. ru_id r = rule_id) (ad_rules d) of
        None \<Rightarrow> Inl (NotFoundError ''Alert rule'' (uuid_str rule_id))
      | Some r \<Rightarrow>
          if ru_set_severity p = Some None \<or> ru_set_is_enabled p = Some None
          then Inl (IntegrityError ''alert_rules not null'')
          else let r' = changed_rule (u_id u) p r;
                   d1 = d\<lparr>ad_rules := update_where (\<lambda>x. ru_id x = rule_id) (changed_rule (u_id u) p) (ad_rules d)\<rparr>
               in Inr (audit_alert ((audit_args AA_CONFIG_CHANGE ''alert_rule'' (Some rule_id))
                    \<lparr>au_entity_label := ru_name r', au_project_id := ru_project_id r',
                     au_user_id := Some (u_id u), au_user_email := Some (u_email u),
                     au_before := Some [(''is_enabled'', FJson (JBool (ru_is_enabled r))),
                       (''config'', FJson (JObj (config_or_empty r)))],
                     au_after := Some (update_payload p)\<rparr>) d1, r'))"

definition delete_alert_rule :: "uuid \<Rightarrow> alert_db \<Rightarrow> exn + alert_db" where
  "delete_alert_rule rule_id d =
     (case List.find (\<lambda>r. ru_id r = rule_id) (ad_rules d) of
        None \<Rightarrow> Inl (NotFoundError ''Alert rule'' (uuid_str rule_id))
      | Some r \<Rightarrow> Inr (d\<lparr>ad_rules := filter (\<lambda>x. ru_id x \<noteq> rule_id) (ad_rules d),
           ad_alerts := update_where (\<lambda>a. al_rule_id a = Some rule_id) (\<lambda>a. a\<lparr>al_rule_id := None\<rparr>) (ad_alerts d)\<rparr>))"

end
