(* ===== verification/AlertEvaluator.thy ===== *)
theory AlertEvaluator
  imports Alerts
begin

text \<open>
  \<^verbatim>\<open>backend/app/services/alert_evaluator.py\<close>: the conditions contracts and obligations are
  evaluated for, and the sweep that reconciles the conditions that hold with the alerts that are
  stored. Rows come in the order of their tables. Numbers in a rule's configuration are integers;
  its strings, nulls and lists are as an administrator typed them.
\<close>

subsection \<open>What the sweep reads\<close>

record estate_contract = contract_row +
  ec_contract_number :: "string option"
  ec_original_file_name :: string

record metadata_row =
  md_contract_id :: uuid
  md_expiration_date :: "date option"
  md_notice_deadline :: "date option"
  md_contract_value :: "string option"
  md_currency :: "string option"
  md_auto_renewal :: "bool option"
  md_auto_renewal_notice_days :: "int option"
  md_renewal_term_months :: "int option"
  md_risk_score :: "int option"
  md_risk_band :: "string option"
  md_risk_factors :: "json list"
  md_has_unlimited_liability :: "bool option"
  md_missing_mandatory_clauses :: "string list"

datatype obligation_status =
    OS_OPEN | OS_IN_PROGRESS | OS_FULFILLED | OS_BREACHED | OS_WAIVED | OS_UNKNOWN

fun obligation_status_value :: "obligation_status \<Rightarrow> string" where
  "obligation_status_value OS_OPEN = ''open''"
| "obligation_status_value OS_IN_PROGRESS = ''in_progress''"
| "obligation_status_value OS_FULFILLED = ''fulfilled''"
| "obligation_status_value OS_BREACHED = ''breached''"
| "obligation_status_value OS_WAIVED = ''waived''"
| "obligation_status_value OS_UNKNOWN = ''unknown''"

record obligation_row =
  ob_id :: uuid
  ob_contract_id :: uuid
  ob_project_id :: uuid
  ob_status :: obligation_status
  ob_due_date :: "date option"
  ob_action :: string
  ob_responsible_party :: "string option"

datatype review_status = RV_NOT_REQUIRED | RV_PENDING | RV_APPROVED | RV_REJECTED | RV_CORRECTED

record clause_review =
  cl_contract_id :: uuid
  cl_project_id :: uuid
  cl_review_status :: review_status

record estate =
  es_contracts :: "estate_contract list"
  es_metadata :: "metadata_row list"
  es_clauses :: "clause_review list"
  es_obligations :: "obligation_row list"

subsection \<open>Rules, drafts and outcomes\<close>

record resolved_rule =
  rr_type :: alert_type
  rr_severity :: alert_severity
  rr_config :: dict
  rr_escalate_after_days :: "int option"
  rr_rule_id :: uuid

text \<open>\<open>_int(config.get(key), default)\<close>, which is also \<open>ResolvedRule.days\<close>.\<close>

definition rule_int :: "resolved_rule \<Rightarrow> string \<Rightarrow> int \<Rightarrow> int" where
  "rule_int rule key dflt = (case dict_get (rr_config rule) key of
       None \<Rightarrow> dflt
     | Some v \<Rightarrow> (case int_of_json v of None \<Rightarrow> dflt | Some i \<Rightarrow> i))"

record alert_draft =
  dr_type :: alert_type
  dr_severity :: alert_severity
  dr_project_id :: uuid
  dr_title :: string
  dr_message :: string
  dr_dedupe_key :: string
  dr_contract_id :: "uuid option"
  dr_due_date :: "date option"
  dr_details :: dict

record evaluation_outcome =
  eo_raised :: nat
  eo_refreshed :: nat
  eo_retired :: nat
  eo_escalated :: nat
  eo_contracts :: nat
  eo_obligations :: nat
  eo_rules :: nat

definition no_outcome :: evaluation_outcome where
  "no_outcome = \<lparr>eo_raised = 0, eo_refreshed = 0, eo_retired = 0, eo_escalated = 0,
     eo_contracts = 0, eo_obligations = 0, eo_rules = 0\<rparr>"

definition outcome_changed :: "evaluation_outcome \<Rightarrow> bool" where
  "outcome_changed o' \<longleftrightarrow> eo_raised o' \<noteq> 0 \<or> eo_refreshed o' \<noteq> 0 \<or> eo_retired o' \<noteq> 0 \<or> eo_escalated o' \<noteq> 0"

definition opt_str :: "string option \<Rightarrow> json" where
  "opt_str v = json_opt JStr v"

definition truthy_text :: "string option \<Rightarrow> bool" where
  "truthy_text v = (case v of None \<Rightarrow> False | Some s \<Rightarrow> s \<noteq> [])"

definition contract_label :: "estate_contract \<Rightarrow> string" where
  "contract_label c =
     (if truthy_text (c_title c) then the (c_title c)
      else if truthy_text (ec_contract_number c) then the (ec_contract_number c)
      else if ec_original_file_name c \<noteq> [] then ec_original_file_name c
      else ''Contract '' @ uuid_str (c_id c))"

subsection \<open>The evaluators\<close>

definition evaluate_expiring :: "estate_contract \<Rightarrow> metadata_row \<Rightarrow> resolved_rule \<Rightarrow> date \<Rightarrow> exn + alert_draft option" where
  "evaluate_expiring c md rule today =
     (case md_expiration_date md of
        None \<Rightarrow> Inr None
      | Some expiry \<Rightarrow>
          let window = rule_int rule ''window_days'' 90; remaining = expiry - today in
          if remaining < 0 \<or> remaining > window then Inr None
          else
            let severity =
                  (if remaining \<le> rule_int rule ''critical_days'' 7
                   then severity_at_least (rr_severity rule) SV_CRITICAL
                   else if remaining \<le> rule_int rule ''escalate_days'' 30
                   then severity_at_least (rr_severity rule) SV_HIGH
                   else rr_severity rule)
            in Inr (Some \<lparr>dr_type = AT_CONTRACT_EXPIRING, dr_severity = severity,
                 dr_project_id = c_project_id c,
                 dr_title = (if remaining \<noteq> 0
                   then contract_label c @ '' expires in '' @ str_int remaining @ '' days''
                   else contract_label c @ '' expires today''),
                 dr_message = ''The term ends on '' @ iso_date expiry @
                   ''. Decide whether to renew, renegotiate or let it lapse before then.'',
                 dr_dedupe_key = ''expiring:'' @ uuid_str (c_id c) @ '':'' @ iso_date expiry,
                 dr_contract_id = Some (c_id c), dr_due_date = Some expiry,
                 dr_details = [(''days_remaining'', JInt remaining),
                   (''expiration_date'', JStr (iso_date expiry)), (''window_days'', JInt window),
                   (''contract_value'', opt_str (md_contract_value md)),
                   (''currency'', opt_str (md_currency md))]\<rparr>))"

text \<open>The deadline of an auto-renewing contract: the one that was extracted, or the expiry less the
  notice period, and whether it was derived.\<close>

definition renewal_deadline :: "metadata_row \<Rightarrow> int \<Rightarrow> exn + (date \<times> bool) option" where
  "renewal_deadline md lead =
     (case md_notice_deadline md of
        Some deadline \<Rightarrow> Inr (Some (deadline, False))
      | None \<Rightarrow>
          (case md_expiration_date md of
             None \<Rightarrow> Inr None
           | Some expiry \<Rightarrow>
               (case date_plus expiry (- (case md_auto_renewal_notice_days md of None \<Rightarrow> lead | Some n \<Rightarrow> n)) of
                  Inl e \<Rightarrow> Inl e
                | Inr deadline \<Rightarrow> Inr (Some (deadline, True)))))"

definition evaluate_auto_renewal :: "estate_contract \<Rightarrow> metadata_row \<Rightarrow> resolved_rule \<Rightarrow> date \<Rightarrow> exn + alert_draft option" where
  "evaluate_auto_renewal c md rule today =
     (if md_auto_renewal md \<noteq> Some True then Inr None
      else let lead = rule_int rule ''lead_days'' 45 in
        case renewal_deadline md lead of
          Inl e \<Rightarrow> Inl e
        | Inr None \<Rightarrow> Inr None
        | Inr (Some (deadline, derived)) \<Rightarrow>
            let remaining = deadline - today in
            if remaining < 0 \<or> remaining > lead then Inr None
            else
              let severity = (if remaining \<le> rule_int rule ''critical_days'' 14
                              then severity_at_least (rr_severity rule) SV_CRITICAL else rr_severity rule)
              in Inr (Some \<lparr>dr_type = AT_AUTO_RENEWAL_NOTICE, dr_severity = severity,
                   dr_project_id = c_project_id c,
                   dr_title = contract_label c @ '' auto-renews unless notice is given by '' @ iso_date deadline,
                   dr_message = ''This contract renews automatically. Notice must be served within '' @
                     str_int remaining @ '' days ('' @ iso_date deadline @ '') to stop it.'' @
                     (if derived then '' That date is calculated from the expiry date and the notice period, because no explicit notice deadline was extracted.'' else []),
                   dr_dedupe_key = ''renewal:'' @ uuid_str (c_id c) @ '':'' @ iso_date deadline,
                   dr_contract_id = Some (c_id c), dr_due_date = Some deadline,
                   dr_details = [(''days_remaining'', JInt remaining),
                     (''notice_deadline'', JStr (iso_date deadline)), (''derived_deadline'', JBool derived),
                     (''renewal_term_months'', json_opt JInt (md_renewal_term_months md))]\<rparr>))"

text \<open>The names of the risk factors: \<open>entry.get("name") or entry.get("type") or entry\<close>.\<close>

definition factor_name :: "dict \<Rightarrow> string" where
  "factor_name entry =
     (if truthy_opt (dict_get entry ''name'') then py_str (the (dict_get entry ''name''))
      else if truthy_opt (dict_get entry ''type'') then py_str (the (dict_get entry ''type''))
      else py_str (JObj entry))"

definition json_objects :: "json list \<Rightarrow> dict list" where
  "json_objects js = concat (map (\<lambda>j. case j of JObj d \<Rightarrow> [d] | _ \<Rightarrow> []) js)"

definition evaluate_high_risk :: "estate_contract \<Rightarrow> metadata_row \<Rightarrow> resolved_rule \<Rightarrow> date \<Rightarrow> exn + alert_draft option" where
  "evaluate_high_risk c md rule today =
     (case md_risk_score md of
        None \<Rightarrow> Inr None
      | Some score \<Rightarrow>
          let cutoff = rule_int rule ''risk_score_cutoff'' 67 in
          if score < cutoff then Inr None
          else
            let severity = (if score \<ge> rule_int rule ''critical_score'' 85
                            then severity_at_least (rr_severity rule) SV_CRITICAL else rr_severity rule)
            in Inr (Some \<lparr>dr_type = AT_HIGH_RISK, dr_severity = severity, dr_project_id = c_project_id c,
                 dr_title = contract_label c @ '' scored '' @ str_int score @ '' for risk'',
                 dr_message = ''The overall risk score is '' @ str_int score @ '', at or above the '' @
                   str_int cutoff @ '' threshold for this project. '' @
                   str_int (int (length (md_risk_factors md))) @ '' risk factors were identified.'',
                 dr_dedupe_key = ''high_risk:'' @ uuid_str (c_id c),
                 dr_contract_id = Some (c_id c), dr_due_date = None,
                 dr_details = [(''risk_score'', JInt score), (''cutoff'', JInt cutoff),
                   (''risk_band'', opt_str (md_risk_band md)),
                   (''has_unlimited_liability'', json_opt JBool (md_has_unlimited_liability md)),
                   (''risk_factors'', JArr (map (JStr \<circ> factor_name) (take 10 (json_objects (md_risk_factors md)))))]\<rparr>))"

text \<open>Iterating over a configured value: a list, the characters of a string, the keys of an object,
  and a \<open>TypeError\<close> otherwise.\<close>

definition iterate :: "json \<Rightarrow> exn + json list" where
  "iterate j = (case j of
       JArr xs \<Rightarrow> Inr xs
     | JStr s \<Rightarrow> Inr (map (\<lambda>ch. JStr [ch]) s)
     | JObj d \<Rightarrow> Inr (map (JStr \<circ> fst) d)
     | _ \<Rightarrow> Inl (PyErr ''TypeError'' ''object is not iterable''))"

definition watched_types :: "resolved_rule \<Rightarrow> exn + string list" where
  "watched_types rule = (case dict_get (rr_config rule) ''clause_types'' of
       None \<Rightarrow> Inr []
     | Some j \<Rightarrow> if truthy j then map_sum id (map py_str) (iterate j) else Inr [])"

definition underscores_to_spaces :: "string \<Rightarrow> string" where
  "underscores_to_spaces s = map (\<lambda>ch. if ch = CHR ''_'' then CHR '' '' else ch) s"

definition evaluate_missing_clause :: "estate_contract \<Rightarrow> metadata_row \<Rightarrow> resolved_rule \<Rightarrow> date \<Rightarrow> exn + alert_draft option" where
  "evaluate_missing_clause c md rule today =
     (case watched_types rule of
        Inl e \<Rightarrow> Inl e
      | Inr watched \<Rightarrow>
          let missing = (if watched = [] then md_missing_mandatory_clauses md
                else filter (\<lambda>m. lower m \<in> set (map lower watched)) (md_missing_mandatory_clauses md)) in
          if int (length missing) < max 1 (rule_int rule ''min_missing'' 1) then Inr None
          else Inr (Some \<lparr>dr_type = AT_MISSING_MANDATORY_CLAUSE, dr_severity = rr_severity rule,
                 dr_project_id = c_project_id c,
                 dr_title = contract_label c @ '' is missing '' @ str_int (int (length missing)) @
                   '' mandatory clauses'',
                 dr_message = ''These clause types are required by the document profile but were not found: '' @
                   join '', '' (map underscores_to_spaces (sort missing)) @ ''.'',
                 dr_dedupe_key = ''missing_clause:'' @ uuid_str (c_id c),
                 dr_contract_id = Some (c_id c), dr_due_date = None,
                 dr_details = [(''missing_clauses'', JArr (map JStr (sort missing))),
                   (''missing_count'', JInt (int (length missing)))]\<rparr>))"

definition evaluate_review_required :: "estate_contract \<Rightarrow> resolved_rule \<Rightarrow> nat \<Rightarrow> alert_draft option" where
  "evaluate_review_required c rule pending =
     (let flagged = c_needs_review c \<or> c_status c = CS_NEEDS_REVIEW;
          minimum = max 1 (rule_int rule ''min_items'' 1)
      in if \<not> flagged \<and> int pending < minimum then None
         else Some \<lparr>dr_type = AT_REVIEW_REQUIRED, dr_severity = rr_severity rule,
                dr_project_id = c_project_id c, dr_title = contract_label c @ '' needs review'',
                dr_message = ''This contract was flagged for human review: '' @
                  (if pending \<noteq> 0 then str_int (int pending) @ '' clauses are waiting on a reviewer''
                   else ''extraction confidence fell below the profile'' @ [CHR 0x27] @ ''s threshold'') @ ''.'',
                dr_dedupe_key = ''review_required:'' @ uuid_str (c_id c),
                dr_contract_id = Some (c_id c), dr_due_date = None,
                dr_details = [(''pending_clauses'', JInt (int pending)), (''contract_flagged'', JBool flagged)]\<rparr>)"

definition shorten :: "string \<Rightarrow> string" where
  "shorten s = (if length s \<le> 90 then s else take 87 s @ ''...'')"

definition evaluate_obligation :: "obligation_row \<Rightarrow> estate_contract \<Rightarrow> resolved_rule \<Rightarrow> date \<Rightarrow> alert_draft option" where
  "evaluate_obligation ob c rule today =
     (if ob_status ob \<notin> {OS_OPEN, OS_IN_PROGRESS} then None
      else case ob_due_date ob of
        None \<Rightarrow> None
      | Some due \<Rightarrow>
          let window = rule_int rule ''window_days'' 14; overdue_window = rule_int rule ''overdue_days'' 30;
              remaining = due - today in
          if remaining > window \<or> remaining < - overdue_window then None
          else
            let severity = (if remaining < 0 then severity_at_least (rr_severity rule) SV_HIGH
                            else rr_severity rule);
                action = (if ob_action ob = [] then ''An obligation'' else ob_action ob)
            in Some \<lparr>dr_type = AT_OBLIGATION_DUE, dr_severity = severity, dr_project_id = ob_project_id ob,
                 dr_title = (if remaining < 0
                   then ''Obligation '' @ str_int \<bar>remaining\<bar> @ '' days overdue: '' @ shorten action
                   else ''Obligation due in '' @ str_int remaining @ '' days: '' @ shorten action),
                 dr_message = action @ [CHR 0x0A, CHR 0x0A] @ ''Due '' @ iso_date due @
                   (if truthy_text (ob_responsible_party ob)
                    then '', owed by '' @ the (ob_responsible_party ob) else []) @
                   ''. Contract: '' @ contract_label c @ ''.'',
                 dr_dedupe_key = ''obligation:'' @ uuid_str (ob_id ob) @ '':'' @ iso_date due,
                 dr_contract_id = Some (ob_contract_id ob), dr_due_date = Some due,
                 dr_details = [(''days_remaining'', JInt remaining), (''overdue'', JBool (remaining < 0)),
                   (''responsible_party'', opt_str (ob_responsible_party ob)),
                   (''obligation_id'', JStr (uuid_str (ob_id ob))),
                   (''obligation_status'', JStr (obligation_status_value (ob_status ob)))]\<rparr>)"

definition EVALUATORS ::
    "(alert_type \<times> (estate_contract \<Rightarrow> metadata_row \<Rightarrow> resolved_rule \<Rightarrow> date \<Rightarrow> exn + alert_draft option)) list" where
  "EVALUATORS = [(AT_CONTRACT_EXPIRING, evaluate_expiring), (AT_AUTO_RENEWAL_NOTICE, evaluate_auto_renewal),
     (AT_HIGH_RISK, evaluate_high_risk), (AT_MISSING_MANDATORY_CLAUSE, evaluate_missing_clause)]"

definition EVALUATED_TYPES :: "alert_type list" where
  "EVALUATED_TYPES = map fst EVALUATORS @ [AT_REVIEW_REQUIRED, AT_OBLIGATION_DUE]"

subsection \<open>Rules in force\<close>

type_synonym rule_map = "((uuid option \<times> alert_type) \<times> resolved_rule) list"

definition resolve_rule :: "rule_row \<Rightarrow> resolved_rule" where
  "resolve_rule r = \<lparr>rr_type = ru_type r, rr_severity = ru_severity r, rr_config = config_or_empty r,
     rr_escalate_after_days = ru_escalate_after_days r, rr_rule_id = ru_id r\<rparr>"

definition load_rules :: "rule_row list \<Rightarrow> rule_map" where
  "load_rules rows = fold (\<lambda>r m. if ru_type r \<in> set EVALUATED_TYPES
      then AList.update (ru_project_id r, ru_type r) (resolve_rule r) m else m)
     (filter ru_is_enabled rows) []"

definition rule_for :: "rule_map \<Rightarrow> uuid \<Rightarrow> alert_type \<Rightarrow> resolved_rule option" where
  "rule_for rules pid ty = (case map_of rules (Some pid, ty) of
       Some r \<Rightarrow> Some r | None \<Rightarrow> map_of rules (None, ty))"

subsection \<open>Collecting the conditions that hold\<close>

text \<open>Running an evaluation over rows: the drafts in order, or the first exception.\<close>

fun collect_drafts :: "('r \<Rightarrow> exn + 'd list) \<Rightarrow> 'r list \<Rightarrow> exn + 'd list" where
  "collect_drafts f [] = Inr []"
| "collect_drafts f (r # rs) =
     (case f r of
        Inl e \<Rightarrow> Inl e
      | Inr ds \<Rightarrow> (case collect_drafts f rs of Inl e \<Rightarrow> Inl e | Inr es \<Rightarrow> Inr (ds @ es)))"

definition draft_list :: "alert_draft option \<Rightarrow> alert_draft list" where
  "draft_list d = (case d of None \<Rightarrow> [] | Some x \<Rightarrow> [x])"

definition in_scope :: "uuid option \<Rightarrow> uuid \<Rightarrow> bool" where
  "in_scope scope pid = (case scope of None \<Rightarrow> True | Some p \<Rightarrow> pid = p)"

definition examined_contracts :: "uuid option \<Rightarrow> estate \<Rightarrow> estate_contract list" where
  "examined_contracts scope es =
     filter (\<lambda>c. c_deleted_at c = None \<and> c_status c \<notin> {CS_ARCHIVED, CS_FAILED} \<and> in_scope scope (c_project_id c))
       (es_contracts es)"

definition pending_clause_count :: "uuid option \<Rightarrow> estate \<Rightarrow> uuid \<Rightarrow> nat" where
  "pending_clause_count scope es cid =
     length (filter (\<lambda>cl. cl_review_status cl = RV_PENDING \<and> in_scope scope (cl_project_id cl) \<and> cl_contract_id cl = cid)
       (es_clauses es))"

definition metadata_of :: "estate \<Rightarrow> uuid \<Rightarrow> metadata_row option" where
  "metadata_of es cid = List.find (\<lambda>md. md_contract_id md = cid) (es_metadata es)"

definition contract_drafts :: "rule_map \<Rightarrow> uuid option \<Rightarrow> date \<Rightarrow> estate \<Rightarrow> estate_contract \<Rightarrow> exn + alert_draft list" where
  "contract_drafts rules scope today es c =
     (case collect_drafts (\<lambda>(ty, evaluate).
         case (rule_for rules (c_project_id c) ty, metadata_of es (c_id c)) of
           (Some rule, Some md) \<Rightarrow> map_sum id draft_list (evaluate c md rule today)
         | _ \<Rightarrow> Inr []) EVALUATORS of
        Inl e \<Rightarrow> Inl e
      | Inr ds \<Rightarrow> Inr (ds @ (case rule_for rules (c_project_id c) AT_REVIEW_REQUIRED of
            None \<Rightarrow> []
          | Some rule \<Rightarrow> draft_list (evaluate_review_required c rule (pending_clause_count scope es (c_id c))))))"

definition obligation_rules :: "rule_map \<Rightarrow> resolved_rule list" where
  "obligation_rules rules = map snd (filter (\<lambda>((pid, ty), r). ty = AT_OBLIGATION_DUE) rules)"

definition max_over :: "int list \<Rightarrow> int" where
  "max_over xs = fold max (tl xs) (hd xs)"

text \<open>The inner join with a contract that is not deleted.\<close>

definition contract_of :: "estate \<Rightarrow> uuid \<Rightarrow> estate_contract option" where
  "contract_of es cid = List.find (\<lambda>c. c_id c = cid \<and> c_deleted_at c = None) (es_contracts es)"

definition obligation_in_window :: "date \<Rightarrow> date \<Rightarrow> uuid option \<Rightarrow> estate \<Rightarrow> obligation_row \<Rightarrow> bool" where
  "obligation_in_window earliest latest scope es ob \<longleftrightarrow>
     contract_of es (ob_contract_id ob) \<noteq> None \<and>
     (case ob_due_date ob of None \<Rightarrow> False | Some due \<Rightarrow> due \<le> latest \<and> due \<ge> earliest) \<and>
     ob_status ob \<in> {OS_OPEN, OS_IN_PROGRESS} \<and> in_scope scope (ob_project_id ob)"

definition obligation_draft :: "rule_map \<Rightarrow> date \<Rightarrow> estate \<Rightarrow> obligation_row \<Rightarrow> alert_draft list" where
  "obligation_draft rules today es ob =
     (case (rule_for rules (ob_project_id ob) AT_OBLIGATION_DUE, contract_of es (ob_contract_id ob)) of
        (Some rule, Some c) \<Rightarrow> draft_list (evaluate_obligation ob c rule today)
      | _ \<Rightarrow> [])"

text \<open>The drafts, and how many obligations were examined.\<close>

definition collect_obligations :: "rule_map \<Rightarrow> uuid option \<Rightarrow> date \<Rightarrow> estate \<Rightarrow> exn + alert_draft list \<times> nat" where
  "collect_obligations rules scope today es =
     (if obligation_rules rules = [] then Inr ([], 0)
      else
        let window = max_over (map (\<lambda>r. rule_int r ''window_days'' 14) (obligation_rules rules));
            overdue = max_over (map (\<lambda>r. rule_int r ''overdue_days'' 30) (obligation_rules rules)) in
        case date_plus today window of
          Inl e \<Rightarrow> Inl e
        | Inr latest \<Rightarrow>
            (case date_plus today (- overdue) of
               Inl e \<Rightarrow> Inl e
             | Inr earliest \<Rightarrow>
                 let rows = filter (obligation_in_window earliest latest scope es) (es_obligations es)
                 in Inr (concat (map (obligation_draft rules today es) rows), length rows)))"

definition collect :: "rule_map \<Rightarrow> uuid option \<Rightarrow> date \<Rightarrow> estate \<Rightarrow> exn + alert_draft list \<times> evaluation_outcome" where
  "collect rules scope today es =
     (case collect_drafts (contract_drafts rules scope today es) (examined_contracts scope es) of
        Inl e \<Rightarrow> Inl e
      | Inr ds \<Rightarrow>
          (case collect_obligations rules scope today es of
             Inl e \<Rightarrow> Inl e
           | Inr (obs, n) \<Rightarrow> Inr (ds @ obs, no_outcome\<lparr>eo_rules := length rules,
               eo_contracts := length (examined_contracts scope es), eo_obligations := n\<rparr>)))"

subsection \<open>Reconciling with the stored alerts\<close>

definition al_live :: "alert_row \<Rightarrow> bool" where
  "al_live a \<longleftrightarrow> al_status a \<in> {AS_OPEN, AS_ACKNOWLEDGED}"

definition load_live_alerts :: "uuid option \<Rightarrow> alert_db \<Rightarrow> alert_row list" where
  "load_live_alerts scope d =
     filter (\<lambda>a. al_live a \<and> al_type a \<in> set EVALUATED_TYPES \<and> in_scope scope (al_project_id a)) (ad_alerts d)"

definition escalated :: "alert_row \<Rightarrow> bool" where
  "escalated a \<longleftrightarrow> truthy_opt (dict_get (al_details a) ''escalated_at'')"

definition refreshed_severity :: "alert_draft \<Rightarrow> alert_row \<Rightarrow> alert_severity" where
  "refreshed_severity dr a = (if escalated a then promote (dr_severity dr) else dr_severity dr)"

definition refresh_changes :: "alert_draft \<Rightarrow> alert_row \<Rightarrow> bool" where
  "refresh_changes dr a \<longleftrightarrow> al_severity a \<noteq> refreshed_severity dr a \<or> al_title a \<noteq> take 255 (dr_title dr)
     \<or> al_message a \<noteq> dr_message dr \<or> al_due_date a \<noteq> dr_due_date dr"

definition refreshed_row :: "instant \<Rightarrow> alert_draft \<Rightarrow> alert_row \<Rightarrow> alert_row" where
  "refreshed_row now dr a =
     a\<lparr>al_severity := refreshed_severity dr a, al_title := take 255 (dr_title dr),
       al_message := dr_message dr, al_due_date := dr_due_date dr,
       al_details := dict_update (dict_update (al_details a) (dr_details dr))
         [(''last_evaluated_at'', JStr (iso_instant now))]\<rparr>"

definition to_row :: "instant \<Rightarrow> uuid \<Rightarrow> alert_draft \<Rightarrow> rule_map \<Rightarrow> alert_row" where
  "to_row now new_id dr rules =
     \<lparr>al_id = new_id, al_project_id = dr_project_id dr, al_contract_id = dr_contract_id dr,
      al_type = dr_type dr, al_severity = dr_severity dr, al_status = AS_OPEN,
      al_title = take 255 (dr_title dr), al_message = dr_message dr,
      al_details = dict_update (dr_details dr) [(''source'', JStr ''evaluator''), (''first_seen_at'', JStr (iso_instant now))],
      al_due_date = dr_due_date dr, al_dedupe_key = take 255 (dr_dedupe_key dr),
      al_rule_id = map_option rr_rule_id (rule_for rules (dr_project_id dr) (dr_type dr)),
      al_acknowledged_at = None, al_acknowledged_by = None, al_resolved_at = None, al_note = None,
      al_created_at = now\<rparr>"

text \<open>\<open>by_key\<close>: the id of the live alert with a key; the last one wins.\<close>

definition id_by_key :: "alert_row list \<Rightarrow> string \<Rightarrow> uuid option" where
  "id_by_key existing k = map_of (rev (map (\<lambda>a. (al_dedupe_key a, al_id a)) existing)) k"

text \<open>The state of the loop over the drafts: the tables and the two counters.\<close>

definition apply_draft :: "instant \<Rightarrow> rule_map \<Rightarrow> (string \<Rightarrow> uuid option) \<Rightarrow> alert_draft \<Rightarrow>
    alert_db \<times> nat \<times> nat \<Rightarrow> alert_db \<times> nat \<times> nat" where
  "apply_draft now rules by_key dr = (\<lambda>(d, raised, refreshed).
     case by_key (dr_dedupe_key dr) of
       None \<Rightarrow> (d\<lparr>ad_alerts := ad_alerts d @ [to_row now (ad_next_id d) dr rules],
                 ad_next_id := Suc (ad_next_id d)\<rparr>, raised + 1, refreshed)
     | Some i \<Rightarrow> (d\<lparr>ad_alerts := update_where (\<lambda>a. al_id a = i) (refreshed_row now dr) (ad_alerts d)\<rparr>, raised,
         if (case List.find (\<lambda>a. al_id a = i) (ad_alerts d) of None \<Rightarrow> False | Some a \<Rightarrow> refresh_changes dr a)
         then refreshed + 1 else refreshed))"

definition retire_due :: "rule_map \<Rightarrow> string list \<Rightarrow> uuid list \<Rightarrow> alert_row \<Rightarrow> bool" where
  "retire_due rules seen ids a \<longleftrightarrow> al_id a \<in> set ids \<and> al_dedupe_key a \<notin> set seen
     \<and> rule_for rules (al_project_id a) (al_type a) \<noteq> None"

definition retired_row :: "instant \<Rightarrow> alert_row \<Rightarrow> alert_row" where
  "retired_row now a = a\<lparr>al_status := AS_RESOLVED, al_resolved_at := Some now,
     al_details := dict_update (al_details a) [(''resolved_by'', JStr ''evaluator''),
       (''resolved_reason'', JStr ''The condition that raised this alert no longer holds.'')]\<rparr>"

definition MICROS_PER_DAY :: int where
  "MICROS_PER_DAY = 86400000000"

definition escalate_due :: "instant \<Rightarrow> rule_map \<Rightarrow> string list \<Rightarrow> uuid list \<Rightarrow> alert_row \<Rightarrow> bool" where
  "escalate_due now rules seen ids a \<longleftrightarrow> al_id a \<in> set ids \<and> al_dedupe_key a \<in> set seen \<and> al_status a = AS_OPEN
     \<and> (case rule_for rules (al_project_id a) (al_type a) of
          None \<Rightarrow> False
        | Some rule \<Rightarrow> (case rr_escalate_after_days rule of
              None \<Rightarrow> False
            | Some age \<Rightarrow> age \<noteq> 0 \<and> (now - al_created_at a) div MICROS_PER_DAY \<ge> age))
     \<and> \<not> escalated a"

definition escalated_row :: "instant \<Rightarrow> alert_row \<Rightarrow> alert_row" where
  "escalated_row now a = a\<lparr>al_severity := promote (al_severity a),
     al_details := AList.update ''escalated_at'' (JStr (iso_instant now)) (al_details a)\<rparr>"

text \<open>Rows that are retired are not among the seen ones, so the two passes act on different rows.\<close>

definition reconcile :: "instant \<Rightarrow> rule_map \<Rightarrow> uuid option \<Rightarrow> alert_draft list \<Rightarrow> evaluation_outcome \<Rightarrow> alert_db \<Rightarrow>
    exn + alert_db \<times> evaluation_outcome" where
  "reconcile now rules scope drafts out d =
     (let existing = load_live_alerts scope d; ids = map al_id existing;
          seen = map dr_dedupe_key drafts in
      case fold (apply_draft now rules (id_by_key existing)) drafts (d, 0, 0) of
        (d1, raised, refreshed) \<Rightarrow>
          let retire = retire_due rules seen ids;
              after_retire = update_where retire (retired_row now) (ad_alerts d1);
              escalate = escalate_due now rules seen ids
          in map_sum id (\<lambda>d2. (d2, out\<lparr>eo_raised := raised, eo_refreshed := refreshed,
                 eo_retired := length (filter retire (ad_alerts d1)),
                 eo_escalated := length (filter escalate after_retire)\<rparr>))
               (flush_alerts (d1\<lparr>ad_alerts := update_where escalate (escalated_row now) after_retire\<rparr>)))"

definition run_evaluator :: "instant \<Rightarrow> date \<Rightarrow> uuid option \<Rightarrow> estate \<Rightarrow> alert_db \<Rightarrow>
    exn + alert_db \<times> evaluation_outcome" where
  "run_evaluator now today scope es d =
     (let rules = load_rules (ad_rules d) in
      if rules = [] then Inr (d, no_outcome)
      else case collect rules scope today es of
        Inl e \<Rightarrow> Inl e
      | Inr (drafts, out) \<Rightarrow> reconcile now rules scope drafts out d)"

end
