(* ===== verification/AlertLaws.thy ===== *)
theory AlertLaws
  imports AlertEvaluator
begin

text \<open>
  Laws of the alert sweep: what an update of an alert row keeps, what the pass over the drafts does to
  the tables, and the properties of a whole sweep.
\<close>

subsection \<open>Updates of one alert\<close>

text \<open>
  The interface of the row updates: the sweep's three updates and an operator's decision change what
  an alert says and where it stands, never which condition of which project it is about.
\<close>

definition alert_identity :: "alert_row \<Rightarrow> uuid \<times> uuid \<times> uuid option \<times> alert_type \<times> string \<times> uuid option \<times> instant" where
  "alert_identity a = (al_id a, al_project_id a, al_contract_id a, al_type a, al_dedupe_key a,
     al_rule_id a, al_created_at a)"

locale alert_change =
  fixes change :: "alert_row \<Rightarrow> alert_row"
  assumes keeps: "alert_identity (change a) = alert_identity a"
begin

lemma keeps_fields [simp]:
  "al_id (change a) = al_id a" "al_project_id (change a) = al_project_id a"
  "al_type (change a) = al_type a" "al_dedupe_key (change a) = al_dedupe_key a"
  "al_created_at (change a) = al_created_at a"
  using keeps[of a] by (simp_all add: alert_identity_def)

lemma identities_kept: "map alert_identity (update_where P change rs) = map alert_identity rs"
  by (simp add: update_where_def keeps)

lemma ids_kept: "map al_id (update_where P change rs) = map al_id rs"
  by (rule map_update_where) simp

lemma find_changed:
  "List.find (\<lambda>a. al_id a = i) (update_where P change rs) =
    map_option (\<lambda>a. if P a then change a else a) (List.find (\<lambda>a. al_id a = i) rs)"
  by (rule find_update_any) simp

end

interpretation refresh: alert_change "refreshed_row now dr" for now dr
  by unfold_locales (simp add: refreshed_row_def alert_identity_def)

interpretation retirement: alert_change "retired_row now" for now
  by unfold_locales (simp add: retired_row_def alert_identity_def)

interpretation escalation: alert_change "escalated_row now" for now
  by unfold_locales (simp add: escalated_row_def alert_identity_def)

interpretation decision: alert_change "decided_row now actor p" for now actor p
  by unfold_locales (simp add: decided_row_def Let_def alert_identity_def)

text \<open>What an operator decided on an alert, which no pass of the sweep but retirement touches.\<close>

definition operator_part :: "alert_row \<Rightarrow> alert_status \<times> instant option \<times> uuid option \<times> instant option \<times> string option" where
  "operator_part a = (al_status a, al_acknowledged_at a, al_acknowledged_by a, al_resolved_at a, al_note a)"

lemma operator_part_kept [simp]:
  "operator_part (refreshed_row now dr a) = operator_part a"
  "operator_part (escalated_row now a) = operator_part a"
  by (simp_all add: operator_part_def refreshed_row_def escalated_row_def)

lemma status_kept [simp]:
  "al_status (refreshed_row now dr a) = al_status a"
  "al_status (escalated_row now a) = al_status a"
  "al_status (retired_row now a) = AS_RESOLVED"
  by (simp_all add: refreshed_row_def escalated_row_def retired_row_def)

subsection \<open>The pass over the drafts\<close>

definition refresh_by :: "instant \<Rightarrow> (string \<Rightarrow> uuid option) \<Rightarrow> alert_draft list \<Rightarrow> alert_row \<Rightarrow> alert_row" where
  "refresh_by now by_key drafts a =
     fold (\<lambda>dr a. if by_key (dr_dedupe_key dr) = Some (al_id a) then refreshed_row now dr a else a) drafts a"

definition new_drafts :: "(string \<Rightarrow> uuid option) \<Rightarrow> alert_draft list \<Rightarrow> alert_draft list" where
  "new_drafts by_key drafts = filter (\<lambda>dr. by_key (dr_dedupe_key dr) = None) drafts"

fun new_rows :: "instant \<Rightarrow> rule_map \<Rightarrow> uuid \<Rightarrow> alert_draft list \<Rightarrow> alert_row list" where
  "new_rows now rules n [] = []"
| "new_rows now rules n (dr # drs) = to_row now n dr rules # new_rows now rules (Suc n) drs"

lemma refresh_by_simps [simp]:
  "refresh_by now by_key [] a = a"
  "refresh_by now by_key (dr # drs) a = refresh_by now by_key drs
     (if by_key (dr_dedupe_key dr) = Some (al_id a) then refreshed_row now dr a else a)"
  by (simp_all add: refresh_by_def)

interpretation refresh_all: alert_change "refresh_by now by_key drafts" for now by_key drafts
proof
  show "alert_identity (refresh_by now by_key drafts a) = alert_identity a" for a
    by (induction drafts arbitrary: a) (simp_all add: refresh.keeps)
qed

lemma operator_part_refresh_by [simp]: "operator_part (refresh_by now by_key drafts a) = operator_part a"
  by (induction drafts arbitrary: a) simp_all

lemma status_refresh_by [simp]: "al_status (refresh_by now by_key drafts a) = al_status a"
  by (induction drafts arbitrary: a) simp_all

lemma refresh_by_untouched:
  "(\<And>dr. dr \<in> set drafts \<Longrightarrow> by_key (dr_dedupe_key dr) \<noteq> Some (al_id a)) \<Longrightarrow> refresh_by now by_key drafts a = a"
  by (induction drafts arbitrary: a) simp_all

lemma new_rows_facts:
  "length (new_rows now rules n drs) = length drs"
  "map al_dedupe_key (new_rows now rules n drs) = map (take 255 \<circ> dr_dedupe_key) drs"
  "map al_id (new_rows now rules n drs) = [n ..< n + length drs]"
  "a \<in> set (new_rows now rules n drs) \<Longrightarrow> \<exists>dr \<in> set drs. \<exists>i \<ge> n. a = to_row now i dr rules"
proof (induction drs arbitrary: n)
  case (Cons dr drs)
  {
    case 3
    have "[n ..< n + length (dr # drs)] = n # [Suc n ..< Suc n + length drs]"
      using upt_conv_Cons[of n "n + length (dr # drs)"] by simp
    then show ?case using Cons(3)[of "Suc n"] by (simp add: to_row_def)
  next
    case 4
    then consider "a = to_row now n dr rules" | "a \<in> set (new_rows now rules (Suc n) drs)" by auto
    then show ?case
    proof cases
      case 2
      from Cons(4)[OF this] obtain e i where "e \<in> set drs" "i \<ge> Suc n" "a = to_row now i e rules" by blast
      then show ?thesis by (intro bexI[of _ e] exI[of _ i]) auto
    qed auto
  }
qed (simp_all add: to_row_def)

lemma apply_draft_new:
  "by_key (dr_dedupe_key dr) = None \<Longrightarrow> apply_draft now rules by_key dr (d, r, f) =
    (d\<lparr>ad_alerts := ad_alerts d @ [to_row now (ad_next_id d) dr rules], ad_next_id := Suc (ad_next_id d)\<rparr>,
     r + 1, f)"
  by (simp add: apply_draft_def)

lemma apply_draft_known:
  "by_key (dr_dedupe_key dr) = Some i \<Longrightarrow> apply_draft now rules by_key dr (d, r, f) =
    (d\<lparr>ad_alerts := update_where (\<lambda>a. al_id a = i) (refreshed_row now dr) (ad_alerts d)\<rparr>, r,
     if (case List.find (\<lambda>a. al_id a = i) (ad_alerts d) of None \<Rightarrow> False | Some a \<Rightarrow> refresh_changes dr a)
     then f + 1 else f)"
  by (simp add: apply_draft_def)

text \<open>The pass refreshes the rows the drafts are about and appends the rest as new rows.\<close>

lemma drafts_pass:
  assumes "\<And>k i. by_key k = Some i \<Longrightarrow> i < n0" "n0 \<le> ad_next_id d"
    and "fold (apply_draft now rules by_key) drafts (d, r, f) = (d1, r1, f1)"
  shows "ad_alerts d1 = map (refresh_by now by_key drafts) (ad_alerts d)
      @ new_rows now rules (ad_next_id d) (new_drafts by_key drafts)"
    and "r1 = r + length (new_drafts by_key drafts)"
    and "ad_rules d1 = ad_rules d" "ad_audits d1 = ad_audits d"
    and "ad_next_id d1 = ad_next_id d + length (new_drafts by_key drafts)"
proof -
  have fresh: "refresh_by now by_key drs (to_row now n dr rules) = to_row now n dr rules"
    if "n0 \<le> n" for drs n dr
    using assms(1) that by (intro refresh_by_untouched) (fastforce simp: to_row_def)
  have "ad_alerts d1 = map (refresh_by now by_key drafts) (ad_alerts d)
      @ new_rows now rules (ad_next_id d) (new_drafts by_key drafts)
    \<and> r1 = r + length (new_drafts by_key drafts) \<and> ad_rules d1 = ad_rules d \<and> ad_audits d1 = ad_audits d
    \<and> ad_next_id d1 = ad_next_id d + length (new_drafts by_key drafts)"
    using assms(2,3)
  proof (induction drafts arbitrary: d r f)
    case Nil
    then show ?case by (simp add: new_drafts_def)
  next
    case (Cons dr drs)
    show ?case
    proof (cases "by_key (dr_dedupe_key dr)")
      case None
      let ?d = "d\<lparr>ad_alerts := ad_alerts d @ [to_row now (ad_next_id d) dr rules],
        ad_next_id := Suc (ad_next_id d)\<rparr>"
      have "fold (apply_draft now rules by_key) drs (?d, r + 1, f) = (d1, r1, f1)"
        using Cons.prems(2) by (simp add: apply_draft_new[where by_key = by_key and dr = dr, OF None])
      from Cons.IH[OF _ this] Cons.prems(1) show ?thesis
        by (simp add: None new_drafts_def fresh)
    next
      case (Some i)
      let ?d = "d\<lparr>ad_alerts := update_where (\<lambda>a. al_id a = i) (refreshed_row now dr) (ad_alerts d)\<rparr>"
      obtain f' where "fold (apply_draft now rules by_key) drs (?d, r, f') = (d1, r1, f1)"
        using Cons.prems(2) by (simp add: apply_draft_known[where by_key = by_key and dr = dr, OF Some])
      from Cons.IH[OF _ this] Cons.prems(1) show ?thesis
        by (simp add: Some new_drafts_def update_where_def if_distrib[of al_id] comp_def cong: if_cong)
    qed
  qed
  then show "ad_alerts d1 = map (refresh_by now by_key drafts) (ad_alerts d)
      @ new_rows now rules (ad_next_id d) (new_drafts by_key drafts)"
    "r1 = r + length (new_drafts by_key drafts)" "ad_rules d1 = ad_rules d" "ad_audits d1 = ad_audits d"
    "ad_next_id d1 = ad_next_id d + length (new_drafts by_key drafts)"
    by blast+
qed

subsection \<open>One reconciliation\<close>

text \<open>What retirement and escalation make of a row.\<close>

definition settle :: "instant \<Rightarrow> rule_map \<Rightarrow> string list \<Rightarrow> uuid list \<Rightarrow> alert_row \<Rightarrow> alert_row" where
  "settle now rules seen ids a =
     (let b = (if retire_due rules seen ids a then retired_row now a else a)
      in if escalate_due now rules seen ids b then escalated_row now b else b)"

definition alerts_wf :: "alert_db \<Rightarrow> bool" where
  "alerts_wf d \<longleftrightarrow> distinct (map al_id (ad_alerts d)) \<and> (\<forall>a \<in> set (ad_alerts d). al_id a < ad_next_id d)"

definition live_ids :: "uuid option \<Rightarrow> alert_db \<Rightarrow> uuid list" where
  "live_ids scope d = map al_id (load_live_alerts scope d)"

abbreviation live_by_key :: "uuid option \<Rightarrow> alert_db \<Rightarrow> string \<Rightarrow> uuid option" where
  "live_by_key scope d \<equiv> id_by_key (load_live_alerts scope d)"

lemma id_by_key_Some:
  "id_by_key existing k = Some i \<Longrightarrow> \<exists>a \<in> set existing. al_dedupe_key a = k \<and> al_id a = i"
  unfolding id_by_key_def by (drule map_of_SomeD) auto

lemma id_by_key_None: "id_by_key existing k = None \<longleftrightarrow> k \<notin> al_dedupe_key ` set existing"
  by (auto simp: id_by_key_def map_of_eq_None_iff image_iff)

lemma load_live_alerts_mem:
  "a \<in> set (load_live_alerts scope d) \<longleftrightarrow> a \<in> set (ad_alerts d) \<and> al_live a
    \<and> al_type a \<in> set EVALUATED_TYPES \<and> in_scope scope (al_project_id a)"
  by (auto simp: load_live_alerts_def)

lemma settle_outside: "al_id a \<notin> set ids \<Longrightarrow> settle now rules seen ids a = a"
  by (simp add: settle_def retire_due_def escalate_due_def)

interpretation settling: alert_change "settle now rules seen ids" for now rules seen ids
  by unfold_locales (simp add: settle_def Let_def retirement.keeps escalation.keeps)

lemma reconcile_alerts:
  assumes wf: "alerts_wf d"
    and ok: "reconcile now rules scope drafts out d = Inr (d', out')"
  defines "by_key \<equiv> live_by_key scope d"
  shows "ad_alerts d' =
      map (\<lambda>a. settle now rules (map dr_dedupe_key drafts) (live_ids scope d) (refresh_by now by_key drafts a)) (ad_alerts d)
      @ new_rows now rules (ad_next_id d) (new_drafts by_key drafts)"
    and "eo_raised out' = length (new_drafts by_key drafts)"
    and "ad_rules d' = ad_rules d" "ad_audits d' = ad_audits d" "open_keys_unique (ad_alerts d')"
    and "rule_keys_unique (ad_rules d')"
    and "ad_next_id d' = ad_next_id d + length (new_drafts by_key drafts)"
proof -
  let ?seen = "map dr_dedupe_key drafts" and ?ids = "live_ids scope d"
  obtain d1 r1 f1 where pass: "fold (apply_draft now rules by_key) drafts (d, 0, 0) = (d1, r1, f1)"
    by (cases "fold (apply_draft now rules by_key) drafts (d, 0, 0)") auto
  have known: "i < ad_next_id d" if "by_key k = Some i" for k i
    using id_by_key_Some[OF that[unfolded by_key_def]] wf by (auto simp: load_live_alerts_mem alerts_wf_def)
  note d1 = drafts_pass[OF known order_refl pass]
  have "map (\<lambda>a. settle now rules ?seen ?ids a) (new_rows now rules (ad_next_id d) (new_drafts by_key drafts))
      = new_rows now rules (ad_next_id d) (new_drafts by_key drafts)"
  proof (rule map_idI)
    fix a assume "a \<in> set (new_rows now rules (ad_next_id d) (new_drafts by_key drafts))"
    then obtain i dr where "i \<ge> ad_next_id d" "a = to_row now i dr rules" using new_rows_facts(4) by blast
    then have "al_id a \<ge> ad_next_id d" by (simp add: to_row_def)
    moreover have "\<forall>i \<in> set ?ids. i < ad_next_id d"
      using wf by (auto simp: live_ids_def load_live_alerts_mem alerts_wf_def)
    ultimately have "al_id a \<notin> set ?ids" by auto
    then show "settle now rules ?seen ?ids a = a" by (rule settle_outside)
  qed
  moreover have "update_where (escalate_due now rules ?seen ?ids) (escalated_row now)
      (update_where (retire_due rules ?seen ?ids) (retired_row now) (ad_alerts d1))
      = map (settle now rules ?seen ?ids) (ad_alerts d1)"
    by (simp add: update_where_def settle_def comp_def Let_def)
  ultimately show "ad_alerts d' =
      map (\<lambda>a. settle now rules ?seen ?ids (refresh_by now by_key drafts a)) (ad_alerts d)
      @ new_rows now rules (ad_next_id d) (new_drafts by_key drafts)"
    "eo_raised out' = length (new_drafts by_key drafts)"
    "ad_rules d' = ad_rules d" "ad_audits d' = ad_audits d" "open_keys_unique (ad_alerts d')" "rule_keys_unique (ad_rules d')"
    "ad_next_id d' = ad_next_id d + length (new_drafts by_key drafts)"
    using ok pass d1
    by (auto simp: reconcile_def Let_def by_key_def live_ids_def flush_alerts_def comp_def split: if_splits)
qed

subsection \<open>What the drafts of a sweep are like\<close>

definition date_exists :: "date option \<Rightarrow> bool" where
  "date_exists d = (case d of None \<Rightarrow> True | Some x \<Rightarrow> 1 \<le> x \<and> x \<le> MAX_ORDINAL)"

definition estate_wf :: "estate \<Rightarrow> bool" where
  "estate_wf es \<longleftrightarrow> (\<forall>md \<in> set (es_metadata es). date_exists (md_expiration_date md) \<and> date_exists (md_notice_deadline md))
     \<and> (\<forall>ob \<in> set (es_obligations es). date_exists (ob_due_date ob))"

text \<open>The details of a draft: each key once, and none of those the sweep itself writes.\<close>

definition details_ok :: "dict \<Rightarrow> bool" where
  "details_ok e \<longleftrightarrow> distinct (map fst e) \<and> dict_get e ''escalated_at'' = None \<and> dict_get e ''source'' = None
     \<and> dict_get e ''first_seen_at'' = None"

definition draft_ok :: "rule_map \<Rightarrow> uuid option \<Rightarrow> alert_draft \<Rightarrow> bool" where
  "draft_ok rules scope dr \<longleftrightarrow> dr_type dr \<in> set EVALUATED_TYPES
     \<and> rule_for rules (dr_project_id dr) (dr_type dr) \<noteq> None \<and> in_scope scope (dr_project_id dr)
     \<and> length (dr_dedupe_key dr) \<le> 255 \<and> details_ok (dr_details dr)"

lemma evaluated_types:
  "set EVALUATED_TYPES = {AT_CONTRACT_EXPIRING, AT_AUTO_RENEWAL_NOTICE, AT_HIGH_RISK,
     AT_MISSING_MANDATORY_CLAUSE, AT_REVIEW_REQUIRED, AT_OBLIGATION_DUE}"
  by (auto simp: EVALUATED_TYPES_def EVALUATORS_def)

lemma draft_list_mem [simp]: "dr \<in> set (draft_list d) \<longleftrightarrow> d = Some dr"
  by (auto simp: draft_list_def split: option.splits)

lemma collect_drafts_mem:
  "collect_drafts f rs = Inr ds \<Longrightarrow> dr \<in> set ds \<longleftrightarrow> (\<exists>r \<in> set rs. \<exists>es. f r = Inr es \<and> dr \<in> set es)"
proof (induction rs arbitrary: ds)
  case (Cons r rs)
  obtain es fs where "f r = Inr es" "collect_drafts f rs = Inr fs" "ds = es @ fs"
    using Cons.prems by (auto split: sum.splits)
  then show ?case using Cons.IH by auto
qed simp

text \<open>A draft of a contract: its type, its project and the shape of its key.\<close>

definition drafted :: "alert_type \<Rightarrow> uuid \<Rightarrow> alert_draft \<Rightarrow> bool" where
  "drafted ty pid dr \<longleftrightarrow> dr_type dr = ty \<and> dr_project_id dr = pid \<and> length (dr_dedupe_key dr) \<le> 255
     \<and> details_ok (dr_details dr)"

lemma iso_short: "date_exists (Some d) \<Longrightarrow> length (iso_date d) \<le> 30"
  by (simp add: date_exists_def length_iso_date)

lemma expiring_drafted:
  assumes "evaluate_expiring c md rule today = Inr (Some dr)" "date_exists (md_expiration_date md)"
  shows "drafted AT_CONTRACT_EXPIRING (c_project_id c) dr"
proof -
  obtain expiry where "md_expiration_date md = Some expiry"
    using assms(1) by (auto simp: evaluate_expiring_def split: option.splits)
  then have "length (iso_date expiry) \<le> 30" using assms(2) iso_short by simp
  then show ?thesis
    using assms(1) \<open>md_expiration_date md = Some expiry\<close>
    by (auto simp: evaluate_expiring_def drafted_def details_ok_def dict_get_def Let_def split: if_splits)
qed

lemma renewal_deadline_exists:
  assumes "renewal_deadline md lead = Inr (Some (deadline, derived))" "date_exists (md_notice_deadline md)"
  shows "date_exists (Some deadline)"
  using assms by (auto simp: renewal_deadline_def date_exists_def split: option.splits sum.splits)

lemma auto_renewal_drafted:
  assumes "evaluate_auto_renewal c md rule today = Inr (Some dr)" "date_exists (md_notice_deadline md)"
  shows "drafted AT_AUTO_RENEWAL_NOTICE (c_project_id c) dr"
proof -
  obtain deadline derived where d: "renewal_deadline md (rule_int rule ''lead_days'' 45) = Inr (Some (deadline, derived))"
    using assms(1) by (auto simp: evaluate_auto_renewal_def Let_def split: if_splits sum.splits option.splits)
  have "length (iso_date deadline) \<le> 30"
    using iso_short[OF renewal_deadline_exists[OF d assms(2)]] .
  then show ?thesis
    using assms(1) d
    by (auto simp: evaluate_auto_renewal_def drafted_def details_ok_def dict_get_def Let_def split: if_splits)
qed

lemma high_risk_drafted:
  "evaluate_high_risk c md rule today = Inr (Some dr) \<Longrightarrow> drafted AT_HIGH_RISK (c_project_id c) dr"
  by (auto simp: evaluate_high_risk_def drafted_def details_ok_def dict_get_def Let_def split: option.splits if_splits)

lemma missing_clause_drafted:
  "evaluate_missing_clause c md rule today = Inr (Some dr) \<Longrightarrow>
    drafted AT_MISSING_MANDATORY_CLAUSE (c_project_id c) dr"
  by (auto simp: evaluate_missing_clause_def drafted_def details_ok_def dict_get_def Let_def split: sum.splits if_splits)

lemma review_drafted:
  "evaluate_review_required c rule n = Some dr \<Longrightarrow> drafted AT_REVIEW_REQUIRED (c_project_id c) dr"
  by (auto simp: evaluate_review_required_def drafted_def details_ok_def dict_get_def Let_def split: if_splits)

lemma obligation_drafted:
  assumes "evaluate_obligation ob c rule today = Some dr" "date_exists (ob_due_date ob)"
  shows "drafted AT_OBLIGATION_DUE (ob_project_id ob) dr"
proof -
  obtain due where due: "ob_due_date ob = Some due"
    using assms(1) by (auto simp: evaluate_obligation_def split: option.splits if_splits)
  then have "length (iso_date due) \<le> 30" using assms(2) iso_short by simp
  then show ?thesis
    using assms(1) due
    by (auto simp: evaluate_obligation_def drafted_def details_ok_def dict_get_def Let_def split: if_splits)
qed

lemma drafted_ok:
  "drafted ty pid dr \<Longrightarrow> ty \<in> set EVALUATED_TYPES \<Longrightarrow> rule_for rules pid ty \<noteq> None \<Longrightarrow> in_scope scope pid \<Longrightarrow>
    draft_ok rules scope dr"
  by (simp add: drafted_def draft_ok_def)

lemma metadata_of_wf:
  "estate_wf es \<Longrightarrow> metadata_of es cid = Some md \<Longrightarrow>
    date_exists (md_expiration_date md) \<and> date_exists (md_notice_deadline md)"
  unfolding metadata_of_def by (drule find_SomeD) (simp add: estate_wf_def)

lemma contract_drafts_ok:
  assumes "estate_wf es" "contract_drafts rules scope today es c = Inr ds" "dr \<in> set ds"
    "in_scope scope (c_project_id c)"
  shows "draft_ok rules scope dr"
proof -
  let ?f = "\<lambda>(ty, evaluate). case (rule_for rules (c_project_id c) ty, metadata_of es (c_id c)) of
      (Some rule, Some md) \<Rightarrow> map_sum id draft_list (evaluate c md rule today) | _ \<Rightarrow> Inr []"
  obtain es1 where ev: "collect_drafts ?f EVALUATORS = Inr es1"
    and ds: "ds = es1 @ (case rule_for rules (c_project_id c) AT_REVIEW_REQUIRED of None \<Rightarrow> []
        | Some rule \<Rightarrow> draft_list (evaluate_review_required c rule (pending_clause_count scope es (c_id c))))"
    using assms(2) by (auto simp: contract_drafts_def split: sum.splits)
  consider "dr \<in> set es1"
    | rule where "rule_for rules (c_project_id c) AT_REVIEW_REQUIRED = Some rule"
        "evaluate_review_required c rule (pending_clause_count scope es (c_id c)) = Some dr"
    using assms(3) ds by (auto split: option.splits)
  then show ?thesis
  proof cases
    case 1
    then obtain ty evaluate xs where m: "(ty, evaluate) \<in> set EVALUATORS" "?f (ty, evaluate) = Inr xs" "dr \<in> set xs"
      using collect_drafts_mem[OF ev, of dr] by force
    obtain rule md where r: "rule_for rules (c_project_id c) ty = Some rule"
      and md: "metadata_of es (c_id c) = Some md" and e: "evaluate c md rule today = Inr (Some dr)"
      using m(2,3) by (cases "rule_for rules (c_project_id c) ty"; cases "metadata_of es (c_id c)";
        cases "evaluate c (the (metadata_of es (c_id c))) (the (rule_for rules (c_project_id c) ty)) today") auto
    have "drafted ty (c_project_id c) dr"
      using m(1) e metadata_of_wf[OF assms(1) md] expiring_drafted auto_renewal_drafted high_risk_drafted
        missing_clause_drafted by (auto simp: EVALUATORS_def)
    moreover have "ty \<in> set EVALUATED_TYPES" using m(1) by (auto simp: evaluated_types EVALUATORS_def)
    ultimately show ?thesis using r assms(4) by (intro drafted_ok) auto
  next
    case 2
    then show ?thesis using assms(4)
      by (intro drafted_ok[OF review_drafted]) (auto simp: evaluated_types)
  qed
qed

lemma collect_ok:
  assumes wf: "estate_wf es" and ok: "collect rules scope today es = Inr (drafts, out)" and m: "dr \<in> set drafts"
  shows "draft_ok rules scope dr"
proof -
  obtain ds obs n where ds: "collect_drafts (contract_drafts rules scope today es) (examined_contracts scope es) = Inr ds"
    and obs: "collect_obligations rules scope today es = Inr (obs, n)" and drafts: "drafts = ds @ obs"
    using ok by (auto simp: collect_def split: sum.splits)
  consider "dr \<in> set ds" | "dr \<in> set obs" using m drafts by auto
  then show ?thesis
  proof cases
    case 1
    then obtain c xs where "c \<in> set (examined_contracts scope es)"
      "contract_drafts rules scope today es c = Inr xs" "dr \<in> set xs"
      using collect_drafts_mem[OF ds] by blast
    then show ?thesis by (intro contract_drafts_ok[OF wf]) (auto simp: examined_contracts_def)
  next
    case 2
    then obtain ob where ob: "ob \<in> set (es_obligations es)" "in_scope scope (ob_project_id ob)"
      "dr \<in> set (obligation_draft rules today es ob)"
      using obs by (auto simp: collect_obligations_def Let_def obligation_in_window_def split: if_splits sum.splits)
    then obtain rule c where r: "rule_for rules (ob_project_id ob) AT_OBLIGATION_DUE = Some rule"
      "evaluate_obligation ob c rule today = Some dr"
      by (cases "rule_for rules (ob_project_id ob) AT_OBLIGATION_DUE";
        cases "contract_of es (ob_contract_id ob)") (auto simp: obligation_draft_def)
    have "date_exists (ob_due_date ob)" using wf ob(1) by (simp add: estate_wf_def)
    then show ?thesis
      using r ob(2) by (intro drafted_ok[OF obligation_drafted]) (auto simp: evaluated_types)
  qed
qed

subsection \<open>Rows after a sweep\<close>

lemma run_evaluator_steps:
  assumes "run_evaluator now today scope es d = Inr (d', out)" "load_rules (ad_rules d) \<noteq> []"
  obtains drafts out0 where "collect (load_rules (ad_rules d)) scope today es = Inr (drafts, out0)"
    "reconcile now (load_rules (ad_rules d)) scope drafts out0 d = Inr (d', out)"
  using assms by (auto simp: run_evaluator_def Let_def split: sum.splits)

text \<open>The two kinds of row: what became of a stored one, and the new ones.\<close>

lemma reconciled_row:
  assumes "alerts_wf d" "reconcile now rules scope drafts out d = Inr (d', out')" "b \<in> set (ad_alerts d')"
  obtains (stored) a where "a \<in> set (ad_alerts d)"
      "b = settle now rules (map dr_dedupe_key drafts) (live_ids scope d)
             (refresh_by now (live_by_key scope d) drafts a)"
  | (fresh) dr i where "dr \<in> set drafts" "live_by_key scope d (dr_dedupe_key dr) = None"
      "i \<ge> ad_next_id d" "b = to_row now i dr rules"
proof -
  consider "b \<in> set (map (\<lambda>a. settle now rules (map dr_dedupe_key drafts) (live_ids scope d)
        (refresh_by now (live_by_key scope d) drafts a)) (ad_alerts d))"
    | "b \<in> set (new_rows now rules (ad_next_id d) (new_drafts (live_by_key scope d) drafts))"
    using assms(3) reconcile_alerts(1)[OF assms(1,2)] by auto
  then show thesis
  proof cases
    case 1
    then show thesis using stored by auto
  next
    case 2
    from new_rows_facts(4)[OF this] show thesis using fresh by (auto simp: new_drafts_def)
  qed
qed

lemma live_id_iff:
  assumes "alerts_wf d" "a \<in> set (ad_alerts d)"
  shows "al_id a \<in> set (live_ids scope d) \<longleftrightarrow> a \<in> set (load_live_alerts scope d)"
proof
  assume "al_id a \<in> set (live_ids scope d)"
  then obtain b where "b \<in> set (load_live_alerts scope d)" "al_id b = al_id a"
    by (auto simp: live_ids_def)
  moreover from this have "b = a"
    using assms by (auto simp: alerts_wf_def load_live_alerts_mem inj_on_def distinct_map)
  ultimately show "a \<in> set (load_live_alerts scope d)" by simp
qed (simp add: live_ids_def)

lemma live_by_key_Some:
  assumes "alerts_wf d" "live_by_key scope d k = Some (al_id a)" "a \<in> set (ad_alerts d)"
  shows "a \<in> set (load_live_alerts scope d) \<and> al_dedupe_key a = k"
proof -
  obtain b where "b \<in> set (load_live_alerts scope d)" "al_dedupe_key b = k" "al_id b = al_id a"
    using id_by_key_Some[OF assms(2)] by blast
  moreover from this have "b = a"
    using assms(1,3) by (auto simp: alerts_wf_def load_live_alerts_mem inj_on_def distinct_map)
  ultimately show ?thesis by simp
qed

text \<open>A stored alert outside the sweep's reach stays as it is.\<close>

lemma refresh_by_outside:
  assumes "alerts_wf d" "a \<in> set (ad_alerts d)" "a \<notin> set (load_live_alerts scope d)"
  shows "refresh_by now (live_by_key scope d) drafts a = a"
  using live_by_key_Some[OF assms(1) _ assms(2)] assms(3) by (intro refresh_by_untouched) blast

lemma settled_outside:
  assumes "alerts_wf d" "a \<in> set (ad_alerts d)" "a \<notin> set (load_live_alerts scope d)"
  shows "settle now rules seen (live_ids scope d) (refresh_by now (live_by_key scope d) drafts a) = a"
  using settle_outside live_id_iff[OF assms(1,2)] assms by (simp add: refresh_by_outside)

lemma al_live_cong: "al_status a = al_status b \<Longrightarrow> al_live a = al_live b"
  by (simp add: al_live_def)

lemma settle_status:
  "al_status (settle now rules seen ids a) =
    (if retire_due rules seen ids a then AS_RESOLVED else al_status a)"
  by (auto simp: settle_def Let_def)

subsection \<open>Properties of a sweep\<close>

lemma new_rows_mem: "dr \<in> set drs \<Longrightarrow> \<exists>i \<ge> n. to_row now i dr rules \<in> set (new_rows now rules n drs)"
  by (induction drs arbitrary: n) (auto, metis Suc_leD)

lemma drafts_have_alerts:
  assumes wf: "alerts_wf d" and rec: "reconcile now rules scope drafts out d = Inr (d', out')"
    and ok: "draft_ok rules scope dr" and dr: "dr \<in> set drafts"
  shows "\<exists>a \<in> set (load_live_alerts scope d'). al_dedupe_key a = dr_dedupe_key dr
    \<and> (live_by_key scope d (dr_dedupe_key dr) = None \<longrightarrow> al_status a = AS_OPEN \<and> al_id a \<ge> ad_next_id d \<and> al_created_at a = now)"
proof (cases "live_by_key scope d (dr_dedupe_key dr)")
  case None
  then have "dr \<in> set (new_drafts (live_by_key scope d) drafts)" using dr by (simp add: new_drafts_def)
  from new_rows_mem[OF this, of "ad_next_id d" now rules]
  obtain i where i: "i \<ge> ad_next_id d" "to_row now i dr rules \<in> set (ad_alerts d')"
    using reconcile_alerts(1)[OF wf rec] by auto
  have "to_row now i dr rules \<in> set (load_live_alerts scope d')"
    using i(2) ok by (simp add: load_live_alerts_mem to_row_def al_live_def draft_ok_def)
  moreover have "al_dedupe_key (to_row now i dr rules) = dr_dedupe_key dr"
    using ok by (simp add: to_row_def draft_ok_def)
  ultimately show ?thesis using i(1) None by (intro bexI[of _ "to_row now i dr rules"]) (simp_all add: to_row_def)
next
  case (Some i)
  then obtain a where a: "a \<in> set (load_live_alerts scope d)" "al_dedupe_key a = dr_dedupe_key dr"
    using id_by_key_Some by blast
  let ?b = "settle now rules (map dr_dedupe_key drafts) (live_ids scope d)
    (refresh_by now (live_by_key scope d) drafts a)"
  have "\<not> retire_due rules (map dr_dedupe_key drafts) (live_ids scope d) (refresh_by now (live_by_key scope d) drafts a)"
    using a(2) dr by (auto simp: retire_due_def)
  then have "al_live ?b" using a(1) by (simp add: al_live_def settle_status load_live_alerts_mem)
  then have "?b \<in> set (load_live_alerts scope d')"
    using a(1) reconcile_alerts(1)[OF wf rec] by (simp add: load_live_alerts_mem)
  then show ?thesis using a(2) Some by (intro bexI[of _ ?b]) simp_all
qed

text \<open>C6: the sweep makes the stored alerts agree with the estate. After it, every condition that holds
  has a live alert under its key, and every live alert of an evaluated type whose rule is in force is
  about a condition that holds: what was resolved elsewhere has been retired.\<close>

theorem sweep_makes_alerts_match:
  assumes wf: "alerts_wf d" "estate_wf es"
    and run: "run_evaluator now today scope es d = Inr (d', out)"
    and found: "collect (load_rules (ad_rules d)) scope today es = Inr (drafts, out0)"
    and rules: "load_rules (ad_rules d) \<noteq> []"
  shows "(\<forall>dr \<in> set drafts. \<exists>a \<in> set (load_live_alerts scope d'). al_dedupe_key a = dr_dedupe_key dr) \<and>
    (\<forall>a \<in> set (load_live_alerts scope d').
       rule_for (load_rules (ad_rules d)) (al_project_id a) (al_type a) \<noteq> None \<longrightarrow>
       al_dedupe_key a \<in> dr_dedupe_key ` set drafts)"
proof -
  let ?rules = "load_rules (ad_rules d)"
  from run_evaluator_steps[OF run rules] found
  have rec: "reconcile now ?rules scope drafts out0 d = Inr (d', out)" by auto
  have "al_dedupe_key b \<in> dr_dedupe_key ` set drafts"
    if b: "b \<in> set (load_live_alerts scope d')" and r: "rule_for ?rules (al_project_id b) (al_type b) \<noteq> None" for b
  proof -
    have "b \<in> set (ad_alerts d')" using b by (simp add: load_live_alerts_mem)
    with wf(1) rec show ?thesis
    proof (cases rule: reconciled_row)
      case (fresh dr i)
      have "al_dedupe_key b = dr_dedupe_key dr"
        using fresh(4) collect_ok[OF wf(2) found fresh(1)] by (simp add: to_row_def draft_ok_def)
      then show ?thesis using fresh(1) by blast
    next
      case (stored a)
      show ?thesis
      proof (cases "a \<in> set (load_live_alerts scope d)")
        case True
        have "al_status b \<noteq> AS_RESOLVED" using that(1) by (auto simp: load_live_alerts_mem al_live_def)
        then have "\<not> retire_due ?rules (map dr_dedupe_key drafts) (live_ids scope d)
            (refresh_by now (live_by_key scope d) drafts a)"
          using stored(2) by (auto simp: settle_status)
        moreover have "al_id a \<in> set (live_ids scope d)" using True by (simp add: live_ids_def)
        ultimately show ?thesis using that(2) stored(2) by (auto simp: retire_due_def)
      next
        case False
        then have "b = a" using settled_outside[OF wf(1) stored(1)] stored(2) by simp
        then show ?thesis using that(1) stored(1) False by (simp add: load_live_alerts_mem)
      qed
    qed
  qed
  then show ?thesis
    using drafts_have_alerts[OF wf(1) rec collect_ok[OF wf(2) found]] by blast
qed

text \<open>C8: a sweep never touches what an operator decided. Every stored alert keeps its identity. Exactly the
  live alerts in the sweep's reach whose rule is in force and whose condition no longer holds are resolved, with their
  acknowledgement and note kept; the status, acknowledgement and note of every other one stay as they are. Alerts
  that are already settled, of a type no evaluator owns, or of another project than the one swept stay entirely
  unchanged.\<close>

theorem sweep_keeps_decisions:
  assumes wf: "alerts_wf d" and run: "run_evaluator now today scope es d = Inr (d', out)"
    and found: "collect (load_rules (ad_rules d)) scope today es = Inr (drafts, out0)"
    and a: "a \<in> set (ad_alerts d)"
  shows "\<exists>b \<in> set (ad_alerts d'). alert_identity b = alert_identity a
    \<and> operator_part b =
        (if al_live a \<and> al_type a \<in> set EVALUATED_TYPES \<and> in_scope scope (al_project_id a)
           \<and> rule_for (load_rules (ad_rules d)) (al_project_id a) (al_type a) \<noteq> None
           \<and> al_dedupe_key a \<notin> dr_dedupe_key ` set drafts
         then (AS_RESOLVED, al_acknowledged_at a, al_acknowledged_by a, Some now, al_note a) else operator_part a)
    \<and> (al_live a \<and> al_type a \<in> set EVALUATED_TYPES \<and> in_scope scope (al_project_id a) \<or> b = a)"
proof (cases "load_rules (ad_rules d) = []")
  case True
  then have "d' = d" using run by (simp add: run_evaluator_def)
  then show ?thesis using a True by (intro bexI[of _ a]) (simp_all add: rule_for_def)
next
  case False
  let ?rules = "load_rules (ad_rules d)"
  have rec: "reconcile now ?rules scope drafts out0 d = Inr (d', out)"
    using run_evaluator_steps[OF run False] found by auto
  let ?seen = "map dr_dedupe_key drafts" and ?ids = "live_ids scope d"
  let ?a = "refresh_by now (live_by_key scope d) drafts a"
  let ?b = "settle now ?rules ?seen ?ids ?a"
  have stored: "?b \<in> set (ad_alerts d')" using a reconcile_alerts(1)[OF wf rec] by simp
  have identity: "alert_identity ?b = alert_identity a" by (simp add: settling.keeps refresh_all.keeps)
  show ?thesis
  proof (cases "a \<in> set (load_live_alerts scope d)")
    case False
    then have "?b = a" using settled_outside[OF wf a] by simp
    then show ?thesis using stored False a by (intro bexI[of _ ?b]) (auto simp: load_live_alerts_mem)
  next
    case True
    have parts: "operator_part ?b =
        (if retire_due ?rules ?seen ?ids ?a
         then (AS_RESOLVED, al_acknowledged_at ?a, al_acknowledged_by ?a, Some now, al_note ?a) else operator_part ?a)"
      by (simp add: settle_def Let_def) (simp add: operator_part_def retired_row_def)
    have "al_id a \<in> set ?ids" using True live_id_iff[OF wf a] by simp
    then have due: "retire_due ?rules ?seen ?ids ?a \<longleftrightarrow>
        rule_for ?rules (al_project_id a) (al_type a) \<noteq> None \<and> al_dedupe_key a \<notin> dr_dedupe_key ` set drafts"
      by (auto simp: retire_due_def)
    have "operator_part ?a = operator_part a" by simp
    then have "operator_part ?b = (if rule_for ?rules (al_project_id a) (al_type a) \<noteq> None
          \<and> al_dedupe_key a \<notin> dr_dedupe_key ` set drafts
        then (AS_RESOLVED, al_acknowledged_at a, al_acknowledged_by a, Some now, al_note a) else operator_part a)"
      unfolding parts due by (simp add: operator_part_def)
    then show ?thesis
      using stored identity True by (intro bexI[of _ ?b]) (auto simp: load_live_alerts_mem)
  qed
qed

text \<open>dismissing an alert lasts until the next sweep. When an operator dismisses the live alert of a
  condition that still holds, the sweep that follows opens a new alert under the same key.\<close>

theorem dismissed_alert_comes_back:
  assumes wf: "alerts_wf d" "estate_wf es" and a: "a \<in> set (ad_alerts d)"
    and only: "\<forall>x \<in> set (load_live_alerts scope d). al_dedupe_key x = al_dedupe_key a \<longrightarrow> x = a"
    and dismiss: "update_alert t u sc (al_id a) \<lparr>up_status = AS_DISMISSED, up_note = note\<rparr> d = Inr (d1, a1)"
    and found: "collect (load_rules (ad_rules d)) scope today es = Inr (drafts, out0)"
    and holds: "dr \<in> set drafts" "dr_dedupe_key dr = al_dedupe_key a"
    and run: "run_evaluator now today scope es d1 = Inr (d2, out)"
  shows "al_status a1 = AS_DISMISSED \<and> (\<exists>b \<in> set (ad_alerts d2). al_dedupe_key b = al_dedupe_key a
    \<and> al_status b = AS_OPEN \<and> al_id b \<noteq> al_id a \<and> al_created_at b = now)"
proof -
  let ?f = "decided_row t (u_id u) \<lparr>up_status = AS_DISMISSED, up_note = note\<rparr>"
  have find: "List.find (\<lambda>x. al_id x = al_id a) (ad_alerts d) = Some a"
    using wf(1) a by (intro find_unique) (simp_all add: alerts_wf_def)
  have d1: "ad_alerts d1 = update_where (\<lambda>x. al_id x = al_id a) ?f (ad_alerts d)"
    "ad_rules d1 = ad_rules d" "ad_next_id d1 = ad_next_id d" "a1 = ?f a"
    using dismiss
    by (auto simp: update_alert_def find Let_def flush_alerts_def audit_alert_def split: if_splits)
  have wf1: "alerts_wf d1"
    using wf(1) by (auto simp: alerts_wf_def d1 decision.ids_kept set_update_where)
  have rules: "load_rules (ad_rules d1) \<noteq> []"
  proof
    assume "load_rules (ad_rules d1) = []"
    then have "draft_ok [] scope dr" using collect_ok[OF wf(2) found holds(1)] d1(2) by simp
    then show False by (simp add: draft_ok_def rule_for_def)
  qed
  obtain drafts' out' where "collect (load_rules (ad_rules d1)) scope today es = Inr (drafts', out')"
    "reconcile now (load_rules (ad_rules d1)) scope drafts' out' d1 = Inr (d2, out)"
    using run_evaluator_steps[OF run rules] by blast
  then have rec: "reconcile now (load_rules (ad_rules d)) scope drafts out0 d1 = Inr (d2, out)"
    using found by (simp add: d1(2))
  have gone: "al_dedupe_key x \<noteq> al_dedupe_key a" if "x \<in> set (load_live_alerts scope d1)" for x
  proof
    assume k: "al_dedupe_key x = al_dedupe_key a"
    have "x \<in> (\<lambda>y. if al_id y = al_id a then ?f y else y) ` set (ad_alerts d)"
      using that by (simp only: load_live_alerts_mem d1(1) update_where_def set_map)
    then obtain y where y: "y \<in> set (ad_alerts d)" "x = (if al_id y = al_id a then ?f y else y)"
      by blast
    have "al_id y \<noteq> al_id a"
      using that y(2) by (auto simp: load_live_alerts_mem al_live_def decided_row_def Let_def)
    then have "x = y" "y \<in> set (load_live_alerts scope d)"
      using that y by (simp_all add: load_live_alerts_mem)
    then show False using only k \<open>al_id y \<noteq> al_id a\<close> by blast
  qed
  have "live_by_key scope d1 (dr_dedupe_key dr) = None"
    unfolding id_by_key_None holds(2) by (metis gone imageE)
  then obtain b where b: "b \<in> set (ad_alerts d2)" "al_dedupe_key b = al_dedupe_key a" "al_status b = AS_OPEN"
    "al_id b \<ge> ad_next_id d" "al_created_at b = now"
    using drafts_have_alerts[OF wf1 rec collect_ok[OF wf(2) found holds(1)] holds(1)] holds(2)
    by (auto simp: load_live_alerts_mem d1(3))
  moreover have "al_id a < ad_next_id d" using wf(1) a by (simp add: alerts_wf_def)
  moreover have "al_status a1 = AS_DISMISSED" by (simp add: d1(4) decided_row_def Let_def)
  ultimately show ?thesis by (intro conjI bexI[of _ b]) auto
qed

subsection \<open>Which rule applies\<close>

lemma find_rev_unique:
  "distinct (map g rs) \<Longrightarrow> List.find (\<lambda>r. g r = k \<and> Q r) (rev rs) = List.find (\<lambda>r. g r = k \<and> Q r) rs"
proof (induction rs)
  case (Cons r rs)
  have "g x \<noteq> k" if "g r = k" "x \<in> set rs" for x
    using Cons.prems that by (metis distinct.simps(2) image_eqI list.set_map list.simps(9))
  then have "List.find (\<lambda>r. g r = k \<and> Q r) rs = None" if "g r = k"
    using that by (auto simp: find_None_iff)
  then show ?case using Cons by (auto simp: find_append split: option.splits)
qed simp

lemma map_of_load_rules:
  assumes "rule_keys_unique rows" "ty \<in> set EVALUATED_TYPES"
  shows "map_of (load_rules rows) (pid, ty) = map_option resolve_rule
    (List.find (\<lambda>r. (ru_project_id r, ru_type r) = (pid, ty) \<and> ru_is_enabled r) rows)"
proof -
  let ?step = "\<lambda>r m. if ru_type r \<in> set EVALUATED_TYPES
      then AList.update (ru_project_id r, ru_type r) (resolve_rule r) m else m"
  have "map_of (fold ?step (filter ru_is_enabled rs) m) (pid, ty) =
      (case List.find (\<lambda>r. (ru_project_id r, ru_type r) = (pid, ty) \<and> ru_is_enabled r) (rev rs) of
         None \<Rightarrow> map_of m (pid, ty) | Some r \<Rightarrow> Some (resolve_rule r))" for rs m
    using assms(2)
    by (induction rs arbitrary: m) (auto simp: find_append AList.update_conv' split: option.splits)
  then show ?thesis
    using find_rev_unique[of "\<lambda>r. (ru_project_id r, ru_type r)" rows "(pid, ty)" ru_is_enabled] assms(1)
    by (simp add: load_rules_def rule_keys_unique_def split: option.splits)
qed

text \<open>which rule decides for a project. An enabled row of the project wins over the platform
  default; but a row the project disabled is dropped before the lookup, so the enabled default applies
  again: a project cannot switch an alert type off for itself.\<close>

theorem disabled_override_falls_back:
  assumes "rule_keys_unique rows" "ty \<in> set EVALUATED_TYPES" "r \<in> set rows"
    and "ru_project_id r = Some pid" "ru_type r = ty"
  shows "rule_for (load_rules rows) pid ty =
    (if ru_is_enabled r then Some (resolve_rule r)
     else map_option resolve_rule (List.find (\<lambda>x. ru_project_id x = None \<and> ru_type x = ty \<and> ru_is_enabled x) rows))"
proof -
  have own: "List.find (\<lambda>x. (ru_project_id x, ru_type x) = (Some pid, ty) \<and> ru_is_enabled x) rows
      = (if ru_is_enabled r then Some r else None)"
  proof (cases "ru_is_enabled r")
    case True
    have "List.find (\<lambda>x. (ru_project_id x, ru_type x) = (Some pid, ty)) rows = Some r"
      using find_unique[of "\<lambda>x. (ru_project_id x, ru_type x)" rows r] assms
      by (simp add: rule_keys_unique_def)
    then have "List.find (\<lambda>x. (ru_project_id x, ru_type x) = (Some pid, ty) \<and> ru_is_enabled x) rows = Some r"
      using True by (induction rows) (auto split: if_splits)
    then show ?thesis using True by simp
  next
    case False
    have "x = r" if "x \<in> set rows" "(ru_project_id x, ru_type x) = (Some pid, ty)" for x
      using assms that by (auto simp: rule_keys_unique_def distinct_map inj_on_def)
    then show ?thesis using False by (auto simp: find_None_iff)
  qed
  show ?thesis
    using own by (auto simp: rule_for_def map_of_load_rules[OF assms(1,2)])
qed

subsection \<open>Obligations\<close>

lemma max_over_ge: "x \<in> set xs \<Longrightarrow> x \<le> max_over xs"
  by (cases xs) (auto simp: max_over_def Max.set_eq_fold[symmetric])

lemma obligation_rule_mem:
  "rule_for rules pid AT_OBLIGATION_DUE = Some r \<Longrightarrow> r \<in> set (obligation_rules rules)"
  by (auto simp: rule_for_def obligation_rules_def image_iff split: option.splits dest!: map_of_SomeD)

text \<open>the window the obligations are preselected with, the widest of all rules, loses nothing: the
  sweep drafts exactly what evaluating every obligation in scope under the rule of its own project
  would draft.\<close>

theorem obligation_preselection_is_exact:
  assumes "collect_obligations rules scope today es = Inr (drafts, n)"
  shows "drafts = concat (map (obligation_draft rules today es)
    (filter (\<lambda>ob. in_scope scope (ob_project_id ob)) (es_obligations es)))"
proof (cases "obligation_rules rules = []")
  case True
  then have none: "rule_for rules pid AT_OBLIGATION_DUE = None" for pid
    using obligation_rule_mem[of rules pid] by (cases "rule_for rules pid AT_OBLIGATION_DUE") auto
  show ?thesis using assms True by (simp add: collect_obligations_def obligation_draft_def none)
next
  case False
  define latest where "latest = today + max_over (map (\<lambda>r. rule_int r ''window_days'' 14) (obligation_rules rules))"
  define earliest where "earliest = today - max_over (map (\<lambda>r. rule_int r ''overdue_days'' 30) (obligation_rules rules))"
  have drafts: "drafts = concat (map (obligation_draft rules today es)
      (filter (obligation_in_window earliest latest scope es) (es_obligations es)))"
    using assms False by (auto simp: collect_obligations_def Let_def latest_def earliest_def split: sum.splits)
  have "obligation_draft rules today es ob = []"
    if "in_scope scope (ob_project_id ob)" "\<not> obligation_in_window earliest latest scope es ob" for ob
  proof (rule ccontr)
    assume "obligation_draft rules today es ob \<noteq> []"
    then obtain rule c dr where r: "rule_for rules (ob_project_id ob) AT_OBLIGATION_DUE = Some rule"
      and c: "contract_of es (ob_contract_id ob) = Some c" and ev: "evaluate_obligation ob c rule today = Some dr"
      by (cases "rule_for rules (ob_project_id ob) AT_OBLIGATION_DUE"; cases "contract_of es (ob_contract_id ob)")
        (auto simp: obligation_draft_def draft_list_def split: option.splits)
    have widest: "rule_int rule ''window_days'' 14 \<le> latest - today"
      "rule_int rule ''overdue_days'' 30 \<le> today - earliest"
      using obligation_rule_mem[OF r] by (auto simp: latest_def earliest_def intro!: max_over_ge)
    obtain due where "ob_due_date ob = Some due" "due - today \<le> rule_int rule ''window_days'' 14"
      "- rule_int rule ''overdue_days'' 30 \<le> due - today" "ob_status ob \<in> {OS_OPEN, OS_IN_PROGRESS}"
      using ev by (auto simp: evaluate_obligation_def Let_def split: option.splits if_splits)
    then show False using that c widest by (auto simp: obligation_in_window_def)
  qed
  then have "concat (map (obligation_draft rules today es) (filter (obligation_in_window earliest latest scope es) obs))
      = concat (map (obligation_draft rules today es) (filter (\<lambda>ob. in_scope scope (ob_project_id ob)) obs))" for obs
    by (induction obs) (auto simp: obligation_in_window_def)
  then show ?thesis using drafts by simp
qed

text \<open>a single rule can stop every sweep. Where one enabled obligation rule, of any project, has a
  window that reaches past the last date, the evaluation raises for every scope, so no alert of any
  project is raised, refreshed or retired.\<close>

theorem one_rule_stops_every_sweep:
  assumes "r \<in> set rows" "ru_is_enabled r" "ru_type r = AT_OBLIGATION_DUE" "rule_keys_unique rows"
    and "rule_int (resolve_rule r) ''window_days'' 14 > MAX_ORDINAL - today" and "ad_rules d = rows"
  shows "\<exists>e. run_evaluator now today scope es d = Inl e"
proof -
  have "List.find (\<lambda>x. (ru_project_id x, ru_type x) = (ru_project_id r, AT_OBLIGATION_DUE) \<and> ru_is_enabled x) rows \<noteq> None"
    using assms(1-3) by (auto simp: find_None_iff)
  then obtain x where x: "List.find (\<lambda>x. (ru_project_id x, ru_type x) = (ru_project_id r, AT_OBLIGATION_DUE) \<and> ru_is_enabled x) rows = Some x"
    by auto
  then have "x = r"
    using find_SomeD[OF x] assms(1-4) by (auto simp: rule_keys_unique_def distinct_map inj_on_def)
  then have m: "map_of (load_rules rows) (ru_project_id r, AT_OBLIGATION_DUE) = Some (resolve_rule r)"
    using map_of_load_rules[OF assms(4), of AT_OBLIGATION_DUE "ru_project_id r"] x by (simp add: evaluated_types)
  then have mem: "resolve_rule r \<in> set (obligation_rules (load_rules rows))"
    by (force simp: obligation_rules_def dest: map_of_SomeD)
  have "rule_int (resolve_rule r) ''window_days'' 14
      \<le> max_over (map (\<lambda>q. rule_int q ''window_days'' 14) (obligation_rules (load_rules rows)))"
    using mem by (intro max_over_ge) auto
  then have over: "date_plus today (max_over (map (\<lambda>q. rule_int q ''window_days'' 14) (obligation_rules (load_rules rows))))
      = Inl OverflowError"
    using assms(5) by (auto simp: date_plus_def)
  have "collect_obligations (load_rules rows) scope today es = Inl OverflowError"
    using mem over by (auto simp: collect_obligations_def Let_def)
  then have "\<exists>e. collect (load_rules rows) scope today es = Inl e"
    by (simp add: collect_def split: sum.splits)
  then show ?thesis using m assms(6) by (auto simp: run_evaluator_def Let_def)
qed

subsection \<open>A sweep on concrete rows\<close>

definition fx_rule :: rule_row where
  "fx_rule = \<lparr>ru_id = 5, ru_project_id = None, ru_name = None, ru_type = AT_CONTRACT_EXPIRING,
     ru_is_enabled = True, ru_severity = SV_MEDIUM, ru_config = Some [(''window_days'', JInt 90)],
     ru_escalate_after_days = Some 30, ru_notify_channels = Some [''in_app''], ru_updated_by = None\<rparr>"

definition fx_estate_contract :: estate_contract where
  "fx_estate_contract = \<lparr>c_id = 20, c_project_id = 30, c_file_type = FT_PDF, c_title = Some ''MSA'',
     c_status = CS_READY, c_needs_review = False, c_page_count = None, c_language = None,
     c_agreement_type = None, c_agreement_subtype = None, c_classification_confidence = None,
     c_profile_id = None, c_profile_version = None, c_processed_at = None, c_deleted_at = None,
     ec_contract_number = None, ec_original_file_name = ''msa.pdf''\<rparr>"

definition fx_metadata :: metadata_row where
  "fx_metadata = \<lparr>md_contract_id = 20, md_expiration_date = Some 738910, md_notice_deadline = None,
     md_contract_value = None, md_currency = None, md_auto_renewal = None, md_auto_renewal_notice_days = None,
     md_renewal_term_months = None, md_risk_score = None, md_risk_band = None, md_risk_factors = [],
     md_has_unlimited_liability = None, md_missing_mandatory_clauses = []\<rparr>"

definition fx_estate :: estate where
  "fx_estate = \<lparr>es_contracts = [fx_estate_contract], es_metadata = [fx_metadata], es_clauses = [],
     es_obligations = [\<lparr>ob_id = 70, ob_contract_id = 20, ob_project_id = 30, ob_status = OS_OPEN,
       ob_due_date = Some 738905, ob_action = ''Send the report'', ob_responsible_party = None\<rparr>]\<rparr>"

definition fx_key :: string where
  "fx_key = ''expiring:'' @ uuid_str 20 @ '':'' @ iso_date 738910"

definition fx_alert :: alert_row where
  "fx_alert = \<lparr>al_id = 3, al_project_id = 30, al_contract_id = Some 20, al_type = AT_CONTRACT_EXPIRING,
     al_severity = SV_MEDIUM, al_status = AS_OPEN, al_title = ''MSA expires in 40 days'', al_message = [],
     al_details = [], al_due_date = Some 738910, al_dedupe_key = fx_key, al_rule_id = Some 5,
     al_acknowledged_at = None, al_acknowledged_by = None, al_resolved_at = None, al_note = None,
     al_created_at = 0\<rparr>"

definition fx_alerts :: alert_db where
  "fx_alerts = \<lparr>ad_alerts = [fx_alert], ad_rules = [fx_rule], ad_audits = [], ad_next_id = 100\<rparr>"

definition fx_drafts :: "alert_draft list" where
  "fx_drafts = fst (projr (collect (load_rules [fx_rule]) None 738900 fx_estate))"

lemma fx_wf: "alerts_wf fx_alerts" "estate_wf fx_estate" "load_rules (ad_rules fx_alerts) \<noteq> []"
  by (simp_all add: alerts_wf_def estate_wf_def fx_alerts_def fx_alert_def fx_estate_def fx_metadata_def
      date_exists_def MAX_ORDINAL_def load_rules_def fx_rule_def evaluated_types)

lemma fx_collect: "\<exists>out. collect (load_rules (ad_rules fx_alerts)) None 738900 fx_estate = Inr (fx_drafts, out)"
proof -
  have "isl (collect (load_rules [fx_rule]) None 738900 fx_estate) = False" by code_simp
  then show ?thesis
    by (cases "collect (load_rules [fx_rule]) None 738900 fx_estate") (auto simp: fx_drafts_def fx_alerts_def)
qed

lemma fx_draft_keys: "map dr_dedupe_key fx_drafts = [fx_key]"
  by code_simp

lemma fx_run: "\<exists>d' out. run_evaluator 86400000000 738900 None fx_estate fx_alerts = Inr (d', out)"
proof -
  have "isl (run_evaluator 86400000000 738900 None fx_estate fx_alerts) = False" by code_simp
  then show ?thesis by (cases "run_evaluator 86400000000 738900 None fx_estate fx_alerts") auto
qed

theorem sweep_makes_alerts_match_witness:
  "\<exists>d' out. run_evaluator 86400000000 738900 None fx_estate fx_alerts = Inr (d', out)
    \<and> (\<exists>a. a \<in> set (load_live_alerts None d') \<and> al_dedupe_key a = fx_key)"
proof -
  obtain d' out where run: "run_evaluator 86400000000 738900 None fx_estate fx_alerts = Inr (d', out)"
    using fx_run by blast
  obtain out0 where "collect (load_rules (ad_rules fx_alerts)) None 738900 fx_estate = Inr (fx_drafts, out0)"
    using fx_collect by blast
  from sweep_makes_alerts_match[OF fx_wf(1,2) run this fx_wf(3)]
  have "\<forall>k \<in> set (map dr_dedupe_key fx_drafts). \<exists>a \<in> set (load_live_alerts None d'). al_dedupe_key a = k"
    by simp
  then show ?thesis using run unfolding fx_draft_keys by auto
qed

definition fx_stale :: alert_row where
  "fx_stale = fx_alert\<lparr>al_id := 4, al_status := AS_ACKNOWLEDGED, al_dedupe_key := ''expiring:gone'',
     al_note := Some ''seen''\<rparr>"

definition fx_two :: alert_db where
  "fx_two = fx_alerts\<lparr>ad_alerts := [fx_alert, fx_stale]\<rparr>"

theorem sweep_keeps_decisions_witness:
  "\<exists>d' out b. run_evaluator 86400000000 738900 None fx_estate fx_two = Inr (d', out)
    \<and> b \<in> set (ad_alerts d') \<and> alert_identity b = alert_identity fx_stale
    \<and> al_status b = AS_RESOLVED \<and> al_note b = Some ''seen''"
proof -
  have "isl (run_evaluator 86400000000 738900 None fx_estate fx_two) = False" by code_simp
  then obtain d' out where run: "run_evaluator 86400000000 738900 None fx_estate fx_two = Inr (d', out)"
    by (cases "run_evaluator 86400000000 738900 None fx_estate fx_two") auto
  have rules: "load_rules (ad_rules fx_two) = load_rules (ad_rules fx_alerts)" by (simp add: fx_two_def)
  obtain out0 where found: "collect (load_rules (ad_rules fx_two)) None 738900 fx_estate = Inr (fx_drafts, out0)"
    using fx_collect rules by auto
  have wf: "alerts_wf fx_two" and stale: "fx_stale \<in> set (ad_alerts fx_two)"
    by (simp_all add: fx_two_def fx_stale_def alerts_wf_def fx_alerts_def fx_alert_def)
  have "fx_key \<noteq> ''expiring:gone''" by code_simp
  moreover have "al_dedupe_key fx_stale = ''expiring:gone''" by (simp add: fx_stale_def)
  moreover have "dr_dedupe_key ` set fx_drafts = {fx_key}" by (metis fx_draft_keys list.set_map list.simps(15) list.set(1))
  ultimately have gone: "al_dedupe_key fx_stale \<notin> dr_dedupe_key ` set fx_drafts" by simp
  have rule: "rule_for (load_rules (ad_rules fx_two)) (al_project_id fx_stale) (al_type fx_stale) \<noteq> None" by code_simp
  have live: "al_live fx_stale" "al_type fx_stale \<in> set EVALUATED_TYPES" "in_scope None (al_project_id fx_stale)"
    by code_simp+
  obtain b where "b \<in> set (ad_alerts d')" "alert_identity b = alert_identity fx_stale"
    "operator_part b = (AS_RESOLVED, al_acknowledged_at fx_stale, al_acknowledged_by fx_stale, Some 86400000000, al_note fx_stale)"
    using sweep_keeps_decisions[OF wf run found stale] live rule gone by auto
  then show ?thesis
    using run by (auto simp: operator_part_def fx_stale_def)
qed

definition fx_scope :: access_scope where
  "fx_scope = \<lparr>as_user = fx_user, as_project_ids = [30]\<rparr>"

definition fx_dismiss :: alert_update where
  "fx_dismiss = \<lparr>up_status = AS_DISMISSED, up_note = None\<rparr>"

definition fx_dismissed :: alert_db where
  "fx_dismissed = fst (projr (update_alert 5 fx_user fx_scope 3 fx_dismiss fx_alerts))"

lemma fx_dismissal: "\<exists>a1. update_alert 5 fx_user fx_scope 3 fx_dismiss fx_alerts = Inr (fx_dismissed, a1)"
proof -
  have "isl (update_alert 5 fx_user fx_scope 3 fx_dismiss fx_alerts) = False" by code_simp
  then show ?thesis
    by (cases "update_alert 5 fx_user fx_scope 3 fx_dismiss fx_alerts") (auto simp: fx_dismissed_def)
qed

theorem dismissed_alert_comes_back_witness:
  "\<exists>d2 out b. run_evaluator 86400000000 738900 None fx_estate fx_dismissed = Inr (d2, out)
    \<and> b \<in> set (ad_alerts d2) \<and> al_dedupe_key b = fx_key \<and> al_status b = AS_OPEN \<and> al_id b \<noteq> 3"
proof -
  have a: "fx_alert \<in> set (ad_alerts fx_alerts)" by (simp add: fx_alerts_def)
  have only: "\<forall>x \<in> set (load_live_alerts None fx_alerts). al_dedupe_key x = al_dedupe_key fx_alert \<longrightarrow> x = fx_alert"
    by (simp add: load_live_alerts_mem fx_alerts_def)
  obtain a1 where dismiss: "update_alert 5 fx_user fx_scope (al_id fx_alert)
      \<lparr>up_status = AS_DISMISSED, up_note = None\<rparr> fx_alerts = Inr (fx_dismissed, a1)"
    using fx_dismissal by (auto simp: fx_alert_def fx_dismiss_def)
  obtain out0 where found: "collect (load_rules (ad_rules fx_alerts)) None 738900 fx_estate = Inr (fx_drafts, out0)"
    using fx_collect by blast
  have "fx_key \<in> set (map dr_dedupe_key fx_drafts)" by (simp only: fx_draft_keys list.set_intros)
  then obtain dr where dr: "dr \<in> set fx_drafts" "dr_dedupe_key dr = al_dedupe_key fx_alert"
    by (auto simp: fx_alert_def)
  have "isl (run_evaluator 86400000000 738900 None fx_estate fx_dismissed) = False" by code_simp
  then obtain d2 out where run: "run_evaluator 86400000000 738900 None fx_estate fx_dismissed = Inr (d2, out)"
    by (cases "run_evaluator 86400000000 738900 None fx_estate fx_dismissed") auto
  have "al_dedupe_key fx_alert = fx_key" "al_id fx_alert = 3" by (simp_all add: fx_alert_def)
  then show ?thesis
    using dismissed_alert_comes_back[OF fx_wf(1,2) a only dismiss found dr run] run by auto
qed

definition fx_own_rule :: rule_row where
  "fx_own_rule = fx_rule\<lparr>ru_id := 6, ru_project_id := Some 30, ru_is_enabled := False\<rparr>"

theorem disabled_override_falls_back_witness:
  "rule_for (load_rules [fx_rule, fx_own_rule]) 30 AT_CONTRACT_EXPIRING = Some (resolve_rule fx_rule)"
  using disabled_override_falls_back[of "[fx_rule, fx_own_rule]" AT_CONTRACT_EXPIRING fx_own_rule 30]
  by (simp add: rule_keys_unique_def fx_own_rule_def fx_rule_def evaluated_types)

definition fx_obligation_rule :: rule_row where
  "fx_obligation_rule = fx_rule\<lparr>ru_id := 7, ru_type := AT_OBLIGATION_DUE, ru_config := None\<rparr>"

theorem obligation_preselection_is_exact_witness:
  "\<exists>drafts n. collect_obligations (load_rules [fx_obligation_rule]) None 738900 fx_estate = Inr (drafts, n)
    \<and> n = 1 \<and> drafts = concat (map (obligation_draft (load_rules [fx_obligation_rule]) 738900 fx_estate)
         (es_obligations fx_estate))"
proof -
  let ?r = "collect_obligations (load_rules [fx_obligation_rule]) None 738900 fx_estate"
  have "map_sum id snd ?r = (Inr 1 :: exn + nat)" by code_simp
  then obtain drafts where run: "?r = Inr (drafts, 1)" by (cases ?r) auto
  then show ?thesis
    using obligation_preselection_is_exact[OF run] by (simp add: in_scope_def)
qed

theorem one_rule_stops_every_sweep_witness:
  "\<exists>e. run_evaluator 0 738900 (Some 31) fx_estate
    (fx_alerts\<lparr>ad_rules := [fx_rule, fx_obligation_rule\<lparr>ru_project_id := Some 30, ru_config := Some [(''window_days'', JInt 9999999)]\<rparr>]\<rparr>) = Inl e"
  by (rule one_rule_stops_every_sweep[where r = "fx_obligation_rule\<lparr>ru_project_id := Some 30,
        ru_config := Some [(''window_days'', JInt 9999999)]\<rparr>", OF _ _ _ _ _ refl])
    (simp_all add: fx_alerts_def fx_obligation_rule_def fx_rule_def rule_keys_unique_def rule_int_def
      resolve_rule_def config_or_empty_def dict_get_def MAX_ORDINAL_def)

end
