(* ===== verification/AlertSteady.thy ===== *)
theory AlertSteady
  imports AlertLaws
begin

text \<open>
  The sweep is idempotent: run again on what it left behind, it reports nothing.
\<close>

subsection \<open>The live alert of a key\<close>

lemma id_by_key_last:
  "id_by_key as k = (case map al_id (filter (\<lambda>a. al_dedupe_key a = k) as) of [] \<Rightarrow> None
     | is \<Rightarrow> Some (last is))"
proof (induction as rule: rev_induct)
  case Nil
  then show ?case by (simp add: id_by_key_def)
next
  case (snoc a as)
  then show ?case by (auto simp: id_by_key_def split: list.splits)
qed

lemma id_by_key_cong:
  "map al_id (filter (\<lambda>a. al_dedupe_key a = k) as) = map al_id (filter (\<lambda>a. al_dedupe_key a = k) bs) \<Longrightarrow>
    id_by_key as k = id_by_key bs k"
  by (simp only: id_by_key_last)

lemma refresh_by_single:
  assumes "distinct drafts" "dr \<in> set drafts" "by_key (dr_dedupe_key dr) = Some (al_id a)"
    and other: "\<And>e. e \<in> set drafts \<Longrightarrow> by_key (dr_dedupe_key e) = Some (al_id a) \<Longrightarrow> e = dr"
  shows "refresh_by now by_key drafts a = refreshed_row now dr a"
proof -
  obtain xs ys where split: "drafts = xs @ dr # ys" using split_list[OF assms(2)] by blast
  have out: "dr \<notin> set xs" "dr \<notin> set ys" using assms(1) by (simp_all add: split)
  have append: "refresh_by now by_key (xs @ zs) b = refresh_by now by_key zs (refresh_by now by_key xs b)" for xs zs b
    by (simp add: refresh_by_def)
  have "by_key (dr_dedupe_key e) \<noteq> Some (al_id a)" if "e \<in> set xs \<union> set ys" for e
    using other[of e] that out by (auto simp only: split set_append list.set)
  then have "refresh_by now by_key xs a = a"
    "refresh_by now by_key ys (refreshed_row now dr a) = refreshed_row now dr a"
    by (auto intro!: refresh_by_untouched)
  then show ?thesis using assms(3) by (simp add: split append)
qed

subsection \<open>A pass that finds nothing to do\<close>

lemma quiet_pass:
  assumes "distinct (map (\<lambda>dr. by_key (dr_dedupe_key dr)) drafts)"
    and "\<And>dr. dr \<in> set drafts \<Longrightarrow> \<exists>i a. by_key (dr_dedupe_key dr) = Some i
      \<and> List.find (\<lambda>x. al_id x = i) (ad_alerts d) = Some a \<and> \<not> refresh_changes dr a"
  shows "\<exists>d1. fold (apply_draft now rules by_key) drafts (d, r, f) = (d1, r, f)"
  using assms
proof (induction drafts arbitrary: d)
  case (Cons dr drs)
  obtain i a where i: "by_key (dr_dedupe_key dr) = Some i"
    "List.find (\<lambda>x. al_id x = i) (ad_alerts d) = Some a" "\<not> refresh_changes dr a"
    using Cons.prems(2)[of dr] by auto
  let ?d = "d\<lparr>ad_alerts := update_where (\<lambda>a. al_id a = i) (refreshed_row now dr) (ad_alerts d)\<rparr>"
  have step: "apply_draft now rules by_key dr (d, r, f) = (?d, r, f)"
    using i by (simp add: apply_draft_known[where by_key = by_key and dr = dr, OF i(1)])
  have "\<exists>j b. by_key (dr_dedupe_key e) = Some j \<and> List.find (\<lambda>x. al_id x = j) (ad_alerts ?d) = Some b
      \<and> \<not> refresh_changes e b" if "e \<in> set drs" for e
  proof -
    have "e \<in> set (dr # drs)" using that by simp
    from Cons.prems(2)[OF this] obtain j b where j: "by_key (dr_dedupe_key e) = Some j"
      "List.find (\<lambda>x. al_id x = j) (ad_alerts d) = Some b" "\<not> refresh_changes e b" by blast
    have "by_key (dr_dedupe_key e) \<noteq> by_key (dr_dedupe_key dr)"
      using Cons.prems(1) that by (auto simp: image_iff)
    then have "j \<noteq> i" using i(1) j(1) by simp
    then have "List.find (\<lambda>x. al_id x = j) (ad_alerts ?d) = Some b"
      using j(2) find_update_where[of al_id "refreshed_row now dr" j i "ad_alerts d"] by simp
    then show ?thesis using j by blast
  qed
  then have "\<exists>d1. fold (apply_draft now rules by_key) drs (?d, r, f) = (d1, r, f)"
    using Cons.prems(1) by (intro Cons.IH) simp_all
  then show ?case by (simp add: step)
qed simp

subsection \<open>Escalation marks\<close>

lemma dict_get_dict_update_other:
  "map_of e k = None \<Longrightarrow> dict_get (dict_update d e) k = dict_get d k"
proof -
  assume "map_of e k = None"
  then have "map_of (rev e) k = None" by (auto simp: map_of_eq_None_iff)
  then show ?thesis by (simp add: dict_get_def map_of_dict_update)
qed

lemma escalated_refreshed:
  "dict_get (dr_details dr) ''escalated_at'' = None \<Longrightarrow> escalated (refreshed_row now dr a) = escalated a"
  by (simp add: escalated_def refreshed_row_def dict_get_dict_update_other dict_get_def[symmetric])

lemma escalated_refresh_by:
  "(\<And>dr. dr \<in> set drafts \<Longrightarrow> dict_get (dr_details dr) ''escalated_at'' = None) \<Longrightarrow>
    escalated (refresh_by now by_key drafts a) = escalated a"
  by (induction drafts arbitrary: a) (simp_all add: escalated_refreshed)

lemma escalated_row_mark: "escalated (escalated_row now a)"
  by (simp add: escalated_def escalated_row_def dict_get_def AList.update_conv' truthy_opt_def)

lemma to_row_unmarked:
  "dict_get (dr_details dr) ''escalated_at'' = None \<Longrightarrow> \<not> escalated (to_row now i dr rules)"
  by (simp add: escalated_def to_row_def dict_get_dict_update_other truthy_opt_def)

subsection \<open>Details\<close>

text \<open>The details already say what the draft says: entering the draft once more changes no entry.\<close>

definition details_say :: "alert_draft \<Rightarrow> alert_row \<Rightarrow> bool" where
  "details_say dr a \<longleftrightarrow> (\<forall>k v. k \<noteq> ''last_evaluated_at'' \<and> dict_get (dr_details dr) k = Some v \<longrightarrow>
     dict_get (al_details a) k = Some v)"

text \<open>The second row is the first one evaluated again: it differs at most in the time stamp of the evaluation.\<close>

definition only_reevaluated :: "alert_row \<Rightarrow> alert_row \<Rightarrow> bool" where
  "only_reevaluated a b \<longleftrightarrow> b\<lparr>al_details := al_details a\<rparr> = a \<and>
     (\<forall>k. k \<noteq> ''last_evaluated_at'' \<longrightarrow> dict_get (al_details b) k = dict_get (al_details a) k)"

lemma only_reevaluated_refl [simp]: "only_reevaluated a a"
  by (simp add: only_reevaluated_def)

lemma details_ok_simps:
  "details_ok e \<Longrightarrow> dict_get (dict_update d e) k = (case dict_get e k of None \<Rightarrow> dict_get d k | Some v \<Rightarrow> Some v)"
  "details_ok e \<Longrightarrow> dict_get e ''escalated_at'' = None"
  "details_ok e \<Longrightarrow> dict_get e ''source'' = None" "details_ok e \<Longrightarrow> dict_get e ''first_seen_at'' = None"
  by (simp_all add: details_ok_def dict_get_update)

lemma dict_get_stamped:
  "k \<noteq> ''last_evaluated_at'' \<Longrightarrow> dict_get (dict_update d [(''last_evaluated_at'', v)]) k = dict_get d k"
  by (rule dict_get_dict_update_other) simp

lemma refreshed_details_say: "details_ok (dr_details dr) \<Longrightarrow> details_say dr (refreshed_row now dr a)"
  by (simp add: details_say_def refreshed_row_def dict_get_stamped details_ok_simps)

lemma escalated_details_say: "details_ok (dr_details dr) \<Longrightarrow> details_say dr a \<Longrightarrow> details_say dr (escalated_row now a)"
  using details_ok_simps(2)[of "dr_details dr"]
  by (auto simp: details_say_def escalated_row_def dict_get_alist_update)

lemma new_details_say: "details_ok (dr_details dr) \<Longrightarrow> details_say dr (to_row now i dr rules)"
  using details_ok_simps(3,4)[of "dr_details dr"]
  by (auto simp: details_say_def to_row_def dict_get_update split: if_splits)
    (auto simp: dict_get_def)

lemma refreshed_again:
  assumes "details_ok (dr_details dr)" "details_say dr a" "\<not> refresh_changes dr a"
  shows "only_reevaluated a (refreshed_row now dr a)"
  using assms
  by (auto simp: only_reevaluated_def refreshed_row_def refresh_changes_def dict_get_stamped details_ok_simps details_say_def
      split: option.splits)

subsection \<open>What a first sweep leaves behind\<close>

text \<open>An age after which alerts escalate is at least a day, as the schemas of the rules require.\<close>

definition ages_positive :: "rule_map \<Rightarrow> bool" where
  "ages_positive rules \<longleftrightarrow> (\<forall>(k, r) \<in> set rules. case rr_escalate_after_days r of None \<Rightarrow> True | Some n \<Rightarrow> 0 \<le> n)"

lemma ages_positive_rule_for:
  "ages_positive rules \<Longrightarrow> rule_for rules pid ty = Some r \<Longrightarrow> rr_escalate_after_days r = Some n \<Longrightarrow> 0 \<le> n"
  by (fastforce simp: ages_positive_def rule_for_def split: option.splits dest!: map_of_SomeD)

text \<open>The live alert a condition had before the sweep is the one it has after it.\<close>

lemma live_by_key_kept:
  assumes wf: "alerts_wf d" and rec: "reconcile now rules scope drafts out d = Inr (d', out')"
    and ok: "\<And>dr. dr \<in> set drafts \<Longrightarrow> draft_ok rules scope dr"
    and k: "k \<in> dr_dedupe_key ` set drafts" "live_by_key scope d k \<noteq> None"
  shows "live_by_key scope d' k = live_by_key scope d k"
proof -
  let ?seen = "map dr_dedupe_key drafts" and ?by = "live_by_key scope d"
  let ?f = "\<lambda>a. settle now rules ?seen (live_ids scope d) (refresh_by now ?by drafts a)"
  let ?P = "\<lambda>a. al_live a \<and> al_type a \<in> set EVALUATED_TYPES \<and> in_scope scope (al_project_id a) \<and> al_dedupe_key a = k"
  have live: "filter (\<lambda>a. al_dedupe_key a = k) (load_live_alerts scope x) = filter ?P (ad_alerts x)" for x
    by (simp add: load_live_alerts_def conj_ac)
  have kept: "?P (?f a) = ?P a" for a
  proof -
    have "al_dedupe_key a = k \<Longrightarrow> al_status (?f a) = al_status a"
      using k(1) by (auto simp: settle_status retire_due_def)
    then show ?thesis by (auto simp: al_live_def)
  qed
  have "filter ?P (new_rows now rules (ad_next_id d) (new_drafts ?by drafts)) = []"
  proof -
    have "\<not> ?P b" if b: "b \<in> set (new_rows now rules (ad_next_id d) (new_drafts ?by drafts))" for b
    proof -
      obtain dr i where "dr \<in> set (new_drafts ?by drafts)" "b = to_row now i dr rules"
        using new_rows_facts(4)[OF b] by blast
      moreover from this have "take 255 (dr_dedupe_key dr) = dr_dedupe_key dr"
        using ok[of dr] by (simp add: new_drafts_def draft_ok_def)
      ultimately show ?thesis using k(2) by (auto simp: new_drafts_def to_row_def)
    qed
    then show ?thesis by (simp add: filter_empty_conv)
  qed
  then have "filter ?P (ad_alerts d') = map ?f (filter ?P (ad_alerts d))"
    using reconcile_alerts(1)[OF wf rec] kept by (simp add: filter_map comp_def)
  then have "map al_id (filter ?P (ad_alerts d')) = map al_id (filter ?P (ad_alerts d))"
    by simp
  then show ?thesis by (intro id_by_key_cong) (simp only: live)
qed

text \<open>After the sweep the live alert of every condition says what the condition says.\<close>

lemma conditions_recorded:
  assumes wf: "alerts_wf d" and rec: "reconcile now rules scope drafts out d = Inr (d', out')"
    and ok: "\<And>dr. dr \<in> set drafts \<Longrightarrow> draft_ok rules scope dr"
    and dis: "distinct (map dr_dedupe_key drafts)" and dr: "dr \<in> set drafts"
    and a': "live_by_key scope d' (dr_dedupe_key dr) = Some (al_id a')" "a' \<in> set (ad_alerts d')"
    and wf': "alerts_wf d'"
  shows "\<not> refresh_changes dr a' \<and> details_say dr a'"
proof -
  let ?seen = "map dr_dedupe_key drafts" and ?by = "live_by_key scope d"
  have same: "e = dr" if "e \<in> set drafts" "dr_dedupe_key e = dr_dedupe_key dr" for e
    using dis dr that by (auto simp: distinct_map inj_on_def)
  have live': "a' \<in> set (load_live_alerts scope d')" and key: "al_dedupe_key a' = dr_dedupe_key dr"
    using live_by_key_Some[OF wf' a'(1,2)] by auto
  from wf rec a'(2) show ?thesis
  proof (cases rule: reconciled_row)
    case (fresh e i)
    have "dr_dedupe_key e = dr_dedupe_key dr"
      using key fresh(4) ok[OF fresh(1)] by (simp add: to_row_def draft_ok_def)
    then have "e = dr" using same fresh(1) by blast
    then show ?thesis
      using fresh(4) to_row_unmarked[of dr] ok[OF dr]
        new_details_say[of dr now i rules]
      by (simp add: refresh_changes_def refreshed_severity_def draft_ok_def details_ok_simps) (simp add: to_row_def)
  next
    case (stored a)
    have "a \<in> set (load_live_alerts scope d)"
    proof (rule ccontr)
      assume "a \<notin> set (load_live_alerts scope d)"
      moreover from this have "a' = a" using settled_outside[OF wf stored(1)] stored(2) by simp
      ultimately show False using live' stored(1) by (simp add: load_live_alerts_mem)
    qed
    moreover have key_a: "al_dedupe_key a = dr_dedupe_key dr" using key stored(2) by simp
    ultimately have some: "?by (dr_dedupe_key dr) \<noteq> None"
      unfolding id_by_key_None by (metis image_eqI)
    then have "?by (dr_dedupe_key dr) = live_by_key scope d' (dr_dedupe_key dr)"
      using live_by_key_kept[OF wf rec ok _ some] dr by simp
    then have mine: "?by (dr_dedupe_key dr) = Some (al_id a)" using a'(1) stored(2) by simp
    have "refresh_by now ?by drafts a = refreshed_row now dr a"
    proof (rule refresh_by_single)
      show "distinct drafts" using dis by (simp add: distinct_map)
      show "e = dr" if "e \<in> set drafts" "?by (dr_dedupe_key e) = Some (al_id a)" for e
        using live_by_key_Some[OF wf that(2) stored(1)] key_a same[OF that(1)] by simp
    qed (use dr mine in auto)
    moreover have "\<not> retire_due rules ?seen ids (refreshed_row now dr a)" for ids
      using dr key_a by (auto simp: retire_due_def)
    ultimately have final: "a' = refreshed_row now dr a \<or> a' = escalated_row now (refreshed_row now dr a) \<and> \<not> escalated a"
      using stored(2) escalated_refreshed[of dr now a] ok[OF dr]
      by (auto simp: settle_def Let_def escalate_due_def draft_ok_def details_ok_def)
    have "escalated (refreshed_row now dr a) = escalated a"
      using escalated_refreshed ok[OF dr] by (simp add: draft_ok_def details_ok_def)
    moreover have "details_say dr a'"
      using final refreshed_details_say escalated_details_say ok[OF dr] by (auto simp: draft_ok_def)
    ultimately show ?thesis
      using final escalated_row_mark[of now "refreshed_row now dr a"]
      by (auto simp: refresh_changes_def refreshed_severity_def)
        (auto simp: refreshed_row_def escalated_row_def refreshed_severity_def)
  qed
qed

text \<open>No live alert is left to retire or to escalate.\<close>

lemma nothing_left:
  assumes wf: "alerts_wf d" and rec: "reconcile now rules scope drafts out d = Inr (d', out')"
    and ok: "\<And>dr. dr \<in> set drafts \<Longrightarrow> draft_ok rules scope dr" and ages: "ages_positive rules"
    and b: "b \<in> set (load_live_alerts scope d')"
  shows "rule_for rules (al_project_id b) (al_type b) \<noteq> None \<Longrightarrow> al_dedupe_key b \<in> dr_dedupe_key ` set drafts"
    and "\<not> escalate_due now rules (map dr_dedupe_key drafts) ids (refresh_by now by_key drafts b)"
proof -
  let ?seen = "map dr_dedupe_key drafts" and ?ids = "live_ids scope d"
  let ?ra = "\<lambda>a. refresh_by now (live_by_key scope d) drafts a"
  have marks: "escalated (refresh_by now bk drafts a) = escalated a" for bk a
    using ok by (intro escalated_refresh_by) (simp add: draft_ok_def details_ok_def)
  have "b \<in> set (ad_alerts d')" using b by (simp add: load_live_alerts_mem)
  with wf rec have "(rule_for rules (al_project_id b) (al_type b) \<noteq> None \<longrightarrow> al_dedupe_key b \<in> dr_dedupe_key ` set drafts)
    \<and> \<not> escalate_due now rules ?seen ids (refresh_by now by_key drafts b)"
  proof (cases rule: reconciled_row)
    case (fresh dr i)
    have "\<not> escalate_due now rules ?seen ids (refresh_by now by_key drafts b)"
    proof
      assume due: "escalate_due now rules ?seen ids (refresh_by now by_key drafts b)"
      then obtain r n where "rule_for rules (al_project_id b) (al_type b) = Some r"
        "rr_escalate_after_days r = Some n" "n \<noteq> 0" "n \<le> 0"
        using fresh(4) by (auto simp: escalate_due_def to_row_def split: option.splits)
      then show False using ages_positive_rule_for[OF ages] by fastforce
    qed
    then show ?thesis using fresh ok[OF fresh(1)] by (simp add: to_row_def draft_ok_def)
  next
    case (stored a)
    have a: "a \<in> set (load_live_alerts scope d)"
    proof (rule ccontr)
      assume "a \<notin> set (load_live_alerts scope d)"
      moreover from this have "b = a" using settled_outside[OF wf stored(1)] stored(2) by simp
      ultimately show False using b stored(1) by (simp add: load_live_alerts_mem)
    qed
    then have ids: "al_id a \<in> set ?ids" by (simp add: live_ids_def)
    have "al_status b \<noteq> AS_RESOLVED" using b by (auto simp: load_live_alerts_mem al_live_def)
    then have kept: "\<not> retire_due rules ?seen ?ids (?ra a)" using stored(2) by (auto simp: settle_status)
    then have shape: "b = (if escalate_due now rules ?seen ?ids (?ra a) then escalated_row now (?ra a) else ?ra a)"
      using stored(2) by (simp add: settle_def)
    have "\<not> escalate_due now rules ?seen ids (refresh_by now by_key drafts b)"
    proof (cases "escalate_due now rules ?seen ?ids (?ra a)")
      case True
      then have "escalated b" using shape escalated_row_mark by simp
      then show ?thesis using marks[of by_key b] by (simp add: escalate_due_def)
    next
      case False
      then have "b = ?ra a" using shape by simp
      then show ?thesis
        using False ids marks[of by_key "?ra a"] marks[of "live_by_key scope d" a]
        by (simp add: escalate_due_def cong: option.case_cong)
    qed
    moreover have "al_dedupe_key b \<in> dr_dedupe_key ` set drafts"
      if "rule_for rules (al_project_id b) (al_type b) \<noteq> None"
      using kept ids that stored(2) by (auto simp: retire_due_def)
    ultimately show ?thesis by blast
  qed
  then show "rule_for rules (al_project_id b) (al_type b) \<noteq> None \<Longrightarrow> al_dedupe_key b \<in> dr_dedupe_key ` set drafts"
    "\<not> escalate_due now rules ?seen ids (refresh_by now by_key drafts b)"
    by blast+
qed

lemma alerts_wf_after:
  assumes wf: "alerts_wf d" and rec: "reconcile now rules scope drafts out d = Inr (d', out')"
  shows "alerts_wf d'"
proof -
  let ?n = "length (new_drafts (live_by_key scope d) drafts)"
  have ids: "map al_id (ad_alerts d') = map al_id (ad_alerts d) @ [ad_next_id d ..< ad_next_id d + ?n]"
    by (simp add: reconcile_alerts(1)[OF wf rec] new_rows_facts(3) comp_def)
  have "\<forall>i \<in> set (map al_id (ad_alerts d)). i < ad_next_id d" using wf by (simp add: alerts_wf_def)
  then have "distinct (map al_id (ad_alerts d'))" "\<forall>i \<in> set (map al_id (ad_alerts d')). i < ad_next_id d'"
    using wf unfolding ids reconcile_alerts(7)[OF wf rec] by (auto simp: alerts_wf_def)
  then show ?thesis by (simp add: alerts_wf_def)
qed

subsection \<open>The second sweep\<close>

lemma second_reconcile:
  assumes wf: "alerts_wf d" and rec: "reconcile now rules scope drafts out d = Inr (d', out')"
    and ok: "\<And>dr. dr \<in> set drafts \<Longrightarrow> draft_ok rules scope dr" and ages: "ages_positive rules"
    and dis: "distinct (map dr_dedupe_key drafts)"
  shows "\<exists>d''. reconcile now rules scope drafts out d' =
      Inr (d'', out\<lparr>eo_raised := 0, eo_refreshed := 0, eo_retired := 0, eo_escalated := 0\<rparr>)
    \<and> ad_rules d'' = ad_rules d' \<and> ad_audits d'' = ad_audits d' \<and> ad_next_id d'' = ad_next_id d'
    \<and> list_all2 only_reevaluated (ad_alerts d') (ad_alerts d'')"
proof -
  let ?by = "live_by_key scope d'" and ?ids = "live_ids scope d'" and ?seen = "map dr_dedupe_key drafts"
  note wf' = alerts_wf_after[OF wf rec]
  have current: "\<exists>i a. ?by (dr_dedupe_key dr) = Some i \<and> List.find (\<lambda>x. al_id x = i) (ad_alerts d') = Some a
      \<and> \<not> refresh_changes dr a \<and> details_say dr a" if dr: "dr \<in> set drafts" for dr
  proof -
    have "?by (dr_dedupe_key dr) \<noteq> None"
      using drafts_have_alerts[OF wf rec ok[OF dr] dr] unfolding id_by_key_None by (metis image_eqI)
    then obtain i where i: "?by (dr_dedupe_key dr) = Some i" by blast
    then obtain a where "a \<in> set (load_live_alerts scope d')" "al_id a = i" using id_by_key_Some by blast
    then have a: "a \<in> set (ad_alerts d')" "?by (dr_dedupe_key dr) = Some (al_id a)"
      using i by (simp_all add: load_live_alerts_mem)
    have "List.find (\<lambda>x. al_id x = al_id a) (ad_alerts d') = Some a"
      using wf' a(1) by (intro find_unique) (simp_all add: alerts_wf_def)
    then show ?thesis using a conditions_recorded[OF wf rec ok dis dr a(2,1) wf'] by blast
  qed
  have "distinct (map (\<lambda>dr. ?by (dr_dedupe_key dr)) drafts)"
  proof -
    have "inj_on (\<lambda>dr. ?by (dr_dedupe_key dr)) (set drafts)"
    proof (rule inj_onI)
      fix e dr assume e: "e \<in> set drafts" "dr \<in> set drafts" "?by (dr_dedupe_key e) = ?by (dr_dedupe_key dr)"
      obtain i a where i: "?by (dr_dedupe_key dr) = Some i" "List.find (\<lambda>x. al_id x = i) (ad_alerts d') = Some a"
        using current[OF e(2)] by blast
      then have a: "a \<in> set (ad_alerts d')" "i = al_id a" using find_SomeD by fastforce+
      have "al_dedupe_key a = dr_dedupe_key dr" "al_dedupe_key a = dr_dedupe_key e"
        using live_by_key_Some[OF wf' _ a(1), of scope "dr_dedupe_key dr"]
          live_by_key_Some[OF wf' _ a(1), of scope "dr_dedupe_key e"] i(1) e(3) a(2) by auto
      then show "e = dr" using dis e(1,2) by (auto simp: distinct_map inj_on_def)
    qed
    then show ?thesis using dis by (simp add: distinct_map)
  qed
  from quiet_pass[OF this] current obtain d1 where
    pass: "fold (apply_draft now rules ?by) drafts (d', 0, 0) = (d1, 0, 0)" by blast
  have known: "i < ad_next_id d'" if "?by k = Some i" for k i
    using id_by_key_Some[OF that] wf' by (auto simp: load_live_alerts_mem alerts_wf_def)
  note after = drafts_pass[OF known order_refl pass]
  have alerts: "ad_alerts d1 = map (refresh_by now ?by drafts) (ad_alerts d')"
    using after(1,2) by simp
  have again: "only_reevaluated b (refresh_by now ?by drafts b)" if b: "b \<in> set (ad_alerts d')" for b
  proof (cases "\<exists>dr \<in> set drafts. ?by (dr_dedupe_key dr) = Some (al_id b)")
    case True
    then obtain dr where dr: "dr \<in> set drafts" "?by (dr_dedupe_key dr) = Some (al_id b)" by blast
    have one: "e = dr" if "e \<in> set drafts" "?by (dr_dedupe_key e) = Some (al_id b)" for e
    proof -
      have "dr_dedupe_key e = dr_dedupe_key dr"
        using live_by_key_Some[OF wf' that(2) b] live_by_key_Some[OF wf' dr(2) b] by simp
      moreover have "inj_on dr_dedupe_key (set drafts)" using dis by (simp add: distinct_map)
      ultimately show ?thesis using that(1) dr(1) by (blast dest: inj_onD)
    qed
    have "distinct drafts" using dis by (simp add: distinct_map)
    then have "refresh_by now ?by drafts b = refreshed_row now dr b"
      by (rule refresh_by_single[where drafts = drafts and by_key = ?by, OF _ dr one])
    moreover have "\<not> refresh_changes dr b \<and> details_say dr b"
      by (rule conditions_recorded[OF wf rec ok dis dr(1,2) b wf'])
    ultimately show ?thesis using refreshed_again ok[OF dr(1)] by (simp add: draft_ok_def)
  next
    case False
    then show ?thesis using refresh_by_untouched[of drafts ?by b] by simp
  qed
  have quiet: "\<not> retire_due rules ?seen ?ids (refresh_by now ?by drafts b)
      \<and> \<not> escalate_due now rules ?seen ?ids (refresh_by now ?by drafts b)" if b: "b \<in> set (ad_alerts d')" for b
  proof (cases "b \<in> set (load_live_alerts scope d')")
    case True
    then show ?thesis using nothing_left[OF wf rec ok ages True] by (auto simp: retire_due_def)
  next
    case False
    then have "al_id b \<notin> set ?ids" using live_id_iff[OF wf' b] by simp
    then show ?thesis by (simp add: retire_due_def escalate_due_def)
  qed
  have "update_where (retire_due rules ?seen ?ids) (retired_row now) (ad_alerts d1) = ad_alerts d1"
    "update_where (escalate_due now rules ?seen ?ids) (escalated_row now) (ad_alerts d1) = ad_alerts d1"
    by (rule update_where_none; use quiet alerts in auto)+
  moreover have "filter (retire_due rules ?seen ?ids) (ad_alerts d1) = []"
    "filter (escalate_due now rules ?seen ?ids) (ad_alerts d1) = []"
    using quiet alerts by (auto simp: filter_empty_conv)
  moreover have "open_keys_unique (ad_alerts d1)" "rule_keys_unique (ad_rules d1)"
  proof -
    have "map al_dedupe_key (filter al_open (ad_alerts d1)) = map al_dedupe_key (filter al_open (ad_alerts d'))"
      by (simp add: alerts filter_map comp_def al_open_def[abs_def])
    then show "open_keys_unique (ad_alerts d1)"
      using reconcile_alerts(5)[OF wf rec] by (simp add: open_keys_unique_def)
    show "rule_keys_unique (ad_rules d1)" using after(3) reconcile_alerts(6)[OF wf rec] by simp
  qed
  moreover have "list_all2 only_reevaluated (ad_alerts d') (ad_alerts d1)"
    using again by (simp add: alerts list_all2_conv_all_nth)
  ultimately show ?thesis
    using pass after(2-5) by (simp add: reconcile_def Let_def live_ids_def flush_alerts_def)
qed

text \<open>C7: the sweep is idempotent. Run a second time at the same moment over the same estate, it reports that it
  raised, refreshed, retired and escalated nothing, and it is right: no row is added or removed, and every row is what
  it was, up to the time stamp of its last evaluation among the details, which the rows the first sweep raised did
  not carry yet. The rules, the audit rows and the next identifier are untouched. It assumes that no two conditions
  share a key and that no rule escalates alerts of a negative age.\<close>

theorem sweep_is_idempotent:
  assumes wf: "alerts_wf d" "estate_wf es" "ages_positive (load_rules (ad_rules d))"
    and run: "run_evaluator now today scope es d = Inr (d', out)"
    and keys: "\<And>drafts o0. collect (load_rules (ad_rules d)) scope today es = Inr (drafts, o0) \<Longrightarrow>
      distinct (map dr_dedupe_key drafts)"
  shows "\<exists>d'' out'. run_evaluator now today scope es d' = Inr (d'', out') \<and> \<not> outcome_changed out'
    \<and> ad_rules d'' = ad_rules d' \<and> ad_audits d'' = ad_audits d' \<and> ad_next_id d'' = ad_next_id d'
    \<and> list_all2 only_reevaluated (ad_alerts d') (ad_alerts d'')"
proof (cases "load_rules (ad_rules d) = []")
  case True
  then have "d' = d" "out = no_outcome" using run by (simp_all add: run_evaluator_def)
  then show ?thesis using run by (auto simp: outcome_changed_def no_outcome_def list_all2_refl)
next
  case False
  let ?rules = "load_rules (ad_rules d)"
  obtain drafts o0 where found: "collect ?rules scope today es = Inr (drafts, o0)"
    and rec: "reconcile now ?rules scope drafts o0 d = Inr (d', out)"
    using run_evaluator_steps[OF run False] by blast
  have rules: "load_rules (ad_rules d') = ?rules" using reconcile_alerts(3)[OF wf(1) rec] by simp
  obtain d'' where "reconcile now ?rules scope drafts o0 d' =
      Inr (d'', o0\<lparr>eo_raised := 0, eo_refreshed := 0, eo_retired := 0, eo_escalated := 0\<rparr>)"
    "ad_rules d'' = ad_rules d'" "ad_audits d'' = ad_audits d'" "ad_next_id d'' = ad_next_id d'"
    "list_all2 only_reevaluated (ad_alerts d') (ad_alerts d'')"
    using second_reconcile[OF wf(1) rec collect_ok[OF wf(2) found] wf(3) keys[OF found]] by blast
  then show ?thesis
    using found False by (simp add: run_evaluator_def rules outcome_changed_def)
qed

theorem sweep_is_idempotent_witness:
  "\<exists>d' d'' out out'. run_evaluator 86400000000 738900 None fx_estate fx_alerts = Inr (d', out)
    \<and> outcome_changed out \<and> run_evaluator 86400000000 738900 None fx_estate d' = Inr (d'', out') \<and> \<not> outcome_changed out'
    \<and> list_all2 only_reevaluated (ad_alerts d') (ad_alerts d'')"
proof -
  let ?run = "run_evaluator 86400000000 738900 None fx_estate fx_alerts"
  have "map_sum id (outcome_changed \<circ> snd) ?run = (Inr True :: exn + bool)" by code_simp
  then obtain d' out where run: "?run = Inr (d', out)" "outcome_changed out" by (cases ?run) auto
  have "ages_positive (load_rules (ad_rules fx_alerts))"
    by (simp add: ages_positive_def fx_alerts_def load_rules_def fx_rule_def resolve_rule_def evaluated_types)
  moreover have "distinct (map dr_dedupe_key drafts)"
    if "collect (load_rules (ad_rules fx_alerts)) None 738900 fx_estate = Inr (drafts, o0)" for drafts o0
    using that fx_collect fx_draft_keys by auto
  ultimately show ?thesis
    using sweep_is_idempotent[OF fx_wf(1,2) _ run(1)] run by blast
qed

subsection \<open>Deadlines\<close>

text \<open>an expiry is warned about exactly from the day it enters the window to the day of expiry. The
  warning is never milder than its rule, whatever the thresholds, and as the day comes closer it only
  sharpens.\<close>

theorem expiry_warning_only_sharpens:
  assumes "md_expiration_date md = Some expiry" "today \<le> later"
    and "evaluate_expiring c md rule today = Inr r" "evaluate_expiring c md rule later = Inr r'"
  shows "(r \<noteq> None \<longleftrightarrow> 0 \<le> expiry - today \<and> expiry - today \<le> rule_int rule ''window_days'' 90)
    \<and> (\<forall>dr. r = Some dr \<longrightarrow> rr_severity rule \<le> dr_severity dr \<and> dr_due_date dr = Some expiry)
    \<and> (\<forall>dr dr'. r = Some dr \<longrightarrow> r' = Some dr' \<longrightarrow> dr_severity dr \<le> dr_severity dr' \<and> dr_dedupe_key dr = dr_dedupe_key dr')"
proof -
  define sev where "sev = (\<lambda>day. if expiry - day \<le> rule_int rule ''critical_days'' 7 then max (rr_severity rule) SV_CRITICAL
      else if expiry - day \<le> rule_int rule ''escalate_days'' 30 then max (rr_severity rule) SV_HIGH else rr_severity rule)"
  have shape: "x = Some dr \<Longrightarrow> evaluate_expiring c md rule day = Inr x \<Longrightarrow> dr_severity dr = sev day
      \<and> dr_due_date dr = Some expiry \<and> dr_dedupe_key dr = ''expiring:'' @ uuid_str (c_id c) @ '':'' @ iso_date expiry"
    for x dr day
    using assms(1) by (auto simp: evaluate_expiring_def sev_def Let_def split: if_splits)
  have "SV_HIGH \<le> SV_CRITICAL" by (simp add: less_eq_alert_severity_def)
  then have "sev today \<le> sev later" "rr_severity rule \<le> sev today"
    using assms(2) by (auto simp: sev_def max_def)
  moreover have "r \<noteq> None \<longleftrightarrow> 0 \<le> expiry - today \<and> expiry - today \<le> rule_int rule ''window_days'' 90"
    using assms(1,3) by (auto simp: evaluate_expiring_def Let_def split: if_splits)
  ultimately show ?thesis using shape assms(3,4) by metis
qed

theorem expiry_warning_only_sharpens_witness:
  "evaluate_expiring fx_estate_contract fx_metadata (resolve_rule fx_rule) 738700 = Inr None
    \<and> (\<exists>dr. evaluate_expiring fx_estate_contract fx_metadata (resolve_rule fx_rule) 738905 = Inr (Some dr)
        \<and> SV_MEDIUM \<le> dr_severity dr)"
proof -
  have early: "evaluate_expiring fx_estate_contract fx_metadata (resolve_rule fx_rule) 738700 = Inr None"
    by code_simp
  have "isl (evaluate_expiring fx_estate_contract fx_metadata (resolve_rule fx_rule) 738905) = False"
    by code_simp
  then obtain r where r: "evaluate_expiring fx_estate_contract fx_metadata (resolve_rule fx_rule) 738905 = Inr r"
    by (cases "evaluate_expiring fx_estate_contract fx_metadata (resolve_rule fx_rule) 738905") auto
  have "rule_int (resolve_rule fx_rule) ''window_days'' 90 = 90" "rr_severity (resolve_rule fx_rule) = SV_MEDIUM"
    by code_simp+
  moreover have "md_expiration_date fx_metadata = Some 738910" by (simp add: fx_metadata_def)
  ultimately show ?thesis
    using expiry_warning_only_sharpens[OF _ _ r r, of 738910] early r by auto
qed

end
