(* ===== verification/Resilience.thy ===== *)
theory Resilience
  imports Complex_Main Prelude
begin

text \<open>
  Retry, backoff and deadline of one inference call, \<^verbatim>\<open>backend/app/ai/resilience.py\<close>.

  The operation is a parameter: what its n-th invocation returns or raises, and how long it takes.
  \<open>asyncio.wait_for\<close> turns an invocation that outlasts the timeout of an attempt into a
  \<open>TimeoutError\<close> raised when the timeout elapses. Seconds are real numbers (the code's floats without
  their rounding); the clock advances only inside an invocation and while sleeping, and
  \<open>random.uniform(0, c)\<close> is a draw in the unit interval, scaled. Metrics and log lines are left out.
\<close>

subsection \<open>Errors and their classification\<close>

text \<open>
  What \<open>classify_retryable\<close> can tell apart: the builtin timeout, the provider errors of
  \<^verbatim>\<open>core/errors.py\<close>, and any other exception by the name of its class and its \<open>status_code\<close>.
\<close>

datatype call_exn =
    TimeoutError
  | ProviderRateLimitError
  | ProviderUnavailableError
  | ProviderError bool
  | OtherError string "int option"

definition REASON_TIMEOUT :: string where "REASON_TIMEOUT = ''timeout''"
definition REASON_RATE_LIMIT :: string where "REASON_RATE_LIMIT = ''rate_limit''"
definition REASON_TRANSPORT :: string where "REASON_TRANSPORT = ''transport''"
definition REASON_SERVER :: string where "REASON_SERVER = ''server''"

definition transport_names :: "string list" where
  "transport_names = [''APIConnectionError'', ''APITimeoutError'', ''ConnectError'', ''ConnectTimeout'',
     ''ReadTimeout'', ''RemoteProtocolError'', ''PoolTimeout'']"

fun classify_retryable :: "call_exn \<Rightarrow> string option" where
  "classify_retryable TimeoutError = Some REASON_TIMEOUT"
| "classify_retryable ProviderRateLimitError = Some REASON_RATE_LIMIT"
| "classify_retryable ProviderUnavailableError = Some REASON_SERVER"
| "classify_retryable (ProviderError retryable) = (if retryable then Some REASON_SERVER else None)"
| "classify_retryable (OtherError name status_code) =
     (if name \<in> set transport_names
      then if contains_sub ''Timeout'' name then Some REASON_TIMEOUT else Some REASON_TRANSPORT
      else if name = ''RateLimitError'' then Some REASON_RATE_LIMIT
      else if name = ''InternalServerError'' \<or> name = ''APIStatusError''
      then (case status_code of
              Some status \<Rightarrow> if status \<ge> 500 then Some REASON_SERVER else None
            | None \<Rightarrow> None)
      else None)"

subsection \<open>Backoff and the retry loop\<close>

text \<open>\<open>backoff_delay\<close> with the default cap of a minute; \<open>draw\<close> is the random draw.\<close>

definition backoff_ceiling :: "nat \<Rightarrow> real \<Rightarrow> real" where
  "backoff_ceiling attempt base = min 60 (base * 2 ^ (attempt - 1))"

definition backoff_delay :: "real \<Rightarrow> nat \<Rightarrow> real \<Rightarrow> real" where
  "backoff_delay draw attempt base = draw * backoff_ceiling attempt base"

record call_outcome =
  co_attempts :: nat
  co_retries :: nat
  co_total_seconds :: real
  co_last_reason :: "string option"
  co_reasons :: "string list"

definition fresh_outcome :: call_outcome where
  "fresh_outcome = \<lparr>co_attempts = 0, co_retries = 0, co_total_seconds = 0, co_last_reason = None,
     co_reasons = []\<rparr>"

text \<open>The arguments and settings of a call, and the draws of its jitter.\<close>

record call_env =
  ce_max_attempts :: "int option"
  ce_max_retries :: int
  ce_retry_backoff :: real
  ce_timeout :: real
  ce_deadline :: "real option"
  ce_draw :: "nat \<Rightarrow> real"

text \<open>The n-th invocation: its result and its duration.\<close>

type_synonym 'a operation = "nat \<Rightarrow> (call_exn + 'a) \<times> real"

definition attempts_allowed :: "call_env \<Rightarrow> nat" where
  "attempts_allowed c = nat (max 1 (case ce_max_attempts c of Some m \<Rightarrow> m | None \<Rightarrow> ce_max_retries c + 1))"

text \<open>\<open>float(getattr(settings, "retry_backoff_seconds", 1.0) or 1.0)\<close>.\<close>

definition backoff_base :: "call_env \<Rightarrow> real" where
  "backoff_base c = (if ce_retry_backoff c = 0 then 1 else ce_retry_backoff c)"

definition wait_for :: "real \<Rightarrow> 'a operation \<Rightarrow> 'a operation" where
  "wait_for timeout op n = (if snd (op n) > timeout then (Inl TimeoutError, timeout) else op n)"

text \<open>The test that abandons a retry the deadline would cut off.\<close>

definition past_deadline :: "call_env \<Rightarrow> real \<Rightarrow> real \<Rightarrow> bool" where
  "past_deadline c spent delay = (case ce_deadline c of None \<Rightarrow> False
     | Some deadline \<Rightarrow> spent + delay + ce_timeout c > deadline)"

definition note_retry :: "string \<Rightarrow> call_outcome \<Rightarrow> call_outcome" where
  "note_retry reason out = out\<lparr>co_retries := co_retries out + 1, co_last_reason := Some reason,
     co_reasons := co_reasons out @ [reason]\<rparr>"

text \<open>
  The loop, entered at \<open>attempt\<close> when \<open>spent\<close> seconds have passed. It gives the outcome record
  with what is returned or raised.
\<close>

function attempt_loop :: "call_env \<Rightarrow> 'a operation \<Rightarrow> nat \<Rightarrow> real \<Rightarrow> call_outcome \<Rightarrow> call_outcome \<times> (call_exn + 'a)" where
  "attempt_loop c op attempt spent outcome =
     (let (result, took) = wait_for (ce_timeout c) op attempt;
          out = outcome\<lparr>co_attempts := attempt\<rparr>;
          spent = spent + took
      in case result of
           Inr v \<Rightarrow> (out\<lparr>co_total_seconds := spent\<rparr>, Inr v)
         | Inl e \<Rightarrow>
             (case classify_retryable e of
                None \<Rightarrow> (out\<lparr>co_total_seconds := spent\<rparr>, Inl e)
              | Some reason \<Rightarrow>
                  if attempt \<ge> attempts_allowed c then (out\<lparr>co_total_seconds := spent\<rparr>, Inl e)
                  else let delay = backoff_delay (ce_draw c attempt) attempt (backoff_base c)
                       in if past_deadline c spent delay
                          then (out\<lparr>co_total_seconds := spent\<rparr>, Inl e)
                          else attempt_loop c op (attempt + 1) (spent + delay) (note_retry reason out)))"
  by pat_completeness auto
termination
  by (relation "measure (\<lambda>(c, op, attempt, spent, outcome). attempts_allowed c - attempt)") auto

definition call_with_retries :: "call_env \<Rightarrow> 'a operation \<Rightarrow> call_outcome \<times> (call_exn + 'a)" where
  "call_with_retries c op = attempt_loop c op 1 0 fresh_outcome"

declare attempt_loop.simps [simp del]

subsection \<open>Laws of the loop\<close>

text \<open>What an attempt that is not the last one saw.\<close>

definition transient :: "call_env \<Rightarrow> 'a operation \<Rightarrow> nat \<Rightarrow> bool" where
  "transient c op n = (case fst (wait_for (ce_timeout c) op n) of
     Inr _ \<Rightarrow> False | Inl e \<Rightarrow> classify_retryable e \<noteq> None)"

lemma at_least_one_attempt [simp]: "0 < attempts_allowed c" "Suc 0 \<le> attempts_allowed c"
  by (simp_all add: attempts_allowed_def)

text \<open>The loop unfolds to its last attempt, or to one retry.\<close>

lemma attempt_loop_step:
  obtains (stop) "attempt_loop c op n t out =
      (out\<lparr>co_attempts := n, co_total_seconds := t + snd (wait_for (ce_timeout c) op n)\<rparr>,
       fst (wait_for (ce_timeout c) op n))"
    "transient c op n \<Longrightarrow> n < attempts_allowed c \<Longrightarrow>
       past_deadline c (t + snd (wait_for (ce_timeout c) op n))
         (backoff_delay (ce_draw c n) n (backoff_base c))"
  | (retry) reason where "attempt_loop c op n t out =
      attempt_loop c op (n + 1)
        (t + snd (wait_for (ce_timeout c) op n) + backoff_delay (ce_draw c n) n (backoff_base c))
        (note_retry reason (out\<lparr>co_attempts := n\<rparr>))"
    "transient c op n" "n < attempts_allowed c"
    "\<not> past_deadline c (t + snd (wait_for (ce_timeout c) op n))
         (backoff_delay (ce_draw c n) n (backoff_base c))"
proof -
  obtain result took where r: "wait_for (ce_timeout c) op n = (result, took)"
    by (cases "wait_for (ce_timeout c) op n") auto
  let ?delay = "backoff_delay (ce_draw c n) n (backoff_base c)"
  show thesis
  proof (cases result)
    case (Inr v)
    then show thesis
      using r by (intro stop) (simp_all add: attempt_loop.simps transient_def)
  next
    case (Inl e)
    show thesis
    proof (cases "classify_retryable e")
      case None
      then show thesis
        using r Inl by (intro stop) (simp_all add: attempt_loop.simps transient_def)
    next
      case (Some reason)
      consider "n \<ge> attempts_allowed c"
        | "n < attempts_allowed c" "past_deadline c (t + took) ?delay"
        | "n < attempts_allowed c" "\<not> past_deadline c (t + took) ?delay"
        by linarith
      then show thesis
      proof cases
        case 1
        then show thesis
          using r Inl Some by (intro stop) (simp_all add: attempt_loop.simps)
      next
        case 2
        then show thesis
          using r Inl Some by (intro stop) (simp_all add: attempt_loop.simps Let_def)
      next
        case 3
        then show thesis
          using r Inl Some
          by (intro retry[of reason]) (simp_all add: attempt_loop.simps Let_def transient_def)
      qed
    qed
  qed
qed

lemma note_retry_simps [simp]:
  "co_retries (note_retry r out) = co_retries out + 1"
  "co_reasons (note_retry r out) = co_reasons out @ [r]"
  by (simp_all add: note_retry_def)

text \<open>The seconds that have passed when the \<open>k\<close>-th attempt ends: the attempts and the delays between them. With
  it, the condition under which the loop stops at an attempt.\<close>

definition spent_after :: "call_env \<Rightarrow> 'a operation \<Rightarrow> nat \<Rightarrow> real" where
  "spent_after c op k = (\<Sum>i = 1 .. k. snd (wait_for (ce_timeout c) op i))
     + (\<Sum>i = 1 ..< k. backoff_delay (ce_draw c i) i (backoff_base c))"

definition cut_off :: "call_env \<Rightarrow> 'a operation \<Rightarrow> nat \<Rightarrow> bool" where
  "cut_off c op k \<longleftrightarrow> past_deadline c (spent_after c op k) (backoff_delay (ce_draw c k) k (backoff_base c))"

definition gives_up :: "call_env \<Rightarrow> 'a operation \<Rightarrow> nat \<Rightarrow> bool" where
  "gives_up c op k \<longleftrightarrow> \<not> transient c op k \<or> attempts_allowed c \<le> k \<or> cut_off c op k"

lemma spent_after_one [simp]: "spent_after c op (Suc 0) = snd (wait_for (ce_timeout c) op 1)"
  by (simp add: spent_after_def)

lemma spent_after_next:
  "1 \<le> n \<Longrightarrow> spent_after c op (n + 1) =
    spent_after c op n + backoff_delay (ce_draw c n) n (backoff_base c) + snd (wait_for (ce_timeout c) op (n + 1))"
  by (simp add: spent_after_def)

lemma attempt_loop_history:
  assumes "1 \<le> n" "n \<le> attempts_allowed c" "t + snd (wait_for (ce_timeout c) op n) = spent_after c op n"
    "attempt_loop c op n t out = (out', res)"
  shows "n \<le> co_attempts out' \<and> co_attempts out' \<le> attempts_allowed c
    \<and> res = fst (wait_for (ce_timeout c) op (co_attempts out'))
    \<and> (\<forall>i \<in> {n ..< co_attempts out'}. \<not> gives_up c op i) \<and> gives_up c op (co_attempts out')
    \<and> co_total_seconds out' = spent_after c op (co_attempts out')
    \<and> co_retries out' = co_retries out + (co_attempts out' - n)
    \<and> length (co_reasons out') = length (co_reasons out) + (co_attempts out' - n)"
  using assms
proof (induction "attempts_allowed c - n" arbitrary: n t out rule: less_induct)
  case less
  note now = less.prems(3)
  show ?case
  proof (cases rule: attempt_loop_step[of c op n t out])
    case stop
    then have "gives_up c op n"
      unfolding gives_up_def cut_off_def now by force
    then show ?thesis using stop(1) less.prems now by auto
  next
    case (retry reason)
    let ?t = "t + snd (wait_for (ce_timeout c) op n) + backoff_delay (ce_draw c n) n (backoff_base c)"
    have go_on: "\<not> gives_up c op n"
      using retry(2-4) unfolding gives_up_def cut_off_def now by simp
    have "attempt_loop c op (n + 1) ?t (note_retry reason (out\<lparr>co_attempts := n\<rparr>)) = (out', res)"
      using retry(1) less.prems(4) by simp
    moreover have "?t + snd (wait_for (ce_timeout c) op (n + 1)) = spent_after c op (n + 1)"
      using spent_after_next[OF less.prems(1), of c op] now by simp
    ultimately have later: "n + 1 \<le> co_attempts out'" "co_attempts out' \<le> attempts_allowed c"
      "res = fst (wait_for (ce_timeout c) op (co_attempts out'))"
      "\<forall>i \<in> {n + 1 ..< co_attempts out'}. \<not> gives_up c op i" "gives_up c op (co_attempts out')"
      "co_total_seconds out' = spent_after c op (co_attempts out')"
      "co_retries out' = co_retries out + 1 + (co_attempts out' - (n + 1))"
      "length (co_reasons out') = length (co_reasons out) + 1 + (co_attempts out' - (n + 1))"
      using less.hyps[of "n + 1" ?t "note_retry reason (out\<lparr>co_attempts := n\<rparr>)"] retry(3) by auto
    have "\<forall>i \<in> {n ..< co_attempts out'}. \<not> gives_up c op i"
      using later(4) go_on by (metis Suc_eq_plus1 atLeastLessThan_iff le_neq_implies_less Suc_leI)
    then show ?thesis using later by auto
  qed
qed

lemma call_history:
  assumes "call_with_retries c op = (out, res)"
  shows "1 \<le> co_attempts out" "co_attempts out \<le> attempts_allowed c"
    "res = fst (wait_for (ce_timeout c) op (co_attempts out))"
    "\<forall>i \<in> {1 ..< co_attempts out}. \<not> gives_up c op i" "gives_up c op (co_attempts out)"
    "co_total_seconds out = spent_after c op (co_attempts out)"
    "co_retries out = co_attempts out - 1" "length (co_reasons out) = co_attempts out - 1"
proof -
  have "attempt_loop c op 1 0 fresh_outcome = (out, res)"
    using assms by (simp add: call_with_retries_def)
  from attempt_loop_history[OF _ _ _ this] show "1 \<le> co_attempts out" "co_attempts out \<le> attempts_allowed c"
    "res = fst (wait_for (ce_timeout c) op (co_attempts out))"
    "\<forall>i \<in> {1 ..< co_attempts out}. \<not> gives_up c op i" "gives_up c op (co_attempts out)"
    "co_total_seconds out = spent_after c op (co_attempts out)"
    "co_retries out = co_attempts out - 1" "length (co_reasons out) = co_attempts out - 1"
    by (simp_all add: fresh_outcome_def)
qed


subsection \<open>Time\<close>

definition unit_draws :: "call_env \<Rightarrow> bool" where
  "unit_draws c \<longleftrightarrow> (\<forall>n. 0 \<le> ce_draw c n \<and> ce_draw c n \<le> 1)"

definition backoff_total :: "call_env \<Rightarrow> nat \<Rightarrow> real" where
  "backoff_total c k = (\<Sum>i = 1 ..< k. backoff_ceiling i (backoff_base c))"

lemma backoff_ceiling_bounds:
  "0 \<le> base \<Longrightarrow> 0 \<le> backoff_ceiling n base \<and> backoff_ceiling n base \<le> 60"
  by (simp add: backoff_ceiling_def)

lemma backoff_delay_bounds:
  assumes "unit_draws c" "0 \<le> ce_retry_backoff c"
  shows "0 \<le> backoff_delay (ce_draw c n) n (backoff_base c)
    \<and> backoff_delay (ce_draw c n) n (backoff_base c) \<le> backoff_ceiling n (backoff_base c)"
proof -
  have "0 \<le> backoff_base c" using assms(2) by (simp add: backoff_base_def)
  then have "0 \<le> backoff_ceiling n (backoff_base c)" by (simp add: backoff_ceiling_bounds)
  then show ?thesis
    using assms(1) by (simp add: backoff_delay_def unit_draws_def mult_left_le_one_le)
qed

lemma wait_for_duration: "snd (wait_for timeout op n) \<le> timeout"
  by (simp add: wait_for_def)

lemma attempt_loop_time:
  assumes "1 \<le> n" "unit_draws c" "0 \<le> ce_retry_backoff c"
    "t \<le> real (n - 1) * ce_timeout c + backoff_total c n"
  shows "co_total_seconds (fst (attempt_loop c op n t out))
    \<le> real (co_attempts (fst (attempt_loop c op n t out))) * ce_timeout c
      + backoff_total c (co_attempts (fst (attempt_loop c op n t out)))"
  using assms
proof (induction "attempts_allowed c - n" arbitrary: n t out rule: less_induct)
  case less
  let ?took = "snd (wait_for (ce_timeout c) op n)"
  let ?delay = "backoff_delay (ce_draw c n) n (backoff_base c)"
  have split_n: "real n * ce_timeout c = real (n - 1) * ce_timeout c + ce_timeout c"
    using less.prems(1) by (cases n) (simp_all add: algebra_simps)
  have after: "t + ?took \<le> real n * ce_timeout c + backoff_total c n"
    using less.prems(4) wait_for_duration[of "ce_timeout c" op n] split_n by linarith
  show ?case
  proof (cases rule: attempt_loop_step[of c op n t out])
    case stop
    show ?thesis by (subst (1 2 3) stop(1)) (use after in simp)
  next
    case (retry reason)
    have "backoff_total c (n + 1) = backoff_total c n + backoff_ceiling n (backoff_base c)"
      using less.prems(1) by (simp add: backoff_total_def)
    then have budget: "t + ?took + ?delay \<le> real (n + 1 - 1) * ce_timeout c + backoff_total c (n + 1)"
      using after backoff_delay_bounds[OF less.prems(2,3), of n] by simp
    show ?thesis
      unfolding retry(1) by (rule less.hyps) (use retry(3) less.prems(2,3) budget in simp_all)
  qed
qed

lemma attempt_loop_deadline:
  assumes "ce_deadline c = Some deadline" "t + ce_timeout c \<le> max deadline (ce_timeout c)"
  shows "co_total_seconds (fst (attempt_loop c op n t out)) \<le> max deadline (ce_timeout c)"
  using assms
proof (induction "attempts_allowed c - n" arbitrary: n t out rule: less_induct)
  case less
  show ?case
  proof (cases rule: attempt_loop_step[of c op n t out])
    case stop
    have "t + snd (wait_for (ce_timeout c) op n) \<le> t + ce_timeout c"
      by (simp add: wait_for_duration)
    also note less.prems(2)
    finally show ?thesis by (subst stop(1)) simp
  next
    case (retry reason)
    have "t + snd (wait_for (ce_timeout c) op n) + backoff_delay (ce_draw c n) n (backoff_base c)
        + ce_timeout c \<le> deadline"
      using retry(4) less.prems(1) by (simp add: past_deadline_def)
    then have fits: "t + snd (wait_for (ce_timeout c) op n) + backoff_delay (ce_draw c n) n (backoff_base c)
        + ce_timeout c \<le> max deadline (ce_timeout c)" by (rule max.coboundedI1)
    show ?thesis
      unfolding retry(1) by (rule less.hyps) (use retry(3) less.prems(1) fits in simp_all)
  qed
qed

subsection \<open>Properties\<close>

text \<open>C9: a call retries exactly the transient failures it may. It ends with its first attempt that succeeds,
  fails with an error a retry can not help, is the last one allowed, or leaves no room before the deadline for the
  delay and one more attempt; every attempt before that one failed transiently and was retried, once each. The caller
  gets exactly what that last attempt returned or raised, and the recorded time is the time the attempts and delays took.\<close>

theorem only_transient_failures_are_retried:
  assumes "call_with_retries c op = (out, res)"
  shows "1 \<le> co_attempts out \<and> co_attempts out \<le> attempts_allowed c
    \<and> (\<forall>i \<in> {1 ..< co_attempts out}. transient c op i \<and> \<not> cut_off c op i)
    \<and> (\<not> transient c op (co_attempts out) \<or> co_attempts out = attempts_allowed c \<or> cut_off c op (co_attempts out))
    \<and> res = fst (wait_for (ce_timeout c) op (co_attempts out))
    \<and> co_total_seconds out = spent_after c op (co_attempts out)
    \<and> co_retries out = co_attempts out - 1 \<and> length (co_reasons out) = co_attempts out - 1"
  using call_history[OF assms] by (auto simp: gives_up_def)

text \<open>A provider that is rate limited twice and then answers.\<close>

definition fx_call :: call_env where
  "fx_call = \<lparr>ce_max_attempts = None, ce_max_retries = 3, ce_retry_backoff = 1, ce_timeout = 90,
     ce_deadline = None, ce_draw = (\<lambda>_. 1)\<rparr>"

definition fx_op :: "nat operation" where
  "fx_op n = (if n < 3 then (Inl ProviderRateLimitError, 2) else (Inr n, 5))"

lemma fx_call_result:
  "call_with_retries fx_call fx_op =
    (\<lparr>co_attempts = 3, co_retries = 2, co_total_seconds = 12, co_last_reason = Some REASON_RATE_LIMIT,
      co_reasons = [REASON_RATE_LIMIT, REASON_RATE_LIMIT]\<rparr>, Inr 3)"
  by (simp add: call_with_retries_def attempt_loop.simps wait_for_def fx_op_def fx_call_def
      attempts_allowed_def past_deadline_def note_retry_def fresh_outcome_def backoff_delay_def
      backoff_ceiling_def backoff_base_def Let_def)

theorem only_transient_failures_are_retried_witness:
  "transient fx_call fx_op 1 \<and> transient fx_call fx_op 2 \<and> fst (wait_for 90 fx_op 3) = Inr 3"
  using only_transient_failures_are_retried[OF fx_call_result]
  by (simp add: fx_call_def)



text \<open>how long a call can take. With a deadline it ends within the deadline, or within one attempt
  where the attempt alone is longer; without one it ends within its attempts at the full timeout plus
  the backoff ceilings between them. No caller passes a deadline, so the second bound is the one that
  holds in the program.\<close>

theorem call_duration_is_bounded:
  assumes "unit_draws c" "0 \<le> ce_retry_backoff c"
  shows "co_total_seconds (fst (call_with_retries c op)) \<le>
    (case ce_deadline c of
       Some deadline \<Rightarrow> max deadline (ce_timeout c)
     | None \<Rightarrow> real (co_attempts (fst (call_with_retries c op))) * ce_timeout c
         + backoff_total c (co_attempts (fst (call_with_retries c op))))"
proof (cases "ce_deadline c")
  case None
  have "0 \<le> real (1 - 1) * ce_timeout c + backoff_total c 1" by (simp add: backoff_total_def)
  from attempt_loop_time[OF _ assms this, of op fresh_outcome] show ?thesis
    by (simp add: call_with_retries_def None)
next
  case (Some deadline)
  then show ?thesis
    using attempt_loop_deadline[OF Some, of 0 op 1 fresh_outcome] by (simp add: call_with_retries_def)
qed

theorem call_duration_is_bounded_witness:
  "co_total_seconds (fst (call_with_retries fx_call fx_op)) \<le> 3 * 90 + backoff_total fx_call 3"
  using call_duration_is_bounded[of fx_call fx_op] fx_call_result
  by (simp add: unit_draws_def fx_call_def)

end
