(* ===== verification/AlertService.thy ===== *)
theory AlertService
  imports Resilience AlertLaws
begin

text \<open>
  Operational alerts: the event and its levels (\<^verbatim>\<open>backend/app/alerting/base.py\<close>), the fan-out to the
  notification channels with its retries (\<^verbatim>\<open>backend/app/alerting/dispatcher.py\<close>), and the service that
  persists an alert and dispatches it (\<^verbatim>\<open>backend/app/services/alerts.py\<close>). A channel is a parameter:
  what its n-th delivery attempt does and how long it takes. Seconds are real numbers. Settings, the
  request's correlation ids and the host name are arguments.
\<close>

subsection \<open>Levels, categories and events\<close>

datatype alert_level = LV_INFO | LV_WARNING | LV_ERROR | LV_CRITICAL

fun level_value :: "alert_level \<Rightarrow> string" where
  "level_value LV_INFO = ''INFO''"
| "level_value LV_WARNING = ''WARNING''"
| "level_value LV_ERROR = ''ERROR''"
| "level_value LV_CRITICAL = ''CRITICAL''"

fun level_rank :: "alert_level \<Rightarrow> nat" where
  "level_rank LV_INFO = 0"
| "level_rank LV_WARNING = 1"
| "level_rank LV_ERROR = 2"
| "level_rank LV_CRITICAL = 3"

definition level_at_least :: "alert_level \<Rightarrow> alert_level \<Rightarrow> bool" where
  "level_at_least lv minimum \<longleftrightarrow> level_rank lv \<ge> level_rank minimum"

fun to_alert_severity :: "alert_level \<Rightarrow> alert_severity" where
  "to_alert_severity LV_INFO = SV_INFO"
| "to_alert_severity LV_WARNING = SV_MEDIUM"
| "to_alert_severity LV_ERROR = SV_HIGH"
| "to_alert_severity LV_CRITICAL = SV_CRITICAL"

datatype alert_category =
    AC_DOCUMENT_PROCESSING | AC_PARSER | AC_OCR | AC_AI_EXTRACTION | AC_EMBEDDING | AC_LLM | AC_QUEUE
  | AC_WORKER_CRASH | AC_SCHEDULER | AC_DATABASE | AC_STORAGE | AC_UNHANDLED_EXCEPTION | AC_CRITICAL_SYSTEM

fun category_value :: "alert_category \<Rightarrow> string" where
  "category_value AC_DOCUMENT_PROCESSING = ''document_processing''"
| "category_value AC_PARSER = ''parser''"
| "category_value AC_OCR = ''ocr''"
| "category_value AC_AI_EXTRACTION = ''ai_extraction''"
| "category_value AC_EMBEDDING = ''embedding''"
| "category_value AC_LLM = ''llm''"
| "category_value AC_QUEUE = ''queue''"
| "category_value AC_WORKER_CRASH = ''worker_crash''"
| "category_value AC_SCHEDULER = ''scheduler''"
| "category_value AC_DATABASE = ''database''"
| "category_value AC_STORAGE = ''storage''"
| "category_value AC_UNHANDLED_EXCEPTION = ''unhandled_exception''"
| "category_value AC_CRITICAL_SYSTEM = ''critical_system''"

text \<open>The guidance texts of \<open>_RESOLUTIONS\<close> are an argument; no other code reads them.\<close>

record alert_event =
  ev_level :: alert_level
  ev_category :: alert_category
  ev_title :: string
  ev_message :: string
  ev_timestamp :: instant
  ev_environment :: string
  ev_project_id :: "uuid option"
  ev_document_id :: "uuid option"
  ev_job_id :: "uuid option"
  ev_correlation_id :: "string option"
  ev_trace_id :: "string option"
  ev_stage :: "string option"
  ev_exception_type :: "string option"
  ev_retry_count :: int
  ev_worker_name :: "string option"
  ev_host_name :: string
  ev_suggested_resolution :: "string option"
  ev_details :: dict

definition event_dedupe_key :: "alert_event \<Rightarrow> string" where
  "event_dedupe_key ev = join '':'' [category_value (ev_category ev),
     (case ev_document_id ev of Some u \<Rightarrow> uuid_str u
      | None \<Rightarrow> (case ev_project_id ev of Some u \<Rightarrow> uuid_str u | None \<Rightarrow> ''global'')),
     (case ev_stage ev of Some s \<Rightarrow> if s = [] then ''-'' else s | None \<Rightarrow> ''-'')]"

subsection \<open>Delivery\<close>

text \<open>What one attempt to send does: it succeeds, raises, or is cancelled from outside.\<close>

datatype send_result = Sent | SendFailed | SendCancelled

record provider =
  pv_name :: string
  pv_send :: "alert_event \<Rightarrow> nat \<Rightarrow> send_result \<times> real"

record dispatcher =
  ds_providers :: "provider list"
  ds_min_level :: alert_level
  ds_max_attempts :: nat
  ds_backoff :: real
  ds_backoff_max :: real
  ds_timeout :: real
  ds_enabled :: bool

definition make_dispatcher :: "provider list \<Rightarrow> alert_level \<Rightarrow> int \<Rightarrow> real \<Rightarrow> real \<Rightarrow> real \<Rightarrow> bool \<Rightarrow> dispatcher" where
  "make_dispatcher ps min_level max_attempts backoff backoff_max timeout enabled =
     \<lparr>ds_providers = ps, ds_min_level = min_level, ds_max_attempts = nat (max 1 max_attempts),
      ds_backoff = max 0 backoff, ds_backoff_max = max 0 backoff_max, ds_timeout = timeout,
      ds_enabled = enabled\<rparr>"

definition should_dispatch :: "dispatcher \<Rightarrow> alert_event \<Rightarrow> bool" where
  "should_dispatch ds ev \<longleftrightarrow> ds_enabled ds \<and> ds_providers ds \<noteq> [] \<and> level_at_least (ev_level ev) (ds_min_level ds)"

text \<open>\<open>asyncio.timeout\<close> around one attempt: outlasting it is a failure when it elapses.\<close>

definition timed_send :: "dispatcher \<Rightarrow> provider \<Rightarrow> alert_event \<Rightarrow> nat \<Rightarrow> send_result \<times> real" where
  "timed_send ds p ev n =
     (if snd (pv_send p ev n) > ds_timeout ds then (SendFailed, ds_timeout ds) else pv_send p ev n)"

record delivery =
  dl_result :: "bool option"
  dl_attempts :: nat
  dl_seconds :: real

text \<open>\<open>_deliver\<close> from an attempt on: whether it delivered (\<open>None\<close> when cancelled, which is raised),
  how many attempts it made and how long it took.\<close>

function deliver_from :: "dispatcher \<Rightarrow> provider \<Rightarrow> alert_event \<Rightarrow> nat \<Rightarrow> real \<Rightarrow> real \<Rightarrow> delivery" where
  "deliver_from ds p ev attempt delay spent =
     (case timed_send ds p ev attempt of
        (Sent, t) \<Rightarrow> \<lparr>dl_result = Some True, dl_attempts = attempt, dl_seconds = spent + t\<rparr>
      | (SendCancelled, t) \<Rightarrow> \<lparr>dl_result = None, dl_attempts = attempt, dl_seconds = spent + t\<rparr>
      | (SendFailed, t) \<Rightarrow>
          if attempt \<ge> ds_max_attempts ds
          then \<lparr>dl_result = Some False, dl_attempts = attempt, dl_seconds = spent + t\<rparr>
          else deliver_from ds p ev (attempt + 1)
                 (if delay \<noteq> 0 then min (delay * 2) (ds_backoff_max ds) else 0)
                 (spent + t + (if delay > 0 then delay else 0)))"
  by pat_completeness auto
termination
  by (relation "measure (\<lambda>(ds, p, ev, attempt, delay, spent). ds_max_attempts ds - attempt)") auto

declare deliver_from.simps [simp del]

definition deliver :: "dispatcher \<Rightarrow> alert_event \<Rightarrow> provider \<Rightarrow> delivery" where
  "deliver ds ev p = deliver_from ds p ev 1 (ds_backoff ds) 0"

text \<open>\<open>dispatch\<close>: the outcome by provider name. \<open>gather(return_exceptions=True)\<close> keeps a cancelled
  delivery as an exception object, which is not \<open>True\<close>.\<close>

definition dispatch :: "dispatcher \<Rightarrow> alert_event \<Rightarrow> (string \<times> bool) list" where
  "dispatch ds ev =
     (if \<not> should_dispatch ds ev then []
      else fold (\<lambda>p outcome. AList.update (pv_name p) (dl_result (deliver ds ev p) = Some True) outcome)
             (ds_providers ds) [])"

subsection \<open>The service\<close>

definition CATEGORY_STAGES :: "(alert_category \<times> pipeline_stage list) list" where
  "CATEGORY_STAGES = [(AC_PARSER, [PS_PARSER]), (AC_EMBEDDING, [PS_EMBEDDING]),
     (AC_AI_EXTRACTION, [PS_DOCPIPELINE, PS_EXTRACTION, PS_AI_EXTRACTION]),
     (AC_DOCUMENT_PROCESSING, [PS_VALIDATION, PS_INDEXING, PS_ENRICHMENT, PS_CLASSIFICATION, PS_CHUNKING])]"

definition STAGE_CATEGORY :: "(string \<times> alert_category) list" where
  "STAGE_CATEGORY = concat (map (\<lambda>(c, sts). map (\<lambda>st. (stage_value st, c)) sts) CATEGORY_STAGES)"

definition CRITICAL_ERROR_CODES :: "string list" where
  "CRITICAL_ERROR_CODES = [''database_error'', ''storage_error'', ''configuration_error'', ''queue_error'']"

definition CODE_CATEGORY :: "(string \<times> alert_category) list" where
  "CODE_CATEGORY = [(''database_error'', AC_DATABASE), (''storage_error'', AC_STORAGE),
     (''queue_error'', AC_QUEUE), (''parser_error'', AC_PARSER), (''ocr_error'', AC_OCR),
     (''llm_error'', AC_LLM), (''embedding_error'', AC_EMBEDDING)]"

record alert_outcome =
  ao_raised :: bool
  ao_persisted :: bool
  ao_deduplicated :: bool
  ao_alert_id :: "uuid option"
  ao_delivered :: "(string \<times> bool) list"

definition opt_json :: "string option \<Rightarrow> json" where
  "opt_json v = (case v of None \<Rightarrow> JNull | Some s \<Rightarrow> JStr s)"

definition event_details :: "alert_event \<Rightarrow> dict" where
  "event_details ev = dict_update (ev_details ev)
     [(''level'', JStr (level_value (ev_level ev))), (''category'', JStr (category_value (ev_category ev))),
      (''stage'', opt_json (ev_stage ev)), (''exception_type'', opt_json (ev_exception_type ev)),
      (''retry_count'', JInt (ev_retry_count ev)), (''correlation_id'', opt_json (ev_correlation_id ev)),
      (''trace_id'', opt_json (ev_trace_id ev)), (''worker_name'', opt_json (ev_worker_name ev)),
      (''host_name'', JStr (ev_host_name ev)),
      (''suggested_resolution'', opt_json (ev_suggested_resolution ev)),
      (''occurred_at'', JStr (iso_instant (ev_timestamp ev)))]"

definition open_row :: "string \<Rightarrow> alert_db \<Rightarrow> alert_row option" where
  "open_row k d = List.find (\<lambda>a. al_dedupe_key a = k \<and> al_status a = AS_OPEN) (ad_alerts d)"

text \<open>The count of an existing row: an absent one is 1; \<open>None\<close> where \<open>int()\<close> raises.\<close>

definition occurrences :: "alert_row \<Rightarrow> int option" where
  "occurrences a = (case dict_get (al_details a) ''occurrences'' of None \<Rightarrow> Some 1 | Some v \<Rightarrow> int_of_json v)"

definition first_seen :: "alert_event \<Rightarrow> alert_row \<Rightarrow> json" where
  "first_seen ev a = (case dict_get (al_details a) ''first_seen_at'' of
     None \<Rightarrow> JStr (iso_instant (ev_timestamp ev)) | Some v \<Rightarrow> v)"

definition repeated_row :: "alert_event \<Rightarrow> int \<Rightarrow> alert_row \<Rightarrow> alert_row" where
  "repeated_row ev n a = a\<lparr>al_message := ev_message ev, al_severity := to_alert_severity (ev_level ev),
     al_details := dict_update (event_details ev)
       [(''occurrences'', JInt (n + 1)), (''first_seen_at'', first_seen ev a)]\<rparr>"

definition raised_row :: "instant \<Rightarrow> alert_event \<Rightarrow> alert_type \<Rightarrow> uuid \<Rightarrow> uuid \<Rightarrow> alert_row" where
  "raised_row now ev ty pid new_id =
     \<lparr>al_id = new_id, al_project_id = pid, al_contract_id = ev_document_id ev, al_type = ty,
      al_severity = to_alert_severity (ev_level ev), al_status = AS_OPEN, al_title = take 255 (ev_title ev),
      al_message = ev_message ev,
      al_details = dict_update (event_details ev) [(''occurrences'', JInt 1),
        (''first_seen_at'', JStr (iso_instant (ev_timestamp ev)))],
      al_due_date = None, al_dedupe_key = take 255 (event_dedupe_key ev), al_rule_id = None,
      al_acknowledged_at = None, al_acknowledged_by = None, al_resolved_at = None, al_note = None,
      al_created_at = now\<rparr>"

text \<open>\<open>_persist\<close>, for an event with a project: the id of the row, and whether it was there already.
  The message and severity of an existing row are assigned before its count is read, so they stay
  assigned when the count is not a number.\<close>

definition persist :: "instant \<Rightarrow> alert_event \<Rightarrow> alert_type \<Rightarrow> uuid \<Rightarrow> alert_db \<Rightarrow> alert_db \<times> (exn + uuid \<times> bool)" where
  "persist now ev ty pid d =
     (case open_row (event_dedupe_key ev) d of
        Some a \<Rightarrow>
          (case occurrences a of
             None \<Rightarrow> (d\<lparr>ad_alerts := update_where (\<lambda>x. al_id x = al_id a)
                 (\<lambda>x. x\<lparr>al_message := ev_message ev, al_severity := to_alert_severity (ev_level ev)\<rparr>) (ad_alerts d)\<rparr>,
               Inl (PyErr ''ValueError'' ''invalid literal for int()''))
           | Some n \<Rightarrow>
               (case flush_alerts (d\<lparr>ad_alerts := update_where (\<lambda>x. al_id x = al_id a) (repeated_row ev n) (ad_alerts d)\<rparr>) of
                  Inl e \<Rightarrow> (d, Inl e)
                | Inr d1 \<Rightarrow> (d1, Inr (al_id a, True))))
      | None \<Rightarrow>
          (case flush_alerts (d\<lparr>ad_alerts := ad_alerts d @ [raised_row now ev ty pid (ad_next_id d)],
               ad_next_id := Suc (ad_next_id d)\<rparr>) of
             Inl e \<Rightarrow> (d, Inl e)
           | Inr d1 \<Rightarrow> (d1, Inr (ad_next_id d, False))))"

text \<open>\<open>raise_event\<close>. \<open>session\<close> says whether there is a database session; what persisting raises is
  logged.\<close>

definition raise_event :: "instant \<Rightarrow> dispatcher \<Rightarrow> bool \<Rightarrow> alert_type \<Rightarrow> bool \<Rightarrow> alert_event \<Rightarrow> alert_db \<Rightarrow>
    alert_db \<times> alert_outcome" where
  "raise_event now ds session ty want ev d =
     (let base = \<lparr>ao_raised = True, ao_persisted = False, ao_deduplicated = False, ao_alert_id = None,
                  ao_delivered = dispatch ds ev\<rparr>
      in case ev_project_id ev of
           None \<Rightarrow> (d, base)
         | Some pid \<Rightarrow>
             if \<not> (want \<and> session) then (d, base)
             else case persist now ev ty pid d of
               (d1, Inl e) \<Rightarrow> (d1, base)
             | (d1, Inr (i, dup)) \<Rightarrow>
                 (d1, base\<lparr>ao_persisted := True, ao_deduplicated := dup, ao_alert_id := Some i\<rparr>))"

text \<open>The structured error payload of a job row, and the ambient context of \<open>_event\<close>.\<close>

record ambient =
  am_environment :: string
  am_correlation_id :: "string option"
  am_trace_id :: "string option"
  am_worker_name :: "string option"
  am_host_name :: string
  am_resolution :: "alert_category \<Rightarrow> string"

definition text_or :: "dict \<Rightarrow> string \<Rightarrow> string \<Rightarrow> string" where
  "text_or d k dflt = (case dict_get d k of None \<Rightarrow> dflt | Some v \<Rightarrow> if truthy v then py_str v else dflt)"

definition failure_category :: "string \<Rightarrow> string \<Rightarrow> alert_category" where
  "failure_category code stage = (case map_of CODE_CATEGORY code of
     Some c \<Rightarrow> c
   | None \<Rightarrow> (case map_of STAGE_CATEGORY stage of Some c \<Rightarrow> c | None \<Rightarrow> AC_DOCUMENT_PROCESSING))"

definition failure_level :: "string \<Rightarrow> alert_level" where
  "failure_level code = (if code \<in> set CRITICAL_ERROR_CODES then LV_CRITICAL else LV_ERROR)"

definition json_dict :: "json option \<Rightarrow> dict" where
  "json_dict v = (case v of Some (JObj d) \<Rightarrow> d | _ \<Rightarrow> [])"

text \<open>The event of a terminal stage failure. \<open>label\<close> is the title of the contract; the error's
  \<open>attempt\<close> is a number or absent, its \<open>details\<close> an object, as the runner writes them.\<close>

definition failure_event :: "ambient \<Rightarrow> instant \<Rightarrow> string \<Rightarrow> uuid \<Rightarrow> uuid \<Rightarrow> string \<Rightarrow> dict \<Rightarrow> uuid option \<Rightarrow> alert_event" where
  "failure_event am now label cid pid stage error job_id =
     (let code = text_or error ''code'' ''pipeline_error''; category = failure_category code stage in
      \<lparr>ev_level = failure_level code, ev_category = category,
       ev_title = stage @ '' failed for '' @ label,
       ev_message = text_or error ''message'' ''Processing failed.'', ev_timestamp = now,
       ev_environment = am_environment am, ev_project_id = Some pid, ev_document_id = Some cid,
       ev_job_id = job_id, ev_correlation_id = am_correlation_id am, ev_trace_id = am_trace_id am,
       ev_stage = Some stage,
       ev_exception_type = Some (text_or error ''exception'' code),
       ev_retry_count = (case dict_get error ''attempt'' of Some (JInt n) \<Rightarrow> n | _ \<Rightarrow> 0),
       ev_worker_name = am_worker_name am, ev_host_name = am_host_name am,
       ev_suggested_resolution = Some (am_resolution am category),
       ev_details = dict_update [(''error_code'', JStr code),
           (''retryable'', JBool (truthy_opt (dict_get error ''retryable'')))]
         (json_dict (dict_get error ''details''))\<rparr>)"

definition raise_processing_failure :: "ambient \<Rightarrow> dispatcher \<Rightarrow> bool \<Rightarrow> instant \<Rightarrow> string \<Rightarrow> uuid \<Rightarrow> uuid \<Rightarrow> string \<Rightarrow> dict \<Rightarrow>
    uuid option \<Rightarrow> alert_db \<Rightarrow> alert_db \<times> alert_outcome" where
  "raise_processing_failure am ds session now label cid pid stage error job_id d =
     raise_event now ds session AT_PROCESSING_FAILED True (failure_event am now label cid pid stage error job_id) d"

subsection \<open>Delivery\<close>

text \<open>The loop stops with what its attempt gave, or goes on to the next one.\<close>

lemma deliver_from_stop:
  assumes "timed_send ds p ev n = (res, took)" "\<not> (res = SendFailed \<and> n < ds_max_attempts ds)"
  shows "deliver_from ds p ev n delay t =
    \<lparr>dl_result = (case res of Sent \<Rightarrow> Some True | SendFailed \<Rightarrow> Some False | SendCancelled \<Rightarrow> None),
     dl_attempts = n, dl_seconds = t + took\<rparr>"
  using assms by (subst deliver_from.simps) (cases res; simp)

text \<open>The attempts before \<open>k\<close> that a delivery survives are the ones that failed.\<close>

lemma deliver_from_history:
  assumes "n \<le> ds_max_attempts ds"
  shows "n \<le> dl_attempts (deliver_from ds p ev n delay t)
    \<and> dl_attempts (deliver_from ds p ev n delay t) \<le> ds_max_attempts ds
    \<and> (\<forall>i \<in> {n ..< dl_attempts (deliver_from ds p ev n delay t)}. fst (timed_send ds p ev i) = SendFailed)
    \<and> dl_result (deliver_from ds p ev n delay t) =
        (case fst (timed_send ds p ev (dl_attempts (deliver_from ds p ev n delay t))) of
           Sent \<Rightarrow> Some True | SendFailed \<Rightarrow> Some False | SendCancelled \<Rightarrow> None)
    \<and> (fst (timed_send ds p ev (dl_attempts (deliver_from ds p ev n delay t))) = SendFailed \<longrightarrow>
        dl_attempts (deliver_from ds p ev n delay t) = ds_max_attempts ds)"
  using assms
proof (induction "ds_max_attempts ds - n" arbitrary: n delay t rule: less_induct)
  case less
  obtain res took where r: "timed_send ds p ev n = (res, took)" by fastforce
  let ?next = "deliver_from ds p ev (n + 1) (if delay \<noteq> 0 then min (delay * 2) (ds_backoff_max ds) else 0)
    (t + took + (if delay > 0 then delay else 0))"
  show ?case
  proof (cases "res = SendFailed \<and> n < ds_max_attempts ds")
    case False
    then have "res = SendFailed \<longrightarrow> n = ds_max_attempts ds" using less.prems by auto
    then show ?thesis
      unfolding deliver_from_stop[OF r False] using less.prems r by simp
  next
    case True
    then have step: "deliver_from ds p ev n delay t = ?next"
      using r by (simp add: deliver_from.simps[of ds p ev n])
    have later: "n + 1 \<le> dl_attempts ?next \<and> dl_attempts ?next \<le> ds_max_attempts ds
        \<and> (\<forall>i \<in> {n + 1 ..< dl_attempts ?next}. fst (timed_send ds p ev i) = SendFailed)
        \<and> dl_result ?next = (case fst (timed_send ds p ev (dl_attempts ?next)) of
             Sent \<Rightarrow> Some True | SendFailed \<Rightarrow> Some False | SendCancelled \<Rightarrow> None)
        \<and> (fst (timed_send ds p ev (dl_attempts ?next)) = SendFailed \<longrightarrow> dl_attempts ?next = ds_max_attempts ds)"
      by (rule less.hyps) (use True in auto)
    moreover have "fst (timed_send ds p ev n) = SendFailed" using r True by simp
    ultimately have "\<forall>i \<in> {n ..< dl_attempts ?next}. fst (timed_send ds p ev i) = SendFailed"
      by (metis Suc_eq_plus1 Suc_leI atLeastLessThan_iff le_neq_implies_less)
    then show ?thesis using later unfolding step by auto
  qed
qed

lemma deliver_from_time:
  assumes "0 \<le> delay" "delay \<le> B" "ds_backoff_max ds \<le> B" "0 \<le> ds_backoff_max ds" "1 \<le> n"
    and "t \<le> real (n - 1) * (ds_timeout ds + B)"
  shows "dl_seconds (deliver_from ds p ev n delay t)
    \<le> real (dl_attempts (deliver_from ds p ev n delay t)) * (ds_timeout ds + B)"
  using assms
proof (induction "ds_max_attempts ds - n" arbitrary: n delay t rule: less_induct)
  case less
  obtain res took where r: "timed_send ds p ev n = (res, took)" by fastforce
  let ?delay = "if delay \<noteq> 0 then min (delay * 2) (ds_backoff_max ds) else 0"
  let ?t = "t + took + (if delay > 0 then delay else 0)"
  have "took \<le> ds_timeout ds" using r by (auto simp: timed_send_def split: if_splits)
  moreover have "real n * (ds_timeout ds + B) = real (n - 1) * (ds_timeout ds + B) + (ds_timeout ds + B)"
    using less.prems(5) by (cases n) (simp_all add: algebra_simps)
  ultimately have now: "?t \<le> real n * (ds_timeout ds + B)" "t + took \<le> real n * (ds_timeout ds + B)"
    using less.prems by auto
  show ?case
  proof (cases "res = SendFailed \<and> n < ds_max_attempts ds")
    case False
    then show ?thesis using now(2) by (simp add: deliver_from_stop[OF r False])
  next
    case True
    then have step: "deliver_from ds p ev n delay t = deliver_from ds p ev (n + 1) ?delay ?t"
      using r by (simp add: deliver_from.simps[of ds p ev n])
    show ?thesis
      unfolding step by (rule less.hyps) (use True less.prems(1-5) now(1) in auto)
  qed
qed

text \<open>delivery to a channel never raises but for a cancellation, makes at most the configured number
  of attempts, retries only what failed, and reports success exactly when the last attempt was sent.
  It ends within its attempts at the timeout plus the longer of the two backoff bounds.\<close>

theorem delivery_is_bounded_and_honest:
  fixes ds :: dispatcher and ev :: alert_event and p :: provider
  assumes "ds = make_dispatcher ps lv n b bm timeout on" "0 \<le> timeout"
  defines "r \<equiv> deliver ds ev p"
  shows "1 \<le> dl_attempts r \<and> dl_attempts r \<le> nat (max 1 n)
    \<and> (\<forall>i \<in> {1 ..< dl_attempts r}. fst (timed_send ds p ev i) = SendFailed)
    \<and> (dl_result r = Some True \<longleftrightarrow> fst (timed_send ds p ev (dl_attempts r)) = Sent)
    \<and> (dl_result r = Some False \<longrightarrow> dl_attempts r = nat (max 1 n))
    \<and> (dl_result r = None \<longleftrightarrow> fst (timed_send ds p ev (dl_attempts r)) = SendCancelled)
    \<and> dl_seconds r \<le> real (dl_attempts r) * (timeout + max (max 0 b) (max 0 bm))"
proof -
  have d: "ds_max_attempts ds = nat (max 1 n)" "ds_timeout ds = timeout"
    "ds_backoff ds = max 0 b" "ds_backoff_max ds = max 0 bm"
    by (simp_all add: assms(1) make_dispatcher_def)
  have "1 \<le> ds_max_attempts ds" by (simp add: d)
  from deliver_from_history[OF this, of p ev "ds_backoff ds" 0]
  have h: "1 \<le> dl_attempts r" "dl_attempts r \<le> nat (max 1 n)"
    "\<forall>i \<in> {1 ..< dl_attempts r}. fst (timed_send ds p ev i) = SendFailed"
    "dl_result r = (case fst (timed_send ds p ev (dl_attempts r)) of
       Sent \<Rightarrow> Some True | SendFailed \<Rightarrow> Some False | SendCancelled \<Rightarrow> None)"
    "fst (timed_send ds p ev (dl_attempts r)) = SendFailed \<longrightarrow> dl_attempts r = nat (max 1 n)"
    by (simp_all add: r_def deliver_def d(1))
  have "dl_seconds r \<le> real (dl_attempts r) * (ds_timeout ds + max (ds_backoff ds) (ds_backoff_max ds))"
    unfolding r_def deliver_def by (rule deliver_from_time) (simp_all add: d)
  then have "dl_seconds r \<le> real (dl_attempts r) * (timeout + max (max 0 b) (max 0 bm))"
    by (simp only: d)
  then show ?thesis
    using h by (cases "fst (timed_send ds p ev (dl_attempts r))") simp_all
qed

text \<open>A channel that answers at the third attempt.\<close>

definition fx_channel :: provider where
  "fx_channel = \<lparr>pv_name = ''slack'', pv_send = (\<lambda>ev n. if n < 3 then (SendFailed, 1) else (Sent, 1))\<rparr>"

text \<open>the outcome of a dispatch. A suppressed event reaches no channel; otherwise every channel is
  tried and the map says, under each channel's name, whether that channel delivered. Channels that
  share a name share one entry, the last one's.\<close>

theorem dispatch_reports_every_channel:
  "map_of (dispatch ds ev) nm =
    (if should_dispatch ds ev then
       map_option (\<lambda>p. dl_result (deliver ds ev p) = Some True)
         (List.find (\<lambda>p. pv_name p = nm) (rev (ds_providers ds)))
     else None)"
proof -
  let ?step = "\<lambda>p outcome. AList.update (pv_name p) (dl_result (deliver ds ev p) = Some True) outcome"
  have "map_of (fold ?step ps m) nm = (case List.find (\<lambda>p. pv_name p = nm) (rev ps) of
      None \<Rightarrow> map_of m nm | Some p \<Rightarrow> Some (dl_result (deliver ds ev p) = Some True))" for ps m
    by (induction ps arbitrary: m) (auto simp: find_append AList.update_conv' split: option.splits)
  then show ?thesis by (simp add: dispatch_def split: option.splits)
qed

subsection \<open>One row per open condition\<close>

interpretation repetition: alert_change "repeated_row ev n" for ev n
  by unfold_locales (simp add: repeated_row_def alert_identity_def)

text \<open>The open rows of a key.\<close>

definition open_rows :: "string \<Rightarrow> alert_db \<Rightarrow> alert_row list" where
  "open_rows k d = filter (\<lambda>a. al_dedupe_key a = k \<and> al_status a = AS_OPEN) (ad_alerts d)"

lemma open_row_open_rows: "open_row k d = (case open_rows k d of [] \<Rightarrow> None | a # as \<Rightarrow> Some a)"
proof -
  have "List.find P xs = (case filter P xs of [] \<Rightarrow> None | a # as \<Rightarrow> Some a)" for P and xs :: "alert_row list"
    by (induction xs) auto
  then show ?thesis by (simp add: open_row_def open_rows_def)
qed

definition counted :: "int \<Rightarrow> alert_row \<Rightarrow> bool" where
  "counted n a \<longleftrightarrow> dict_get (al_details a) ''occurrences'' = Some (JInt n)"

lemma repeated_row_counted: "counted (n + 1) (repeated_row ev n a)"
  by (simp add: counted_def repeated_row_def dict_get_update) (simp add: dict_get_def)

lemma raised_row_counted: "counted 1 (raised_row now ev ty pid i)"
  by (simp add: counted_def raised_row_def dict_get_update) (simp add: dict_get_def)

lemma dict_get_first_seen:
  "dict_get (al_details (repeated_row ev n a)) ''first_seen_at'' = Some (first_seen ev a)"
  by (simp add: repeated_row_def dict_get_update) (simp add: dict_get_def)

lemma open_keys_unique_update:
  assumes "\<And>a. al_dedupe_key (f a) = al_dedupe_key a" "\<And>a. al_status (f a) = al_status a"
  shows "open_keys_unique (update_where P f as) = open_keys_unique as"
proof -
  have "map al_dedupe_key (filter al_open (update_where P f as)) = map al_dedupe_key (filter al_open as)"
    by (induction as) (auto simp: update_where_def al_open_def assms)
  then show ?thesis by (simp add: open_keys_unique_def)
qed

text \<open>The tables the service works on: unique ids, open keys and rules.\<close>

definition alert_db_ok :: "alert_db \<Rightarrow> bool" where
  "alert_db_ok d \<longleftrightarrow> alerts_wf d \<and> open_keys_unique (ad_alerts d) \<and> rule_keys_unique (ad_rules d)"

text \<open>Persisting an event whose open row is \<open>a\<close>, counted \<open>n\<close> times: the same row, counted once more.\<close>

lemma persist_repeat:
  assumes ok: "alert_db_ok d" and row: "open_rows (event_dedupe_key ev) d = [a]" and n: "counted n a"
  shows "\<exists>d1. persist now ev ty pid d = (d1, Inr (al_id a, True)) \<and> alert_db_ok d1
    \<and> open_rows (event_dedupe_key ev) d1 = [repeated_row ev n a]"
proof -
  let ?as = "update_where (\<lambda>x. al_id x = al_id a) (repeated_row ev n) (ad_alerts d)"
  have find: "open_row (event_dedupe_key ev) d = Some a" by (simp add: open_row_open_rows row)
  have mem: "a \<in> set (ad_alerts d)" using row by (metis list.set_intros(1) open_rows_def filter_is_subset subsetD)
  have same: "x = a" if "x \<in> set (ad_alerts d)" "al_id x = al_id a" for x
    using ok mem that by (auto simp: alert_db_ok_def alerts_wf_def distinct_map inj_on_def)
  have status: "al_status (repeated_row ev n x) = al_status x" for x by (simp add: repeated_row_def)
  have uniq: "open_keys_unique ?as"
    using ok by (subst open_keys_unique_update) (simp_all add: status alert_db_ok_def)
  have occ: "occurrences a = Some n" using n by (simp add: occurrences_def counted_def)
  have run: "persist now ev ty pid d = (d\<lparr>ad_alerts := ?as\<rparr>, Inr (al_id a, True))"
    using uniq ok by (simp add: persist_def find occ flush_alerts_def alert_db_ok_def)
  have "filter (\<lambda>x. al_dedupe_key x = event_dedupe_key ev \<and> al_status x = AS_OPEN) ?as
      = map (\<lambda>x. if al_id x = al_id a then repeated_row ev n x else x) (open_rows (event_dedupe_key ev) d)"
    by (simp add: open_rows_def update_where_def filter_map comp_def status if_distrib cong: if_cong)
  then have "open_rows (event_dedupe_key ev) (d\<lparr>ad_alerts := ?as\<rparr>) = [repeated_row ev n a]"
    by (simp add: open_rows_def row[unfolded open_rows_def])
  moreover have "alert_db_ok (d\<lparr>ad_alerts := ?as\<rparr>)"
    using ok uniq by (auto simp: alert_db_ok_def alerts_wf_def repetition.ids_kept set_update_where)
  ultimately show ?thesis using run by blast
qed

lemma persist_first:
  assumes ok: "alert_db_ok d" and none: "open_rows (event_dedupe_key ev) d = []"
    and short: "length (event_dedupe_key ev) \<le> 255"
  shows "\<exists>d1 i. persist now ev ty pid d = (d1, Inr (i, False)) \<and> alert_db_ok d1 \<and> i = ad_next_id d
    \<and> open_rows (event_dedupe_key ev) d1 = [raised_row now ev ty pid (ad_next_id d)]"
proof -
  let ?r = "raised_row now ev ty pid (ad_next_id d)"
  let ?d = "d\<lparr>ad_alerts := ad_alerts d @ [?r], ad_next_id := Suc (ad_next_id d)\<rparr>"
  have r: "al_dedupe_key ?r = event_dedupe_key ev" "al_status ?r = AS_OPEN" "al_id ?r = ad_next_id d"
    using short by (simp_all add: raised_row_def)
  have "\<forall>a \<in> set (ad_alerts d). al_open a \<longrightarrow> al_dedupe_key a \<noteq> event_dedupe_key ev"
    using none by (auto simp: open_rows_def filter_empty_conv al_open_def)
  then have uniq: "open_keys_unique (ad_alerts ?d)"
    using ok r by (auto simp: alert_db_ok_def open_keys_unique_def al_open_def)
  have "alert_db_ok ?d"
    using ok uniq r by (auto simp: alert_db_ok_def alerts_wf_def less_Suc_eq)
  moreover have "persist now ev ty pid d = (?d, Inr (ad_next_id d, False))"
    using uniq ok by (simp add: persist_def open_row_open_rows none flush_alerts_def alert_db_ok_def)
  moreover have "open_rows (event_dedupe_key ev) ?d = [?r]"
    using none r by (simp add: open_rows_def)
  ultimately show ?thesis by blast
qed

text \<open>One event raised with a session: the tables after it.\<close>

definition raised :: "instant \<Rightarrow> dispatcher \<Rightarrow> alert_type \<Rightarrow> alert_event \<Rightarrow> alert_db \<Rightarrow> alert_db" where
  "raised now ds ty ev d = fst (raise_event now ds True ty True ev d)"

lemma raised_persist: "ev_project_id ev = Some pid \<Longrightarrow> raised now ds ty ev d = fst (persist now ev ty pid d)"
  by (simp add: raised_def raise_event_def Let_def split: prod.splits sum.splits)

lemma raise_repeats:
  assumes "\<forall>ev \<in> set evs. event_dedupe_key ev = k \<and> ev_project_id ev = Some pid"
    and "alert_db_ok d" "open_rows k d = [a]" "counted n a"
    and "dict_get (al_details a) ''first_seen_at'' = Some t0"
  shows "\<exists>b. open_rows k (fold (raised now ds ty) evs d) = [b] \<and> counted (n + int (length evs)) b
    \<and> al_id b = al_id a \<and> dict_get (al_details b) ''first_seen_at'' = Some t0
    \<and> (evs \<noteq> [] \<longrightarrow> al_message b = ev_message (last evs) \<and> al_severity b = to_alert_severity (ev_level (last evs)))
    \<and> alert_db_ok (fold (raised now ds ty) evs d)"
  using assms
proof (induction evs arbitrary: d a n)
  case (Cons ev evs)
  have ev: "event_dedupe_key ev = k" "ev_project_id ev = Some pid" using Cons.prems(1) by simp_all
  from persist_repeat[of d ev a n now ty pid] Cons.prems(2-4) ev
  obtain d1 where d1: "raised now ds ty ev d = d1" "alert_db_ok d1" "open_rows k d1 = [repeated_row ev n a]"
    using raised_persist[OF ev(2)] by fastforce
  have seen: "dict_get (al_details (repeated_row ev n a)) ''first_seen_at'' = Some t0"
    using Cons.prems(5) by (simp add: dict_get_first_seen first_seen_def)
  have "\<exists>b. open_rows k (fold (raised now ds ty) evs d1) = [b] \<and> counted (n + 1 + int (length evs)) b
    \<and> al_id b = al_id (repeated_row ev n a) \<and> dict_get (al_details b) ''first_seen_at'' = Some t0
    \<and> (evs \<noteq> [] \<longrightarrow> al_message b = ev_message (last evs) \<and> al_severity b = to_alert_severity (ev_level (last evs)))
    \<and> alert_db_ok (fold (raised now ds ty) evs d1)"
    using Cons.prems(1) d1(2,3) repeated_row_counted seen by (intro Cons.IH) simp_all
  moreover have "al_message (repeated_row ev n a) = ev_message ev"
    "al_severity (repeated_row ev n a) = to_alert_severity (ev_level ev)"
    by (simp_all add: repeated_row_def)
  ultimately show ?case using d1(1,3) by (cases "evs = []") (auto simp: algebra_simps)
qed auto

text \<open>a condition that keeps failing is one alert. Any number of events with the same key, raised while
  none of it is open, leave exactly one open row: it counts them all, keeps the moment the first was
  seen, and carries the message and severity of the last.\<close>

theorem repeated_failures_are_one_alert:
  assumes "\<forall>e \<in> set (ev # evs). event_dedupe_key e = k \<and> ev_project_id e = Some pid"
    and "length k \<le> 255" "alert_db_ok d" "open_rows k d = []"
  shows "\<exists>b. open_rows k (fold (raised now ds ty) (ev # evs) d) = [b]
    \<and> counted (int (length (ev # evs))) b \<and> al_id b = ad_next_id d
    \<and> dict_get (al_details b) ''first_seen_at'' = Some (JStr (iso_instant (ev_timestamp ev)))
    \<and> al_message b = ev_message (last (ev # evs))
    \<and> al_severity b = to_alert_severity (ev_level (last (ev # evs)))"
proof -
  let ?r = "raised_row now ev ty pid (ad_next_id d)"
  have ev: "event_dedupe_key ev = k" "ev_project_id ev = Some pid" using assms(1) by simp_all
  from persist_first[of d ev now ty pid] assms(2-4) ev
  obtain d1 where d1: "raised now ds ty ev d = d1" "alert_db_ok d1" "open_rows k d1 = [?r]"
    using raised_persist[OF ev(2)] by fastforce
  have r: "dict_get (al_details ?r) ''first_seen_at'' = Some (JStr (iso_instant (ev_timestamp ev)))"
    "al_id ?r = ad_next_id d" "al_message ?r = ev_message ev" "al_severity ?r = to_alert_severity (ev_level ev)"
    by (simp_all add: raised_row_def dict_get_update) (simp add: dict_get_def)
  have "\<forall>e \<in> set evs. event_dedupe_key e = k \<and> ev_project_id e = Some pid" using assms(1) by simp
  from raise_repeats[OF this d1(2,3) raised_row_counted r(1), of now ds ty]
  show ?thesis using d1(1,3) r by (cases "evs = []") (auto simp: algebra_simps)
qed

text \<open>acknowledging a failure makes the next one a second alert. When an operator acknowledges the
  open row of a condition and the condition fails again, the service opens another row under the same
  key, so the condition has two live alerts, unlike in the sweep, which counts an acknowledged alert as
  live.\<close>

theorem acknowledged_failure_opens_another:
  assumes "alert_db_ok d" "open_rows (event_dedupe_key ev) d = [a]" "length (event_dedupe_key ev) \<le> 255"
    and "update_alert t u sc (al_id a) \<lparr>up_status = AS_ACKNOWLEDGED, up_note = note\<rparr> d = Inr (d1, a1)"
    and "ev_project_id ev = Some pid"
  shows "\<exists>b. open_rows (event_dedupe_key ev) (raised now ds ty ev d1) = [b] \<and> al_id b \<noteq> al_id a
    \<and> a1 \<in> set (ad_alerts (raised now ds ty ev d1)) \<and> al_id a1 = al_id a
    \<and> al_status a1 = AS_ACKNOWLEDGED \<and> al_dedupe_key a1 = event_dedupe_key ev"
proof -
  let ?f = "decided_row t (u_id u) \<lparr>up_status = AS_ACKNOWLEDGED, up_note = note\<rparr>"
  have mem: "a \<in> set (ad_alerts d)" and key: "al_dedupe_key a = event_dedupe_key ev"
    using arg_cong[OF assms(2), of set] by (auto simp: open_rows_def)
  have find: "List.find (\<lambda>x. al_id x = al_id a) (ad_alerts d) = Some a"
    using assms(1) mem by (intro find_unique) (simp_all add: alert_db_ok_def alerts_wf_def)
  have d1: "ad_alerts d1 = update_where (\<lambda>x. al_id x = al_id a) ?f (ad_alerts d)"
    "ad_rules d1 = ad_rules d" "ad_next_id d1 = ad_next_id d" "a1 = ?f a" "open_keys_unique (ad_alerts d1)"
    using assms(4)
    by (auto simp: update_alert_def find Let_def flush_alerts_def audit_alert_def split: if_splits)
  have status: "al_status (?f x) = AS_ACKNOWLEDGED" for x by (simp add: decided_row_def Let_def)
  have ok1: "alert_db_ok d1"
    using assms(1) d1(5) by (auto simp: alert_db_ok_def alerts_wf_def d1(1-3) decision.ids_kept set_update_where)
  have "x = a" if "x \<in> set (ad_alerts d)" "al_dedupe_key x = event_dedupe_key ev" "al_status x = AS_OPEN" for x
  proof -
    have "x \<in> set (open_rows (event_dedupe_key ev) d)" using that by (simp add: open_rows_def)
    then show ?thesis by (simp add: assms(2))
  qed
  then have none: "open_rows (event_dedupe_key ev) d1 = []"
    using status by (auto simp: open_rows_def d1(1) filter_empty_conv set_update_where)
  from persist_first[OF ok1 none assms(3), of now ty pid]
  obtain d2 where d2: "persist now ev ty pid d1 = (d2, Inr (ad_next_id d, False))"
    "open_rows (event_dedupe_key ev) d2 = [raised_row now ev ty pid (ad_next_id d)]"
    using d1(3) by auto
  have "ad_alerts d2 = ad_alerts d1 @ [raised_row now ev ty pid (ad_next_id d)]"
    using d2(1) by (auto simp: persist_def open_row_open_rows none flush_alerts_def d1(3) split: if_splits)
  moreover have "a1 \<in> set (ad_alerts d1)" using mem d1(1,4) by (auto simp: update_where_def)
  moreover have "al_id a < ad_next_id d" using assms(1) mem by (simp add: alert_db_ok_def alerts_wf_def)
  ultimately show ?thesis
    using d2 key status[of a] by (simp add: raised_persist[OF assms(5)] d1(4) raised_row_def)
qed

subsection \<open>A failure on concrete rows\<close>

definition fx_ambient :: ambient where
  "fx_ambient = \<lparr>am_environment = ''test'', am_correlation_id = None, am_trace_id = None,
     am_worker_name = None, am_host_name = ''host'', am_resolution = (\<lambda>_. [])\<rparr>"

definition fx_failure :: alert_event where
  "fx_failure = failure_event fx_ambient 0 ''MSA'' 20 30 ''parser'' [(''code'', JStr ''storage_error'')] None"

definition fx_dispatcher :: dispatcher where
  "fx_dispatcher = make_dispatcher [fx_channel] LV_ERROR 3 1 8 10 True"

lemma fx_failure_facts:
  "event_dedupe_key fx_failure = ''storage:'' @ uuid_str 20 @ '':parser''"
  "ev_project_id fx_failure = Some 30" "ev_level fx_failure = LV_CRITICAL"
  by (simp_all add: fx_failure_def failure_event_def Let_def event_dedupe_key_def failure_category_def
      failure_level_def CODE_CATEGORY_def CRITICAL_ERROR_CODES_def text_or_def dict_get_def py_str_def)

lemma fx_alerts_ok: "alert_db_ok fx_alerts" "open_rows (event_dedupe_key fx_failure) fx_alerts = []"
  by (simp_all add: alert_db_ok_def fx_wf open_keys_unique_def rule_keys_unique_def open_rows_def
      fx_failure_facts) (simp_all add: fx_alerts_def fx_alert_def fx_key_def)

theorem delivery_is_bounded_and_honest_witness:
  "dl_attempts (deliver (make_dispatcher [fx_channel] LV_ERROR 3 1 8 10 True) fx_failure fx_channel) \<le> 3
    \<and> dl_result (deliver (make_dispatcher [fx_channel] LV_ERROR 3 1 8 10 True) fx_failure fx_channel) = Some True"
proof -
  have "dl_attempts (deliver (make_dispatcher [fx_channel] LV_ERROR 3 1 8 10 True) fx_failure fx_channel) = 3"
    by (simp add: deliver_def deliver_from.simps make_dispatcher_def timed_send_def fx_channel_def)
  then show ?thesis
    using delivery_is_bounded_and_honest[where ds = "make_dispatcher [fx_channel] LV_ERROR 3 1 8 10 True"
        and p = fx_channel and ev = fx_failure, OF refl]
    by (simp add: timed_send_def fx_channel_def make_dispatcher_def)
qed

theorem repeated_failures_are_one_alert_witness:
  "\<exists>b. open_rows (event_dedupe_key fx_failure)
      (fold (raised 0 fx_dispatcher AT_PROCESSING_FAILED) [fx_failure, fx_failure, fx_failure] fx_alerts) = [b]
    \<and> counted 3 b \<and> al_severity b = SV_CRITICAL"
  using repeated_failures_are_one_alert[of fx_failure "[fx_failure, fx_failure]" "event_dedupe_key fx_failure"
      30 fx_alerts 0 fx_dispatcher AT_PROCESSING_FAILED] fx_alerts_ok fx_failure_facts
  by auto

definition fx_failed :: alert_db where
  "fx_failed = fx_alerts\<lparr>ad_alerts := [raised_row 0 fx_failure AT_PROCESSING_FAILED 30 4]\<rparr>"

theorem acknowledged_failure_opens_another_witness:
  "\<exists>d1 a1 b. update_alert 1 fx_user fx_scope 4 \<lparr>up_status = AS_ACKNOWLEDGED, up_note = None\<rparr> fx_failed = Inr (d1, a1)
    \<and> open_rows (event_dedupe_key fx_failure) (raised 2 fx_dispatcher AT_PROCESSING_FAILED fx_failure d1) = [b]
    \<and> al_id b \<noteq> 4 \<and> al_status a1 = AS_ACKNOWLEDGED"
proof -
  let ?a = "raised_row 0 fx_failure AT_PROCESSING_FAILED 30 4"
  let ?ack = "\<lparr>up_status = AS_ACKNOWLEDGED, up_note = None\<rparr>"
  have a: "al_id ?a = 4" "al_status ?a = AS_OPEN" "al_project_id ?a = 30"
    "al_dedupe_key ?a = event_dedupe_key fx_failure"
    by (simp_all add: raised_row_def fx_failure_facts)
  have ok: "alert_db_ok fx_failed" "open_rows (event_dedupe_key fx_failure) fx_failed = [?a]"
    using a by (simp_all add: alert_db_ok_def alerts_wf_def fx_failed_def fx_alerts_def open_keys_unique_def
        rule_keys_unique_def open_rows_def)
  obtain d1 a1 where upd: "update_alert 1 fx_user fx_scope (al_id ?a) ?ack fx_failed = Inr (d1, a1)"
    using a by (auto simp: update_alert_def fx_failed_def fx_alerts_def Let_def flush_alerts_def
        open_keys_unique_def rule_keys_unique_def scope_contains_def fx_scope_def update_where_def
        decided_row_def al_open_def)
  have "length (event_dedupe_key fx_failure) \<le> 255" by (simp add: fx_failure_facts)
  from acknowledged_failure_opens_another[OF ok this upd fx_failure_facts(2), of 2 fx_dispatcher AT_PROCESSING_FAILED]
  show ?thesis using upd a by auto
qed

end
