(* ===== verification/ContractQuery.thy ===== *)
theory ContractQuery
  imports Complex_Main "HOL-Library.Sublist" AlertEvaluator
begin

text \<open>
  \<^verbatim>\<open>ContractRepository.filtered_query\<close> of \<^verbatim>\<open>backend/app/repositories/contract.py\<close>: the contracts a
  repository screen lists and an export takes. The tables are lists of rows; a column that may be
  NULL is an option, and a comparison with NULL is not true. Amounts are exact rationals. Text is
  ASCII.
\<close>

subsection \<open>Rows and filters\<close>

record repo_contract = estate_contract +
  rc_uploaded_by :: "uuid option"
  rc_created_at :: instant
  rc_tags :: "string list"

record contract_metadata =
  cm_contract_id :: uuid
  cm_effective_date :: "date option"
  cm_expiration_date :: "date option"
  cm_term_months :: "int option"
  cm_governing_law :: "string option"
  cm_jurisdiction :: "string option"
  cm_country :: "string option"
  cm_language :: "string option"
  cm_currency :: "string option"
  cm_contract_value :: "rat option"
  cm_payment_terms_days :: "int option"
  cm_party_a :: "string option"
  cm_party_b :: "string option"
  cm_vendor :: "string option"
  cm_customer :: "string option"
  cm_category :: "string option"
  cm_department :: "string option"
  cm_owner :: "string option"
  cm_risk_score :: "int option"
  cm_risk_band :: "string option"
  cm_auto_renewal :: "bool option"
  cm_auto_renewal_notice_days :: "int option"
  cm_missing_mandatory_clauses :: "string list"
  cm_has_unlimited_liability :: "bool option"
  cm_clause_count :: int
  cm_summary :: "string option"

record date_range =
  dr_from :: "date option"
  dr_to :: "date option"

record number_range =
  nr_min :: "rat option"
  nr_max :: "rat option"

record contract_filters =
  cf_search :: "string option"
  cf_status :: "contract_status list"
  cf_agreement_type :: "string list"
  cf_file_type :: "file_type option"
  cf_party :: "string option"
  cf_vendor :: "string option"
  cf_customer :: "string option"
  cf_contract_number :: "string option"
  cf_effective_date :: "date_range option"
  cf_expiration_date :: "date_range option"
  cf_expiring_within_days :: "int option"
  cf_risk_band :: "string list"
  cf_risk_score :: "number_range option"
  cf_contract_value :: "number_range option"
  cf_currency :: "string option"
  cf_governing_law :: "string option"
  cf_country :: "string option"
  cf_category :: "string option"
  cf_department :: "string option"
  cf_owner :: "string option"
  cf_language :: "string option"
  cf_auto_renewal :: "bool option"
  cf_has_unlimited_liability :: "bool option"
  cf_missing_clause_types :: "string list"
  cf_missing_mandatory :: "bool option"
  cf_needs_review :: "bool option"
  cf_tags :: "string list"
  cf_uploaded_by :: "uuid option"
  cf_uploaded_after :: "instant option"

text \<open>An absent list filter and an empty one are both skipped, so both are the empty list.\<close>

definition no_filters :: contract_filters where
  "no_filters = \<lparr>cf_search = None, cf_status = [], cf_agreement_type = [], cf_file_type = None,
     cf_party = None, cf_vendor = None, cf_customer = None, cf_contract_number = None,
     cf_effective_date = None, cf_expiration_date = None, cf_expiring_within_days = None,
     cf_risk_band = [], cf_risk_score = None, cf_contract_value = None, cf_currency = None,
     cf_governing_law = None, cf_country = None, cf_category = None, cf_department = None,
     cf_owner = None, cf_language = None, cf_auto_renewal = None, cf_has_unlimited_liability = None,
     cf_missing_clause_types = [], cf_missing_mandatory = None, cf_needs_review = None, cf_tags = [],
     cf_uploaded_by = None, cf_uploaded_after = None\<rparr>"

subsection \<open>Text patterns\<close>

text \<open>\<open>LIKE\<close>: \<open>%\<close> stands for any text, \<open>_\<close> for any character, and a backslash takes the next character
  literally. A pattern ending in a lone backslash is an error of the server; the code's patterns end
  in \<open>%\<close>.\<close>

fun like :: "string \<Rightarrow> string \<Rightarrow> bool" where
  "like [] s = (s = [])"
| "like (c # p) s =
     (if c = CHR ''%'' then like p s \<or> (case s of [] \<Rightarrow> False | _ # s' \<Rightarrow> like (c # p) s')
      else if c = CHR ''_'' then (case s of [] \<Rightarrow> False | _ # s' \<Rightarrow> like p s')
      else if c = CHR 0x5C then
        (case (p, s) of (d # p', x # s') \<Rightarrow> x = d \<and> like p' s' | _ \<Rightarrow> False)
      else (case s of [] \<Rightarrow> False | x # s' \<Rightarrow> x = c \<and> like p s'))"

definition ilike :: "string \<Rightarrow> string \<Rightarrow> bool" where
  "ilike p s = like (lower p) (lower s)"

definition opt_ilike :: "string \<Rightarrow> string option \<Rightarrow> bool" where
  "opt_ilike p v = (case v of None \<Rightarrow> False | Some s \<Rightarrow> ilike p s)"

definition coalesce :: "string option \<Rightarrow> string" where
  "coalesce v = (case v of None \<Rightarrow> [] | Some s \<Rightarrow> s)"

text \<open>\<open>f"%{text.strip()}%"\<close>.\<close>

definition containing :: "string \<Rightarrow> string" where
  "containing t = CHR ''%'' # strip t @ [CHR ''%'']"

text \<open>\<open>str.upper\<close> on ASCII letters.\<close>

definition upper_char :: "char \<Rightarrow> char" where
  "upper_char c = (let n = of_char c :: nat in if 97 \<le> n \<and> n \<le> 122 then char_of (n - 32) else c)"

subsection \<open>Conditions\<close>

text \<open>\<open>if filters.x: conditions.append(\<dots>)\<close> on an optional text, and \<open>is not None\<close> on an optional
  value. The joined metadata row is \<open>None\<close> for a contract that has none.\<close>

definition when_text :: "string option \<Rightarrow> (string \<Rightarrow> bool) \<Rightarrow> bool" where
  "when_text v P = (case v of None \<Rightarrow> True | Some s \<Rightarrow> s = [] \<or> P s)"

definition when_some :: "'a option \<Rightarrow> ('a \<Rightarrow> bool) \<Rightarrow> bool" where
  "when_some v P = (case v of None \<Rightarrow> True | Some x \<Rightarrow> P x)"

definition when_list :: "'a list \<Rightarrow> ('a list \<Rightarrow> bool) \<Rightarrow> bool" where
  "when_list xs P = (xs = [] \<or> P xs)"

definition meta :: "contract_metadata option \<Rightarrow> (contract_metadata \<Rightarrow> 'a option) \<Rightarrow> 'a option" where
  "meta m f = (case m of None \<Rightarrow> None | Some r \<Rightarrow> f r)"

definition holds :: "'a option \<Rightarrow> ('a \<Rightarrow> bool) \<Rightarrow> bool" where
  "holds v P = (case v of None \<Rightarrow> False | Some x \<Rightarrow> P x)"

definition text_condition :: "contract_filters \<Rightarrow> repo_contract \<Rightarrow> contract_metadata option \<Rightarrow> bool" where
  "text_condition f c m =
     when_text (cf_search f) (\<lambda>t. let p = containing t in
       opt_ilike p (c_title c) \<or> ilike p (ec_original_file_name c) \<or>
       ilike p (coalesce (ec_contract_number c)) \<or> ilike p (coalesce (meta m cm_vendor)) \<or>
       ilike p (coalesce (meta m cm_customer)) \<or> ilike p (coalesce (meta m cm_party_a)) \<or>
       ilike p (coalesce (meta m cm_party_b)) \<or> ilike p (coalesce (meta m cm_summary)))"

definition contract_conditions :: "contract_filters \<Rightarrow> repo_contract \<Rightarrow> contract_metadata option \<Rightarrow> bool list" where
  "contract_conditions f c m =
     [when_list (cf_status f) (\<lambda>xs. c_status c \<in> set xs),
      when_list (cf_agreement_type f) (\<lambda>xs. holds (c_agreement_type c) (\<lambda>t. t \<in> set xs)),
      when_some (cf_file_type f) (\<lambda>t. c_file_type c = t),
      when_text (cf_contract_number f) (\<lambda>t. lower (coalesce (ec_contract_number c)) = lower (strip t)),
      when_some (cf_needs_review f) (\<lambda>b. c_needs_review c = b),
      when_some (cf_uploaded_by f) (\<lambda>u. rc_uploaded_by c = Some u),
      when_some (cf_uploaded_after f) (\<lambda>t. t \<le> rc_created_at c),
      when_text (cf_language f) (\<lambda>l. c_language c = Some l \<or> meta m cm_language = Some l),
      when_list (cf_tags f) (\<lambda>xs. list_all (\<lambda>t. t \<in> set (rc_tags c)) xs)]"

definition party_conditions :: "contract_filters \<Rightarrow> contract_metadata option \<Rightarrow> bool list" where
  "party_conditions f m =
     [when_text (cf_party f) (\<lambda>t. let p = containing t in
        ilike p (coalesce (meta m cm_party_a)) \<or> ilike p (coalesce (meta m cm_party_b)) \<or>
        ilike p (coalesce (meta m cm_vendor)) \<or> ilike p (coalesce (meta m cm_customer))),
      when_text (cf_vendor f) (\<lambda>t. opt_ilike (containing t) (meta m cm_vendor)),
      when_text (cf_customer f) (\<lambda>t. opt_ilike (containing t) (meta m cm_customer))]"

definition in_date_range :: "date option \<Rightarrow> date_range option \<Rightarrow> bool" where
  "in_date_range v r =
     when_some r (\<lambda>r. when_some (dr_from r) (\<lambda>a. holds v (\<lambda>d. a \<le> d)) \<and>
                      when_some (dr_to r) (\<lambda>b. holds v (\<lambda>d. d \<le> b)))"

text \<open>\<open>horizon\<close> is \<open>date.today() + timedelta(days)\<close>, where a number of days is given.\<close>

definition date_conditions :: "date \<Rightarrow> date option \<Rightarrow> contract_filters \<Rightarrow> contract_metadata option \<Rightarrow> bool list" where
  "date_conditions today horizon f m =
     [in_date_range (meta m cm_effective_date) (cf_effective_date f),
      in_date_range (meta m cm_expiration_date) (cf_expiration_date f),
      when_some horizon (\<lambda>h. holds (meta m cm_expiration_date) (\<lambda>d. today \<le> d \<and> d \<le> h))]"

text \<open>\<open>int(x)\<close> of a float drops the fraction.\<close>

definition trunc_int :: "rat \<Rightarrow> int" where
  "trunc_int q = (if 0 \<le> q then floor q else ceiling q)"

definition value_conditions :: "contract_filters \<Rightarrow> contract_metadata option \<Rightarrow> bool list" where
  "value_conditions f m =
     [when_list (cf_risk_band f) (\<lambda>xs. holds (meta m cm_risk_band) (\<lambda>b. b \<in> set xs)),
      when_some (cf_risk_score f) (\<lambda>r.
        when_some (nr_min r) (\<lambda>a. holds (meta m cm_risk_score) (\<lambda>s. trunc_int a \<le> s)) \<and>
        when_some (nr_max r) (\<lambda>b. holds (meta m cm_risk_score) (\<lambda>s. s \<le> trunc_int b))),
      when_some (cf_contract_value f) (\<lambda>r.
        when_some (nr_min r) (\<lambda>a. holds (meta m cm_contract_value) (\<lambda>v. a \<le> v)) \<and>
        when_some (nr_max r) (\<lambda>b. holds (meta m cm_contract_value) (\<lambda>v. v \<le> b))),
      when_text (cf_currency f) (\<lambda>t. meta m cm_currency = Some (map upper_char t)),
      when_text (cf_governing_law f) (\<lambda>t. meta m cm_governing_law = Some t),
      when_text (cf_country f) (\<lambda>t. meta m cm_country = Some t),
      when_text (cf_category f) (\<lambda>t. meta m cm_category = Some t),
      when_text (cf_department f) (\<lambda>t. meta m cm_department = Some t),
      when_text (cf_owner f) (\<lambda>t. meta m cm_owner = Some t)]"

definition insight_conditions :: "contract_filters \<Rightarrow> contract_metadata option \<Rightarrow> bool list" where
  "insight_conditions f m =
     [when_some (cf_auto_renewal f) (\<lambda>b. meta m cm_auto_renewal = Some b),
      when_some (cf_has_unlimited_liability f) (\<lambda>b. meta m cm_has_unlimited_liability = Some b),
      when_list (cf_missing_clause_types f)
        (\<lambda>xs. holds m (\<lambda>r. list_ex (\<lambda>t. t \<in> set (cm_missing_mandatory_clauses r)) xs)),
      when_some (cf_missing_mandatory f)
        (\<lambda>b. holds m (\<lambda>r. (0 < length (cm_missing_mandatory_clauses r)) = b))]"

definition passes_filters :: "date \<Rightarrow> date option \<Rightarrow> contract_filters \<Rightarrow> repo_contract \<Rightarrow>
    contract_metadata option \<Rightarrow> bool" where
  "passes_filters today horizon f c m =
     list_all id (text_condition f c m # contract_conditions f c m @ party_conditions f m @
       date_conditions today horizon f m @ value_conditions f m @ insight_conditions f m)"

subsection \<open>The query\<close>

record repo_tables =
  rt_contracts :: "repo_contract list"
  rt_metadata :: "contract_metadata list"

definition metadata_for :: "repo_tables \<Rightarrow> uuid \<Rightarrow> contract_metadata option" where
  "metadata_for d cid = List.find (\<lambda>m. cm_contract_id m = cid) (rt_metadata d)"

definition listed_in :: "uuid list \<Rightarrow> repo_contract \<Rightarrow> bool" where
  "listed_in project_ids c \<longleftrightarrow> c_deleted_at c = None \<and> c_project_id c \<in> set project_ids"

definition expiry_horizon :: "date \<Rightarrow> contract_filters \<Rightarrow> exn + date option" where
  "expiry_horizon today f =
     (case cf_expiring_within_days f of
        None \<Rightarrow> Inr None
      | Some n \<Rightarrow> map_sum id Some (date_plus today n))"

definition filtered_query :: "date \<Rightarrow> uuid list \<Rightarrow> contract_filters option \<Rightarrow> repo_tables \<Rightarrow>
    exn + (repo_contract \<times> contract_metadata option) list" where
  "filtered_query today project_ids f d =
     (let rows = map (\<lambda>c. (c, metadata_for d (c_id c))) (filter (listed_in project_ids) (rt_contracts d))
      in case f of
           None \<Rightarrow> Inr rows
         | Some f \<Rightarrow>
             (case expiry_horizon today f of
                Inl e \<Rightarrow> Inl e
              | Inr h \<Rightarrow> Inr (filter (\<lambda>(c, m). passes_filters today h f c m) rows)))"

subsection \<open>Scope\<close>

lemmas condition_defs = passes_filters_def no_filters_def text_condition_def contract_conditions_def
  party_conditions_def date_conditions_def value_conditions_def insight_conditions_def in_date_range_def
  when_text_def when_some_def when_list_def

lemma filtered_query_rows:
  "filtered_query today ps f d = Inr rows \<Longrightarrow>
   \<exists>P. rows = filter P (map (\<lambda>c. (c, metadata_for d (c_id c))) (filter (listed_in ps) (rt_contracts d)))"
  by (auto simp: filtered_query_def Let_def split: option.splits sum.splits intro: exI[of _ "\<lambda>_. True"])

lemma filtered_query_member:
  assumes "filtered_query today ps f d = Inr rows"
  shows "x \<in> set rows \<longleftrightarrow> (\<exists>c \<in> set (rt_contracts d). listed_in ps c \<and> x = (c, metadata_for d (c_id c)) \<and>
    (\<forall>g. f = Some g \<longrightarrow>
      (\<exists>h. expiry_horizon today g = Inr h \<and> passes_filters today h g c (metadata_for d (c_id c)))))"
proof (cases f)
  case None
  then show ?thesis using assms by (auto simp: filtered_query_def Let_def)
next
  case (Some g)
  then obtain h where "expiry_horizon today g = Inr h"
    using assms by (auto simp: filtered_query_def Let_def split: sum.splits)
  then show ?thesis using assms Some by (auto simp: filtered_query_def Let_def)
qed

text \<open>Whatever the filters are, the query returns only live contracts of the projects it was
  given, each once and with its own metadata, in the order of the unfiltered query; without a filter
  it returns all of them, and asking for a subset of the projects returns a subset of the rows.\<close>

theorem query_stays_in_scope:
  assumes "filtered_query today ps f d = Inr rows"
  shows "(\<forall>(c, m) \<in> set rows. c \<in> set (rt_contracts d) \<and> c_deleted_at c = None \<and>
      c_project_id c \<in> set ps \<and> m = metadata_for d (c_id c)) \<and>
    (\<exists>all. filtered_query today ps None d = Inr all \<and> subseq rows all) \<and>
    filtered_query today ps (Some no_filters) d = filtered_query today ps None d \<and>
    (\<forall>qs rows'. set qs \<subseteq> set ps \<longrightarrow> filtered_query today qs f d = Inr rows' \<longrightarrow> set rows' \<subseteq> set rows)"
proof -
  let ?rows = "\<lambda>ps. map (\<lambda>c. (c, metadata_for d (c_id c))) (filter (listed_in ps) (rt_contracts d))"
  have scope: "(\<forall>(c, m) \<in> set rows. c \<in> set (rt_contracts d) \<and> c_deleted_at c = None \<and>
      c_project_id c \<in> set ps \<and> m = metadata_for d (c_id c))"
    using filtered_query_rows[OF assms] by (auto simp: listed_in_def)
  have all: "filtered_query today ps None d = Inr (?rows ps)"
    by (simp add: filtered_query_def Let_def)
  have sub: "subseq rows (?rows ps)"
    using filtered_query_rows[OF assms] by auto
  have none: "passes_filters today None no_filters c m" for c m
    by (simp add: condition_defs)
  have empty: "filtered_query today ps (Some no_filters) d = filtered_query today ps None d"
    using none by (simp add: filtered_query_def Let_def expiry_horizon_def no_filters_def[of] split_def)
  have mono: "set rows' \<subseteq> set rows" if "set qs \<subseteq> set ps" "filtered_query today qs f d = Inr rows'" for qs rows'
    using filtered_query_member[OF assms] filtered_query_member[OF that(2)] that(1)
    unfolding listed_in_def by blast
  show ?thesis using scope all sub empty mono by blast
qed

lemma find_filter_cong:
  "filter P xs = filter P ys \<Longrightarrow> (\<And>x. Q x \<Longrightarrow> P x) \<Longrightarrow> List.find Q xs = List.find Q ys"
proof -
  assume f: "filter P xs = filter P ys" and q: "\<And>x. Q x \<Longrightarrow> P x"
  have "List.find Q zs = List.find Q (filter P zs)" for zs
    using q by (induction zs) auto
  then show ?thesis using f by metis
qed

subsection \<open>Text search\<close>

definition wildcard :: "char \<Rightarrow> bool" where
  "wildcard c \<longleftrightarrow> c \<in> {CHR ''%'', CHR ''_'', CHR 0x5C}"

lemma like_literal:
  "list_all (\<lambda>c. \<not> wildcard c) w \<Longrightarrow> like (w @ [CHR ''%'']) s \<longleftrightarrow> take (length w) s = w"
proof (induction w arbitrary: s)
  case Nil
  have "like [CHR ''%''] s" by (induction s) auto
  then show ?case by simp
next
  case (Cons c w)
  then show ?case by (cases s) (auto simp: wildcard_def)
qed

lemma like_containing:
  assumes "list_all (\<lambda>c. \<not> wildcard c) w"
  shows "like (CHR ''%'' # w @ [CHR ''%'']) s \<longleftrightarrow> contains_sub w s"
proof (induction s)
  case Nil
  show ?case using like_literal[OF assms, of "[]"] by (simp add: eq_commute[of "[]"])
next
  case (Cons c s)
  then show ?case using like_literal[OF assms, of "c # s"] by simp
qed

lemma lower_wildcard: "wildcard (lower_char c) = wildcard c"
proof (cases "65 \<le> (of_char c :: nat) \<and> of_char c \<le> (90 :: nat)")
  case True
  then have "of_char (lower_char c) = (of_char c + 32 :: nat)"
    by (simp add: lower_char_def Let_def)
  then show ?thesis using True by (auto simp: wildcard_def)
qed (auto simp: lower_char_def Let_def)

text \<open>A search for a text without pattern characters finds exactly the values that hold the
  text, surrounding white space and letter case apart.\<close>

theorem search_is_substring:
  assumes "list_all (\<lambda>c. \<not> wildcard c) (strip t)"
  shows "ilike (containing t) s \<longleftrightarrow> contains_sub (lower (strip t)) (lower s)"
proof -
  have "lower (containing t) = CHR ''%'' # lower (strip t) @ [CHR ''%'']"
    by (simp add: containing_def lower_def lower_char_def Let_def)
  moreover have "list_all (\<lambda>c. \<not> wildcard c) (lower (strip t))"
    using assms by (simp add: lower_def list_all_iff lower_wildcard)
  ultimately show ?thesis by (simp only: ilike_def like_containing)
qed

theorem search_is_substring_witness:
  "ilike (containing ''  Acme '') ''Master services - ACME Ltd''"
proof -
  have "list_all (\<lambda>c. \<not> wildcard c) (strip ''  Acme '')" by code_simp
  moreover have "contains_sub (lower (strip ''  Acme '')) (lower ''Master services - ACME Ltd'')" by code_simp
  ultimately show ?thesis using search_is_substring by blast
qed

text \<open>The lower end of a risk-score range is rounded down to a whole score before it is
  compared, so a contract below a fractional minimum passes; for whole numbers the range means what
  it says.\<close>

theorem risk_range_is_rounded:
  assumes "cf_risk_score f = Some \<lparr>nr_min = Some a, nr_max = b\<rparr>" "0 \<le> a" "meta m cm_risk_score = Some s"
    "value_conditions f m ! 1"
  shows "of_int s < a \<longleftrightarrow> s = floor a \<and> a \<notin> range of_int"
proof -
  have "floor a \<le> s"
    using assms by (simp add: value_conditions_def when_some_def holds_def trunc_int_def)
  then have "s = floor a" if "of_int s < a"
    using that le_floor_iff[of s a] by simp
  moreover have "of_int (floor a) < a" if "a \<notin> range of_int"
    using that of_int_floor_le[of a] by (metis order_le_less rangeI)
  moreover have "a \<notin> range of_int" if "of_int (floor a) < a"
    using that by auto
  ultimately show ?thesis by auto
qed

subsection \<open>Rows for the witnesses\<close>

definition fx_repo :: "uuid \<Rightarrow> uuid \<Rightarrow> instant option \<Rightarrow> repo_contract" where
  "fx_repo cid pid gone = \<lparr>c_id = cid, c_project_id = pid, c_file_type = FT_PDF, c_title = Some ''MSA'',
     c_status = CS_READY, c_needs_review = False, c_page_count = None, c_language = None,
     c_agreement_type = None, c_agreement_subtype = None, c_classification_confidence = None,
     c_profile_id = None, c_profile_version = None, c_processed_at = None, c_deleted_at = gone,
     ec_contract_number = None, ec_original_file_name = ''msa.pdf'', rc_uploaded_by = None,
     rc_created_at = int cid, rc_tags = []\<rparr>"

definition fx_meta :: "uuid \<Rightarrow> int option \<Rightarrow> contract_metadata" where
  "fx_meta cid score = \<lparr>cm_contract_id = cid, cm_effective_date = None, cm_expiration_date = None,
     cm_term_months = None, cm_governing_law = None, cm_jurisdiction = None, cm_country = None,
     cm_language = None, cm_currency = None, cm_contract_value = None, cm_payment_terms_days = None,
     cm_party_a = None, cm_party_b = None, cm_vendor = Some ''Acme'', cm_customer = None,
     cm_category = None, cm_department = None, cm_owner = None, cm_risk_score = score,
     cm_risk_band = None, cm_auto_renewal = None, cm_auto_renewal_notice_days = None,
     cm_missing_mandatory_clauses = [], cm_has_unlimited_liability = None, cm_clause_count = 0,
     cm_summary = None\<rparr>"

text \<open>Two contracts of project 30, one of them deleted, and one of project 31.\<close>

definition fx_tables :: repo_tables where
  "fx_tables = \<lparr>rt_contracts = [fx_repo 20 30 None, fx_repo 21 31 None, fx_repo 22 30 (Some 5)],
     rt_metadata = [fx_meta 20 (Some 70)]\<rparr>"

theorem query_stays_in_scope_witness:
  "\<exists>rows. filtered_query 100 [30] (Some (no_filters\<lparr>cf_search := Some ''acme''\<rparr>)) fx_tables = Inr rows \<and>
     map (c_id \<circ> fst) rows = [20] \<and>
     (\<exists>every. filtered_query 100 [30] None fx_tables = Inr every \<and> subseq rows every)"
proof -
  have r: "filtered_query 100 [30] (Some (no_filters\<lparr>cf_search := Some ''acme''\<rparr>)) fx_tables =
    Inr [(fx_repo 20 30 None, Some (fx_meta 20 (Some 70)))]"
    by code_simp
  have m: "map (c_id \<circ> fst) [(fx_repo 20 30 None, Some (fx_meta 20 (Some 70)))] = [20]"
    by (simp add: fx_repo_def)
  have every: "\<exists>every. filtered_query 100 [30] None fx_tables = Inr every \<and>
      subseq [(fx_repo 20 30 None, Some (fx_meta 20 (Some 70)))] every"
    using query_stays_in_scope[OF r] by (elim conjE)
  show ?thesis
    by (rule exI[where x = "[(fx_repo 20 30 None, Some (fx_meta 20 (Some 70)))]"],
        rule conjI[OF r conjI[OF m every]])
qed

theorem risk_range_is_rounded_witness:
  "value_conditions (no_filters\<lparr>cf_risk_score := Some \<lparr>nr_min = Some (141 / 2), nr_max = None\<rparr>\<rparr>)
     (Some (fx_meta 20 (Some 70))) ! 1 \<and> of_int 70 < (141 / 2 :: rat)"
proof -
  let ?f = "no_filters\<lparr>cf_risk_score := Some \<lparr>nr_min = Some (141 / 2), nr_max = None\<rparr>\<rparr>"
  have fl: "\<lfloor>141 / 2 :: rat\<rfloor> = 70" by (simp add: floor_eq_iff)
  have v: "value_conditions ?f (Some (fx_meta 20 (Some 70))) ! 1"
    by (simp add: value_conditions_def when_some_def holds_def meta_def trunc_int_def fx_meta_def fl)
  have "(141 / 2 :: rat) \<notin> range of_int"
  proof
    assume "(141 / 2 :: rat) \<in> range of_int"
    then obtain k :: int where "(141 / 2 :: rat) = of_int k" by auto
    then have "(of_int 141 :: rat) = of_int (2 * k)" by simp
    then have "141 = 2 * k" by (simp only: of_int_eq_iff)
    then show False by presburger
  qed
  moreover have "meta (Some (fx_meta 20 (Some 70))) cm_risk_score = Some 70"
    by (simp add: meta_def fx_meta_def)
  ultimately show ?thesis
    using risk_range_is_rounded[of ?f "141 / 2" None "Some (fx_meta 20 (Some 70))" 70] v fl by simp
qed

end
