(* ===== verification/ExportData.thy ===== *)
theory ExportData
  imports ContractQuery Access
begin

text \<open>
  \<^verbatim>\<open>backend/app/export/dataset.py\<close> with the contracts of \<^verbatim>\<open>export/base.py\<close>, and the cells that
  \<^verbatim>\<open>export/xlsx.py\<close> writes: the rows one export renders. This is where an export is scoped to the
  requester's projects and where clause wording is withheld.

  A table is the list of its rows in the order of the one \<open>ORDER BY\<close> an export reads it with; an enum
  column holds the stored text. \<open>Decimal\<close> and \<open>float\<close> values are exact rationals.
\<close>

subsection \<open>Columns, sheets and cells\<close>

datatype export_entity =
    EE_CONTRACTS | EE_CLAUSES | EE_OBLIGATIONS | EE_RISKS | EE_KEY_DATES | EE_ENTITIES

fun entity_value :: "export_entity \<Rightarrow> string" where
  "entity_value EE_CONTRACTS = ''contracts''"
| "entity_value EE_CLAUSES = ''clauses''"
| "entity_value EE_OBLIGATIONS = ''obligations''"
| "entity_value EE_RISKS = ''risks''"
| "entity_value EE_KEY_DATES = ''key_dates''"
| "entity_value EE_ENTITIES = ''entities''"

definition entity_of_value :: "string \<Rightarrow> export_entity option" where
  "entity_of_value s = List.find (\<lambda>e. entity_value e = s)
     [EE_CONTRACTS, EE_CLAUSES, EE_OBLIGATIONS, EE_RISKS, EE_KEY_DATES, EE_ENTITIES]"

definition DEFAULT_ENTITIES :: "export_entity list" where
  "DEFAULT_ENTITIES = [EE_CONTRACTS, EE_CLAUSES, EE_OBLIGATIONS, EE_RISKS, EE_KEY_DATES]"

datatype column_kind = KText | KNumber | KInteger | KDate | KDatetime | KBool

record export_column =
  col_key :: string
  col_label :: string
  col_kind :: column_kind
  col_width :: nat
  col_wrap :: bool

definition col :: "string \<Rightarrow> string \<Rightarrow> column_kind \<Rightarrow> nat \<Rightarrow> bool \<Rightarrow> export_column" where
  "col key label kind width wrap =
     \<lparr>col_key = key, col_label = label, col_kind = kind, col_width = width, col_wrap = wrap\<rparr>"

datatype cell = CNone | CText string | CInt int | CNum rat | CBool bool | CDate date | CTime instant

type_synonym sheet_row = "(string \<times> cell) list"

record export_sheet =
  sh_entity :: export_entity
  sh_title :: string
  sh_columns :: "export_column list"
  sh_rows :: "sheet_row list"
  sh_notes :: "string list"

record export_dataset =
  ds_export_id :: uuid
  ds_generated_at :: instant
  ds_generated_by :: string
  ds_scope_label :: string
  ds_project_names :: "string list"
  ds_filters :: dict
  ds_sheets :: "export_sheet list"
  ds_masked_note :: "string option"

definition total_rows :: "export_dataset \<Rightarrow> nat" where
  "total_rows ds = sum_list (map (\<lambda>s. length (sh_rows s)) (ds_sheets ds))"

definition CONTRACT_COLUMNS :: "export_column list" where
  "CONTRACT_COLUMNS =
     [col ''contract_id'' ''Contract ID'' KText 38 False,
      col ''title'' ''Title'' KText 42 False,
      col ''file_name'' ''File'' KText 30 False,
      col ''project'' ''Project'' KText 22 False,
      col ''agreement_type'' ''Agreement type'' KText 20 False,
      col ''status'' ''Status'' KText 14 False,
      col ''party_a'' ''Party A'' KText 26 False,
      col ''party_b'' ''Party B'' KText 26 False,
      col ''vendor'' ''Vendor'' KText 22 False,
      col ''effective_date'' ''Effective'' KDate 13 False,
      col ''expiration_date'' ''Expires'' KDate 13 False,
      col ''term_months'' ''Term (months)'' KInteger 13 False,
      col ''auto_renewal'' ''Auto-renews'' KBool 12 False,
      col ''auto_renewal_notice_days'' ''Renewal notice (days)'' KInteger 18 False,
      col ''contract_value'' ''Value'' KNumber 16 False,
      col ''currency'' ''Currency'' KText 10 False,
      col ''payment_terms_days'' ''Payment terms (days)'' KInteger 18 False,
      col ''governing_law'' ''Governing law'' KText 20 False,
      col ''jurisdiction'' ''Jurisdiction'' KText 18 False,
      col ''risk_score'' ''Risk score'' KInteger 11 False,
      col ''risk_band'' ''Risk band'' KText 11 False,
      col ''has_unlimited_liability'' ''Unlimited liability'' KBool 16 False,
      col ''missing_mandatory_clauses'' ''Missing mandatory clauses'' KText 34 True,
      col ''clause_count'' ''Clauses'' KInteger 9 False,
      col ''needs_review'' ''Needs review'' KBool 12 False,
      col ''page_count'' ''Pages'' KInteger 8 False,
      col ''uploaded_at'' ''Uploaded'' KDatetime 18 False]"

definition CLAUSE_COLUMNS :: "export_column list" where
  "CLAUSE_COLUMNS =
     [col ''contract_title'' ''Contract'' KText 34 False,
      col ''clause_type'' ''Clause type'' KText 24 False,
      col ''clause_number'' ''No.'' KText 9 False,
      col ''title'' ''Heading'' KText 30 False,
      col ''page_start'' ''Page'' KInteger 7 False,
      col ''is_mandatory'' ''Mandatory'' KBool 11 False,
      col ''is_risk_flagged'' ''Risk flagged'' KBool 12 False,
      col ''confidence'' ''Confidence'' KNumber 11 False,
      col ''review_status'' ''Review'' KText 12 False,
      col ''attributes'' ''Extracted attributes'' KText 46 True,
      col ''summary'' ''Summary'' KText 46 True,
      col ''text'' ''Clause text'' KText 70 True]"

definition OBLIGATION_COLUMNS :: "export_column list" where
  "OBLIGATION_COLUMNS =
     [col ''contract_title'' ''Contract'' KText 34 False,
      col ''action'' ''Obligation'' KText 56 True,
      col ''responsible_party'' ''Responsible'' KText 26 False,
      col ''due_date'' ''Due'' KDate 13 False,
      col ''due_description'' ''Due (as worded)'' KText 32 True,
      col ''trigger_event'' ''Trigger'' KText 28 True,
      col ''frequency'' ''Frequency'' KText 14 False,
      col ''is_recurring'' ''Recurring'' KBool 11 False,
      col ''status'' ''Status'' KText 13 False,
      col ''penalty'' ''Penalty'' KText 32 True,
      col ''page_start'' ''Page'' KInteger 7 False]"

definition RISK_COLUMNS :: "export_column list" where
  "RISK_COLUMNS =
     [col ''contract_title'' ''Contract'' KText 34 False,
      col ''risk_type'' ''Risk type'' KText 24 False,
      col ''severity'' ''Severity'' KText 11 False,
      col ''category'' ''Category'' KText 16 False,
      col ''is_omission'' ''Absence'' KBool 10 False,
      col ''score_contribution'' ''Score impact'' KInteger 12 False,
      col ''description'' ''Description'' KText 56 True,
      col ''recommendation'' ''Recommendation'' KText 46 True,
      col ''page_start'' ''Page'' KInteger 7 False]"

definition KEY_DATE_COLUMNS :: "export_column list" where
  "KEY_DATE_COLUMNS =
     [col ''contract_title'' ''Contract'' KText 34 False,
      col ''date_type'' ''Type'' KText 20 False,
      col ''date_value'' ''Date'' KDate 13 False,
      col ''date_expression'' ''As worded'' KText 32 True,
      col ''description'' ''Description'' KText 42 True,
      col ''page_start'' ''Page'' KInteger 7 False]"

definition ENTITY_COLUMNS :: "export_column list" where
  "ENTITY_COLUMNS =
     [col ''contract_title'' ''Contract'' KText 34 False,
      col ''name'' ''Name'' KText 32 False,
      col ''legal_name'' ''Legal name'' KText 32 False,
      col ''entity_type'' ''Type'' KText 16 False,
      col ''role'' ''Role'' KText 16 False,
      col ''jurisdiction'' ''Jurisdiction'' KText 18 False,
      col ''registration_number'' ''Registration no.'' KText 20 False,
      col ''is_primary'' ''Primary'' KBool 9 False,
      col ''page_start'' ''Page'' KInteger 7 False]"

fun COLUMNS :: "export_entity \<Rightarrow> export_column list" where
  "COLUMNS EE_CONTRACTS = CONTRACT_COLUMNS"
| "COLUMNS EE_CLAUSES = CLAUSE_COLUMNS"
| "COLUMNS EE_OBLIGATIONS = OBLIGATION_COLUMNS"
| "COLUMNS EE_RISKS = RISK_COLUMNS"
| "COLUMNS EE_KEY_DATES = KEY_DATE_COLUMNS"
| "COLUMNS EE_ENTITIES = ENTITY_COLUMNS"

fun TITLES :: "export_entity \<Rightarrow> string" where
  "TITLES EE_CONTRACTS = ''Contracts''"
| "TITLES EE_CLAUSES = ''Clauses''"
| "TITLES EE_OBLIGATIONS = ''Obligations''"
| "TITLES EE_RISKS = ''Risks''"
| "TITLES EE_KEY_DATES = ''Key dates''"
| "TITLES EE_ENTITIES = ''Parties''"

fun contract_status_value :: "contract_status \<Rightarrow> string" where
  "contract_status_value CS_UPLOADED = ''uploaded''"
| "contract_status_value CS_PROCESSING = ''processing''"
| "contract_status_value CS_READY = ''ready''"
| "contract_status_value CS_FAILED = ''failed''"
| "contract_status_value CS_NEEDS_REVIEW = ''needs_review''"
| "contract_status_value CS_ARCHIVED = ''archived''"
| "contract_status_value CS_CONVERSION_FAILED = ''conversion_failed''"

subsection \<open>The tables an export reads\<close>

record clause_row =
  xc_contract_id :: uuid
  xc_project_id :: uuid
  xc_clause_type :: string
  xc_clause_number :: "string option"
  xc_title :: "string option"
  xc_section_title :: "string option"
  xc_page_start :: "int option"
  xc_is_mandatory :: bool
  xc_is_risk_flagged :: bool
  xc_confidence :: "rat option"
  xc_review_status :: string
  xc_attributes :: dict
  xc_summary :: "string option"
  xc_text :: string

record export_obligation = obligation_row +
  xo_due_description :: "string option"
  xo_trigger_event :: "string option"
  xo_frequency :: "string option"
  xo_is_recurring :: bool
  xo_penalty :: "string option"
  xo_page_start :: "int option"

record risk_row =
  xr_contract_id :: uuid
  xr_project_id :: uuid
  xr_risk_type :: string
  xr_severity :: string
  xr_category :: "string option"
  xr_is_omission :: bool
  xr_score_contribution :: "int option"
  xr_description :: string
  xr_recommendation :: "string option"
  xr_page_start :: "int option"

record key_date_row =
  xk_contract_id :: uuid
  xk_project_id :: uuid
  xk_date_type :: string
  xk_date_value :: "date option"
  xk_date_expression :: "string option"
  xk_description :: "string option"
  xk_page_start :: "int option"

record entity_row =
  xe_contract_id :: uuid
  xe_project_id :: uuid
  xe_name :: string
  xe_legal_name :: "string option"
  xe_entity_type :: string
  xe_role :: "string option"
  xe_jurisdiction :: "string option"
  xe_registration_number :: "string option"
  xe_is_primary :: bool
  xe_page_start :: "int option"

record export_tables =
  xt_repo :: repo_tables
  xt_projects :: "project_row list"
  xt_clauses :: "clause_row list"
  xt_obligations :: "export_obligation list"
  xt_risks :: "risk_row list"
  xt_key_dates :: "key_date_row list"
  xt_entities :: "entity_row list"

subsection \<open>Values\<close>

definition MAX_CELL_CHARS :: nat where
  "MAX_CELL_CHARS = 32000"

definition truncate_text :: "string \<Rightarrow> string" where
  "truncate_text t =
     (if length t \<le> MAX_CELL_CHARS then t
      else take MAX_CELL_CHARS t @ CHR 0x0A # ''[truncated - see the contract for the full text]'')"

definition opt_text :: "string option \<Rightarrow> cell" where
  "opt_text v = (case v of None \<Rightarrow> CNone | Some t \<Rightarrow> CText t)"

definition opt_truncated :: "string option \<Rightarrow> cell" where
  "opt_truncated v = (case v of None \<Rightarrow> CNone | Some t \<Rightarrow> CText (truncate_text t))"

definition opt_int :: "int option \<Rightarrow> cell" where
  "opt_int v = (case v of None \<Rightarrow> CNone | Some i \<Rightarrow> CInt i)"

definition opt_num :: "rat option \<Rightarrow> cell" where
  "opt_num v = (case v of None \<Rightarrow> CNone | Some q \<Rightarrow> CNum q)"

definition opt_bool :: "bool option \<Rightarrow> cell" where
  "opt_bool v = (case v of None \<Rightarrow> CNone | Some b \<Rightarrow> CBool b)"

definition opt_date :: "date option \<Rightarrow> cell" where
  "opt_date v = (case v of None \<Rightarrow> CNone | Some d \<Rightarrow> CDate d)"

definition attribute_text :: "json \<Rightarrow> string" where
  "attribute_text v =
     (case v of
        JNull \<Rightarrow> ''not specified''
      | JBool b \<Rightarrow> if b then ''yes'' else ''no''
      | JArr xs \<Rightarrow> if xs = [] then ''none'' else join '', '' (map py_str xs)
      | JObj d \<Rightarrow> join ''; '' (map (\<lambda>(k, w). k @ ''='' @ py_str w) d)
      | _ \<Rightarrow> py_str v)"

definition flatten_attributes :: "dict \<Rightarrow> string" where
  "flatten_attributes d =
     truncate_text (join [CHR 0x0A] (map (\<lambda>(k, v).
       map (\<lambda>c. if c = CHR ''_'' then CHR '' '' else c) k @ '': '' @ attribute_text v) d))"

subsection \<open>Rows\<close>

definition MASKED_CLAUSE_TYPES :: "string list" where
  "MASKED_CLAUSE_TYPES = [''confidentiality'', ''non_solicit'', ''exclusivity'']"

definition MASK_PLACEHOLDER :: string where
  "MASK_PLACEHOLDER = ''[Withheld - requires clause review permission]''"

definition contract_row_cells :: "(uuid \<times> string) list \<Rightarrow> repo_contract \<times> contract_metadata option \<Rightarrow> sheet_row" where
  "contract_row_cells project_names cm =
     (case cm of (c, m) \<Rightarrow>
       [(''contract_id'', CText (uuid_str (c_id c))),
        (''title'', opt_text (c_title c)),
        (''file_name'', CText (ec_original_file_name c)),
        (''project'', CText (case dict_get project_names (c_project_id c) of None \<Rightarrow> [] | Some n \<Rightarrow> n)),
        (''agreement_type'', opt_text (c_agreement_type c)),
        (''status'', CText (contract_status_value (c_status c))),
        (''party_a'', opt_text (meta m cm_party_a)),
        (''party_b'', opt_text (meta m cm_party_b)),
        (''vendor'', opt_text (meta m cm_vendor)),
        (''effective_date'', opt_date (meta m cm_effective_date)),
        (''expiration_date'', opt_date (meta m cm_expiration_date)),
        (''term_months'', opt_int (meta m cm_term_months)),
        (''auto_renewal'', opt_bool (meta m cm_auto_renewal)),
        (''auto_renewal_notice_days'', opt_int (meta m cm_auto_renewal_notice_days)),
        (''contract_value'', opt_num (meta m cm_contract_value)),
        (''currency'', opt_text (meta m cm_currency)),
        (''payment_terms_days'', opt_int (meta m cm_payment_terms_days)),
        (''governing_law'', opt_text (meta m cm_governing_law)),
        (''jurisdiction'', opt_text (meta m cm_jurisdiction)),
        (''risk_score'', opt_int (meta m cm_risk_score)),
        (''risk_band'', opt_text (meta m cm_risk_band)),
        (''has_unlimited_liability'', opt_bool (meta m cm_has_unlimited_liability)),
        (''missing_mandatory_clauses'', CText (join '', ''
          (case m of None \<Rightarrow> [] | Some r \<Rightarrow> cm_missing_mandatory_clauses r))),
        (''clause_count'', opt_int (map_option cm_clause_count m)),
        (''needs_review'', CBool (c_needs_review c)),
        (''page_count'', opt_int (c_page_count c)),
        (''uploaded_at'', CTime (rc_created_at c))])"

definition title_of :: "(uuid \<times> string) list \<Rightarrow> uuid \<Rightarrow> cell" where
  "title_of titles cid = CText (case dict_get titles cid of None \<Rightarrow> [] | Some t \<Rightarrow> t)"

definition or_text :: "string option \<Rightarrow> string option \<Rightarrow> string option" where
  "or_text a b = (if truthy_text a then a else b)"

definition clause_hidden :: "bool \<Rightarrow> clause_row \<Rightarrow> bool" where
  "clause_hidden may_see_masked k \<longleftrightarrow> \<not> may_see_masked \<and> xc_clause_type k \<in> set MASKED_CLAUSE_TYPES"

definition clause_cells :: "bool \<Rightarrow> (uuid \<times> string) list \<Rightarrow> clause_row \<Rightarrow> sheet_row" where
  "clause_cells may_see_masked titles k =
     (let hide = clause_hidden may_see_masked k
      in [(''contract_title'', title_of titles (xc_contract_id k)),
          (''clause_type'', CText (xc_clause_type k)),
          (''clause_number'', opt_text (xc_clause_number k)),
          (''title'', opt_text (or_text (xc_title k) (xc_section_title k))),
          (''page_start'', opt_int (xc_page_start k)),
          (''is_mandatory'', CBool (xc_is_mandatory k)),
          (''is_risk_flagged'', CBool (xc_is_risk_flagged k)),
          (''confidence'', opt_num (xc_confidence k)),
          (''review_status'', CText (xc_review_status k)),
          (''attributes'', CText (flatten_attributes (xc_attributes k))),
          (''summary'', if hide then CText MASK_PLACEHOLDER else opt_text (xc_summary k)),
          (''text'', CText (if hide then MASK_PLACEHOLDER else truncate_text (xc_text k)))])"

definition obligation_cells :: "(uuid \<times> string) list \<Rightarrow> export_obligation \<Rightarrow> sheet_row" where
  "obligation_cells titles ob =
     [(''contract_title'', title_of titles (ob_contract_id ob)),
      (''action'', CText (truncate_text (ob_action ob))),
      (''responsible_party'', opt_text (ob_responsible_party ob)),
      (''due_date'', opt_date (ob_due_date ob)),
      (''due_description'', opt_text (xo_due_description ob)),
      (''trigger_event'', opt_text (xo_trigger_event ob)),
      (''frequency'', opt_text (xo_frequency ob)),
      (''is_recurring'', CBool (xo_is_recurring ob)),
      (''status'', CText (obligation_status_value (ob_status ob))),
      (''penalty'', opt_truncated (xo_penalty ob)),
      (''page_start'', opt_int (xo_page_start ob))]"

definition risk_cells :: "(uuid \<times> string) list \<Rightarrow> risk_row \<Rightarrow> sheet_row" where
  "risk_cells titles k =
     [(''contract_title'', title_of titles (xr_contract_id k)),
      (''risk_type'', CText (xr_risk_type k)),
      (''severity'', CText (xr_severity k)),
      (''category'', opt_text (xr_category k)),
      (''is_omission'', CBool (xr_is_omission k)),
      (''score_contribution'', opt_int (xr_score_contribution k)),
      (''description'', CText (truncate_text (xr_description k))),
      (''recommendation'', opt_truncated (xr_recommendation k)),
      (''page_start'', opt_int (xr_page_start k))]"

definition key_date_cells :: "(uuid \<times> string) list \<Rightarrow> key_date_row \<Rightarrow> sheet_row" where
  "key_date_cells titles k =
     [(''contract_title'', title_of titles (xk_contract_id k)),
      (''date_type'', CText (xk_date_type k)),
      (''date_value'', opt_date (xk_date_value k)),
      (''date_expression'', opt_text (xk_date_expression k)),
      (''description'', opt_truncated (xk_description k)),
      (''page_start'', opt_int (xk_page_start k))]"

definition entity_cells :: "(uuid \<times> string) list \<Rightarrow> entity_row \<Rightarrow> sheet_row" where
  "entity_cells titles k =
     [(''contract_title'', title_of titles (xe_contract_id k)),
      (''name'', CText (xe_name k)),
      (''legal_name'', opt_text (xe_legal_name k)),
      (''entity_type'', CText (xe_entity_type k)),
      (''role'', opt_text (xe_role k)),
      (''jurisdiction'', opt_text (xe_jurisdiction k)),
      (''registration_number'', opt_text (xe_registration_number k)),
      (''is_primary'', CBool (xe_is_primary k)),
      (''page_start'', opt_int (xe_page_start k))]"

subsection \<open>The builder\<close>

record dataset_builder =
  xb_project_ids :: "uuid list"
  xb_permissions :: "string list"
  xb_is_system_admin :: bool

definition may_see_masked :: "dataset_builder \<Rightarrow> bool" where
  "may_see_masked b \<longleftrightarrow> xb_is_system_admin b \<or> perm_value P_KNOWLEDGE_REVIEW \<in> set (xb_permissions b)"

text \<open>Unknown names are skipped and repeated ones taken once.\<close>

definition resolve_entities :: "string list \<Rightarrow> export_entity list" where
  "resolve_entities names =
     (if names = [] then DEFAULT_ENTITIES
      else let resolved = fold (\<lambda>name acc. case entity_of_value name of
               None \<Rightarrow> acc
             | Some e \<Rightarrow> if e \<in> set acc then acc else acc @ [e]) names []
           in if resolved = [] then DEFAULT_ENTITIES else resolved)"

definition columns_for :: "export_entity \<Rightarrow> (string \<times> string list) list \<Rightarrow> export_column list" where
  "columns_for e selection =
     (case dict_get selection (entity_value e) of
        None \<Rightarrow> COLUMNS e
      | Some wanted \<Rightarrow>
          if wanted = [] then COLUMNS e
          else let narrowed = filter (\<lambda>c. col_key c \<in> set wanted) (COLUMNS e)
               in if narrowed = [] then COLUMNS e else narrowed)"

text \<open>\<open>filters.model_dump(exclude_none=True, mode="json")\<close> is an argument; an absent list of
  contracts and an empty one are the same.\<close>

definition describe_filters :: "dict option \<Rightarrow> uuid list \<Rightarrow> dict" where
  "describe_filters dumped contract_ids =
     (let described = (case dumped of None \<Rightarrow> []
        | Some d \<Rightarrow> filter (\<lambda>(k, v). v \<notin> {JArr [], JObj [], JStr []}) d)
      in if contract_ids = [] then described
         else AList.update ''contract_ids'' (JArr (map (JStr \<circ> uuid_str) contract_ids)) described)"

text \<open>The newest contract first.\<close>

definition load_contracts :: "date \<Rightarrow> dataset_builder \<Rightarrow> contract_filters option \<Rightarrow> uuid list \<Rightarrow> repo_tables \<Rightarrow>
    exn + (repo_contract \<times> contract_metadata option) list" where
  "load_contracts today b filters contract_ids d =
     map_sum id (\<lambda>rows. sort_key (\<lambda>cm. - rc_created_at (fst cm))
         (if contract_ids = [] then rows else filter (\<lambda>cm. c_id (fst cm) \<in> set contract_ids) rows))
       (filtered_query today (xb_project_ids b) filters d)"

definition load_project_names :: "dataset_builder \<Rightarrow> export_tables \<Rightarrow> (uuid \<times> string) list" where
  "load_project_names b d =
     map (\<lambda>p. (pr_id p, pr_name p)) (filter (\<lambda>p. pr_id p \<in> set (xb_project_ids b)) (xt_projects d))"

definition selected :: "dataset_builder \<Rightarrow> uuid list \<Rightarrow> ('r \<Rightarrow> uuid) \<Rightarrow> ('r \<Rightarrow> uuid) \<Rightarrow> 'r list \<Rightarrow> 'r list" where
  "selected b ids contract_of_row project_of_row rows =
     filter (\<lambda>r. contract_of_row r \<in> set ids \<and> project_of_row r \<in> set (xb_project_ids b)) rows"

definition selected_clauses :: "dataset_builder \<Rightarrow> uuid list \<Rightarrow> export_tables \<Rightarrow> clause_row list" where
  "selected_clauses b ids d = selected b ids xc_contract_id xc_project_id (xt_clauses d)"

definition masked_count :: "dataset_builder \<Rightarrow> clause_row list \<Rightarrow> nat" where
  "masked_count b ks = length (filter (clause_hidden (may_see_masked b)) ks)"

definition contract_titles :: "(repo_contract \<times> contract_metadata option) list \<Rightarrow> (uuid \<times> string) list" where
  "contract_titles contracts =
     map (\<lambda>cm. (c_id (fst cm),
       case c_title (fst cm) of Some t \<Rightarrow> if t = [] then ec_original_file_name (fst cm) else t
       | None \<Rightarrow> ec_original_file_name (fst cm))) contracts"

text \<open>The rows and notes of one sheet, and how many clause bodies it withholds.\<close>

definition sheet_content :: "dataset_builder \<Rightarrow> (repo_contract \<times> contract_metadata option) list \<Rightarrow>
    (uuid \<times> string) list \<Rightarrow> export_tables \<Rightarrow> export_entity \<Rightarrow> sheet_row list \<times> string list \<times> nat" where
  "sheet_content b contracts project_names d e =
     (let ids = map (c_id \<circ> fst) contracts;
          titles = contract_titles contracts
      in if e = EE_CONTRACTS then (map (contract_row_cells project_names) contracts, [], 0)
         else if ids = [] then ([], [], 0)
         else case e of
           EE_CLAUSES \<Rightarrow>
             (let ks = selected_clauses b ids d; n = masked_count b ks
              in (map (clause_cells (may_see_masked b) titles) ks,
                  if n = 0 then [] else [decimal n @ '' clause body/bodies withheld by clause masking.''], n))
         | EE_OBLIGATIONS \<Rightarrow>
             (map (obligation_cells titles) (selected b ids ob_contract_id ob_project_id (xt_obligations d)), [], 0)
         | EE_RISKS \<Rightarrow>
             (map (risk_cells titles) (selected b ids xr_contract_id xr_project_id (xt_risks d)), [], 0)
         | EE_KEY_DATES \<Rightarrow>
             (map (key_date_cells titles) (selected b ids xk_contract_id xk_project_id (xt_key_dates d)), [], 0)
         | _ \<Rightarrow>
             (map (entity_cells titles) (selected b ids xe_contract_id xe_project_id (xt_entities d)), [], 0))"

record build_request =
  br_export_id :: uuid
  br_entities :: "string list"
  br_filters :: "contract_filters option"
  br_filter_dump :: "dict option"
  br_contract_ids :: "uuid list"
  br_generated_by :: string
  br_scope_label :: string
  br_field_selection :: "(string \<times> string list) list"

definition make_sheet :: "build_request \<Rightarrow> export_entity \<Rightarrow> sheet_row list \<Rightarrow> string list \<Rightarrow> export_sheet" where
  "make_sheet q e rows notes =
     \<lparr>sh_entity = e, sh_title = TITLES e, sh_columns = columns_for e (br_field_selection q),
      sh_rows = rows, sh_notes = notes\<rparr>"

definition make_dataset :: "instant \<Rightarrow> build_request \<Rightarrow> string list \<Rightarrow> export_sheet list \<Rightarrow> nat \<Rightarrow> export_dataset" where
  "make_dataset now q names sheets masked_total =
     \<lparr>ds_export_id = br_export_id q, ds_generated_at = now, ds_generated_by = br_generated_by q,
      ds_scope_label = br_scope_label q, ds_project_names = names,
      ds_filters = describe_filters (br_filter_dump q) (br_contract_ids q), ds_sheets = sheets,
      ds_masked_note =
        (if masked_total = 0 then None
         else Some (decimal masked_total @ '' clause body/bodies were withheld because this account ''
           @ ''does not hold clause review permission.''))\<rparr>"

definition build_dataset :: "date \<Rightarrow> instant \<Rightarrow> dataset_builder \<Rightarrow> build_request \<Rightarrow> export_tables \<Rightarrow>
    exn + export_dataset" where
  "build_dataset today now b q d =
     (let requested = resolve_entities (br_entities q)
      in if xb_project_ids b = []
         then Inr (make_dataset now q [] (map (\<lambda>e. make_sheet q e [] []) requested) 0)
         else case load_contracts today b (br_filters q) (br_contract_ids q) (xt_repo d) of
           Inl e \<Rightarrow> Inl e
         | Inr contracts \<Rightarrow>
             (let project_names = load_project_names b d;
                  content = sheet_content b contracts project_names d
              in Inr (make_dataset now q (map snd project_names)
                   (map (\<lambda>e. case content e of (rows, notes, n) \<Rightarrow> make_sheet q e rows notes) requested)
                   (sum_list (map (\<lambda>e. case content e of (rows, notes, n) \<Rightarrow> n) requested)))))"

subsection \<open>The worksheet\<close>

text \<open>What \<open>_write_cell\<close> asks XlsxWriter to write: \<open>WStrOf v\<close> is \<open>write_string(str(v))\<close>.\<close>

datatype written = WBlank | WString string | WNumber rat | WDate date | WTime instant | WStrOf cell

fun cell_truthy :: "cell \<Rightarrow> bool" where
  "cell_truthy CNone = False"
| "cell_truthy (CText t) = (t \<noteq> [])"
| "cell_truthy (CInt i) = (i \<noteq> 0)"
| "cell_truthy (CNum q) = (q \<noteq> 0)"
| "cell_truthy (CBool b) = b"
| "cell_truthy _ = True"

definition write_cell :: "export_column \<Rightarrow> cell \<Rightarrow> written" where
  "write_cell c v =
     (if v = CNone \<or> v = CText [] then WBlank
      else case (col_kind c, v) of
        (KBool, _) \<Rightarrow> WString (if cell_truthy v then ''Yes'' else ''No'')
      | (KNumber, CInt i) \<Rightarrow> WNumber (of_int i)
      | (KNumber, CNum q) \<Rightarrow> WNumber q
      | (KNumber, CBool b) \<Rightarrow> WNumber (if b then 1 else 0)
      | (KInteger, CInt i) \<Rightarrow> WNumber (of_int i)
      | (KInteger, CNum q) \<Rightarrow> WNumber q
      | (KInteger, CBool b) \<Rightarrow> WNumber (if b then 1 else 0)
      | (KDate, CDate d) \<Rightarrow> WDate d
      | (KDate, CTime t) \<Rightarrow> WTime t
      | (KDatetime, CTime t) \<Rightarrow> WTime t
      | _ \<Rightarrow> WStrOf v)"

definition MAX_ROWS_PER_SHEET :: nat where
  "MAX_ROWS_PER_SHEET = 1048575"

definition row_writes :: "export_column list \<Rightarrow> nat \<times> sheet_row \<Rightarrow> (nat \<times> nat \<times> written) list" where
  "row_writes cols ir =
     map (\<lambda>(j, c). (fst ir, j, write_cell c (case dict_get (snd ir) (col_key c) of None \<Rightarrow> CNone | Some v \<Rightarrow> v)))
       (enumerate 0 cols)"

definition write_sheet :: "export_sheet \<Rightarrow> (nat \<times> nat \<times> written) list" where
  "write_sheet s =
     map (\<lambda>(j, c). (0, j, WString (col_label c))) (enumerate 0 (sh_columns s)) @
     concat (map (row_writes (sh_columns s)) (enumerate 1 (take MAX_ROWS_PER_SHEET (sh_rows s)))) @
     (if sh_rows s = [] then [(1, 0, WString ''No rows matched this export.'')] else []) @
     (if MAX_ROWS_PER_SHEET < length (sh_rows s)
      then [(MAX_ROWS_PER_SHEET + 1, 0,
        WString ''Truncated at 1,048,575 rows - narrow the filters to export the rest.'')] else [])"

text \<open>The documented size of a worksheet: XlsxWriter ignores a write beyond it.\<close>

definition on_grid :: "nat \<times> nat \<times> 'w \<Rightarrow> bool" where
  "on_grid w \<longleftrightarrow> fst w < 1048576 \<and> fst (snd w) < 16384"

definition sheet_shown :: "export_sheet \<Rightarrow> (nat \<times> nat \<times> written) list" where
  "sheet_shown s = filter on_grid (write_sheet s)"

subsection \<open>Cells fit their columns\<close>

fun fits :: "column_kind \<Rightarrow> cell \<Rightarrow> bool" where
  "fits k CNone = True"
| "fits KText (CText t) = True"
| "fits KNumber (CNum q) = True"
| "fits KInteger (CInt i) = True"
| "fits KDate (CDate d) = True"
| "fits KDatetime (CTime t) = True"
| "fits KBool (CBool b) = True"
| "fits _ _ = False"

lemma fits_opt [simp]:
  "fits KText (opt_text t)" "fits KText (opt_truncated t)" "fits KNumber (opt_num q)" "fits KInteger (opt_int i)"
  "fits KDate (opt_date d)" "fits KBool (opt_bool b)" "fits KText (title_of ts c)"
  by (simp_all add: opt_text_def opt_truncated_def opt_num_def opt_int_def opt_date_def opt_bool_def
      title_of_def split: option.split)

definition row_typed :: "export_column list \<Rightarrow> sheet_row \<Rightarrow> bool" where
  "row_typed cols row \<longleftrightarrow>
     list_all (\<lambda>c. case dict_get row (col_key c) of None \<Rightarrow> False | Some v \<Rightarrow> fits (col_kind c) v) cols"

lemma contract_rows_typed: "row_typed CONTRACT_COLUMNS (contract_row_cells ns cm)"
  by (cases cm) (simp add: row_typed_def CONTRACT_COLUMNS_def col_def contract_row_cells_def dict_get_def)

lemma clause_rows_typed: "row_typed CLAUSE_COLUMNS (clause_cells m ts k)"
  by (simp add: row_typed_def CLAUSE_COLUMNS_def col_def clause_cells_def dict_get_def Let_def)

lemma obligation_rows_typed: "row_typed OBLIGATION_COLUMNS (obligation_cells ts k)"
  by (simp add: row_typed_def OBLIGATION_COLUMNS_def col_def obligation_cells_def dict_get_def)

lemma risk_rows_typed: "row_typed RISK_COLUMNS (risk_cells ts k)"
  by (simp add: row_typed_def RISK_COLUMNS_def col_def risk_cells_def dict_get_def)

lemma key_date_rows_typed: "row_typed KEY_DATE_COLUMNS (key_date_cells ts k)"
  by (simp add: row_typed_def KEY_DATE_COLUMNS_def col_def key_date_cells_def dict_get_def)

lemma entity_rows_typed: "row_typed ENTITY_COLUMNS (entity_cells ts k)"
  by (simp add: row_typed_def ENTITY_COLUMNS_def col_def entity_cells_def dict_get_def)

lemmas rows_typed = contract_rows_typed clause_rows_typed obligation_rows_typed risk_rows_typed
  key_date_rows_typed entity_rows_typed

lemma sheet_content_simps:
  "sheet_content b cs ns d EE_CONTRACTS = (map (contract_row_cells ns) cs, [], 0)"
  "sheet_content b [] ns d e = ([], [], 0)"
  "cs \<noteq> [] \<Longrightarrow> sheet_content b cs ns d EE_CLAUSES =
     (map (clause_cells (may_see_masked b) (contract_titles cs)) (selected_clauses b (map (c_id \<circ> fst) cs) d),
      if masked_count b (selected_clauses b (map (c_id \<circ> fst) cs) d) = 0 then []
      else [decimal (masked_count b (selected_clauses b (map (c_id \<circ> fst) cs) d)) @
        '' clause body/bodies withheld by clause masking.''],
      masked_count b (selected_clauses b (map (c_id \<circ> fst) cs) d))"
  "cs \<noteq> [] \<Longrightarrow> sheet_content b cs ns d EE_OBLIGATIONS = (map (obligation_cells (contract_titles cs))
     (selected b (map (c_id \<circ> fst) cs) ob_contract_id ob_project_id (xt_obligations d)), [], 0)"
  "cs \<noteq> [] \<Longrightarrow> sheet_content b cs ns d EE_RISKS = (map (risk_cells (contract_titles cs))
     (selected b (map (c_id \<circ> fst) cs) xr_contract_id xr_project_id (xt_risks d)), [], 0)"
  "cs \<noteq> [] \<Longrightarrow> sheet_content b cs ns d EE_KEY_DATES = (map (key_date_cells (contract_titles cs))
     (selected b (map (c_id \<circ> fst) cs) xk_contract_id xk_project_id (xt_key_dates d)), [], 0)"
  "cs \<noteq> [] \<Longrightarrow> sheet_content b cs ns d EE_ENTITIES = (map (entity_cells (contract_titles cs))
     (selected b (map (c_id \<circ> fst) cs) xe_contract_id xe_project_id (xt_entities d)), [], 0)"
  by (simp_all add: sheet_content_def Let_def)

lemma content_typed:
  assumes "sheet_content b cs ns d e = (rows, notes', n)" "r \<in> set rows"
  shows "row_typed (COLUMNS e) r"
proof (cases "cs = []")
  case True
  then show ?thesis using assms by (auto simp: sheet_content_def Let_def split: if_splits)
next
  case False
  then show ?thesis using assms by (cases e) (auto simp: sheet_content_simps rows_typed)
qed

lemma COLUMNS_nonempty: "COLUMNS e \<noteq> []"
  by (cases e) (simp_all add: CONTRACT_COLUMNS_def CLAUSE_COLUMNS_def OBLIGATION_COLUMNS_def
      RISK_COLUMNS_def KEY_DATE_COLUMNS_def ENTITY_COLUMNS_def)

lemma columns_for_subset: "set (columns_for e sel) \<subseteq> set (COLUMNS e) \<and> columns_for e sel \<noteq> []"
  using COLUMNS_nonempty[of e] by (auto simp: columns_for_def Let_def split: option.splits)

lemma build_dataset_cases:
  assumes "build_dataset today now b q d = Inr ds"
  obtains (empty) "xb_project_ids b = []"
      "ds = make_dataset now q [] (map (\<lambda>e. make_sheet q e [] []) (resolve_entities (br_entities q))) 0"
    | (full) cs where "xb_project_ids b \<noteq> []"
      "load_contracts today b (br_filters q) (br_contract_ids q) (xt_repo d) = Inr cs"
      "ds_sheets ds = map (\<lambda>e. case sheet_content b cs (load_project_names b d) d e of
          (rows, ns, n) \<Rightarrow> make_sheet q e rows ns) (resolve_entities (br_entities q))"
proof (cases "xb_project_ids b = []")
  case True
  then show ?thesis using assms empty by (simp add: build_dataset_def Let_def)
next
  case False
  then obtain cs where cs: "load_contracts today b (br_filters q) (br_contract_ids q) (xt_repo d) = Inr cs"
    using assms by (cases "load_contracts today b (br_filters q) (br_contract_ids q) (xt_repo d)")
      (simp_all add: build_dataset_def Let_def)
  have "ds_sheets ds = map (\<lambda>e. case sheet_content b cs (load_project_names b d) d e of
          (rows, ns, n) \<Rightarrow> make_sheet q e rows ns) (resolve_entities (br_entities q))"
    using assms False cs by (auto simp: build_dataset_def Let_def make_dataset_def)
  then show ?thesis by (rule full[OF False cs])
qed

text \<open>C12: Every dataset is well typed: the columns of a sheet are columns of its entity, at least
  one; every row has a cell for each of them, and the cell is empty or of the column's kind. So the
  spreadsheet writer never falls back to writing a number or a date as text.\<close>

theorem dataset_is_well_typed:
  assumes "build_dataset today now b q d = Inr ds" "s \<in> set (ds_sheets ds)"
  shows "set (sh_columns s) \<subseteq> set (COLUMNS (sh_entity s)) \<and> sh_columns s \<noteq> [] \<and>
    (\<forall>row \<in> set (sh_rows s). \<forall>c \<in> set (sh_columns s).
       \<exists>v. dict_get row (col_key c) = Some v \<and> fits (col_kind c) v \<and>
         (\<forall>u. write_cell c v = WStrOf u \<longrightarrow> col_kind c = KText \<and> (\<exists>t. u = CText t)))"
proof -
  obtain e rows ns where s: "s = make_sheet q e rows ns" and typed: "\<forall>r \<in> set rows. row_typed (COLUMNS e) r"
    using assms(1)
  proof (cases rule: build_dataset_cases)
    case empty
    then show ?thesis using assms(2) by (auto simp: make_dataset_def intro: that)
  next
    case (full cs)
    then obtain e where e: "s = (case sheet_content b cs (load_project_names b d) d e of
        (rows, ns, n) \<Rightarrow> make_sheet q e rows ns)"
      using assms(2) by auto
    obtain rows ns n where c: "sheet_content b cs (load_project_names b d) d e = (rows, ns, n)"
      by (cases "sheet_content b cs (load_project_names b d) d e") auto
    then show ?thesis using e content_typed[OF c] by (intro that[of e rows ns]) simp_all
  qed
  have "\<exists>v. dict_get row (col_key c) = Some v \<and> fits (col_kind c) v \<and>
         (\<forall>u. write_cell c v = WStrOf u \<longrightarrow> col_kind c = KText \<and> (\<exists>t. u = CText t))"
    if "row \<in> set rows" "c \<in> set (COLUMNS e)" for row c
  proof -
    have "case dict_get row (col_key c) of None \<Rightarrow> False | Some v \<Rightarrow> fits (col_kind c) v"
      using typed that by (simp add: row_typed_def list_all_iff)
    then obtain v where v: "dict_get row (col_key c) = Some v" "fits (col_kind c) v"
      by (cases "dict_get row (col_key c)") auto
    have "col_kind c = KText \<and> (\<exists>t. u = CText t)" if "write_cell c v = WStrOf u" for u
      using v(2) that by (cases "col_kind c"; cases v) (auto simp: write_cell_def split: if_splits)
    then show ?thesis using v by blast
  qed
  then show ?thesis using s columns_for_subset[of e "br_field_selection q"] by (auto simp: make_sheet_def)
qed

subsection \<open>What an export can reveal\<close>

definition of_projects :: "uuid list \<Rightarrow> ('r \<Rightarrow> uuid) \<Rightarrow> 'r list \<Rightarrow> 'r list" where
  "of_projects ps f rows = filter (\<lambda>r. f r \<in> set ps) rows"

text \<open>Two databases that hold the same rows of the given projects.\<close>

definition same_view :: "uuid list \<Rightarrow> export_tables \<Rightarrow> export_tables \<Rightarrow> bool" where
  "same_view ps d d' \<longleftrightarrow>
     of_projects ps c_project_id (rt_contracts (xt_repo d)) = of_projects ps c_project_id (rt_contracts (xt_repo d')) \<and>
     (\<forall>c \<in> set (of_projects ps c_project_id (rt_contracts (xt_repo d))).
        metadata_for (xt_repo d) (c_id c) = metadata_for (xt_repo d') (c_id c)) \<and>
     of_projects ps pr_id (xt_projects d) = of_projects ps pr_id (xt_projects d') \<and>
     of_projects ps xc_project_id (xt_clauses d) = of_projects ps xc_project_id (xt_clauses d') \<and>
     of_projects ps ob_project_id (xt_obligations d) = of_projects ps ob_project_id (xt_obligations d') \<and>
     of_projects ps xr_project_id (xt_risks d) = of_projects ps xr_project_id (xt_risks d') \<and>
     of_projects ps xk_project_id (xt_key_dates d) = of_projects ps xk_project_id (xt_key_dates d') \<and>
     of_projects ps xe_project_id (xt_entities d) = of_projects ps xe_project_id (xt_entities d')"

lemma selected_of_projects:
  "selected b ids f g rows = filter (\<lambda>r. f r \<in> set ids) (of_projects (xb_project_ids b) g rows)"
  by (simp add: selected_def of_projects_def conj_commute)

lemma filtered_query_view:
  assumes "of_projects ps c_project_id (rt_contracts d) = of_projects ps c_project_id (rt_contracts d')"
    and "\<forall>c \<in> set (of_projects ps c_project_id (rt_contracts d)). metadata_for d (c_id c) = metadata_for d' (c_id c)"
  shows "filtered_query today ps f d = filtered_query today ps f d'"
proof -
  have split: "filter (listed_in ps) cs = filter (\<lambda>c. c_deleted_at c = None) (of_projects ps c_project_id cs)" for cs
    by (simp add: listed_in_def[abs_def] of_projects_def conj_commute)
  have "map (\<lambda>c. (c, metadata_for d (c_id c))) (filter (listed_in ps) (rt_contracts d)) =
      map (\<lambda>c. (c, metadata_for d' (c_id c))) (filter (listed_in ps) (rt_contracts d'))"
    unfolding split assms(1)[symmetric] using assms(2) by (intro map_cong) auto
  then show ?thesis unfolding filtered_query_def by (simp only:)
qed

lemma sheet_content_view:
  assumes "same_view (xb_project_ids b) d d'"
  shows "sheet_content b cs ns d e = sheet_content b cs ns d' e"
proof (cases "cs = []")
  case True
  then show ?thesis by (cases e) (simp_all add: sheet_content_simps)
next
  case False
  then show ?thesis using assms
    by (cases e) (simp_all add: sheet_content_simps selected_clauses_def selected_of_projects same_view_def)
qed

text \<open>An export depends on nothing outside the projects it was given: two databases that hold
  the same rows of those projects yield the same dataset, whatever the request names and whatever else
  they hold.\<close>

theorem export_ignores_other_projects:
  assumes "same_view (xb_project_ids b) d d'"
  shows "build_dataset today now b q d = build_dataset today now b q d'"
proof -
  have "filtered_query today (xb_project_ids b) f (xt_repo d) = filtered_query today (xb_project_ids b) f (xt_repo d')" for f
    using assms by (intro filtered_query_view) (simp_all add: same_view_def)
  then have contracts: "load_contracts today b f ids (xt_repo d) = load_contracts today b f ids (xt_repo d')" for f ids
    unfolding load_contracts_def by simp
  have names: "load_project_names b d = load_project_names b d'"
    using assms by (simp add: load_project_names_def same_view_def of_projects_def)
  show ?thesis
    unfolding build_dataset_def sheet_content_view[OF assms] contracts names by (rule refl)
qed

text \<open>The wording of the clauses of a masked type removed.\<close>

definition erase_wording :: "export_tables \<Rightarrow> export_tables" where
  "erase_wording d = d\<lparr>xt_clauses := map (\<lambda>k.
     if xc_clause_type k \<in> set MASKED_CLAUSE_TYPES then k\<lparr>xc_summary := None, xc_text := []\<rparr> else k) (xt_clauses d)\<rparr>"

text \<open>A caller without the review permission learns nothing of the wording of a masked clause:
  the dataset is the one built of a database where the summary and the text of those clauses are
  erased.\<close>

theorem masked_wording_never_leaves:
  assumes "\<not> may_see_masked b"
  shows "build_dataset today now b q d = build_dataset today now b q (erase_wording d)"
proof -
  let ?erase = "\<lambda>k. if xc_clause_type k \<in> set MASKED_CLAUSE_TYPES then k\<lparr>xc_summary := None, xc_text := []\<rparr> else k"
  have sel: "selected_clauses b ids (erase_wording d) = map ?erase (selected_clauses b ids d)" for ids
    by (simp add: selected_clauses_def selected_def erase_wording_def filter_map o_def if_distrib cong: filter_cong if_cong)
  have cells: "clause_cells False ts (?erase k) = clause_cells False ts k" for ts k
    by (simp add: clause_cells_def clause_hidden_def)
  have count: "masked_count b (map ?erase ks) = masked_count b ks" for ks
    by (simp add: masked_count_def filter_map o_def clause_hidden_def if_distrib cong: filter_cong if_cong)
  have content: "sheet_content b cs ns (erase_wording d) e = sheet_content b cs ns d e" for cs ns e
  proof (cases "cs = []")
    case True
    then show ?thesis by (cases e) (simp_all add: sheet_content_simps)
  next
    case False
    then show ?thesis using assms
      by (cases e) (simp_all add: sheet_content_simps sel count cells o_def, simp_all add: erase_wording_def)
  qed
  have same: "xt_repo (erase_wording d) = xt_repo d" "load_project_names b (erase_wording d) = load_project_names b d"
    by (simp_all add: erase_wording_def load_project_names_def)
  show ?thesis unfolding build_dataset_def same content by (rule refl)
qed

text \<open>The list of masked types names \<open>non_solicit\<close>; the taxonomy's type is \<open>non_solicitation\<close>, and its
  wording is exported to every reader.\<close>

lemma non_solicitation_is_not_masked:
  "dict_get (clause_cells m ts (k\<lparr>xc_clause_type := ''non_solicitation'', xc_text := t\<rparr>)) ''text'' =
     Some (CText (truncate_text t))"
  by (simp add: clause_cells_def clause_hidden_def MASKED_CLAUSE_TYPES_def dict_get_def Let_def)

text \<open>A sheet with more rows than the format holds is cut without a word: the notice is written
  to the row after the last row of the grid, so the sheet shown is the one of an export that has just
  the rows that fit.\<close>

theorem truncated_sheet_looks_complete:
  assumes "MAX_ROWS_PER_SHEET < length (sh_rows s)"
  shows "sheet_shown s = sheet_shown (s\<lparr>sh_rows := take MAX_ROWS_PER_SHEET (sh_rows s)\<rparr>)"
proof -
  have off: "\<not> on_grid (MAX_ROWS_PER_SHEET + 1, 0, w)" for w :: written
    by (simp add: on_grid_def MAX_ROWS_PER_SHEET_def)
  have "0 < MAX_ROWS_PER_SHEET" by (simp add: MAX_ROWS_PER_SHEET_def)
  then have "sh_rows s \<noteq> []" "take MAX_ROWS_PER_SHEET (sh_rows s) \<noteq> []" using assms by auto
  then show ?thesis using assms off by (simp add: sheet_shown_def write_sheet_def)
qed

subsection \<open>Rows for the witnesses\<close>

definition fx_request :: build_request where
  "fx_request = \<lparr>br_export_id = 50, br_entities = [''clauses''], br_filters = None, br_filter_dump = None,
     br_contract_ids = [], br_generated_by = ''a@b.c'', br_scope_label = ''One project'', br_field_selection = []\<rparr>"

definition fx_clause :: "uuid \<Rightarrow> uuid \<Rightarrow> string \<Rightarrow> clause_row" where
  "fx_clause cid pid txt = \<lparr>xc_contract_id = cid, xc_project_id = pid, xc_clause_type = ''confidentiality'',
     xc_clause_number = None, xc_title = None, xc_section_title = None, xc_page_start = None,
     xc_is_mandatory = True, xc_is_risk_flagged = False, xc_confidence = None, xc_review_status = ''pending'',
     xc_attributes = [], xc_summary = None, xc_text = txt\<rparr>"

definition fx_export_tables :: "clause_row list \<Rightarrow> export_tables" where
  "fx_export_tables ks = \<lparr>xt_repo = fx_tables, xt_projects = [], xt_clauses = ks, xt_obligations = [],
     xt_risks = [], xt_key_dates = [], xt_entities = []\<rparr>"

definition fx_reader :: dataset_builder where
  "fx_reader = \<lparr>xb_project_ids = [30], xb_permissions = [''knowledge:read''], xb_is_system_admin = False\<rparr>"

definition fx_clause_sheet :: export_dataset where
  "fx_clause_sheet = make_dataset 7 fx_request [] [make_sheet fx_request EE_CLAUSES
     [clause_cells False [(20, ''MSA'')] (fx_clause 20 30 ''secret'')]
     [''1 clause body/bodies withheld by clause masking.'']] 1"

lemma fx_build: "build_dataset 100 7 fx_reader fx_request (fx_export_tables [fx_clause 20 30 ''secret'']) = Inr fx_clause_sheet"
proof -
  have one: "decimal (Suc 0) = ''1''" by code_simp
  have masked: "may_see_masked fx_reader = False" by (simp add: may_see_masked_def fx_reader_def)
  have entities: "resolve_entities [''clauses''] = [EE_CLAUSES]" by code_simp
  have contracts: "load_contracts 100 fx_reader None [] fx_tables = Inr [(fx_repo 20 30 None, Some (fx_meta 20 (Some 70)))]"
    by (simp add: load_contracts_def filtered_query_def Let_def fx_reader_def fx_tables_def listed_in_def
        fx_repo_def fx_meta_def metadata_for_def)
  have hidden: "clause_hidden False (fx_clause 20 30 ''secret'')"
    by (simp add: clause_hidden_def fx_clause_def MASKED_CLAUSE_TYPES_def)
  have clauses: "selected_clauses fx_reader [20] (fx_export_tables [fx_clause 20 30 ''secret'']) = [fx_clause 20 30 ''secret'']"
    by (simp add: selected_clauses_def selected_def fx_reader_def fx_export_tables_def fx_clause_def)
  have titles: "contract_titles [(fx_repo 20 30 None, Some (fx_meta 20 (Some 70)))] = [(20, ''MSA'')]"
    by (simp add: contract_titles_def fx_repo_def)
  have ids: "map (c_id \<circ> fst) [(fx_repo 20 30 None, Some (fx_meta 20 (Some 70)))] = [20]" by (simp add: fx_repo_def)
  have "sheet_content fx_reader [(fx_repo 20 30 None, Some (fx_meta 20 (Some 70)))] [] 
      (fx_export_tables [fx_clause 20 30 ''secret'']) EE_CLAUSES =
    ([clause_cells False [(20, ''MSA'')] (fx_clause 20 30 ''secret'')],
     [''1 clause body/bodies withheld by clause masking.''], 1)"
    unfolding sheet_content_simps(3)[OF list.distinct(2)] ids clauses titles masked masked_count_def
    by (simp add: hidden one del: decimal.simps)
  moreover have "br_entities fx_request = [''clauses'']" "br_filters fx_request = None"
    "br_contract_ids fx_request = []" "xt_repo (fx_export_tables ks) = fx_tables" "xb_project_ids fx_reader = [30]"
    "load_project_names fx_reader (fx_export_tables ks) = []" for ks
    by (simp_all add: fx_request_def fx_export_tables_def fx_reader_def load_project_names_def)
  ultimately show ?thesis
    by (simp add: build_dataset_def Let_def entities contracts fx_clause_sheet_def)
qed

theorem truncated_sheet_looks_complete_witness:
  "sheet_shown (make_sheet fx_request EE_RISKS (replicate (Suc MAX_ROWS_PER_SHEET) []) []) =
   sheet_shown (make_sheet fx_request EE_RISKS (replicate MAX_ROWS_PER_SHEET []) [])"
  using truncated_sheet_looks_complete[of "make_sheet fx_request EE_RISKS (replicate (Suc MAX_ROWS_PER_SHEET) []) []"]
  by (simp add: make_sheet_def take_replicate del: replicate.simps)

theorem dataset_is_well_typed_witness:
  "\<exists>s v. s \<in> set (ds_sheets fx_clause_sheet) \<and>
     dict_get (clause_cells False [(20, ''MSA'')] (fx_clause 20 30 ''secret'')) ''text'' = Some v \<and> fits KText v"
proof -
  have s: "make_sheet fx_request EE_CLAUSES [clause_cells False [(20, ''MSA'')] (fx_clause 20 30 ''secret'')]
     [''1 clause body/bodies withheld by clause masking.''] \<in> set (ds_sheets fx_clause_sheet)"
    by (simp add: fx_clause_sheet_def make_dataset_def)
  have c: "col ''text'' ''Clause text'' KText 70 True \<in> set (COLUMNS EE_CLAUSES)" by (simp add: CLAUSE_COLUMNS_def)
  have "columns_for EE_CLAUSES [] = COLUMNS EE_CLAUSES" by (simp add: columns_for_def dict_get_def)
  then show ?thesis
    using dataset_is_well_typed[OF fx_build s] s c by (auto simp: make_sheet_def fx_request_def col_def)
qed

theorem export_ignores_other_projects_witness:
  "build_dataset 100 7 fx_reader fx_request (fx_export_tables [fx_clause 20 30 ''secret'', fx_clause 21 31 ''other'']) =
   Inr fx_clause_sheet"
proof -
  have "same_view (xb_project_ids fx_reader) (fx_export_tables [fx_clause 20 30 ''secret''])
      (fx_export_tables [fx_clause 20 30 ''secret'', fx_clause 21 31 ''other''])"
    by (simp add: same_view_def of_projects_def fx_export_tables_def fx_clause_def fx_reader_def)
  from trans[OF export_ignores_other_projects[OF this, symmetric] fx_build] show ?thesis .
qed

theorem masked_wording_never_leaves_witness:
  "build_dataset 100 7 fx_reader fx_request (fx_export_tables [fx_clause 20 30 []]) = Inr fx_clause_sheet"
proof -
  have "erase_wording (fx_export_tables [fx_clause 20 30 ''secret'']) = fx_export_tables [fx_clause 20 30 []]"
    by (simp add: erase_wording_def fx_export_tables_def fx_clause_def MASKED_CLAUSE_TYPES_def)
  moreover have "\<not> may_see_masked fx_reader" by (simp add: may_see_masked_def fx_reader_def)
  ultimately show ?thesis
    using trans[OF masked_wording_never_leaves[symmetric] fx_build] by simp
qed

end
