(* ===== verification/Storage.thy ===== *)
theory Storage
  imports Security Enums "HOL-Library.Sublist"
begin

text \<open>
  \<^verbatim>\<open>backend/app/storage/base.py\<close> and \<^verbatim>\<open>storage/local.py\<close>: the keys under which objects are
  stored, the path a key names on disk, and the operations of the filesystem adapter.

  A path is the list of its components below \<open>/\<close>. The filesystem is a map from paths to contents;
  which call the operating system refuses is a parameter. The storage root holds no symbolic link,
  so resolving a path is arithmetic on its components. Text is ASCII and holds no NUL.
\<close>

definition StorageError :: "string \<Rightarrow> dict \<Rightarrow> exn" where
  "StorageError msg details =
     AppErr \<lparr>e_class = ''StorageError'', e_code = ''storage_error'', e_message = msg,
       e_details = details, e_retryable = True, e_stage = None\<rparr>"

subsection \<open>Keys\<close>

text \<open>\<open>text.split(c)\<close> for one character.\<close>

fun split_on :: "char \<Rightarrow> string \<Rightarrow> string list" where
  "split_on c [] = [[]]"
| "split_on c (x # xs) =
     (if x = c then [] # split_on c xs
      else case split_on c xs of [] \<Rightarrow> [[x]] | w # ws \<Rightarrow> (x # w) # ws)"

definition safe_char :: "char \<Rightarrow> bool" where
  "safe_char c \<longleftrightarrow> is_upper c \<or> is_lower c \<or> is_digit c \<or> c \<in> {CHR ''.'', CHR ''_'', CHR ''-'', CHR '' ''}"

text \<open>\<open>re.sub(r"[^A-Za-z0-9._\- ]+", "_", text)\<close>: one underscore for each maximal run.\<close>

function sub_unsafe :: "string \<Rightarrow> string" where
  "sub_unsafe [] = []"
| "sub_unsafe (c # s) =
     (if safe_char c then c # sub_unsafe s
      else CHR ''_'' # sub_unsafe (dropWhile (\<lambda>x. \<not> safe_char x) s))"
  by pat_completeness auto
termination by (relation "measure length") (auto simp: le_imp_less_Suc length_dropWhile_le)

text \<open>\<open>text.strip(chars)\<close>.\<close>

definition strip_chars :: "char set \<Rightarrow> string \<Rightarrow> string" where
  "strip_chars cs s = rev (dropWhile (\<lambda>c. c \<in> cs) (rev (dropWhile (\<lambda>c. c \<in> cs) s)))"

definition safe_name :: "string \<Rightarrow> string" where
  "safe_name name =
     (let base = last (split_on CHR ''/'' (map (\<lambda>c. if c = CHR 0x5C then CHR ''/'' else c) name));
          cleaned = strip_chars {CHR ''.'', CHR '' ''} (sub_unsafe base)
      in take 255 (if cleaned = [] then ''file'' else cleaned))"

fun artifact_kind_value :: "artifact_kind \<Rightarrow> string" where
  "artifact_kind_value AK_VALIDATION = ''validation''"
| "artifact_kind_value AK_NORMALIZED_DOCUMENT = ''normalized_document''"
| "artifact_kind_value AK_CANONICAL_DOCUMENT = ''canonical_document''"
| "artifact_kind_value AK_CLASSIFICATION = ''classification''"
| "artifact_kind_value AK_CHUNKS = ''chunks''"
| "artifact_kind_value AK_CHUNK_STATISTICS = ''chunk_statistics''"
| "artifact_kind_value AK_CHUNK_VALIDATION = ''chunk_validation''"
| "artifact_kind_value AK_CLAUSES = ''clauses''"
| "artifact_kind_value AK_ENTITIES = ''entities''"
| "artifact_kind_value AK_OBLIGATIONS = ''obligations''"
| "artifact_kind_value AK_RISKS = ''risks''"
| "artifact_kind_value AK_TIMELINES = ''timelines''"
| "artifact_kind_value AK_RELATIONSHIPS = ''relationships''"
| "artifact_kind_value AK_EXTRACTION_STATISTICS = ''extraction_statistics''"
| "artifact_kind_value AK_SUMMARY_EMBEDDINGS = ''summary_embeddings''"
| "artifact_kind_value AK_CLAUSE_EMBEDDINGS = ''clause_embeddings''"
| "artifact_kind_value AK_CHUNK_EMBEDDINGS = ''chunk_embeddings''"
| "artifact_kind_value AK_EMBEDDING_STATISTICS = ''embedding_statistics''"
| "artifact_kind_value AK_INDEX_STATISTICS = ''index_statistics''"
| "artifact_kind_value AK_STATISTICS = ''statistics''"
| "artifact_kind_value AK_EXPORT = ''export''"
| "artifact_kind_value AK_DOC_PIPELINE = ''doc_pipeline''"

definition project_prefix :: "uuid \<Rightarrow> string" where
  "project_prefix p = ''projects/'' @ uuid_str p @ ''/''"

definition contract_prefix :: "uuid \<Rightarrow> uuid \<Rightarrow> string" where
  "contract_prefix p c = ''projects/'' @ uuid_str p @ ''/contracts/'' @ uuid_str c @ ''/''"

definition contract_file_key :: "uuid \<Rightarrow> uuid \<Rightarrow> nat \<Rightarrow> string \<Rightarrow> string" where
  "contract_file_key p c version filename =
     ''projects/'' @ uuid_str p @ ''/contracts/'' @ uuid_str c @ ''/v'' @ decimal version @ ''/'' @
     safe_name filename"

definition artifact_key :: "uuid \<Rightarrow> uuid \<Rightarrow> artifact_kind \<Rightarrow> nat \<Rightarrow> string" where
  "artifact_key p c kind generation =
     ''projects/'' @ uuid_str p @ ''/contracts/'' @ uuid_str c @ ''/artifacts/'' @
     artifact_kind_value kind @ ''/g'' @ decimal generation @ ''.json''"

definition export_key :: "uuid option \<Rightarrow> uuid \<Rightarrow> string \<Rightarrow> string" where
  "export_key p e filename =
     (case p of None \<Rightarrow> ''application'' | Some q \<Rightarrow> ''projects/'' @ uuid_str q) @
     ''/exports/'' @ uuid_str e @ ''/'' @ safe_name filename"

text \<open>\<open>f"{page:05d}"\<close> of a page number.\<close>

definition pad5 :: "nat \<Rightarrow> string" where
  "pad5 n = (let d = decimal n in replicate (5 - length d) CHR ''0'' @ d)"

definition page_image_key :: "uuid \<Rightarrow> uuid \<Rightarrow> nat \<Rightarrow> string" where
  "page_image_key p c page =
     ''projects/'' @ uuid_str p @ ''/contracts/'' @ uuid_str c @ ''/pages/'' @ pad5 page @ ''.png''"

definition parser_cache_key :: "string \<Rightarrow> string \<Rightarrow> string" where
  "parser_cache_key parser file_hash =
     ''parser-cache/'' @ safe_name parser @ ''/'' @ safe_name file_hash @ ''.json''"

subsection \<open>Paths\<close>

type_synonym path = "string list"

definition path_str :: "path \<Rightarrow> string" where
  "path_str p = (if p = [] then ''/'' else concat (map (\<lambda>w. CHR ''/'' # w) p))"

text \<open>\<open>Path(root) / key\<close> keeps the non-empty components other than \<open>.\<close>, an absolute key replaces the
  root, and \<open>resolve()\<close> lets \<open>..\<close> remove the component before it.\<close>

definition walk :: "path \<Rightarrow> string list \<Rightarrow> path" where
  "walk root ws = fold (\<lambda>w p. if w = ''..'' then butlast p else p @ [w]) ws root"

definition resolve_path :: "path \<Rightarrow> string \<Rightarrow> path" where
  "resolve_path root key =
     walk (if starts_with ''/'' key then [] else root)
       (filter (\<lambda>w. w \<noteq> [] \<and> w \<noteq> ''.'') (split_on CHR ''/'' key))"

definition bucket_root :: "path \<Rightarrow> string \<Rightarrow> string option \<Rightarrow> path" where
  "bucket_root root dflt container =
     resolve_path root (case container of None \<Rightarrow> dflt | Some c \<Rightarrow> if c = [] then dflt else c)"

definition local_path :: "path \<Rightarrow> string \<Rightarrow> exn + path" where
  "local_path bucket key =
     (let target = resolve_path bucket key
      in if \<not> starts_with (path_str bucket) (path_str target)
         then Inl (StorageError ''Rejected a storage key that resolves outside the storage root.''
           [(''key'', JStr key)])
         else Inr target)"

subsection \<open>The filesystem adapter\<close>

type_synonym 'c files = "path \<Rightarrow> 'c option"

text \<open>\<open>refused\<close> is the text of the \<open>OSError\<close> the write meets, if it meets one. The temporary file is
  the object's name with \<open>.tmp\<close> appended; it replaces the object in one step, so a refused write may
  leave it behind but never a partial object.\<close>

definition tmp_path :: "path \<Rightarrow> path" where
  "tmp_path p = butlast p @ [last p @ ''.tmp'']"

definition put_bytes :: "path \<Rightarrow> (path \<Rightarrow> string option) \<Rightarrow> string \<Rightarrow> 'c \<Rightarrow> 'c files \<Rightarrow>
    exn + 'c files" where
  "put_bytes bucket refused key content fs =
     (case local_path bucket key of
        Inl e \<Rightarrow> Inl e
      | Inr p \<Rightarrow>
          (case refused p of
             Some msg \<Rightarrow> Inl (StorageError (''Could not write '' @ key @ '': '' @ msg) [])
           | None \<Rightarrow>
               (let staged = fs(tmp_path p \<mapsto> content) in Inr (staged(p := staged (tmp_path p), tmp_path p := None)))))"

definition get_bytes :: "path \<Rightarrow> (path \<Rightarrow> string option) \<Rightarrow> string \<Rightarrow> 'c files \<Rightarrow> exn + 'c" where
  "get_bytes bucket refused key fs =
     (case local_path bucket key of
        Inl e \<Rightarrow> Inl e
      | Inr p \<Rightarrow>
          (case refused p of
             Some msg \<Rightarrow> Inl (StorageError (''Could not read '' @ key @ '': '' @ msg) [])
           | None \<Rightarrow> (case fs p of None \<Rightarrow> Inl (NotFoundError ''Object'' key) | Some c \<Rightarrow> Inr c)))"

definition object_exists :: "path \<Rightarrow> string \<Rightarrow> 'c files \<Rightarrow> exn + bool" where
  "object_exists bucket key fs =
     (case local_path bucket key of Inl e \<Rightarrow> Inl e | Inr p \<Rightarrow> Inr (fs p \<noteq> None))"

definition delete_object :: "path \<Rightarrow> (path \<Rightarrow> string option) \<Rightarrow> string \<Rightarrow> 'c files \<Rightarrow>
    exn + 'c files \<times> bool" where
  "delete_object bucket refused key fs =
     (case local_path bucket key of
        Inl e \<Rightarrow> Inl e
      | Inr p \<Rightarrow>
          (case refused p of
             Some msg \<Rightarrow> Inl (StorageError (''Could not delete '' @ key @ '': '' @ msg) [])
           | None \<Rightarrow> if fs p = None then Inr (fs, False) else Inr (fs(p := None), True)))"

definition copy_object :: "path \<Rightarrow> path \<Rightarrow> (path \<Rightarrow> string option) \<Rightarrow> string \<Rightarrow> string \<Rightarrow> 'c files \<Rightarrow>
    exn + 'c files" where
  "copy_object source_bucket dest_bucket refused source_key dest_key fs =
     (case get_bytes source_bucket refused source_key fs of
        Inl e \<Rightarrow> Inl e
      | Inr c \<Rightarrow> put_bytes dest_bucket refused dest_key c fs)"

text \<open>The filesystem cannot sign; the answer is a path of the API. \<open>quoted_key\<close> is
  \<open>urllib.parse.quote(key, safe="/")\<close>.\<close>

definition local_signed_url :: "string \<Rightarrow> (string \<Rightarrow> string) \<Rightarrow> string \<Rightarrow> string" where
  "local_signed_url container quoted_key key = ''/api/v1/files/'' @ container @ ''/'' @ quoted_key key"

subsection \<open>Names that are safe as one component\<close>

definition component :: "string \<Rightarrow> bool" where
  "component w \<longleftrightarrow> w \<noteq> [] \<and> CHR ''/'' \<notin> set w"

definition plain :: "string \<Rightarrow> bool" where
  "plain w \<longleftrightarrow> component w \<and> w \<noteq> ''.'' \<and> w \<noteq> ''..''"

lemma safe_char_no_slash: "safe_char c \<Longrightarrow> c \<noteq> CHR ''/''"
  by (auto simp: safe_char_def is_upper_def is_lower_def is_digit_def)

lemma sub_unsafe_chars: "c \<in> set (sub_unsafe s) \<Longrightarrow> safe_char c"
proof (induction s rule: sub_unsafe.induct)
  case (2 c' s)
  then show ?case
    by (auto simp: safe_char_def[of "CHR ''_''"] split: if_splits)
qed simp

lemma strip_chars_set: "set (strip_chars cs s) \<subseteq> set s"
  by (auto simp: strip_chars_def dest!: set_dropWhileD)

lemma dropWhile_hd: "dropWhile P xs = y # ys \<Longrightarrow> \<not> P y"
  by (metis hd_dropWhile list.distinct(1) list.sel(1))

lemma strip_chars_hd: "strip_chars cs s = c # r \<Longrightarrow> c \<notin> cs"
proof -
  assume s: "strip_chars cs s = c # r"
  define t where "t = dropWhile (\<lambda>c. c \<in> cs) s"
  have "suffix (dropWhile (\<lambda>c. c \<in> cs) (rev t)) (rev t)" by (rule suffix_dropWhile)
  then obtain u where "rev t = u @ dropWhile (\<lambda>c. c \<in> cs) (rev t)" by (auto simp: suffix_def)
  then have "t = strip_chars cs s @ rev u"
    by (metis rev_append rev_rev_ident strip_chars_def t_def)
  then have "t = c # (r @ rev u)" using s by simp
  then show ?thesis unfolding t_def by (rule dropWhile_hd)
qed

lemma safe_name_shape:
  obtains c r where "safe_name n = c # r" "c \<noteq> CHR ''.''" "\<forall>x \<in> set (safe_name n). safe_char x"
    "length (safe_name n) \<le> 255"
proof -
  define k where "k = strip_chars {CHR ''.'', CHR '' ''}
    (sub_unsafe (last (split_on CHR ''/'' (map (\<lambda>c. if c = CHR 0x5C then CHR ''/'' else c) n))))"
  have name: "safe_name n = take 255 (if k = [] then ''file'' else k)"
    by (simp add: safe_name_def k_def Let_def)
  have chars: "safe_char x" if "x \<in> set k" for x
    using that strip_chars_set sub_unsafe_chars unfolding k_def by blast
  show ?thesis
  proof (cases k)
    case Nil
    then have "safe_name n = ''file''" by (simp add: name)
    then show ?thesis by (intro that) (auto simp: safe_char_def is_lower_def)
  next
    case (Cons c r)
    then have "c \<notin> {CHR ''.'', CHR '' ''}" unfolding k_def by (rule strip_chars_hd)
    moreover have n: "safe_name n = take 255 k" using Cons by (simp add: name)
    moreover have "\<forall>x \<in> set (safe_name n). safe_char x"
      using chars n by (metis in_set_takeD)
    moreover have "safe_name n = c # take 254 r" by (simp add: n Cons take_Cons')
    ultimately show ?thesis by (intro that[of c "take 254 r"]) auto
  qed
qed

lemma safe_name_plain: "plain (safe_name n)"
proof (cases rule: safe_name_shape[of n])
  case (1 c r)
  then show ?thesis
    using safe_char_no_slash by (auto simp: plain_def component_def)
qed

lemma hex_digit_plain: "n < 16 \<Longrightarrow> CHR ''/'' \<noteq> hex_digit n \<and> CHR ''.'' \<noteq> hex_digit n"
  by (drule below_16, elim insertE emptyE) (simp_all add: hex_digit_def)

declare decimal.simps [simp del]

lemma decimal_chars: "CHR ''/'' \<notin> set (decimal n) \<and> CHR ''.'' \<notin> set (decimal n) \<and> decimal n \<noteq> []"
proof (induction n rule: decimal.induct)
  case (1 n)
  show ?case
  proof (cases "n < 10")
    case True
    then have "decimal n = [hex_digit n]" by (subst decimal.simps) simp
    then show ?thesis using True hex_digit_plain[of n] by simp
  next
    case False
    then have "decimal n = decimal (n div 10) @ [hex_digit (n mod 10)]" by (subst decimal.simps) simp
    then show ?thesis using 1[OF False] hex_digit_plain[of "n mod 10"] by simp
  qed
qed

lemma hex_fixed_chars: "CHR ''/'' \<notin> set (hex_fixed k n) \<and> CHR ''.'' \<notin> set (hex_fixed k n)"
  using hex_digit_plain by (induction k arbitrary: n) auto

lemma uuid_str_plain: "plain (uuid_str u)"
proof -
  define h where "h = hex_fixed 32 u"
  have h: "CHR ''/'' \<notin> set h" "CHR ''.'' \<notin> set h" "length h = 32"
    using hex_fixed_chars by (simp_all add: h_def)
  have "CHR ''/'' \<notin> set (uuid_str u) \<and> CHR ''.'' \<notin> set (uuid_str u)"
    using h by (auto simp: uuid_str_def Let_def h_def[symmetric] dest: in_set_takeD in_set_dropD)
  moreover have "uuid_str u \<noteq> []" by (simp add: uuid_str_def Let_def)
  ultimately show ?thesis by (auto simp: plain_def component_def)
qed

lemma artifact_kind_no_slash: "CHR ''/'' \<notin> set (artifact_kind_value k) \<and> artifact_kind_value k \<noteq> []
    \<and> CHR ''.'' \<notin> set (artifact_kind_value k)"
  by (cases k) simp_all

subsection \<open>Where keys lead\<close>

lemma split_on_plain [simp]: "c \<notin> set w \<Longrightarrow> split_on c w = [w]"
  by (induction w) auto

lemma split_on_append: "c \<notin> set w \<Longrightarrow> split_on c (w @ c # r) = w # split_on c r"
  by (induction w) auto

lemma split_on_join:
  "list_all component ws \<Longrightarrow> ws \<noteq> [] \<Longrightarrow> split_on CHR ''/'' (join ''/'' ws) = ws"
  by (induction "''/''" ws rule: join.induct) (simp_all add: component_def split_on_append)

lemma split_on_components: "w \<in> set (split_on c s) \<Longrightarrow> c \<notin> set w"
proof (induction s arbitrary: w)
  case (Cons x s)
  then show ?case by (cases "split_on c s") (auto split: if_splits)
qed simp

lemma walk_plain: "list_all plain ws \<Longrightarrow> walk root ws = root @ ws"
  by (induction ws arbitrary: root) (auto simp: walk_def plain_def)

lemma resolve_plain:
  assumes "list_all plain ws" "ws \<noteq> []"
  shows "resolve_path root (join ''/'' ws) = root @ ws"
proof -
  have comps: "list_all component ws" using assms(1) by (auto simp: list_all_iff plain_def)
  obtain w r where ws: "ws = w # r" using assms(2) by (cases ws) auto
  obtain c w' where w: "w = c # w'" "c \<noteq> CHR ''/''"
    using assms(1) ws by (cases w) (auto simp: plain_def component_def)
  have "\<not> starts_with ''/'' (join ''/'' ws)"
    using w by (cases r) (auto simp: ws starts_with_def)
  moreover have "filter (\<lambda>w. w \<noteq> [] \<and> w \<noteq> ''.'') ws = ws"
    using assms(1) by (intro filter_True) (auto simp: list_all_iff plain_def component_def)
  ultimately show ?thesis
    using split_on_join[OF comps assms(2)] walk_plain[OF assms(1)] by (simp add: resolve_path_def)
qed

lemma starts_with_append: "starts_with p (p @ s)"
  by (simp add: starts_with_def)

lemma path_str_append: "starts_with (path_str b) (path_str (b @ w # ws))"
  by (cases b) (simp_all add: path_str_def starts_with_def)

lemma local_path_plain:
  assumes "list_all plain ws" "ws \<noteq> []"
  shows "local_path b (join ''/'' ws) = Inr (b @ ws)"
proof -
  obtain w r where "ws = w # r" using assms(2) by (cases ws) auto
  then show ?thesis
    using resolve_plain[OF assms, of b] path_str_append[of b w r] by (simp add: local_path_def Let_def)
qed

lemmas key_defs = contract_file_key_def artifact_key_def export_key_def page_image_key_def

lemma decimal_plain: "plain (''v'' @ decimal n)" "plain (''g'' @ decimal n @ ''.json'')"
  "plain (pad5 n @ ''.png'')"
  using decimal_chars[of n] by (auto simp: plain_def component_def pad5_def Let_def)

lemma fixed_plain: "plain ''projects''" "plain ''contracts''" "plain ''artifacts''" "plain ''pages''"
  "plain ''exports''" "plain ''application''" "plain (artifact_kind_value k)"
  using artifact_kind_no_slash[of k] by (auto simp: plain_def component_def)

lemmas all_plain = fixed_plain decimal_plain uuid_str_plain safe_name_plain

definition contract_dir :: "uuid \<Rightarrow> uuid \<Rightarrow> path" where
  "contract_dir p c = [''projects'', uuid_str p, ''contracts'', uuid_str c]"

lemma contract_file_path:
  "local_path b (contract_file_key p c v f) = Inr (b @ contract_dir p c @ [''v'' @ decimal v, safe_name f])"
  using local_path_plain[of "contract_dir p c @ [''v'' @ decimal v, safe_name f]" b] all_plain
  by (simp add: key_defs contract_dir_def)

lemma artifact_path:
  "local_path b (artifact_key p c k g) =
     Inr (b @ contract_dir p c @ [''artifacts'', artifact_kind_value k, ''g'' @ decimal g @ ''.json''])"
  using local_path_plain[of "contract_dir p c @
      [''artifacts'', artifact_kind_value k, ''g'' @ decimal g @ ''.json'']" b] all_plain
  by (simp add: key_defs contract_dir_def)

lemma page_image_path:
  "local_path b (page_image_key p c n) = Inr (b @ contract_dir p c @ [''pages'', pad5 n @ ''.png''])"
  using local_path_plain[of "contract_dir p c @ [''pages'', pad5 n @ ''.png'']" b] all_plain
  by (simp add: key_defs contract_dir_def)

lemma export_path:
  "local_path b (export_key q e f) =
     Inr (b @ (case q of None \<Rightarrow> [''application''] | Some p \<Rightarrow> [''projects'', uuid_str p]) @
       [''exports'', uuid_str e, safe_name f])"
  using local_path_plain[of "[''application'', ''exports'', uuid_str e, safe_name f]" b]
    local_path_plain[of "[''projects'', uuid_str (the q), ''exports'', uuid_str e, safe_name f]" b] all_plain
  by (cases q) (simp_all add: key_defs)

text \<open>A decimal text is read back digit by digit, leading zeros or not.\<close>

definition digits_value :: "string \<Rightarrow> nat" where
  "digits_value s = fold (\<lambda>c a. a * 10 + the (hex_value c)) s 0"

lemma digits_value_decimal [simp]: "digits_value (decimal n) = n"
proof (induction n rule: decimal.induct)
  case (1 n)
  show ?case
  proof (cases "n < 10")
    case True
    then have "decimal n = [hex_digit n]" by (subst decimal.simps) simp
    then show ?thesis using True hex_digits_table[of n] by (simp add: digits_value_def)
  next
    case False
    then have "decimal n = decimal (n div 10) @ [hex_digit (n mod 10)]" by (subst decimal.simps) simp
    then show ?thesis using 1[OF False] hex_digits_table[of "n mod 10"] by (simp add: digits_value_def)
  qed
qed

lemma digits_value_zeros: "digits_value (replicate k CHR ''0'' @ s) = digits_value s"
proof -
  have zero: "hex_value CHR ''0'' = Some 0" by code_simp
  have "fold (\<lambda>c a. a * 10 + the (hex_value c)) (replicate k CHR ''0'') (0 :: nat) = 0"
    by (induction k) (simp_all add: zero)
  then show ?thesis by (simp add: digits_value_def)
qed

lemma decimal_inject [simp]: "decimal m = decimal n \<longleftrightarrow> m = n"
  by (metis digits_value_decimal)

lemma pad5_inject [simp]: "pad5 m = pad5 n \<longleftrightarrow> m = n"
  by (metis digits_value_decimal digits_value_zeros pad5_def)

lemma artifact_kind_value_inject [simp]: "artifact_kind_value a = artifact_kind_value b \<longleftrightarrow> a = b"
  by (cases a; cases b; simp)

text \<open>A key built for a contract always leads into that contract's own directory below the
  storage root, whatever the uploaded file is called: a name with separators, drive letters or dots
  is reduced to one component, and the adapter's containment check lets every such key pass.\<close>

theorem keys_stay_in_their_contract:
  "(\<exists>f'. plain f' \<and> length f' \<le> 255 \<and>
     local_path bucket (contract_file_key p c v f) = Inr (bucket @ contract_dir p c @ [''v'' @ decimal v, f'])) \<and>
   local_path bucket (artifact_key p c k g) =
     Inr (bucket @ contract_dir p c @ [''artifacts'', artifact_kind_value k, ''g'' @ decimal g @ ''.json'']) \<and>
   local_path bucket (page_image_key p c n) =
     Inr (bucket @ contract_dir p c @ [''pages'', pad5 n @ ''.png''])"
proof -
  have "length (safe_name f) \<le> 255" by (cases rule: safe_name_shape[of f])
  then show ?thesis
    using safe_name_plain[of f] by (auto simp: contract_file_path artifact_path page_image_path)
qed

lemma key_inject:
  assumes "p < 16 ^ 32" "c < 16 ^ 32" "p' < 16 ^ 32" "c' < 16 ^ 32"
  shows "local_path b (artifact_key p c k g) = local_path b (artifact_key p' c' k' g') \<longleftrightarrow>
    (p, c, k, g) = (p', c', k', g')"
  using assms by (auto simp: artifact_path contract_dir_def uuid_str_inject)

text \<open>No two objects share a path. The file of a version, an artifact of a generation and a page
  image lie on different paths of one storage root, and two keys of a kind lead to the same path only
  if they are of the same project, contract and number.\<close>

theorem keys_name_one_object:
  assumes "p < 16 ^ 32" "c < 16 ^ 32" "p' < 16 ^ 32" "c' < 16 ^ 32"
  shows
    "(local_path b (artifact_key p c k g) = local_path b (artifact_key p' c' k' g') \<longleftrightarrow>
       (p, c, k, g) = (p', c', k', g')) \<and>
     (local_path b (page_image_key p c n) = local_path b (page_image_key p' c' n') \<longleftrightarrow>
       (p, c, n) = (p', c', n')) \<and>
     (local_path b (contract_file_key p c v f) = local_path b (contract_file_key p' c' v' f') \<longleftrightarrow>
       (p, c, v, safe_name f) = (p', c', v', safe_name f')) \<and>
     local_path b (contract_file_key p c v f) \<noteq> local_path b (artifact_key p' c' k g) \<and>
     local_path b (contract_file_key p c v f) \<noteq> local_path b (page_image_key p' c' n) \<and>
     local_path b (artifact_key p c k g) \<noteq> local_path b (page_image_key p' c' n)"
  using assms
  by (simp add: key_inject) (auto simp: artifact_path page_image_path contract_file_path contract_dir_def uuid_str_inject)

theorem keys_name_one_object_witness:
  "local_path [''data''] (artifact_key 1 2 AK_CLAUSES 3) \<noteq> local_path [''data''] (artifact_key 1 2 AK_CLAUSES 13)"
  using keys_name_one_object[of 1 2 1 2 "[''data'']" AK_CLAUSES 3 AK_CLAUSES 13] by simp

subsection \<open>What the containment check admits\<close>

text \<open>The text of a path below the root, \<open>/\<close> excepted.\<close>

definition slashed :: "path \<Rightarrow> string" where
  "slashed p = concat (map (\<lambda>w. CHR ''/'' # w) p)"

lemma slashed_simps [simp]:
  "slashed [] = []" "slashed (w # p) = CHR ''/'' # w @ slashed p"
  "slashed (p @ q) = slashed p @ slashed q"
  by (simp_all add: slashed_def)

lemma slashed_head: "slashed p = [] \<or> (\<exists>r. slashed p = CHR ''/'' # r)"
  by (cases p) auto

lemma starts_with_prefix: "starts_with p s \<longleftrightarrow> prefix p s"
  by (metis append_eq_conv_conj prefix_def starts_with_def)

lemma takeWhile_component:
  "CHR ''/'' \<notin> set y \<Longrightarrow> takeWhile (\<lambda>c. c \<noteq> CHR ''/'') (y @ CHR ''/'' # r) = y"
  "CHR ''/'' \<notin> set y \<Longrightarrow> takeWhile (\<lambda>c. c \<noteq> CHR ''/'') y = y"
  by (induction y) auto

lemma component_prefix:
  assumes "CHR ''/'' \<notin> set x" "CHR ''/'' \<notin> set y" "prefix (x @ CHR ''/'' # r) (y @ slashed q)"
  shows "x = y \<and> prefix (CHR ''/'' # r) (slashed q)"
proof -
  obtain t where e: "y @ slashed q = x @ CHR ''/'' # r @ t" using assms(3) by (auto simp: prefix_def)
  have "takeWhile (\<lambda>c. c \<noteq> CHR ''/'') (y @ slashed q) = y"
    using assms(2) slashed_head[of q] by (auto simp: takeWhile_component)
  moreover have "takeWhile (\<lambda>c. c \<noteq> CHR ''/'') (x @ CHR ''/'' # r @ t) = x"
    using assms(1) by (rule takeWhile_component)
  ultimately have "x = y" using e by metis
  then show ?thesis using e by (auto simp: prefix_def)
qed

definition sibling :: "path \<Rightarrow> path \<Rightarrow> bool" where
  "sibling b t \<longleftrightarrow> (\<exists>s rest. s \<noteq> [] \<and> t = butlast b @ (last b @ s) # rest)"

lemma slashed_prefix:
  assumes "list_all component b" "list_all component t" "b \<noteq> []"
  shows "prefix (slashed b) (slashed t) \<longleftrightarrow> prefix b t \<or> sibling b t"
  using assms
proof (induction b arbitrary: t)
  case (Cons x xs)
  show ?case
  proof (cases t)
    case Nil
    then show ?thesis by (simp add: sibling_def)
  next
    case (Cons y ys)
    have parts: "component x" "component y" "list_all component ys" "list_all component xs"
      using Cons.prems Cons by simp_all
    have slash: "CHR ''/'' \<notin> set x" "CHR ''/'' \<notin> set y" "list_all component ys" "list_all component xs"
      using parts unfolding component_def by blast+
    show ?thesis
    proof (cases xs)
      case Nil
      have "prefix x (y @ slashed ys) \<longleftrightarrow> prefix x y"
      proof
        assume p: "prefix x (y @ slashed ys)"
        show "prefix x y"
        proof (rule ccontr)
          assume "\<not> prefix x y"
          then obtain u where u: "x = y @ u" "u \<noteq> []" "prefix u (slashed ys)"
            using p by (auto simp: prefix_append)
          then show False using slash(1) slashed_head[of ys] by (auto simp: prefix_def append_eq_Cons_conv Cons_eq_append_conv)
        qed
      qed (simp add: prefix_prefix)
      then show ?thesis using Cons Nil by (auto simp: sibling_def prefix_def)
    next
      case (Cons z zs)
      note xs = Cons
      have "prefix (x @ slashed xs) (y @ slashed ys) \<longleftrightarrow> x = y \<and> prefix (slashed xs) (slashed ys)"
        using component_prefix[OF slash(1,2), of "z @ slashed zs" ys] xs by auto
      moreover have "prefix (slashed xs) (slashed ys) \<longleftrightarrow> prefix xs ys \<or> sibling xs ys"
        by (rule Cons.IH) (use slash xs in auto)
      ultimately show ?thesis using \<open>t = y # ys\<close> xs by (auto simp: sibling_def)
    qed
  qed
qed simp

lemma walk_components: "list_all component root \<Longrightarrow> list_all component ws \<Longrightarrow> list_all component (walk root ws)"
proof (induction ws arbitrary: root)
  case (Cons w ws)
  have "list_all component (if w = ''..'' then butlast root else root @ [w])"
    using Cons.prems by (auto simp: list_all_iff dest: in_set_butlastD)
  then show ?case using Cons.IH Cons.prems(2) by (simp add: walk_def)
qed (simp add: walk_def)

lemma resolve_components: "list_all component root \<Longrightarrow> list_all component (resolve_path root key)"
  unfolding resolve_path_def
  by (rule walk_components) (auto simp: list_all_iff component_def dest: split_on_components)

text \<open>The adapter's containment check compares texts, so it admits exactly the keys that
  resolve to the container's directory or below it, and those that resolve into a sibling directory
  whose name continues the container's name: it does not keep every key inside the root.\<close>

theorem path_check_is_by_name:
  assumes "list_all component bucket" "bucket \<noteq> []"
  shows "local_path bucket key = Inr t \<longleftrightarrow>
    t = resolve_path bucket key \<and> (prefix bucket t \<or> sibling bucket t)"
proof -
  have r: "list_all component (resolve_path bucket key)" using assms(1) by (rule resolve_components)
  have "starts_with (path_str bucket) (path_str u) \<longleftrightarrow> prefix (slashed bucket) (slashed u)" for u
    using assms by (cases bucket; cases u)
      (auto simp: path_str_def slashed_def[symmetric] starts_with_prefix component_def)
  then show ?thesis
    using slashed_prefix[OF assms(1) r assms(2)] by (auto simp: local_path_def Let_def)
qed

theorem path_check_is_by_name_witness:
  "local_path [''data'', ''clear''] ''../clear-archive/x'' = Inr [''data'', ''clear-archive'', ''x'']"
proof -
  have "resolve_path [''data'', ''clear''] ''../clear-archive/x'' = [''data'', ''clear-archive'', ''x'']"
    by code_simp
  moreover have "sibling [''data'', ''clear''] [''data'', ''clear-archive'', ''x'']"
    unfolding sibling_def by (intro exI[of _ "''-archive''"] exI[of _ "[''x'']"]) simp
  moreover have "list_all component [''data'', ''clear'']" by (simp add: component_def)
  ultimately show ?thesis
    using path_check_is_by_name[of "[''data'', ''clear'']" "''../clear-archive/x''"] by simp
qed

subsection \<open>The contract of an object store\<close>

text \<open>\<open>IObjectStorage\<close> as its clients use it: what was written under a key is what is read there, a
  deleted object is missing, and neither touches an object whose key is \<open>apart\<close> from the key.\<close>

locale object_storage =
  fixes put :: "string \<Rightarrow> 'c \<Rightarrow> 's \<Rightarrow> exn + 's"
    and get :: "string \<Rightarrow> 's \<Rightarrow> exn + 'c"
    and del :: "string \<Rightarrow> 's \<Rightarrow> exn + 's \<times> bool"
    and apart :: "string \<Rightarrow> string \<Rightarrow> bool"
  assumes get_put: "put k v s = Inr s' \<Longrightarrow> get k s' = Inr v"
    and put_apart: "put k v s = Inr s' \<Longrightarrow> apart k k' \<Longrightarrow> get k' s' = get k' s"
    and get_del: "del k s = Inr (s', b) \<Longrightarrow> get k s' = Inl (NotFoundError ''Object'' k)"
    and del_apart: "del k s = Inr (s', b) \<Longrightarrow> apart k k' \<Longrightarrow> get k' s' = get k' s"
begin

text \<open>Objects written one after another are all there, as long as their keys are apart.\<close>

primrec put_all :: "(string \<times> 'c) list \<Rightarrow> 's \<Rightarrow> exn + 's" where
  "put_all [] s = Inr s"
| "put_all (kv # kvs) s =
     (case put (fst kv) (snd kv) s of Inl e \<Rightarrow> Inl e | Inr s' \<Rightarrow> put_all kvs s')"

lemma put_all_append:
  "put_all (kvs @ [kv]) s = (case put_all kvs s of Inl e \<Rightarrow> Inl e | Inr s' \<Rightarrow> put (fst kv) (snd kv) s')"
  by (induction kvs arbitrary: s) (auto split: sum.split)

text \<open>A read finds the last thing written under its key, or what was there before.\<close>

lemma put_all_reads:
  assumes "put_all kvs s = Inr s'" "pairwise apart (insert k (fst ` set kvs))"
  shows "get k s' = (case map_of (rev kvs) k of None \<Rightarrow> get k s | Some v \<Rightarrow> Inr v)"
  using assms
proof (induction kvs arbitrary: s' rule: rev_induct)
  case (snoc kv kvs)
  obtain s1 where s1: "put_all kvs s = Inr s1" "put (fst kv) (snd kv) s1 = Inr s'"
    using snoc.prems(1) by (auto simp: put_all_append split: sum.splits)
  show ?case
  proof (cases "fst kv = k")
    case True
    then show ?thesis using get_put[OF s1(2)] by (cases kv) auto
  next
    case False
    then have "get k s' = get k s1"
      using put_apart[OF s1(2)] snoc.prems(2) by (auto simp: pairwise_def)
    moreover have "pairwise apart (insert k (fst ` set kvs))"
      using snoc.prems(2) by (rule pairwise_subset) auto
    ultimately show ?thesis using snoc.IH[OF s1(1)] False by (cases kv) auto
  qed
qed simp

end

definition path_apart :: "path \<Rightarrow> string \<Rightarrow> string \<Rightarrow> bool" where
  "path_apart bucket k k' \<longleftrightarrow>
     (case (local_path bucket k, local_path bucket k') of
        (Inr p, Inr p') \<Rightarrow> p' \<noteq> p \<and> p' \<noteq> tmp_path p
      | _ \<Rightarrow> True)"

lemma tmp_path_neq: "p \<noteq> tmp_path p"
  by (cases p rule: rev_cases) (simp_all add: tmp_path_def)

interpretation local_storage: object_storage
  "put_bytes (b # bs) refused" "get_bytes (b # bs) (\<lambda>_. None)" "delete_object (b # bs) refused"
  "path_apart (b # bs)" for b bs refused
proof unfold_locales
  fix k k' s s' and v :: 'a and d :: bool
  show "get_bytes (b # bs) (\<lambda>_. None) k s' = Inr v" if "put_bytes (b # bs) refused k v s = Inr s'"
    using that tmp_path_neq
    by (auto simp: put_bytes_def get_bytes_def Let_def split: sum.splits option.splits)
  show "get_bytes (b # bs) (\<lambda>_. None) k' s' = get_bytes (b # bs) (\<lambda>_. None) k' s"
    if "put_bytes (b # bs) refused k v s = Inr s'" "path_apart (b # bs) k k'"
    using that
    by (auto simp: put_bytes_def get_bytes_def path_apart_def Let_def split: sum.splits option.splits)
  show "get_bytes (b # bs) (\<lambda>_. None) k s' = Inl (NotFoundError ''Object'' k)"
    if "delete_object (b # bs) refused k s = Inr (s', d)"
    using that by (auto simp: delete_object_def get_bytes_def split: sum.splits option.splits if_splits)
  show "get_bytes (b # bs) (\<lambda>_. None) k' s' = get_bytes (b # bs) (\<lambda>_. None) k' s"
    if "delete_object (b # bs) refused k s = Inr (s', d)" "path_apart (b # bs) k k'"
    using that
    by (auto simp: delete_object_def get_bytes_def path_apart_def split: sum.splits option.splits if_splits)
qed

lemma tmp_is_no_artifact: "''g'' @ x @ ''.json'' \<noteq> ''g'' @ y @ ''.json.tmp''"
proof
  assume "''g'' @ x @ ''.json'' = ''g'' @ y @ ''.json.tmp''"
  then have "last (''g'' @ x @ ''.json'') = last (''g'' @ y @ ''.json.tmp'')" by (rule arg_cong)
  then show False by simp
qed

lemma map_of_renamed:
  "inj_on f (insert t (fst ` set xs)) \<Longrightarrow> map_of (map (\<lambda>(u, v). (f u, v)) xs) (f t) = map_of xs t"
  by (induction xs) (auto simp: inj_on_def)

text \<open>C14: An artifact reads back what was last written under its project, contract, kind and generation, and
  what it held before if the writes did not touch it, whatever else is written in between and however often: writing a
  key again replaces its content, no artifact overwrites another, and the temporary file a write goes through is
  never the path of an artifact.\<close>

theorem artifacts_read_back:
  assumes put: "local_storage.put_all b bs refused
      (map (\<lambda>((p, c, k, g), v). (artifact_key p c k g, v)) arts) fs = Inr fs'"
    and ids: "\<forall>((p, c, k, g), v) \<in> set arts. p < 16 ^ 32 \<and> c < 16 ^ 32" "p < 16 ^ 32" "c < 16 ^ 32"
  shows "get_bytes (b # bs) (\<lambda>_. None) (artifact_key p c k g) fs' =
    (case map_of (rev arts) (p, c, k, g) of
       Some v \<Rightarrow> Inr v
     | None \<Rightarrow> get_bytes (b # bs) (\<lambda>_. None) (artifact_key p c k g) fs)"
proof -
  let ?key = "\<lambda>(p, c, k, g). artifact_key p c k g"
  define T where "T = insert (p, c, k, g) (fst ` set arts)"
  have bounded: "p' < 16 ^ 32 \<and> c' < 16 ^ 32" if "(p', c', k', g') \<in> T" for p' c' k' g'
    using that ids unfolding T_def by fastforce
  have inj: "inj_on ?key T"
  proof (rule inj_onI)
    fix x y
    assume xy: "x \<in> T" "y \<in> T" "?key x = ?key y"
    obtain p1 c1 k1 g1 p2 c2 k2 g2 where "x = (p1, c1, k1, g1)" "y = (p2, c2, k2, g2)"
      by (cases x, cases y)
    then show "x = y"
      using key_inject[of p1 c1 p2 c2 "[]" k1 g1 k2 g2] bounded xy by simp
  qed
  have keys: "map (\<lambda>((p, c, k, g), v). (artifact_key p c k g, v)) arts = map (\<lambda>(t, v). (?key t, v)) arts"
    by (simp add: split_def)
  have "insert (?key (p, c, k, g)) (fst ` set (map (\<lambda>(t, v). (?key t, v)) arts)) = ?key ` T"
    by (force simp: T_def)
  moreover have "pairwise (path_apart (b # bs)) (?key ` T)"
    by (auto simp: pairwise_def path_apart_def artifact_path tmp_path_def contract_dir_def tmp_is_no_artifact
        split: prod.splits) (simp add: artifact_key_def)
  ultimately have "get_bytes (b # bs) (\<lambda>_. None) (?key (p, c, k, g)) fs' =
      (case map_of (rev (map (\<lambda>(t, v). (?key t, v)) arts)) (?key (p, c, k, g)) of
         None \<Rightarrow> get_bytes (b # bs) (\<lambda>_. None) (?key (p, c, k, g)) fs | Some v \<Rightarrow> Inr v)"
    using local_storage.put_all_reads[OF put, of "?key (p, c, k, g)"] unfolding keys by simp
  moreover have "map_of (rev (map (\<lambda>(t, v). (?key t, v)) arts)) (?key (p, c, k, g)) = map_of (rev arts) (p, c, k, g)"
    unfolding rev_map by (rule map_of_renamed) (use inj in \<open>simp add: T_def\<close>)
  ultimately show ?thesis by (simp split: option.split)
qed

theorem artifacts_read_back_witness:
  "\<exists>fs. local_storage.put_all ''data'' [''clear''] (\<lambda>_. None)
      [(artifact_key 1 2 AK_CLAUSES 1, ''a''), (artifact_key 1 2 AK_CLAUSES 2, ''b''), (artifact_key 1 2 AK_CLAUSES 1, ''c'')]
      (\<lambda>_. None) = Inr fs \<and>
    get_bytes [''data'', ''clear''] (\<lambda>_. None) (artifact_key 1 2 AK_CLAUSES 1) fs = Inr ''c''"
proof -
  let ?arts = "[((1, 2, AK_CLAUSES, 1), ''a''), ((1, 2, AK_CLAUSES, 2), ''b''), ((1, 2, AK_CLAUSES, 1), ''c'')] ::
    ((nat \<times> nat \<times> artifact_kind \<times> nat) \<times> string) list"
  obtain fs where fs: "local_storage.put_all ''data'' [''clear''] (\<lambda>_. None)
      (map (\<lambda>((p, c, k, g), v). (artifact_key p c k g, v)) ?arts) (\<lambda>_. None) = Inr fs"
    by (simp add: local_storage.put_all.simps put_bytes_def artifact_path Let_def)
  show ?thesis
    using artifacts_read_back[OF fs, of 1 2 AK_CLAUSES 1] fs by simp
qed

end
