(* ===== verification/Worker.thy ===== *)
theory Worker
  imports Pipeline
begin

text \<open>
  The Postgres worker of \<^verbatim>\<open>backend/app/cli.py\<close>: \<open>_worker_loop\<close>, which claims per stage within the
  stage's concurrency, and \<open>_run_claimed\<close>, which runs a leased row and settles its lease. The loop is
  a step relation, because its tasks finish, and other workers and the sweep act on the table,
  between any two of its claims.
\<close>

subsection \<open>Settling a leased row\<close>

fun exn_text :: "exn \<Rightarrow> string" where
  "exn_text (AppErr e) = e_message e"
| "exn_text (PyErr c m) = m"

definition crash_error :: "exn \<Rightarrow> int \<Rightarrow> dict" where
  "crash_error exc attempt =
     [(''message'', JStr (exn_text exc)), (''type'', JStr (exn_type exc)), (''attempt'', JInt attempt)]"

definition run_claimed :: "queue_env \<Rightarrow> 'k runner_env \<Rightarrow> int \<Rightarrow> claimed_stage \<Rightarrow> 'k db \<times> stage_queue \<Rightarrow>
    'k db \<times> stage_queue" where
  "run_claimed qe env mx item dq =
     (case run_stage (pg_client qe) env mx (cs_message item) dq of
        ((d, q), Inl exc) \<Rightarrow>
          (d, fst (fail qe (en_end env) (cs_row_id item) (crash_error exc (cs_attempt item)) q))
      | ((d, q), Inr _) \<Rightarrow> (d, complete (cs_row_id item) q))"

subsection \<open>The claim loop\<close>

record worker_state =
  w_running :: "pipeline_stage \<Rightarrow> claimed_stage list"
  w_queue :: stage_queue
  w_stopped :: bool

text \<open>One turn of the inner loop: the stage is passed over when it is full, otherwise as many rows
  as it has free slots are claimed and each becomes a task of the stage. A claim that raises ends
  the loop, with its rows leased.\<close>

definition poll_stage :: "(pipeline_stage \<Rightarrow> int) \<Rightarrow> (uuid \<Rightarrow> string) \<Rightarrow> instant \<Rightarrow> string \<Rightarrow> uuid set \<Rightarrow>
    pipeline_stage \<Rightarrow> worker_state \<Rightarrow> worker_state" where
  "poll_stage conc fresh now wid locked st s =
     (let free = conc st - int (length (w_running s st)) in
      if free \<le> 0 then s
      else case claim fresh now wid free [st] locked (w_queue s) of
        (q, Inl e) \<Rightarrow> s\<lparr>w_queue := q, w_stopped := True\<rparr>
      | (q, Inr items) \<Rightarrow> s\<lparr>w_queue := q, w_running := (w_running s)(st := w_running s st @ items)\<rparr>)"

definition task_done :: "pipeline_stage \<Rightarrow> claimed_stage \<Rightarrow> worker_state \<Rightarrow> worker_state" where
  "task_done st item s = s\<lparr>w_running := (w_running s)(st := remove1 item (w_running s st))\<rparr>"

inductive worker_step :: "(pipeline_stage \<Rightarrow> int) \<Rightarrow> queue_env \<Rightarrow> worker_state \<Rightarrow> worker_state \<Rightarrow> bool"
  for conc e where
  worker_poll: "\<not> w_stopped s \<Longrightarrow> st \<in> set STAGE_ORDER \<Longrightarrow>
    worker_step conc e s (poll_stage conc fresh now wid locked st s)"
| worker_done: "item \<in> set (w_running s st) \<Longrightarrow> worker_step conc e s (task_done st item s)"
| worker_table: "pg_step e (w_queue s) ds q \<Longrightarrow> worker_step conc e s (s\<lparr>w_queue := q\<rparr>)"

inductive worker_run :: "(pipeline_stage \<Rightarrow> int) \<Rightarrow> queue_env \<Rightarrow> worker_state \<Rightarrow> worker_state \<Rightarrow> bool"
  for conc e where
  worker_refl: "worker_run conc e s s"
| worker_trans: "worker_run conc e s s1 \<Longrightarrow> worker_step conc e s1 s2 \<Longrightarrow> worker_run conc e s s2"

inductive_cases worker_stepE: "worker_step conc e s s'"

definition idle_worker :: "stage_queue \<Rightarrow> worker_state" where
  "idle_worker q = \<lparr>w_running = (\<lambda>st. []), w_queue = q, w_stopped = False\<rparr>"

subsection \<open>The cap\<close>

lemma decode_claims_length: "decode_claims fresh rs = Inr items \<Longrightarrow> map cs_row_id items = map q_id rs"
proof (induction rs arbitrary: items)
  case (Cons r rs)
  then show ?case by (auto simp: map_sum_def split: sum.splits)
qed simp

lemma claim_length:
  "claim fresh now w limit stages locked q = (q', Inr items) \<Longrightarrow> int (length items) \<le> max 0 limit"
  by (auto simp: claim_def candidates_def Let_def split: if_splits
      dest!: decode_claims_length arg_cong[of _ _ length])

definition within :: "(pipeline_stage \<Rightarrow> int) \<Rightarrow> worker_state \<Rightarrow> bool" where
  "within conc s \<longleftrightarrow> (\<forall>st. int (length (w_running s st)) \<le> max 0 (conc st))"

lemma poll_within: "within conc s \<Longrightarrow> within conc (poll_stage conc fresh now wid locked st s)"
  by (auto simp: within_def poll_stage_def Let_def dest!: claim_length split: prod.splits sum.splits)

lemma worker_step_within: "worker_step conc e s s' \<Longrightarrow> within conc s \<Longrightarrow> within conc s'"
proof (erule worker_stepE)
  fix st item assume w: "within conc s" and s': "s' = task_done st item s"
  have "length (remove1 item (w_running s st)) \<le> length (w_running s st)"
    by (simp add: length_remove1)
  then show "within conc s'" using w unfolding within_def s' task_done_def
    by (auto intro: order_trans[rotated] split: if_splits)
qed (auto intro: poll_within, simp add: within_def)

lemma idle_within: "within conc (idle_worker q)"
  by (simp add: within_def idle_worker_def)

lemma worker_run_within: "worker_run conc e s s' \<Longrightarrow> within conc s \<Longrightarrow> within conc s'"
  by (induction rule: worker_run.induct) (auto intro: worker_step_within)

text \<open>However the worker's polls interleave with tasks finishing and with other workers, the API and
  the sweep, no stage ever has more tasks in flight than its configured concurrency.\<close>

theorem worker_respects_concurrency:
  assumes "worker_run conc e (idle_worker q) s"
  shows "int (length (w_running s st)) \<le> max 0 (conc st)"
  using worker_run_within[OF assms idle_within] by (simp add: within_def)

theorem worker_respects_concurrency_witness:
  "int (length (w_running (poll_stage (\<lambda>st. 2) (\<lambda>r. ''f'') 5 ''w'' {} PS_VALIDATION
     (idle_worker fx_queue)) PS_VALIDATION)) \<le> 2"
proof -
  have "worker_run (\<lambda>st. 2) fx_env (idle_worker fx_queue)
      (poll_stage (\<lambda>st. 2) (\<lambda>r. ''f'') 5 ''w'' {} PS_VALIDATION (idle_worker fx_queue))"
    by (rule worker_trans[OF worker_refl worker_poll]) (simp_all add: idle_worker_def STAGE_ORDER_def)
  from worker_respects_concurrency[OF this, of PS_VALIDATION] show ?thesis by simp
qed

subsection \<open>The lease\<close>

lemma pg_client_keeps:
  assumes "pg_client e now m delay q = Inr q'" and "q_wf q"
  shows "q_wf q' \<and> (\<exists>new. q_rows q' = q_rows q @ new)"
  using pg_client_cases[OF assms(1)] append_row_wf[OF assms(2), of m e now delay] assms(2)
  by (auto simp: pg_known_def split: if_splits)

lemma dispatch_keeps:
  assumes "q_wf q"
  shows "q_wf (snd (dispatch_next (pg_client e) env m st (d, q))) \<and>
      (\<exists>new. q_rows (snd (dispatch_next (pg_client e) env m st (d, q))) = q_rows q @ new)"
    and "q_wf (snd (schedule_retry (pg_client e) env m delay (d, q))) \<and>
      (\<exists>new. q_rows (snd (schedule_retry (pg_client e) env m delay (d, q))) = q_rows q @ new)"
  using pg_client_keeps[OF _ assms] assms
  by (auto simp: dispatch_next_def schedule_retry_def split: sum.splits)

lemma run_stage_keeps:
  assumes "q_wf q" and "run_stage (pg_client e) env mx m (d, q) = ((d', q'), res)"
  shows "q_wf q' \<and> (\<exists>new. q_rows q' = q_rows q @ new)"
proof (cases "execute env mx m d")
  case (Inl x)
  then show ?thesis using assms by (simp add: run_stage_def)
next
  case (Inr r)
  obtain d1 o1 where r: "r = (d1, o1)" by (cases r)
  define dq1 where "dq1 = (case o_next_stage o1 of
      Some st \<Rightarrow> if m_continue m then dispatch_next (pg_client e) env m st (d1, q) else (d1, q)
    | None \<Rightarrow> (d1, q))"
  have 1: "q_wf (snd dq1) \<and> (\<exists>new. q_rows (snd dq1) = q_rows q @ new)"
    using dispatch_keeps(1)[OF assms(1), of e env m _ d1] assms(1) by (auto simp: dq1_def split: option.split)
  have "(d', q') = (if o_should_retry o1
      then schedule_retry (pg_client e) env m (o_retry_delay_ms o1) dq1 else dq1)"
    using assms(2) unfolding run_stage_def fst_conv Inr r sum.case prod.case Let_def snd_conv
      dq1_def[symmetric] by (simp split: if_splits)
  moreover have "schedule_retry (pg_client e) env m dl dq1 =
      schedule_retry (pg_client e) env m dl (fst dq1, snd dq1)" for dl by simp
  ultimately show ?thesis
    using 1 dispatch_keeps(2)[of "snd dq1" e env m "o_retry_delay_ms o1" "fst dq1"]
    by (cases "o_should_retry o1") (metis append.assoc snd_conv)+
qed

lemma row_of_append: "row_of rid q = Some r \<Longrightarrow> q_rows q' = q_rows q @ new \<Longrightarrow> row_of rid q' = Some r"
  by (simp add: row_of_def find_append)

lemma complete_pending:
  assumes "q_wf q" and "row_of rid q = Some r" and "q_state r \<noteq> SQ_PENDING"
  shows "pg_pending (complete rid q) = pg_pending q"
proof -
  have "map (\<lambda>r. (q_job_id r, q_stage r, q_attempt r)) (filter (\<lambda>r. q_state r = SQ_PENDING) (update_where (\<lambda>r. q_id r = rid) done_row rs)) =
      map (\<lambda>r. (q_job_id r, q_stage r, q_attempt r)) (filter (\<lambda>r. q_state r = SQ_PENDING) rs)"
    if "\<forall>x \<in> set rs. q_id x = rid \<longrightarrow> q_state x \<noteq> SQ_PENDING" for rs
    using that by (induction rs) (auto simp: update_where_def done_row_def)
  moreover have "\<forall>x \<in> set (q_rows q). q_id x = rid \<longrightarrow> q_state x \<noteq> SQ_PENDING"
    using assms row_of_Some[OF assms(1)] by (metis option.inject)
  ultimately show ?thesis
    by (simp add: pg_pending_def complete_def mset_filter[symmetric] mset_map[symmetric] del: mset_filter mset_map)
qed

text \<open>C5: Running a leased row of an active job settles its lease. If the stage's execution returned
  (succeeded, failed or to be retried), the row is done and cannot be delivered again, and the only
  work left behind is the one message the execution handed on. If it raised, the database is as it
  was and the row itself goes back to the queue, or is dead when its attempts are used up.\<close>

theorem worker_settles_its_lease:
  assumes "isolated (en_handlers env (m_stage (cs_message item)))" and "db_wf d"
    and "active d (cs_message item)" and "q_wf q"
    and "row_of (cs_row_id item) q = Some r" and "q_state r = SQ_CLAIMED"
    and "en_dispatch_id env \<notin> set (map q_dispatch_id (q_rows q))"
    and "run_claimed qe env mx item (d, q) = (d', q')"
  shows "(case execute env mx (cs_message item) d of
      Inr (d1, o1) \<Rightarrow> (\<exists>r'. row_of (cs_row_id item) q' = Some r' \<and> q_state r' = SQ_DONE) \<and>
        ((\<exists>j. get_job (m_job_id (cs_message item)) d' = Some j \<and> j_state j = JS_FAILED \<and>
            pg_pending q' = pg_pending q) \<or>
         pg_pending q' = pg_pending q +
           (if o_should_retry o1
            then {#(m_job_id (cs_message item), m_stage (cs_message item), m_attempt (cs_message item) + 1)#}
            else case o_next_stage o1 of
              Some st \<Rightarrow> if m_continue (cs_message item) then {#(m_job_id (cs_message item), st, 1)#} else {#}
            | None \<Rightarrow> {#}))
    | Inl e \<Rightarrow> d' = d \<and> (\<exists>r'. row_of (cs_row_id item) q' = Some r' \<and>
        q_state r' = (if q_attempt r < q_max_attempts r then SQ_PENDING else SQ_DEAD)))"
proof (cases "execute env mx (cs_message item) d")
  case (Inl e)
  then have "d' = d" "q' = fst (fail qe (en_end env) (cs_row_id item) (crash_error e (cs_attempt item)) q)"
    using assms(8) by (simp_all add: run_claimed_def run_stage_def)
  moreover have "q_id r = cs_row_id item" using row_of_Some[OF assms(4)] assms(5) by blast
  ultimately show ?thesis using Inl assms(5)
    by (simp add: fail_fst fail_upd.row_of_update failed_queue_row_def)
next
  case (Inr x)
  obtain d1 o1 where x: "x = (d1, o1)" by (cases x)
  obtain d2 q2 where run: "run_stage (pg_client qe) env mx (cs_message item) (d, q) = ((d2, q2), Inr o1)"
    using run_stage_ok[OF Inr[unfolded x], of "pg_client qe" q] by blast
  then have eq: "d' = d2" "q' = complete (cs_row_id item) q2" using assms(8) by (simp_all add: run_claimed_def)
  obtain new where k: "q_wf q2" "q_rows q2 = q_rows q @ new" using run_stage_keeps[OF assms(4) run] by blast
  note row = row_of_append[OF assms(5) k(2)]
  have rid: "q_id r = cs_row_id item" using row_of_Some[OF assms(4)] assms(5) by blast
  have pend: "pg_pending q' = pg_pending q2"
    using complete_pending[OF k(1) row] assms(6) eq(2) by simp
  have "row_of (cs_row_id item) q' = Some (done_row r)"
    using row rid by (simp add: eq(2) complete_def done_upd.row_of_update)
  moreover note pg.run_stage_pending[OF assms(1-3) run]
  ultimately show ?thesis
    using assms(7) Inr x pend eq(1)
    by (auto simp: pg_known_def message_key_def next_message_def retry_message_def done_row_def
        split: if_splits option.splits)
qed

definition fx_leased :: stage_queue where
  "fx_leased = fx_queue\<lparr>q_rows := update_where (\<lambda>r. q_id r = 0) (claimed_row 50 ''w'') (q_rows fx_queue)\<rparr>"

lemma fx_leased_wf: "q_wf fx_leased"
  by (simp add: fx_leased_def claim_upd.update_wf fx_queue_wf)

lemma fx_leased_row:
  "row_of 0 fx_leased = Some (claimed_row 50 ''w'' (new_row fx_env 0 0 (fx_message PS_VALIDATION 1 ''d0'') 0))"
  using fx_row_0 by (simp add: fx_leased_def claim_upd.row_of_update) (simp add: new_row_def)

lemma fx_leased_ids: "''next'' \<notin> q_dispatch_id ` set (q_rows fx_leased)"
  by (auto simp: fx_leased_def set_update_where claimed_row_def fx_queue_def new_row_def fx_message_def)

theorem worker_settles_its_lease_witness:
  "\<exists>q'. (\<exists>d'. run_claimed fx_env (fx_runner fx_bad_handler) 3
      \<lparr>cs_row_id = 0, cs_message = fx_validate, cs_attempt = 1, cs_max_attempts = 3\<rparr>
      (fx_db, fx_leased) = (d', q')) \<and> (\<exists>r'. row_of 0 q' = Some r' \<and> q_state r' = SQ_DONE)"
proof -
  define item where "item = \<lparr>cs_row_id = 0, cs_message = fx_validate, cs_attempt = 1, cs_max_attempts = 3\<rparr>"
  have it: "cs_message item = fx_validate" "cs_row_id item = 0" by (simp_all add: item_def)
  obtain d1 o1 where e: "execute (fx_runner fx_bad_handler) 3 fx_validate fx_db = Inr (d1, o1)"
    using fx_execute_bad by blast
  obtain d' q' where r: "run_claimed fx_env (fx_runner fx_bad_handler) 3 item (fx_db, fx_leased) = (d', q')"
    by fastforce
  from worker_settles_its_lease[OF _ _ _ fx_leased_wf _ _ _ r, unfolded it, OF _ fx_db_wf fx_active fx_leased_row]
  have "\<exists>r'. row_of 0 q' = Some r' \<and> q_state r' = SQ_DONE"
    using e fx_leased_ids by (auto simp: claimed_row_def)
  with r show ?thesis unfolding item_def by blast
qed

end
