(* ===== verification/Exports.thy ===== *)
theory Exports
  imports ExportData Storage Maintenance Worker
begin

text \<open>
  \<^verbatim>\<open>backend/app/export/service.py\<close>, \<^verbatim>\<open>api/v1/exports.py\<close> and \<^verbatim>\<open>models/export.py\<close>: the export jobs,
  their life, and who may ask for one and fetch its file.

  A service method works on the session's view of the state; an endpoint runs in the request's
  transaction and the background task in one of its own, so what an exception leaves behind is decided
  there. The object store is not part of a transaction: what was written to it stays. The renderer,
  the store's operations, SHA-256 and pydantic's reading of a filter document are parameters.
\<close>

subsection \<open>Rows\<close>

datatype search_scope = SC_APPLICATION | SC_PROJECT | SC_CONTRACT

fun scope_value :: "search_scope \<Rightarrow> string" where
  "scope_value SC_APPLICATION = ''application''"
| "scope_value SC_PROJECT = ''project''"
| "scope_value SC_CONTRACT = ''contract''"

datatype export_format = EF_XLSX | EF_CSV | EF_JSON | EF_PDF

fun format_value :: "export_format \<Rightarrow> string" where
  "format_value EF_XLSX = ''xlsx''"
| "format_value EF_CSV = ''csv''"
| "format_value EF_JSON = ''json''"
| "format_value EF_PDF = ''pdf''"

datatype export_status = ES_QUEUED | ES_RUNNING | ES_COMPLETED | ES_FAILED | ES_EXPIRED

record export_row =
  ej_id :: uuid
  ej_project_id :: "uuid option"
  ej_requested_by :: uuid
  ej_scope :: search_scope
  ej_scope_ref :: "uuid option"
  ej_format :: export_format
  ej_status :: export_status
  ej_entities :: "string list"
  ej_fields :: dict
  ej_filters :: dict
  ej_storage_path :: "string option"
  ej_file_name :: "string option"
  ej_file_size :: "nat option"
  ej_row_count :: "nat option"
  ej_checksum :: "string option"
  ej_progress :: int
  ej_error :: "dict option"
  ej_started_at :: "instant option"
  ej_finished_at :: "instant option"
  ej_expires_at :: "instant option"
  ej_downloaded_at :: "instant option"
  ej_download_count :: int
  ej_created_at :: instant

record export_artifact =
  ar_content :: string
  ar_file_name :: string
  ar_content_type :: string
  ar_row_count :: nat

record 'f export_state =
  xs_id :: id_db
  xs_jobs :: "export_row list"
  xs_tables :: export_tables
  xs_files :: 'f

record 'f export_env =
  xv_today :: date
  xv_render :: "export_dataset \<Rightarrow> exn + export_artifact"
  xv_put :: "string \<Rightarrow> string \<Rightarrow> 'f \<Rightarrow> exn + 'f"
  xv_delete :: "string \<Rightarrow> 'f \<Rightarrow> exn + 'f \<times> bool"
  xv_signed_url :: "string \<Rightarrow> string option \<Rightarrow> string"
  xv_digest :: "string \<Rightarrow> string"
  xv_filters :: "dict \<Rightarrow> exn + contract_filters"
  xv_dump :: "contract_filters \<Rightarrow> dict"

definition DEFAULT_TTL_HOURS :: int where
  "DEFAULT_TTL_HOURS = 48"

definition DOWNLOAD_URL_TTL_SECONDS :: int where
  "DOWNLOAD_URL_TTL_SECONDS = 300"

subsection \<open>The registry of formats\<close>

text \<open>The formats with an exporter: importing the package registers \<open>XlsxExporter\<close>.\<close>

definition registered_formats :: "export_format list" where
  "registered_formats = [EF_XLSX]"

definition get_exporter :: "export_format \<Rightarrow> exn + unit" where
  "get_exporter f =
     (if f \<in> set registered_formats then Inr ()
      else Inl (AppErr \<lparr>e_class = ''ValidationError'', e_code = ''validation_error'',
        e_message = ''Export format '' @ quoted (format_value f) @ '' is not available. Supported: '' @
          join '', '' (map format_value registered_formats) @ ''.'',
        e_details = [(''field'', JStr ''export_format''),
          (''supported'', JArr (map (JStr \<circ> format_value) registered_formats))],
        e_retryable = False, e_stage = None\<rparr>))"

subsection \<open>Creating an export\<close>

record export_request =
  eq_user_id :: uuid
  eq_user_email :: string
  eq_project_id :: "uuid option"
  eq_scope :: search_scope
  eq_scope_ref :: "uuid option"
  eq_format :: export_format
  eq_entities :: "string list"
  eq_filters :: dict
  eq_fields :: dict

definition field_error :: "string \<Rightarrow> string \<Rightarrow> exn" where
  "field_error field msg =
     AppErr \<lparr>e_class = ''ValidationError'', e_code = ''validation_error'', e_message = msg,
       e_details = [(''field'', JStr field)], e_retryable = False, e_stage = None\<rparr>"

definition new_export :: "instant \<Rightarrow> uuid \<Rightarrow> export_request \<Rightarrow> export_row" where
  "new_export now eid q =
     \<lparr>ej_id = eid, ej_project_id = eq_project_id q, ej_requested_by = eq_user_id q, ej_scope = eq_scope q,
      ej_scope_ref = eq_scope_ref q, ej_format = eq_format q, ej_status = ES_QUEUED,
      ej_entities = eq_entities q, ej_fields = eq_fields q, ej_filters = eq_filters q,
      ej_storage_path = None, ej_file_name = None, ej_file_size = None, ej_row_count = None,
      ej_checksum = None, ej_progress = 0, ej_error = None, ej_started_at = None, ej_finished_at = None,
      ej_expires_at = None, ej_downloaded_at = None, ej_download_count = 0, ej_created_at = now\<rparr>"

definition export_audit :: "export_request \<Rightarrow> uuid \<Rightarrow> audit_row" where
  "export_audit q eid =
     audit_entry ((audit_args AA_EXPORT ''export_job'' (Some eid))
       \<lparr>au_entity_label := Some (format_value (eq_format q) @ '' export''), au_project_id := eq_project_id q,
        au_user_id := Some (eq_user_id q), au_user_email := Some (eq_user_email q),
        au_after := Some [(''scope'', FJson (JStr (scope_value (eq_scope q)))),
          (''format'', FJson (JStr (format_value (eq_format q)))),
          (''entities'', FJson (JArr (map JStr (eq_entities q)))),
          (''filters'', FJson (JObj (eq_filters q)))]\<rparr>)"

definition create_export_row :: "instant \<Rightarrow> export_request \<Rightarrow> 'f export_state \<Rightarrow>
    'f export_state \<times> (exn + export_row)" where
  "create_export_row now q s =
     (case get_exporter (eq_format q) of
        Inl e \<Rightarrow> (s, Inl e)
      | Inr _ \<Rightarrow>
          if eq_scope q = SC_PROJECT \<and> eq_project_id q = None
          then (s, Inl (field_error ''project_id'' ''A project-scoped export needs a project_id.''))
          else if eq_scope q = SC_CONTRACT \<and> eq_scope_ref q = None
          then (s, Inl (field_error ''scope_ref'' ''A contract-scoped export needs the contract id in scope_ref.''))
          else let eid = i_next_id (xs_id s); j = new_export now eid q
               in (s\<lparr>xs_jobs := xs_jobs s @ [j],
                     xs_id := audit (export_audit q eid) ((xs_id s)\<lparr>i_next_id := Suc eid\<rparr>)\<rparr>, Inr j))"

subsection \<open>Running an export\<close>

definition get_export :: "uuid \<Rightarrow> 'f export_state \<Rightarrow> exn + export_row" where
  "get_export eid s =
     (case List.find (\<lambda>j. ej_id j = eid) (xs_jobs s) of
        None \<Rightarrow> Inl (Identity.NotFoundError ''Export'' (uuid_str eid))
      | Some j \<Rightarrow> Inr j)"

definition update_export :: "uuid \<Rightarrow> (export_row \<Rightarrow> export_row) \<Rightarrow> 'f export_state \<Rightarrow> 'f export_state" where
  "update_export eid f s = s\<lparr>xs_jobs := update_where (\<lambda>j. ej_id j = eid) f (xs_jobs s)\<rparr>"

definition started_export :: "instant \<Rightarrow> export_row \<Rightarrow> export_row" where
  "started_export now j = j\<lparr>ej_status := ES_RUNNING, ej_started_at := Some now, ej_progress := 5, ej_error := None\<rparr>"

definition scope_label :: "export_row \<Rightarrow> string" where
  "scope_label j =
     (if ej_scope j = SC_CONTRACT then ''Single contract ('' @
        (case ej_scope_ref j of None \<Rightarrow> ''None'' | Some c \<Rightarrow> uuid_str c) @ '')''
      else if ej_scope j = SC_PROJECT then ''One project''
      else ''All projects the requester belongs to'')"

text \<open>\<open>ContractFilterParams.model_validate\<close> with the check of its own validator.\<close>

definition validated_filters :: "'f export_env \<Rightarrow> dict \<Rightarrow> exn + contract_filters" where
  "validated_filters env d =
     (case xv_filters env d of
        Inl e \<Rightarrow> Inl e
      | Inr f \<Rightarrow>
          if cf_expiring_within_days f \<noteq> None \<and> cf_expiration_date f \<noteq> None
          then Inl (PyErr ''ValidationError''
            (''Use either '' @ quoted ''expiring_within_days'' @ '' or an '' @ quoted ''expiration_date'' @ '' range, not both''))
          else Inr f)"

text \<open>The selection keeps the entries whose value is a list, with the texts it holds.\<close>

definition field_selection :: "dict \<Rightarrow> (string \<times> string list) list" where
  "field_selection d = concat (map (\<lambda>(k, v). case v of
       JArr xs \<Rightarrow> [(k, concat (map (\<lambda>x. case x of JStr t \<Rightarrow> [t] | _ \<Rightarrow> []) xs))] | _ \<Rightarrow> []) d)"

definition scoped_projects :: "export_row \<Rightarrow> uuid list \<Rightarrow> uuid list" where
  "scoped_projects j project_ids =
     (case ej_project_id j of None \<Rightarrow> project_ids | Some p \<Rightarrow> filter (\<lambda>q. q = p) project_ids)"

definition requester_email :: "'f export_state \<Rightarrow> export_row \<Rightarrow> string" where
  "requester_email s j =
     (case List.find (\<lambda>u. u_id u = ej_requested_by j) (i_users (xs_id s)) of
        None \<Rightarrow> uuid_str (ej_requested_by j)
      | Some u \<Rightarrow> if u_email u = [] then uuid_str (ej_requested_by j) else u_email u)"

definition export_build_request :: "'f export_env \<Rightarrow> 'f export_state \<Rightarrow> export_row \<Rightarrow> contract_filters \<Rightarrow>
    build_request" where
  "export_build_request env s j f =
     \<lparr>br_export_id = ej_id j, br_entities = ej_entities j, br_filters = Some f,
      br_filter_dump = Some (xv_dump env f),
      br_contract_ids = (if ej_scope j = SC_CONTRACT then case ej_scope_ref j of None \<Rightarrow> [] | Some c \<Rightarrow> [c] else []),
      br_generated_by = requester_email s j, br_scope_label = scope_label j,
      br_field_selection = field_selection (ej_fields j)\<rparr>"

definition build_export :: "'f export_env \<Rightarrow> instant \<Rightarrow> uuid list \<Rightarrow> string list \<Rightarrow> bool \<Rightarrow> 'f export_state \<Rightarrow>
    export_row \<Rightarrow> exn + export_dataset" where
  "build_export env now project_ids held is_admin s j =
     (case validated_filters env (ej_filters j) of
        Inl e \<Rightarrow> Inl e
      | Inr f \<Rightarrow>
          build_dataset (xv_today env) now
            \<lparr>xb_project_ids = scoped_projects j project_ids, xb_permissions = held,
             xb_is_system_admin = is_admin\<rparr>
            (export_build_request env s j f)
            ((xs_tables s)\<lparr>xt_projects := i_projects (xs_id s)\<rparr>))"

definition stored_export :: "'f export_env \<Rightarrow> string \<Rightarrow> export_artifact \<Rightarrow> export_row \<Rightarrow> export_row" where
  "stored_export env key a j =
     j\<lparr>ej_storage_path := Some key, ej_file_name := Some (ar_file_name a),
       ej_file_size := Some (length (ar_content a)), ej_row_count := Some (ar_row_count a),
       ej_checksum := Some (xv_digest env (ar_content a))\<rparr>"

definition completed_export :: "instant \<Rightarrow> export_row \<Rightarrow> export_row" where
  "completed_export now j =
     j\<lparr>ej_status := ES_COMPLETED, ej_progress := 100, ej_finished_at := Some now,
       ej_expires_at := Some (now + DEFAULT_TTL_HOURS * 3600 * 1000000)\<rparr>"

definition failed_export :: "instant \<Rightarrow> exn \<Rightarrow> export_row \<Rightarrow> export_row" where
  "failed_export now e j =
     j\<lparr>ej_status := ES_FAILED, ej_finished_at := Some now,
       ej_error := Some [(''type'', JStr (exn_type e)), (''message'', JStr (take 1000 (exn_text e)))]\<rparr>"

text \<open>\<open>produce\<close> is the body of the \<open>try\<close>: the row with its progress, and the files.\<close>

definition produce :: "'f export_env \<Rightarrow> instant \<Rightarrow> uuid list \<Rightarrow> string list \<Rightarrow> bool \<Rightarrow> 'f export_state \<Rightarrow>
    export_row \<Rightarrow> export_row \<times> 'f \<times> exn option" where
  "produce env now project_ids held is_admin s j =
     (case build_export env now project_ids held is_admin s j of
        Inl e \<Rightarrow> (j, xs_files s, Some e)
      | Inr ds \<Rightarrow>
          (let j1 = j\<lparr>ej_progress := 60\<rparr>
           in case (case get_exporter (ej_format j1) of Inl e \<Rightarrow> Inl e | Inr _ \<Rightarrow> xv_render env ds) of
                Inl e \<Rightarrow> (j1, xs_files s, Some e)
              | Inr a \<Rightarrow>
                  (let j2 = j1\<lparr>ej_progress := 85\<rparr>;
                       key = export_key (ej_project_id j2) (ej_id j2) (ar_file_name a)
                   in case xv_put env key (ar_content a) (xs_files s) of
                        Inl e \<Rightarrow> (j2, xs_files s, Some e)
                      | Inr fs \<Rightarrow> (stored_export env key a j2, fs, None))))"

definition run_export :: "'f export_env \<Rightarrow> instant \<Rightarrow> instant \<Rightarrow> uuid \<Rightarrow> uuid list \<Rightarrow> string list \<Rightarrow> bool \<Rightarrow>
    'f export_state \<Rightarrow> 'f export_state \<times> (exn + export_row)" where
  "run_export env now finished eid project_ids held is_admin s =
     (case get_export eid s of
        Inl e \<Rightarrow> (s, Inl e)
      | Inr j \<Rightarrow>
          if ej_status j = ES_COMPLETED then (s, Inr j)
          else if ej_status j = ES_RUNNING then (s, Inl (ConflictError ''This export is already running.''))
          else (case produce env now project_ids held is_admin s (started_export now j) of
            (j', fs, Some e) \<Rightarrow>
              ((update_export eid (\<lambda>_. failed_export finished e j') s)\<lparr>xs_files := fs\<rparr>, Inl e)
          | (j', fs, None) \<Rightarrow>
              ((update_export eid (\<lambda>_. completed_export finished j') s)\<lparr>xs_files := fs\<rparr>,
               Inr (completed_export finished j'))))"

text \<open>\<open>_run_export\<close>: a session of its own, committed when the block returns and rolled back when it
  raises; the exception is logged.\<close>

definition in_session :: "('f export_state \<Rightarrow> 'f export_state \<times> (exn + 'a)) \<Rightarrow> 'f export_state \<Rightarrow>
    'f export_state \<times> (exn + 'a)" where
  "in_session body s =
     (case body s of
        (s', Inl e) \<Rightarrow> (s\<lparr>xs_files := xs_files s'\<rparr>, Inl e)
      | (s', Inr a) \<Rightarrow> (s', Inr a))"

definition run_in_background :: "'f export_env \<Rightarrow> instant \<Rightarrow> instant \<Rightarrow> uuid \<Rightarrow> uuid list \<Rightarrow> string list \<Rightarrow> bool \<Rightarrow>
    'f export_state \<Rightarrow> 'f export_state" where
  "run_in_background env now finished eid project_ids held is_admin s =
     fst (in_session (run_export env now finished eid project_ids held is_admin) s)"

subsection \<open>Fetching the file\<close>

definition export_missing :: "uuid \<Rightarrow> exn" where
  "export_missing eid = Identity.NotFoundError ''Export'' (uuid_str eid)"

definition downloaded_export :: "instant \<Rightarrow> export_row \<Rightarrow> export_row" where
  "downloaded_export now j = j\<lparr>ej_downloaded_at := Some now, ej_download_count := ej_download_count j + 1\<rparr>"

definition download_audit :: "uuid \<Rightarrow> string \<Rightarrow> export_row \<Rightarrow> audit_row" where
  "download_audit user_id email j =
     audit_entry ((audit_args AA_DOWNLOAD ''export_job'' (Some (ej_id j)))
       \<lparr>au_entity_label := ej_file_name j, au_project_id := ej_project_id j, au_user_id := Some user_id,
        au_user_email := Some email,
        au_after := Some [(''download_count'', FJson (JInt (ej_download_count j)))]\<rparr>)"

definition has_path :: "export_row \<Rightarrow> bool" where
  "has_path j \<longleftrightarrow> truthy_text (ej_storage_path j)"

definition past_expiry :: "instant \<Rightarrow> export_row \<Rightarrow> bool" where
  "past_expiry now j \<longleftrightarrow> (case ej_expires_at j of None \<Rightarrow> False | Some t \<Rightarrow> t \<le> now)"

text \<open>The link is the store's own when it can sign, else a path of the API with a download token;
  \<open>link_str\<close> renders the token.\<close>

datatype 'tok link = StoreUrl string | TokenUrl uuid 'tok

definition download_link :: "'f export_env \<Rightarrow> 'tok sec_env \<Rightarrow> uuid \<Rightarrow> export_row \<Rightarrow> 'tok link" where
  "download_link env sec user_id j =
     (let url = xv_signed_url env (coalesce (ej_storage_path j)) (ej_file_name j)
      in if starts_with ''/api/'' url
         then TokenUrl (ej_id j) (create_download_token sec user_id ''export'' (ej_id j) DOWNLOAD_URL_TTL_SECONDS)
         else StoreUrl url)"

definition download_url :: "'f export_env \<Rightarrow> 'tok sec_env \<Rightarrow> uuid \<Rightarrow> uuid \<Rightarrow> string \<Rightarrow> 'f export_state \<Rightarrow>
    'f export_state \<times> (exn + 'tok link \<times> export_row)" where
  "download_url env sec eid user_id email s =
     (case get_export eid s of
        Inl e \<Rightarrow> (s, Inl e)
      | Inr j \<Rightarrow>
          if ej_requested_by j \<noteq> user_id then (s, Inl (export_missing eid))
          else if ej_status j = ES_EXPIRED \<or> past_expiry (se_now sec) j then (s, Inl (export_missing eid))
          else if ej_status j \<noteq> ES_COMPLETED \<or> \<not> has_path j
          then (s, Inl (ConflictError ''This export is not ready to download yet.''))
          else let j' = downloaded_export (se_now sec) j;
                   s1 = update_export eid (\<lambda>_. j') s
               in (s1\<lparr>xs_id := audit (download_audit user_id email j') (xs_id s1)\<rparr>,
                   Inr (download_link env sec user_id j, j')))"

text \<open>\<open>GET /exports/{id}/content\<close> answers with the object it streams.\<close>

definition stream_export :: "'tok sec_env \<Rightarrow> uuid \<Rightarrow> 'tok \<Rightarrow> 'f export_state \<Rightarrow> exn + string" where
  "stream_export sec eid token s =
     (case verify_download_token sec token ''export'' eid of
        Inl e \<Rightarrow> if exn_type e \<in> {''TokenExpiredError'', ''TokenInvalidError''} then Inl (export_missing eid) else Inl e
      | Inr payload \<Rightarrow>
          (case List.find (\<lambda>j. ej_id j = eid) (xs_jobs s) of
             None \<Rightarrow> Inl (export_missing eid)
           | Some j \<Rightarrow>
               if dict_get payload ''sub'' \<noteq> Some (JStr (uuid_str (ej_requested_by j))) then Inl (export_missing eid)
               else if ej_status j \<noteq> ES_COMPLETED \<or> \<not> has_path j then Inl (export_missing eid)
               else if past_expiry (se_now sec) j then Inl (export_missing eid)
               else Inr (coalesce (ej_storage_path j))))"

subsection \<open>The sweeps\<close>

definition stalled_export :: "int \<Rightarrow> export_row \<Rightarrow> export_row" where
  "stalled_export older_than_minutes j =
     j\<lparr>ej_status := ES_QUEUED, ej_progress := 0, ej_started_at := None,
       ej_error := Some [(''type'', JStr ''Stalled''),
         (''message'', JStr (''No progress for '' @ str_int older_than_minutes @
           '' minutes; the worker was presumed lost and the export was requeued.''))]\<rparr>"

definition export_stalled :: "instant \<Rightarrow> export_row \<Rightarrow> bool" where
  "export_stalled cutoff j \<longleftrightarrow> ej_status j = ES_RUNNING \<and>
     (case ej_started_at j of None \<Rightarrow> False | Some t \<Rightarrow> t \<le> cutoff)"

text \<open>\<open>.limit(n)\<close> without an order takes the first rows the table yields.\<close>

definition recover_stalled_exports :: "instant \<Rightarrow> int \<Rightarrow> nat \<Rightarrow> 'f export_state \<Rightarrow> 'f export_state \<times> nat" where
  "recover_stalled_exports now older_than_minutes limit s =
     (let rows = take limit (filter (export_stalled (now - minutes older_than_minutes)) (xs_jobs s))
      in (fold (\<lambda>j. update_export (ej_id j) (stalled_export older_than_minutes)) rows s, length rows))"

definition is_purgeable :: "instant \<Rightarrow> export_row \<Rightarrow> bool" where
  "is_purgeable now j \<longleftrightarrow> ej_status j = ES_COMPLETED \<and> past_expiry now j"

definition purged_export :: "export_row \<Rightarrow> export_row" where
  "purged_export j = j\<lparr>ej_status := ES_EXPIRED, ej_storage_path := None\<rparr>"

definition purge_one :: "'f export_env \<Rightarrow> export_row \<Rightarrow> 'f export_state \<times> nat \<Rightarrow> 'f export_state \<times> nat" where
  "purge_one env j sn =
     (case sn of (s, n) \<Rightarrow>
       (if has_path j
        then case xv_delete env (coalesce (ej_storage_path j)) (xs_files s) of
            Inl _ \<Rightarrow> (s, n)
          | Inr (fs, _) \<Rightarrow> (update_export (ej_id j) purged_export (s\<lparr>xs_files := fs\<rparr>), Suc n)
        else (update_export (ej_id j) purged_export s, Suc n)))"

definition purge_expired_exports :: "'f export_env \<Rightarrow> instant \<Rightarrow> nat \<Rightarrow> 'f export_state \<Rightarrow> 'f export_state \<times> nat" where
  "purge_expired_exports env now limit s =
     fold (purge_one env) (take limit (filter (is_purgeable now) (xs_jobs s))) (s, 0)"

subsection \<open>Endpoints\<close>

text \<open>\<open>_permissions_for\<close>: the union over the caller's memberships, of one project when one is named.\<close>

definition permissions_for :: "user_row \<Rightarrow> uuid option \<Rightarrow> id_db \<Rightarrow> string list" where
  "permissions_for u pid d =
     (if u_is_system_admin u then map perm_value permissions
      else remdups (concat (map (\<lambda>m. case role_by_id (pm_role_id m) d of
             None \<Rightarrow> [] | Some r \<Rightarrow> effective_permissions r m)
           (filter (\<lambda>m. pid = None \<or> pid = Some (pm_project_id m)) (list_for_user (u_id u) d)))))"

text \<open>What the response's background task is started with.\<close>

type_synonym export_task = "uuid \<times> uuid list \<times> string list \<times> bool"

definition create_export :: "instant \<Rightarrow> user_row \<Rightarrow> export_request \<Rightarrow> 'f export_state \<Rightarrow>
    'f export_state \<times> (exn + export_row \<times> export_task)" where
  "create_export now u q s =
     (let scope = get_access_scope u (xs_id s);
          chosen = (case (eq_scope q, eq_project_id q) of
            (SC_PROJECT, Some p) \<Rightarrow> map_sum id (\<lambda>_. [p]) (scope_require scope p)
          | _ \<Rightarrow> Inr (as_project_ids scope))
      in case chosen of
           Inl e \<Rightarrow> (s, Inl e)
         | Inr project_ids \<Rightarrow>
             (let held = permissions_for u (eq_project_id q) (xs_id s)
              in if \<not> u_is_system_admin u \<and> perm_value P_EXPORT_CREATE \<notin> set held
                 then (s, Inl (Identity.PermissionDeniedError (perm_value P_EXPORT_CREATE) PERMISSION_DENIED_MESSAGE))
                 else case create_export_row now (q\<lparr>eq_user_id := u_id u, eq_user_email := u_email u\<rparr>) s of
                   (s', Inl e) \<Rightarrow> (s', Inl e)
                 | (s', Inr j) \<Rightarrow> (s', Inr (j, (ej_id j, project_ids, held, u_is_system_admin u)))))"

definition create_project_export :: "instant \<Rightarrow> project_context \<Rightarrow> export_request \<Rightarrow> 'f export_state \<Rightarrow>
    'f export_state \<times> (exn + export_row \<times> export_task)" where
  "create_project_export now ctx q s =
     (case ctx_require ctx (perm_value P_EXPORT_CREATE) of
        Inl e \<Rightarrow> (s, Inl e)
      | Inr _ \<Rightarrow>
          (case create_export_row now (q\<lparr>eq_user_id := u_id (pc_user ctx), eq_user_email := u_email (pc_user ctx),
              eq_project_id := Some (pr_id (pc_project ctx)), eq_scope := SC_PROJECT\<rparr>) s of
             (s', Inl e) \<Rightarrow> (s', Inl e)
           | (s', Inr j) \<Rightarrow> (s', Inr (j, (ej_id j, [pr_id (pc_project ctx)], pc_permissions ctx,
               u_is_system_admin (pc_user ctx))))))"

definition get_export_status :: "user_row \<Rightarrow> uuid \<Rightarrow> 'f export_state \<Rightarrow> exn + export_row" where
  "get_export_status u eid s =
     (case List.find (\<lambda>j. ej_id j = eid) (xs_jobs s) of
        None \<Rightarrow> Inl (export_missing eid)
      | Some j \<Rightarrow> if ej_requested_by j \<noteq> u_id u \<and> \<not> u_is_system_admin u then Inl (export_missing eid) else Inr j)"

text \<open>One page of the caller's exports, newest first, and their number; the status filter is skipped when
  empty.\<close>

definition list_exports :: "user_row \<Rightarrow> nat \<Rightarrow> nat \<Rightarrow> export_status list \<Rightarrow> uuid option \<Rightarrow> 'f export_state \<Rightarrow>
    exn + export_row list \<times> nat" where
  "list_exports u page page_size statuses pid s =
     (let mine = filter (\<lambda>j. ej_requested_by j = u_id u \<and> (statuses = [] \<or> ej_status j \<in> set statuses)) (xs_jobs s)
      in case (case pid of None \<Rightarrow> Inr mine
           | Some _ \<Rightarrow> map_sum id (\<lambda>ps. filter (\<lambda>j. \<exists>p \<in> set ps. ej_project_id j = Some p) mine)
               (resolve_scope_for_project pid (get_access_scope u (xs_id s)))) of
           Inl e \<Rightarrow> Inl e
         | Inr rows \<Rightarrow> Inr (take page_size (drop ((page - 1) * page_size) (sort_key (\<lambda>j. - ej_created_at j) rows)), length rows))"

end
