(* ===== verification/ExportLaws.thy ===== *)
theory ExportLaws
  imports Exports
begin

text \<open>
  The laws of the exports: the committed states and their invariant, what a requested export can hold,
  what a failure leaves, who may download a file, the files themselves and their purge.
\<close>

subsection \<open>The life of an export\<close>

text \<open>The committed states: a request or a background session that ends, a sweep, or any change of the
  rest of the system, which may add rows and ids but does not write export jobs.\<close>

inductive export_step :: "'f export_env \<Rightarrow> 'tok sec_env \<Rightarrow> 'f export_state \<Rightarrow> 'f export_state \<Rightarrow> bool"
  for env sec where
  created: "export_step env sec s (fst (in_request (create_export now u q) s))"
| created_in_project: "export_step env sec s (fst (in_request (create_project_export now ctx q) s))"
| ran: "export_step env sec s (run_in_background env now finished eid project_ids held is_admin s)"
| downloaded: "export_step env sec s (fst (in_request (download_url env (sec\<lparr>se_now := now\<rparr>) eid user_id email) s))"
| recovered: "export_step env sec s (fst (recover_stalled_exports now m limit s))"
| purged: "export_step env sec s (fst (purge_expired_exports env now limit s))"
| elsewhere: "i_next_id (xs_id s) \<le> i_next_id ident \<Longrightarrow>
    export_step env sec s \<lparr>xs_id = ident, xs_jobs = xs_jobs s, xs_tables = tables, xs_files = files\<rparr>"

inductive export_reachable :: "'f export_env \<Rightarrow> 'tok sec_env \<Rightarrow> 'f export_state \<Rightarrow> bool" for env sec where
  initial: "xs_jobs s = [] \<Longrightarrow> export_reachable env sec s"
| further: "export_reachable env sec s \<Longrightarrow> export_step env sec s s' \<Longrightarrow> export_reachable env sec s'"

definition row_settled :: "export_row \<Rightarrow> bool" where
  "row_settled j \<longleftrightarrow>
     (case ej_status j of
        ES_QUEUED \<Rightarrow> ej_storage_path j = None \<and> ej_error j = None \<and> ej_progress j = 0 \<and> ej_started_at j = None \<and>
          ej_expires_at j = None
      | ES_COMPLETED \<Rightarrow> ej_storage_path j \<noteq> None \<and> ej_expires_at j \<noteq> None \<and> ej_checksum j \<noteq> None \<and> ej_progress j = 100
      | ES_EXPIRED \<Rightarrow> ej_storage_path j = None
      | _ \<Rightarrow> False)"

definition exports_settled :: "'f export_state \<Rightarrow> bool" where
  "exports_settled s \<longleftrightarrow> list_all row_settled (xs_jobs s) \<and> distinct (map ej_id (xs_jobs s)) \<and>
     list_all (\<lambda>j. ej_id j < i_next_id (xs_id s)) (xs_jobs s)"

lemma update_export_ids:
  assumes "\<And>j. j \<in> set (xs_jobs s) \<Longrightarrow> ej_id j = eid \<Longrightarrow> ej_id (f j) = eid"
  shows "map ej_id (xs_jobs (update_export eid f s)) = map ej_id (xs_jobs s)"
  using assms by (simp add: update_export_def update_where_def)

lemma exports_settled_update:
  assumes "exports_settled s"
    and f: "\<And>j. j \<in> set (xs_jobs s) \<Longrightarrow> ej_id j = eid \<Longrightarrow> ej_id (f j) = eid \<and> row_settled (f j)"
    and s': "xs_jobs s' = xs_jobs (update_export eid f s)" "i_next_id (xs_id s) \<le> i_next_id (xs_id s')"
  shows "exports_settled s'"
proof -
  have "map ej_id (xs_jobs s') = map ej_id (xs_jobs s)"
    unfolding s'(1) by (rule update_export_ids) (use f in blast)
  then have "distinct (map ej_id (xs_jobs s'))" "\<forall>i \<in> set (map ej_id (xs_jobs s')). i < i_next_id (xs_id s)"
    using assms(1) by (auto simp: exports_settled_def list_all_iff)
  moreover have "list_all row_settled (xs_jobs s')"
    using assms(1) f unfolding s'(1) by (auto simp: exports_settled_def list_all_iff update_export_def set_update_where)
  ultimately show ?thesis using s'(2) by (fastforce simp: exports_settled_def list_all_iff)
qed

lemma create_export_row_added:
  assumes "create_export_row now q s = (s', Inr j)"
  shows "j = new_export now (i_next_id (xs_id s)) q" "xs_jobs s' = xs_jobs s @ [j]"
    "i_next_id (xs_id s') = Suc (i_next_id (xs_id s))"
proof -
  let ?j = "new_export now (i_next_id (xs_id s)) q"
  have e: "j = ?j \<and> s' = s\<lparr>xs_jobs := xs_jobs s @ [?j],
      xs_id := audit (export_audit q (i_next_id (xs_id s))) ((xs_id s)\<lparr>i_next_id := Suc (i_next_id (xs_id s))\<rparr>)\<rparr>"
    using assms unfolding create_export_row_def Let_def by (cases "get_exporter (eq_format q)") (auto split: if_splits)
  then show "j = ?j" "xs_jobs s' = xs_jobs s @ [j]" "i_next_id (xs_id s') = Suc (i_next_id (xs_id s))"
    by (simp_all add: audit_def)
qed

lemma create_export_row_settled:
  assumes "exports_settled s" "create_export_row now q s = (s', Inr j)"
  shows "exports_settled s'"
proof -
  note new = create_export_row_added[OF assms(2)]
  have "row_settled j" "ej_id j = i_next_id (xs_id s)" by (simp_all add: new(1) new_export_def row_settled_def)
  then show ?thesis
    using assms(1) unfolding exports_settled_def new(2,3) by (auto simp: list_all_iff less_SucI)
qed

lemma in_request_error: "snd (h s) = Inl e \<Longrightarrow> fst (in_request h s) = s"
  by (cases "h s") (simp add: in_request_def)

lemma in_request_ok: "h s = (s', Inr a) \<Longrightarrow> fst (in_request h s) = s'"
  by (simp add: in_request_def)

text \<open>What a request leaves is its handler's state when it answers and the old state when it raises.\<close>

lemma in_request_settled:
  assumes "exports_settled s" "\<And>s' a. h s = (s', Inr a) \<Longrightarrow> exports_settled s'"
  shows "exports_settled (fst (in_request h s))"
proof (cases "h s")
  case (Pair s' r)
  then show ?thesis using assms by (cases r) (auto simp: in_request_def)
qed

lemma create_export_inner:
  assumes "create_export now u q s = (s', Inr a)"
  obtains q' j where "create_export_row now q' s = (s', Inr j)" "fst a = j"
    "q' = q\<lparr>eq_user_id := u_id u, eq_user_email := u_email u\<rparr>"
  using assms by (auto simp: create_export_def Let_def split: sum.splits if_splits prod.splits)

lemma create_project_export_inner:
  assumes "create_project_export now ctx q s = (s', Inr a)"
  obtains q' j where "create_export_row now q' s = (s', Inr j)"
  using assms by (auto simp: create_project_export_def split: sum.splits prod.splits)

lemma produce_ok:
  assumes "produce env now ps held adm s j = (j', fs, None)"
  obtains ds a where "build_export env now ps held adm s j = Inr ds" "xv_render env ds = Inr a"
    "xv_put env (export_key (ej_project_id j) (ej_id j) (ar_file_name a)) (ar_content a) (xs_files s) = Inr fs"
    "j' = stored_export env (export_key (ej_project_id j) (ej_id j) (ar_file_name a)) a (j\<lparr>ej_progress := 85\<rparr>)"
  using assms by (auto simp: produce_def Let_def split: sum.splits)

lemma get_export_Inr:
  "get_export eid s = Inr j \<longleftrightarrow> List.find (\<lambda>j. ej_id j = eid) (xs_jobs s) = Some j"
  by (auto simp: get_export_def split: option.splits)

text \<open>The two ways a run returns.\<close>

lemma run_export_ok:
  assumes "run_export env now finished eid ps held adm s = (s', Inr r)"
  obtains (again) "get_export eid s = Inr r" "ej_status r = ES_COMPLETED" "s' = s"
    | (finished_now) j j' fs where "get_export eid s = Inr j" "ej_status j \<noteq> ES_COMPLETED" "ej_status j \<noteq> ES_RUNNING"
      "produce env now ps held adm s (started_export now j) = (j', fs, None)"
      "r = completed_export finished j'" "s' = (update_export eid (\<lambda>_. r) s)\<lparr>xs_files := fs\<rparr>"
proof (cases "get_export eid s")
  case (Inl e)
  then show ?thesis using assms by (simp add: run_export_def)
next
  case (Inr j)
  obtain j' fs f where p: "produce env now ps held adm s (started_export now j) = (j', fs, f)"
    by (cases "produce env now ps held adm s (started_export now j)") auto
  show ?thesis
  proof (cases "ej_status j = ES_COMPLETED")
    case True
    then have "r = j" "s' = s" using assms Inr by (simp_all add: run_export_def)
    then show ?thesis using True Inr by (intro again) simp_all
  next
    case False
    have "ej_status j \<noteq> ES_RUNNING" using assms Inr False by (auto simp: run_export_def)
    moreover have none: "f = None" using assms Inr p False by (cases f) (simp_all add: run_export_def split: if_splits)
    ultimately have run: "run_export env now finished eid ps held adm s =
        ((update_export eid (\<lambda>_. completed_export finished j') s)\<lparr>xs_files := fs\<rparr>, Inr (completed_export finished j'))"
      using Inr p False by (simp add: run_export_def)
    note both = assms[unfolded run]
    then have parts: "(update_export eid (\<lambda>_. completed_export finished j') s)\<lparr>xs_files := fs\<rparr> = s'"
      "completed_export finished j' = r" by (rule Pair_inject, simp)+
    have r: "r = completed_export finished j'" and "s' = (update_export eid (\<lambda>_. r) s)\<lparr>xs_files := fs\<rparr>"
      by (simp_all only: parts(2)[symmetric] parts(1)[symmetric])
    then show ?thesis
      using finished_now[OF Inr False \<open>ej_status j \<noteq> ES_RUNNING\<close>] p r none by blast
  qed
qed

lemmas row_fields [simp] = started_export_def stored_export_def completed_export_def purged_export_def
  downloaded_export_def

lemma run_settled:
  assumes "exports_settled s"
  shows "exports_settled (run_in_background env now finished eid ps held adm s)"
proof (cases "run_export env now finished eid ps held adm s")
  case (Pair s' r)
  show ?thesis
  proof (cases r)
    case (Inl e)
    then show ?thesis using assms Pair by (simp add: run_in_background_def in_session_def exports_settled_def)
  next
    case (Inr j)
    note ok = Pair[unfolded Inr]
    have result: "run_in_background env now finished eid ps held adm s = s'"
      using ok by (simp add: run_in_background_def in_session_def)
    from ok show ?thesis
    proof (cases rule: run_export_ok)
      case again
      then show ?thesis using assms result by simp
    next
      case (finished_now j0 j' fs)
      from finished_now(4) show ?thesis
      proof (cases rule: produce_ok)
        case (1 ds a)
        have "ej_id j0 = eid" using finished_now(1) by (auto simp: get_export_Inr dest: find_SomeD)
        moreover have "row_settled j" using 1(4) finished_now(5) by (simp add: row_settled_def)
        moreover have "ej_id j = ej_id j0" using 1(4) finished_now(5) by simp
        ultimately show ?thesis
          unfolding result finished_now(6)
          by (intro exports_settled_update[OF assms, of eid "\<lambda>_. j"]) (simp_all add: update_export_def)
      qed
    qed
  qed
qed

lemma no_stalled_exports: "exports_settled s \<Longrightarrow> filter (export_stalled cutoff) (xs_jobs s) = []"
  by (auto simp: exports_settled_def list_all_iff row_settled_def export_stalled_def filter_empty_conv)

lemma recover_finds_nothing: "exports_settled s \<Longrightarrow> recover_stalled_exports now m limit s = (s, 0)"
  by (simp add: recover_stalled_exports_def no_stalled_exports)

lemma purge_one_shape:
  obtains (kept) "purge_one env j (s, n) = (s, n)"
  | (gone) s' where "purge_one env j (s, n) = (s', Suc n)" "xs_id s' = xs_id s"
      "xs_jobs s' = xs_jobs (update_export (ej_id j) purged_export s)"
  by (cases "has_path j"; cases "xv_delete env (coalesce (ej_storage_path j)) (xs_files s)")
    (auto simp: purge_one_def update_export_def split: prod.splits)

lemma purge_settled:
  "exports_settled s \<Longrightarrow> exports_settled (fst (fold (purge_one env) rows (s, n)))"
proof (induction rows arbitrary: s n)
  case (Cons j rows)
  show ?case
  proof (cases rule: purge_one_shape[of env j s n])
    case kept
    then show ?thesis using Cons by simp
  next
    case (gone s')
    have "exports_settled s'"
      by (rule exports_settled_update[OF Cons.prems, of "ej_id j" purged_export])
        (simp_all add: row_settled_def gone)
    then show ?thesis using Cons.IH gone(1) by simp
  qed
qed simp

lemma download_ok:
  assumes "download_url env sec eid user_id email s = (s', Inr (l, j'))"
  obtains j where "get_export eid s = Inr j" "ej_requested_by j = user_id" "ej_status j = ES_COMPLETED" "has_path j"
    "\<not> past_expiry (se_now sec) j" "l = download_link env sec user_id j" "j' = downloaded_export (se_now sec) j"
    "s' = (update_export eid (\<lambda>_. j') s)\<lparr>xs_id := audit (download_audit user_id email j') (xs_id s)\<rparr>"
proof (cases "get_export eid s")
  case (Inl e)
  then show ?thesis using assms by (simp add: download_url_def)
next
  case (Inr j)
  have open_row: "ej_requested_by j = user_id" "ej_status j = ES_COMPLETED" "has_path j" "\<not> past_expiry (se_now sec) j"
    using assms Inr by (auto simp: download_url_def split: if_splits)
  then have "l = download_link env sec user_id j" "j' = downloaded_export (se_now sec) j"
    "s' = (update_export eid (\<lambda>_. j') s)\<lparr>xs_id := audit (download_audit user_id email j') (xs_id s)\<rparr>"
    using assms Inr by (auto simp: download_url_def Let_def update_export_def)
  then show ?thesis by (rule that[OF Inr open_row])
qed

lemma export_step_settled:
  assumes "export_step env sec s s'" "exports_settled s"
  shows "exports_settled s'"
  using assms
proof (cases rule: export_step.cases)
  case (created now u q)
  show ?thesis unfolding created
    by (rule in_request_settled[OF assms(2)])
      (use create_export_inner create_export_row_settled[OF assms(2)] in metis)
next
  case (created_in_project now ctx q)
  show ?thesis unfolding created_in_project
    by (rule in_request_settled[OF assms(2)])
      (use create_project_export_inner create_export_row_settled[OF assms(2)] in metis)
next
  case (ran now finished eid ps held adm)
  show ?thesis unfolding ran by (rule run_settled[OF assms(2)])
next
  case (downloaded now eid user_id email)
  show ?thesis unfolding downloaded
  proof (rule in_request_settled[OF assms(2)])
    fix s1 :: "'a export_state" and lj
    assume "download_url env (sec\<lparr>se_now := now\<rparr>) eid user_id email s = (s1, Inr lj)"
    then obtain j where j: "get_export eid s = Inr j" "ej_status j = ES_COMPLETED"
      "s1 = (update_export eid (\<lambda>_. downloaded_export now j) s)
        \<lparr>xs_id := audit (download_audit user_id email (downloaded_export now j)) (xs_id s)\<rparr>"
      by (cases lj) (auto elim!: download_ok)
    then have "j \<in> set (xs_jobs s)" "ej_id j = eid" by (auto simp: get_export_Inr dest: find_SomeD)
    then have "row_settled j" using assms(2) by (auto simp: exports_settled_def list_all_iff)
    then have "row_settled (downloaded_export now j)" using j(2) by (simp add: row_settled_def)
    then show "exports_settled s1"
      unfolding j(3) using \<open>ej_id j = eid\<close>
      by (intro exports_settled_update[OF assms(2), of eid "\<lambda>_. downloaded_export now j"])
        (simp_all add: update_export_def audit_def)
  qed
next
  case (recovered now m limit)
  show ?thesis unfolding recovered using assms(2) by (simp add: recover_finds_nothing)
next
  case (purged now limit)
  show ?thesis unfolding purged purge_expired_exports_def by (rule purge_settled[OF assms(2)])
next
  case (elsewhere ident tables files)
  then show ?thesis using assms(2) by (fastforce simp: exports_settled_def list_all_iff)
qed

lemma export_reachable_settled: "export_reachable env sec s \<Longrightarrow> exports_settled s"
proof (induction rule: export_reachable.induct)
  case (initial s)
  then show ?case by (simp add: exports_settled_def)
next
  case (further s s')
  then show ?case using export_step_settled by blast
qed

text \<open>C11: In every state the system commits, an export is queued, completed or expired. A completed
  one has its file, its checksum and an expiry, an expired one has no file; and no export is ever seen
  running or failed: a run is one transaction, and the record of its failure is rolled back with it. So
  the recovery of stalled exports never finds one.\<close>

theorem committed_exports_never_run_or_fail:
  assumes "export_reachable env sec s"
  shows "(\<forall>j \<in> set (xs_jobs s). row_settled j \<and> ej_status j \<in> {ES_QUEUED, ES_COMPLETED, ES_EXPIRED}) \<and>
    distinct (map ej_id (xs_jobs s)) \<and>
    (\<forall>now m limit. recover_stalled_exports now m limit s = (s, 0))"
proof -
  have settled: "exports_settled s" using assms by (rule export_reachable_settled)
  have "ej_status j \<in> {ES_QUEUED, ES_COMPLETED, ES_EXPIRED}" if "row_settled j" for j
    using that by (cases "ej_status j") (simp_all add: row_settled_def)
  then show ?thesis
    using settled recover_finds_nothing[OF settled] by (auto simp: exports_settled_def list_all_iff)
qed

subsection \<open>What an export holds\<close>

lemma of_projects_mono: "set qs \<subseteq> set ps \<Longrightarrow> of_projects qs f rows = filter (\<lambda>r. f r \<in> set qs) (of_projects ps f rows)"
  unfolding of_projects_def by (induction rows) auto

lemma same_view_mono:
  assumes "same_view ps d d'" "set qs \<subseteq> set ps"
  shows "same_view qs d d'"
  using assms(1) unfolding same_view_def of_projects_mono[OF assms(2)] by simp

lemma create_export_task:
  assumes "create_export now u q s = (s', Inr (j, (eid, pids, held, adm)))"
  shows "set pids \<subseteq> set (as_project_ids (get_access_scope u (xs_id s)))" "adm = u_is_system_admin u" "eid = ej_id j"
    "held = permissions_for u (eq_project_id q) (xs_id s)" "adm \<or> perm_value P_EXPORT_CREATE \<in> set held"
    "ej_requested_by j = u_id u" "ej_status j = ES_QUEUED"
proof -
  let ?scope = "get_access_scope u (xs_id s)"
  let ?chosen = "case (eq_scope q, eq_project_id q) of
      (SC_PROJECT, Some p) \<Rightarrow> map_sum id (\<lambda>_. [p]) (scope_require ?scope p)
    | _ \<Rightarrow> Inr (as_project_ids ?scope)"
  obtain ids where ids: "?chosen = Inr ids"
    using assms by (cases ?chosen) (simp_all add: create_export_def Let_def)
  have sub: "set ids \<subseteq> set (as_project_ids ?scope)"
    using ids by (auto simp: scope_require_def scope_contains_def split: search_scope.splits option.splits if_splits)
  have rest: "(if \<not> u_is_system_admin u \<and> perm_value P_EXPORT_CREATE \<notin> set (permissions_for u (eq_project_id q) (xs_id s))
     then (s, Inl (Identity.PermissionDeniedError (perm_value P_EXPORT_CREATE) PERMISSION_DENIED_MESSAGE))
     else case create_export_row now (q\<lparr>eq_user_id := u_id u, eq_user_email := u_email u\<rparr>) s of
       (s', Inl e) \<Rightarrow> (s', Inl e)
     | (s', Inr j) \<Rightarrow> (s', Inr (j, (ej_id j, ids, permissions_for u (eq_project_id q) (xs_id s), u_is_system_admin u)))) =
     (s', Inr (j, (eid, pids, held, adm)))"
    using assms unfolding create_export_def Let_def ids by simp
  then have parts: "pids = ids" "adm = u_is_system_admin u" "eid = ej_id j"
    "held = permissions_for u (eq_project_id q) (xs_id s)" "adm \<or> perm_value P_EXPORT_CREATE \<in> set held"
    "create_export_row now (q\<lparr>eq_user_id := u_id u, eq_user_email := u_email u\<rparr>) s = (s', Inr j)"
    by (auto split: if_splits prod.splits sum.splits)
  show "set pids \<subseteq> set (as_project_ids ?scope)" "adm = u_is_system_admin u" "eid = ej_id j"
    "held = permissions_for u (eq_project_id q) (xs_id s)" "adm \<or> perm_value P_EXPORT_CREATE \<in> set held"
    using parts sub by simp_all
  show "ej_requested_by j = u_id u" "ej_status j = ES_QUEUED"
    using create_export_row_added(1)[OF parts(6)] by (simp_all add: new_export_def)
qed

text \<open>C10: What a requested export can hold is settled by the request. Its task carries a subset of the
  projects the caller could see then; whatever the filters, the named contract or the entities are, the
  file depends on no row of another project, and for a caller without the review permission on no
  wording of a masked clause.\<close>

theorem export_is_the_requesters_view:
  assumes task: "create_export now u q s0 = (s1, Inr (j, (eid, pids, held, adm)))"
    and view: "same_view (as_project_ids (get_access_scope u (xs_id s0))) d d'"
  shows "build_export env t pids held adm (s\<lparr>xs_tables := d\<rparr>) j = build_export env t pids held adm (s\<lparr>xs_tables := d'\<rparr>) j \<and>
    (u_is_system_admin u \<or>
     perm_value P_KNOWLEDGE_REVIEW \<in> set (permissions_for u (eq_project_id q) (xs_id s0)) \<or>
     build_export env t pids held adm (s\<lparr>xs_tables := d\<rparr>) j =
       build_export env t pids held adm (s\<lparr>xs_tables := erase_wording d\<rparr>) j)"
proof -
  note t = create_export_task[OF task]
  let ?ps = "scoped_projects j pids"
  have request: "export_build_request env (s\<lparr>xs_tables := x\<rparr>) j f = export_build_request env s j f" for x f
    by (simp add: export_build_request_def requester_email_def)
  have "set ?ps \<subseteq> set (as_project_ids (get_access_scope u (xs_id s0)))"
    using t(1) by (auto simp: scoped_projects_def split: option.splits)
  then have "same_view ?ps d d'" by (rule same_view_mono[OF view])
  then have "same_view ?ps (d\<lparr>xt_projects := i_projects (xs_id s)\<rparr>) (d'\<lparr>xt_projects := i_projects (xs_id s)\<rparr>)"
    by (simp add: same_view_def)
  then have one: "build_export env t pids held adm (s\<lparr>xs_tables := d\<rparr>) j =
      build_export env t pids held adm (s\<lparr>xs_tables := d'\<rparr>) j"
    using export_ignores_other_projects[of "\<lparr>xb_project_ids = ?ps, xb_permissions = held, xb_is_system_admin = adm\<rparr>"]
    by (simp add: build_export_def request cong: sum.case_cong)
  have "build_export env t pids held adm (s\<lparr>xs_tables := d\<rparr>) j =
       build_export env t pids held adm (s\<lparr>xs_tables := erase_wording d\<rparr>) j"
    if "\<not> u_is_system_admin u" "perm_value P_KNOWLEDGE_REVIEW \<notin> set held"
  proof -
    have hidden: "\<not> may_see_masked \<lparr>xb_project_ids = ?ps, xb_permissions = held, xb_is_system_admin = adm\<rparr>"
      using that t(2) by (simp add: may_see_masked_def)
    have "(erase_wording d)\<lparr>xt_projects := ps\<rparr> = erase_wording (d\<lparr>xt_projects := ps\<rparr>)" for ps
      by (simp add: erase_wording_def)
    then show ?thesis
      using masked_wording_never_leaves[OF hidden, where d = "d\<lparr>xt_projects := i_projects (xs_id s)\<rparr>"]
      by (simp add: build_export_def request cong: sum.case_cong)
  qed
  then show ?thesis using one t(4) by blast
qed

text \<open>A failed run leaves no trace. Inside the session the row is marked failed with its error; but
  the run raises, the background task's transaction is rolled back, and the committed row is still the
  queued one, without an error, which no sweep and no request ever runs again.\<close>

theorem failed_export_stays_queued:
  assumes reachable: "export_reachable env sec s"
    and queued: "get_export eid s = Inr j" "ej_status j = ES_QUEUED"
    and failed: "run_export env now finished eid ps held adm s = (s', Inl e)"
  shows "(\<exists>j'. get_export eid s' = Inr j' \<and> ej_status j' = ES_FAILED \<and> ej_error j' \<noteq> None) \<and>
    get_export eid (run_in_background env now finished eid ps held adm s) = Inr j \<and>
    ej_error j = None \<and>
    xs_jobs (run_in_background env now finished eid ps held adm s) = xs_jobs s \<and>
    recover_stalled_exports now' m limit (run_in_background env now finished eid ps held adm s) =
      (run_in_background env now finished eid ps held adm s, 0)"
proof -
  let ?t = "run_in_background env now finished eid ps held adm s"
  have jobs: "xs_jobs ?t = xs_jobs s"
    using failed by (simp add: run_in_background_def in_session_def)
  have "row_settled j"
    using export_reachable_settled[OF reachable] queued(1)
    by (auto simp: exports_settled_def list_all_iff get_export_Inr dest: find_SomeD)
  then have error: "ej_error j = None" using queued(2) by (simp add: row_settled_def)
  obtain j1 fs f where p: "produce env now ps held adm s (started_export now j) = (j1, fs, f)"
    by (cases "produce env now ps held adm s (started_export now j)") auto
  have run: "run_export env now finished eid ps held adm s = (case f of
      Some e \<Rightarrow> ((update_export eid (\<lambda>_. failed_export finished e j1) s)\<lparr>xs_files := fs\<rparr>, Inl e)
    | None \<Rightarrow> ((update_export eid (\<lambda>_. completed_export finished j1) s)\<lparr>xs_files := fs\<rparr>, Inr (completed_export finished j1)))"
    using queued p by (simp add: run_export_def split: option.split)
  obtain e1 where f: "f = Some e1" using failed unfolding run by (cases f) simp_all
  have both: "((update_export eid (\<lambda>_. failed_export finished e1 j1) s)\<lparr>xs_files := fs\<rparr>, Inl e1) =
      (s', Inl e :: exn + export_row)"
    using failed unfolding run f by (simp only: option.case)
  have s': "s' = (update_export eid (\<lambda>_. failed_export finished e j1) s)\<lparr>xs_files := fs\<rparr>"
    using both by auto
  have "List.find (\<lambda>j. ej_id j = eid) (xs_jobs s') = Some (failed_export finished e j1)"
  proof -
    have id: "ej_id j = eid" using queued(1) by (auto simp: get_export_Inr dest: find_SomeD)
    have "ej_id j1 = ej_id j"
      using p by (auto simp: produce_def Let_def split: sum.splits)
    then have keep: "ej_id (failed_export finished e j1) = eid" using id by (simp add: failed_export_def)
    have "List.find (\<lambda>j. ej_id j = eid) xs = Some j \<Longrightarrow>
        List.find (\<lambda>j. ej_id j = eid) (update_where (\<lambda>j. ej_id j = eid) (\<lambda>_. failed_export finished e j1) xs) =
          Some (failed_export finished e j1)" for xs
      using keep by (induction xs) (auto simp: update_where_def)
    then show ?thesis using queued(1) by (simp add: s' update_export_def get_export_Inr)
  qed
  then have marked: "\<exists>j'. get_export eid s' = Inr j' \<and> ej_status j' = ES_FAILED \<and> ej_error j' \<noteq> None"
    by (simp add: get_export_Inr failed_export_def)
  have "exports_settled ?t" by (rule run_settled[OF export_reachable_settled[OF reachable]])
  then show ?thesis
    using marked error jobs queued(1) recover_finds_nothing by (simp add: get_export_def)
qed

subsection \<open>Downloads\<close>

text \<open>A download link is minted exactly for the requester of a completed export that has its file
  and has not expired; anybody else gets the answer an export that does not exist would give. The
  download is counted on the row and audited, and nothing else changes.\<close>

theorem download_needs_the_requester:
  assumes "get_export eid s = Inr j"
  shows "((\<exists>s' l j'. download_url env sec eid user_id email s = (s', Inr (l, j'))) \<longleftrightarrow>
      ej_requested_by j = user_id \<and> ej_status j = ES_COMPLETED \<and> has_path j \<and> \<not> past_expiry (se_now sec) j) \<and>
    (ej_requested_by j \<noteq> user_id \<longrightarrow>
      download_url env sec eid user_id email s = (s, Inl (export_missing eid))) \<and>
    (\<forall>s' l j'. download_url env sec eid user_id email s = (s', Inr (l, j')) \<longrightarrow>
      ej_download_count j' = ej_download_count j + 1 \<and> get_export eid s' = Inr j' \<and>
      i_audits (xs_id s') = i_audits (xs_id s) @ [download_audit user_id email j'] \<and>
      (\<forall>k. k \<noteq> eid \<longrightarrow> get_export k s' = get_export k s) \<and> xs_files s' = xs_files s)"
proof (intro conjI impI allI)
  show "(\<exists>s' l j'. download_url env sec eid user_id email s = (s', Inr (l, j'))) \<longleftrightarrow>
      ej_requested_by j = user_id \<and> ej_status j = ES_COMPLETED \<and> has_path j \<and> \<not> past_expiry (se_now sec) j"
    using assms by (auto simp: download_url_def Let_def)
  show "download_url env sec eid user_id email s = (s, Inl (export_missing eid))" if "ej_requested_by j \<noteq> user_id"
    using assms that by (simp add: download_url_def)
next
  fix s' l j'
  assume ok: "download_url env sec eid user_id email s = (s', Inr (l, j'))"
  from ok obtain s1: "get_export eid s = Inr j" "j' = downloaded_export (se_now sec) j"
    "s' = (update_export eid (\<lambda>_. j') s)\<lparr>xs_id := audit (download_audit user_id email j') (xs_id s)\<rparr>"
    using assms by (auto elim!: download_ok)
  have id: "ej_id j = eid" using s1(1) by (auto simp: get_export_Inr dest: find_SomeD)
  have find: "List.find (\<lambda>r. ej_id r = k) (update_where (\<lambda>r. ej_id r = eid) (\<lambda>_. j') xs) =
      (if k = eid then map_option (\<lambda>_. j') (List.find (\<lambda>r. ej_id r = k) xs) else List.find (\<lambda>r. ej_id r = k) xs)" for k xs
    using id s1(2) by (induction xs) (auto simp: update_where_def)
  show "ej_download_count j' = ej_download_count j + 1" by (simp add: s1(2))
  show "get_export eid s' = Inr j'"
    using s1(1) find[of eid "xs_jobs s"] by (simp add: s1(3) get_export_Inr update_export_def)
  show "i_audits (xs_id s') = i_audits (xs_id s) @ [download_audit user_id email j']"
    by (simp add: s1(3) audit_def)
  show "xs_files s' = xs_files s" by (simp add: s1(3) update_export_def)
  fix k
  assume "k \<noteq> eid"
  then show "get_export k s' = get_export k s"
    using find[of k "xs_jobs s"] by (simp add: s1(3) get_export_def update_export_def)
qed

text \<open>C13: The link of a store that cannot sign works: for five minutes, and while the export has not
  expired, the token opens the export's own file without any other credential; it opens no other export,
  and none of somebody else's.\<close>

theorem download_link_opens_its_export:
  assumes link: "download_url env sec eid user_id email s = (s', Inr (TokenUrl eid tok, j))"
    and codec: "jwt_contract sec'" "se_encode sec' = se_encode sec"
    and ids: "eid < 16 ^ 32" "other < 16 ^ 32"
  shows "(se_now sec \<le> se_now sec' \<and> se_now sec' div 1000000 < (se_now sec + 300000000) div 1000000 \<and>
       \<not> past_expiry (se_now sec') j \<longrightarrow>
      stream_export sec' eid tok s' = Inr (coalesce (ej_storage_path j))) \<and>
    (other \<noteq> eid \<longrightarrow> stream_export sec' other tok s' = Inl (export_missing other))"
proof -
  from link obtain j0 where j0: "get_export eid s = Inr j0" "ej_requested_by j0 = user_id" "ej_status j0 = ES_COMPLETED"
    "has_path j0" "TokenUrl eid tok = download_link env sec user_id j0" "j = downloaded_export (se_now sec) j0"
    by (auto elim!: download_ok)
  have id: "ej_id j0 = eid" using j0(1) by (auto simp: get_export_Inr dest: find_SomeD)
  have tok: "tok = create_download_token sec user_id ''export'' eid DOWNLOAD_URL_TTL_SECONDS"
    using j0(5) id by (auto simp: download_link_def Let_def split: if_splits)
  let ?p = "[(''sub'', JStr (uuid_str user_id)), (''type'', JStr ''download''),
        (''res'', JStr ''export''), (''rid'', JStr (uuid_str eid)),
        (''iat'', timestamp (se_now sec)), (''exp'', timestamp (se_now sec + 300000000)), (''jti'', JStr (se_jti sec))]"
  have decode: "se_decode sec' tok =
      (if (se_now sec + 300000000) div 1000000 \<le> se_now sec' div 1000000 then JwtExpired else JwtOk ?p)"
    using jwt_contractD[OF codec(1), of ?p "(se_now sec + 300000000) div 1000000" "timestamp (se_now sec)"
        "JStr (uuid_str user_id)"]
    by (simp add: tok create_download_token_def codec(2) DOWNLOAD_URL_TTL_SECONDS_def timestamp_def dict_get_def)
  have row: "get_export eid s' = Inr j"
    using download_needs_the_requester[OF j0(1)] link by blast
  have "stream_export sec' eid tok s' = Inr (coalesce (ej_storage_path j))"
    if "se_now sec' div 1000000 < (se_now sec + 300000000) div 1000000" "\<not> past_expiry (se_now sec') j"
    using that row j0(2-4,6)
    by (simp add: stream_export_def verify_download_token_def decode_token_def decode get_export_Inr dict_get_def
        has_path_def)
  moreover have "stream_export sec' other tok s' = Inl (export_missing other)" if "other \<noteq> eid"
    using that ids
    by (simp add: stream_export_def verify_download_token_def decode_token_def decode dict_get_def uuid_str_inject
        TokenExpiredError_def TokenInvalidError_def access_error_def)
  ultimately show ?thesis by blast
qed

subsection \<open>The files\<close>

lemma export_keys_apart:
  assumes "e < 16 ^ 32" "e' < 16 ^ 32" "e \<noteq> e'"
  shows "path_apart b (export_key p e f) (export_key p' e' f')"
proof -
  have "uuid_str e' \<noteq> uuid_str e" using assms by (simp add: uuid_str_inject)
  then show ?thesis
    by (cases p; cases p') (auto simp: path_apart_def export_path tmp_path_def butlast_append)
qed

text \<open>A run that completes has its file on disk: what is read back under the row's path is what was
  rendered of the scoped dataset, with its size and checksum on the row; it expires 48 hours after the
  run finished; and the file of no other export was touched.\<close>

theorem completed_export_is_on_disk:
  assumes put: "xv_put env = put_bytes (b # bs) refused"
    and before: "get_export eid s = Inr j" "ej_status j \<noteq> ES_COMPLETED"
    and ok: "run_export env now finished eid ps held adm s = (s', Inr r)"
  shows "(\<exists>ds a key. build_export env now ps held adm s (started_export now j) = Inr ds \<and> xv_render env ds = Inr a \<and>
      ej_storage_path r = Some key \<and> get_bytes (b # bs) (\<lambda>_. None) key (xs_files s') = Inr (ar_content a) \<and>
      ej_file_size r = Some (length (ar_content a)) \<and> ej_checksum r = Some (xv_digest env (ar_content a))) \<and>
    ej_expires_at r = Some (finished + 172800000000) \<and> get_export eid s' = Inr r \<and>
    (\<forall>q e f. eid < 16 ^ 32 \<longrightarrow> e < 16 ^ 32 \<longrightarrow> e \<noteq> eid \<longrightarrow>
      get_bytes (b # bs) (\<lambda>_. None) (export_key q e f) (xs_files s') =
      get_bytes (b # bs) (\<lambda>_. None) (export_key q e f) (xs_files s))"
  using ok
proof (cases rule: run_export_ok)
  case again
  then show ?thesis using before by simp
next
  case (finished_now j0 j' fs)
  have "j0 = j" using before(1) finished_now(1) by simp
  from finished_now(4) show ?thesis
  proof (cases rule: produce_ok)
    case (1 ds a)
    let ?key = "export_key (ej_project_id j) eid (ar_file_name a)"
    have id: "ej_id j = eid" using before(1) by (auto simp: get_export_Inr dest: find_SomeD)
    have stored: "put_bytes (b # bs) refused ?key (ar_content a) (xs_files s) = Inr fs"
      using 1(3) put id \<open>j0 = j\<close> by simp
    have r: "r = completed_export finished (stored_export env ?key a ((started_export now j)\<lparr>ej_progress := 85\<rparr>))"
      using finished_now(5) 1(4) id \<open>j0 = j\<close> by simp
    have files: "xs_files s' = fs" by (simp add: finished_now(6))
    have "ej_id r = eid" by (simp add: r id)
    then have "List.find (\<lambda>j. ej_id j = eid) xs = Some j \<Longrightarrow>
        List.find (\<lambda>j. ej_id j = eid) (update_where (\<lambda>j. ej_id j = eid) (\<lambda>_. r) xs) = Some r" for xs
      by (induction xs) (auto simp: update_where_def)
    then have found: "get_export eid s' = Inr r"
      using before(1) unfolding finished_now(6) by (simp add: get_export_Inr update_export_def)
    have read: "get_bytes (b # bs) (\<lambda>_. None) ?key fs = Inr (ar_content a)"
      by (rule local_storage.get_put[OF stored])
    have others: "get_bytes (b # bs) (\<lambda>_. None) (export_key q e f) fs =
        get_bytes (b # bs) (\<lambda>_. None) (export_key q e f) (xs_files s)"
      if "eid < 16 ^ 32" "e < 16 ^ 32" "e \<noteq> eid" for q e f
      by (rule local_storage.put_apart[OF stored]) (rule export_keys_apart, use that in auto)
    show ?thesis
      using 1(1,2) \<open>j0 = j\<close> found read others
      by (simp add: files r DEFAULT_TTL_HOURS_def)
  qed
qed

lemma update_where_twice:
  assumes "\<And>r. P r \<Longrightarrow> \<not> Q (f r)"
  shows "update_where Q f (update_where P f rs) = update_where (\<lambda>r. P r \<or> Q r) f rs"
  using assms by (simp add: update_where_def)

lemma purge_fold:
  assumes "distinct (map ej_id (xs_jobs s))" "distinct (map ej_id rows)" "set rows \<subseteq> set (xs_jobs s)"
  shows "\<exists>P. xs_jobs (fst (fold (purge_one env) rows (s, n))) = update_where P purged_export (xs_jobs s) \<and>
    (\<forall>j. P j \<longrightarrow> j \<in> set rows) \<and> snd (fold (purge_one env) rows (s, n)) = n + length (filter P rows) \<and>
    ((\<forall>k fs. \<not> isl (xv_delete env k fs)) \<longrightarrow> (\<forall>j \<in> set rows. P j))"
  using assms
proof (induction rows arbitrary: s n)
  case Nil
  show ?case by (intro exI[of _ "\<lambda>_. False"]) (simp add: update_where_def)
next
  case (Cons j rows)
  let ?never = "\<forall>k fs. \<not> isl (xv_delete env k fs)"
  show ?case
  proof (cases rule: purge_one_shape[of env j s n])
    case kept
    obtain P where P: "xs_jobs (fst (fold (purge_one env) rows (s, n))) = update_where P purged_export (xs_jobs s)"
      "\<forall>j. P j \<longrightarrow> j \<in> set rows" "snd (fold (purge_one env) rows (s, n)) = n + length (filter P rows)"
      using Cons.IH[of s n] Cons.prems by (auto simp del: row_fields)
    have "\<not> ?never"
    proof
      assume "?never"
      then have "\<not> isl (xv_delete env (coalesce (ej_storage_path j)) (xs_files s))" by blast
      then have "snd (purge_one env j (s, n)) = Suc n"
        by (auto simp: purge_one_def split: sum.splits prod.splits)
      then show False using kept by simp
    qed
    moreover have "\<not> P j" using P(2) Cons.prems(2) by auto
    ultimately show ?thesis using P kept by (intro exI[of _ P]) (auto simp del: row_fields)
  next
    case (gone s1)
    have same: "ej_id r = ej_id j \<longleftrightarrow> r = j" if "r \<in> set (xs_jobs s)" for r
      using Cons.prems(1,3) that by (auto simp: distinct_map dest: inj_onD)
    have jobs1: "xs_jobs s1 = update_where (\<lambda>r. r = j) purged_export (xs_jobs s)"
      using same unfolding gone(3) by (simp add: update_export_def update_where_def)
    have ids1: "map ej_id (xs_jobs s1) = map ej_id (xs_jobs s)"
      unfolding jobs1 by (rule map_update_where) simp
    have "set rows \<subseteq> set (xs_jobs s1)"
      using Cons.prems(2,3) unfolding jobs1 set_update_where by auto
    then obtain P where P: "xs_jobs (fst (fold (purge_one env) rows (s1, Suc n))) = update_where P purged_export (xs_jobs s1)"
      "\<forall>j. P j \<longrightarrow> j \<in> set rows" "snd (fold (purge_one env) rows (s1, Suc n)) = Suc n + length (filter P rows)"
      "?never \<longrightarrow> (\<forall>j \<in> set rows. P j)"
      using Cons.IH[of s1 "Suc n"] Cons.prems(1,2) ids1 by (auto simp del: row_fields)
    have notin: "\<not> P r" if "ej_id r = ej_id j" for r
      using P(2) that Cons.prems(2) by (metis distinct.simps(2) image_eqI list.set_map list.simps(9))
    have twice: "update_where P purged_export (xs_jobs s1) = update_where (\<lambda>r. r = j \<or> P r) purged_export (xs_jobs s)"
      unfolding jobs1 by (rule update_where_twice) (simp add: notin)
    have "filter (\<lambda>r. r = j \<or> P r) rows = filter P rows"
      using Cons.prems(2) by (intro filter_cong) auto
    then show ?thesis
      using P gone(1) twice by (intro exI[of _ "\<lambda>r. r = j \<or> P r"]) (auto simp del: row_fields)
  qed
qed

text \<open>The purge expires completed exports whose time has passed, and nothing else: every other row
  is as it was, at most \<open>limit\<close> rows change, and the count is theirs. Where the store refuses no deletion
  and no more than \<open>limit\<close> rows are due, none that is due is left.\<close>

theorem purge_expires_what_is_due:
  assumes "exports_settled s" "purge_expired_exports env now limit s = (s', n)"
  shows "(\<exists>P. (\<forall>j \<in> set (xs_jobs s). P j \<longrightarrow> is_purgeable now j) \<and>
      xs_jobs s' = update_where P purged_export (xs_jobs s) \<and> n = length (filter P (xs_jobs s)) \<and> n \<le> limit) \<and>
    ((\<forall>k fs. \<not> isl (xv_delete env k fs)) \<and> length (filter (is_purgeable now) (xs_jobs s)) \<le> limit \<longrightarrow>
      filter (is_purgeable now) (xs_jobs s') = [])"
proof -
  let ?due = "take limit (filter (is_purgeable now) (xs_jobs s))"
  have ids: "distinct (map ej_id (xs_jobs s))" using assms(1) by (simp add: exports_settled_def)
  have "distinct (map ej_id ?due)"
    using distinct_map_filter[OF ids] by (metis distinct_take take_map)
  moreover have due: "set ?due \<subseteq> set (xs_jobs s)" by (auto dest: in_set_takeD)
  ultimately obtain P where P: "xs_jobs s' = update_where P purged_export (xs_jobs s)"
    "\<forall>j. P j \<longrightarrow> j \<in> set ?due" "n = length (filter P ?due)"
    "(\<forall>k fs. \<not> isl (xv_delete env k fs)) \<longrightarrow> (\<forall>j \<in> set ?due. P j)"
    using purge_fold[OF ids, of ?due env 0] assms(2) by (auto simp: purge_expired_exports_def)
  have purgeable: "is_purgeable now j" if "P j" for j
  proof -
    have "j \<in> set ?due" using P(2) that by blast
    then show ?thesis by (auto dest: in_set_takeD)
  qed
  have dist: "distinct (xs_jobs s)" "distinct ?due" using ids by (auto simp: distinct_map)
  have "set (filter P ?due) = set (filter P (xs_jobs s))" using P(2) due by auto
  then have "n = length (filter P (xs_jobs s))"
    using P(3) dist by (metis distinct_card distinct_filter)
  moreover have "n \<le> limit" using P(3) length_filter_le[of P ?due] by simp
  moreover have "filter (is_purgeable now) (xs_jobs s') = []"
    if never: "\<forall>k fs. \<not> isl (xv_delete env k fs)" and few: "length (filter (is_purgeable now) (xs_jobs s)) \<le> limit"
  proof -
    have "?due = filter (is_purgeable now) (xs_jobs s)" using few by simp
    then have "P j" if "j \<in> set (xs_jobs s)" "is_purgeable now j" for j
      using P(4) never that by auto
    then show ?thesis unfolding P(1) by (auto simp: filter_empty_conv set_update_where is_purgeable_def)
  qed
  ultimately show ?thesis using P(1) purgeable by blast
qed

subsection \<open>The maintenance sweep\<close>

text \<open>The two operations as the sweep calls them, on a database whose \<open>derived\<close> tables are the exports.\<close>

definition sweep_recovery :: "instant \<Rightarrow> 'f export_state db \<Rightarrow> exn + 'f export_state db \<times> nat" where
  "sweep_recovery now d =
     (case recover_stalled_exports now 30 50 (db_derived d) of (s, n) \<Rightarrow> Inr (d\<lparr>db_derived := s\<rparr>, n))"

definition sweep_purge :: "'f export_env \<Rightarrow> instant \<Rightarrow> 'f export_state db \<Rightarrow> exn + 'f export_state db \<times> nat" where
  "sweep_purge env now d =
     (case purge_expired_exports env now 200 (db_derived d) of (s, n) \<Rightarrow> Inr (d\<lparr>db_derived := s\<rparr>, n))"

lemma sweeps_stay_elsewhere: "elsewhere (sweep_recovery now)" "elsewhere (sweep_purge env now)"
  by (auto simp: elsewhere_def sweep_recovery_def sweep_purge_def split: prod.splits)

text \<open>The maintenance sweep leaves the exports to the purge: the recovery before it changes nothing.\<close>

lemma maintenance_only_purges:
  assumes "exports_settled (db_derived d)" "purge_expired_exports env now 200 (db_derived d) = (s, n)"
  shows "export_sweep (sweep_recovery now) (sweep_purge env now) (d, c) =
    (d\<lparr>db_derived := s\<rparr>, c\<lparr>sw_exports_recovered := 0, sw_exports_purged := n\<rparr>)"
  using assms by (simp add: export_sweep_def sweep_recovery_def sweep_purge_def recover_finds_nothing)

subsection \<open>Witnesses\<close>

definition fx_artifact :: export_artifact where
  "fx_artifact = \<lparr>ar_content = ''PK'', ar_file_name = ''contract-export.xlsx'', ar_content_type = ''application/xlsx'',
     ar_row_count = 0\<rparr>"

definition fx_xenv :: "string files export_env" where
  "fx_xenv = \<lparr>xv_today = 100,
     xv_render = (\<lambda>_. Inr fx_artifact),
     xv_put = put_bytes [''data'', ''clear''] (\<lambda>_. None), xv_delete = (\<lambda>k fs. Inr (fs, True)),
     xv_signed_url = (\<lambda>k n. local_signed_url ''clear'' id k), xv_digest = (\<lambda>t. ''#'' @ t),
     xv_filters = (\<lambda>_. Inr no_filters), xv_dump = (\<lambda>_. [])\<rparr>"

definition fx_exports :: "string files export_state" where
  "fx_exports = \<lparr>xs_id = fx_access\<lparr>i_roles := [fx_role\<lparr>ro_permissions := [''contract:read'', ''export:create'']\<rparr>],
       i_members := [fx_membership\<lparr>pm_overrides := []\<rparr>], i_next_id := 100\<rparr>,
     xs_jobs = [], xs_tables = fx_export_tables [fx_clause 20 30 ''secret''], xs_files = (\<lambda>_. None)\<rparr>"

definition fx_ask :: export_request where
  "fx_ask = \<lparr>eq_user_id = 0, eq_user_email = [], eq_project_id = None, eq_scope = SC_APPLICATION, eq_scope_ref = None,
     eq_format = EF_XLSX, eq_entities = [''clauses''], eq_filters = [], eq_fields = []\<rparr>"

definition fx_asked :: export_request where
  "fx_asked = fx_ask\<lparr>eq_user_id := 6, eq_user_email := u_email fx_member\<rparr>"

definition fx_queued :: export_row where
  "fx_queued = new_export 5 100 fx_asked"

definition fx_waiting :: "string files export_state" where
  "fx_waiting = fx_exports\<lparr>xs_jobs := [fx_queued],
     xs_id := audit (export_audit fx_asked 100) ((xs_id fx_exports)\<lparr>i_next_id := Suc 100\<rparr>)\<rparr>"

definition fx_held :: "string list" where
  "fx_held = [''contract:read'', ''export:create'']"

lemma fx_created: "create_export 5 fx_member fx_ask fx_exports = (fx_waiting, Inr (fx_queued, (100, [30], fx_held, False)))"
proof -
  have scope: "as_project_ids (get_access_scope fx_member (xs_id fx_exports)) = [30]"
    by (simp add: get_access_scope_def accessible_ids_def fx_exports_def fx_access_defs)
  have held: "permissions_for fx_member None (xs_id fx_exports) = fx_held"
    by (simp add: permissions_for_def list_for_user_def role_by_id_def effective_permissions_def fx_exports_def
        fx_access_defs fx_held_def)
  have row: "create_export_row 5 fx_asked fx_exports = (fx_waiting, Inr fx_queued)"
  proof -
    have "get_exporter (eq_format fx_asked) = Inr ()" "eq_scope fx_asked = SC_APPLICATION"
      "i_next_id (xs_id fx_exports) = 100" "xs_jobs fx_exports = []"
      by (simp_all add: get_exporter_def registered_formats_def fx_asked_def fx_ask_def fx_exports_def)
    then show ?thesis by (simp add: create_export_row_def Let_def fx_waiting_def fx_queued_def)
  qed
  have "fx_ask\<lparr>eq_user_id := u_id fx_member, eq_user_email := u_email fx_member\<rparr> = fx_asked"
    by (simp add: fx_asked_def fx_ask_def fx_member_def)
  moreover have "u_is_system_admin fx_member = False" by (simp add: fx_member_def)
  moreover have "eq_scope fx_ask = SC_APPLICATION" "eq_project_id fx_ask = None" by (simp_all add: fx_ask_def)
  moreover have "ej_id fx_queued = 100" by (simp add: fx_queued_def new_export_def)
  moreover have "perm_value P_EXPORT_CREATE \<in> set fx_held" by (simp add: fx_held_def)
  ultimately show ?thesis by (simp add: create_export_def Let_def scope held row)
qed

lemma fx_waiting_reachable: "export_reachable env fx_sec fx_waiting"
proof -
  have "export_reachable env fx_sec fx_exports" by (rule export_reachable.initial) (simp add: fx_exports_def)
  moreover have "export_step env fx_sec fx_exports (fst (in_request (create_export 5 fx_member fx_ask) fx_exports))"
    by (rule export_step.created)
  ultimately show ?thesis
    using in_request_ok[where h = "create_export 5 fx_member fx_ask" and s = fx_exports, OF fx_created]
      export_reachable.further by metis
qed

theorem committed_exports_never_run_or_fail_witness:
  "(\<exists>j \<in> set (xs_jobs fx_waiting). ej_status j = ES_QUEUED) \<and>
   recover_stalled_exports 9000000000000 30 50 fx_waiting = (fx_waiting, 0)"
  using committed_exports_never_run_or_fail[OF fx_waiting_reachable[of fx_xenv]]
  by (simp add: fx_waiting_def fx_queued_def new_export_def)

theorem export_is_the_requesters_view_witness:
  "build_export fx_xenv 7 [30] fx_held False
     (fx_waiting\<lparr>xs_tables := fx_export_tables [fx_clause 20 30 ''secret'', fx_clause 21 31 ''other'']\<rparr>) fx_queued =
   build_export fx_xenv 7 [30] fx_held False
     (fx_waiting\<lparr>xs_tables := fx_export_tables [fx_clause 20 30 ''secret'']\<rparr>) fx_queued"
proof -
  have scope: "as_project_ids (get_access_scope fx_member (xs_id fx_exports)) = [30]"
    by (simp add: get_access_scope_def accessible_ids_def fx_exports_def fx_access_defs)
  have "same_view (as_project_ids (get_access_scope fx_member (xs_id fx_exports)))
      (fx_export_tables [fx_clause 20 30 ''secret'', fx_clause 21 31 ''other''])
      (fx_export_tables [fx_clause 20 30 ''secret''])"
    by (simp add: scope same_view_def of_projects_def fx_export_tables_def fx_clause_def)
  from export_is_the_requesters_view[OF fx_created this, of fx_xenv 7 fx_waiting] show ?thesis by (rule conjunct1)
qed

lemma fx_find: "get_export 100 fx_waiting = Inr fx_queued"
  by (simp add: get_export_def fx_waiting_def fx_queued_def new_export_def)

lemma fx_status: "ej_status fx_queued = ES_QUEUED" "ej_id fx_queued = 100" "ej_project_id fx_queued = None"
  "ej_format fx_queued = EF_XLSX"
  by (simp_all add: fx_queued_def new_export_def fx_asked_def fx_ask_def)

theorem failed_export_stays_queued_witness:
  "\<exists>s' e. run_export (fx_xenv\<lparr>xv_filters := \<lambda>_. Inl (PyErr ''ValidationError'' ''bad'')\<rparr>) 7 8 100 [30] fx_held False fx_waiting =
      (s', Inl e) \<and>
    (\<exists>j'. get_export 100 s' = Inr j' \<and> ej_status j' = ES_FAILED \<and> ej_error j' \<noteq> None) \<and>
    get_export 100 (run_in_background (fx_xenv\<lparr>xv_filters := \<lambda>_. Inl (PyErr ''ValidationError'' ''bad'')\<rparr>)
      7 8 100 [30] fx_held False fx_waiting) = Inr fx_queued"
proof -
  let ?env = "fx_xenv\<lparr>xv_filters := \<lambda>_. Inl (PyErr ''ValidationError'' ''bad'')\<rparr>"
  let ?e = "PyErr ''ValidationError'' ''bad''"
  have p: "produce ?env 7 [30] fx_held False fx_waiting (started_export 7 fx_queued) =
      (started_export 7 fx_queued, xs_files fx_waiting, Some ?e)"
    by (simp add: produce_def build_export_def validated_filters_def)
  have run: "run_export ?env 7 8 100 [30] fx_held False fx_waiting =
      ((update_export 100 (\<lambda>_. failed_export 8 ?e (started_export 7 fx_queued)) fx_waiting)\<lparr>xs_files := xs_files fx_waiting\<rparr>,
       Inl ?e)"
    unfolding run_export_def fx_find using p by (simp add: fx_status del: row_fields)
  show ?thesis
    using failed_export_stays_queued[OF fx_waiting_reachable fx_find fx_status(1) run] run by blast
qed

text \<open>An export of nobody's projects: an empty workbook, stored and ready.\<close>

definition fx_key :: string where
  "fx_key = export_key None 100 ''contract-export.xlsx''"

definition fx_ready :: export_row where
  "fx_ready = completed_export 8 (stored_export fx_xenv fx_key fx_artifact ((started_export 7 fx_queued)\<lparr>ej_progress := 85\<rparr>))"

definition fx_finished :: "string files export_state" where
  "fx_finished = (update_export 100 (\<lambda>_. fx_ready) fx_waiting)
     \<lparr>xs_files := (\<lambda>p. if p = [''data'', ''clear'', ''application'', ''exports'', uuid_str 100, ''contract-export.xlsx'']
        then Some ''PK'' else None)\<rparr>"

lemma fx_safe: "safe_name ''contract-export.xlsx'' = ''contract-export.xlsx''"
  by code_simp

lemma fx_key_path: "local_path [''data'', ''clear''] fx_key =
    Inr [''data'', ''clear'', ''application'', ''exports'', uuid_str 100, ''contract-export.xlsx'']"
  by (simp add: fx_key_def export_path fx_safe)

lemma fx_put: "put_bytes [''data'', ''clear''] (\<lambda>_. None) fx_key ''PK'' (\<lambda>_. None) = Inr (xs_files fx_finished)"
  by (auto simp: put_bytes_def fx_key_path Let_def fx_finished_def tmp_path_def)

lemma fx_export_run: "run_export fx_xenv 7 8 100 [] fx_held False fx_waiting = (fx_finished, Inr fx_ready)"
proof -
  let ?j = "started_export 7 fx_queued"
  have render: "xv_render fx_xenv ds = Inr fx_artifact" for ds by (simp add: fx_xenv_def)
  obtain ds where ds: "build_export fx_xenv 7 [] fx_held False fx_waiting ?j = Inr ds"
  proof -
    have "xv_filters fx_xenv d = Inr no_filters" for d by (simp add: fx_xenv_def)
    then have "validated_filters fx_xenv (ej_filters ?j) = Inr no_filters"
      by (simp add: validated_filters_def no_filters_def)
    moreover have "scoped_projects ?j [] = []" by (simp add: scoped_projects_def split: option.split)
    ultimately show thesis by (intro that) (simp add: build_export_def build_dataset_def Let_def)
  qed
  have "xs_files fx_waiting = (\<lambda>_. None)" by (simp add: fx_waiting_def fx_exports_def)
  then have stored: "xv_put fx_xenv fx_key (ar_content fx_artifact) (xs_files fx_waiting) = Inr (xs_files fx_finished)"
    using fx_put by (simp add: fx_xenv_def fx_artifact_def)
  have "produce fx_xenv 7 [] fx_held False fx_waiting ?j =
      (stored_export fx_xenv fx_key fx_artifact (?j\<lparr>ej_progress := 85\<rparr>), xs_files fx_finished, None)"
    using stored ds render by (simp add: produce_def fx_status get_exporter_def registered_formats_def fx_key_def fx_artifact_def)
  then have "run_export fx_xenv 7 8 100 [] fx_held False fx_waiting =
      ((update_export 100 (\<lambda>_. fx_ready) fx_waiting)\<lparr>xs_files := xs_files fx_finished\<rparr>, Inr fx_ready)"
    unfolding run_export_def fx_find by (simp add: fx_status fx_ready_def del: row_fields)
  then show ?thesis by (simp add: fx_finished_def)
qed

theorem completed_export_is_on_disk_witness:
  "\<exists>key. ej_storage_path fx_ready = Some key \<and>
     get_bytes [''data'', ''clear''] (\<lambda>_. None) key (xs_files fx_finished) = Inr ''PK''"
proof -
  have "xv_put fx_xenv = put_bytes [''data'', ''clear''] (\<lambda>_. None)" by (simp add: fx_xenv_def)
  moreover have "ej_status fx_queued \<noteq> ES_COMPLETED" by (simp add: fx_status)
  ultimately have "\<exists>ds a key. xv_render fx_xenv ds = Inr a \<and> ej_storage_path fx_ready = Some key \<and>
      get_bytes [''data'', ''clear''] (\<lambda>_. None) key (xs_files fx_finished) = Inr (ar_content a)"
    using completed_export_is_on_disk[OF _ fx_find _ fx_export_run] by blast
  then show ?thesis by (auto simp: fx_xenv_def fx_artifact_def)
qed

lemma fx_finished_row: "get_export 100 fx_finished = Inr fx_ready"
  by (simp add: get_export_def fx_finished_def update_export_def update_where_def fx_waiting_def fx_status fx_ready_def)

lemma fx_ready_fields: "ej_requested_by fx_ready = 6" "ej_status fx_ready = ES_COMPLETED" "ej_id fx_ready = 100"
  "ej_storage_path fx_ready = Some fx_key" "ej_expires_at fx_ready = Some 172800000008"
  by (simp_all add: fx_ready_def fx_status fx_queued_def new_export_def fx_asked_def DEFAULT_TTL_HOURS_def)

lemma fx_ready_open: "has_path fx_ready" "\<not> past_expiry 5000000000 fx_ready"
  by (simp_all add: has_path_def past_expiry_def fx_ready_fields truthy_text_def fx_key_def export_key_def)

theorem download_needs_the_requester_witness:
  "(\<exists>s' l j'. download_url fx_xenv fx_sec 100 6 ''a@b.c'' fx_finished = (s', Inr (l, j'))) \<and>
   download_url fx_xenv fx_sec 100 9 ''x@b.c'' fx_finished = (fx_finished, Inl (export_missing 100))"
proof -
  have mine: "\<exists>s' l j'. download_url fx_xenv fx_sec 100 6 ''a@b.c'' fx_finished = (s', Inr (l, j'))"
    using conjunct1[OF download_needs_the_requester[OF fx_finished_row, of fx_xenv fx_sec 6 "''a@b.c''"]]
    by (simp add: fx_ready_fields fx_ready_open)
  have theirs: "download_url fx_xenv fx_sec 100 9 ''x@b.c'' fx_finished = (fx_finished, Inl (export_missing 100))"
    using conjunct1[OF conjunct2[OF download_needs_the_requester[OF fx_finished_row, of fx_xenv fx_sec 9 "''x@b.c''"]]]
    by (simp add: fx_ready_fields)
  show ?thesis using mine theirs by (rule conjI)
qed

theorem download_link_opens_its_export_witness:
  "\<exists>s' tok j. download_url fx_xenv fx_sec 100 6 ''a@b.c'' fx_finished = (s', Inr (TokenUrl 100 tok, j)) \<and>
     stream_export (fx_sec\<lparr>se_now := 5200000000, se_decode := jwt_read 5200000000\<rparr>) 100 tok s' = Inr fx_key \<and>
     stream_export (fx_sec\<lparr>se_now := 5200000000, se_decode := jwt_read 5200000000\<rparr>) 101 tok s' = Inl (export_missing 101)"
proof -
  let ?late = "fx_sec\<lparr>se_now := 5200000000, se_decode := jwt_read 5200000000\<rparr>"
  obtain s' l j where d: "download_url fx_xenv fx_sec 100 6 ''a@b.c'' fx_finished = (s', Inr (l, j))"
    using conjunct1[OF download_needs_the_requester[OF fx_finished_row, of fx_xenv fx_sec 6 "''a@b.c''"]]
    by (auto simp: fx_ready_fields fx_ready_open)
  then have j: "j = downloaded_export 5000000000 fx_ready" and l: "l = download_link fx_xenv fx_sec 6 fx_ready"
    using fx_finished_row by (auto elim!: download_ok simp del: row_fields)
  have "starts_with ''/api/'' (xv_signed_url fx_xenv k n)" for k n
    by (simp add: fx_xenv_def local_signed_url_def starts_with_def)
  then obtain tok where tok: "l = TokenUrl 100 tok" by (simp add: l download_link_def Let_def fx_ready_fields)
  have codec: "jwt_contract ?late" "se_encode ?late = se_encode fx_sec"
    by (simp_all add: jwt_contract_def)
  have small: "100 < (16 :: nat) ^ 32" "101 < (16 :: nat) ^ 32" by simp_all
  have "\<not> past_expiry 5200000000 j" "ej_storage_path j = Some fx_key"
    by (simp_all add: j past_expiry_def fx_ready_fields)
  then show ?thesis
    using download_link_opens_its_export[OF d[unfolded tok] codec small] d[unfolded tok] by (auto simp: coalesce_def)
qed

theorem purge_expires_what_is_due_witness:
  "filter (is_purgeable 200000000000) (xs_jobs (fst (purge_expired_exports fx_xenv 200000000000 200 fx_finished))) = []"
proof -
  have "export_step fx_xenv fx_sec fx_waiting (run_in_background fx_xenv 7 8 100 [] fx_held False fx_waiting)"
    by (rule export_step.ran)
  moreover have "run_in_background fx_xenv 7 8 100 [] fx_held False fx_waiting = fx_finished"
    by (simp add: run_in_background_def in_session_def fx_export_run)
  ultimately have "export_reachable fx_xenv fx_sec fx_finished"
    using export_reachable.further[OF fx_waiting_reachable] by metis
  then have ok: "exports_settled fx_finished" by (rule export_reachable_settled)
  obtain s' n where p: "purge_expired_exports fx_xenv 200000000000 200 fx_finished = (s', n)" by fastforce
  have "\<forall>k fs. \<not> isl (xv_delete fx_xenv k fs)" by (simp add: fx_xenv_def)
  moreover have "length (xs_jobs fx_finished) = 1"
    by (simp add: fx_finished_def update_export_def fx_waiting_def)
  then have "length (filter (is_purgeable 200000000000) (xs_jobs fx_finished)) \<le> 200"
    using length_filter_le[of "is_purgeable 200000000000" "xs_jobs fx_finished"] by simp
  ultimately show ?thesis
    using purge_expires_what_is_due[OF ok p] p by simp
qed

end
