(* ===== verification/Numbers.thy ===== *)
theory Numbers
  imports Complex_Main Prelude
begin

text \<open>
  Python's rounding. The floats of the planning and ranking code are modelled by the rationals they
  stand for, so arithmetic is exact; \<open>round\<close> sends a value halfway between two integers to the even
  one.
\<close>

definition round_half_even :: "rat \<Rightarrow> int" where
  "round_half_even q =
     (let f = \<lfloor>q\<rfloor>; d = q - of_int f
      in if d < 1 / 2 then f else if 1 / 2 < d then f + 1 else if even f then f else f + 1)"

lemma round_half_even_of_int [simp]: "round_half_even (of_int i) = i"
  by (simp add: round_half_even_def)

lemma round_half_even_zero [simp]: "round_half_even 0 = 0"
  using round_half_even_of_int[of 0] by simp

lemma round_half_even_near: "of_int (round_half_even q) - q \<le> 1 / 2" "q - of_int (round_half_even q) \<le> 1 / 2"
proof -
  have bounds: "of_int \<lfloor>q\<rfloor> \<le> q" "q < of_int \<lfloor>q\<rfloor> + 1"
    by linarith+
  show "of_int (round_half_even q) - q \<le> 1 / 2" "q - of_int (round_half_even q) \<le> 1 / 2"
    unfolding round_half_even_def Let_def using bounds by (simp_all split: if_split) linarith+
qed

lemma round_half_even_mono:
  assumes "p \<le> q"
  shows "round_half_even p \<le> round_half_even q"
proof (cases "\<lfloor>p\<rfloor> = \<lfloor>q\<rfloor>")
  case True
  then show ?thesis
    using assms by (auto simp: round_half_even_def Let_def)
next
  case False
  then have "\<lfloor>p\<rfloor> + 1 \<le> \<lfloor>q\<rfloor>"
    using floor_mono[OF assms] by linarith
  moreover have "round_half_even p \<le> \<lfloor>p\<rfloor> + 1" "\<lfloor>q\<rfloor> \<le> round_half_even q"
    by (auto simp: round_half_even_def Let_def)
  ultimately show ?thesis by linarith
qed

lemma round_half_even_nonneg: "0 \<le> q \<Longrightarrow> 0 \<le> round_half_even q"
  using round_half_even_mono[of 0 q] by simp

end
