(* ===== verification/BatchPlanner.thy ===== *)
theory BatchPlanner
  imports Numbers Models "HOL-Library.FSet" "HOL-Library.Multiset" "HOL-Library.Product_Lexorder"
begin

text \<open>
  The batch planner of \<^verbatim>\<open>ai/extraction/batch_planner.py\<close>: which clauses share one extraction call. A
  frozen set of chunk ids is an \<open>fset\<close>; shares of tokens and overlaps are exact rationals.
\<close>

definition DEFAULT_MAX_BATCH :: int where
  "DEFAULT_MAX_BATCH = 5"

definition DEFAULT_MIN_OVERLAP :: rat where
  "DEFAULT_MIN_OVERLAP = 1 / 2"

record planned_clause =
  pc_key :: string
  pc_priority :: int
  pc_chunk_ids :: "string fset"
  pc_evidence_tokens :: int

type_synonym batch = "planned_clause list"

definition batch_keys :: "batch \<Rightarrow> string list" where
  "batch_keys b = map pc_key b"

definition batch_chunk_ids :: "batch \<Rightarrow> string fset" where
  "batch_chunk_ids b = fold (\<lambda>c union. union |\<union>| pc_chunk_ids c) b {||}"

definition token_share :: "planned_clause \<Rightarrow> rat" where
  "token_share c = of_int (pc_evidence_tokens c) / of_nat (fcard (pc_chunk_ids c))"

text \<open>What one chunk costs: the largest share a clause of the batch gives it, and 0 to begin with.\<close>

definition chunk_cost :: "batch \<Rightarrow> string \<Rightarrow> rat" where
  "chunk_cost b x = fold (\<lambda>c m. if x |\<in>| pc_chunk_ids c then max m (token_share c) else m) b 0"

definition batch_evidence_tokens :: "batch \<Rightarrow> int" where
  "batch_evidence_tokens b = round_half_even (\<Sum>x\<in>fset (batch_chunk_ids b). chunk_cost b x)"

type_synonym batch_plan = "batch list"

definition clause_count :: "batch_plan \<Rightarrow> nat" where
  "clause_count bs = sum_list (map length bs)"

definition call_count :: "batch_plan \<Rightarrow> nat" where
  "call_count bs = length bs"

text \<open>The distribution is listed by size, as \<open>dict(sorted(counts.items()))\<close>.\<close>

definition size_distribution :: "batch_plan \<Rightarrow> (nat \<times> nat) list" where
  "size_distribution bs = map (\<lambda>n. (n, count_list (map length bs) n)) (sort (remdups (map length bs)))"

definition calls_saved :: "batch_plan \<Rightarrow> int" where
  "calls_saved bs = int (clause_count bs) - int (call_count bs)"

definition jaccard :: "string fset \<Rightarrow> string fset \<Rightarrow> rat" where
  "jaccard l r =
     (if l = {||} \<and> r = {||} then 0
      else of_nat (fcard (l |\<inter>| r)) / of_nat (fcard (l |\<union>| r)))"

text \<open>The inner loop: the candidates in order, until the batch is full. The keys assigned so far are
  carried along.\<close>

fun fill_batch :: "int \<Rightarrow> rat \<Rightarrow> int \<Rightarrow> planned_clause \<Rightarrow> batch \<Rightarrow> string set \<Rightarrow> planned_clause list \<Rightarrow>
    batch \<times> string set" where
  "fill_batch maxb minov budget seed b assigned [] = (b, assigned)"
| "fill_batch maxb minov budget seed b assigned (c # cs) =
     (if int (length b) \<ge> maxb then (b, assigned)
      else if pc_key c \<in> assigned then fill_batch maxb minov budget seed b assigned cs
      else if jaccard (pc_chunk_ids seed) (pc_chunk_ids c) < minov
      then fill_batch maxb minov budget seed b assigned cs
      else if batch_evidence_tokens (b @ [c]) > budget
      then fill_batch maxb minov budget seed b assigned cs
      else fill_batch maxb minov budget seed (b @ [c]) (insert (pc_key c) assigned) cs)"

text \<open>The outer loop over the seeds.\<close>

fun plan_from :: "int \<Rightarrow> rat \<Rightarrow> int \<Rightarrow> planned_clause list \<Rightarrow> string set \<Rightarrow> planned_clause list \<Rightarrow> batch_plan" where
  "plan_from maxb minov budget ordered assigned [] = []"
| "plan_from maxb minov budget ordered assigned (seed # seeds) =
     (if pc_key seed \<in> assigned then plan_from maxb minov budget ordered assigned seeds
      else case fill_batch maxb minov budget seed [seed] (insert (pc_key seed) assigned) ordered of
        (b, assigned') \<Rightarrow> b # plan_from maxb minov budget ordered assigned' seeds)"

definition plan_order :: "planned_clause list \<Rightarrow> planned_clause list" where
  "plan_order cs = sort_key (\<lambda>c. (pc_priority c, pc_key c)) cs"

definition plan_batches :: "planned_clause list \<Rightarrow> int \<Rightarrow> rat \<Rightarrow> int \<Rightarrow> exn + batch_plan" where
  "plan_batches clauses max_batch min_overlap evidence_budget =
     (if max_batch < 1 then Inl (PyErr ''ValueError'' ''max_batch must be at least 1'')
      else if \<not> (0 \<le> min_overlap \<and> min_overlap \<le> 1)
      then Inl (PyErr ''ValueError'' ''min_overlap must be between 0 and 1'')
      else let ordered = plan_order clauses
           in Inr (plan_from max_batch min_overlap evidence_budget ordered {} ordered))"

subsection \<open>Costs and overlaps\<close>

lemma fold_union: "fold (\<lambda>c u. u |\<union>| f c) cs u = u |\<union>| fold (\<lambda>c u. u |\<union>| f c) cs {||}"
proof (induction cs arbitrary: u)
  case (Cons c cs)
  show ?case
    using Cons.IH[of "u |\<union>| f c"] Cons.IH[of "f c"] by (simp add: sup_assoc)
qed simp

lemma batch_chunk_ids_simps [simp]:
  "batch_chunk_ids [] = {||}"
  "batch_chunk_ids (c # cs) = pc_chunk_ids c |\<union>| batch_chunk_ids cs"
  "batch_chunk_ids (xs @ ys) = batch_chunk_ids xs |\<union>| batch_chunk_ids ys"
proof -
  show "batch_chunk_ids [] = {||}"
    by (simp add: batch_chunk_ids_def)
  show cons: "batch_chunk_ids (c # cs) = pc_chunk_ids c |\<union>| batch_chunk_ids cs" for c cs
    using fold_union[of pc_chunk_ids cs "pc_chunk_ids c"] by (simp add: batch_chunk_ids_def)
  show "batch_chunk_ids (xs @ ys) = batch_chunk_ids xs |\<union>| batch_chunk_ids ys"
    by (induction xs) (simp_all add: cons sup_assoc, simp add: batch_chunk_ids_def)
qed

lemma chunk_cost_snoc:
  "chunk_cost (b @ [c]) x = (if x |\<in>| pc_chunk_ids c then max (chunk_cost b x) (token_share c) else chunk_cost b x)"
  by (simp add: chunk_cost_def)

lemma chunk_cost_nonneg: "0 \<le> chunk_cost b x"
  by (induction b rule: rev_induct) (auto simp: chunk_cost_snoc, simp add: chunk_cost_def)

lemma chunk_cost_append: "chunk_cost b x \<le> chunk_cost (b @ cs) x"
proof (induction cs rule: rev_induct)
  case (snoc c cs)
  then show ?case
    using chunk_cost_snoc[of "b @ cs" c x] by auto
qed simp

lemma chunk_cost_insert: "chunk_cost (b @ [c]) x \<le> chunk_cost (b @ cs @ [c]) x"
  using chunk_cost_snoc[of b c x] chunk_cost_snoc[of "b @ cs" c x] chunk_cost_append[of b x cs]
  by (auto simp: max_def)

text \<open>A larger batch never costs less.\<close>

lemma tokens_mono:
  assumes "batch_chunk_ids b |\<subseteq>| batch_chunk_ids b'" "\<And>x. chunk_cost b x \<le> chunk_cost b' x"
  shows "batch_evidence_tokens b \<le> batch_evidence_tokens b'"
  unfolding batch_evidence_tokens_def
proof (rule round_half_even_mono)
  have "(\<Sum>x\<in>fset (batch_chunk_ids b). chunk_cost b x) \<le> (\<Sum>x\<in>fset (batch_chunk_ids b). chunk_cost b' x)"
    by (rule sum_mono) (rule assms(2))
  also have "\<dots> \<le> (\<Sum>x\<in>fset (batch_chunk_ids b'). chunk_cost b' x)"
    using assms(1) by (intro sum_mono2) (auto simp: less_eq_fset.rep_eq chunk_cost_nonneg)
  finally show "(\<Sum>x\<in>fset (batch_chunk_ids b). chunk_cost b x) \<le> (\<Sum>x\<in>fset (batch_chunk_ids b'). chunk_cost b' x)" .
qed

lemma tokens_insert: "batch_evidence_tokens (b @ [c]) \<le> batch_evidence_tokens (b @ cs @ [c])"
  by (rule tokens_mono) (auto intro: chunk_cost_insert)

lemma jaccard_bounds: "0 \<le> jaccard l r" "jaccard l r \<le> 1"
proof -
  have "fcard (l |\<inter>| r) \<le> fcard (l |\<union>| r)"
    by (rule fcard_mono) auto
  then show "0 \<le> jaccard l r" "jaccard l r \<le> 1"
    by (auto simp: jaccard_def divide_le_eq_1)
qed

lemma jaccard_commute: "jaccard l r = jaccard r l"
  by (simp add: jaccard_def inf_commute sup_commute conj_commute)

lemma jaccard_union:
  assumes "q \<le> jaccard l r" "0 \<le> q"
  shows "q * of_nat (fcard (l |\<union>| r)) \<le> of_nat (fcard l)"
proof (cases "l = {||} \<and> r = {||}")
  case False
  then have pos: "0 < fcard (l |\<union>| r)"
    by (metis fcard_seteq fempty_fsubsetI fcard_fempty gr0I le_zero_eq sup_eq_bot_iff)
  have "q * of_nat (fcard (l |\<union>| r)) \<le> jaccard l r * of_nat (fcard (l |\<union>| r))"
    using assms(1) by (simp add: mult_right_mono)
  also have "\<dots> = of_nat (fcard (l |\<inter>| r))"
    using pos False by (auto simp: jaccard_def)
  also have "\<dots> \<le> of_nat (fcard l)"
    by (simp add: fcard_mono)
  finally show ?thesis .
qed (simp add: fcard.rep_eq)

subsection \<open>The loops\<close>

text \<open>What filling a batch from the candidates \<open>cs\<close> adds to it.\<close>

definition filled :: "int \<Rightarrow> rat \<Rightarrow> int \<Rightarrow> planned_clause \<Rightarrow> batch \<Rightarrow> string set \<Rightarrow> planned_clause list \<Rightarrow>
    batch \<Rightarrow> string set \<Rightarrow> planned_clause list \<Rightarrow> bool" where
  "filled maxb minov budget seed b A cs b' A' xs \<longleftrightarrow>
     b' = b @ xs \<and> set xs \<subseteq> set cs \<and> A' = A \<union> pc_key ` set xs \<and> distinct (map pc_key xs) \<and>
     pc_key ` set xs \<inter> A = {} \<and> (\<forall>c\<in>set xs. minov \<le> jaccard (pc_chunk_ids seed) (pc_chunk_ids c)) \<and>
     (xs \<noteq> [] \<longrightarrow> int (length b') \<le> maxb \<and> batch_evidence_tokens b' \<le> budget)"

lemma filled_skip: "filled maxb minov budget seed b A cs b' A' xs \<Longrightarrow> filled maxb minov budget seed b A (c # cs) b' A' xs"
  by (auto simp: filled_def)

lemma filled_join:
  assumes "filled maxb minov budget seed (b @ [c]) (insert (pc_key c) A) cs b' A' xs"
    "pc_key c \<notin> A" "minov \<le> jaccard (pc_chunk_ids seed) (pc_chunk_ids c)"
    "batch_evidence_tokens (b @ [c]) \<le> budget" "int (length b) < maxb"
  shows "filled maxb minov budget seed b A (c # cs) b' A' (c # xs)"
  using assms by (cases "xs = []") (auto simp: filled_def)

lemma fill_batch_filled:
  assumes "fill_batch maxb minov budget seed b A cs = (b', A')"
  obtains xs where "filled maxb minov budget seed b A cs b' A' xs"
proof -
  have "\<exists>xs. filled maxb minov budget seed b A cs b' A' xs"
    using assms
  proof (induction maxb minov budget seed b A cs arbitrary: b' A' rule: fill_batch.induct)
    case (1 maxb minov budget seed b A)
    then show ?case by (intro exI[of _ "[]"]) (simp add: filled_def)
  next
    case (2 maxb minov budget seed b A c cs)
    consider (full) "int (length b) \<ge> maxb"
      | (skip) "\<not> int (length b) \<ge> maxb" "fill_batch maxb minov budget seed b A cs = (b', A')"
          "\<exists>xs. filled maxb minov budget seed b A cs b' A' xs"
      | (join) "\<not> int (length b) \<ge> maxb" "pc_key c \<notin> A" "\<not> jaccard (pc_chunk_ids seed) (pc_chunk_ids c) < minov"
          "\<not> batch_evidence_tokens (b @ [c]) > budget"
      using "2.prems" "2.IH"(1-3) by (auto split: if_splits)
    then show ?case
    proof cases
      case full
      then show ?thesis
        using "2.prems" by (intro exI[of _ "[]"]) (simp add: filled_def)
    next
      case skip
      then show ?thesis by (blast intro: filled_skip)
    next
      case join
      then show ?thesis
        using "2.prems" "2.IH"(4) filled_join[of maxb minov budget seed b c A cs b' A'] by auto
    qed
  qed
  then show thesis using that by blast
qed

text \<open>A candidate the loop leaves unassigned could not join the finished batch.\<close>

lemma fill_batch_full:
  assumes "fill_batch maxb minov budget seed b A cs = (b', A')" "c \<in> set cs" "pc_key c \<notin> A'"
  shows "maxb \<le> int (length b') \<or> jaccard (pc_chunk_ids seed) (pc_chunk_ids c) < minov \<or>
    budget < batch_evidence_tokens (b' @ [c])"
  using assms
proof (induction maxb minov budget seed b A cs arbitrary: b' A' rule: fill_batch.induct)
  case (2 maxb minov budget seed b A d cs)
  show ?case
  proof (cases "c = d")
    case True
    obtain xs where "filled maxb minov budget seed b A (d # cs) b' A' xs"
      using "2.prems"(1) by (rule fill_batch_filled)
    then have xs: "b' = b @ xs" "A' = A \<union> pc_key ` set xs"
      by (simp_all add: filled_def)
    have "pc_key c \<notin> A"
      using xs "2.prems"(3) by simp
    then consider "int (length b) \<ge> maxb" | "jaccard (pc_chunk_ids seed) (pc_chunk_ids c) < minov"
      | "budget < batch_evidence_tokens (b @ [c])"
      | "fill_batch maxb minov budget seed (b @ [c]) (insert (pc_key c) A) cs = (b', A')"
      using "2.prems"(1) True by (auto split: if_splits)
    then show ?thesis
    proof cases
      case 3
      then show ?thesis using tokens_insert[of b c xs] xs(1) by simp
    next
      case 4
      then obtain ys where "filled maxb minov budget seed (b @ [c]) (insert (pc_key c) A) cs b' A' ys"
        by (rule fill_batch_filled)
      then show ?thesis
        using "2.prems"(3) by (simp add: filled_def)
    qed (use xs in auto)
  next
    case False
    then show ?thesis
      using 2 by (auto split: if_splits)
  qed
qed simp

definition could_not_join :: "int \<Rightarrow> rat \<Rightarrow> int \<Rightarrow> batch \<Rightarrow> planned_clause \<Rightarrow> bool" where
  "could_not_join maxb minov budget b c \<longleftrightarrow>
     maxb \<le> int (length b) \<or> jaccard (pc_chunk_ids (hd b)) (pc_chunk_ids c) < minov \<or>
     budget < batch_evidence_tokens (b @ [c])"

definition well_batched :: "int \<Rightarrow> rat \<Rightarrow> int \<Rightarrow> batch \<Rightarrow> bool" where
  "well_batched maxb minov budget b \<longleftrightarrow>
     b \<noteq> [] \<and> (\<forall>c\<in>set (tl b). minov \<le> jaccard (pc_chunk_ids (hd b)) (pc_chunk_ids c)) \<and>
     (tl b \<noteq> [] \<longrightarrow> int (length b) \<le> maxb \<and> batch_evidence_tokens b \<le> budget)"

lemma plan_from_laws:
  assumes "set seeds \<subseteq> set ordered"
  shows "set (concat (plan_from maxb minov budget ordered A seeds)) \<subseteq> set ordered \<and>
    distinct (map pc_key (concat (plan_from maxb minov budget ordered A seeds))) \<and>
    pc_key ` set (concat (plan_from maxb minov budget ordered A seeds)) \<inter> A = {} \<and>
    pc_key ` set seeds \<subseteq> A \<union> pc_key ` set (concat (plan_from maxb minov budget ordered A seeds)) \<and>
    list_all (well_batched maxb minov budget) (plan_from maxb minov budget ordered A seeds) \<and>
    sorted_wrt (\<lambda>b b'. list_all (could_not_join maxb minov budget b) b') (plan_from maxb minov budget ordered A seeds)"
  using assms
proof (induction seeds arbitrary: A)
  case (Cons seed seeds)
  show ?case
  proof (cases "pc_key seed \<in> A")
    case True
    then show ?thesis
      using Cons.IH[of A] Cons.prems by auto
  next
    case False
    obtain b A' where fill: "fill_batch maxb minov budget seed [seed] (insert (pc_key seed) A) ordered = (b, A')"
      by fastforce
    then obtain xs where filled: "filled maxb minov budget seed [seed] (insert (pc_key seed) A) ordered b A' xs"
      by (rule fill_batch_filled)
    define rest where "rest = plan_from maxb minov budget ordered A' seeds"
    have plan: "plan_from maxb minov budget ordered A (seed # seeds) = b # rest"
      using False fill by (simp add: rest_def)
    have IH: "set (concat rest) \<subseteq> set ordered" "distinct (map pc_key (concat rest))"
      "pc_key ` set (concat rest) \<inter> A' = {}" "pc_key ` set seeds \<subseteq> A' \<union> pc_key ` set (concat rest)"
      "list_all (well_batched maxb minov budget) rest"
      "sorted_wrt (\<lambda>b b'. list_all (could_not_join maxb minov budget b) b') rest"
      using Cons.IH[of A'] Cons.prems by (simp_all add: rest_def)
    have b: "b = seed # xs" and keys: "A' = A \<union> pc_key ` set b" "distinct (map pc_key b)" "pc_key ` set b \<inter> A = {}"
      and here: "set b \<subseteq> set ordered" and wb: "well_batched maxb minov budget b"
      using filled False Cons.prems by (auto simp: filled_def well_batched_def)
    have later: "could_not_join maxb minov budget b c" if "c \<in> set (concat rest)" for c
    proof -
      have "c \<in> set ordered" "pc_key c \<notin> A'"
        using that IH(1,3) by auto
      then show ?thesis
        using fill_batch_full[OF fill] b by (simp add: could_not_join_def)
    qed
    have cover: "pc_key ` set (seed # seeds) \<subseteq> A \<union> pc_key ` set (concat (b # rest))"
      using IH(4) keys(1) b by auto
    have "distinct (map pc_key (concat (b # rest)))"
      using IH(2,3) keys by auto
    moreover have "pc_key ` set (concat (b # rest)) \<inter> A = {}"
      using IH(3) keys by auto
    moreover have "sorted_wrt (\<lambda>b b'. list_all (could_not_join maxb minov budget b) b') (b # rest)"
      using IH(6) later by (auto simp: list_all_iff)
    ultimately show ?thesis
      unfolding plan using cover IH(1,5) here wb by simp
  qed
qed simp

lemma plan_order_facts [simp]: "set (plan_order cs) = set cs" "mset (plan_order cs) = mset cs"
  by (simp_all add: plan_order_def)

lemma plan_batches_Inr:
  assumes "plan_batches cs maxb minov budget = Inr bs"
  shows "1 \<le> maxb" "0 \<le> minov" "minov \<le> 1" "bs = plan_from maxb minov budget (plan_order cs) {} (plan_order cs)"
  using assms by (auto simp: plan_batches_def Let_def split: if_splits)

lemma plan_laws:
  assumes "plan_batches cs maxb minov budget = Inr bs"
  shows "set (concat bs) \<subseteq> set cs" "distinct (map pc_key (concat bs))"
    "pc_key ` set cs \<subseteq> pc_key ` set (concat bs)" "list_all (well_batched maxb minov budget) bs"
    "sorted_wrt (\<lambda>b b'. list_all (could_not_join maxb minov budget b) b') bs"
  using plan_from_laws[of "plan_order cs" "plan_order cs" maxb minov budget "{}", folded plan_batches_Inr(4)[OF assms]]
  by simp_all

text \<open>Each clause joins its batch on at most the size of the seed, so a batch cannot outgrow it.\<close>

lemma batch_union_bound:
  assumes "\<forall>c\<in>set cs. q \<le> jaccard seed (pc_chunk_ids c)" "0 \<le> q"
  shows "q * of_nat (fcard (seed |\<union>| batch_chunk_ids cs))
    \<le> of_nat (fcard seed) * (q + of_nat (length cs) * (1 - q))"
  using assms(1)
proof (induction cs)
  case (Cons c cs)
  let ?u = "seed |\<union>| batch_chunk_ids cs" and ?d = "pc_chunk_ids c |-| seed"
  have "fcard (?u |\<union>| ?d) \<le> fcard ?u + fcard ?d"
    unfolding fcard.rep_eq sup_fset.rep_eq by (rule card_Un_le)
  moreover have "?u |\<union>| ?d = seed |\<union>| batch_chunk_ids (c # cs)"
    by auto
  ultimately have grow: "fcard (seed |\<union>| batch_chunk_ids (c # cs)) \<le> fcard ?u + fcard ?d"
    by simp
  have "fcard (seed |\<union>| ?d) = fcard seed + fcard ?d"
    by (rule fcard_funion_disjoint) auto
  moreover have "seed |\<union>| ?d = seed |\<union>| pc_chunk_ids c"
    by auto
  ultimately have "q * (of_nat (fcard seed) + of_nat (fcard ?d)) \<le> of_nat (fcard seed)"
    using jaccard_union[of q seed "pc_chunk_ids c"] Cons.prems assms(2) by simp
  moreover have "q * of_nat (fcard (seed |\<union>| batch_chunk_ids (c # cs))) \<le> q * of_nat (fcard ?u + fcard ?d)"
    using grow assms(2) by (intro mult_left_mono) (simp_all only: of_nat_le_iff)
  moreover have "q * of_nat (fcard ?u) \<le> of_nat (fcard seed) * (q + of_nat (length cs) * (1 - q))"
    using Cons by simp
  ultimately show ?case
    by (simp add: algebra_simps)
qed simp

section \<open>Properties\<close>

text \<open>C38: A plan covers the clauses: every key is in exactly one batch, and when keys are unique, as
  the planner assumes, the batches are a partition of the clauses. Planning saves as many calls as there
  are clauses joined to a seed.\<close>

theorem plan_covers_every_clause_once:
  assumes "plan_batches cs maxb minov budget = Inr bs"
  shows "distinct (map pc_key (concat bs)) \<and> pc_key ` set (concat bs) = pc_key ` set cs \<and>
    (distinct (map pc_key cs) \<longrightarrow> mset (concat bs) = mset cs) \<and>
    calls_saved bs = (\<Sum>b\<leftarrow>bs. int (length b) - 1) \<and> 0 \<le> calls_saved bs"
proof -
  note keys = plan_laws(2)[OF assms] and sub = plan_laws(1)[OF assms] and cover = plan_laws(3)[OF assms]
    and wb = plan_laws(4)[OF assms]
  have same: "mset (concat bs) = mset cs" if uniq: "distinct (map pc_key cs)"
  proof -
    have "inj_on pc_key (set cs)"
      using uniq by (simp add: distinct_map)
    have "c \<in> set (concat bs)" if c: "c \<in> set cs" for c
    proof -
      obtain d where d: "d \<in> set (concat bs)" "pc_key c = pc_key d"
        using cover c by blast
      then have "c = d"
        using \<open>inj_on pc_key (set cs)\<close> c sub by (metis inj_onD subsetD)
      then show ?thesis using d by simp
    qed
    then have "set (concat bs) = set cs"
      using sub by blast
    moreover have "distinct (concat bs)" "distinct cs"
      using keys uniq by (simp_all only: distinct_map)
    ultimately show ?thesis
      by (simp only: set_eq_iff_mset_eq_distinct)
  qed
  have saved: "calls_saved bs = (\<Sum>b\<leftarrow>bs. int (length b) - 1)"
    by (induction bs) (simp_all add: calls_saved_def clause_count_def call_count_def)
  have "0 \<le> (\<Sum>b\<leftarrow>bs. int (length b) - 1)"
    using wb by (intro sum_list_nonneg) (auto simp: list_all_iff well_batched_def Suc_le_eq)
  then show ?thesis
    using keys sub cover same saved by auto
qed

text \<open>Every batch has at most the allowed size; unless it is a clause alone it fits the budget and
  each of its clauses overlaps the seed enough, which bounds what it reads: with overlap \<open>q\<close> and \<open>n\<close>
  clauses, at most \<open>1 + (n - 1) * (1 / q - 1)\<close> times the chunks of the seed, so \<open>n\<close> times at the
  default overlap of one half.\<close>

theorem batches_are_bounded:
  assumes "plan_batches cs maxb minov budget = Inr bs" "b \<in> set bs"
  shows "b \<noteq> [] \<and> int (length b) \<le> maxb \<and>
    (length b \<noteq> 1 \<longrightarrow> batch_evidence_tokens b \<le> budget) \<and>
    (\<forall>c\<in>set (tl b). minov \<le> jaccard (pc_chunk_ids (hd b)) (pc_chunk_ids c)) \<and>
    minov * of_nat (fcard (batch_chunk_ids b))
      \<le> of_nat (fcard (pc_chunk_ids (hd b))) * (minov + of_nat (length b - 1) * (1 - minov))"
proof -
  note facts = plan_batches_Inr[OF assms(1)]
  have wb: "well_batched maxb minov budget b"
    using plan_laws(4)[OF assms(1)] assms(2) by (simp add: list_all_iff)
  then obtain seed xs where b: "b = seed # xs"
    by (cases b) (simp_all add: well_batched_def)
  have "minov * of_nat (fcard (pc_chunk_ids seed |\<union>| batch_chunk_ids xs))
      \<le> of_nat (fcard (pc_chunk_ids seed)) * (minov + of_nat (length xs) * (1 - minov))"
    using wb facts(2) by (intro batch_union_bound) (simp_all add: b well_batched_def)
  then show ?thesis
    using wb facts(1) by (cases xs) (simp_all add: b well_batched_def)
qed

text \<open>The plan is greedy: a clause of a later batch could not have joined an earlier one, because
  that batch is full, the clause does not overlap its seed enough, or it would have exceeded the budget.\<close>

theorem plan_leaves_no_room:
  assumes "plan_batches cs maxb minov budget = Inr bs" "i < j" "j < length bs" "c \<in> set (bs ! j)"
  shows "could_not_join maxb minov budget (bs ! i) c"
proof -
  have "list_all (could_not_join maxb minov budget (bs ! i)) (bs ! j)"
    using plan_laws(5)[OF assms(1)] assms(2,3) by (simp add: sorted_wrt_iff_nth_less)
  then show ?thesis
    using assms(4) by (simp add: list_all_iff)
qed

text \<open>The plan depends on the clauses alone: presenting them in another order gives the same
  batches in the same order.\<close>

theorem plan_ignores_input_order:
  assumes "distinct (map pc_key cs)" "mset cs = mset cs'"
  shows "plan_batches cs maxb minov budget = plan_batches cs' maxb minov budget"
proof -
  have "plan_order cs = plan_order cs'"
    unfolding plan_order_def
  proof (rule sort_key_inj_key_eq)
    show "mset cs = mset (sort_key (\<lambda>c. (pc_priority c, pc_key c)) cs')"
      using assms(2) by simp
    show "inj_on (\<lambda>c. (pc_priority c, pc_key c)) (set cs)"
      using assms(1) by (auto simp: distinct_map inj_on_def)
  qed simp
  then show ?thesis
    by (simp add: plan_batches_def)
qed

text \<open>The module says that anchoring to the seed prevents a batch from containing two clauses with
  no common evidence. It does not: at the default overlap two clauses can each share half of the seed's
  chunks and nothing with each other.\<close>

definition fx_clause_of :: "string \<Rightarrow> string list \<Rightarrow> planned_clause" where
  "fx_clause_of k ids = \<lparr>pc_key = k, pc_priority = 1, pc_chunk_ids = fset_of_list ids, pc_evidence_tokens = 100\<rparr>"

theorem batch_members_may_share_nothing:
  "\<exists>cs b c d. plan_batches cs DEFAULT_MAX_BATCH DEFAULT_MIN_OVERLAP 1000 = Inr [b] \<and>
     c \<in> set b \<and> d \<in> set b \<and> pc_chunk_ids c |\<inter>| pc_chunk_ids d = {||}"
proof -
  let ?a = "fx_clause_of ''a'' [''1'', ''2'']" and ?b = "fx_clause_of ''b'' [''1'']" and ?c = "fx_clause_of ''c'' [''2'']"
  have "plan_batches [?a, ?b, ?c] DEFAULT_MAX_BATCH DEFAULT_MIN_OVERLAP 1000 = Inr [[?a, ?b, ?c]]"
    by code_simp
  then show ?thesis
    by (intro exI[of _ "[?a, ?b, ?c]"] exI[of _ "[?a, ?b, ?c]"] exI[of _ ?b] exI[of _ ?c] conjI)
      (simp_all add: fx_clause_of_def)
qed

subsection \<open>Witnesses\<close>

definition fx_unplanned :: "planned_clause list" where
  "fx_unplanned = [fx_clause_of ''c'' [''9''], fx_clause_of ''b'' [''1'', ''2''], fx_clause_of ''a'' [''1'', ''2'']]"

definition fx_plan :: batch_plan where
  "fx_plan = [[fx_clause_of ''a'' [''1'', ''2''], fx_clause_of ''b'' [''1'', ''2'']], [fx_clause_of ''c'' [''9'']]]"

lemma fx_planned: "plan_batches fx_unplanned DEFAULT_MAX_BATCH DEFAULT_MIN_OVERLAP 150 = Inr fx_plan"
  by code_simp

theorem plan_covers_every_clause_once_witness:
  "mset (concat fx_plan) = mset fx_unplanned \<and> calls_saved fx_plan = 1"
  using plan_covers_every_clause_once[OF fx_planned] by (simp add: fx_plan_def fx_unplanned_def fx_clause_of_def)

theorem batches_are_bounded_witness:
  "batch_evidence_tokens (hd fx_plan) \<le> 150 \<and> length (hd fx_plan) = 2"
  using batches_are_bounded[OF fx_planned, of "hd fx_plan"] by (simp add: fx_plan_def)

theorem plan_leaves_no_room_witness:
  "could_not_join DEFAULT_MAX_BATCH DEFAULT_MIN_OVERLAP 150 (fx_plan ! 0) (fx_clause_of ''c'' [''9''])"
  by (rule plan_leaves_no_room[OF fx_planned, of 0 1]) (simp_all add: fx_plan_def)

theorem plan_ignores_input_order_witness:
  "plan_batches (rev fx_unplanned) 5 (1 / 2) 150 = plan_batches fx_unplanned 5 (1 / 2) 150"
  by (rule plan_ignores_input_order) (simp_all add: fx_unplanned_def fx_clause_of_def)

end
