(* ===== verification/ChunkStore.thy ===== *)
theory ChunkStore
  imports Models "HOL-Library.Multiset" "HOL-Library.Product_Lexorder"
begin

text \<open>
  Chunk persistence (\<^verbatim>\<open>repositories/chunk.py\<close>): the table of chunks with its self-referential foreign key,
  the constraints of \<^verbatim>\<open>models/chunk.py\<close>, the insertion of a chunk set, and the scoped reads retrieval
  uses. Section ids, languages, table data and the version strings are carried by no modelled read and left
  out of the row; the contract and the project a row names are taken to exist.
\<close>

record chunk_row =
  ck_id :: uuid
  ck_contract_id :: uuid
  ck_project_id :: uuid
  ck_parent_chunk_id :: "uuid option"
  ck_section_title :: "string option"
  ck_clause_number :: "string option"
  ck_level :: int
  ck_chunk_type :: string
  ck_text :: string
  ck_reading_order :: int
  ck_token_count :: int
  ck_char_count :: int
  ck_version :: int
  ck_page_start :: "int option"
  ck_page_end :: "int option"
  ck_bounding_boxes :: "json list"


subsection \<open>Insertion\<close>






definition position :: "chunk_row \<Rightarrow> uuid \<times> int \<times> int" where
  "position r = (ck_contract_id r, ck_version r, ck_reading_order r)"







subsection \<open>Reads\<close>

definition scoped_chunks :: "uuid \<Rightarrow> chunk_row list \<Rightarrow> chunk_row list" where
  "scoped_chunks project_id table = filter (\<lambda>r. ck_project_id r = project_id) table"

definition list_for_contract :: "uuid \<Rightarrow> uuid \<Rightarrow> string list \<Rightarrow> int option \<Rightarrow> chunk_row list \<Rightarrow> chunk_row list" where
  "list_for_contract contract_id project_id chunk_types min_tokens table =
     filter (\<lambda>r. (chunk_types = [] \<or> ck_chunk_type r \<in> set chunk_types) \<and>
                 (case min_tokens of None \<Rightarrow> True | Some m \<Rightarrow> m \<le> ck_token_count r))
       (sort_key ck_reading_order
         (filter (\<lambda>r. ck_contract_id r = contract_id) (scoped_chunks project_id table)))"

definition list_by_ids :: "uuid list \<Rightarrow> uuid \<Rightarrow> chunk_row list \<Rightarrow> chunk_row list" where
  "list_by_ids ids project_id table = filter (\<lambda>r. ck_id r \<in> set ids) (scoped_chunks project_id table)"

definition get_scoped :: "uuid \<Rightarrow> uuid \<Rightarrow> chunk_row list \<Rightarrow> chunk_row option" where
  "get_scoped i project_id table = List.find (\<lambda>r. ck_id r = i) (scoped_chunks project_id table)"

definition neighbours :: "chunk_row \<Rightarrow> uuid \<Rightarrow> int \<Rightarrow> chunk_row list \<Rightarrow> chunk_row list" where
  "neighbours c project_id window table =
     (if window \<le> 0 then []
      else sort_key ck_reading_order
        (filter (\<lambda>r. ck_contract_id r = ck_contract_id c \<and> ck_version r = ck_version c \<and>
            ck_reading_order c - window \<le> ck_reading_order r \<and> ck_reading_order r \<le> ck_reading_order c + window \<and>
            ck_id r \<noteq> ck_id c)
          (scoped_chunks project_id table)))"

text \<open>One range of reading orders per contract and version, covering every requested chunk of it.\<close>

definition widen_span :: "int \<Rightarrow> chunk_row \<Rightarrow> ((uuid \<times> int) \<times> int \<times> int) list \<Rightarrow> ((uuid \<times> int) \<times> int \<times> int) list" where
  "widen_span window c spans =
     (let k = (ck_contract_id c, ck_version c);
          low = ck_reading_order c - window; high = ck_reading_order c + window
      in AList.update k (case dict_get spans k of None \<Rightarrow> (low, high) | Some (l, h) \<Rightarrow> (min l low, max h high)) spans)"

definition in_span :: "chunk_row \<Rightarrow> (uuid \<times> int) \<times> int \<times> int \<Rightarrow> bool" where
  "in_span r s = (case s of ((cid, v), (low, high)) \<Rightarrow>
     ck_contract_id r = cid \<and> ck_version r = v \<and> low \<le> ck_reading_order r \<and> ck_reading_order r \<le> high)"

definition at_position :: "chunk_row list \<Rightarrow> uuid \<times> int \<times> int \<Rightarrow> chunk_row option" where
  "at_position rows k = List.find (\<lambda>r. (ck_contract_id r, ck_version r, ck_reading_order r) = k) (rev rows)"

definition offsets :: "int \<Rightarrow> int list" where
  "offsets window = filter (\<lambda>i. i \<noteq> 0) [- window..window]"

definition neighbours_for_many :: "chunk_row list \<Rightarrow> uuid \<Rightarrow> int \<Rightarrow> chunk_row list \<Rightarrow> (uuid \<times> chunk_row list) list" where
  "neighbours_for_many chunks project_id window table =
     (if window \<le> 0 \<or> chunks = [] then []
      else let spans = fold (widen_span window) chunks [];
               rows = filter (\<lambda>r. list_ex (in_span r) spans) (scoped_chunks project_id table)
           in fold (\<lambda>c result. AList.update (ck_id c)
                (List.map_filter (\<lambda>i. at_position rows (ck_contract_id c, ck_version c, ck_reading_order c + i)) (offsets window))
                result) chunks [])"

fun walk_up :: "nat \<Rightarrow> uuid \<Rightarrow> chunk_row list \<Rightarrow> uuid set \<Rightarrow> chunk_row \<Rightarrow> chunk_row list" where
  "walk_up 0 project_id table seen c = []"
| "walk_up (Suc n) project_id table seen c =
     (case ck_parent_chunk_id c of
        None \<Rightarrow> []
      | Some p \<Rightarrow>
          (case get_scoped p project_id table of
             None \<Rightarrow> []
           | Some parent \<Rightarrow>
               if ck_id parent \<in> seen then []
               else parent # walk_up n project_id table (insert (ck_id parent) seen) parent))"

definition ancestors :: "chunk_row \<Rightarrow> uuid \<Rightarrow> chunk_row list \<Rightarrow> chunk_row list" where
  "ancestors c project_id table = walk_up 12 project_id table {ck_id c} c"

definition children_of :: "uuid \<Rightarrow> uuid \<Rightarrow> chunk_row list \<Rightarrow> chunk_row list" where
  "children_of i project_id table =
     sort_key ck_reading_order (filter (\<lambda>r. ck_parent_chunk_id r = Some i) (scoped_chunks project_id table))"

definition find_by_clause_number :: "uuid \<Rightarrow> uuid \<Rightarrow> string \<Rightarrow> chunk_row list \<Rightarrow> chunk_row list" where
  "find_by_clause_number contract_id project_id clause_number table =
     filter (\<lambda>r. ck_clause_number r = Some clause_number) (list_for_contract contract_id project_id [] None table)"

definition latest_version :: "uuid \<Rightarrow> uuid \<Rightarrow> chunk_row list \<Rightarrow> int" where
  "latest_version contract_id project_id table =
     (let vs = map ck_version (filter (\<lambda>r. ck_contract_id r = contract_id) (scoped_chunks project_id table))
      in if vs = [] then 0 else foldr max vs (hd vs))"

section \<open>Insertion keeps the foreign key\<close>













section \<open>Neighbours\<close>

text \<open>Positions are unique, as the engine numbers the chunks of one version.\<close>

lemma widen_span_covers:
  "(\<forall>k l h. dict_get spans k = Some (l, h) \<longrightarrow>
      (\<exists>l' h'. dict_get (fold (widen_span w) cs spans) k = Some (l', h') \<and> l' \<le> l \<and> h \<le> h')) \<and>
   (\<forall>c \<in> set cs. \<exists>l h. dict_get (fold (widen_span w) cs spans) (ck_contract_id c, ck_version c) = Some (l, h) \<and>
      l \<le> ck_reading_order c - w \<and> ck_reading_order c + w \<le> h)"
proof (induction cs arbitrary: spans)
  case (Cons c cs)
  let ?spans = "widen_span w c spans" and ?k = "(ck_contract_id c, ck_version c)"
  have old: "\<exists>l' h'. dict_get ?spans k = Some (l', h') \<and> l' \<le> l \<and> h \<le> h'" if "dict_get spans k = Some (l, h)" for k l h
    using that by (cases "k = ?k") (auto simp: widen_span_def Let_def dict_get_alist_update)
  obtain l h where new: "dict_get ?spans ?k = Some (l, h)" "l \<le> ck_reading_order c - w" "ck_reading_order c + w \<le> h"
    by (cases "dict_get spans ?k") (auto simp: widen_span_def Let_def dict_get_alist_update)
  note IH = Cons.IH[of ?spans]
  have later: "\<exists>l' h'. dict_get (fold (widen_span w) cs ?spans) k = Some (l', h') \<and> l' \<le> l0 \<and> h0 \<le> h'"
    if "dict_get ?spans k = Some (l0, h0)" for k l0 h0
    using IH that by blast
  show ?case
  proof (intro conjI allI impI ballI)
    fix k l0 h0
    assume "dict_get spans k = Some (l0, h0)"
    then obtain l1 h1 where "dict_get ?spans k = Some (l1, h1)" "l1 \<le> l0" "h0 \<le> h1"
      using old by blast
    then show "\<exists>l' h'. dict_get (fold (widen_span w) (c # cs) spans) k = Some (l', h') \<and> l' \<le> l0 \<and> h0 \<le> h'"
      using later by fastforce
  next
    fix x
    assume x: "x \<in> set (c # cs)"
    show "\<exists>l h. dict_get (fold (widen_span w) (c # cs) spans) (ck_contract_id x, ck_version x) = Some (l, h) \<and>
        l \<le> ck_reading_order x - w \<and> ck_reading_order x + w \<le> h"
    proof (cases "x = c")
      case True
      then show ?thesis using later[OF new(1)] new(2,3) by fastforce
    next
      case False
      then have "x \<in> set cs" using x by simp
      then show ?thesis using IH by simp
    qed
  qed
qed simp

lemma in_map_filter: "y \<in> set (List.map_filter f xs) \<longleftrightarrow> (\<exists>x \<in> set xs. f x = Some y)"
  by (induction xs) (auto split: option.split)

lemma span_covers:
  assumes "c \<in> set chunks" "ck_contract_id r = ck_contract_id c" "ck_version r = ck_version c"
    "ck_reading_order c - w \<le> ck_reading_order r" "ck_reading_order r \<le> ck_reading_order c + w"
  shows "list_ex (in_span r) (fold (widen_span w) chunks [])"
proof -
  obtain l h where lh: "dict_get (fold (widen_span w) chunks []) (ck_contract_id c, ck_version c) = Some (l, h)"
    "l \<le> ck_reading_order c - w" "ck_reading_order c + w \<le> h"
    using widen_span_covers[where cs = chunks and w = w and spans = "[]"] assms(1) by blast
  have "((ck_contract_id c, ck_version c), (l, h)) \<in> set (fold (widen_span w) chunks [])"
    using lh(1) by (simp add: dict_get_def map_of_SomeD)
  moreover have "in_span r ((ck_contract_id c, ck_version c), (l, h))"
    using assms lh by (simp add: in_span_def)
  ultimately show ?thesis
    unfolding list_ex_iff by blast
qed

lemma at_position_unique:
  assumes "inj_on position (set rows)"
  shows "at_position rows k = Some r \<longleftrightarrow> r \<in> set rows \<and> position r = k"
proof
  assume "at_position rows k = Some r"
  then show "r \<in> set rows \<and> position r = k"
    unfolding at_position_def position_def by (auto dest: find_SomeD)
next
  assume r: "r \<in> set rows \<and> position r = k"
  then have "List.find (\<lambda>r. position r = k) (rev rows) \<noteq> None"
    by (auto simp: find_None_iff)
  then obtain r' where r': "List.find (\<lambda>r. position r = k) (rev rows) = Some r'"
    by blast
  then have "r' = r"
    using find_SomeD[OF r'] r assms by (auto dest: inj_onD)
  then show "at_position rows k = Some r"
    using r' by (simp add: at_position_def position_def)
qed

lemma fold_update_get:
  assumes "distinct (map f cs)" "c \<in> set cs"
  shows "dict_get (fold (\<lambda>c d. AList.update (f c) (g c) d) cs d) (f c) = Some (g c)"
  using assms
proof (induction cs arbitrary: d rule: rev_induct)
  case (snoc x cs)
  show ?case
  proof (cases "c = x")
    case False
    then have c: "c \<in> set cs" using snoc.prems(2) by simp
    moreover have "f c \<noteq> f x"
    proof
      assume eq: "f c = f x"
      have "f c \<in> f ` set cs" using c by (rule imageI)
      then show False using snoc.prems(1) unfolding eq by simp
    qed
    ultimately show ?thesis
      using snoc.IH snoc.prems(1) by (simp add: dict_get_alist_update)
  qed (simp add: dict_get_alist_update)
qed simp

text \<open>C40: The batched expansion agrees with the per-chunk query: for every requested chunk it returns the same
  neighbours in the same order, as long as ids and positions are unique in the project.\<close>

theorem batched_neighbours_agree:
  assumes "0 < window" "inj_on position (set (scoped_chunks pid table))" "distinct (map ck_id (scoped_chunks pid table))"
    "set chunks \<subseteq> set (scoped_chunks pid table)" "distinct (map ck_id chunks)" "c \<in> set chunks"
  shows "dict_get (neighbours_for_many chunks pid window table) (ck_id c) = Some (neighbours c pid window table)"
proof -
  let ?T = "scoped_chunks pid table"
  define rows where "rows = filter (\<lambda>r. list_ex (in_span r) (fold (widen_span window) chunks [])) ?T"
  define many where "many c = List.map_filter (\<lambda>i. at_position rows (ck_contract_id c, ck_version c, ck_reading_order c + i)) (offsets window)" for c :: chunk_row
  define near where "near r \<longleftrightarrow> ck_contract_id r = ck_contract_id c \<and> ck_version r = ck_version c \<and>
    ck_reading_order c - window \<le> ck_reading_order r \<and> ck_reading_order r \<le> ck_reading_order c + window \<and> ck_id r \<noteq> ck_id c" for r :: chunk_row
  have c: "c \<in> set ?T" using assms(4,6) by blast
  have inj_rows: "inj_on position (set rows)"
    using assms(2) by (rule inj_on_subset) (auto simp: rows_def)
  have same_id: "r \<in> set ?T \<Longrightarrow> ck_id r = ck_id c \<longleftrightarrow> r = c" for r
    using assms(3) c by (auto simp: distinct_map dest: inj_onD)
  have same_pos: "r \<in> set ?T \<Longrightarrow> position r = position c \<longleftrightarrow> r = c" for r
    using assms(2) c by (auto dest: inj_onD)
  have at: "at_position rows (ck_contract_id c, ck_version c, ck_reading_order c + i) = Some r \<longleftrightarrow>
      r \<in> set ?T \<and> near r \<and> ck_reading_order r = ck_reading_order c + i"
    if "i \<in> set (offsets window)" for i r
  proof -
    have i: "- window \<le> i" "i \<le> window" "i \<noteq> 0"
      using that by (auto simp: offsets_def)
    have "r \<in> set rows \<longleftrightarrow> r \<in> set ?T" if "position r = (ck_contract_id c, ck_version c, ck_reading_order c + i)"
      using that span_covers[OF assms(6), of r window] i by (auto simp: rows_def position_def)
    moreover have "near r \<longleftrightarrow> position r = (ck_contract_id c, ck_version c, ck_reading_order r)"
      if "r \<in> set ?T" "ck_reading_order r = ck_reading_order c + i"
      using that i same_id[of r] by (auto simp: near_def position_def)
    ultimately show ?thesis
      unfolding at_position_unique[OF inj_rows] by (auto simp: position_def)
  qed
  have set_many: "set (many c) = {r \<in> set ?T. near r}"
  proof (intro set_eqI iffI)
    fix r
    assume "r \<in> set (many c)"
    then show "r \<in> {r \<in> set ?T. near r}"
      using at by (auto simp: many_def in_map_filter)
  next
    fix r
    assume r: "r \<in> {r \<in> set ?T. near r}"
    define i where "i = ck_reading_order r - ck_reading_order c"
    have "i \<noteq> 0"
    proof
      assume "i = 0"
      then have "position r = position c"
        using r by (simp add: i_def near_def position_def)
      then have "r = c" using same_pos r by blast
      then show False using r by (simp add: near_def)
    qed
    then have i: "i \<in> set (offsets window)"
      using r by (auto simp: offsets_def i_def near_def)
    have "at_position rows (ck_contract_id c, ck_version c, ck_reading_order c + i) = Some r"
      unfolding at[OF i] using r by (simp add: i_def)
    then show "r \<in> set (many c)"
      using i unfolding many_def in_map_filter by blast
  qed
  have sorted_many: "sorted_wrt (\<lambda>a b. ck_reading_order a < ck_reading_order b) (many c)"
  proof -
    have "sorted_wrt (\<lambda>a b. ck_reading_order a < ck_reading_order b)
        (List.map_filter (\<lambda>i. at_position rows (ck_contract_id c, ck_version c, ck_reading_order c + i)) xs)"
      if "sorted_wrt (<) xs" "set xs \<subseteq> set (offsets window)" for xs
      using that
    proof (induction xs)
      case (Cons i xs)
      have later: "ck_reading_order r > ck_reading_order c + i"
        if r_in: "r \<in> set (List.map_filter (\<lambda>i. at_position rows (ck_contract_id c, ck_version c, ck_reading_order c + i)) xs)" for r
      proof -
        obtain j where j: "j \<in> set xs" "at_position rows (ck_contract_id c, ck_version c, ck_reading_order c + j) = Some r"
          using r_in by (auto simp: in_map_filter)
        then have "ck_reading_order r = ck_reading_order c + j"
          using at[of j r] Cons.prems(2) by auto
        then show ?thesis using j(1) Cons.prems(1) by auto
      qed
      show ?case
        using Cons at[of i] later by (auto simp: Cons.IH split: option.split)
    qed simp
    moreover have "sorted_wrt (<) (offsets window)"
      unfolding offsets_def by (intro sorted_wrt_filter) (simp add: sorted_wrt_upto)
    ultimately show ?thesis by (simp add: many_def)
  qed
  have near_list: "neighbours c pid window table = sort_key ck_reading_order (filter near ?T)"
    using assms(1) by (simp add: neighbours_def near_def[abs_def])
  have inj_near: "inj_on ck_reading_order {r \<in> set ?T. near r}"
    using assms(2) by (auto simp: inj_on_def near_def position_def)
  have "many c = neighbours c pid window table"
  proof (rule map_sorted_distinct_set_unique[of ck_reading_order])
    show "inj_on ck_reading_order (set (many c) \<union> set (neighbours c pid window table))"
      using inj_near by (simp add: set_many near_list)
    have "sorted_wrt (<) (map ck_reading_order (many c))"
      using sorted_many by (simp only: sorted_wrt_map)
    then show "sorted (map ck_reading_order (many c))" "distinct (map ck_reading_order (many c))"
      by (simp_all only: strict_sorted_iff)
    show "sorted (map ck_reading_order (neighbours c pid window table))"
      by (simp add: near_list)
    have "distinct ?T"
      using assms(3) by (simp add: distinct_map)
    then show "distinct (map ck_reading_order (neighbours c pid window table))"
      using inj_near by (simp add: near_list distinct_map)
    show "set (many c) = set (neighbours c pid window table)"
      by (simp add: set_many near_list)
  qed
  moreover have "neighbours_for_many chunks pid window table = fold (\<lambda>c d. AList.update (ck_id c) (many c) d) chunks []"
    using assms(1,6) by (auto simp: neighbours_for_many_def Let_def rows_def[symmetric] many_def[abs_def])
  ultimately show ?thesis
    using fold_update_get[OF assms(5,6), of many "[]"] by simp
qed

section \<open>Ancestors\<close>

fun parent_chain :: "chunk_row \<Rightarrow> chunk_row list \<Rightarrow> bool" where
  "parent_chain c [] = True"
| "parent_chain c (p # ps) = (ck_parent_chunk_id c = Some (ck_id p) \<and> parent_chain p ps)"

lemma walk_up_ok:
  "length (walk_up n pid table seen c) \<le> n \<and> distinct (map ck_id (walk_up n pid table seen c)) \<and>
   ck_id ` set (walk_up n pid table seen c) \<inter> seen = {} \<and>
   set (walk_up n pid table seen c) \<subseteq> set (scoped_chunks pid table) \<and> parent_chain c (walk_up n pid table seen c)"
proof (induction n pid table seen c rule: walk_up.induct)
  case (2 n pid table seen c)
  show ?case
  proof (cases "ck_parent_chunk_id c")
    case (Some p)
    show ?thesis
    proof (cases "get_scoped p pid table")
      case (Some parent)
      have parent: "parent \<in> set (scoped_chunks pid table)" "ck_id parent = p"
        using Some by (auto simp: get_scoped_def dest: find_SomeD)
      show ?thesis
      proof (cases "ck_id parent \<in> seen")
        case False
        have "walk_up (Suc n) pid table seen c = parent # walk_up n pid table (insert (ck_id parent) seen) parent"
          using Some \<open>ck_parent_chunk_id c = Some p\<close> False by simp
        then show ?thesis
          using "2.IH"[OF \<open>ck_parent_chunk_id c = Some p\<close> Some False] parent False
            \<open>ck_parent_chunk_id c = Some p\<close> by auto
      qed (simp add: Some \<open>ck_parent_chunk_id c = Some p\<close>)
    qed (simp add: Some)
  qed simp
qed simp

text \<open>The walk to the root ends within twelve steps whatever the parent links are, cycles included. It visits no
  chunk twice nor the one it started from, follows parent links, and never leaves the project.\<close>

theorem ancestors_are_a_scoped_chain:
  "length (ancestors c pid table) \<le> 12 \<and> distinct (map ck_id (c # ancestors c pid table)) \<and>
   set (ancestors c pid table) \<subseteq> set (scoped_chunks pid table) \<and> parent_chain c (ancestors c pid table)"
  using walk_up_ok[of 12 pid table "{ck_id c}" c] by (auto simp: ancestors_def)

section \<open>Witnesses\<close>

definition sample_chunk :: "uuid \<Rightarrow> int \<Rightarrow> uuid option \<Rightarrow> chunk_row" where
  "sample_chunk i order parent =
     \<lparr>ck_id = i, ck_contract_id = 1, ck_project_id = 7, ck_parent_chunk_id = parent, ck_section_title = None,
      ck_clause_number = None, ck_level = 0, ck_chunk_type = ''clause'', ck_text = ''text'', ck_reading_order = order,
      ck_token_count = 1, ck_char_count = 4, ck_version = 1, ck_page_start = None, ck_page_end = None, ck_bounding_boxes = []\<rparr>"



theorem batched_neighbours_agree_witness:
  "dict_get (neighbours_for_many [sample_chunk 1 0 None] 7 1 [sample_chunk 1 0 None, sample_chunk 2 1 None]) 1 =
     Some [sample_chunk 2 1 None]"
proof -
  have "dict_get (neighbours_for_many [sample_chunk 1 0 None] 7 1 [sample_chunk 1 0 None, sample_chunk 2 1 None]) (ck_id (sample_chunk 1 0 None)) =
      Some (neighbours (sample_chunk 1 0 None) 7 1 [sample_chunk 1 0 None, sample_chunk 2 1 None])"
    by (rule batched_neighbours_agree) (auto simp: sample_chunk_def scoped_chunks_def position_def)
  then show ?thesis
    by (simp add: neighbours_def scoped_chunks_def sample_chunk_def)
qed

end
