(* ===== verification/Ranking.thy ===== *)
theory Ranking
  imports Numbers Dates Storage Models "HOL-Library.AList" "HOL-Library.FSet" "HOL-Library.Multiset"
begin

text \<open>
  How retrieved evidence is ranked: reciprocal rank fusion, deduplication and the suppression of
  near duplicates (\<^verbatim>\<open>ai/retrieval/engine.py\<close>), and re-ranking (\<^verbatim>\<open>ai/retrieval/rerank.py\<close>). Scores are
  exact rationals. The code mutates the evidence objects it holds; as each of these steps owns the
  objects it returns, they are functions on lists here.
\<close>

subsection \<open>Evidence\<close>

datatype embedding_level = EL_DOCUMENT_SUMMARY | EL_CLAUSE | EL_CHUNK

fun level_name :: "embedding_level \<Rightarrow> string" where
  "level_name EL_DOCUMENT_SUMMARY = ''document_summary''"
| "level_name EL_CLAUSE = ''clause''"
| "level_name EL_CHUNK = ''chunk''"

record evidence =
  ev_level :: embedding_level
  ev_ref_id :: uuid
  ev_contract_id :: uuid
  ev_project_id :: uuid
  ev_text :: string
  ev_score :: rat
  ev_source :: string
  ev_rank :: nat
  ev_contract_title :: "string option"
  ev_clause_type :: "string option"
  ev_clause_number :: "string option"
  ev_section_title :: "string option"
  ev_page_start :: "int option"
  ev_page_end :: "int option"
  ev_bounding_boxes :: "json list"
  ev_chunk_id :: "uuid option"
  ev_metadata :: dict
  ev_similarity :: "rat option"
  ev_rerank_score :: "rat option"

text \<open>The key of the code renders both parts as text, which loses nothing.\<close>

definition ev_key :: "evidence \<Rightarrow> embedding_level \<times> uuid" where
  "ev_key e = (ev_level e, ev_ref_id e)"

definition ranked :: "evidence list \<Rightarrow> evidence list" where
  "ranked es = map (\<lambda>(i, e). e\<lparr>ev_rank := i\<rparr>) (enumerate 1 es)"

subsection \<open>Fusion\<close>

definition RRF_K :: nat where
  "RRF_K = 60"

type_synonym ev_scores = "((embedding_level \<times> uuid) \<times> rat) list"
type_synonym ev_items = "((embedding_level \<times> uuid) \<times> evidence) list"

text \<open>One hit of one leg: its share is added, and the record with bounding boxes is preferred.\<close>

definition fuse_hit :: "nat \<times> evidence \<Rightarrow> ev_scores \<times> ev_items \<Rightarrow> ev_scores \<times> ev_items" where
  "fuse_hit hit acc =
     (case (hit, acc) of ((rank, e), (scores, items)) \<Rightarrow>
       (let k = ev_key e;
            old = (case dict_get scores k of None \<Rightarrow> 0 | Some s \<Rightarrow> s);
            replace = (case dict_get items k of None \<Rightarrow> True
              | Some kept \<Rightarrow> ev_bounding_boxes kept = [] \<and> ev_bounding_boxes e \<noteq> [])
        in (AList.update k (old + 1 / of_nat (RRF_K + rank)) scores,
            if replace then AList.update k e items else items)))"

definition fuse_leg :: "evidence list \<Rightarrow> ev_scores \<times> ev_items \<Rightarrow> ev_scores \<times> ev_items" where
  "fuse_leg leg acc = fold fuse_hit (enumerate 1 leg) acc"

definition fused_item :: "evidence list \<Rightarrow> evidence list \<Rightarrow> ev_items \<Rightarrow>
    (embedding_level \<times> uuid) \<times> rat \<Rightarrow> evidence" where
  "fused_item vector_hits keyword_hits items ks =
     (case ks of (k, score) \<Rightarrow>
       (let e = the (dict_get items k);
            e1 = e\<lparr>ev_score := score,
                   ev_similarity := (case ev_similarity e of
                       None \<Rightarrow> map_option ev_score (List.find (\<lambda>v. ev_key v = k) (rev vector_hits))
                     | Some s \<Rightarrow> Some s)\<rparr>
        in if k \<in> ev_key ` set vector_hits \<inter> ev_key ` set keyword_hits
           then e1\<lparr>ev_source := ''fused''\<rparr> else e1))"

definition fuse :: "evidence list \<Rightarrow> evidence list \<Rightarrow> nat \<Rightarrow> evidence list" where
  "fuse vector_hits keyword_hits limit =
     (case fuse_leg keyword_hits (fuse_leg vector_hits ([], [])) of (scores, items) \<Rightarrow>
       ranked (map (fused_item vector_hits keyword_hits items)
         (take limit (sort_key (\<lambda>ks. - snd ks) scores))))"

subsection \<open>Near duplicates\<close>

definition NEAR_DUPLICATE_CONTAINMENT :: rat where
  "NEAR_DUPLICATE_CONTAINMENT = 4 / 5"

text \<open>\<open>text.lower().split()\<close>, and the overlapping runs of eight words.\<close>

fun words_from :: "string \<Rightarrow> string \<Rightarrow> string list" where
  "words_from w [] = (if w = [] then [] else [rev w])"
| "words_from w (c # cs) =
     (if is_space c then (if w = [] then words_from [] cs else rev w # words_from [] cs)
      else words_from (c # w) cs)"

definition words :: "string \<Rightarrow> string list" where
  "words t = words_from [] t"

definition shingles :: "string \<Rightarrow> string fset" where
  "shingles t =
     (let ws = words (lower t); n = length ws
      in if n < 8 then (if ws = [] then {||} else {|join '' '' ws|})
         else fset_of_list (map (\<lambda>i. join '' '' (take 8 (drop i ws))) [0..<n - 8 + 1]))"

definition containment :: "string fset \<Rightarrow> string fset \<Rightarrow> rat" where
  "containment a b = of_nat (fcard (a |\<inter>| b)) / of_nat (min (fcard a) (fcard b))"

definition repeats :: "evidence \<Rightarrow> evidence \<Rightarrow> bool" where
  "repeats e kept \<longleftrightarrow> shingles (ev_text e) \<noteq> {||} \<and> shingles (ev_text kept) \<noteq> {||} \<and>
     NEAR_DUPLICATE_CONTAINMENT \<le> containment (shingles (ev_text e)) (shingles (ev_text kept))"

definition count_suppressed :: "evidence \<Rightarrow> evidence" where
  "count_suppressed e =
     e\<lparr>ev_metadata := AList.update ''duplicates_suppressed''
        (JInt ((case dict_get (ev_metadata e) ''duplicates_suppressed'' of Some (JInt n) \<Rightarrow> n | _ \<Rightarrow> 0) + 1))
        (ev_metadata e)\<rparr>"

text \<open>The first admitted passage that the item repeats counts it; an item that repeats none is
  admitted.\<close>

fun admit :: "evidence \<Rightarrow> evidence list \<Rightarrow> evidence list" where
  "admit e [] = [e]"
| "admit e (k # ks) = (if repeats e k then count_suppressed k # ks else k # admit e ks)"

definition suppress_near_duplicates :: "evidence list \<Rightarrow> evidence list" where
  "suppress_near_duplicates es = fold admit es []"

subsection \<open>Deduplication\<close>

definition dedup_step :: "evidence \<Rightarrow> ev_items \<Rightarrow> ev_items" where
  "dedup_step e best =
     (case dict_get best (ev_key e) of
        None \<Rightarrow> AList.update (ev_key e) e best
      | Some old \<Rightarrow>
          if ev_score e > ev_score old
          then AList.update (ev_key e)
            (if ev_source old \<in> {''vector'', ''keyword'', ''fused''} then e\<lparr>ev_source := ev_source old\<rparr> else e) best
          else best)"

definition best_by_key :: "evidence list \<Rightarrow> evidence list" where
  "best_by_key es = map snd (fold dedup_step es [])"

definition deduplicate :: "evidence list \<Rightarrow> evidence list" where
  "deduplicate es = ranked (suppress_near_duplicates (sort_key (\<lambda>e. - ev_score e) (best_by_key es)))"

subsection \<open>Re-ranking\<close>

text \<open>The values an entry of the model's \<open>ranking\<close> can hold. A JSON number may be \<open>Infinity\<close> or \<open>NaN\<close>, and
  one such as \<open>1e999\<close> is read as infinite.\<close>

datatype pyfloat = Finite rat | Infinite bool | NaN

datatype field = FInt int | FBool bool | FFloat pyfloat | FText string | FOther

datatype entry = NotADict | Entry "field option" "field option"

text \<open>What \<open>int()\<close> and \<open>float()\<close> make of a value: \<open>Skipped\<close> for the \<open>KeyError\<close>, \<open>TypeError\<close> and
  \<open>ValueError\<close> the code catches, \<open>Overflows\<close> for the \<open>OverflowError\<close> it does not.\<close>

datatype 'a reading = Converted 'a | Skipped | Overflows

definition toward_zero :: "rat \<Rightarrow> int" where
  "toward_zero q = (if 0 \<le> q then \<lfloor>q\<rfloor> else \<lceil>q\<rceil>)"

definition read_text :: "'a option \<Rightarrow> 'a reading" where
  "read_text v = (case v of None \<Rightarrow> Skipped | Some x \<Rightarrow> Converted x)"

fun int_field :: "field option \<Rightarrow> int reading" where
  "int_field (Some (FInt i)) = Converted i"
| "int_field (Some (FBool b)) = Converted (if b then 1 else 0)"
| "int_field (Some (FFloat (Finite q))) = Converted (toward_zero q)"
| "int_field (Some (FFloat (Infinite neg))) = Overflows"
| "int_field (Some (FFloat NaN)) = Skipped"
| "int_field (Some (FText s)) = read_text (parse_int s)"
| "int_field (Some FOther) = Skipped"
| "int_field None = Skipped"

text \<open>\<open>float(text)\<close>: a sign, then \<open>inf\<close>, \<open>infinity\<close>, \<open>nan\<close> or a decimal with an optional fraction and
  exponent.\<close>

definition decimal_part :: "string \<Rightarrow> (int \<times> nat) option" where
  "decimal_part s = (if s = [] then Some (0, 0)
     else map_option (\<lambda>v. (v, length (filter (\<lambda>c. c \<noteq> CHR ''_'') s))) (parse_unsigned s))"

definition parse_mantissa :: "string \<Rightarrow> rat option" where
  "parse_mantissa s =
     (case split_on (CHR ''.'') s of
        [a] \<Rightarrow> map_option of_int (parse_unsigned a)
      | [a, b] \<Rightarrow>
          if a = [] \<and> b = [] then None
          else (case (decimal_part a, decimal_part b) of
              (Some (v, _), Some (w, n)) \<Rightarrow> Some (of_int v + of_int w / 10 ^ n)
            | _ \<Rightarrow> None)
      | _ \<Rightarrow> None)"

definition parse_exponent :: "string \<Rightarrow> int option" where
  "parse_exponent s = (if s \<noteq> [] \<and> (is_space (hd s) \<or> is_space (last s)) then None else parse_int s)"

definition parse_magnitude :: "string \<Rightarrow> rat option" where
  "parse_magnitude s =
     (case split_on (CHR ''e'') s of
        [m] \<Rightarrow> parse_mantissa m
      | [m, x] \<Rightarrow>
          (case (parse_mantissa m, parse_exponent x) of
             (Some q, Some k) \<Rightarrow> Some (if 0 \<le> k then q * 10 ^ nat k else q / 10 ^ nat (- k))
           | _ \<Rightarrow> None)
      | _ \<Rightarrow> None)"

definition parse_float :: "string \<Rightarrow> pyfloat option" where
  "parse_float s =
     (let t = lower (strip s);
          neg = (t \<noteq> [] \<and> hd t = CHR ''-'');
          u = (if t \<noteq> [] \<and> hd t \<in> {CHR ''-'', CHR ''+''} then tl t else t)
      in if u \<in> {''inf'', ''infinity''} then Some (Infinite neg)
         else if u = ''nan'' then Some NaN
         else map_option (\<lambda>q. Finite (if neg then - q else q)) (parse_magnitude u))"

text \<open>An integer from \<open>2 ^ 1024 - 2 ^ 970\<close> on rounds to no double.\<close>

definition beyond_double :: "int \<Rightarrow> bool" where
  "beyond_double i \<longleftrightarrow> 2 ^ 1024 - 2 ^ 970 \<le> \<bar>i\<bar>"

fun float_field :: "field option \<Rightarrow> pyfloat reading" where
  "float_field (Some (FInt i)) = (if beyond_double i then Overflows else Converted (Finite (of_int i)))"
| "float_field (Some (FBool b)) = Converted (Finite (if b then 1 else 0))"
| "float_field (Some (FFloat f)) = Converted f"
| "float_field (Some (FText s)) = read_text (parse_float s)"
| "float_field (Some FOther) = Skipped"
| "float_field None = Skipped"

text \<open>The \<open>ranking\<close> of the response: \<open>None\<close> when it is no list.\<close>

type_synonym ranking = "entry list option"

text \<open>\<open>max(0.0, min(score, 1.0))\<close>: a \<open>NaN\<close> compares false with both bounds and comes out as 0.\<close>

fun clamp01 :: "pyfloat \<Rightarrow> rat" where
  "clamp01 (Finite q) = max 0 (min q 1)"
| "clamp01 (Infinite neg) = (if neg then 0 else 1)"
| "clamp01 NaN = 0"

definition conversion_overflow :: exn where
  "conversion_overflow = PyErr ''OverflowError'' ''cannot convert''"

definition read_entry :: "nat \<Rightarrow> entry \<Rightarrow> (nat \<times> rat) list \<Rightarrow> exn + (nat \<times> rat) list" where
  "read_entry n ent scores =
     (case ent of
        NotADict \<Rightarrow> Inr scores
      | Entry i s \<Rightarrow>
          (case int_field i of
             Overflows \<Rightarrow> Inl conversion_overflow
           | Skipped \<Rightarrow> Inr scores
           | Converted k \<Rightarrow>
               (case float_field s of
                  Overflows \<Rightarrow> Inl conversion_overflow
                | Skipped \<Rightarrow> Inr scores
                | Converted f \<Rightarrow>
                    Inr (if 0 \<le> k \<and> k < int n then AList.update (nat k) (clamp01 f) scores else scores))))"

fun read_scores :: "nat \<Rightarrow> entry list \<Rightarrow> (nat \<times> rat) list \<Rightarrow> exn + (nat \<times> rat) list" where
  "read_scores n [] scores = Inr scores"
| "read_scores n (ent # ents) scores =
     (case read_entry n ent scores of Inl x \<Rightarrow> Inl x | Inr scores' \<Rightarrow> read_scores n ents scores')"

definition scored_item :: "evidence list \<Rightarrow> nat \<times> nat \<times> rat \<Rightarrow> evidence" where
  "scored_item es ris = (case ris of (rank, i, s) \<Rightarrow> (es ! i)\<lparr>ev_rerank_score := Some s, ev_rank := rank\<rparr>)"

definition order_by_scores :: "(nat \<times> rat) list \<Rightarrow> evidence list \<Rightarrow> evidence list" where
  "order_by_scores scores es =
     (if scores = [] then es
      else map (scored_item es) (enumerate 1 (sort_key (\<lambda>is. - snd is) scores)) @
           map snd (filter (\<lambda>(i, e). i \<notin> fst ` set scores) (enumerate 0 es)))"

definition apply_ranking :: "ranking \<Rightarrow> evidence list \<Rightarrow> exn + evidence list" where
  "apply_ranking raw es =
     (case raw of
        None \<Rightarrow> Inr es
      | Some entries \<Rightarrow>
          (case read_scores (length es) entries [] of
             Inl x \<Rightarrow> Inl x
           | Inr scores \<Rightarrow> Inr (order_by_scores scores es)))"

text \<open>\<open>answer\<close> is the provider's response to the scoring prompt; \<open>None\<close> when the call raised. The response is
  read outside the \<open>try\<close>, so what \<open>apply_ranking\<close> raises is not caught.\<close>

definition llm_rerank :: "ranking option \<Rightarrow> evidence list \<Rightarrow> nat \<Rightarrow> exn + evidence list" where
  "llm_rerank answer es limit =
     (if length es \<le> 1 then Inr (take limit es)
      else case answer of
        None \<Rightarrow> Inr (take limit es)
      | Some raw \<Rightarrow> map_sum id (take limit) (apply_ranking raw es))"

definition noop_rerank :: "evidence list \<Rightarrow> nat \<Rightarrow> evidence list" where
  "noop_rerank es limit = take limit es"

definition apply_reranker :: "bool \<Rightarrow> ranking option \<Rightarrow> evidence list \<Rightarrow> nat \<Rightarrow> exn + evidence list" where
  "apply_reranker enabled answer es limit =
     (if es = [] then Inr es else if enabled then llm_rerank answer es limit else Inr (noop_rerank es limit))"

definition is_expansion :: "evidence \<Rightarrow> bool" where
  "is_expansion e \<longleftrightarrow> ev_source e \<in> {''neighbour'', ''graph''}"

definition rerank_evidence :: "bool \<Rightarrow> nat \<Rightarrow> ranking option \<Rightarrow> evidence list \<Rightarrow> exn + evidence list" where
  "rerank_evidence enabled rerank_top_k answer es =
     (let primary = filter (\<lambda>e. \<not> is_expansion e) es; expansion = filter is_expansion es
      in if primary = [] then Inr es
         else case apply_reranker enabled answer primary (min (length primary) rerank_top_k) of
             Inl x \<Rightarrow> Inl x
           | Inr ordered \<Rightarrow>
               (let kept = ev_key ` set ordered
                in Inr (ordered @ filter (\<lambda>e. ev_key e \<notin> kept) primary @ expansion)))"

end
