(* ===== verification/PyRegex.thy ===== *)
theory PyRegex
  imports Dates
begin

text \<open>
  The part of Python's \<open>re\<close> the code uses, over an arbitrary type of characters: backtracking matching
  with greedy repetition, \<open>search\<close>, \<open>finditer\<close> and \<open>sub\<close>. A match state is the text before the
  position, reversed, and the text after it; \<open>rx_match\<close> lists the states a pattern can reach, the
  preferred one first, so the first is the match Python reports.
\<close>

datatype 'a rx =
    REps
  | RCls "'a \<Rightarrow> bool"
  | RSeq "'a rx" "'a rx"
  | RAlt "'a rx" "'a rx"
  | RStar "'a rx"
  | RBound "'a \<Rightarrow> bool"

text \<open>\<open>\b\<close>: between a word character and none.\<close>

definition at_boundary :: "('a \<Rightarrow> bool) \<Rightarrow> 'a list \<Rightarrow> 'a list \<Rightarrow> bool" where
  "at_boundary word p s \<longleftrightarrow> (p \<noteq> [] \<and> word (hd p)) \<noteq> (s \<noteq> [] \<and> word (hd s))"

text \<open>A repetition goes on only while it consumes something, as in Python.\<close>

function rx_match :: "'a rx \<Rightarrow> 'a list \<Rightarrow> 'a list \<Rightarrow> ('a list \<times> 'a list) list" where
  "rx_match REps p s = [(p, s)]"
| "rx_match (RCls f) p s = (case s of [] \<Rightarrow> [] | c # s' \<Rightarrow> if f c then [(c # p, s')] else [])"
| "rx_match (RSeq a b) p s = concat (map (\<lambda>q. rx_match b (fst q) (snd q)) (rx_match a p s))"
| "rx_match (RAlt a b) p s = rx_match a p s @ rx_match b p s"
| "rx_match (RStar a) p s =
     concat (map (\<lambda>q. if length (snd q) < length s then rx_match (RStar a) (fst q) (snd q) else [])
       (rx_match a p s)) @ [(p, s)]"
| "rx_match (RBound word) p s = (if at_boundary word p s then [(p, s)] else [])"
  by pat_completeness auto
termination
  by (relation "measures [\<lambda>(r, p, s). size r, \<lambda>(r, p, s). length s]") auto

declare rx_match.simps(3,5) [simp del]

lemma rx_match_seq_iff:
  "m \<in> set (rx_match (RSeq a b) p s) \<longleftrightarrow>
    (\<exists>p1 s1. (p1, s1) \<in> set (rx_match a p s) \<and> m \<in> set (rx_match b p1 s1))"
  unfolding rx_match.simps(3) set_concat set_map by force

lemma rx_match_star_iff:
  "m \<in> set (rx_match (RStar a) p s) \<longleftrightarrow> m = (p, s) \<or>
    (\<exists>p1 s1. (p1, s1) \<in> set (rx_match a p s) \<and> length s1 < length s \<and> m \<in> set (rx_match (RStar a) p1 s1))"
proof -
  let ?f = "\<lambda>q. if length (snd q) < length s then rx_match (RStar a) (fst q) (snd q) else []"
  have "m \<in> set (rx_match (RStar a) p s) \<longleftrightarrow> m = (p, s) \<or> (\<exists>q \<in> set (rx_match a p s). m \<in> set (?f q))"
    by (subst rx_match.simps(5)) (auto simp del: rx_match.simps)
  moreover have "m \<in> set (?f q) \<longleftrightarrow> length (snd q) < length s \<and> m \<in> set (rx_match (RStar a) (fst q) (snd q))" for q
    by simp
  ultimately show ?thesis by (metis prod.collapse fst_conv snd_conv)
qed

lemma rx_match_star_self: "(p, s) \<in> set (rx_match (RStar a) p s)"
  by (rule rx_match_star_iff[THEN iffD2]) simp

lemma rx_match_starI:
  assumes "(p1, s1) \<in> set (rx_match a p s)" "length s1 < length s" "m \<in> set (rx_match (RStar a) p1 s1)"
  shows "m \<in> set (rx_match (RStar a) p s)"
  by (rule rx_match_star_iff[THEN iffD2]) (use assms in blast)

definition rx_opt :: "'a rx \<Rightarrow> 'a rx" where
  "rx_opt r = RAlt r REps"

definition rx_plus :: "'a rx \<Rightarrow> 'a rx" where
  "rx_plus r = RSeq r (RStar r)"

definition rx_seq :: "'a rx list \<Rightarrow> 'a rx" where
  "rx_seq rs = foldr RSeq rs REps"

definition rx_any :: "'a rx list \<Rightarrow> 'a rx" where
  "rx_any rs = foldr RAlt rs (RCls (\<lambda>_. False))"

definition rx_lit :: "'a list \<Rightarrow> 'a rx" where
  "rx_lit w = rx_seq (map (\<lambda>c. RCls (\<lambda>x. x = c)) w)"

text \<open>\<open>search\<close>: the leftmost position with a match, as the state there and the one the match leads to.\<close>

fun rx_find :: "'a rx \<Rightarrow> 'a list \<Rightarrow> 'a list \<Rightarrow> (('a list \<times> 'a list) \<times> 'a list \<times> 'a list) option" where
  "rx_find r p s =
     (case rx_match r p s of
        m # _ \<Rightarrow> Some ((p, s), m)
      | [] \<Rightarrow> (case s of [] \<Rightarrow> None | c # s' \<Rightarrow> rx_find r (c # p) s'))"

definition rx_search :: "'a rx \<Rightarrow> 'a list \<Rightarrow> bool" where
  "rx_search r s \<longleftrightarrow> rx_find r [] s \<noteq> None"

text \<open>\<open>finditer\<close> and \<open>sub\<close> for patterns that match no empty text. The scan cuts the text into
  characters it passes over and matches it finds.\<close>

function rx_scan :: "'a rx \<Rightarrow> 'a list \<Rightarrow> 'a list \<Rightarrow> ('a + 'a list) list" where
  "rx_scan r p s =
     (case s of
        [] \<Rightarrow> []
      | c # s' \<Rightarrow>
          (case rx_match r p s of
             q # _ \<Rightarrow>
               if length (snd q) < length s
               then Inr (take (length s - length (snd q)) s) # rx_scan r (fst q) (snd q)
               else Inl c # rx_scan r (c # p) s'
           | [] \<Rightarrow> Inl c # rx_scan r (c # p) s'))"
  by pat_completeness auto
termination
  by (relation "measure (\<lambda>(r, p, s). length s)") auto

definition rx_finditer :: "'a rx \<Rightarrow> 'a list \<Rightarrow> 'a list list" where
  "rx_finditer r s = concat (map (\<lambda>x. case x of Inl _ \<Rightarrow> [] | Inr m \<Rightarrow> [m]) (rx_scan r [] s))"

definition rx_sub :: "'a rx \<Rightarrow> ('a list \<Rightarrow> 'a list) \<Rightarrow> 'a list \<Rightarrow> 'a list" where
  "rx_sub r f s = concat (map (\<lambda>x. case x of Inl c \<Rightarrow> [c] | Inr m \<Rightarrow> f m) (rx_scan r [] s))"

declare rx_find.simps [simp del] rx_scan.simps [simp del]

subsection \<open>What a pattern matches\<close>

primrec boundary_free :: "'a rx \<Rightarrow> bool" where
  "boundary_free REps = True"
| "boundary_free (RCls f) = True"
| "boundary_free (RSeq a b) = (boundary_free a \<and> boundary_free b)"
| "boundary_free (RAlt a b) = (boundary_free a \<and> boundary_free b)"
| "boundary_free (RStar a) = boundary_free a"
| "boundary_free (RBound w) = False"

primrec rx_lang :: "'a rx \<Rightarrow> 'a list set" where
  "rx_lang REps = {[]}"
| "rx_lang (RCls f) = {[c] |c. f c}"
| "rx_lang (RSeq a b) = {v @ w |v w. v \<in> rx_lang a \<and> w \<in> rx_lang b}"
| "rx_lang (RAlt a b) = rx_lang a \<union> rx_lang b"
| "rx_lang (RStar a) = {concat ws |ws. set ws \<subseteq> rx_lang a}"
| "rx_lang (RBound w) = {[]}"

lemma rx_match_sound:
  "(p', s') \<in> set (rx_match r p s) \<Longrightarrow> \<exists>w. w \<in> rx_lang r \<and> s = w @ s' \<and> p' = rev w @ p"
proof (induction r p s arbitrary: p' s' rule: rx_match.induct)
  case (2 f p s)
  then show ?case by (auto split: list.splits if_splits)
next
  case (3 a b p s)
  then obtain p1 s1 where one: "(p1, s1) \<in> set (rx_match a p s)" and two: "(p', s') \<in> set (rx_match b p1 s1)"
    by (auto simp: rx_match_seq_iff)
  obtain v where v: "v \<in> rx_lang a" "s = v @ s1" "p1 = rev v @ p"
    using "3.IH"(1)[OF one] by blast
  obtain w where w: "w \<in> rx_lang b" "s1 = w @ s'" "p' = rev w @ p1"
    using "3.IH"(2)[OF one, of p' s'] two by auto
  show ?case
    using v w by (intro exI[of _ "v @ w"]) auto
next
  case (4 a b p s)
  consider "(p', s') \<in> set (rx_match a p s)" | "(p', s') \<in> set (rx_match b p s)"
    using "4.prems" by auto
  then show ?case
  proof cases
    case 1
    show ?thesis using "4.IH"(1)[OF 1] by auto
  next
    case 2
    show ?thesis using "4.IH"(2)[OF 2] by auto
  qed
next
  case (5 a p s)
  then consider "(p', s') = (p, s)"
    | p1 s1 where "(p1, s1) \<in> set (rx_match a p s)" "length s1 < length s" "(p', s') \<in> set (rx_match (RStar a) p1 s1)"
    using "5.prems"[THEN rx_match_star_iff[THEN iffD1]] by blast
  then show ?case
  proof cases
    case 1
    then show ?thesis by (auto intro: exI[of _ "[]"])
  next
    case 2
    obtain v where v: "v \<in> rx_lang a" "s = v @ s1" "p1 = rev v @ p"
      using "5.IH"(1)[OF 2(1)] by blast
    obtain ws where ws: "set ws \<subseteq> rx_lang a" "s1 = concat ws @ s'" "p' = rev (concat ws) @ p1"
      using "5.IH"(2)[OF 2(1)] 2(2,3) by auto
    have "concat (v # ws) \<in> rx_lang (RStar a)"
      unfolding rx_lang.simps mem_Collect_eq by (rule exI[of _ "v # ws"]) (simp add: v(1) ws(1))
    then show ?thesis
      using v ws by (intro exI[of _ "concat (v # ws)"]) simp
  qed
qed (auto split: if_splits)

lemma rx_match_complete:
  "boundary_free r \<Longrightarrow> w \<in> rx_lang r \<Longrightarrow> (rev w @ p, t) \<in> set (rx_match r p (w @ t))"
proof (induction r arbitrary: w p t)
  case (RSeq a b)
  then obtain v u where w: "w = v @ u" "v \<in> rx_lang a" "u \<in> rx_lang b"
    by auto
  have "(rev v @ p, u @ t) \<in> set (rx_match a p (w @ t))"
    using RSeq.IH(1)[of v p "u @ t"] RSeq.prems(1) w by simp
  moreover have "(rev w @ p, t) \<in> set (rx_match b (rev v @ p) (u @ t))"
    using RSeq.IH(2)[of u "rev v @ p" t] RSeq.prems(1) w by simp
  ultimately show ?case
    unfolding rx_match_seq_iff by blast
next
  case (RStar a)
  then obtain ws where w: "w = concat ws" "set ws \<subseteq> rx_lang a"
    by auto
  have "(rev (concat ws) @ p, t) \<in> set (rx_match (RStar a) p (concat ws @ t))" if "set ws \<subseteq> rx_lang a" for ws p
    using that
  proof (induction ws arbitrary: p)
    case (Cons v vs)
    show ?case
    proof (cases "v = []")
      case True
      then show ?thesis using Cons by simp
    next
      case False
      have "(rev v @ p, concat vs @ t) \<in> set (rx_match a p (v @ concat vs @ t))"
        using RStar.IH[of v p "concat vs @ t"] RStar.prems(1) Cons.prems by simp
      moreover have "(rev (concat vs) @ rev v @ p, t) \<in> set (rx_match (RStar a) (rev v @ p) (concat vs @ t))"
        using Cons by simp
      ultimately show ?thesis
        using rx_match_starI[of "rev v @ p" "concat vs @ t" a p "v @ concat vs @ t"] False by simp
    qed
  qed (simp add: rx_match_star_self)
  then show ?case using w by simp
qed (auto split: if_splits)

section \<open>Substitution\<close>

lemma rx_scan_Cons:
  "rx_scan r p (c # s) =
     (case rx_match r p (c # s) of
        q # _ \<Rightarrow>
          if length (snd q) < length (c # s)
          then Inr (take (length (c # s) - length (snd q)) (c # s)) # rx_scan r (fst q) (snd q)
          else Inl c # rx_scan r (c # p) s
      | [] \<Rightarrow> Inl c # rx_scan r (c # p) s)"
  by (simp add: rx_scan.simps[of r p "c # s"])

lemma rx_find_Cons:
  "rx_find r p (c # s) = (case rx_match r p (c # s) of m # _ \<Rightarrow> Some ((p, c # s), m) | [] \<Rightarrow> rx_find r (c # p) s)"
  by (simp add: rx_find.simps[of r p "c # s"] split: list.split)

text \<open>What a scan reads, piece by piece.\<close>

fun piece :: "'a + 'a list \<Rightarrow> 'a list" where
  "piece (Inl c) = [c]"
| "piece (Inr m) = m"

lemma rx_scan_Nil [simp]: "rx_scan r p [] = []"
  by (simp add: rx_scan.simps)

lemma rx_scan_pieces: "concat (map piece (rx_scan r p s)) = s"
proof (induction s arbitrary: p rule: length_induct)
  case (1 s)
  show ?case
  proof (cases s)
    case (Cons c s')
    show ?thesis
    proof (cases "rx_match r p s")
      case Nil
      then show ?thesis
        using 1 Cons by (simp add: rx_scan_Cons)
    next
      case (Cons q qs)
      obtain w where w: "s = w @ snd q"
        using rx_match_sound[of "fst q" "snd q" r p s] Cons by auto
      have "take (length s - length (snd q)) s @ snd q = s"
        using arg_cong[OF w, of length] w by simp
      then show ?thesis
        using 1 Cons \<open>s = c # s'\<close> by (simp add: rx_scan_Cons)
    qed
  qed simp
qed

lemma rx_scan_cls: "rx_scan (RCls f) p s = map (\<lambda>c. if f c then Inr [c] else Inl c) s"
  by (induction s arbitrary: p) (simp_all add: rx_scan.simps)

lemma rx_sub_cls: "rx_sub (RCls f) g s = concat (map (\<lambda>c. if f c then g [c] else [c]) s)"
  by (induction s) (simp_all add: rx_sub_def rx_scan_cls)

lemma rx_sub_delete: "rx_sub (RCls f) (\<lambda>_. []) s = filter (\<lambda>c. \<not> f c) s"
  by (induction s) (simp_all add: rx_sub_cls)

lemma rx_sub_replace: "rx_sub (RCls f) (\<lambda>_. [d]) s = map (\<lambda>c. if f c then d else c) s"
  by (induction s) (simp_all add: rx_sub_cls)

text \<open>Where a scan passes over characters, no word of the language starts.\<close>

definition has_word :: "'a rx \<Rightarrow> 'a list \<Rightarrow> bool" where
  "has_word r s \<longleftrightarrow> (\<exists>u w v. s = u @ w @ v \<and> w \<in> rx_lang r)"

lemma has_wordI: "s = u @ w @ v \<Longrightarrow> w \<in> rx_lang r \<Longrightarrow> has_word r s"
  by (auto simp: has_word_def)

lemma rx_match_prefix: "rx_match r p s = (p', s') # qs \<Longrightarrow> \<exists>w. w \<in> rx_lang r \<and> s = w @ s' \<and> p' = rev w @ p"
  by (rule rx_match_sound) simp

lemma rx_search_word:
  assumes "boundary_free r"
  shows "rx_search r s \<longleftrightarrow> has_word r s"
proof -
  have sound: "rx_find r p s \<noteq> None \<Longrightarrow> has_word r s" for p
  proof (induction s arbitrary: p)
    case Nil
    then show ?case
      by (auto simp: rx_find.simps[of r p "[]"] split: list.splits dest!: rx_match_prefix intro: has_wordI[of _ "[]"])
  next
    case (Cons c s)
    show ?case
    proof (cases "rx_match r p (c # s)")
      case Nil
      then have "rx_find r (c # p) s \<noteq> None"
        using Cons.prems by (simp add: rx_find.simps[of r p "c # s"])
      then have "has_word r s" by (rule Cons.IH)
      then show ?thesis unfolding has_word_def by (metis append_Cons)
    next
      case (Cons q qs)
      then show ?thesis
        by (cases q) (auto dest!: rx_match_prefix intro: has_wordI[of _ "[]"])
    qed
  qed
  have complete: "rx_find r p (u @ w @ v) \<noteq> None" if "w \<in> rx_lang r" for p u w v
  proof (induction u arbitrary: p)
    case Nil
    have "rx_match r p (w @ v) \<noteq> []"
      using rx_match_complete[OF assms that, of p v] by auto
    then show ?case
      by (auto simp: rx_find.simps[of r p "w @ v"] split: list.splits)
  next
    case (Cons c u)
    then show ?case
      by (simp add: rx_find_Cons del: not_None_eq split: list.split)
  qed
  show ?thesis
    unfolding rx_search_def using sound[of "[]"] complete[of _ "[]"] by (auto simp: has_word_def)
qed

lemma rx_scan_passes:
  assumes "boundary_free r" "[] \<notin> rx_lang r" "w \<in> rx_lang r"
  shows "rx_scan r p s \<noteq> A @ map Inl w @ B"
proof (induction A arbitrary: p s)
  case Nil
  obtain c w' where w: "w = c # w'"
    using assms(2,3) by (cases w) auto
  show ?case
  proof
    assume scan: "rx_scan r p s = [] @ map Inl w @ B"
    have s: "s = w @ concat (map piece B)"
      using rx_scan_pieces[of r p s] unfolding scan by (simp add: comp_def)
    have "rx_match r p s \<noteq> []"
      using rx_match_complete[OF assms(1,3), of p "concat (map piece B)"] unfolding s by auto
    then obtain q qs where q: "rx_match r p s = q # qs"
      by (cases "rx_match r p s") auto
    obtain v where "v \<in> rx_lang r" "s = v @ snd q"
      using rx_match_prefix[of r p s "fst q" "snd q" qs] q by auto
    then have "length (snd q) < length s"
      using assms(2) by (cases v) auto
    then have "\<exists>m rest. rx_scan r p s = Inr m # rest"
      using q s w by (simp add: rx_scan_Cons)
    then show False using scan w by simp
  qed
next
  case (Cons a A)
  show ?case
  proof (cases s)
    case (Cons c s')
    then show ?thesis
      using Cons.IH by (auto simp: rx_scan_Cons split: list.split)
  qed simp
qed

text \<open>A constant replacement forges no word: what the scan passed over has none, and no word of the
  language can touch the replacement.\<close>

fun subst_piece :: "'a list \<Rightarrow> 'a + 'a list \<Rightarrow> 'a list" where
  "subst_piece rep (Inl c) = [c]"
| "subst_piece rep (Inr m) = rep"

lemma rx_sub_pieces: "rx_sub r (\<lambda>_. rep) s = concat (map (subst_piece rep) (rx_scan r [] s))"
proof -
  have "(case x of Inl c \<Rightarrow> [c] | Inr m \<Rightarrow> rep) = subst_piece rep x" for x :: "'a + 'a list"
    by (cases x) simp_all
  then show ?thesis by (simp add: rx_sub_def)
qed

lemma pieces_prefix:
  assumes "rep \<noteq> []" "hd rep \<notin> set w" "concat (map (subst_piece rep) xs) = w @ v"
  shows "\<exists>B. xs = map Inl w @ B"
  using assms(2,3)
proof (induction w arbitrary: xs)
  case (Cons c w)
  obtain x xs' where xs: "xs = x # xs'"
    using Cons.prems(2) by (cases xs) auto
  have "x = Inl c"
    using Cons.prems assms(1) unfolding xs by (cases x; cases rep) auto
  then show ?case
    using Cons.IH[of xs'] Cons.prems xs by auto
qed simp

lemma pieces_word:
  assumes "rep \<noteq> []" "hd rep \<notin> set w" "w \<noteq> []" "hd w \<notin> set rep"
    "concat (map (subst_piece rep) xs) = u @ w @ v"
  shows "\<exists>A B. xs = A @ map Inl w @ B"
  using assms(5)
proof (induction xs arbitrary: u)
  case Nil
  then show ?case using assms(3) by simp
next
  case (Cons x xs)
  show ?case
  proof (cases "u = []")
    case True
    then show ?thesis
      using pieces_prefix[OF assms(1,2) Cons.prems[unfolded True append_Nil]] by (metis append_Nil)
  next
    case False
    then obtain d u0 where u: "u = d # u0" by (cases u) auto
    have "\<exists>u'. concat (map (subst_piece rep) xs) = u' @ w @ v"
    proof (cases x)
      case (Inl c)
      then show ?thesis using Cons.prems u by auto
    next
      case (Inr m)
      then have eq: "rep @ concat (map (subst_piece rep) xs) = u @ w @ v"
        using Cons.prems by simp
      then obtain us where "rep = u @ us \<and> us @ concat (map (subst_piece rep) xs) = w @ v \<or>
          rep @ us = u \<and> concat (map (subst_piece rep) xs) = us @ w @ v"
        unfolding append_eq_append_conv2 by blast
      then show ?thesis
      proof (elim disjE conjE)
        assume split: "rep = u @ us" "us @ concat (map (subst_piece rep) xs) = w @ v"
        show ?thesis
        proof (cases us)
          case Nil
          then show ?thesis using split(2) by (intro exI[of _ "[]"]) simp
        next
          case (Cons e us')
          then have "hd w = e"
            using split(2) assms(3) by (cases w) auto
          then have "hd w \<in> set rep"
            using split(1) Cons by simp
          then show ?thesis using assms(4) by simp
        qed
      qed blast
    qed
    then obtain A B where "xs = A @ map Inl w @ B"
      using Cons.IH by blast
    then show ?thesis by (metis append_Cons)
  qed
qed

lemma rx_sub_no_word:
  assumes "boundary_free r" "rep \<noteq> []"
    "\<And>w. w \<in> rx_lang r \<Longrightarrow> w \<noteq> [] \<and> hd w \<notin> set rep \<and> hd rep \<notin> set w"
  shows "\<not> has_word r (rx_sub r (\<lambda>_. rep) s)"
proof
  assume "has_word r (rx_sub r (\<lambda>_. rep) s)"
  then obtain u w v where w: "concat (map (subst_piece rep) (rx_scan r [] s)) = u @ w @ v" "w \<in> rx_lang r"
    by (auto simp: has_word_def rx_sub_pieces)
  then obtain A B where "rx_scan r [] s = A @ map Inl w @ B"
    using pieces_word[of rep w] assms(2,3) by metis
  then show False
    using rx_scan_passes[OF assms(1) _ w(2)] assms(3)[of "[]"] by blast
qed

lemma rx_scan_plain:
  assumes "\<not> has_word r s"
  shows "rx_scan r p s = map Inl s"
  using assms
proof (induction s arbitrary: p)
  case (Cons c s)
  have "rx_match r p (c # s) = []"
  proof (cases "rx_match r p (c # s)")
    case (Cons q qs)
    then show ?thesis
      using \<open>\<not> has_word r (c # s)\<close> by (cases q) (auto dest!: rx_match_prefix intro: has_wordI[of _ "[]"])
  qed simp
  moreover have "\<not> has_word r s"
    using Cons.prems unfolding has_word_def by (metis append_Cons)
  ultimately show ?case
    using Cons.IH by (simp add: rx_scan.simps[of r p "c # s"])
qed simp

lemma rx_sub_plain: "\<not> has_word r s \<Longrightarrow> rx_sub r f s = s"
  by (simp add: rx_sub_def rx_scan_plain comp_def)

end
