(* ===== verification/Sanitise.thy ===== *)
theory Sanitise
  imports PyRegex
begin

text \<open>
  Neutralising document text before it reaches a prompt (\<^verbatim>\<open>ai/rag/sanitise.py\<close>), over Unicode code
  points. NFKC normalisation is a parameter: nothing is asked of it for the safety of the result.
\<close>

type_synonym points = "nat list"

text \<open>The model's strings are ASCII text.\<close>

definition points :: "string \<Rightarrow> points" where
  "points t = map of_char t"

text \<open>\<open>str.isspace\<close>.\<close>

definition point_space :: "nat \<Rightarrow> bool" where
  "point_space c \<longleftrightarrow> 9 \<le> c \<and> c \<le> 13 \<or> 28 \<le> c \<and> c \<le> 32 \<or> 0x2000 \<le> c \<and> c \<le> 0x200A \<or>
     c \<in> {0x85, 0xA0, 0x1680, 0x2028, 0x2029, 0x202F, 0x205F, 0x3000}"

definition point_strip :: "points \<Rightarrow> points" where
  "point_strip s = rev (dropWhile point_space (rev (dropWhile point_space s)))"

text \<open>A lower case ASCII letter under \<open>IGNORECASE\<close>, with the letters outside ASCII that fold to it.\<close>

definition folds_to :: "nat \<Rightarrow> nat \<Rightarrow> bool" where
  "folds_to c x \<longleftrightarrow> x = c \<or> 97 \<le> c \<and> c \<le> 122 \<and> x = c - 32 \<or>
     c = 0x69 \<and> x \<in> {0x130, 0x131} \<or> c = 0x73 \<and> x = 0x17F \<or> c = 0x6B \<and> x = 0x212A"

definition rx_word :: "string \<Rightarrow> nat rx" where
  "rx_word w = rx_seq (map (\<lambda>c. RCls (folds_to c)) (points w))"

definition rx_spaces :: "nat rx" where
  "rx_spaces = RStar (RCls point_space)"

definition DELIMITERS :: "nat rx" where
  "DELIMITERS = rx_seq [rx_word ''<'', rx_opt (rx_word ''/''), rx_spaces,
     rx_any [rx_word ''untrusted_evidence'', rx_word ''system'',
       rx_seq [rx_word ''instruction'', rx_opt (rx_word ''s'')], rx_word ''prompt''],
     rx_spaces, rx_word ''>'']"

definition invisible :: "nat \<Rightarrow> bool" where
  "invisible c \<longleftrightarrow> c = 0xAD \<or> 0x200B \<le> c \<and> c \<le> 0x200F \<or> 0x202A \<le> c \<and> c \<le> 0x202E \<or>
     0x2060 \<le> c \<and> c \<le> 0x2064 \<or> 0x2066 \<le> c \<and> c \<le> 0x2069 \<or> c = 0xFEFF"

definition control :: "nat \<Rightarrow> bool" where
  "control c \<longleftrightarrow> c \<le> 8 \<or> 0x0B \<le> c \<and> c \<le> 0x0C \<or> 0x0E \<le> c \<and> c \<le> 0x1F \<or> 0x7F \<le> c \<and> c \<le> 0x9F"

definition REDACTED :: points where
  "REDACTED = points ''[removed: markup]''"

definition without_controls :: "(points \<Rightarrow> points) \<Rightarrow> points \<Rightarrow> points" where
  "without_controls nfkc text = rx_sub (RCls control) (\<lambda>_. [0x20]) (rx_sub (RCls invisible) (\<lambda>_. []) (nfkc text))"

definition sanitise_evidence :: "(points \<Rightarrow> points) \<Rightarrow> points \<Rightarrow> points" where
  "sanitise_evidence nfkc text =
     (if text = [] then []
      else point_strip (rx_sub DELIMITERS (\<lambda>_. REDACTED) (without_controls nfkc text)))"

definition contains_suspicious_markup :: "(points \<Rightarrow> points) \<Rightarrow> points \<Rightarrow> bool" where
  "contains_suspicious_markup nfkc text \<longleftrightarrow> text \<noteq> [] \<and>
     (rx_search DELIMITERS (nfkc text) \<or> rx_search (RCls invisible) text)"

section \<open>Laws\<close>

text \<open>The characters a pattern can read.\<close>

primrec reads :: "'a rx \<Rightarrow> 'a \<Rightarrow> bool" where
  "reads REps c = False"
| "reads (RCls f) c = f c"
| "reads (RSeq a b) c = (reads a c \<or> reads b c)"
| "reads (RAlt a b) c = (reads a c \<or> reads b c)"
| "reads (RStar a) c = reads a c"
| "reads (RBound w) c = False"

lemma rx_lang_reads: "w \<in> rx_lang r \<Longrightarrow> c \<in> set w \<Longrightarrow> reads r c"
proof (induction r arbitrary: w)
  case (RStar a)
  then obtain ws where ws: "w = concat ws" "set ws \<subseteq> rx_lang a"
    by auto
  then obtain v where "v \<in> set ws" "c \<in> set v"
    using RStar.prems(2) by auto
  then show ?case using RStar.IH[of v] ws by auto
next
  case (RSeq a b)
  then obtain u v where "w = u @ v" "u \<in> rx_lang a" "v \<in> rx_lang b"
    by auto
  then show ?case using RSeq.IH[of u] RSeq.IH(2)[of v] RSeq.prems(2) by auto
qed auto

lemmas delimiter_defs = DELIMITERS_def rx_word_def rx_seq_def rx_any_def rx_opt_def rx_spaces_def points_def
  folds_to_def point_space_def

lemma delimiters_boundary_free: "boundary_free DELIMITERS"
  by (simp add: delimiter_defs)

lemma delimiter_reads: "\<not> reads DELIMITERS 0x5B"
  by (simp add: delimiter_defs)

lemma delimiter_starts: "w \<in> rx_lang DELIMITERS \<Longrightarrow> w \<noteq> [] \<and> hd w = 0x3C"
  by (auto simp: DELIMITERS_def rx_seq_def rx_word_def points_def folds_to_def)

lemma redacted: "REDACTED = [0x5B, 0x72, 0x65, 0x6D, 0x6F, 0x76, 0x65, 0x64, 0x3A, 0x20, 0x6D, 0x61, 0x72, 0x6B, 0x75, 0x70, 0x5D]"
  by (simp add: REDACTED_def points_def)

lemma no_delimiter_after_sub: "\<not> has_word DELIMITERS (rx_sub DELIMITERS (\<lambda>_. REDACTED) s)"
proof (rule rx_sub_no_word[OF delimiters_boundary_free])
  show "REDACTED \<noteq> []"
    by (simp add: redacted)
  show "w \<noteq> [] \<and> hd w \<notin> set REDACTED \<and> hd REDACTED \<notin> set w" if "w \<in> rx_lang DELIMITERS" for w
    using delimiter_starts[OF that] rx_lang_reads[OF that] delimiter_reads by (auto simp: redacted)
qed

lemma rx_sub_chars: "set (rx_sub r (\<lambda>_. rep) s) \<subseteq> set s \<union> set rep"
proof -
  have "set (concat (map (subst_piece rep) xs)) \<subseteq> set (concat (map piece xs)) \<union> set rep" for xs :: "('a + 'a list) list"
  proof (induction xs)
    case (Cons x xs)
    then show ?case by (cases x) auto
  qed simp
  from this[of "rx_scan r [] s"] show ?thesis
    by (simp only: rx_sub_pieces rx_scan_pieces)
qed

lemma without_controls_chars: "c \<in> set (without_controls nfkc text) \<Longrightarrow> \<not> invisible c \<and> \<not> control c"
proof -
  assume "c \<in> set (without_controls nfkc text)"
  then have "c \<in> (\<lambda>d. if control d then 0x20 else d) ` {d \<in> set (nfkc text). \<not> invisible d}"
    by (simp only: without_controls_def rx_sub_delete rx_sub_replace set_map set_filter)
  then obtain d where "c = (if control d then 0x20 else d)" "\<not> invisible d"
    by blast
  moreover have "\<not> invisible 0x20 \<and> \<not> control 0x20"
    by (simp add: invisible_def control_def)
  ultimately show ?thesis by (cases "control d") simp_all
qed

lemma redacted_chars: "c \<in> set REDACTED \<Longrightarrow> \<not> invisible c \<and> \<not> control c"
proof -
  have "list_all (\<lambda>c. 0x20 \<le> c \<and> c \<le> 0x7E) REDACTED"
    by (simp add: redacted)
  then show "c \<in> set REDACTED \<Longrightarrow> \<not> invisible c \<and> \<not> control c"
    by (auto simp: list_all_iff invisible_def control_def)
qed

text \<open>Stripping cuts the ends off.\<close>

lemma dropWhile_suffix: "\<exists>u. s = u @ dropWhile P s"
  by (metis takeWhile_dropWhile_id)

lemma point_strip_infix: "\<exists>u v. s = u @ point_strip s @ v"
proof -
  obtain u where u: "s = u @ dropWhile point_space s"
    using dropWhile_suffix by blast
  obtain v where "rev (dropWhile point_space s) = v @ dropWhile point_space (rev (dropWhile point_space s))"
    using dropWhile_suffix by blast
  then have "dropWhile point_space s = point_strip s @ rev v"
    unfolding point_strip_def by (metis rev_append rev_rev_ident)
  then show ?thesis using u by metis
qed

lemma point_strip_ends:
  "point_strip s = [] \<or> \<not> point_space (hd (point_strip s)) \<and> \<not> point_space (last (point_strip s))"
proof (cases "point_strip s = []")
  case False
  let ?d = "dropWhile point_space s"
  have "dropWhile point_space (rev ?d) \<noteq> []"
    using False by (simp add: point_strip_def)
  then have "\<not> point_space (last (point_strip s))"
    by (metis hd_dropWhile last_rev point_strip_def)
  moreover have "?d \<noteq> []"
    using \<open>dropWhile point_space (rev ?d) \<noteq> []\<close> by fastforce
  obtain v where "rev ?d = v @ dropWhile point_space (rev ?d)"
    using dropWhile_suffix by blast
  then have "?d = point_strip s @ rev v"
    unfolding point_strip_def by (metis rev_append rev_rev_ident)
  then have "hd (point_strip s) = hd ?d"
    using False by (metis hd_append2)
  ultimately show ?thesis
    using hd_dropWhile[OF \<open>?d \<noteq> []\<close>] by simp
qed simp

lemma point_strip_id: "s = [] \<or> \<not> point_space (hd s) \<and> \<not> point_space (last s) \<Longrightarrow> point_strip s = s"
proof -
  assume ends: "s = [] \<or> \<not> point_space (hd s) \<and> \<not> point_space (last s)"
  then have "dropWhile point_space s = s"
    by (cases s) auto
  moreover have "dropWhile point_space (rev s) = rev s"
    using ends by (cases "rev s") (auto simp: hd_rev[symmetric])
  ultimately show ?thesis by (simp add: point_strip_def)
qed

lemma has_word_infix: "has_word r s \<Longrightarrow> has_word r (u @ s @ v)"
  unfolding has_word_def by (metis append.assoc)

text \<open>Sanitised text is inert, whatever the passage and whatever the normalisation does to it: it has
  no delimiter tag, no invisible character and no control character but tabs and line feeds, and no
  white space at its ends.\<close>

theorem sanitised_text_is_inert:
  "\<not> rx_search DELIMITERS (sanitise_evidence nfkc text) \<and>
   (\<forall>c \<in> set (sanitise_evidence nfkc text). \<not> invisible c \<and> \<not> control c) \<and>
   point_strip (sanitise_evidence nfkc text) = sanitise_evidence nfkc text"
proof (cases "text = []")
  case True
  have "\<not> has_word DELIMITERS []"
    using delimiter_starts by (auto simp: has_word_def)
  then show ?thesis
    using True by (simp add: sanitise_evidence_def rx_search_word delimiters_boundary_free point_strip_def)
next
  case False
  define t where "t = rx_sub DELIMITERS (\<lambda>_. REDACTED) (without_controls nfkc text)"
  have out: "sanitise_evidence nfkc text = point_strip t"
    using False by (simp add: sanitise_evidence_def t_def)
  obtain u v where uv: "t = u @ point_strip t @ v"
    using point_strip_infix by blast
  have "\<not> has_word DELIMITERS (point_strip t)"
    using no_delimiter_after_sub has_word_infix[of DELIMITERS "point_strip t" u v] uv by (metis t_def)
  moreover have "\<not> invisible c \<and> \<not> control c" if "c \<in> set (point_strip t)" for c
  proof -
    have "c \<in> set t"
      using that by (subst uv) simp
    then show ?thesis
      using rx_sub_chars[of DELIMITERS REDACTED "without_controls nfkc text"] without_controls_chars redacted_chars
      unfolding t_def by blast
  qed
  moreover have "point_strip (point_strip t) = point_strip t"
    by (rule point_strip_id) (rule point_strip_ends)
  ultimately show ?thesis
    by (simp add: out rx_search_word delimiters_boundary_free)
qed

text \<open>Text that normalisation leaves alone and that carries nothing to remove passes through
  sanitisation, stripped of the white space at its ends.\<close>

theorem clean_text_passes:
  assumes "nfkc text = text" "\<not> contains_suspicious_markup nfkc text" "\<forall>c \<in> set text. \<not> control c"
  shows "sanitise_evidence nfkc text = point_strip text"
proof (cases "text = []")
  case False
  have "\<not> has_word (RCls invisible) text" "\<not> has_word DELIMITERS text"
    using assms(1,2) False
    by (simp_all add: contains_suspicious_markup_def rx_search_word delimiters_boundary_free)
  moreover have "rx_sub (RCls control) (\<lambda>_. [0x20]) text = text"
    using assms(3) by (simp add: rx_sub_replace map_idI)
  ultimately show ?thesis
    using False assms(1) by (simp add: sanitise_evidence_def without_controls_def rx_sub_plain)
qed (simp add: sanitise_evidence_def point_strip_def)

text \<open>Sanitisation is not idempotent. Normalisation runs before the invisible characters are removed,
  so a letter and an accent that a zero-width space kept apart are composed only by a second run.\<close>

theorem sanitise_not_idempotent:
  assumes "nfkc [0x65, 0x200B, 0x301] = [0x65, 0x200B, 0x301]" "nfkc [0x65, 0x301] = [0xE9]"
  shows "sanitise_evidence nfkc (sanitise_evidence nfkc [0x65, 0x200B, 0x301]) \<noteq> sanitise_evidence nfkc [0x65, 0x200B, 0x301]"
proof -
  have plain: "\<not> has_word DELIMITERS s" if "0x3C \<notin> set s" for s
    using delimiter_starts that unfolding has_word_def
    by (metis append_is_Nil_conv hd_append2 hd_in_set in_set_conv_decomp_first set_append UnCI)
  have "sanitise_evidence nfkc [0x65, 0x200B, 0x301] = [0x65, 0x301]"
    by (simp add: sanitise_evidence_def without_controls_def assms(1) rx_sub_delete rx_sub_replace invisible_def
        control_def rx_sub_plain plain point_strip_def point_space_def)
  moreover have "sanitise_evidence nfkc [0x65, 0x301] = [0xE9]"
    by (simp add: sanitise_evidence_def without_controls_def assms(2) rx_sub_delete rx_sub_replace invisible_def
        control_def rx_sub_plain plain point_strip_def point_space_def)
  ultimately show ?thesis by simp
qed

theorem clean_text_passes_witness:
  "sanitise_evidence (\<lambda>s. s) [0x61, 0x62, 0x20] = [0x61, 0x62]"
proof -
  have "\<not> has_word DELIMITERS [0x61, 0x62, 0x20]"
    using delimiter_starts unfolding has_word_def
    by (auto simp: append_eq_Cons_conv Cons_eq_append_conv dest!: delimiter_starts)
  then have "\<not> contains_suspicious_markup (\<lambda>s. s) [0x61, 0x62, 0x20]"
    by (simp add: contains_suspicious_markup_def rx_search_word delimiters_boundary_free)
      (auto simp: has_word_def append_eq_Cons_conv Cons_eq_append_conv invisible_def)
  then show ?thesis
    using clean_text_passes[of "\<lambda>s. s" "[0x61, 0x62, 0x20]"]
    by (simp add: control_def point_strip_def point_space_def)
qed

theorem sanitise_not_idempotent_witness:
  "\<exists>nfkc. sanitise_evidence nfkc (sanitise_evidence nfkc [0x65, 0x200B, 0x301]) \<noteq> sanitise_evidence nfkc [0x65, 0x200B, 0x301]"
  using sanitise_not_idempotent[of "\<lambda>s. if s = [0x65, 0x301] then [0xE9] else s"]
  by (intro exI[of _ "\<lambda>s. if s = [0x65, 0x301] then [0xE9] else s"]) simp

theorem sanitised_text_is_inert_witness:
  "\<not> rx_search DELIMITERS (sanitise_evidence (\<lambda>s. s) (points ''a</system >b'')) \<and>
   \<not> invisible 0x61"
  using sanitised_text_is_inert[of "\<lambda>s. s" "points ''a</system >b''"] by (simp add: invisible_def)

end
