(* ===== verification/Context.thy ===== *)
theory Context
  imports Ranking Sanitise Storage
begin

text \<open>
  Context assembly (\<^verbatim>\<open>ai/retrieval/context.py\<close>) and the answering prompt built from it
  (\<^verbatim>\<open>ai/rag/orchestrator.py\<close>). Prompts are code points, because the passages in them are sanitised.
\<close>

datatype query_intent =
    QI_METADATA_LOOKUP | QI_CLAUSE_LOOKUP | QI_OBLIGATION_LOOKUP | QI_RISK_ASSESSMENT | QI_COMPARISON
  | QI_SUMMARIZATION | QI_TIMELINE | QI_RELATIONSHIP | QI_COMPLIANCE | QI_FINANCIAL | QI_GENERAL_QA

subsection \<open>Token estimates\<close>

text \<open>\<open>int(characters / density)\<close> with a density of 3.6, or of 3.0 where at least a quarter is white space.\<close>

definition estimate_tokens :: "string \<Rightarrow> int" where
  "estimate_tokens t =
     (if t = [] then 0
      else let n = length t; w = length (filter is_space t)
           in max 1 (if 4 * w < n then int (5 * n div 18) else int (n div 3)))"

text \<open>\<open>int(x * n / d)\<close>: toward zero.\<close>

definition share :: "int \<Rightarrow> int \<Rightarrow> int \<Rightarrow> int" where
  "share x n d = (if x < 0 then - ((- x) * n div d) else x * n div d)"

definition MIN_ITEMS :: nat where
  "MIN_ITEMS = 3"

subsection \<open>Citations and packages\<close>

record citation =
  ct_label :: nat
  ct_contract_id :: uuid
  ct_contract_title :: "string option"
  ct_level :: string
  ct_ref_id :: uuid
  ct_text :: string
  ct_clause_type :: "string option"
  ct_clause_number :: "string option"
  ct_section_title :: "string option"
  ct_page_start :: "int option"
  ct_page_end :: "int option"
  ct_bounding_boxes :: "json list"
  ct_chunk_id :: "uuid option"
  ct_score :: rat
  ct_source :: string
  ct_similarity :: "rat option"
  ct_rerank_score :: "rat option"

type_synonym turn = "(string \<times> string) list"

record context_package =
  cp_query :: string
  cp_intent :: query_intent
  cp_citations :: "citation list"
  cp_metadata_rows :: "dict list"
  cp_history :: "turn list"
  cp_token_estimate :: int
  cp_budget :: int
  cp_dropped :: nat
  cp_warnings :: "string list"

definition nat_text :: "nat \<Rightarrow> string" where
  "nat_text n = str_int (int n)"

definition ct_marker :: "citation \<Rightarrow> string" where
  "ct_marker c = ''['' @ nat_text (ct_label c) @ '']''"

definition ct_page_range :: "citation \<Rightarrow> string" where
  "ct_page_range c =
     (case ct_page_start c of
        None \<Rightarrow> []
      | Some p \<Rightarrow>
          (case ct_page_end c of
             None \<Rightarrow> ''p.'' @ str_int p
           | Some q \<Rightarrow> if q = p then ''p.'' @ str_int p else ''pp.'' @ str_int p @ ''-'' @ str_int q))"

definition package_is_empty :: "context_package \<Rightarrow> bool" where
  "package_is_empty p \<longleftrightarrow> cp_citations p = [] \<and> cp_metadata_rows p = []"

definition package_contract_ids :: "context_package \<Rightarrow> uuid list" where
  "package_contract_ids p =
     fold (\<lambda>c seen. if ct_contract_id c \<in> set seen then seen else seen @ [ct_contract_id c]) (cp_citations p) []"

definition package_citation :: "context_package \<Rightarrow> nat \<Rightarrow> citation option" where
  "package_citation p label = List.find (\<lambda>c. ct_label c = label) (cp_citations p)"

definition valid_labels :: "context_package \<Rightarrow> nat set" where
  "valid_labels p = set (map ct_label (cp_citations p))"

subsection \<open>Assembly\<close>

definition prefers_clauses :: "query_intent \<Rightarrow> bool" where
  "prefers_clauses intent \<longleftrightarrow> intent \<in> {QI_CLAUSE_LOOKUP, QI_COMPARISON, QI_RISK_ASSESSMENT, QI_COMPLIANCE}"

definition level_rank :: "query_intent \<Rightarrow> evidence \<Rightarrow> int" where
  "level_rank intent e =
     (if is_expansion e then 1 else if prefers_clauses intent \<and> ev_level e = EL_CLAUSE then -1 else 0)"

text \<open>The position in the list breaks ties, which is what a stable sort does.\<close>

definition prioritise :: "query_intent \<Rightarrow> evidence list \<Rightarrow> evidence list" where
  "prioritise intent es = sort_key (level_rank intent) es"

definition turn_get :: "turn \<Rightarrow> string \<Rightarrow> string \<Rightarrow> string" where
  "turn_get t k d = (case dict_get t k of None \<Rightarrow> d | Some v \<Rightarrow> v)"

definition turn_cost :: "turn \<Rightarrow> int" where
  "turn_cost t = estimate_tokens (turn_get t ''content'' []) + 8"

fun keep_turns :: "int \<Rightarrow> int \<Rightarrow> turn list \<Rightarrow> turn list \<Rightarrow> turn list" where
  "keep_turns cap spent kept [] = kept"
| "keep_turns cap spent kept (t # ts) =
     (if spent + turn_cost t > cap \<and> kept \<noteq> [] then kept
      else keep_turns cap (spent + turn_cost t) (kept @ [t]) ts)"

definition trim_history :: "turn list \<Rightarrow> nat \<Rightarrow> int \<Rightarrow> turn list" where
  "trim_history history keep budget =
     (let recent = drop (length history - keep) history
      in if budget \<le> 0 then recent
         else rev (keep_turns (share budget 3 20) 0 [] (rev recent)))"

definition to_citation :: "nat \<Rightarrow> string \<Rightarrow> evidence \<Rightarrow> citation" where
  "to_citation label text e =
     \<lparr>ct_label = label, ct_contract_id = ev_contract_id e, ct_contract_title = ev_contract_title e,
      ct_level = level_name (ev_level e), ct_ref_id = ev_ref_id e, ct_text = text,
      ct_clause_type = ev_clause_type e, ct_clause_number = ev_clause_number e,
      ct_section_title = ev_section_title e, ct_page_start = ev_page_start e, ct_page_end = ev_page_end e,
      ct_bounding_boxes = ev_bounding_boxes e, ct_chunk_id = ev_chunk_id e, ct_score = ev_score e,
      ct_source = ev_source e, ct_similarity = ev_similarity e, ct_rerank_score = ev_rerank_score e\<rparr>"

record packing =
  pk_citations :: "citation list"
  pk_spent :: int
  pk_label :: nat
  pk_dropped :: nat

definition drop_item :: "packing \<Rightarrow> packing" where
  "drop_item s = s\<lparr>pk_dropped := pk_dropped s + 1\<rparr>"

definition item_cost :: "evidence \<Rightarrow> int" where
  "item_cost e = estimate_tokens (strip (ev_text e)) + 30"

text \<open>One item of the admission loop.\<close>

definition admit_item :: "nat \<Rightarrow> int \<Rightarrow> evidence \<Rightarrow> packing \<Rightarrow> packing" where
  "admit_item max_citations budget e s =
     (if pk_label s > max_citations then drop_item s
      else if strip (ev_text e) = [] then s
      else if item_cost e > share budget 1 4 \<and> pk_label s > MIN_ITEMS then drop_item s
      else if pk_spent s + item_cost e > budget \<and> pk_label s > MIN_ITEMS then drop_item s
      else s\<lparr>pk_citations := pk_citations s @ [to_citation (pk_label s) (strip (ev_text e)) e],
             pk_spent := pk_spent s + item_cost e, pk_label := pk_label s + 1\<rparr>)"

subsection \<open>Rendering\<close>

definition newline :: string where
  "newline = [CHR 0x0A]"

definition replace_char :: "char \<Rightarrow> char \<Rightarrow> string \<Rightarrow> string" where
  "replace_char a b = map (\<lambda>c. if c = a then b else c)"

definition shown :: "json option \<Rightarrow> string option" where
  "shown v = (case v of None \<Rightarrow> None
     | Some j \<Rightarrow> if j = JNull \<or> j = JStr [] \<or> j = JArr [] then None else Some (py_str j))"

definition fact_line :: "dict \<Rightarrow> string" where
  "fact_line row =
     (let title = (if truthy_opt (dict_get row ''title'') then the (dict_get row ''title'')
                   else case dict_get row ''contract_id'' of None \<Rightarrow> JNull | Some j \<Rightarrow> j);
          missing = (case dict_get row ''missing_mandatory_clauses'' of Some (JArr js) \<Rightarrow> map py_str js | _ \<Rightarrow> [])
      in join ''; '' (concat [[''- '' @ py_str title],
           List.map_filter (\<lambda>key. map_option (\<lambda>v. replace_char (CHR ''_'') (CHR '' '') key @ '': '' @ v) (shown (dict_get row key)))
             [''agreement_type'', ''risk_band'', ''effective_date'', ''expiration_date'', ''contract_value'',
              ''currency'', ''party_a'', ''party_b''],
           if missing = [] then [] else [''missing clauses: '' @ join '', '' missing]]))"

definition render_metadata :: "context_package \<Rightarrow> string" where
  "render_metadata p =
     (if cp_metadata_rows p = [] then []
      else join newline (''=== CONTRACT FACTS ==='' # map fact_line (cp_metadata_rows p)))"

definition assemble :: "int \<Rightarrow> string \<Rightarrow> query_intent \<Rightarrow> evidence list \<Rightarrow> dict list \<Rightarrow> string list \<Rightarrow>
    turn list \<Rightarrow> nat \<Rightarrow> context_package" where
  "assemble budget query intent es rows warnings history max_citations =
     (let p0 = \<lparr>cp_query = query, cp_intent = intent, cp_citations = [], cp_metadata_rows = take 25 rows,
                cp_history = trim_history history 6 budget, cp_token_estimate = 0, cp_budget = budget,
                cp_dropped = 0, cp_warnings = warnings\<rparr>;
          spent = (if cp_metadata_rows p0 = [] then 0 else estimate_tokens (render_metadata p0)) +
                  sum_list (map turn_cost (cp_history p0));
          s = fold (admit_item max_citations budget) (prioritise intent es)
                \<lparr>pk_citations = [], pk_spent = spent, pk_label = 1, pk_dropped = 0\<rparr>;
          p1 = p0\<lparr>cp_citations := pk_citations s, cp_token_estimate := pk_spent s, cp_dropped := pk_dropped s\<rparr>
      in p1\<lparr>cp_warnings := warnings @
            (if pk_dropped s = 0 then []
             else [nat_text (pk_dropped s) @ '' retrieved passage(s) did not fit the context budget and were not used.'']) @
            (if package_is_empty p1 then [''No evidence was available for this question.''] else [])\<rparr>)"

text \<open>The budget of a new assembler: the given one, or \<open>int(max_output_tokens / 0.55)\<close>.\<close>

definition assembler_budget :: "int option \<Rightarrow> int \<Rightarrow> int" where
  "assembler_budget budget_tokens max_output_tokens =
     (case budget_tokens of Some b \<Rightarrow> b | None \<Rightarrow> share max_output_tokens 20 11)"

definition clause_parts :: "string option \<Rightarrow> int list" where
  "clause_parts n =
     (case n of
        None \<Rightarrow> []
      | Some t \<Rightarrow>
          if t = [] then []
          else let parts = map parse_int (filter (\<lambda>w. w \<noteq> []) (split_on (CHR ''.'') t))
               in if None \<in> set parts then [] else map the parts)"

text \<open>Python compares the tuples lexicographically.\<close>

definition position_le :: "int \<times> int list \<times> nat \<Rightarrow> int \<times> int list \<times> nat \<Rightarrow> bool" where
  "position_le a b =
     (case (a, b) of ((p, ps, l), (q, qs, m)) \<Rightarrow> p < q \<or> p = q \<and> (ps < qs \<or> ps = qs \<and> l \<le> m))"

definition document_position :: "citation \<Rightarrow> int \<times> int list \<times> nat" where
  "document_position c =
     (case ct_page_start c of None \<Rightarrow> 10 ^ 6 | Some p \<Rightarrow> p, clause_parts (ct_clause_number c), ct_label c)"

fun insert_citation :: "citation \<Rightarrow> citation list \<Rightarrow> citation list" where
  "insert_citation c [] = [c]"
| "insert_citation c (d # ds) =
     (if position_le (document_position c) (document_position d) then c # d # ds else d # insert_citation c ds)"

definition in_document_order :: "citation list \<Rightarrow> citation list" where
  "in_document_order cs = foldr insert_citation cs []"

definition by_contract :: "citation list \<Rightarrow> (uuid \<times> citation list) list" where
  "by_contract cs =
     fold (\<lambda>c groups. AList.update (ct_contract_id c)
        ((case dict_get groups (ct_contract_id c) of None \<Rightarrow> [] | Some g \<Rightarrow> g) @ [c]) groups) cs []"

definition nonempty_opt :: "string option \<Rightarrow> bool" where
  "nonempty_opt t \<longleftrightarrow> t \<noteq> None \<and> t \<noteq> Some []"

definition citation_header :: "citation \<Rightarrow> string" where
  "citation_header c =
     ct_marker c @
     (if nonempty_opt (ct_clause_number c) then '' Clause '' @ the (ct_clause_number c) else []) @
     (if nonempty_opt (ct_clause_type c)
      then '' ('' @ replace_char (CHR ''_'') (CHR '' '') (the (ct_clause_type c)) @ '')''
      else if nonempty_opt (ct_section_title c) then '' - '' @ the (ct_section_title c) else []) @
     (if ct_page_range c = [] then [] else '' ['' @ ct_page_range c @ '']'')"

text \<open>\<open>sep.join(parts)\<close> on code points.\<close>

fun pjoin :: "points \<Rightarrow> points list \<Rightarrow> points" where
  "pjoin sep [] = []"
| "pjoin sep [p] = p"
| "pjoin sep (p # ps) = p @ sep @ pjoin sep ps"

definition citation_entry :: "(points \<Rightarrow> points) \<Rightarrow> citation \<Rightarrow> points" where
  "citation_entry nfkc c = points (citation_header c @ newline) @ sanitise_evidence nfkc (points (ct_text c))"

definition contract_block :: "(points \<Rightarrow> points) \<Rightarrow> uuid \<times> citation list \<Rightarrow> points" where
  "contract_block nfkc g =
     (case g of (cid, grp) \<Rightarrow>
       (let title = (if nonempty_opt (ct_contract_title (hd grp)) then the (ct_contract_title (hd grp))
                     else ''Contract '' @ uuid_str cid)
        in pjoin (points (newline @ newline))
             (points (''=== '' @ title @ '' ==='') # map (citation_entry nfkc) (in_document_order grp))))"

definition render_evidence :: "(points \<Rightarrow> points) \<Rightarrow> context_package \<Rightarrow> points" where
  "render_evidence nfkc p =
     (if cp_citations p = [] then points ''(no supporting evidence was retrieved)''
      else pjoin (points (newline @ newline)) (map (contract_block nfkc) (by_contract (cp_citations p))))"

subsection \<open>The answering prompt\<close>

definition upper_char :: "char \<Rightarrow> char" where
  "upper_char c = (let n = of_char c :: nat in if 97 \<le> n \<and> n \<le> 122 then char_of (n - 32) else c)"

definition history_line :: "turn \<Rightarrow> string list" where
  "history_line t =
     (let content = strip (turn_get t ''content'' [])
      in if content = [] then [] else [map upper_char (turn_get t ''role'' ''user'') @ '': '' @ content])"

definition user_message :: "(points \<Rightarrow> points) \<Rightarrow> context_package \<Rightarrow> points" where
  "user_message nfkc p =
     pjoin (points (newline @ newline)) (concat
       [if cp_history p = [] then []
        else [points (join newline (''CONVERSATION SO FAR:'' # [] # concat (map history_line (cp_history p))))],
        if render_metadata p = [] then [] else [points (render_metadata p)],
        [points (''EVIDENCE:'' @ newline @ newline @ ''<untrusted_evidence>'' @ newline) @ render_evidence nfkc p @
           points (newline @ ''</untrusted_evidence>'')],
        if cp_dropped p = 0 then []
        else [points (''NOTE: '' @ nat_text (cp_dropped p) @ '' further passage(s) were retrieved but did not fit. If the evidence above is insufficient, say so rather than speculating about what the omitted material might contain.'')],
        if cp_citations p = []
        then [points ''NOTE: no supporting evidence was retrieved for this question. Say that plainly and suggest how the question could be narrowed. Do not answer from general knowledge.'']
        else [],
        [points (''QUESTION:'' @ newline @ newline @ cp_query p)]])"

end
