(* ===== verification/Retrieval.thy ===== *)
theory Retrieval
  imports ChunkStore Context ContractQuery
begin

text \<open>
  The retrieval engine (\<^verbatim>\<open>ai/retrieval/engine.py\<close>) with the vector search it calls
  (\<^verbatim>\<open>repositories/embedding.py\<close>) and the plan it executes. The embedding provider, the distance operator of
  the vector extension, full-text ranking and the re-ranking model are fields of the environment. Rows an
  \<open>ORDER BY\<close> leaves tied keep the order of the table. Timings and metrics are left out.
\<close>

subsection \<open>Plans\<close>

datatype retrieval_strategy =
    RS_METADATA_ONLY | RS_METADATA_PLUS_DOCUMENT | RS_CLAUSE_RETRIEVAL | RS_CHUNK_RETRIEVAL
  | RS_GRAPH_TRAVERSAL | RS_HYBRID

datatype search_mode = SM_KEYWORD | SM_SEMANTIC | SM_HYBRID

record metadata_filter =
  mf_agreement_types :: "string list"
  mf_risk_bands :: "string list"
  mf_clause_types :: "string list"
  mf_parties :: "string list"
  mf_expiring_before :: "date option"
  mf_expiring_after :: "date option"
  mf_effective_after :: "date option"
  mf_has_unlimited_liability :: "bool option"
  mf_missing_mandatory :: "bool option"
  mf_contract_ids :: "uuid list"

definition filter_is_empty :: "metadata_filter \<Rightarrow> bool" where
  "filter_is_empty f \<longleftrightarrow> mf_agreement_types f = [] \<and> mf_risk_bands f = [] \<and> mf_clause_types f = [] \<and>
     mf_parties f = [] \<and> mf_expiring_before f = None \<and> mf_expiring_after f = None \<and> mf_effective_after f = None \<and>
     mf_has_unlimited_liability f = None \<and> mf_missing_mandatory f = None \<and> mf_contract_ids f = []"

definition vector_metadata :: "metadata_filter \<Rightarrow> dict" where
  "vector_metadata f =
     (if length (mf_agreement_types f) = 1 then [(''agreement_type'', JStr (hd (mf_agreement_types f)))] else []) @
     (if length (mf_risk_bands f) = 1 then [(''risk_band'', JStr (hd (mf_risk_bands f)))] else []) @
     (case mf_has_unlimited_liability f of None \<Rightarrow> [] | Some b \<Rightarrow> [(''has_unlimited_liability'', JBool b)])"

record level_budget =
  lb_level :: embedding_level
  lb_limit :: nat
  lb_min_similarity :: rat

record retrieval_plan =
  rp_query :: string
  rp_strategy :: retrieval_strategy
  rp_mode :: search_mode
  rp_project_ids :: "uuid list"
  rp_contract_ids :: "uuid list"
  rp_filters :: metadata_filter
  rp_levels :: "level_budget list"
  rp_neighbour_window :: int
  rp_graph_depth :: nat
  rp_rerank :: bool

definition is_scoped :: "retrieval_plan \<Rightarrow> bool" where
  "is_scoped plan \<longleftrightarrow> rp_project_ids plan \<noteq> []"

subsection \<open>Tables and environment\<close>

record embedding_row =
  em_project_id :: uuid
  em_contract_id :: uuid
  em_level :: embedding_level
  em_ref_id :: uuid
  em_vector :: "rat list"
  em_source_text :: "string option"
  em_model :: string
  em_filter_metadata :: dict

record clause_row =
  cl_id :: uuid
  cl_contract_id :: uuid
  cl_project_id :: uuid
  cl_chunk_id :: "uuid option"
  cl_clause_type :: string
  cl_text :: string
  cl_section_title :: "string option"
  cl_clause_number :: "string option"
  cl_page_start :: "int option"
  cl_page_end :: "int option"
  cl_bounding_boxes :: "json list"

record projection =
  pj_contract_id :: uuid
  pj_project_id :: uuid
  pj_risk_score :: "int option"
  pj_risk_band :: "string option"
  pj_effective_date :: "date option"
  pj_expiration_date :: "date option"
  pj_contract_value :: "rat option"
  pj_currency :: "string option"
  pj_party_a :: "string option"
  pj_party_b :: "string option"
  pj_has_unlimited_liability :: "bool option"
  pj_missing_mandatory_clauses :: "string list"

record edge_row =
  er_project_id :: uuid
  er_relation :: string
  er_source_ref :: string
  er_target_ref :: string

record retrieval_db =
  rd_embeddings :: "embedding_row list"
  rd_chunks :: "chunk_row list"
  rd_clauses :: "clause_row list"
  rd_contracts :: "contract_row list"
  rd_metadata :: "projection list"
  rd_edges :: "edge_row list"

text \<open>What the engine relies on and the source does not hold: \<open>None\<close> for a call that raised, \<open>None\<close> for a chunk
  the text query does not match. \<open>re_float\<close> places a float among the JSON values.\<close>

record retrieval_env =
  re_embed_query :: "string \<Rightarrow> rat list option"
  re_model :: string
  re_distance :: "rat list \<Rightarrow> rat list \<Rightarrow> rat"
  re_ts_rank :: "string \<Rightarrow> chunk_row \<Rightarrow> rat option"
  re_fts_down :: bool
  re_ranking :: "string \<Rightarrow> evidence list \<Rightarrow> ranking option"
  re_reranker_enabled :: bool
  re_rerank_top_k :: nat
  re_max_chunks :: nat
  re_float :: "rat \<Rightarrow> json"

subsection \<open>The metadata pre-filter\<close>

definition MAX_CANDIDATE_CONTRACTS :: nat where
  "MAX_CANDIDATE_CONTRACTS = 200"

definition nulls_last :: "('a \<Rightarrow> 'k :: linorder option) \<Rightarrow> 'a list \<Rightarrow> 'a list" where
  "nulls_last f xs = sort_key (\<lambda>x. the (f x)) (filter (\<lambda>x. f x \<noteq> None) xs) @ filter (\<lambda>x. f x = None) xs"

definition opt_in :: "string option \<Rightarrow> string list \<Rightarrow> bool" where
  "opt_in v xs = (case v of None \<Rightarrow> False | Some s \<Rightarrow> s \<in> set xs)"

definition opt_holds :: "('a \<Rightarrow> bool) \<Rightarrow> 'a option \<Rightarrow> bool" where
  "opt_holds P v = (case v of None \<Rightarrow> False | Some x \<Rightarrow> P x)"

definition prefilter_holds :: "retrieval_plan \<Rightarrow> projection \<times> contract_row \<Rightarrow> bool" where
  "prefilter_holds plan pc =
     (case pc of (m, c) \<Rightarrow>
       let f = rp_filters plan in
       pj_project_id m \<in> set (rp_project_ids plan) \<and> c_deleted_at c = None \<and>
       (rp_contract_ids plan = [] \<or> pj_contract_id m \<in> set (rp_contract_ids plan)) \<and>
       (mf_agreement_types f = [] \<or> opt_in (c_agreement_type c) (mf_agreement_types f)) \<and>
       (mf_risk_bands f = [] \<or> opt_in (pj_risk_band m) (mf_risk_bands f)) \<and>
       (case mf_has_unlimited_liability f of None \<Rightarrow> True | Some b \<Rightarrow> pj_has_unlimited_liability m = Some b) \<and>
       (mf_missing_mandatory f \<noteq> Some True \<or> pj_missing_mandatory_clauses m \<noteq> []) \<and>
       (case mf_expiring_after f of None \<Rightarrow> True | Some d \<Rightarrow> opt_holds (\<lambda>x. d \<le> x) (pj_expiration_date m)) \<and>
       (case mf_expiring_before f of None \<Rightarrow> True | Some d \<Rightarrow> opt_holds (\<lambda>x. x \<le> d) (pj_expiration_date m)) \<and>
       (case mf_effective_after f of None \<Rightarrow> True | Some d \<Rightarrow> opt_holds (\<lambda>x. d \<le> x) (pj_effective_date m)) \<and>
       (mf_parties f = [] \<or> list_ex (\<lambda>party. opt_ilike (CHR ''%'' # party @ ''%'') (pj_party_a m) \<or>
          opt_ilike (CHR ''%'' # party @ ''%'') (pj_party_b m)) (mf_parties f)))"

definition joined :: "retrieval_db \<Rightarrow> (projection \<times> contract_row) list" where
  "joined db = concat (map (\<lambda>m. map (Pair m) (filter (\<lambda>c. c_id c = pj_contract_id m) (rd_contracts db))) (rd_metadata db))"

definition opt_json :: "('a \<Rightarrow> json) \<Rightarrow> 'a option \<Rightarrow> json" where
  "opt_json f v = (case v of None \<Rightarrow> JNull | Some x \<Rightarrow> f x)"

definition payload_row :: "retrieval_env \<Rightarrow> projection \<times> contract_row \<Rightarrow> dict" where
  "payload_row env pc =
     (case pc of (m, c) \<Rightarrow>
       [(''contract_id'', JStr (uuid_str (pj_contract_id m))), (''title'', opt_json JStr (c_title c)),
        (''agreement_type'', opt_json JStr (c_agreement_type c)), (''risk_score'', opt_json JInt (pj_risk_score m)),
        (''risk_band'', opt_json JStr (pj_risk_band m)),
        (''effective_date'', opt_json (\<lambda>d. JStr (iso_date d)) (pj_effective_date m)),
        (''expiration_date'', opt_json (\<lambda>d. JStr (iso_date d)) (pj_expiration_date m)),
        (''contract_value'', case pj_contract_value m of None \<Rightarrow> JNull
           | Some v \<Rightarrow> if v = 0 then JNull else re_float env v),
        (''currency'', opt_json JStr (pj_currency m)), (''party_a'', opt_json JStr (pj_party_a m)),
        (''party_b'', opt_json JStr (pj_party_b m)),
        (''has_unlimited_liability'', opt_json JBool (pj_has_unlimited_liability m)),
        (''missing_mandatory_clauses'', JArr (map JStr (pj_missing_mandatory_clauses m)))])"

definition metadata_prefilter :: "retrieval_env \<Rightarrow> retrieval_plan \<Rightarrow> retrieval_db \<Rightarrow> uuid list \<times> dict list \<times> bool" where
  "metadata_prefilter env plan db =
     (let matching = filter (prefilter_holds plan) (joined db);
          rows = take (MAX_CANDIDATE_CONTRACTS + 1)
            (nulls_last (\<lambda>(m, c). map_option uminus (pj_risk_score m))
              (nulls_last (\<lambda>(m, c). pj_expiration_date m) (sort_key (\<lambda>(m, c). pj_contract_id m) matching)));
          kept = take MAX_CANDIDATE_CONTRACTS rows
      in (map (\<lambda>(m, c). pj_contract_id m) kept, map (payload_row env) kept, length rows > MAX_CANDIDATE_CONTRACTS))"

subsection \<open>The two legs\<close>

definition contains_dict :: "dict \<Rightarrow> dict \<Rightarrow> bool" where
  "contains_dict d f \<longleftrightarrow> list_all (\<lambda>(k, v). dict_get d k = Some v) f"

definition embedding_matches :: "retrieval_env \<Rightarrow> retrieval_plan \<Rightarrow> level_budget \<Rightarrow> uuid list \<Rightarrow> rat list \<Rightarrow> embedding_row \<Rightarrow> bool" where
  "embedding_matches env plan b candidates qv em \<longleftrightarrow>
     em_project_id em \<in> set (rp_project_ids plan) \<and> em_level em = lb_level b \<and>
     (candidates = [] \<or> em_contract_id em \<in> set candidates) \<and>
     (re_model env = [] \<or> em_model em = re_model env) \<and>
     contains_dict (em_filter_metadata em) (vector_metadata (rp_filters plan)) \<and>
     re_distance env (em_vector em) qv \<le> 1 - lb_min_similarity b"

definition embedding_search :: "retrieval_env \<Rightarrow> retrieval_plan \<Rightarrow> level_budget \<Rightarrow> uuid list \<Rightarrow> rat list \<Rightarrow> retrieval_db \<Rightarrow> embedding_row list" where
  "embedding_search env plan b candidates qv db =
     (if rp_project_ids plan = [] \<or> qv = [] then []
      else take (lb_limit b) (sort_key (\<lambda>em. re_distance env (em_vector em) qv)
        (filter (embedding_matches env plan b candidates qv) (rd_embeddings db))))"

definition blank_evidence :: "embedding_level \<Rightarrow> uuid \<Rightarrow> uuid \<Rightarrow> uuid \<Rightarrow> string \<Rightarrow> rat \<Rightarrow> string \<Rightarrow> evidence" where
  "blank_evidence level ref_id contract_id project_id text score source =
     \<lparr>ev_level = level, ev_ref_id = ref_id, ev_contract_id = contract_id, ev_project_id = project_id, ev_text = text,
      ev_score = score, ev_source = source, ev_rank = 0, ev_contract_title = None, ev_clause_type = None,
      ev_clause_number = None, ev_section_title = None, ev_page_start = None, ev_page_end = None,
      ev_bounding_boxes = [], ev_chunk_id = None, ev_metadata = [], ev_similarity = None, ev_rerank_score = None\<rparr>"

text \<open>The project of a hit is read from the vector row's metadata; without it the first project of the plan
  stands in. An ill-formed id raises.\<close>

definition hit_project :: "retrieval_plan \<Rightarrow> embedding_row \<Rightarrow> exn + uuid" where
  "hit_project plan em =
     (if truthy_opt (dict_get (em_filter_metadata em) ''project_id'')
      then case uuid_parse (py_str (the (dict_get (em_filter_metadata em) ''project_id''))) of
             None \<Rightarrow> Inl (PyErr ''ValueError'' ''badly formed hexadecimal UUID string'')
           | Some u \<Rightarrow> Inr u
      else Inr (hd (rp_project_ids plan)))"

definition vector_hit :: "retrieval_env \<Rightarrow> rat list \<Rightarrow> nat \<Rightarrow> uuid \<Rightarrow> embedding_row \<Rightarrow> evidence" where
  "vector_hit env qv rank project em =
     (let score = 1 - re_distance env (em_vector em) qv
      in (blank_evidence (em_level em) (em_ref_id em) (em_contract_id em) project
            (case em_source_text em of None \<Rightarrow> [] | Some t \<Rightarrow> t) score ''vector'')
           \<lparr>ev_rank := rank, ev_metadata := em_filter_metadata em, ev_similarity := Some score\<rparr>)"

fun vector_hits :: "retrieval_env \<Rightarrow> retrieval_plan \<Rightarrow> rat list \<Rightarrow> nat \<Rightarrow> embedding_row list \<Rightarrow> exn + evidence list" where
  "vector_hits env plan qv n [] = Inr []"
| "vector_hits env plan qv n (em # ems) =
     (case hit_project plan em of
        Inl e \<Rightarrow> Inl e
      | Inr pid \<Rightarrow>
          (case vector_hits env plan qv (n + 1) ems of
             Inl e \<Rightarrow> Inl e
           | Inr es \<Rightarrow> Inr (vector_hit env qv n pid em # es)))"

definition or_text :: "string \<Rightarrow> string \<Rightarrow> string" where
  "or_text a b = (if a = [] then b else a)"

definition hydrate_chunk :: "retrieval_db \<Rightarrow> evidence \<Rightarrow> evidence" where
  "hydrate_chunk db e =
     (case List.find (\<lambda>ck. ck_id ck = ev_ref_id e) (rd_chunks db) of
        None \<Rightarrow> e
      | Some ck \<Rightarrow> e\<lparr>ev_text := or_text (ev_text e) (ck_text ck), ev_section_title := ck_section_title ck,
          ev_clause_number := ck_clause_number ck, ev_page_start := ck_page_start ck, ev_page_end := ck_page_end ck,
          ev_bounding_boxes := ck_bounding_boxes ck, ev_chunk_id := Some (ck_id ck)\<rparr>)"

definition hydrate_clause :: "retrieval_db \<Rightarrow> evidence \<Rightarrow> evidence" where
  "hydrate_clause db e =
     (case List.find (\<lambda>cl. cl_id cl = ev_ref_id e) (rd_clauses db) of
        None \<Rightarrow> e
      | Some cl \<Rightarrow> e\<lparr>ev_text := or_text (ev_text e) (cl_text cl), ev_clause_type := Some (cl_clause_type cl),
          ev_clause_number := cl_clause_number cl, ev_section_title := cl_section_title cl,
          ev_page_start := cl_page_start cl, ev_page_end := cl_page_end cl,
          ev_bounding_boxes := cl_bounding_boxes cl, ev_chunk_id := cl_chunk_id cl\<rparr>)"

definition attach_title :: "retrieval_db \<Rightarrow> evidence \<Rightarrow> evidence" where
  "attach_title db e =
     (if ev_contract_title e \<noteq> None then e
      else e\<lparr>ev_contract_title := Option.bind (List.find (\<lambda>c. c_id c = ev_contract_id e) (rd_contracts db)) c_title\<rparr>)"

definition hydrate :: "retrieval_db \<Rightarrow> evidence list \<Rightarrow> evidence list" where
  "hydrate db es =
     map (attach_title db)
       (map (\<lambda>e. case ev_level e of EL_CHUNK \<Rightarrow> hydrate_chunk db e | EL_CLAUSE \<Rightarrow> hydrate_clause db e
                  | EL_DOCUMENT_SUMMARY \<Rightarrow> e) es)"

definition vector_search :: "retrieval_env \<Rightarrow> retrieval_plan \<Rightarrow> level_budget \<Rightarrow> uuid list \<Rightarrow> rat list \<Rightarrow> retrieval_db \<Rightarrow> exn + evidence list" where
  "vector_search env plan b candidates qv db =
     map_sum id (hydrate db) (vector_hits env plan qv 1 (embedding_search env plan b candidates qv db))"

definition keyword_hit :: "retrieval_env \<Rightarrow> string \<Rightarrow> nat \<times> chunk_row \<Rightarrow> evidence" where
  "keyword_hit env query rc =
     (case rc of (rank, ck) \<Rightarrow>
       (blank_evidence EL_CHUNK (ck_id ck) (ck_contract_id ck) (ck_project_id ck) (ck_text ck)
          (case re_ts_rank env query ck of None \<Rightarrow> 0 | Some r \<Rightarrow> r) ''keyword'')
         \<lparr>ev_rank := rank, ev_section_title := ck_section_title ck, ev_clause_number := ck_clause_number ck,
          ev_page_start := ck_page_start ck, ev_page_end := ck_page_end ck,
          ev_bounding_boxes := ck_bounding_boxes ck, ev_chunk_id := Some (ck_id ck)\<rparr>)"

definition keyword_search :: "retrieval_env \<Rightarrow> retrieval_plan \<Rightarrow> level_budget \<Rightarrow> uuid list \<Rightarrow> retrieval_db \<Rightarrow> evidence list" where
  "keyword_search env plan b candidates db =
     (if lb_level b = EL_DOCUMENT_SUMMARY \<or> re_fts_down env then []
      else map (keyword_hit env (rp_query plan)) (enumerate 1 (take (lb_limit b)
        (sort_key (\<lambda>ck. - the (re_ts_rank env (rp_query plan) ck))
          (filter (\<lambda>ck. ck_project_id ck \<in> set (rp_project_ids plan) \<and> re_ts_rank env (rp_query plan) ck \<noteq> None \<and>
              (candidates = [] \<or> ck_contract_id ck \<in> set candidates)) (rd_chunks db))))))"

subsection \<open>Expansion\<close>

definition by_level :: "embedding_level \<Rightarrow> evidence list \<Rightarrow> evidence list" where
  "by_level l es = filter (\<lambda>e. ev_level e = l) es"

definition neighbour_evidence :: "evidence \<Rightarrow> chunk_row \<Rightarrow> evidence" where
  "neighbour_evidence e ck =
     (blank_evidence EL_CHUNK (ck_id ck) (ck_contract_id ck) (ck_project_id ck) (ck_text ck) (ev_score e / 2) ''neighbour'')
       \<lparr>ev_section_title := ck_section_title ck, ev_clause_number := ck_clause_number ck,
        ev_page_start := ck_page_start ck, ev_page_end := ck_page_end ck, ev_bounding_boxes := ck_bounding_boxes ck,
        ev_chunk_id := Some (ck_id ck), ev_contract_title := ev_contract_title e\<rparr>"

definition seeds_by_project :: "evidence list \<Rightarrow> (uuid \<times> uuid list) list" where
  "seeds_by_project seeds =
     fold (\<lambda>e d. AList.update (ev_project_id e)
       ((case dict_get d (ev_project_id e) of None \<Rightarrow> [] | Some ids \<Rightarrow> ids) @ [the (ev_chunk_id e)]) d) seeds []"

text \<open>The chunks of the seeds and their neighbours, one pair of queries per project.\<close>

definition load_project :: "int \<Rightarrow> retrieval_db \<Rightarrow> uuid \<times> uuid list \<Rightarrow>
    (uuid \<times> chunk_row) list \<times> (uuid \<times> chunk_row list) list \<Rightarrow> (uuid \<times> chunk_row) list \<times> (uuid \<times> chunk_row list) list" where
  "load_project window db grp acc =
     (case (grp, acc) of ((pid, ids), (chunks_by_id, near)) \<Rightarrow>
       (let chunks = list_by_ids ids pid (rd_chunks db)
        in (dict_update chunks_by_id (map (\<lambda>ck. (ck_id ck, ck)) chunks),
            dict_update near (neighbours_for_many chunks pid window (rd_chunks db)))))"

text \<open>The neighbours of one seed that are not in the evidence yet.\<close>

definition fresh_neighbours :: "evidence \<Rightarrow> chunk_row list \<Rightarrow> uuid set \<times> evidence list \<Rightarrow> uuid set \<times> evidence list" where
  "fresh_neighbours e cks acc =
     fold (\<lambda>ck (seen, out). if ck_id ck \<in> seen then (seen, out)
        else (insert (ck_id ck) seen, out @ [neighbour_evidence e ck])) cks acc"

definition expand_neighbours :: "retrieval_env \<Rightarrow> retrieval_plan \<Rightarrow> retrieval_db \<Rightarrow> evidence list \<Rightarrow> evidence list" where
  "expand_neighbours env plan db es =
     (let seeds = filter (\<lambda>e. ev_chunk_id e \<noteq> None) (take (re_max_chunks env) (by_level EL_CHUNK es))
      in if seeds = [] then []
         else case fold (load_project (rp_neighbour_window plan) db) (seeds_by_project seeds) ([], []) of (chunks_by_id, near) \<Rightarrow>
           snd (fold (\<lambda>e acc.
               if dict_get chunks_by_id (the (ev_chunk_id e)) = None then acc
               else fresh_neighbours e
                 (case dict_get near (the (ev_chunk_id e)) of None \<Rightarrow> [] | Some cks \<Rightarrow> cks) acc)
             seeds (set (List.map_filter ev_chunk_id es), [])))"

definition edges_at :: "uuid \<Rightarrow> string \<Rightarrow> nat \<Rightarrow> retrieval_db \<Rightarrow> edge_row list" where
  "edges_at pid node limit db =
     take limit (filter (\<lambda>r. er_project_id r = pid \<and> (er_source_ref r = node \<or> er_target_ref r = node)) (rd_edges db))"

definition edge_target :: "string \<Rightarrow> edge_row \<Rightarrow> string" where
  "edge_target node r = (if er_source_ref r = node then er_target_ref r else er_source_ref r)"

definition graph_evidence :: "evidence \<Rightarrow> string \<Rightarrow> edge_row \<Rightarrow> clause_row \<Rightarrow> evidence" where
  "graph_evidence e node r cl =
     (blank_evidence EL_CLAUSE (cl_id cl) (cl_contract_id cl) (cl_project_id cl) (cl_text cl) (ev_score e * 2 / 5) ''graph'')
       \<lparr>ev_clause_type := Some (cl_clause_type cl), ev_clause_number := cl_clause_number cl,
        ev_section_title := cl_section_title cl, ev_page_start := cl_page_start cl, ev_page_end := cl_page_end cl,
        ev_bounding_boxes := cl_bounding_boxes cl, ev_contract_title := ev_contract_title e,
        ev_metadata := [(''via'', JStr (er_relation r)), (''from'', JStr node)]\<rparr>"

definition clause_at :: "uuid \<Rightarrow> uuid \<Rightarrow> string \<Rightarrow> retrieval_db \<Rightarrow> clause_row option" where
  "clause_at pid cid number db =
     List.find (\<lambda>cl. cl_project_id cl = pid \<and> cl_contract_id cl = cid \<and> cl_clause_number cl = Some number) (rd_clauses db)"

definition follow_edge :: "retrieval_db \<Rightarrow> evidence \<Rightarrow> string \<Rightarrow> edge_row \<Rightarrow> string set \<times> evidence list \<Rightarrow> string set \<times> evidence list" where
  "follow_edge db e node r acc =
     (case acc of (seen, out) \<Rightarrow>
       (let target = edge_target node r
        in if target = [] \<or> target \<in> seen then (seen, out)
           else (insert target seen,
             (case clause_at (ev_project_id e) (ev_contract_id e) target db of
                None \<Rightarrow> out
              | Some cl \<Rightarrow> out @ [graph_evidence e node r cl]))))"

definition expand_graph :: "retrieval_plan \<Rightarrow> retrieval_db \<Rightarrow> evidence list \<Rightarrow> evidence list" where
  "expand_graph plan db es =
     snd (fold (\<lambda>e acc.
         if \<not> nonempty_opt (ev_clause_number e) then acc
         else fold (follow_edge db e (the (ev_clause_number e)))
           (edges_at (ev_project_id e) (the (ev_clause_number e)) (rp_graph_depth plan * 5) db) acc)
       (take 10 (by_level EL_CLAUSE es)) ({}, []))"

subsection \<open>Execution\<close>

record retrieval_result =
  rr_evidence :: "evidence list"
  rr_candidate_contracts :: "uuid list"
  rr_metadata_rows :: "dict list"
  rr_counts :: "(string \<times> nat) list"
  rr_warnings :: "string list"
  rr_truncated :: bool
  rr_top_similarity :: "(embedding_level \<times> rat) list"

definition blank_result :: retrieval_result where
  "blank_result = \<lparr>rr_evidence = [], rr_candidate_contracts = [], rr_metadata_rows = [], rr_counts = [],
     rr_warnings = [], rr_truncated = False, rr_top_similarity = []\<rparr>"

definition answerable_similarity :: "retrieval_result \<Rightarrow> rat" where
  "answerable_similarity r =
     (let xs = map snd (filter (\<lambda>(l, q). l \<in> {EL_CLAUSE, EL_CHUNK}) (rr_top_similarity r))
      in if xs = [] then 0 else foldr max xs (hd xs))"

definition embed_query :: "retrieval_env \<Rightarrow> retrieval_plan \<Rightarrow> rat list option" where
  "embed_query env plan = (if rp_mode plan = SM_KEYWORD then None else re_embed_query env (rp_query plan))"

record descent =
  ds_evidence :: "evidence list"
  ds_candidates :: "uuid list"
  ds_narrowed :: "uuid list option"
  ds_top :: "(embedding_level \<times> rat) list"

definition max_score :: "evidence list \<Rightarrow> rat" where
  "max_score es = foldr max (map ev_score es) (ev_score (hd es))"

text \<open>One level of the hierarchy.\<close>

definition search_level :: "retrieval_env \<Rightarrow> retrieval_plan \<Rightarrow> retrieval_db \<Rightarrow> rat list option \<Rightarrow> level_budget \<Rightarrow>
    descent \<Rightarrow> exn + descent" where
  "search_level env plan db qv b s =
     (case (case qv of None \<Rightarrow> Inr [] | Some v \<Rightarrow> if v = [] then Inr [] else vector_search env plan b (ds_candidates s) v db) of
        Inl e \<Rightarrow> Inl e
      | Inr vs \<Rightarrow>
          (let ks = (if rp_mode plan = SM_SEMANTIC then [] else keyword_search env plan b (ds_candidates s) db);
               top = (if vs = [] then ds_top s
                      else AList.update (lb_level b)
                        (max (case dict_get (ds_top s) (lb_level b) of None \<Rightarrow> 0 | Some q \<Rightarrow> q) (max_score vs)) (ds_top s));
               merged = (case rp_mode plan of SM_SEMANTIC \<Rightarrow> vs | SM_KEYWORD \<Rightarrow> ks | SM_HYBRID \<Rightarrow> fuse vs ks (lb_limit b));
               s1 = s\<lparr>ds_evidence := ds_evidence s @ merged, ds_top := top\<rparr>
           in Inr (if lb_level b = EL_DOCUMENT_SUMMARY \<and> merged \<noteq> []
                   then let narrowed = take MAX_CANDIDATE_CONTRACTS (map ev_contract_id merged)
                        in s1\<lparr>ds_candidates := narrowed, ds_narrowed := Some narrowed\<rparr>
                   else s1)))"

fun search_levels :: "retrieval_env \<Rightarrow> retrieval_plan \<Rightarrow> retrieval_db \<Rightarrow> rat list option \<Rightarrow> level_budget list \<Rightarrow>
    descent \<Rightarrow> exn + descent" where
  "search_levels env plan db qv [] s = Inr s"
| "search_levels env plan db qv (b # bs) s =
     (case search_level env plan db qv b s of
        Inl e \<Rightarrow> Inl e
      | Inr s' \<Rightarrow> search_levels env plan db qv bs s')"

definition count_by_source :: "evidence list \<Rightarrow> (string \<times> nat) list" where
  "count_by_source es =
     fold (\<lambda>e d. AList.update (ev_source e) ((case dict_get d (ev_source e) of None \<Rightarrow> 0 | Some n \<Rightarrow> n) + 1) d) es []"

text \<open>Expansion, deduplication, titles and re-ranking of what the levels found.\<close>

definition finish_evidence :: "retrieval_env \<Rightarrow> retrieval_plan \<Rightarrow> retrieval_db \<Rightarrow> evidence list \<Rightarrow> exn + evidence list" where
  "finish_evidence env plan db es =
     (let es1 = (if rp_neighbour_window plan > 0 then es @ expand_neighbours env plan db es else es);
          es2 = (if rp_graph_depth plan > 0 then es1 @ expand_graph plan db es1 else es1);
          es3 = map (attach_title db) (deduplicate es2)
      in if rp_rerank plan \<and> es3 \<noteq> []
         then rerank_evidence (re_reranker_enabled env) (re_rerank_top_k env)
                (re_ranking env (rp_query plan) (filter (\<lambda>e. \<not> is_expansion e) es3)) es3
         else Inr es3)"

definition truncation_warning :: string where
  "truncation_warning = ''More than 200 contracts match this question, so results are ranked across the whole project rather than a pre-selected subset of it.''"

definition retrieve :: "retrieval_env \<Rightarrow> retrieval_plan \<Rightarrow> retrieval_db \<Rightarrow> exn + retrieval_result" where
  "retrieve env plan db =
     (if \<not> is_scoped plan
      then Inr (blank_result\<lparr>rr_warnings := [''You are not a member of any project in scope, so there is nothing to search.'']\<rparr>)
      else case metadata_prefilter env plan db of (found, rows, over) \<Rightarrow>
        (let warnings = (if over then [truncation_warning] else []);
             candidates = (if over then [] else found);
             r0 = blank_result\<lparr>rr_metadata_rows := rows, rr_truncated := over, rr_warnings := warnings,
                               rr_candidate_contracts := candidates\<rparr>
         in if rp_strategy plan = RS_METADATA_ONLY then Inr r0
            else if candidates = [] \<and> \<not> over \<and> \<not> filter_is_empty (rp_filters plan)
            then Inr (r0\<lparr>rr_warnings := warnings @ [''No contracts matched the filters implied by this question.'']\<rparr>)
            else let qv = embed_query env plan;
                     warnings1 = (if rp_mode plan \<noteq> SM_KEYWORD \<and> re_embed_query env (rp_query plan) = None
                       then warnings @ [''Semantic search was unavailable, so results are keyword-based only.''] else warnings)
                 in case search_levels env plan db qv (rp_levels plan)
                          \<lparr>ds_evidence = [], ds_candidates = candidates, ds_narrowed = None, ds_top = []\<rparr> of
                      Inl e \<Rightarrow> Inl e
                    | Inr s \<Rightarrow>
                        (case finish_evidence env plan db (ds_evidence s) of
                           Inl e \<Rightarrow> Inl e
                         | Inr es \<Rightarrow> Inr (r0\<lparr>rr_evidence := es, rr_warnings := warnings1, rr_counts := count_by_source es,
                                rr_top_similarity := ds_top s,
                                rr_candidate_contracts := (case ds_narrowed s of None \<Rightarrow> candidates | Some n \<Rightarrow> n)\<rparr>))))"

end
