(* ===== verification/Answers.thy ===== *)
theory Answers
  imports Context
begin

text \<open>
  The grounded answer (\<^verbatim>\<open>ai/rag/engine.py\<close>): citations are read out of the generated text and checked
  against the labels the context offered, fabricated ones are stripped, and confidence is computed from
  the grounding. The provider is a parameter: its response, a refusal, or a provider error.
\<close>

datatype response_format =
    RF_NATURAL_LANGUAGE | RF_JSON | RF_EXECUTIVE_SUMMARY | RF_RISK_REPORT | RF_COMPLIANCE_REPORT
  | RF_CLAUSE_COMPARISON | RF_TIMELINE | RF_ACTION_ITEMS | RF_CONTRACT_SUMMARY | RF_OBLIGATION_REPORT

datatype confidence_band = CB_HIGH | CB_MEDIUM | CB_LOW

definition band_from_score :: "rat \<Rightarrow> confidence_band" where
  "band_from_score q = (if 4 / 5 \<le> q then CB_HIGH else if 11 / 20 \<le> q then CB_MEDIUM else CB_LOW)"

subsection \<open>The prompt's envelope\<close>

fun intent_format :: "query_intent \<Rightarrow> response_format option" where
  "intent_format QI_SUMMARIZATION = Some RF_CONTRACT_SUMMARY"
| "intent_format QI_RISK_ASSESSMENT = Some RF_RISK_REPORT"
| "intent_format QI_COMPLIANCE = Some RF_COMPLIANCE_REPORT"
| "intent_format QI_COMPARISON = Some RF_CLAUSE_COMPARISON"
| "intent_format QI_TIMELINE = Some RF_TIMELINE"
| "intent_format QI_OBLIGATION_LOOKUP = Some RF_OBLIGATION_REPORT"
| "intent_format _ = None"

fun intent_prompt :: "query_intent \<Rightarrow> string" where
  "intent_prompt QI_SUMMARIZATION = ''rag.contract_summary''"
| "intent_prompt QI_RISK_ASSESSMENT = ''rag.risk_report''"
| "intent_prompt QI_COMPLIANCE = ''rag.compliance_report''"
| "intent_prompt QI_COMPARISON = ''rag.clause_comparison''"
| "intent_prompt QI_TIMELINE = ''rag.timeline''"
| "intent_prompt QI_OBLIGATION_LOOKUP = ''rag.obligation_report''"
| "intent_prompt _ = ''rag.qa''"

record generation_prompt =
  gp_user :: points
  gp_prompt_id :: string
  gp_response_format :: response_format
  gp_valid_labels :: "nat set"

definition build_prompt :: "(points \<Rightarrow> points) \<Rightarrow> context_package \<Rightarrow> response_format option \<Rightarrow> generation_prompt" where
  "build_prompt nfkc p fmt =
     \<lparr>gp_user = user_message nfkc p, gp_prompt_id = intent_prompt (cp_intent p),
      gp_response_format = (case fmt of Some f \<Rightarrow> f
        | None \<Rightarrow> (case intent_format (cp_intent p) of Some f \<Rightarrow> f | None \<Rightarrow> RF_NATURAL_LANGUAGE)),
      gp_valid_labels = valid_labels p\<rparr>"

subsection \<open>Citations in the text\<close>

definition digit :: "char \<Rightarrow> bool" where
  "digit c \<longleftrightarrow> c \<in> set ''0123456789''"

definition rx_digits :: "char rx" where
  "rx_digits = rx_plus (RCls digit)"

definition rx_blank :: "char rx" where
  "rx_blank = RStar (RCls is_space)"

definition CITATION :: "char rx" where
  "CITATION = rx_seq [rx_lit ''['', rx_digits, RStar (rx_seq [rx_blank, rx_lit '','', rx_blank, rx_digits]), rx_lit '']'']"

text \<open>The labels of one match: the group between the brackets, cut at the commas, each part read by \<open>int()\<close>.\<close>

definition group_labels :: "string \<Rightarrow> int list" where
  "group_labels m = List.map_filter (\<lambda>part. parse_int (strip part)) (split_on (CHR '','') (butlast (tl m)))"

definition cited_labels :: "string \<Rightarrow> int list" where
  "cited_labels t = concat (map group_labels (rx_finditer CITATION t))"

definition parse_citations :: "string \<Rightarrow> nat set \<Rightarrow> int set \<times> int set" where
  "parse_citations t valid = (set (cited_labels t) \<inter> int ` valid, set (cited_labels t) - int ` valid)"

definition label_text :: "int \<Rightarrow> string" where
  "label_text l = ''['' @ str_int l @ '']''"

definition strip_labels :: "string \<Rightarrow> int set \<Rightarrow> string" where
  "strip_labels t invalid =
     rx_sub CITATION (\<lambda>m. concat (map label_text (filter (\<lambda>l. l \<notin> invalid) (group_labels m)))) t"

subsection \<open>Confidence\<close>

record answer =
  an_text :: string
  an_citations :: "citation list"
  an_confidence :: rat
  an_confidence_band :: confidence_band
  an_response_format :: response_format
  an_refused :: bool
  an_refusal_category :: "string option"
  an_invalid_citations :: "int list"
  an_warnings :: "string list"
  an_prompt_id :: string
  an_needs_review :: bool

definition is_grounded :: "answer \<Rightarrow> bool" where
  "is_grounded a \<longleftrightarrow> an_citations a \<noteq> [] \<and> an_invalid_citations a = []"

definition measured :: "citation list \<Rightarrow> rat list" where
  "measured cs = List.map_filter (\<lambda>c. case ct_rerank_score c of Some r \<Rightarrow> Some r | None \<Rightarrow> ct_similarity c) cs"

definition evidence_strength :: "citation list \<Rightarrow> rat" where
  "evidence_strength cs =
     (if measured cs = [] then 1 / 2
      else max 0 (min (sum_list (measured cs) / of_nat (length (measured cs))) 1))"

text \<open>\<open>round(q, 4)\<close>.\<close>

definition round4 :: "rat \<Rightarrow> rat" where
  "round4 q = of_int (round_half_even (q * 10000)) / 10000"

definition confidence_of :: "answer \<Rightarrow> context_package \<Rightarrow> bool \<Rightarrow> rat" where
  "confidence_of a p honest =
     (if an_refused a then 0
      else if honest \<and> an_citations a = [] then (if cp_citations p \<noteq> [] then 3 / 4 else 3 / 5)
      else if an_citations a = [] then 3 / 20
      else let offered = max (length (cp_citations p)) 1;
               coverage = min (of_nat (length (an_citations a)) / of_nat (min offered 5)) 1;
               score = 11 / 20 * coverage + 9 / 20 * evidence_strength (an_citations a);
               score1 = (if an_invalid_citations a \<noteq> [] then score * (1 / 2) else score);
               score2 = (if cp_dropped p \<noteq> 0 then score1 * (9 / 10) else score1)
           in round4 (max 0 (min score2 1)))"

subsection \<open>Validation\<close>

definition TRIVIAL_ANSWER_CHARS :: nat where
  "TRIVIAL_ANSWER_CHARS = 160"

definition NON_ANSWER_MARKERS :: "string list" where
  "NON_ANSWER_MARKERS =
     [''does not address'', ''does not say'', ''does not specify'', ''does not contain'', ''is silent'',
      ''no evidence'', ''not covered by the retrieved'', ''retrieved material does not'', ''cannot answer'',
      ''could not find'', ''insufficient evidence'', ''no supporting evidence'']"

definition honest_non_answer :: "string \<Rightarrow> bool" where
  "honest_non_answer t \<longleftrightarrow> list_ex (\<lambda>m. contains_sub m (lower t)) NON_ANSWER_MARKERS"

definition fabricated_warning :: "int list \<Rightarrow> string" where
  "fabricated_warning invalid =
     ''The answer cited '' @ nat_text (length invalid) @ '' source(s) that were not provided ('' @
     join '', '' (map label_text invalid) @
     ''); those references were removed. Verify the answer against the cited pages.''"

definition uncited_warning :: string where
  "uncited_warning = ''The answer cites no supporting evidence, so it cannot be verified against the source documents.''"

definition subset_warning :: "nat \<Rightarrow> string" where
  "subset_warning n = nat_text n @
     '' retrieved passage(s) did not fit the context budget; this answer is based on the highest-scoring subset.''"

definition validate :: "string \<Rightarrow> context_package \<Rightarrow> generation_prompt \<Rightarrow> answer" where
  "validate text p prompt =
     (case parse_citations (strip text) (gp_valid_labels prompt) of (cited, invalid) \<Rightarrow>
       (let bad = sorted_list_of_set invalid;
            shown = (if bad = [] then strip text else strip_labels (strip text) invalid);
            cs = filter (\<lambda>c. int (ct_label c) \<in> cited) (cp_citations p);
            honest = honest_non_answer shown;
            uncited = (length shown > TRIVIAL_ANSWER_CHARS \<and> cited = {} \<and> \<not> honest);
            a = \<lparr>an_text = shown, an_citations = cs, an_confidence = 0, an_confidence_band = CB_LOW,
                 an_response_format = gp_response_format prompt, an_refused = False, an_refusal_category = None,
                 an_invalid_citations = bad, an_warnings = [], an_prompt_id = gp_prompt_id prompt,
                 an_needs_review = False\<rparr>;
            conf = confidence_of a p honest; band = band_from_score conf
        in a\<lparr>an_confidence := conf, an_confidence_band := band,
             an_needs_review := (bad \<noteq> [] \<or> uncited \<or> band = CB_LOW),
             an_warnings := (if bad = [] then [] else [fabricated_warning bad]) @
               (if uncited then [uncited_warning] else []) @
               (if cp_dropped p = 0 then [] else [subset_warning (cp_dropped p)]) @ cp_warnings p\<rparr>))"

definition blank_answer :: "string \<Rightarrow> generation_prompt \<Rightarrow> answer" where
  "blank_answer text prompt =
     \<lparr>an_text = text, an_citations = [], an_confidence = 0, an_confidence_band = CB_LOW,
      an_response_format = gp_response_format prompt, an_refused = False, an_refusal_category = None,
      an_invalid_citations = [], an_warnings = [], an_prompt_id = gp_prompt_id prompt, an_needs_review = False\<rparr>"

definition empty_answer :: "context_package \<Rightarrow> generation_prompt \<Rightarrow> answer" where
  "empty_answer p prompt =
     (blank_answer ''I could not find anything in the accessible contracts that answers this question. It may help to name a specific contract or clause, widen the date range, or check that the relevant document has finished processing.'' prompt)
       \<lparr>an_warnings := cp_warnings p\<rparr>"

definition refusal_text :: string where
  "refusal_text = ''The model declined to answer this question. This can happen when contract language resembles a restricted topic. Rephrasing the question, or narrowing it to a specific clause, usually resolves it.''"

text \<open>What the provider's call does: raise, decline, or return text.\<close>

datatype generation = GenError exn | GenRefused "string option" | GenText string

definition rag_answer :: "(points \<Rightarrow> points) \<Rightarrow> (generation_prompt \<Rightarrow> generation) \<Rightarrow> context_package \<Rightarrow>
    response_format option \<Rightarrow> exn + answer" where
  "rag_answer nfkc provider p fmt =
     (let prompt = build_prompt nfkc p fmt
      in if package_is_empty p then Inr (empty_answer p prompt)
         else case provider prompt of
           GenError e \<Rightarrow> Inl e
         | GenRefused cat \<Rightarrow> Inr ((blank_answer refusal_text prompt)
             \<lparr>an_refused := True, an_refusal_category := cat, an_needs_review := True\<rparr>)
         | GenText t \<Rightarrow> Inr (validate t p prompt))"

end
