(* ===== verification/QueryPlanner.thy ===== *)
theory QueryPlanner
  imports Retrieval Answers Exports
begin

text \<open>
  The retrieval planner (\<^verbatim>\<open>ai/retrieval/planner.py\<close>) with the settings it reads (\<open>RetrievalSettings\<close> of
  \<^verbatim>\<open>core/config.py\<close>). Patterns are matched on ASCII text. The list of reasons shown to the user and the
  \<open>method\<close> field, which nothing reads, are left out.
\<close>

subsection \<open>Settings\<close>

record retrieval_settings =
  st_max_documents :: nat
  st_max_clauses :: nat
  st_max_chunks :: nat
  st_min_similarity :: "rat option"
  st_min_similarity_document :: "rat option"
  st_min_similarity_clause :: "rat option"
  st_min_similarity_chunk :: "rat option"
  st_graph_max_depth :: nat
  st_reranker_enabled :: bool
  st_document_type_confidence_threshold :: rat
  st_answer_similarity_threshold :: rat
  st_copilot_top_k :: nat
  st_top_context_chunks :: nat

text \<open>\<open>st_min_similarity\<close> is \<open>None\<close> when the base setting was not supplied.\<close>

fun level_default :: "embedding_level \<Rightarrow> rat" where
  "level_default EL_DOCUMENT_SUMMARY = 7 / 20"
| "level_default EL_CLAUSE = 9 / 20"
| "level_default EL_CHUNK = 2 / 5"

definition similarity_floor :: "retrieval_settings \<Rightarrow> embedding_level \<Rightarrow> rat" where
  "similarity_floor st l =
     (let override = (case l of EL_DOCUMENT_SUMMARY \<Rightarrow> st_min_similarity_document st
                        | EL_CLAUSE \<Rightarrow> st_min_similarity_clause st | EL_CHUNK \<Rightarrow> st_min_similarity_chunk st)
      in case override of
           Some q \<Rightarrow> q
         | None \<Rightarrow> (case st_min_similarity st of Some q \<Rightarrow> q | None \<Rightarrow> level_default l))"

subsection \<open>Patterns\<close>

definition word_char :: "char \<Rightarrow> bool" where
  "word_char c \<longleftrightarrow> is_lower c \<or> is_upper c \<or> is_digit c \<or> c = CHR ''_''"

definition rx_words :: "char rx" where
  "rx_words = RStar (RCls word_char)"

text \<open>\<open>\b...\b\<close> around a pattern; a plain phrase; a stem followed by \<open>\w*\<close>; one followed by \<open>\w+\<close>.\<close>

definition rx_whole :: "char rx list \<Rightarrow> char rx" where
  "rx_whole rs = rx_seq ([RBound word_char] @ rs @ [RBound word_char])"

definition phrase :: "string \<Rightarrow> char rx" where
  "phrase w = rx_whole [rx_lit w]"

definition stem :: "string \<Rightarrow> char rx" where
  "stem w = rx_whole [rx_lit w, rx_words]"

definition stem_more :: "string \<Rightarrow> char rx" where
  "stem_more w = rx_whole [rx_lit w, RCls word_char, rx_words]"

definition rx_one_of :: "string list \<Rightarrow> char rx" where
  "rx_one_of ws = rx_any (map rx_lit ws)"

definition rx_no_case :: "string \<Rightarrow> char rx" where
  "rx_no_case w = rx_seq (map (\<lambda>c. RCls (\<lambda>x. lower_char x = c)) w)"

definition INTENT_PATTERNS :: "(query_intent \<times> char rx list) list" where
  "INTENT_PATTERNS =
     [(QI_COMPARISON,
        [phrase ''compare'', phrase ''versus'', rx_whole [rx_lit ''vs'', rx_opt (rx_lit ''.'')],
         phrase ''difference between'', phrase ''differ'',
         rx_whole [rx_lit ''which '', rx_one_of [''one'', ''contract''], rx_lit '' '', rx_one_of [''is'', ''has''],
           rx_lit '' '', rx_one_of [''better'', ''more'', ''less'']]]),
      (QI_TIMELINE,
        [stem ''expir'', stem ''renew'', phrase ''deadline'',
         rx_whole [rx_lit ''when '', rx_one_of [''does'', ''do'', ''will'', ''is'']],
         rx_whole [rx_lit ''next '', rx_any [rx_lit ''quarter'', rx_lit ''month'', rx_lit ''year'',
           rx_seq [rx_digits, rx_lit '' days'']]],
         phrase ''upcoming'', phrase ''timeline'', rx_whole [rx_lit ''due '', rx_one_of [''date'', ''by'']],
         phrase ''notice period'', phrase ''coming up'']),
      (QI_RISK_ASSESSMENT,
        [stem ''risk'', phrase ''exposure'', phrase ''unlimited liability'', phrase ''uncapped'', phrase ''dangerous'',
         stem ''concern'', phrase ''red flag'', phrase ''problematic'']),
      (QI_OBLIGATION_LOOKUP,
        [stem ''obligation'', phrase ''what must'',
         rx_whole [rx_lit ''who '', rx_opt (rx_lit ''is ''), rx_lit ''responsible''], phrase ''required to'',
         stem ''deliverable'', rx_whole [rx_lit ''we '', rx_one_of [''have'', ''need''], rx_lit '' to''],
         stem ''commitment'']),
      (QI_FINANCIAL,
        [stem ''fee'', stem ''price'', phrase ''payment'', stem ''cost'', phrase ''value'', phrase ''invoice'',
         phrase ''how much'', stem ''spend'', phrase ''budget'']),
      (QI_COMPLIANCE,
        [stem ''comply'', phrase ''compliance'', phrase ''gdpr'', stem_more ''regulat'', phrase ''policy'',
         phrase ''mandatory'', stem ''missing clause'', phrase ''audit'']),
      (QI_RELATIONSHIP,
        [phrase ''related to'', stem_more ''connect'', stem ''reference'', stem_more ''depend'', phrase ''linked'',
         stem ''amend'', stem ''supersede'', phrase ''schedule'']),
      (QI_SUMMARIZATION,
        [stem_more ''summar'', phrase ''overview'', phrase ''explain'',
         rx_whole [rx_lit ''what '', rx_one_of [''is'', ''are''], rx_lit '' this''],
         rx_whole [rx_lit ''key '', rx_one_of [''points'', ''terms'']], phrase ''tell me about'', stem ''brief'']),
      (QI_CLAUSE_LOOKUP,
        [stem ''clause'', rx_seq [RBound word_char, rx_lit ''section '', RCls digit], stem ''provision'', stem ''term'',
         stem_more ''indemnit'', stem_more ''liabilit'', stem_more ''terminat'', stem ''confidential'',
         phrase ''governing law'', stem_more ''warrant'', stem_more ''exclusiv'', stem_more ''assign'']),
      (QI_METADATA_LOOKUP,
        [phrase ''how many'', rx_whole [rx_lit ''list '', rx_one_of [''all'', ''the'', ''every'']],
         rx_whole [rx_lit ''show me '', rx_one_of [''all'', ''every'']], phrase ''count'', phrase ''which contracts'',
         phrase ''all contracts'', phrase ''filter''])]"

fun INTENT_STRATEGY :: "query_intent \<Rightarrow> retrieval_strategy" where
  "INTENT_STRATEGY QI_METADATA_LOOKUP = RS_METADATA_ONLY"
| "INTENT_STRATEGY QI_CLAUSE_LOOKUP = RS_CLAUSE_RETRIEVAL"
| "INTENT_STRATEGY QI_OBLIGATION_LOOKUP = RS_CLAUSE_RETRIEVAL"
| "INTENT_STRATEGY QI_RISK_ASSESSMENT = RS_METADATA_PLUS_DOCUMENT"
| "INTENT_STRATEGY QI_COMPARISON = RS_CLAUSE_RETRIEVAL"
| "INTENT_STRATEGY QI_SUMMARIZATION = RS_METADATA_PLUS_DOCUMENT"
| "INTENT_STRATEGY QI_TIMELINE = RS_METADATA_ONLY"
| "INTENT_STRATEGY QI_RELATIONSHIP = RS_GRAPH_TRAVERSAL"
| "INTENT_STRATEGY QI_COMPLIANCE = RS_METADATA_PLUS_DOCUMENT"
| "INTENT_STRATEGY QI_FINANCIAL = RS_HYBRID"
| "INTENT_STRATEGY QI_GENERAL_QA = RS_HYBRID"

definition CLAUSE_HINTS :: "(string \<times> string list) list" where
  "CLAUSE_HINTS =
     [(''limitation_of_liability'', [''liability'', ''liabilities'', ''cap'', ''capped'', ''uncapped'',
         ''consequential damages'', ''limitation of liability'']),
      (''indemnification'', [''indemnity'', ''indemnities'', ''indemnify'', ''indemnification'', ''hold harmless'']),
      (''intellectual_property'', [''ip'', ''intellectual property'', ''work product'', ''copyright'', ''patent'',
         ''ownership of work'']),
      (''payment_terms'', [''payment'', ''invoice'', ''net 30'', ''fees'', ''pay'', ''payable'']),
      (''term'', [''term'', ''duration'', ''how long'', ''commencement'']),
      (''auto_renewal'', [''renewal'', ''renew'', ''auto-renew'', ''evergreen'']),
      (''governing_law'', [''governing law'', ''jurisdiction'', ''applicable law'', ''venue'']),
      (''dispute_resolution'', [''arbitration'', ''dispute'', ''litigation'', ''mediation'', ''seat'']),
      (''confidentiality'', [''confidential'', ''nda'', ''non-disclosure'', ''secrecy'']),
      (''termination_for_convenience'', [''terminate for convenience'', ''termination for convenience'', ''walk away'', ''exit'']),
      (''termination_for_cause'', [''terminate for cause'', ''termination for cause'', ''breach'', ''cure period'']),
      (''force_majeure'', [''force majeure'', ''act of god'', ''pandemic'', ''epidemic'']),
      (''non_solicitation'', [''non-solicit'', ''non solicit'', ''poach'', ''solicitation'']),
      (''exclusivity'', [''exclusive'', ''exclusivity'']),
      (''assignment'', [''assign'', ''assignment'', ''change of control'', ''novation'']),
      (''audit_rights'', [''audit'', ''inspect'', ''records'']),
      (''insurance'', [''insurance'', ''coverage'', ''insured'']),
      (''data_protection'', [''gdpr'', ''data protection'', ''personal data'', ''privacy'', ''dpa'']),
      (''warranty'', [''warranty'', ''warranties'', ''represent'']),
      (''liquidated_damages'', [''liquidated damages'', ''penalty'', ''penalties'']),
      (''license_grant'', [''licence'', ''license'', ''grant of rights'']),
      (''survival'', [''survive'', ''survival'', ''surviving'']),
      (''notice'', [''notice'', ''notify'', ''notification''])]"

text \<open>A period: its pattern, whether it has the group of digits, and the days one unit has.\<close>

definition counted :: "string \<Rightarrow> string \<Rightarrow> char rx" where
  "counted lead unit = rx_whole [rx_lit lead, rx_digits, rx_lit unit, rx_opt (rx_lit ''s'')]"

definition PERIOD_PATTERNS :: "(char rx \<times> bool \<times> int) list" where
  "PERIOD_PATTERNS =
     [(counted ''next '' '' day'', True, 1), (counted ''next '' '' month'', True, 30), (counted ''next '' '' week'', True, 7),
      (phrase ''next quarter'', False, 90), (phrase ''next month'', False, 30), (phrase ''next year'', False, 365),
      (phrase ''this quarter'', False, 90), (phrase ''this month'', False, 30), (phrase ''this year'', False, 365),
      (counted ''within '' '' day'', True, 1), (counted ''coming '' '' month'', True, 30)]"

definition RISK_BANDS :: "string list" where
  "RISK_BANDS = [''high'', ''medium'', ''low'']"

definition CLAUSE_NUMBER :: "char rx" where
  "CLAUSE_NUMBER =
     rx_whole [rx_any [rx_no_case ''clause'', rx_no_case ''section'', rx_no_case ''article''],
       rx_plus (RCls is_space), rx_digits, RStar (rx_seq [rx_lit ''.'', rx_digits])]"

subsection \<open>The planner\<close>

record query_analysis =
  qa_intent :: query_intent
  qa_document_type :: "string option"
  qa_confidence :: rat

record document_type =
  dt_label :: string
  dt_agreement_type :: string

text \<open>A retrieval plan as the planner returns it.\<close>

record planned = retrieval_plan +
  pn_intent :: query_intent
  pn_scope :: search_scope

fun first_intent :: "(query_intent \<times> char rx list) list \<Rightarrow> string \<Rightarrow> query_intent option" where
  "first_intent [] t = None"
| "first_intent ((i, rs) # rest) t = (if list_ex (\<lambda>r. rx_search r t) rs then Some i else first_intent rest t)"

definition detect_intent :: "string \<Rightarrow> query_analysis option \<Rightarrow> query_intent" where
  "detect_intent query analysis =
     (case first_intent INTENT_PATTERNS (lower query) of
        Some i \<Rightarrow> i
      | None \<Rightarrow> (case analysis of
          Some a \<Rightarrow> if qa_intent a \<noteq> QI_GENERAL_QA then qa_intent a else QI_GENERAL_QA
        | None \<Rightarrow> QI_GENERAL_QA))"

definition with_document_type :: "retrieval_settings \<Rightarrow> string list \<Rightarrow> query_analysis option \<Rightarrow> document_type option \<Rightarrow> string list" where
  "with_document_type st explicit analysis dt =
     (if explicit \<noteq> [] then explicit
      else case dt of
        None \<Rightarrow> explicit
      | Some d \<Rightarrow>
          (let confidence = (case analysis of Some a \<Rightarrow> qa_confidence a | None \<Rightarrow> 0)
           in if confidence < st_document_type_confidence_threshold st then explicit else [dt_agreement_type d]))"

definition select_strategy :: "query_intent \<Rightarrow> string \<Rightarrow> search_scope \<Rightarrow> uuid list \<Rightarrow> bool \<Rightarrow> retrieval_strategy" where
  "select_strategy intent query scope contract_ids prefer_content =
     (let strategy = INTENT_STRATEGY intent
      in if rx_search CLAUSE_NUMBER query then RS_CLAUSE_RETRIEVAL
         else if prefer_content \<and> strategy = RS_METADATA_ONLY then RS_HYBRID
         else if scope = SC_CONTRACT \<and> strategy = RS_METADATA_ONLY then RS_HYBRID
         else if contract_ids \<noteq> [] \<and> strategy = RS_METADATA_ONLY then RS_HYBRID
         else strategy)"

text \<open>The digits of the match, as the group captures them; \<open>int()\<close> refuses more than 4300 of them and the
  pattern is skipped then.\<close>

definition matched_text :: "char rx \<Rightarrow> string \<Rightarrow> string option" where
  "matched_text r t = (case rx_find r [] t of None \<Rightarrow> None
     | Some ((p, s), (q, s')) \<Rightarrow> Some (take (length s - length s') s))"

definition group_digits :: "string \<Rightarrow> string" where
  "group_digits m = takeWhile digit (dropWhile (\<lambda>c. \<not> digit c) m)"

fun first_period :: "(char rx \<times> bool \<times> int) list \<Rightarrow> string \<Rightarrow> int option" where
  "first_period [] t = None"
| "first_period ((r, grouped, unit) # rest) t =
     (case matched_text r t of
        None \<Rightarrow> first_period rest t
      | Some m \<Rightarrow>
          if grouped
          then (if length (group_digits m) > 4300 then first_period rest t
                else Some (int (digits_value (group_digits m)) * unit))
          else Some unit)"

definition resolve_period :: "string \<Rightarrow> int option" where
  "resolve_period t = first_period PERIOD_PATTERNS t"

definition asks_for_band :: "string \<Rightarrow> string \<Rightarrow> bool" where
  "asks_for_band t band \<longleftrightarrow>
     rx_search (rx_whole [rx_lit band, rx_one_of [''-'', '' ''], rx_lit ''risk'']) t \<or>
     rx_search (rx_whole [rx_lit ''risk '', rx_opt (rx_one_of [''is '', ''band '']), rx_lit band]) t"

definition extract_filters :: "date \<Rightarrow> string \<Rightarrow> string list \<Rightarrow> uuid list \<Rightarrow> exn + metadata_filter" where
  "extract_filters today query agreement_types contract_ids =
     (let t = lower query;
          f = \<lparr>mf_agreement_types = agreement_types, mf_risk_bands = filter (asks_for_band t) RISK_BANDS,
               mf_clause_types = map fst (filter (\<lambda>(k, terms). list_ex (\<lambda>w. contains_sub w t) terms) CLAUSE_HINTS),
               mf_parties = [], mf_expiring_before = None, mf_expiring_after = None, mf_effective_after = None,
               mf_has_unlimited_liability =
                 (if rx_search (RAlt (stem ''unlimited liabilit'') (phrase ''uncapped'')) t then Some True else None),
               mf_missing_mandatory =
                 (if rx_search (RAlt (stem ''missing clause'') (RAlt (phrase ''missing mandatory'') (phrase ''incomplete''))) t
                  then Some True else None),
               mf_contract_ids = contract_ids\<rparr>
      in case resolve_period t of
           None \<Rightarrow> Inr f
         | Some window \<Rightarrow>
             (case date_plus today window of
                Inl e \<Rightarrow> Inl e
              | Inr until \<Rightarrow> Inr (f\<lparr>mf_expiring_after := Some today, mf_expiring_before := Some until\<rparr>)))"

definition budget_for :: "retrieval_settings \<Rightarrow> embedding_level \<Rightarrow> nat \<Rightarrow> level_budget" where
  "budget_for st l limit = \<lparr>lb_level = l, lb_limit = limit, lb_min_similarity = similarity_floor st l\<rparr>"

definition level_budgets :: "retrieval_settings \<Rightarrow> retrieval_strategy \<Rightarrow> search_scope \<Rightarrow> nat option \<Rightarrow> bool \<Rightarrow> level_budget list" where
  "level_budgets st strategy scope level_limit named_contracts =
     (let wide = (scope = SC_APPLICATION);
          limit = (\<lambda>default. case level_limit of None \<Rightarrow> default | Some n \<Rightarrow> n)
      in if strategy = RS_METADATA_ONLY then []
         else (if named_contracts then []
               else if strategy \<in> {RS_METADATA_PLUS_DOCUMENT, RS_HYBRID, RS_GRAPH_TRAVERSAL}
               then [budget_for st EL_DOCUMENT_SUMMARY (limit (st_max_documents st * (if wide then 2 else 1)))] else []) @
              (if strategy \<in> {RS_CLAUSE_RETRIEVAL, RS_HYBRID, RS_METADATA_PLUS_DOCUMENT, RS_GRAPH_TRAVERSAL}
               then [budget_for st EL_CLAUSE (limit (st_max_clauses st))] else []) @
              (if strategy \<in> {RS_CHUNK_RETRIEVAL, RS_HYBRID, RS_METADATA_PLUS_DOCUMENT, RS_CLAUSE_RETRIEVAL, RS_GRAPH_TRAVERSAL}
               then [budget_for st EL_CHUNK (limit (st_max_chunks st))] else []))"

definition neighbour_window :: "query_intent \<Rightarrow> int" where
  "neighbour_window intent =
     (if intent \<in> {QI_SUMMARIZATION, QI_COMPARISON} then 2
      else if intent \<in> {QI_METADATA_LOOKUP, QI_TIMELINE} then 0 else 1)"

text \<open>What a caller passes.\<close>

record plan_request =
  pq_project_ids :: "uuid list"
  pq_scope :: search_scope
  pq_contract_ids :: "uuid list"
  pq_mode :: search_mode
  pq_agreement_types :: "string list"
  pq_analysis :: "query_analysis option"
  pq_document_type :: "document_type option"
  pq_level_limit :: "nat option"
  pq_prefer_content :: bool
  pq_for_answer :: bool

definition plan_query :: "retrieval_settings \<Rightarrow> date \<Rightarrow> string \<Rightarrow> plan_request \<Rightarrow> exn + planned" where
  "plan_query st today query rq =
     (let t = strip query;
          types = with_document_type st (pq_agreement_types rq) (pq_analysis rq) (pq_document_type rq);
          intent = detect_intent t (pq_analysis rq);
          strategy = select_strategy intent t (pq_scope rq) (pq_contract_ids rq) (pq_prefer_content rq)
      in case extract_filters today t types (pq_contract_ids rq) of
           Inl e \<Rightarrow> Inl e
         | Inr f \<Rightarrow> Inr
             \<lparr>rp_query = t, rp_strategy = strategy, rp_mode = pq_mode rq, rp_project_ids = pq_project_ids rq,
              rp_contract_ids = pq_contract_ids rq, rp_filters = f,
              rp_levels = level_budgets st strategy (pq_scope rq) (pq_level_limit rq) (pq_contract_ids rq \<noteq> [] \<and> pq_for_answer rq),
              rp_neighbour_window = neighbour_window intent,
              rp_graph_depth = (if strategy = RS_GRAPH_TRAVERSAL then st_graph_max_depth st else 0),
              rp_rerank = (st_reranker_enabled st \<and> strategy \<noteq> RS_METADATA_ONLY),
              pn_intent = intent, pn_scope = pq_scope rq\<rparr>)"

end
