(* ===== verification/Copilot.thy ===== *)
theory Copilot
  imports QueryPlanner
begin

text \<open>
  The question pipeline of \<^verbatim>\<open>services/copilot.py\<close>: load the named contract, classify, plan, retrieve, retry
  without a type filter, apply the similarity guardrail, assemble the context and generate the answer. The
  classifier, the taxonomy and the model are fields of the environment. Timings, costs, metrics and log
  lines are left out, and so is the warm-up of the embedding cache, which cannot fail.
\<close>

subsection \<open>Wording\<close>

definition quoted :: "string \<Rightarrow> string" where
  "quoted t = [CHR 0x22] @ t @ [CHR 0x22]"

definition INSUFFICIENT_CONTEXT :: string where
  "INSUFFICIENT_CONTEXT =
     ''I couldn't find wording in this contract that answers that confidently, so I'd rather say so than guess.'' @
     newline @ newline @ ''Two things usually help:'' @ newline @ ''- Name the clause directly - '' @
     quoted ''What is the liability cap?'' @ '' rather than '' @ quoted ''Key risks?'' @
     ''. Broad questions match many passages weakly instead of one strongly, which is what this check measures.'' @
     newline @
     ''- Check the contract has finished processing. Clauses only become searchable once extraction and indexing complete.''"

definition GENERATION_UNAVAILABLE :: string where
  "GENERATION_UNAVAILABLE =
     ''The answer could not be generated just now - the language model is unavailable. The passages the search found are listed below; they are the evidence an answer would have been built from.''"

definition unsummarised_warning :: string where
  "unsummarised_warning =
     ''The answer could not be generated. The passages below are what the search found, unsummarised.''"

definition MODE_DOCUMENT_TYPE :: string where "MODE_DOCUMENT_TYPE = ''DocumentTypeFiltered''"
definition MODE_CONTRACT :: string where "MODE_CONTRACT = ''ContractScoped''"
definition MODE_UNFILTERED :: string where "MODE_UNFILTERED = ''Unfiltered''"

definition match_type :: "string \<Rightarrow> string" where
  "match_type source =
     (if source = ''vector'' then ''semantic'' else if source = ''keyword'' then ''keyword''
      else if source = ''fused'' then ''hybrid'' else if source \<in> {''neighbour'', ''graph''} then ''context''
      else source)"

subsection \<open>State\<close>

record copilot_env =
  ce_settings :: retrieval_settings
  ce_retrieval :: retrieval_env
  ce_today :: date
  ce_doc_types_known :: bool
  ce_analyse :: "string \<Rightarrow> query_analysis"
  ce_resolve :: "string \<Rightarrow> document_type option"
  ce_budget :: int
  ce_nfkc :: "points \<Rightarrow> points"
  ce_generate :: "generation_prompt \<Rightarrow> generation"

record preparation =
  pp_plan :: planned
  pp_retrieval :: retrieval_result
  pp_analysis :: query_analysis
  pp_document_type :: "document_type option"
  pp_retrieval_mode :: string
  pp_package :: "context_package option"
  pp_relaxed_filters :: bool

record source_ref =
  sr_contract_id :: uuid
  sr_contract_name :: "string option"
  sr_clause_heading :: "string option"
  sr_section_number :: "string option"
  sr_page_number :: "int option"
  sr_similarity_score :: "rat option"
  sr_text :: string
  sr_label :: nat
  sr_rerank_score :: "rat option"
  sr_match_type :: string

record copilot_result =
  cr_answer :: string
  cr_sources :: "source_ref list"
  cr_insufficient_context :: bool
  cr_generation_failed :: bool
  cr_document_type :: "string option"
  cr_document_type_detected :: bool
  cr_document_type_confidence :: rat
  cr_retrieval_mode :: string
  cr_retrieved_chunks :: nat
  cr_top_similarity :: rat
  cr_relaxed_filters :: bool
  cr_scope_truncated :: bool
  cr_confidence :: rat
  cr_confidence_band :: confidence_band
  cr_needs_review :: bool
  cr_refused :: bool
  cr_warnings :: "string list"

subsection \<open>Preparation\<close>

definition load_contract :: "uuid \<Rightarrow> uuid list \<Rightarrow> retrieval_db \<Rightarrow> exn + contract_row" where
  "load_contract cid project_ids db =
     (case List.find (\<lambda>c. c_id c = cid \<and> c_project_id c \<in> set project_ids \<and> c_deleted_at c = None) (rd_contracts db) of
        None \<Rightarrow> Inl (Identity.NotFoundError ''Contract'' (uuid_str cid))
      | Some c \<Rightarrow> Inr c)"

definition no_analysis :: query_analysis where
  "no_analysis = \<lparr>qa_intent = QI_GENERAL_QA, qa_document_type = None, qa_confidence = 0\<rparr>"

definition document_type_of :: "copilot_env \<Rightarrow> string \<Rightarrow> contract_row option \<Rightarrow> query_analysis \<times> document_type option" where
  "document_type_of env query contract =
     (case contract of
        Some c \<Rightarrow> (no_analysis\<lparr>qa_document_type := c_agreement_type c,
                     qa_confidence := (if nonempty_opt (c_agreement_type c) then 1 else 0)\<rparr>, None)
      | None \<Rightarrow>
          if \<not> ce_doc_types_known env then (no_analysis, None)
          else let a = ce_analyse env query
               in if \<not> nonempty_opt (qa_document_type a) then (a, None)
                  else (a, ce_resolve env (the (qa_document_type a))))"

definition copilot_mode :: "planned \<Rightarrow> document_type option \<Rightarrow> uuid option \<Rightarrow> string" where
  "copilot_mode pl dt cid =
     (if mf_agreement_types (rp_filters pl) \<noteq> [] \<and> dt \<noteq> None then MODE_DOCUMENT_TYPE
      else if cid \<noteq> None then MODE_CONTRACT else MODE_UNFILTERED)"

definition copilot_request :: "copilot_env \<Rightarrow> uuid list \<Rightarrow> uuid option \<Rightarrow> query_analysis \<Rightarrow> document_type option \<Rightarrow> plan_request" where
  "copilot_request env project_ids cid analysis dt =
     \<lparr>pq_project_ids = project_ids, pq_scope = (if cid \<noteq> None then SC_CONTRACT else SC_PROJECT),
      pq_contract_ids = (case cid of None \<Rightarrow> [] | Some c \<Rightarrow> [c]), pq_mode = SM_HYBRID, pq_agreement_types = [],
      pq_analysis = Some analysis, pq_document_type = dt, pq_level_limit = Some (st_copilot_top_k (ce_settings env)),
      pq_prefer_content = True, pq_for_answer = True\<rparr>"

text \<open>The guardrail and the assembly behind it.\<close>

definition clears_the_bar :: "copilot_env \<Rightarrow> retrieval_result \<Rightarrow> bool" where
  "clears_the_bar env r \<longleftrightarrow> rr_evidence r \<noteq> [] \<and>
     st_answer_similarity_threshold (ce_settings env) \<le> answerable_similarity r"

definition package_for :: "copilot_env \<Rightarrow> string \<Rightarrow> turn list \<Rightarrow> planned \<Rightarrow> retrieval_result \<Rightarrow> context_package option" where
  "package_for env query history pl r =
     (if clears_the_bar env r
      then Some (assemble (ce_budget env) query (pn_intent pl) (rr_evidence r) (rr_metadata_rows r) (rr_warnings r)
             history (st_top_context_chunks (ce_settings env)))
      else None)"

definition drop_types :: "planned \<Rightarrow> planned" where
  "drop_types pl = pl\<lparr>rp_filters := (rp_filters pl)\<lparr>mf_agreement_types := []\<rparr>\<rparr>"

definition prepare :: "copilot_env \<Rightarrow> retrieval_db \<Rightarrow> string \<Rightarrow> uuid list \<Rightarrow> uuid option \<Rightarrow> turn list \<Rightarrow> exn + preparation" where
  "prepare env db query project_ids cid history =
     (case (case cid of None \<Rightarrow> Inr None | Some c \<Rightarrow> map_sum id Some (load_contract c project_ids db)) of
        Inl e \<Rightarrow> Inl e
      | Inr contract \<Rightarrow>
          (case document_type_of env query contract of (analysis, dt) \<Rightarrow>
            (case plan_query (ce_settings env) (ce_today env) query (copilot_request env project_ids cid analysis dt) of
               Inl e \<Rightarrow> Inl e
             | Inr pl \<Rightarrow>
                 (case retrieve (ce_retrieval env) (retrieval_plan.truncate pl) db of
                    Inl e \<Rightarrow> Inl e
                  | Inr r \<Rightarrow>
                      if rr_evidence r = [] \<and> mf_agreement_types (rp_filters pl) \<noteq> []
                      then (case retrieve (ce_retrieval env) (retrieval_plan.truncate (drop_types pl)) db of
                              Inl e \<Rightarrow> Inl e
                            | Inr r' \<Rightarrow> Inr \<lparr>pp_plan = drop_types pl, pp_retrieval = r', pp_analysis = analysis,
                                pp_document_type = dt, pp_retrieval_mode = (if cid \<noteq> None then MODE_CONTRACT else MODE_UNFILTERED),
                                pp_package = package_for env query history (drop_types pl) r', pp_relaxed_filters = True\<rparr>)
                      else Inr \<lparr>pp_plan = pl, pp_retrieval = r, pp_analysis = analysis, pp_document_type = dt,
                             pp_retrieval_mode = copilot_mode pl dt cid,
                             pp_package = package_for env query history pl r, pp_relaxed_filters = False\<rparr>))))"

subsection \<open>Results\<close>

text \<open>\<open>str.title()\<close>.\<close>

fun title_from :: "bool \<Rightarrow> string \<Rightarrow> string" where
  "title_from inside [] = []"
| "title_from inside (c # cs) =
     (let letter = is_lower c \<or> is_upper c
      in (if inside then lower_char c else Context.upper_char c) # title_from letter cs)"

definition to_source :: "citation \<Rightarrow> source_ref" where
  "to_source c =
     \<lparr>sr_contract_id = ct_contract_id c, sr_contract_name = ct_contract_title c,
      sr_clause_heading =
        (if nonempty_opt (ct_section_title c) then ct_section_title c
         else if nonempty_opt (ct_clause_type c)
         then Some (title_from False (replace_char (CHR ''_'') (CHR '' '') (the (ct_clause_type c)))) else None),
      sr_section_number = ct_clause_number c, sr_page_number = ct_page_start c,
      sr_similarity_score = map_option round4 (ct_similarity c), sr_text = ct_text c, sr_label = ct_label c,
      sr_rerank_score = map_option round4 (ct_rerank_score c), sr_match_type = match_type (ct_source c)\<rparr>"

definition sources :: "context_package \<Rightarrow> citation list \<Rightarrow> source_ref list" where
  "sources package cited = map to_source (if cited = [] then cp_citations package else cited)"

text \<open>The fields every result takes from its preparation, \<open>_describe\<close> included.\<close>

definition base_result :: "preparation \<Rightarrow> string \<Rightarrow> copilot_result" where
  "base_result p answer =
     (let dt = (case pp_document_type p of Some d \<Rightarrow> Some (dt_label d) | None \<Rightarrow> qa_document_type (pp_analysis p))
      in \<lparr>cr_answer = answer, cr_sources = [], cr_insufficient_context = False, cr_generation_failed = False,
          cr_document_type = dt,
          cr_document_type_detected = (nonempty_opt dt \<and> pp_retrieval_mode p \<in> {MODE_DOCUMENT_TYPE, MODE_CONTRACT}),
          cr_document_type_confidence = round4 (qa_confidence (pp_analysis p)),
          cr_retrieval_mode = pp_retrieval_mode p, cr_retrieved_chunks = 0,
          cr_top_similarity = round4 (answerable_similarity (pp_retrieval p)),
          cr_relaxed_filters = pp_relaxed_filters p, cr_scope_truncated = rr_truncated (pp_retrieval p),
          cr_confidence = 0, cr_confidence_band = CB_LOW, cr_needs_review = False, cr_refused = False, cr_warnings = []\<rparr>)"

definition guardrail_result :: "preparation \<Rightarrow> copilot_result" where
  "guardrail_result p =
     (base_result p INSUFFICIENT_CONTEXT)
       \<lparr>cr_insufficient_context := True, cr_warnings := rr_warnings (pp_retrieval p)\<rparr>"

definition degraded_result :: "preparation \<Rightarrow> context_package \<Rightarrow> copilot_result" where
  "degraded_result p package =
     (base_result p GENERATION_UNAVAILABLE)
       \<lparr>cr_sources := sources package [], cr_generation_failed := True, cr_needs_review := True,
        cr_retrieved_chunks := length (cp_citations package), cr_warnings := [unsummarised_warning]\<rparr>"

definition finish :: "preparation \<Rightarrow> context_package \<Rightarrow> answer \<Rightarrow> copilot_result" where
  "finish p package a =
     (base_result p (an_text a))
       \<lparr>cr_sources := sources package (an_citations a), cr_retrieved_chunks := length (cp_citations package),
        cr_confidence := an_confidence a, cr_confidence_band := an_confidence_band a,
        cr_needs_review := an_needs_review a, cr_refused := an_refused a, cr_warnings := an_warnings a\<rparr>"

definition provider_error :: "exn \<Rightarrow> bool" where
  "provider_error e \<longleftrightarrow> exn_type e \<in> {''ProviderError'', ''ProviderUnavailableError'', ''ProviderRateLimitError''}"

definition copilot_answer :: "copilot_env \<Rightarrow> retrieval_db \<Rightarrow> string \<Rightarrow> uuid list \<Rightarrow> uuid option \<Rightarrow> turn list \<Rightarrow> exn + copilot_result" where
  "copilot_answer env db query project_ids cid history =
     (case prepare env db query project_ids cid history of
        Inl e \<Rightarrow> Inl e
      | Inr p \<Rightarrow>
          (case pp_package p of
             None \<Rightarrow> Inr (guardrail_result p)
           | Some package \<Rightarrow>
               (case rag_answer (ce_nfkc env) (ce_generate env) package None of
                  Inl e \<Rightarrow> if provider_error e then Inr (degraded_result p package) else Inl e
                | Inr a \<Rightarrow> Inr (finish p package a))))"

end
