(* ===== verification/RankingLaws.thy ===== *)
theory RankingLaws
  imports Ranking "HOL-Library.Sublist"
begin

text \<open>
  The laws of ranking: fusion is reciprocal rank fusion, deduplication keeps the best occurrence and
  one of each group of near duplicates, and re-ranking never loses or invents evidence.
\<close>

lemma ev_key_update [simp]:
  "ev_key (e\<lparr>ev_rank := i\<rparr>) = ev_key e" "ev_key (e\<lparr>ev_score := q\<rparr>) = ev_key e"
  "ev_key (e\<lparr>ev_similarity := s\<rparr>) = ev_key e" "ev_key (e\<lparr>ev_source := t\<rparr>) = ev_key e"
  "ev_key (e\<lparr>ev_metadata := d\<rparr>) = ev_key e" "ev_key (e\<lparr>ev_rerank_score := s\<rparr>) = ev_key e"
  "ev_key (e\<lparr>ev_contract_title := s'\<rparr>) = ev_key e"
  by (simp_all add: ev_key_def)

section \<open>Fusion\<close>

definition hit_sum :: "(nat \<times> evidence) list \<Rightarrow> embedding_level \<times> uuid \<Rightarrow> rat" where
  "hit_sum hits k = (\<Sum>(i, e)\<leftarrow>hits. if ev_key e = k then 1 / of_nat (RRF_K + i) else 0)"

text \<open>The specification: a passage scores \<open>1 / (60 + rank)\<close> in each leg that found it.\<close>

definition rrf :: "evidence list \<Rightarrow> evidence list \<Rightarrow> embedding_level \<times> uuid \<Rightarrow> rat" where
  "rrf vs ks k = hit_sum (enumerate 1 vs) k + hit_sum (enumerate 1 ks) k"

definition score_of :: "ev_scores \<Rightarrow> embedding_level \<times> uuid \<Rightarrow> rat" where
  "score_of scores k = (case dict_get scores k of None \<Rightarrow> 0 | Some s \<Rightarrow> s)"

lemma hit_sum_append: "hit_sum (xs @ ys) k = hit_sum xs k + hit_sum ys k"
  by (simp add: hit_sum_def)

definition fusion_ok :: "evidence set \<Rightarrow> ev_scores \<times> ev_items \<Rightarrow> bool" where
  "fusion_ok src acc \<longleftrightarrow> distinct (map fst (fst acc)) \<and> fst ` set (snd acc) = fst ` set (fst acc) \<and>
     (\<forall>k e. dict_get (snd acc) k = Some e \<longrightarrow> ev_key e = k \<and> e \<in> src)"

lemma dict_get_None: "dict_get d k = None \<longleftrightarrow> k \<notin> fst ` set d"
  by (simp add: dict_get_def map_of_eq_None_iff)

lemma fuse_hit_fst:
  "fst (fuse_hit (i, e) acc) = AList.update (ev_key e) (score_of (fst acc) (ev_key e) + 1 / of_nat (RRF_K + i)) (fst acc)"
  by (cases acc) (simp add: fuse_hit_def score_of_def Let_def)

lemma fuse_hit_snd:
  "snd (fuse_hit (i, e) acc) = AList.update (ev_key e) e (snd acc) \<or>
    snd (fuse_hit (i, e) acc) = snd acc \<and> ev_key e \<in> fst ` set (snd acc)"
  using dict_get_None[of "snd acc" "ev_key e"]
  by (cases acc) (auto simp: fuse_hit_def Let_def split: option.splits)

lemma fuse_hit_score: "score_of (fst (fuse_hit (i, e) acc)) k = score_of (fst acc) k + hit_sum [(i, e)] k"
  by (auto simp: fuse_hit_fst score_of_def dict_get_alist_update hit_sum_def)

lemma fuse_hit_dom: "fst ` set (fst (fuse_hit (i, e) acc)) = insert (ev_key e) (fst ` set (fst acc))"
  by (simp add: fuse_hit_fst dom_update)

lemma fuse_hit_ok:
  assumes "fusion_ok src acc" "e \<in> src"
  shows "fusion_ok src (fuse_hit (i, e) acc)"
proof -
  have "distinct (map fst (fst (fuse_hit (i, e) acc)))"
    using assms(1) by (simp add: fusion_ok_def fuse_hit_fst distinct_update)
  moreover have "fst ` set (snd (fuse_hit (i, e) acc)) = fst ` set (fst (fuse_hit (i, e) acc))"
    using fuse_hit_snd[of i e acc] assms(1)
    by (elim disjE conjE) (simp_all add: fusion_ok_def fuse_hit_dom dom_update insert_absorb)
  moreover have "ev_key e' = k \<and> e' \<in> src" if "dict_get (snd (fuse_hit (i, e) acc)) k = Some e'" for k e'
    using fuse_hit_snd[of i e acc] assms that
    by (elim disjE conjE) (auto simp: fusion_ok_def dict_get_alist_update simp del: split_paired_All split: if_splits)
  ultimately show ?thesis by (simp add: fusion_ok_def)
qed

lemma fuse_hits:
  assumes "fusion_ok src acc" "snd ` set hits \<subseteq> src"
  shows "fusion_ok src (fold fuse_hit hits acc) \<and>
    score_of (fst (fold fuse_hit hits acc)) k = score_of (fst acc) k + hit_sum hits k \<and>
    fst ` set (fst (fold fuse_hit hits acc)) = fst ` set (fst acc) \<union> ev_key ` snd ` set hits"
  using assms
proof (induction hits arbitrary: acc)
  case Nil
  then show ?case by (simp add: hit_sum_def)
next
  case (Cons h hits)
  obtain i e where h: "h = (i, e)" by force
  have ok: "fusion_ok src (fuse_hit (i, e) acc)"
    using Cons.prems h by (intro fuse_hit_ok) auto
  show ?case
    using Cons.IH[OF ok] Cons.prems(2) hit_sum_append[of "[h]" hits k]
    by (simp add: h fuse_hit_score fuse_hit_dom)
qed

definition hit_keys :: "evidence list \<Rightarrow> evidence list \<Rightarrow> (embedding_level \<times> uuid) set" where
  "hit_keys vs ks = ev_key ` (set vs \<union> set ks)"

lemma fuse_legs:
  fixes vs ks
  defines "acc \<equiv> fuse_leg ks (fuse_leg vs ([], []))"
  shows "distinct (map fst (fst acc))" "fst ` set (fst acc) = hit_keys vs ks"
    "score_of (fst acc) k = rrf vs ks k"
    "k \<in> hit_keys vs ks \<Longrightarrow> \<exists>e. dict_get (snd acc) k = Some e \<and> ev_key e = k \<and> e \<in> set vs \<union> set ks"
proof -
  let ?src = "set vs \<union> set ks" and ?a1 = "fuse_leg vs ([], [])"
  have start: "fusion_ok ?src ([], [])"
    by (simp add: fusion_ok_def dict_get_def)
  have snd_enumerate: "snd ` set (enumerate 1 es) = set es" for es :: "evidence list"
    by (metis list.set_map map_snd_enumerate)
  have one: "fusion_ok ?src ?a1" "score_of (fst ?a1) k = hit_sum (enumerate 1 vs) k" "fst ` set (fst ?a1) = ev_key ` set vs" for k
    using fuse_hits[OF start, of "enumerate 1 vs" k] snd_enumerate[of vs]
    by (simp_all add: fuse_leg_def score_of_def dict_get_def)
  have two: "fusion_ok ?src acc" "score_of (fst acc) k = rrf vs ks k" "fst ` set (fst acc) = hit_keys vs ks" for k
    using fuse_hits[OF one(1), of "enumerate 1 ks" k] snd_enumerate[of ks] one(2,3)
    by (simp_all add: acc_def fuse_leg_def rrf_def hit_keys_def image_Un)
  show "distinct (map fst (fst acc))" "fst ` set (fst acc) = hit_keys vs ks" "score_of (fst acc) k = rrf vs ks k"
    using two by (simp_all add: fusion_ok_def)
  assume "k \<in> hit_keys vs ks"
  then have "dict_get (snd acc) k \<noteq> None"
    using two(1,3) by (simp add: fusion_ok_def dict_get_None)
  then show "\<exists>e. dict_get (snd acc) k = Some e \<and> ev_key e = k \<and> e \<in> ?src"
    using two(1) by (auto simp: fusion_ok_def simp del: split_paired_All)
qed

lemma map_enumerate_snd: "map (\<lambda>x. f (snd x)) (enumerate n es) = map f es"
proof -
  have "map (\<lambda>x. f (snd x)) (enumerate n es) = map f (map snd (enumerate n es))"
    by (simp only: map_map comp_def)
  then show ?thesis
    by (simp only: map_snd_enumerate)
qed

lemma ranked_simps [simp]:
  "length (ranked es) = length es" "map ev_key (ranked es) = map ev_key es"
  "map ev_score (ranked es) = map ev_score es" "map ev_text (ranked es) = map ev_text es"
  "map ev_rank (ranked es) = [1..<Suc (length es)]"
proof -
  show "length (ranked es) = length es" "map ev_key (ranked es) = map ev_key es"
    "map ev_score (ranked es) = map ev_score es" "map ev_text (ranked es) = map ev_text es"
    by (simp_all add: ranked_def comp_def split_def map_enumerate_snd)
  have "map ev_rank (ranked es) = map fst (enumerate 1 es)"
    by (simp add: ranked_def comp_def split_def)
  then show "map ev_rank (ranked es) = [1..<Suc (length es)]"
    by (simp add: map_fst_enumerate)
qed

lemma set_ranked: "e \<in> set (ranked es) \<Longrightarrow> \<exists>e0 \<in> set es. \<exists>i. e = e0\<lparr>ev_rank := i\<rparr>"
  by (auto simp: ranked_def enumerate_eq_zip dest: set_zip_rightD)

text \<open>C35: Fusing the vector and the keyword leg is reciprocal rank fusion: every passage found by a
  leg is listed once, with the sum of \<open>1 / (60 + rank)\<close> over the legs that found it as its score; the
  list is ranked by that score and what the limit cuts off scores no better than what it keeps.\<close>

theorem fusion_is_reciprocal_rank:
  "distinct (map ev_key (fuse vs ks n)) \<and> set (map ev_key (fuse vs ks n)) \<subseteq> hit_keys vs ks \<and>
   length (fuse vs ks n) = min n (card (hit_keys vs ks)) \<and>
   (\<forall>e \<in> set (fuse vs ks n). ev_score e = rrf vs ks (ev_key e)) \<and>
   sorted_wrt (\<ge>) (map ev_score (fuse vs ks n)) \<and>
   (\<forall>e \<in> set (fuse vs ks n). \<forall>k \<in> hit_keys vs ks - set (map ev_key (fuse vs ks n)). rrf vs ks k \<le> ev_score e) \<and>
   map ev_rank (fuse vs ks n) = [1..<Suc (length (fuse vs ks n))]"
proof -
  obtain scores items where acc: "fuse_leg ks (fuse_leg vs ([], [])) = (scores, items)"
    by force
  note legs = fuse_legs[where vs = vs and ks = ks, unfolded acc fst_conv snd_conv]
  define order where "order = sort_key (\<lambda>ks. - snd ks) scores"
  have order: "mset order = mset scores" "set order = set scores" "length order = length scores"
    "sorted (map (\<lambda>ks. - snd ks) order)"
    by (simp_all add: order_def)
  have score: "s = rrf vs ks k" if "(k, s) \<in> set scores" for k s
  proof -
    have "dict_get scores k = Some s"
      using that legs(1) by (simp add: dict_get_def)
    then show ?thesis using legs(3)[of k] by (simp add: score_of_def)
  qed
  have item: "ev_key (fused_item vs ks items (k, s)) = k" "ev_score (fused_item vs ks items (k, s)) = s"
    if "(k, s) \<in> set scores" for k s
  proof -
    have "k \<in> hit_keys vs ks"
      using that legs(2) by force
    then obtain e where "dict_get items k = Some e" "ev_key e = k"
      using legs(4) by blast
    then show "ev_key (fused_item vs ks items (k, s)) = k" "ev_score (fused_item vs ks items (k, s)) = s"
      by (simp_all add: fused_item_def Let_def ev_key_def)
  qed
  define out where "out = map (fused_item vs ks items) (take n order)"
  have fuse: "fuse vs ks n = ranked out"
    by (simp add: fuse_def acc order_def out_def)
  have sub: "set (take n order) \<subseteq> set scores"
    using order(2) set_take_subset by metis
  have keys: "map ev_key out = map fst (take n order)" and scores: "map ev_score out = map snd (take n order)"
    using sub item by (auto simp: out_def)
  have "distinct (map fst order)"
    using legs(1) order(1) by (metis mset_map mset_eq_imp_distinct_iff)
  then have dist: "distinct (map ev_key out)"
    by (simp add: keys take_map[symmetric])
  have within: "set (map ev_key out) \<subseteq> hit_keys vs ks"
    using sub legs(2) by (force simp: keys)
  have len: "length out = min n (card (hit_keys vs ks))"
  proof -
    have "length scores = card (hit_keys vs ks)"
      using distinct_card[OF legs(1)] legs(2) by simp
    then show ?thesis
      using order(3) by (simp add: out_def)
  qed
  have exact: "\<forall>e \<in> set out. ev_score e = rrf vs ks (ev_key e)"
  proof
    fix e
    assume "e \<in> set out"
    then obtain k v where kv: "(k, v) \<in> set scores" "e = fused_item vs ks items (k, v)"
      using sub by (auto simp: out_def)
    show "ev_score e = rrf vs ks (ev_key e)"
      using item[OF kv(1)] score[OF kv(1)] by (simp add: kv(2))
  qed
  have desc: "sorted_wrt (\<ge>) (map snd order)"
    using order(4) by (simp add: sorted_wrt_map)
  have cut: "rrf vs ks k \<le> ev_score e" if e: "e \<in> set out" and k: "k \<in> hit_keys vs ks" "k \<notin> set (map ev_key out)" for e k
  proof -
    have "k \<in> fst ` set scores"
      using k(1) by (simp only: legs(2))
    then obtain s where in_scores: "(k, s) \<in> set scores"
      by (metis imageE surjective_pairing)
    then have s: "(k, s) \<in> set order" "s = rrf vs ks k"
      using score order(2) by simp_all
    have "(k, s) \<notin> set (take n order)"
    proof
      assume "(k, s) \<in> set (take n order)"
      then have "k \<in> set (map fst (take n order))"
        by (simp add: rev_image_eqI)
      then show False using k(2) keys by simp
    qed
    have "(k, s) \<in> set (drop n order)"
    proof -
      have "set order = set (take n order) \<union> set (drop n order)"
        by (simp only: set_append[symmetric] append_take_drop_id)
      then show ?thesis using s(1) \<open>(k, s) \<notin> set (take n order)\<close> by blast
    qed
    moreover have "ev_score e \<in> set (map snd (take n order))"
      using e by (simp only: scores[symmetric] list.set_map imageI)
    moreover have "sorted_wrt (\<ge>) (map snd (take n order) @ map snd (drop n order))"
      using desc by (simp only: map_append[symmetric] append_take_drop_id)
    ultimately have "snd (k, s) \<le> ev_score e"
      unfolding sorted_wrt_append by (metis image_eqI list.set_map)
    then show ?thesis using s(2) by simp
  qed
  have "sorted_wrt (\<ge>) (map ev_score out)"
    using desc by (simp add: scores take_map[symmetric] sorted_wrt_take)
  moreover have "\<forall>e \<in> set (ranked out). ev_score e = rrf vs ks (ev_key e)"
    using exact by (auto dest!: set_ranked)
  moreover have "\<forall>e \<in> set (ranked out). \<forall>k \<in> hit_keys vs ks - set (map ev_key out). rrf vs ks k \<le> ev_score e"
    using cut by (auto dest!: set_ranked)
  ultimately show ?thesis
    unfolding fuse using dist within len by simp
qed

section \<open>Near duplicates\<close>

definition same_passage :: "evidence \<Rightarrow> evidence \<Rightarrow> bool" where
  "same_passage a b \<longleftrightarrow> a\<lparr>ev_metadata := [], ev_rank := 0, ev_source := [], ev_rerank_score := None\<rparr> =
     b\<lparr>ev_metadata := [], ev_rank := 0, ev_source := [], ev_rerank_score := None\<rparr>"

lemma same_passageD:
  assumes "same_passage a b"
  shows "ev_key a = ev_key b" "ev_text a = ev_text b" "ev_score a = ev_score b"
    "ev_contract_id a = ev_contract_id b" "ev_project_id a = ev_project_id b"
  using arg_cong[OF assms[unfolded same_passage_def], of ev_level] arg_cong[OF assms[unfolded same_passage_def], of ev_ref_id]
    arg_cong[OF assms[unfolded same_passage_def], of ev_text] arg_cong[OF assms[unfolded same_passage_def], of ev_score]
    arg_cong[OF assms[unfolded same_passage_def], of ev_contract_id] arg_cong[OF assms[unfolded same_passage_def], of ev_project_id]
  by (simp_all add: ev_key_def)

lemma same_passage_refl [simp]: "same_passage a a"
  by (simp add: same_passage_def)

lemma same_passage_trans: "same_passage a b \<Longrightarrow> same_passage b c \<Longrightarrow> same_passage a c"
  by (simp add: same_passage_def)

lemma same_passage_updates [simp]:
  "same_passage (e\<lparr>ev_rank := i\<rparr>) e" "same_passage (e\<lparr>ev_source := t\<rparr>) e"
  "same_passage (e\<lparr>ev_metadata := d\<rparr>) e" "same_passage (e\<lparr>ev_rerank_score := r\<rparr>) e"
  by (simp_all add: same_passage_def)

lemma same_count [simp]: "same_passage (count_suppressed e) e"
  by (simp add: count_suppressed_def)

lemma repeats_cong:
  "same_passage a a' \<Longrightarrow> same_passage b b' \<Longrightarrow> repeats a b = repeats a' b'"
  by (simp add: repeats_def same_passageD)

lemma admit_new: "\<forall>k \<in> set es. \<not> repeats e k \<Longrightarrow> admit e es = es @ [e]"
  by (induction es) auto

lemma admit_same:
  assumes "list_all2 same_passage xs ys"
  shows "list_all2 same_passage (admit e xs) ys \<or>
    (\<forall>k \<in> set ys. \<not> repeats e k) \<and> list_all2 same_passage (admit e xs) (ys @ [e])"
  using assms
proof (induction rule: list_all2_induct)
  case (Cons x xs y ys)
  have "repeats e x = repeats e y"
    using Cons.hyps(1) by (simp add: repeats_cong)
  then show ?case
    using Cons by (auto intro: same_passage_trans[OF same_count])
qed simp

text \<open>What suppression keeps, in order and up to the counters.\<close>

inductive thinned :: "evidence list \<Rightarrow> evidence list \<Rightarrow> bool" where
  none: "thinned [] []"
| drop: "thinned es ks \<Longrightarrow> k \<in> set ks \<Longrightarrow> repeats e k \<Longrightarrow> thinned (es @ [e]) ks"
| keep: "thinned es ks \<Longrightarrow> \<forall>k \<in> set ks. \<not> repeats e k \<Longrightarrow> thinned (es @ [e]) (ks @ [e])"

lemma suppress_thinned: "\<exists>ks. thinned es ks \<and> list_all2 same_passage (suppress_near_duplicates es) ks"
proof (induction es rule: rev_induct)
  case Nil
  show ?case by (intro exI[of _ "[]"]) (simp add: suppress_near_duplicates_def thinned.none)
next
  case (snoc e es)
  define xs where "xs = suppress_near_duplicates es"
  obtain ks where ks: "thinned es ks" "list_all2 same_passage xs ks"
    using snoc unfolding xs_def by blast
  have out: "suppress_near_duplicates (es @ [e]) = admit e xs"
    by (simp add: suppress_near_duplicates_def xs_def)
  show ?case
  proof (cases "\<exists>k \<in> set ks. repeats e k")
    case True
    then have "list_all2 same_passage (admit e xs) ks"
      using admit_same[OF ks(2), of e] by blast
    then show ?thesis
      using True ks(1) out thinned.drop by metis
  next
    case False
    then have "\<forall>k \<in> set xs. \<not> repeats e k"
      using ks(2) repeats_cong[OF same_passage_refl] by (metis in_set_conv_nth list_all2_conv_all_nth)
    then have "admit e xs = xs @ [e]"
      by (rule admit_new)
    then show ?thesis
      using False ks out by (intro exI[of _ "ks @ [e]"]) (simp add: thinned.keep list_all2_appendI)
  qed
qed

lemma thinned_laws:
  assumes "thinned es ks"
  shows "subseq ks es" "set ks \<subseteq> set es" "sorted_wrt (\<lambda>k e. \<not> repeats e k) ks"
  using assms
  by (induction rule: thinned.induct) (auto simp: sorted_wrt_append intro: list_emb_append_mono subseq_order.trans)

text \<open>What is dropped comes after what it repeats.\<close>

lemma thinned_cover:
  assumes "thinned es ks" "sorted_wrt R es" "\<And>x. R x x" "e \<in> set es"
  shows "\<exists>k \<in> set ks. R k e \<and> (k = e \<or> repeats e k)"
  using assms(1,2,4)
proof (induction rule: thinned.induct)
  case (drop es ks k e')
  have "R k e'"
    using drop.hyps(1,2) drop.prems(1) thinned_laws(2) by (auto simp: sorted_wrt_append)
  then show ?case
    using drop by (auto simp: sorted_wrt_append)
next
  case (keep es ks e')
  then show ?case
    using assms(3) by (auto simp: sorted_wrt_append)
qed simp

section \<open>Deduplication\<close>

definition best_ok :: "evidence set \<Rightarrow> ev_items \<Rightarrow> bool" where
  "best_ok src best \<longleftrightarrow> distinct (map fst best) \<and>
     (\<forall>k b. dict_get best k = Some b \<longrightarrow> ev_key b = k \<and> (\<exists>e \<in> src. same_passage b e))"

definition covers :: "ev_items \<Rightarrow> evidence \<Rightarrow> bool" where
  "covers best e \<longleftrightarrow> (\<exists>b. dict_get best (ev_key e) = Some b \<and> ev_score e \<le> ev_score b)"

lemma dedup_step_get:
  "\<exists>b. dict_get (dedup_step e best) = (dict_get best)(ev_key e \<mapsto> b) \<and> ev_score e \<le> ev_score b \<and>
    (same_passage b e \<or> dict_get best (ev_key e) = Some b) \<and>
    (\<forall>old. dict_get best (ev_key e) = Some old \<longrightarrow> ev_score old \<le> ev_score b)"
proof (cases "dict_get best (ev_key e)")
  case None
  then show ?thesis
    by (intro exI[of _ e]) (auto simp: dedup_step_def dict_get_alist_update)
next
  case (Some old)
  show ?thesis
  proof (cases "ev_score e > ev_score old")
    case True
    define b where "b = (if ev_source old \<in> {''vector'', ''keyword'', ''fused''} then e\<lparr>ev_source := ev_source old\<rparr> else e)"
    have "dedup_step e best = AList.update (ev_key e) b best"
      using Some True by (simp only: dedup_step_def option.case if_True b_def)
    moreover have "same_passage b e" "ev_score b = ev_score e"
      by (simp_all add: b_def)
    ultimately show ?thesis
      using Some True by (intro exI[of _ b]) (auto simp: dict_get_alist_update)
  next
    case False
    then show ?thesis
      using Some by (intro exI[of _ old]) (auto simp: dedup_step_def)
  qed
qed

lemma dedup_step_ok:
  assumes "best_ok src best" "e \<in> src"
  shows "best_ok src (dedup_step e best)" "covers (dedup_step e best) e"
    "covers best e' \<Longrightarrow> covers (dedup_step e best) e'"
proof -
  obtain b where b: "dict_get (dedup_step e best) = (dict_get best)(ev_key e \<mapsto> b)" "ev_score e \<le> ev_score b"
    "same_passage b e \<or> dict_get best (ev_key e) = Some b"
    "\<forall>old. dict_get best (ev_key e) = Some old \<longrightarrow> ev_score old \<le> ev_score b"
    using dedup_step_get by blast
  have key: "ev_key b = ev_key e \<and> (\<exists>e' \<in> src. same_passage b e')"
    using b(3)
  proof
    assume "same_passage b e"
    then show ?thesis using assms(2) same_passageD(1) by blast
  next
    assume "dict_get best (ev_key e) = Some b"
    then show ?thesis using assms(1) unfolding best_ok_def by blast
  qed
  have "distinct (map fst (dedup_step e best))"
    using assms(1) by (auto simp: best_ok_def dedup_step_def distinct_update split: option.split)
  then show "best_ok src (dedup_step e best)"
    using assms(1) key by (auto simp: best_ok_def b(1) simp del: split_paired_All)
  show "covers (dedup_step e best) e"
    using b(2) by (simp add: covers_def b(1))
  show "covers best e' \<Longrightarrow> covers (dedup_step e best) e'"
    using b(4) by (fastforce simp: covers_def b(1))
qed

lemma dedup_fold:
  assumes "best_ok src best" "set es \<subseteq> src"
  shows "best_ok src (fold dedup_step es best) \<and> (\<forall>e \<in> set es. covers (fold dedup_step es best) e) \<and>
    (\<forall>e. covers best e \<longrightarrow> covers (fold dedup_step es best) e)"
  using assms
proof (induction es arbitrary: best)
  case (Cons e es)
  have "best_ok src (dedup_step e best)"
    using Cons.prems dedup_step_ok(1) by simp
  note IH = Cons.IH[OF this]
  then show ?case
    using Cons.prems dedup_step_ok(2,3)[OF Cons.prems(1), of e] by simp
qed simp

lemma best_by_key_laws:
  "distinct (map ev_key (best_by_key es))"
  "b \<in> set (best_by_key es) \<Longrightarrow> \<exists>e \<in> set es. same_passage b e"
  "e \<in> set es \<Longrightarrow> \<exists>b \<in> set (best_by_key es). ev_key b = ev_key e \<and> ev_score e \<le> ev_score b"
proof -
  define best where "best = fold dedup_step es []"
  have laws: "best_ok (set es) best" "\<forall>e \<in> set es. covers best e"
    using dedup_fold[of "set es" "[]" es] by (simp_all add: best_def best_ok_def dict_get_def)
  have get: "dict_get best k = Some b \<longleftrightarrow> (k, b) \<in> set best" for k b
    using laws(1) by (simp add: best_ok_def dict_get_def)
  have out: "best_by_key es = map snd best"
    by (simp add: best_by_key_def best_def)
  have key: "ev_key b = k" if "(k, b) \<in> set best" for k b
    using that laws(1) get unfolding best_ok_def by blast
  have "map (\<lambda>kb. ev_key (snd kb)) best = map fst best"
    using key by (intro map_cong refl) (metis surjective_pairing)
  then have "map ev_key (best_by_key es) = map fst best"
    by (simp only: out map_map comp_def)
  then show "distinct (map ev_key (best_by_key es))"
    using laws(1) by (simp only: best_ok_def)
  show "\<exists>e \<in> set es. same_passage b e" if listed: "b \<in> set (best_by_key es)"
  proof -
    obtain kb where kb: "kb \<in> set best" "b = snd kb"
      using listed unfolding out set_map by blast
    then have "dict_get best (fst kb) = Some b"
      by (simp only: get prod.collapse)
    then show ?thesis using laws(1) unfolding best_ok_def by blast
  qed
  assume "e \<in> set es"
  then obtain b where "(ev_key e, b) \<in> set best" "ev_score e \<le> ev_score b"
    using laws(2) get by (auto simp: covers_def)
  then show "\<exists>b \<in> set (best_by_key es). ev_key b = ev_key e \<and> ev_score e \<le> ev_score b"
    using key out by (metis image_eqI list.set_map snd_conv)
qed

lemma same_list:
  assumes "list_all2 same_passage xs ys"
  shows "map ev_key xs = map ev_key ys" "map ev_score xs = map ev_score ys"
  using assms by (induction rule: list_all2_induct) (auto dest: same_passageD)

lemma ranked_same: "list_all2 same_passage es es' \<Longrightarrow> list_all2 same_passage (ranked es) es'"
proof -
  assume same: "list_all2 same_passage es es'"
  have "list_all2 same_passage (ranked es) es"
    by (simp add: ranked_def list_all2_conv_all_nth nth_enumerate_eq)
  then show ?thesis
    using same list_all2_trans[of same_passage same_passage same_passage] same_passage_trans by blast
qed

lemma sorted_wrt_same:
  assumes "list_all2 same_passage xs ys" "sorted_wrt R ys"
    "\<And>a a' b b'. same_passage a a' \<Longrightarrow> same_passage b b' \<Longrightarrow> R a' b' \<Longrightarrow> R a b"
  shows "sorted_wrt R xs"
  unfolding sorted_wrt_iff_nth_less
proof (intro allI impI)
  fix i j
  assume ij: "i < j" "j < length xs"
  have "same_passage (xs ! i) (ys ! i)" "same_passage (xs ! j) (ys ! j)" "R (ys ! i) (ys ! j)"
    using assms(1,2) ij by (simp_all add: list_all2_conv_all_nth sorted_wrt_iff_nth_less)
  then show "R (xs ! i) (xs ! j)"
    by (rule assms(3))
qed

lemma distinct_sorted_wrt: "distinct xs \<longleftrightarrow> sorted_wrt (\<noteq>) xs"
  by (induction xs) auto

lemma sorted_wrt_subseq:
  assumes "sorted_wrt R ys" "subseq xs ys"
  shows "sorted_wrt R xs"
  using assms(2,1) by (induction rule: list_emb.induct) (auto dest: list_emb_set)

text \<open>C36: Deduplicated evidence is ranked by score, names each passage once and holds no two passages that
  repeat each other. Each of its items is one of the inputs, but for its rank, its provenance label and
  its counter of suppressed duplicates; and each input is represented by an item scoring at least as
  high, of the same key or repeated by a passage of that key.\<close>

theorem deduplicated_evidence:
  "distinct (map ev_key (deduplicate es)) \<and> sorted_wrt (\<ge>) (map ev_score (deduplicate es)) \<and>
   sorted_wrt (\<lambda>k e. \<not> repeats e k) (deduplicate es) \<and>
   map ev_rank (deduplicate es) = [1..<Suc (length (deduplicate es))] \<and>
   (\<forall>k \<in> set (deduplicate es). \<exists>e \<in> set es. same_passage k e) \<and>
   (\<forall>e \<in> set es. \<exists>k \<in> set (deduplicate es). ev_score e \<le> ev_score k \<and>
      (ev_key k = ev_key e \<or> (\<exists>e' \<in> set es. ev_key e' = ev_key e \<and> repeats e' k)))"
proof -
  define xs where "xs = sort_key (\<lambda>e. - ev_score e) (best_by_key es)"
  have set_xs: "set xs = set (best_by_key es)" and "mset xs = mset (best_by_key es)"
    by (simp_all add: xs_def)
  then have dist: "distinct (map ev_key xs)"
    using best_by_key_laws(1)[of es] by (metis mset_map mset_eq_imp_distinct_iff)
  have desc: "sorted_wrt (\<lambda>a b. ev_score b \<le> ev_score a) xs"
    using sorted_sort_key[of "\<lambda>e. - ev_score e" "best_by_key es"] by (simp add: xs_def sorted_map)
  obtain ks where ks: "thinned xs ks" "list_all2 same_passage (suppress_near_duplicates xs) ks"
    using suppress_thinned by blast
  note laws = thinned_laws[OF ks(1)]
  have out: "deduplicate es = ranked (suppress_near_duplicates xs)"
    by (simp add: deduplicate_def xs_def)
  then have same: "list_all2 same_passage (deduplicate es) ks"
    using ranked_same[OF ks(2)] by simp
  have desc_ks: "sorted_wrt (\<lambda>a b. ev_score b \<le> ev_score a) ks"
    using desc laws(1) by (rule sorted_wrt_subseq)
  have p1: "distinct (map ev_key (deduplicate es))"
  proof -
    have "sorted_wrt (\<noteq>) (map ev_key xs)"
      using dist by (simp only: distinct_sorted_wrt)
    then show ?thesis
      using sorted_wrt_subseq[OF _ subseq_map[OF laws(1)]] by (simp only: same_list[OF same] distinct_sorted_wrt)
  qed
  have p2: "sorted_wrt (\<ge>) (map ev_score (deduplicate es))"
    using desc_ks by (simp only: same_list[OF same] sorted_wrt_map)
  have p3: "sorted_wrt (\<lambda>k e. \<not> repeats e k) (deduplicate es)"
    using same laws(3) by (rule sorted_wrt_same) (simp add: repeats_cong)
  have p4: "\<forall>k \<in> set (deduplicate es). \<exists>e \<in> set es. same_passage k e"
  proof
    fix k
    assume "k \<in> set (deduplicate es)"
    then obtain k' where k': "k' \<in> set ks" "same_passage k k'"
      using same by (metis in_set_conv_nth list_all2_conv_all_nth)
    then obtain e where "e \<in> set es" "same_passage k' e"
      using laws(2) set_xs best_by_key_laws(2) by blast
    then show "\<exists>e \<in> set es. same_passage k e"
      using k'(2) same_passage_trans by blast
  qed
  have p5: "\<forall>e \<in> set es. \<exists>k \<in> set (deduplicate es). ev_score e \<le> ev_score k \<and>
      (ev_key k = ev_key e \<or> (\<exists>e' \<in> set es. ev_key e' = ev_key e \<and> repeats e' k))"
  proof
    fix e
    assume "e \<in> set es"
    then obtain b where b: "b \<in> set xs" "ev_key b = ev_key e" "ev_score e \<le> ev_score b"
      using best_by_key_laws(3) set_xs by metis
    obtain k' where k': "k' \<in> set ks" "ev_score b \<le> ev_score k'" "k' = b \<or> repeats b k'"
      using thinned_cover[OF ks(1) desc order_refl b(1)] by blast
    obtain k where k: "k \<in> set (deduplicate es)" "same_passage k k'"
      using k'(1) same by (metis in_set_conv_nth list_all2_conv_all_nth)
    obtain e' where e': "e' \<in> set es" "same_passage b e'"
      using b(1) set_xs best_by_key_laws(2) by blast
    have "ev_key k = ev_key e \<or> (ev_key e' = ev_key e \<and> repeats e' k)"
      using k'(3)
    proof
      assume "k' = b"
      then show ?thesis using k(2) b(2) by (simp add: same_passageD(1))
    next
      assume "repeats b k'"
      then have "repeats e' k"
        using repeats_cong[OF e'(2) same_passage_refl[of k']] repeats_cong[OF same_passage_refl[of e'] k(2)] by simp
      then show ?thesis using same_passageD(1)[OF e'(2)] b(2) by simp
    qed
    then have "ev_key k = ev_key e \<or> (\<exists>e' \<in> set es. ev_key e' = ev_key e \<and> repeats e' k)"
      using e'(1) by metis
    moreover have "ev_score e \<le> ev_score k"
      using b(3) k'(2) same_passageD(3)[OF k(2)] by simp
    ultimately show "\<exists>k \<in> set (deduplicate es). ev_score e \<le> ev_score k \<and>
        (ev_key k = ev_key e \<or> (\<exists>e' \<in> set es. ev_key e' = ev_key e \<and> repeats e' k))"
      by (intro bexI[OF _ k(1)] conjI)
  qed
  have p6: "map ev_rank (deduplicate es) = [1..<Suc (length (deduplicate es))]"
    unfolding out by (simp only: ranked_simps)
  show ?thesis
    by (intro conjI p1 p2 p3 p4 p5 p6)
qed

definition sample_evidence :: "nat \<Rightarrow> string \<Rightarrow> string \<Rightarrow> rat \<Rightarrow> evidence" where
  "sample_evidence i t src q =
     \<lparr>ev_level = EL_CHUNK, ev_ref_id = i, ev_contract_id = 1, ev_project_id = 1, ev_text = t, ev_score = q,
      ev_source = src, ev_rank = 0, ev_contract_title = None, ev_clause_type = None, ev_clause_number = None,
      ev_section_title = None, ev_page_start = None, ev_page_end = None, ev_bounding_boxes = [],
      ev_chunk_id = None, ev_metadata = [], ev_similarity = None, ev_rerank_score = None\<rparr>"

section \<open>Re-ranking\<close>

definition unranked :: "evidence \<Rightarrow> evidence" where
  "unranked e = e\<lparr>ev_rank := 0, ev_rerank_score := None\<rparr>"

lemma unranked_simps [simp]:
  "ev_key (unranked e) = ev_key e" "unranked (e\<lparr>ev_rerank_score := s, ev_rank := i\<rparr>) = unranked e"
  "is_expansion (unranked e) = is_expansion e"
  by (simp_all add: unranked_def ev_key_def is_expansion_def)

definition scores_ok :: "nat \<Rightarrow> (nat \<times> rat) list \<Rightarrow> bool" where
  "scores_ok n scores \<longleftrightarrow> distinct (map fst scores) \<and> (\<forall>(i, s) \<in> set scores. i < n \<and> 0 \<le> s \<and> s \<le> 1)"

lemma scores_ok_update:
  assumes "scores_ok n scores" "i < n" "0 \<le> s" "s \<le> 1"
  shows "scores_ok n (AList.update i s scores)"
proof -
  have "(j, q) \<in> set (AList.update i s scores) \<Longrightarrow> (j, q) = (i, s) \<or> (j, q) \<in> set scores" for j q
    by (induction scores) (auto split: if_splits)
  then show ?thesis
    using assms by (fastforce simp: scores_ok_def distinct_update)
qed

lemma clamp01_range: "0 \<le> clamp01 f" "clamp01 f \<le> 1"
  by (cases f; simp)+

text \<open>An entry the code cannot read: an infinite index, or an integer score beyond the doubles behind an index
  that can be read.\<close>

definition raises_overflow :: "entry \<Rightarrow> bool" where
  "raises_overflow ent \<longleftrightarrow> (\<exists>i s. ent = Entry i s \<and>
     ((\<exists>neg. i = Some (FFloat (Infinite neg))) \<or>
      (\<exists>k v. int_field i = Converted k \<and> s = Some (FInt v) \<and> 2 ^ 1024 - 2 ^ 970 \<le> \<bar>v\<bar>)))"

lemma int_field_overflows: "int_field i = Overflows \<longleftrightarrow> (\<exists>neg. i = Some (FFloat (Infinite neg)))"
  by (cases i rule: int_field.cases) (simp_all add: read_text_def split: option.split)

lemma float_field_overflows: "float_field s = Overflows \<longleftrightarrow> (\<exists>v. s = Some (FInt v) \<and> beyond_double v)"
  by (cases s rule: float_field.cases) (simp_all add: read_text_def split: option.split)

lemma read_entry_laws:
  "read_entry n ent scores = Inl x \<longleftrightarrow> raises_overflow ent \<and> x = conversion_overflow"
  "scores_ok n scores \<Longrightarrow> read_entry n ent scores = Inr scores' \<Longrightarrow> scores_ok n scores'"
proof -
  show "read_entry n ent scores = Inl x \<longleftrightarrow> raises_overflow ent \<and> x = conversion_overflow"
  proof (cases ent)
    case (Entry i s)
    then show ?thesis
      using int_field_overflows[of i] float_field_overflows[of s]
      unfolding raises_overflow_def beyond_double_def[symmetric]
      by (auto simp: read_entry_def split: reading.splits)
  qed (simp add: read_entry_def raises_overflow_def)
  show "scores_ok n scores \<Longrightarrow> read_entry n ent scores = Inr scores' \<Longrightarrow> scores_ok n scores'"
    by (auto simp: read_entry_def split: entry.splits reading.splits if_splits intro!: scores_ok_update clamp01_range)
qed

lemma read_scores_laws:
  "read_scores n ents scores = Inl x \<longleftrightarrow> (\<exists>ent \<in> set ents. raises_overflow ent) \<and> x = conversion_overflow"
  "scores_ok n scores \<Longrightarrow> read_scores n ents scores = Inr scores' \<Longrightarrow> scores_ok n scores'"
proof -
  show "read_scores n ents scores = Inl x \<longleftrightarrow> (\<exists>ent \<in> set ents. raises_overflow ent) \<and> x = conversion_overflow"
  proof (induction ents arbitrary: scores)
    case (Cons ent ents)
    then show ?case
      using read_entry_laws(1)[of n ent scores]
      by (cases "read_entry n ent scores") auto
  qed simp
  show "scores_ok n scores \<Longrightarrow> read_scores n ents scores = Inr scores' \<Longrightarrow> scores_ok n scores'"
    by (induction ents arbitrary: scores) (auto split: sum.splits dest: read_entry_laws(2))
qed

lemma mset_reindexed:
  assumes "distinct perm" "set perm = {..<length es}"
  shows "mset (map ((!) es) perm) = mset es"
proof -
  have "mset perm = mset [0..<length es]"
    using assms by (metis atLeast0LessThan distinct_upt set_eq_iff_mset_eq_distinct set_upt)
  then have "mset (map ((!) es) perm) = mset (map ((!) es) [0..<length es])"
    by (simp only: mset_map)
  then show ?thesis by (simp only: map_nth)
qed

lemma filter_enumerate:
  "map snd (filter (\<lambda>(i, e). P i) (enumerate n es)) = map (\<lambda>i. es ! (i - n)) (filter P [n..<n + length es])"
proof (induction es arbitrary: n)
  case (Cons e es)
  have "map (\<lambda>i. es ! (i - Suc n)) (filter P [Suc n..<Suc n + length es]) =
      map (\<lambda>i. (e # es) ! (i - n)) (filter P [Suc n..<Suc n + length es])"
    by (intro map_cong refl) (auto simp: nth_Cons' Suc_diff_le)
  then show ?case
    using Cons[of "Suc n"] by (simp add: upt_conv_Cons del: upt_Suc)
qed simp

lemma order_by_scores_reorders:
  assumes "scores_ok (length es) scores"
  shows "image_mset unranked (mset (order_by_scores scores es)) = image_mset unranked (mset es)"
proof -
  define order where "order = sort_key (\<lambda>is. - snd is) scores"
  define rest where "rest = filter (\<lambda>i. i \<notin> fst ` set scores) [0..<length es]"
  have ok: "distinct (map fst scores)" "fst ` set scores \<subseteq> {..<length es}"
    using assms by (auto simp: scores_ok_def)
  have order: "mset (map fst order) = mset (map fst scores)" "set order = set scores"
    by (simp_all add: order_def)
  have "distinct (map fst order)"
    using ok(1) order(1) mset_eq_imp_distinct_iff by blast
  then have "distinct (map fst order @ rest)" "set (map fst order @ rest) = {..<length es}"
    using ok(2) order(2) by (auto simp: rest_def)
  then have perm: "mset (map ((!) es) (map fst order @ rest)) = mset es"
    by (rule mset_reindexed)
  have scored: "map unranked (map (scored_item es) (enumerate n xs)) = map unranked (map ((!) es) (map fst xs))" for n and xs :: "(nat \<times> rat) list"
    by (induction xs arbitrary: n) (auto simp: scored_item_def)
  have "map snd (filter (\<lambda>(i, e). i \<notin> fst ` set scores) (enumerate 0 es)) = map ((!) es) rest"
    using filter_enumerate[of "\<lambda>i. i \<notin> fst ` set scores" 0 es] by (simp add: rest_def)
  then have "map unranked (map (scored_item es) (enumerate 1 order) @
      map snd (filter (\<lambda>(i, e). i \<notin> fst ` set scores) (enumerate 0 es))) = map unranked (map ((!) es) (map fst order @ rest))"
    by (simp only: map_append scored)
  then have "mset (map unranked (map (scored_item es) (enumerate 1 order) @
      map snd (filter (\<lambda>(i, e). i \<notin> fst ` set scores) (enumerate 0 es)))) = image_mset unranked (mset es)"
    by (metis perm mset_map)
  then show ?thesis
    unfolding order_by_scores_def order_def[symmetric]
    by (simp only: mset_map split: if_split) simp
qed

lemma apply_ranking_laws:
  "apply_ranking raw es = Inl x \<longleftrightarrow> (\<exists>entries. raw = Some entries \<and> list_ex raises_overflow entries) \<and> x = conversion_overflow"
  "apply_ranking raw es = Inr out \<Longrightarrow> image_mset unranked (mset out) = image_mset unranked (mset es)"
proof -
  have start: "scores_ok (length es) []"
    by (simp add: scores_ok_def)
  show "apply_ranking raw es = Inl x \<longleftrightarrow> (\<exists>entries. raw = Some entries \<and> list_ex raises_overflow entries) \<and> x = conversion_overflow"
  proof (cases raw)
    case (Some entries)
    then show ?thesis
      using read_scores_laws(1)[of "length es" entries "[]"]
      by (cases "read_scores (length es) entries []") (auto simp: apply_ranking_def list_ex_iff)
  qed (simp add: apply_ranking_def)
  show "apply_ranking raw es = Inr out \<Longrightarrow> image_mset unranked (mset out) = image_mset unranked (mset es)"
    using order_by_scores_reorders read_scores_laws(2)[OF start]
    by (auto simp: apply_ranking_def split: option.splits sum.splits)
qed

lemma filter_drop:
  assumes "distinct (map f xs)"
  shows "filter (\<lambda>x. f x \<notin> f ` set (take n xs)) xs = drop n xs"
proof -
  have "f ` set (take n xs) \<inter> f ` set (drop n xs) = {}"
    using assms by (metis append_take_drop_id distinct_append list.set_map map_append)
  then have "filter (\<lambda>x. f x \<notin> f ` set (take n xs)) (drop n xs) = drop n xs"
    by (auto simp: filter_id_conv)
  moreover have "filter (\<lambda>x. f x \<notin> f ` set (take n xs)) (take n xs) = []"
    by (auto simp: filter_empty_conv)
  ultimately show ?thesis
    by (metis append_Nil append_take_drop_id filter_append)
qed

text \<open>The first \<open>l\<close> of the reordered passages, and behind them the passages the cut dropped.\<close>

lemma back_filled_front:
  assumes "image_mset unranked (mset reordered) = image_mset unranked (mset primary)" "distinct (map ev_key primary)"
  shows "image_mset unranked (mset (take l reordered @
      filter (\<lambda>e. ev_key e \<notin> ev_key ` set (take l reordered)) primary)) = image_mset unranked (mset primary)"
proof -
  let ?K = "ev_key ` set (take l reordered)"
  have "image_mset ev_key (mset reordered) = image_mset ev_key (mset primary)"
    using arg_cong[OF assms(1), of "image_mset ev_key"] by (simp add: image_mset.compositionality comp_def)
  then have dist: "distinct (map ev_key reordered)"
    using assms(2) by (metis mset_map mset_eq_imp_distinct_iff)
  have filter_unranked: "image_mset unranked (filter_mset (\<lambda>e. ev_key e \<notin> K) M) =
      filter_mset (\<lambda>e. ev_key e \<notin> K) (image_mset unranked M)" for K M
    by (induction M) simp_all
  have "image_mset unranked (mset (filter (\<lambda>e. ev_key e \<notin> ?K) primary)) =
      image_mset unranked (mset (filter (\<lambda>e. ev_key e \<notin> ?K) reordered))"
    unfolding mset_filter filter_unranked assms(1) ..
  also have "filter (\<lambda>e. ev_key e \<notin> ?K) reordered = drop l reordered"
    using dist by (rule filter_drop)
  finally show ?thesis
    unfolding assms(1)[symmetric] by (metis append_take_drop_id image_mset_union mset_append)
qed

lemma unranked_members:
  assumes "image_mset unranked (mset xs) = image_mset unranked (mset ys)" "\<And>e. e \<in> set ys \<Longrightarrow> \<not> is_expansion e"
  shows "\<forall>e \<in> set xs. \<not> is_expansion e"
proof
  fix e
  assume "e \<in> set xs"
  then have "unranked e \<in># image_mset unranked (mset ys)"
    unfolding assms(1)[symmetric] by auto
  then obtain e' where "e' \<in> set ys" "unranked e = unranked e'"
    by auto
  then show "\<not> is_expansion e"
    using assms(2) unranked_simps(3)[of e] unranked_simps(3)[of e'] by (simp del: unranked_simps)
qed

text \<open>C37: Re-ranking neither loses nor invents evidence, or it raises. It raises OverflowError exactly when the
  enabled model scored more than one passage and an entry of its ranking has an infinite index, or an integer
  score too large for a double. Otherwise the retrieved passages come first, each kept once, and the expansions
  after them in their order; a disabled re-ranker, a failed call or a response without a ranking leaves the order
  as it was.\<close>

theorem rerank_keeps_the_evidence:
  assumes "distinct (map ev_key es)"
  shows "if enabled \<and> 1 < length (filter (\<lambda>e. \<not> is_expansion e) es) \<and>
      (\<exists>entries. answer = Some (Some entries) \<and> list_ex raises_overflow entries)
    then rerank_evidence enabled top_k answer es = Inl conversion_overflow
    else \<exists>out front. rerank_evidence enabled top_k answer es = Inr out \<and>
      image_mset unranked (mset out) = image_mset unranked (mset es) \<and>
      out = front @ filter is_expansion es \<and> (\<forall>e \<in> set front. \<not> is_expansion e) \<and>
      (\<not> enabled \<or> answer = None \<or> answer = Some None \<longrightarrow>
        out = filter (\<lambda>e. \<not> is_expansion e) es @ filter is_expansion es)"
proof (cases "filter (\<lambda>e. \<not> is_expansion e) es = []")
  case True
  then have "filter is_expansion es = es"
    by (simp add: filter_empty_conv filter_id_conv)
  then show ?thesis
    using True by (simp add: rerank_evidence_def Let_def)
next
  case False
  define primary where "primary = filter (\<lambda>e. \<not> is_expansion e) es"
  define l where "l = min (length primary) top_k"
  define ranked where "ranked = (if enabled \<and> 1 < length primary then
    (case answer of None \<Rightarrow> Inr primary | Some raw \<Rightarrow> apply_ranking raw primary) else Inr primary)"
  have applied: "apply_reranker enabled answer primary l = map_sum id (take l) ranked"
    using False by (auto simp: apply_reranker_def llm_rerank_def noop_rerank_def ranked_def primary_def[symmetric]
        split: option.split)
  have raised: "ranked = Inl x \<longleftrightarrow> enabled \<and> 1 < length primary \<and>
      (\<exists>entries. answer = Some (Some entries) \<and> list_ex raises_overflow entries) \<and> x = conversion_overflow" for x
    using apply_ranking_laws(1)[of _ primary x] by (auto simp: ranked_def split: option.split)
  show ?thesis
  proof (cases ranked)
    case (Inl x)
    then have "rerank_evidence enabled top_k answer es = Inl conversion_overflow"
      using False applied raised[of x]
      by (simp add: rerank_evidence_def Let_def primary_def[symmetric] l_def[symmetric])
    then show ?thesis
      using Inl raised[of x] unfolding primary_def[symmetric] by simp
  next
    case (Inr reordered)
    have same: "image_mset unranked (mset reordered) = image_mset unranked (mset primary)"
      using Inr apply_ranking_laws(2) by (auto simp: ranked_def split: if_splits option.splits)
    have dist: "distinct (map ev_key primary)"
      using assms by (simp add: primary_def distinct_map_filter)
    define front where "front = take l reordered @ filter (\<lambda>e. ev_key e \<notin> ev_key ` set (take l reordered)) primary"
    have out: "rerank_evidence enabled top_k answer es = Inr (front @ filter is_expansion es)"
      using False applied Inr
      by (simp add: rerank_evidence_def Let_def primary_def[symmetric] l_def[symmetric] front_def)
    have kept: "image_mset unranked (mset front) = image_mset unranked (mset primary)"
      unfolding front_def using same dist by (rule back_filled_front)
    have whole: "image_mset unranked (mset (front @ filter is_expansion es)) = image_mset unranked (mset es)"
    proof -
      have "mset primary + mset (filter is_expansion es) = mset es"
        by (simp add: primary_def mset_filter)
      then show ?thesis using kept by (metis image_mset_union mset_append)
    qed
    have none: "\<forall>e \<in> set front. \<not> is_expansion e"
      by (rule unranked_members[OF kept]) (simp add: primary_def)
    have "front = primary" if "\<not> enabled \<or> answer = None \<or> answer = Some None"
    proof -
      have "reordered = primary"
        using that Inr by (auto simp: ranked_def apply_ranking_def split: if_splits)
      then show ?thesis
        using filter_drop[OF dist, of l] by (simp add: front_def)
    qed
    then show ?thesis
      using raised Inr out whole none unfolding primary_def[symmetric] by auto
  qed
qed

section \<open>Witnesses\<close>

lemmas ranking_eval = fuse_def fuse_leg_def fuse_hit_def fused_item_def ranked_def RRF_K_def sample_evidence_def
  ev_key_def enumerate_eq_zip Let_def dict_get_def

theorem fusion_is_reciprocal_rank_witness:
  "fuse [sample_evidence 1 ''a'' ''vector'' (9/10), sample_evidence 2 ''b'' ''vector'' (8/10)]
      [sample_evidence 2 ''b'' ''keyword'' 1] 1 \<noteq> [] \<and>
   (let out = fuse [sample_evidence 1 ''a'' ''vector'' (9/10), sample_evidence 2 ''b'' ''vector'' (8/10)]
      [sample_evidence 2 ''b'' ''keyword'' 1] 1 in sorted_wrt (\<ge>) (map ev_score out) \<and> length out = 1)"
proof -
  let ?vs = "[sample_evidence 1 ''a'' ''vector'' (9/10), sample_evidence 2 ''b'' ''vector'' (8/10)]"
    and ?ks = "[sample_evidence 2 ''b'' ''keyword'' 1]"
  have "hit_keys ?vs ?ks = {(EL_CHUNK, 1), (EL_CHUNK, 2)}"
    by (auto simp: hit_keys_def sample_evidence_def ev_key_def)
  then have "length (fuse ?vs ?ks 1) = 1" "sorted_wrt (\<ge>) (map ev_score (fuse ?vs ?ks 1))"
    using fusion_is_reciprocal_rank[of ?vs ?ks 1] by simp_all
  then show ?thesis
    unfolding Let_def by (metis length_0_conv zero_neq_one)
qed

theorem deduplicated_evidence_witness:
  "distinct (map ev_key (deduplicate [sample_evidence 1 ''a'' ''vector'' 1, sample_evidence 1 ''a'' ''neighbour'' 2])) \<and>
   (\<exists>k. k \<in> set (deduplicate [sample_evidence 1 ''a'' ''vector'' 1, sample_evidence 1 ''a'' ''neighbour'' 2]) \<and> 2 \<le> ev_score k)"
proof -
  let ?es = "[sample_evidence 1 ''a'' ''vector'' 1, sample_evidence 1 ''a'' ''neighbour'' 2]"
  note law = deduplicated_evidence[of ?es]
  have "distinct (map ev_key (deduplicate ?es))"
    by (rule law[THEN conjunct1])
  moreover have "\<exists>k \<in> set (deduplicate ?es). ev_score (sample_evidence 1 ''a'' ''neighbour'' 2) \<le> ev_score k"
    using law[THEN conjunct2, THEN conjunct2, THEN conjunct2, THEN conjunct2, THEN conjunct2] by (meson list.set_intros)
  moreover have "ev_score (sample_evidence 1 ''a'' ''neighbour'' 2) = 2"
    by (simp add: sample_evidence_def)
  ultimately show ?thesis by metis
qed

theorem rerank_keeps_the_evidence_witness:
  "(\<exists>out. rerank_evidence True 1 (Some (Some [Entry (Some (FInt 1)) (Some (FText ''0.8''))]))
      [sample_evidence 1 ''a'' ''vector'' 1, sample_evidence 2 ''b'' ''fused'' 1] = Inr out \<and>
    image_mset unranked (mset out) = {#sample_evidence 1 ''a'' ''vector'' 1, sample_evidence 2 ''b'' ''fused'' 1#}) \<and>
   rerank_evidence True 1 (Some (Some [Entry (Some (FFloat (Infinite False))) None]))
      [sample_evidence 1 ''a'' ''vector'' 1, sample_evidence 2 ''b'' ''fused'' 1] = Inl conversion_overflow"
proof -
  let ?es = "[sample_evidence 1 ''a'' ''vector'' 1, sample_evidence 2 ''b'' ''fused'' 1]"
  have es: "distinct (map ev_key ?es)" "filter (\<lambda>e. \<not> is_expansion e) ?es = ?es"
    "image_mset unranked (mset ?es) = mset ?es"
    by (simp_all add: sample_evidence_def ev_key_def is_expansion_def unranked_def)
  have fine: "\<not> raises_overflow (Entry (Some (FInt 1)) (Some (FText ''0.8'')))"
    and bad: "raises_overflow (Entry (Some (FFloat (Infinite False))) None)"
    by (auto simp: raises_overflow_def)
  have "\<exists>out. rerank_evidence True 1 (Some (Some [Entry (Some (FInt 1)) (Some (FText ''0.8''))])) ?es = Inr out \<and>
      image_mset unranked (mset out) = mset ?es"
    using rerank_keeps_the_evidence[OF es(1), of True "Some (Some [Entry (Some (FInt 1)) (Some (FText ''0.8''))])" 1] fine
    unfolding es(2,3) by auto
  moreover have "rerank_evidence True 1 (Some (Some [Entry (Some (FFloat (Infinite False))) None])) ?es = Inl conversion_overflow"
    using rerank_keeps_the_evidence[OF es(1), of True "Some (Some [Entry (Some (FFloat (Infinite False))) None])" 1] bad
    unfolding es(2,3) by simp
  ultimately show ?thesis by simp
qed

end
