(* ===== verification/AnswerLaws.thy ===== *)
theory AnswerLaws
  imports Answers ContextLaws
begin

text \<open>
  The laws of answer validation: the citations shown are real, what was fabricated is reported and
  stripped, and confidence is graded by the grounding.
\<close>

section \<open>Reading citations back\<close>

lemma citation_boundary_free: "boundary_free CITATION"
  by (simp add: CITATION_def rx_seq_def rx_lit_def rx_digits_def rx_plus_def rx_blank_def)

definition group_char :: "char \<Rightarrow> bool" where
  "group_char c \<longleftrightarrow> digit c \<or> is_space c \<or> c = CHR '',''"

lemma bracket_lang: "rx_lang (rx_lit [c]) = {[c]}"
  by (auto simp: rx_lit_def rx_seq_def)

lemma citation_word:
  assumes "w \<in> rx_lang CITATION"
  shows "\<exists>g. w = CHR ''['' # g @ [CHR '']''] \<and> list_all group_char g"
proof -
  let ?tail = "RStar (rx_seq [rx_blank, rx_lit '','', rx_blank, rx_digits])"
  obtain a b where w: "w = CHR ''['' # (a @ b) @ [CHR '']'']" "a \<in> rx_lang rx_digits" "b \<in> rx_lang ?tail"
    using assms by (auto simp: CITATION_def rx_seq_def bracket_lang)
  have "reads rx_digits c \<Longrightarrow> group_char c" "reads ?tail c \<Longrightarrow> group_char c" for c
    by (auto simp: rx_digits_def rx_plus_def rx_seq_def rx_lit_def rx_blank_def group_char_def)
  then have "list_all group_char (a @ b)"
    using rx_lang_reads[OF w(2)] rx_lang_reads[OF w(3)] by (auto simp: list_all_iff)
  then show ?thesis using w(1) by blast
qed

lemma group_char_plain: "group_char c \<Longrightarrow> c \<noteq> CHR ''['' \<and> c \<noteq> CHR '']'' \<and> c \<noteq> CHR ''-''"
  by (auto simp: group_char_def digit_def is_space_def)

lemma citation_prefix:
  assumes "v \<in> rx_lang CITATION" "w \<in> rx_lang CITATION" "v @ s = w @ t"
  shows "v = w"
proof -
  obtain g h where v: "v = CHR ''['' # g @ [CHR '']'']" "list_all group_char g"
    and w: "w = CHR ''['' # h @ [CHR '']'']" "list_all group_char h"
    using citation_word[OF assms(1)] citation_word[OF assms(2)] by blast
  have "takeWhile group_char (x @ CHR '']'' # y) = x" if "list_all group_char x" for x y
    using that group_char_plain[of "CHR '']''"] by (induction x) auto
  from this[OF v(2)] this[OF w(2)] have "g = h"
    using assms(3) v(1) w(1) by (metis append.assoc append_Cons append_Nil list.inject)
  then show ?thesis using v(1) w(1) by simp
qed

lemma scan_word: "w \<in> rx_lang CITATION \<Longrightarrow> rx_scan CITATION p (w @ t) = Inr w # rx_scan CITATION (rev w @ p) t"
proof -
  assume w: "w \<in> rx_lang CITATION"
  have "rx_match CITATION p (w @ t) \<noteq> []"
    using rx_match_complete[OF citation_boundary_free w, of p t] by auto
  then obtain p' s' qs where q: "rx_match CITATION p (w @ t) = (p', s') # qs"
    by (metis list.exhaust surj_pair)
  obtain v where v: "v \<in> rx_lang CITATION" "w @ t = v @ s'" "p' = rev v @ p"
    using rx_match_prefix[OF q] by blast
  have "v = w"
    using citation_prefix[OF v(1) w v(2)[symmetric]] .
  then have "p' = rev w @ p" "s' = t"
    using v by simp_all
  moreover obtain c w' where "w = c # w'"
    using citation_word[OF w] by auto
  ultimately show ?thesis
    using q by (simp add: rx_scan_Cons)
qed

lemma scan_char: "c \<noteq> CHR ''['' \<Longrightarrow> rx_scan CITATION p (c # t) = Inl c # rx_scan CITATION (c # p) t"
proof -
  assume c: "c \<noteq> CHR ''[''"
  have "rx_match CITATION p (c # t) = []"
  proof (cases "rx_match CITATION p (c # t)")
    case (Cons q qs)
    obtain p' s' where "q = (p', s')" by force
    then show ?thesis
      using rx_match_prefix[of CITATION p "c # t"] Cons citation_word c by fastforce
  qed simp
  then show ?thesis by (simp add: rx_scan_Cons)
qed

text \<open>Text whose opening brackets all open a citation is a sequence of characters and citations, and the
  scan reads that sequence back.\<close>

definition token :: "char + string \<Rightarrow> bool" where
  "token x \<longleftrightarrow> (case x of Inl c \<Rightarrow> c \<noteq> CHR ''['' | Inr w \<Rightarrow> w \<in> rx_lang CITATION)"

lemma scan_tokens: "list_all token xs \<Longrightarrow> rx_scan CITATION p (concat (map piece xs)) = xs"
proof (induction xs arbitrary: p)
  case (Cons x xs)
  then show ?case by (cases x) (simp_all add: token_def scan_word scan_char)
qed simp

lemma scan_words: "Inr w \<in> set (rx_scan r p s) \<Longrightarrow> w \<in> rx_lang r"
proof (induction s arbitrary: p rule: length_induct)
  case (1 s)
  show ?case
  proof (cases s)
    case (Cons c s')
    show ?thesis
    proof (cases "rx_match r p s")
      case Nil
      then show ?thesis using 1 Cons by (auto simp: rx_scan_Cons)
    next
      case (Cons q qs)
      obtain v where v: "v \<in> rx_lang r" "s = v @ snd q"
        using rx_match_prefix[of r p s "fst q" "snd q" qs] Cons by auto
      have "take (length s - length (snd q)) s = v"
        using v(2) by simp
      then show ?thesis
        using 1 Cons \<open>s = c # s'\<close> v(1) by (auto simp: rx_scan_Cons split: if_splits)
    qed
  qed (use 1 in simp)
qed

definition no_stray_bracket :: "string \<Rightarrow> bool" where
  "no_stray_bracket t \<longleftrightarrow> CHR ''['' \<notin> set (rx_sub CITATION (\<lambda>_. []) t)"

lemma tokens_of_text: "no_stray_bracket t \<Longrightarrow> list_all token (rx_scan CITATION [] t)"
proof -
  assume t: "no_stray_bracket t"
  have "c \<noteq> CHR ''[''" if "Inl c \<in> set (rx_scan CITATION [] t)" for c
  proof -
    have "c \<in> set (rx_sub CITATION (\<lambda>_. []) t)"
      using that unfolding rx_sub_pieces by (auto intro!: bexI[of _ "Inl c"])
    then show ?thesis using t by (auto simp: no_stray_bracket_def)
  qed
  then show ?thesis
    unfolding list_all_iff token_def using scan_words[of _ CITATION "[]" t] by (auto split: sum.splits)
qed

declare decimal.simps [simp del]

text \<open>A label written by \<open>str()\<close> reads back.\<close>

lemma digit_cases: "d < 10 \<Longrightarrow> tuple_index (hex_digit d) ''0123456789'' = Some d \<and> digit (hex_digit d)"
proof -
  assume "d < 10"
  then have "d \<in> {0, 1, 2, 3, 4, 5, 6, 7, 8, 9}" by auto
  then show ?thesis
    by (elim insertE emptyE) (simp_all add: hex_digit_def digit_def)
qed

lemma parse_digits_snoc:
  assumes "list_all digit s" "d < 10"
  shows "parse_digits (s @ [hex_digit d]) acc = map_option (\<lambda>v. v * 10 + int d) (parse_digits s acc)"
  using assms(1)
proof (induction s arbitrary: acc)
  case Nil
  then show ?case
    using digit_cases[OF assms(2)] by (auto simp: digit_def)
next
  case (Cons c s)
  have "c \<noteq> CHR ''_''" using Cons.prems by (auto simp: digit_def)
  then show ?case
    using Cons by (simp split: option.split)
qed

lemma decimal_digits: "list_all digit (decimal n) \<and> decimal n \<noteq> [] \<and> parse_digits (decimal n) 0 = Some (int n)"
proof (induction n rule: decimal.induct)
  case (1 n)
  show ?case
  proof (cases "n < 10")
    case True
    then have "decimal n = [hex_digit n]"
      by (subst decimal.simps) simp
    then show ?thesis
      using digit_cases[OF True] parse_digits_snoc[of "[]" n 0] True by simp
  next
    case False
    have d: "n mod 10 < 10" by simp
    have "int n = int (n div 10 * 10 + n mod 10)" by simp
    then have step: "int (n div 10) * 10 + int (n mod 10) = int n"
      unfolding of_nat_add of_nat_mult by simp
    have "decimal n = decimal (n div 10) @ [hex_digit (n mod 10)]"
      using False by (subst decimal.simps) simp
    then show ?thesis
      using 1[OF False] digit_cases[OF d] parse_digits_snoc[of "decimal (n div 10)" "n mod 10" 0] d
        step
      by (simp del: parse_digits.simps)
  qed
qed

lemma digit_not_space: "digit c \<Longrightarrow> \<not> is_space c \<and> c \<noteq> CHR ''-'' \<and> c \<noteq> CHR ''+'' \<and> c \<noteq> CHR ''_'' \<and> c \<noteq> CHR '',''"
  by (auto simp: digit_def is_space_def)

lemma strip_digits: "list_all digit s \<Longrightarrow> strip s = s"
proof -
  assume digits: "list_all digit s"
  have "dropWhile is_space t = t" if "list_all digit t" for t
    using that digit_not_space by (cases t) auto
  from this[of s] this[of "rev s"] show ?thesis
    using digits by (simp add: strip_def)
qed

lemma parse_int_decimal: "parse_int (strip (decimal n)) = Some (int n)"
proof -
  obtain c cs where n: "decimal n = c # cs" "digit c" "list_all digit (c # cs)"
    using decimal_digits[of n] by (cases "decimal n") (auto)
  have "strip (strip (decimal n)) = c # cs"
    using strip_digits[of "decimal n"] decimal_digits[of n] n(1) by simp
  then show ?thesis
    using digit_not_space[OF n(2)] decimal_digits[of n] n(1)
    by (simp add: parse_int_def parse_unsigned_def del: parse_digits.simps)
qed

lemma label_text_nat: "0 \<le> l \<Longrightarrow> label_text l = CHR ''['' # decimal (nat l) @ [CHR '']'']"
  by (simp add: label_text_def str_int_def)

lemma label_word:
  assumes "0 \<le> l"
  shows "label_text l \<in> rx_lang CITATION" "group_labels (label_text l) = [l]"
proof -
  note digits = decimal_digits[of "nat l"]
  have plus: "s \<noteq> [] \<Longrightarrow> list_all digit s \<Longrightarrow> s \<in> rx_lang rx_digits" for s
  proof (induction s)
    case (Cons c s)
    have "s = concat (map (\<lambda>c. [c]) s)" "set (map (\<lambda>c. [c]) s) \<subseteq> rx_lang (RCls digit)"
      using Cons.prems(2) by (induction s) (auto simp: list_all_iff)
    then have "s \<in> rx_lang (RStar (RCls digit))"
      unfolding rx_lang.simps(5) by blast
    moreover have "[c] \<in> rx_lang (RCls digit)"
      using Cons.prems(2) by simp
    ultimately have "[c] @ s \<in> rx_lang rx_digits"
      unfolding rx_digits_def rx_plus_def rx_lang.simps(3) by blast
    then show ?case by simp
  qed simp
  have "decimal (nat l) \<in> rx_lang rx_digits"
    using digits by (intro plus) simp_all
  moreover have "[] \<in> rx_lang (RStar (rx_seq [rx_blank, rx_lit '','', rx_blank, rx_digits]))"
    unfolding rx_lang.simps(5) by (auto intro: exI[of _ "[]"])
  ultimately have "''['' @ decimal (nat l) @ [] @ '']'' @ [] \<in> rx_lang CITATION"
    unfolding CITATION_def by (intro rx_seqI) (simp_all add: bracket_lang rx_seq_def)
  then show "label_text l \<in> rx_lang CITATION"
    by (simp add: label_text_nat[OF assms])
  have "CHR '','' \<notin> set (decimal (nat l))"
    using digits digit_not_space by (auto simp: list_all_iff)
  then show "group_labels (label_text l) = [l]"
    using parse_int_decimal[of "nat l"] assms
    by (simp add: group_labels_def label_text_nat butlast_append map_filter_simps)
qed

text \<open>The labels a citation holds are natural numbers.\<close>

lemma parse_digits_nonneg: "parse_digits s acc = Some v \<Longrightarrow> 0 \<le> acc \<Longrightarrow> 0 \<le> v"
  by (induction s acc rule: parse_digits.induct) (auto split: if_splits list.splits option.splits)

lemma parse_int_nonneg: "parse_int s = Some v \<Longrightarrow> CHR ''-'' \<notin> set s \<Longrightarrow> 0 \<le> v"
proof -
  assume v: "parse_int s = Some v" and plain: "CHR ''-'' \<notin> set s"
  have "set (strip s) \<subseteq> set s"
    by (auto simp: strip_def dest!: set_dropWhileD)
  then have "CHR ''-'' \<notin> set (strip s)" using plain by blast
  then show ?thesis
    using v by (auto simp: parse_int_def parse_unsigned_def split: list.splits if_splits intro: parse_digits_nonneg)
qed

lemma split_on_subset: "w \<in> set (split_on c s) \<Longrightarrow> set w \<subseteq> set s"
proof (induction s arbitrary: w)
  case (Cons x s)
  show ?case
  proof (cases "split_on c s")
    case Nil
    then show ?thesis using Cons.prems by (auto split: if_splits)
  next
    case (Cons u us)
    then have sub: "set v \<subseteq> set s" if "v \<in> set (u # us)" for v
      using Cons.IH that by simp
    show ?thesis
      using Cons.prems Cons sub[of w] sub[of u] by (auto split: if_splits)
  qed
qed simp

lemma group_labels_nonneg: "w \<in> rx_lang CITATION \<Longrightarrow> l \<in> set (group_labels w) \<Longrightarrow> 0 \<le> l"
proof -
  assume w: "w \<in> rx_lang CITATION" and l: "l \<in> set (group_labels w)"
  obtain g where g: "w = CHR ''['' # g @ [CHR '']'']" "list_all group_char g"
    using citation_word[OF w] by blast
  obtain part where part: "part \<in> set (split_on (CHR '','') g)" "parse_int (strip part) = Some l"
    using l g(1) by (auto simp: group_labels_def butlast_append List.map_filter_def)
  have "set part \<subseteq> set g"
    using part(1) by (rule split_on_subset)
  then have "CHR ''-'' \<notin> set part"
    using g(2) group_char_plain by (auto simp: list_all_iff)
  then have "CHR ''-'' \<notin> set (strip part)"
    by (auto simp: strip_def dest!: set_dropWhileD)
  then show ?thesis
    by (rule parse_int_nonneg[OF part(2)])
qed

text \<open>Stripping keeps the sequence of labels but for the invalid ones.\<close>

definition token_out :: "int set \<Rightarrow> char + string \<Rightarrow> (char + string) list" where
  "token_out invalid x = (case x of Inl c \<Rightarrow> [Inl c]
     | Inr m \<Rightarrow> map (\<lambda>l. Inr (label_text l)) (filter (\<lambda>l. l \<notin> invalid) (group_labels m)))"

definition token_labels :: "char + string \<Rightarrow> int list" where
  "token_labels x = (case x of Inl c \<Rightarrow> [] | Inr m \<Rightarrow> group_labels m)"

lemma cited_tokens: "cited_labels t = concat (map token_labels (rx_scan CITATION [] t))"
proof -
  have "concat (map group_labels (concat (map (\<lambda>x. case x of Inl _ \<Rightarrow> [] | Inr m \<Rightarrow> [m]) xs))) =
      concat (map token_labels xs)" for xs :: "(char + string) list"
    by (induction xs) (auto simp: token_labels_def split: sum.split)
  then show ?thesis by (simp add: cited_labels_def rx_finditer_def)
qed

lemma strip_labels_tokens: "strip_labels t invalid = concat (map piece (concat (map (token_out invalid) (rx_scan CITATION [] t))))"
proof -
  have "(case x of Inl c \<Rightarrow> [c] | Inr m \<Rightarrow> concat (map label_text (filter (\<lambda>l. l \<notin> invalid) (group_labels m)))) =
      concat (map piece (token_out invalid x))" for x
    by (auto simp: token_out_def comp_def split: sum.split)
  then have "strip_labels t invalid = concat (map (\<lambda>x. concat (map piece (token_out invalid x))) (rx_scan CITATION [] t))"
    by (simp add: strip_labels_def rx_sub_def)
  moreover have "concat (map (\<lambda>x. concat (map piece (token_out invalid x))) xs) =
      concat (map piece (concat (map (token_out invalid) xs)))" for xs
    by (induction xs) simp_all
  ultimately show ?thesis by simp
qed

lemma token_out_ok: "token x \<Longrightarrow> list_all token (token_out invalid x)"
  by (auto simp: token_def token_out_def list_all_iff split: sum.splits intro: label_word(1) group_labels_nonneg)

lemma token_out_labels:
  assumes "token x"
  shows "concat (map token_labels (token_out invalid x)) = filter (\<lambda>l. l \<notin> invalid) (token_labels x)"
proof (cases x)
  case (Inr m)
  have "\<forall>l \<in> set (group_labels m). 0 \<le> l"
    using assms group_labels_nonneg unfolding Inr token_def by auto
  then have "\<forall>l \<in> set ls. 0 \<le> l \<Longrightarrow> concat (map (\<lambda>l. group_labels (label_text l)) ls) = ls" for ls
    by (induction ls) (simp_all add: label_word(2))
  from this[of "filter (\<lambda>l. l \<notin> invalid) (group_labels m)"] show ?thesis
    using \<open>\<forall>l \<in> set (group_labels m). 0 \<le> l\<close> by (simp add: Inr token_out_def token_labels_def comp_def)
qed (simp add: token_out_def token_labels_def)

lemma cited_after_stripping:
  assumes "no_stray_bracket t"
  shows "cited_labels (strip_labels t invalid) = filter (\<lambda>l. l \<notin> invalid) (cited_labels t)"
proof -
  define xs where "xs = rx_scan CITATION [] t"
  have xs: "list_all token xs"
    using tokens_of_text[OF assms] by (simp add: xs_def)
  then have "list_all token (concat (map (token_out invalid) xs))"
    using token_out_ok by (auto simp: list_all_iff)
  then have "cited_labels (strip_labels t invalid) = concat (map token_labels (concat (map (token_out invalid) xs)))"
    by (simp add: cited_tokens strip_labels_tokens scan_tokens xs_def)
  also have "\<dots> = filter (\<lambda>l. l \<notin> invalid) (concat (map token_labels xs))"
    using xs by (induction xs) (simp_all add: token_out_labels)
  finally show ?thesis by (simp add: cited_tokens xs_def)
qed

section \<open>Validated answers\<close>

lemma confidence_cong:
  "an_refused a = an_refused b \<Longrightarrow> an_citations a = an_citations b \<Longrightarrow>
   an_invalid_citations a = an_invalid_citations b \<Longrightarrow> confidence_of a p h = confidence_of b p h"
  by (simp only: confidence_of_def)

definition text_labels :: "string \<Rightarrow> int set" where
  "text_labels t = set (cited_labels (strip t))"

definition offered :: "generation_prompt \<Rightarrow> int set" where
  "offered prompt = int ` gp_valid_labels prompt"

lemma validate_fields:
  "an_citations (validate t p prompt) = filter (\<lambda>c. int (ct_label c) \<in> text_labels t \<inter> offered prompt) (cp_citations p)" (is ?citations)
  "an_invalid_citations (validate t p prompt) = sorted_list_of_set (text_labels t - offered prompt)" (is ?invalid)
  "an_text (validate t p prompt) = (if text_labels t \<subseteq> offered prompt then strip t
     else strip_labels (strip t) (text_labels t - offered prompt))" (is ?text)
  "an_confidence_band (validate t p prompt) = band_from_score (an_confidence (validate t p prompt))" (is ?band)
  "an_refused (validate t p prompt) = False" (is ?refused)
  "set (cp_warnings p) \<subseteq> set (an_warnings (validate t p prompt))" (is ?warnings)
  "an_confidence (validate t p prompt) = confidence_of (validate t p prompt) p (honest_non_answer (an_text (validate t p prompt)))" (is ?confidence)
  "an_needs_review (validate t p prompt) \<longleftrightarrow> \<not> text_labels t \<subseteq> offered prompt \<or>
     an_confidence_band (validate t p prompt) = CB_LOW \<or>
     length (an_text (validate t p prompt)) > 160 \<and> text_labels t \<inter> offered prompt = {} \<and>
       \<not> honest_non_answer (an_text (validate t p prompt))" (is ?review)
proof -
  define cited where "cited = text_labels t \<inter> offered prompt"
  define invalid where "invalid = text_labels t - offered prompt"
  define bad where "bad = sorted_list_of_set invalid"
  define shown where "shown = (if bad = [] then strip t else strip_labels (strip t) invalid)"
  define cs where "cs = filter (\<lambda>c. int (ct_label c) \<in> cited) (cp_citations p)"
  define honest where "honest = honest_non_answer shown"
  define uncited where "uncited = (length shown > TRIVIAL_ANSWER_CHARS \<and> cited = {} \<and> \<not> honest)"
  define a where "a = \<lparr>an_text = shown, an_citations = cs, an_confidence = 0, an_confidence_band = CB_LOW,
                 an_response_format = gp_response_format prompt, an_refused = False, an_refusal_category = None,
                 an_invalid_citations = bad, an_warnings = [], an_prompt_id = gp_prompt_id prompt,
                 an_needs_review = False\<rparr>"
  define conf where "conf = confidence_of a p honest"
  define band where "band = band_from_score conf"
  define warns where "warns = (if bad = [] then [] else [fabricated_warning bad]) @
               (if uncited then [uncited_warning] else []) @
               (if cp_dropped p = 0 then [] else [subset_warning (cp_dropped p)]) @ cp_warnings p"
  have v: "validate t p prompt = a\<lparr>an_confidence := conf, an_confidence_band := band,
             an_needs_review := (bad \<noteq> [] \<or> uncited \<or> band = CB_LOW), an_warnings := warns\<rparr>"
    unfolding warns_def band_def conf_def a_def uncited_def honest_def cs_def shown_def bad_def invalid_def cited_def
      validate_def parse_citations_def text_labels_def offered_def Let_def prod.case ..
  have "finite (text_labels t)"
    by (simp add: text_labels_def)
  then have bad: "bad = [] \<longleftrightarrow> text_labels t \<subseteq> offered prompt"
    by (simp add: bad_def invalid_def)
  show ?citations ?invalid ?band ?refused
    by (simp_all add: v a_def cs_def cited_def bad_def invalid_def band_def)
  have "set (cp_warnings p) \<subseteq> set warns"
    unfolding warns_def set_append by blast
  then show ?warnings
    by (simp add: v a_def)
  show ?text
    by (simp add: v a_def shown_def bad invalid_def[symmetric])
  have "an_text (validate t p prompt) = shown" "an_confidence_band (validate t p prompt) = band"
    by (simp_all add: v a_def)
  then show ?review
    unfolding v using bad by (auto simp: uncited_def honest_def cited_def TRIVIAL_ANSWER_CHARS_def)
  have "conf = confidence_of (validate t p prompt) p honest"
    unfolding conf_def v by (rule confidence_cong) (simp_all add: a_def)
  then show ?confidence
    by (simp add: \<open>an_text (validate t p prompt) = shown\<close> honest_def) (simp add: v)
qed

lemma round4_bounds: "0 \<le> q \<Longrightarrow> q \<le> of_int n / 10000 \<Longrightarrow> 0 \<le> round4 q \<and> round4 q \<le> of_int n / 10000"
proof -
  assume q: "0 \<le> q" "q \<le> of_int n / 10000"
  have "0 \<le> q * 10000" "q * 10000 \<le> of_int n"
    using q by (simp_all add: field_simps)
  then have "round_half_even 0 \<le> round_half_even (q * 10000)" "round_half_even (q * 10000) \<le> round_half_even (of_int n)"
    by (blast intro: round_half_even_mono)+
  then have "0 \<le> round_half_even (q * 10000)" "round_half_even (q * 10000) \<le> n"
    by (simp_all only: round_half_even_zero round_half_even_of_int)
  then show ?thesis
    by (simp add: round4_def)
qed

lemma evidence_strength_bounds: "0 \<le> evidence_strength cs" "evidence_strength cs \<le> 1"
  by (simp_all add: evidence_strength_def)

text \<open>The score of a cited answer is a mean of coverage and strength, cut down when something was
  fabricated.\<close>

lemma confidence_bounds:
  "0 \<le> confidence_of a p h \<and> confidence_of a p h \<le> 1 \<and>
   (an_citations a \<noteq> [] \<and> an_invalid_citations a \<noteq> [] \<longrightarrow> confidence_of a p h \<le> 1 / 2)"
proof (cases "an_refused a \<or> an_citations a = []")
  case True
  then consider "an_refused a" | "\<not> an_refused a" "an_citations a = []"
    by blast
  then show ?thesis
  proof cases
    case 2
    then have "confidence_of a p h = (if h then if cp_citations p \<noteq> [] then 3 / 4 else 3 / 5 else 3 / 20)"
      by (simp only: confidence_of_def if_True if_False simp_thms)
    then show ?thesis using 2 by simp
  qed (simp add: confidence_of_def)
next
  case False
  define coverage where "coverage = min (of_nat (length (an_citations a)) / of_nat (min (max (length (cp_citations p)) 1) 5)) (1 :: rat)"
  define score where "score = 11 / 20 * coverage + 9 / 20 * evidence_strength (an_citations a)"
  define score1 where "score1 = (if an_invalid_citations a \<noteq> [] then score * (1 / 2) else score)"
  define score2 where "score2 = (if cp_dropped p \<noteq> 0 then score1 * (9 / 10) else score1)"
  have out: "confidence_of a p h = round4 (max 0 (min score2 1))"
    using False unfolding score2_def score1_def score_def coverage_def
    by (simp only: confidence_of_def Let_def if_False simp_thms de_Morgan_disj)
  have "0 \<le> coverage" "coverage \<le> 1"
    by (simp_all add: coverage_def)
  then have score: "0 \<le> score" "score \<le> 1"
    using evidence_strength_bounds[of "an_citations a"] by (simp_all add: score_def)
  have half: "an_invalid_citations a \<noteq> [] \<longrightarrow> score2 \<le> 1 / 2"
    using score by (auto simp: score2_def score1_def)
  have "0 \<le> round4 (max 0 (min score2 1)) \<and> round4 (max 0 (min score2 1)) \<le> of_int 10000 / 10000"
    by (rule round4_bounds) simp_all
  moreover have "an_invalid_citations a \<noteq> [] \<longrightarrow> round4 (max 0 (min score2 1)) \<le> of_int 5000 / 10000"
    using half by (intro impI round4_bounds[THEN conjunct2]) auto
  ultimately show ?thesis
    by (simp add: out)
qed

text \<open>C32: A validated answer shows only citations of the context that its text names, and reports every
  label that was never offered. Such an answer, a low band and a long answer without citations are
  marked for review; confidence lies between 0 and 1, at most a half for citations among fabricated
  ones, and no warning of the context is lost.\<close>

theorem answer_is_validated:
  fixes nfkc p fmt t
  defines "a \<equiv> validate t p (build_prompt nfkc p fmt)"
  shows "(\<forall>c. c \<in> set (an_citations a) \<longleftrightarrow> c \<in> set (cp_citations p) \<and> int (ct_label c) \<in> text_labels t) \<and>
    set (an_invalid_citations a) = text_labels t - int ` valid_labels p \<and>
    (an_needs_review a \<or> an_invalid_citations a = [] \<and> an_confidence_band a \<noteq> CB_LOW \<and>
       (an_citations a \<noteq> [] \<or> length (an_text a) \<le> 160 \<or> honest_non_answer (an_text a))) \<and>
    0 \<le> an_confidence a \<and> an_confidence a \<le> 1 \<and>
    (an_citations a = [] \<or> an_invalid_citations a = [] \<or> an_confidence a \<le> 1 / 2) \<and>
    an_confidence_band a = band_from_score (an_confidence a) \<and> set (cp_warnings p) \<subseteq> set (an_warnings a)"
proof -
  define prompt where "prompt = build_prompt nfkc p fmt"
  note fields = validate_fields[where t = t and p = p and prompt = prompt, folded a_def[folded prompt_def]]
  have offered: "offered prompt = int ` valid_labels p"
    by (simp add: prompt_def build_prompt_def offered_def)
  have member: "c \<in> set (cp_citations p) \<Longrightarrow> int (ct_label c) \<in> offered prompt" for c
    by (auto simp: offered valid_labels_def)
  have cites: "\<forall>c. c \<in> set (an_citations a) \<longleftrightarrow> c \<in> set (cp_citations p) \<and> int (ct_label c) \<in> text_labels t"
    using member by (auto simp: fields(1))
  have "finite (text_labels t)"
    by (simp add: text_labels_def)
  then have invalid: "set (an_invalid_citations a) = text_labels t - int ` valid_labels p"
    and none: "an_invalid_citations a = [] \<longleftrightarrow> text_labels t \<subseteq> offered prompt"
    by (simp_all add: fields(2) offered)
  have "an_citations a = [] \<Longrightarrow> text_labels t \<inter> offered prompt = {}"
    using cites by (auto simp: offered valid_labels_def)
  then have review: "an_needs_review a \<or> an_invalid_citations a = [] \<and> an_confidence_band a \<noteq> CB_LOW \<and>
       (an_citations a \<noteq> [] \<or> length (an_text a) \<le> 160 \<or> honest_non_answer (an_text a))"
    using fields(8) none by auto
  show ?thesis
    using cites invalid review fields(4,6) confidence_bounds[of a p "honest_non_answer (an_text a)", folded fields(7)] by blast
qed

text \<open>What stripping leaves in the text is exactly what the answer can resolve, as long as every opening
  bracket of the generated text opens a citation.\<close>

theorem stripped_answer_resolves:
  assumes "no_stray_bracket (strip t)"
  shows "set (cited_labels (an_text (validate t p (build_prompt nfkc p fmt)))) =
    (\<lambda>c. int (ct_label c)) ` set (an_citations (validate t p (build_prompt nfkc p fmt)))"
proof -
  define prompt where "prompt = build_prompt nfkc p fmt"
  have offered: "offered prompt = (\<lambda>c. int (ct_label c)) ` set (cp_citations p)"
    by (auto simp: prompt_def build_prompt_def offered_def valid_labels_def)
  have "set (cited_labels (an_text (validate t p prompt))) = text_labels t \<inter> offered prompt"
    using cited_after_stripping[OF assms] by (auto simp: validate_fields(3) text_labels_def)
  also have "\<dots> = (\<lambda>c. int (ct_label c)) ` set (an_citations (validate t p prompt))"
    unfolding validate_fields(1) offered by auto
  finally show ?thesis by (simp add: prompt_def)
qed

text \<open>Without that condition it can leave a citation nobody checked: from \<open>[[99]5]\<close>, where 99 was never offered,
  stripping makes \<open>[5]\<close>, which the text now cites and the answer does not list.\<close>

theorem stripping_forges_a_citation:
  "cited_labels (strip_labels ''[[99]5]'' {99}) = [5] \<and> cited_labels ''[[99]5]'' = [99]"
proof -
  have digits: "decimal 99 = ''99''" "decimal 5 = ''5''"
    by (simp_all add: decimal.simps hex_digit_def)
  have words: "''[99]'' \<in> rx_lang CITATION" "''[5]'' \<in> rx_lang CITATION"
    and labels: "group_labels ''[99]'' = [99]" "group_labels ''[5]'' = [5]"
    using label_word[of 99] label_word[of 5] by (simp_all add: label_text_nat digits)
  have open_bracket: "rx_match CITATION [] ''[[99]5]'' = []"
  proof (cases "rx_match CITATION [] ''[[99]5]''")
    case (Cons q qs)
    obtain v where v: "v \<in> rx_lang CITATION" "''[[99]5]'' = v @ snd q"
      using rx_match_prefix[of CITATION "[]" "''[[99]5]''" "fst q" "snd q" qs] Cons by auto
    obtain g where g: "v = CHR ''['' # g @ [CHR '']'']" "list_all group_char g"
      using citation_word[OF v(1)] by blast
    have "g @ CHR '']'' # snd q = ''[99]5]''"
      using v(2) g(1) by simp
    then show ?thesis
      using g(2) group_char_plain[of "CHR ''[''"] by (cases g) auto
  qed simp
  have "rx_scan CITATION [] ''[[99]5]'' = Inl CHR ''['' # rx_scan CITATION ''['' (''[99]'' @ ''5]'')"
    using open_bracket by (simp add: rx_scan_Cons)
  also have "rx_scan CITATION ''['' (''[99]'' @ ''5]'') = [Inr ''[99]'', Inl CHR ''5'', Inl CHR '']'']"
    unfolding scan_word[OF words(1)] by (simp add: scan_char)
  finally have first: "rx_scan CITATION [] ''[[99]5]'' = [Inl CHR ''['', Inr ''[99]'', Inl CHR ''5'', Inl CHR '']'']" .
  then have "strip_labels ''[[99]5]'' {99} = ''[5]''"
    by (simp add: strip_labels_def rx_sub_def labels)
  moreover have "rx_scan CITATION [] ''[5]'' = [Inr ''[5]'']"
    using scan_word[OF words(2), of "[]" "[]"] by simp
  ultimately show ?thesis
    by (simp add: cited_tokens first token_labels_def labels)
qed

section \<open>The engine\<close>

text \<open>The engine answers without a provider call when the context is empty, passes a provider error on,
  reports a refusal as one, and otherwise validates against the labels of the very context it was
  given.\<close>

theorem engine_outcomes:
  assumes "\<not> package_is_empty p"
  shows "(\<forall>e. provider (build_prompt nfkc p fmt) = GenError e \<longrightarrow> rag_answer nfkc provider p fmt = Inl e) \<and>
    (\<forall>cat. provider (build_prompt nfkc p fmt) = GenRefused cat \<longrightarrow>
      (\<exists>a. rag_answer nfkc provider p fmt = Inr a \<and> an_refused a \<and> an_needs_review a \<and> an_citations a = [] \<and>
        an_confidence a = 0)) \<and>
    (\<forall>t. provider (build_prompt nfkc p fmt) = GenText t \<longrightarrow>
      (\<exists>a. rag_answer nfkc provider p fmt = Inr a \<and> \<not> an_refused a \<and> set (an_citations a) \<subseteq> set (cp_citations p))) \<and>
    (\<forall>q. package_is_empty q \<longrightarrow> (\<forall>provider'. rag_answer nfkc provider' q fmt = Inr (empty_answer q (build_prompt nfkc q fmt))))"
  using assms by (simp add: rag_answer_def Let_def blank_answer_def validate_fields)

section \<open>Witnesses\<close>

lemmas sample_package_defs = sample_package_def sample_citation_def to_citation_def sample_evidence_def

theorem answer_is_validated_witness:
  "0 \<le> an_confidence (validate ''see [1]'' (sample_package ''Lease'') (build_prompt (\<lambda>s. s) (sample_package ''Lease'') None)) \<and>
   valid_labels (sample_package ''Lease'') = {1}"
  using answer_is_validated[of "''see [1]''" "sample_package ''Lease''" "\<lambda>s. s" None]
  by (simp add: valid_labels_def sample_package_defs)

theorem stripped_answer_resolves_witness:
  "set (cited_labels (an_text (validate ''x'' (sample_package ''Lease'') (build_prompt (\<lambda>s. s) (sample_package ''Lease'') None)))) = {}"
proof -
  have scan: "rx_scan CITATION [] ''x'' = [Inl CHR ''x'']"
    using scan_char[of "CHR ''x''" "[]" "[]"] by simp
  then have "no_stray_bracket (strip ''x'')"
    by (simp add: no_stray_bracket_def rx_sub_pieces strip_def is_space_def)
  moreover have "text_labels ''x'' = {}"
    using scan by (simp add: text_labels_def cited_tokens strip_def is_space_def token_labels_def)
  ultimately show ?thesis
    using stripped_answer_resolves[of "''x''" "sample_package ''Lease''" "\<lambda>s. s" None]
    by (simp add: validate_fields)
qed

theorem engine_outcomes_witness:
  "rag_answer (\<lambda>s. s) (\<lambda>_. GenError (RuntimeError ''down'')) (sample_package ''Lease'') None = Inl (RuntimeError ''down'')"
  using engine_outcomes[of "sample_package ''Lease''" "\<lambda>_. GenError (RuntimeError ''down'')" "\<lambda>s. s" None]
  by (simp add: package_is_empty_def sample_package_def)

end
