(* ===== verification/RetrievalLaws.thy ===== *)
theory RetrievalLaws
  imports Retrieval RankingLaws
begin

text \<open>
  The laws of retrieval: nothing outside the projects of the plan is ever returned, a plan that names
  contracts returns only those, and the fail-safe outcomes.
\<close>

text \<open>What scope is about: the level, project, contract, text and chunk of a piece of evidence. Every step
  after the searches leaves them alone.\<close>

definition core :: "evidence \<Rightarrow> embedding_level \<times> uuid \<times> uuid \<times> string \<times> uuid option" where
  "core e = (ev_level e, ev_project_id e, ev_contract_id e, ev_text e, ev_chunk_id e)"

definition text_source :: "retrieval_db \<Rightarrow> uuid set \<Rightarrow> uuid \<Rightarrow> string \<Rightarrow> bool" where
  "text_source db P cid t \<longleftrightarrow> t = [] \<or>
     (\<exists>em \<in> set (rd_embeddings db). em_project_id em \<in> P \<and> em_contract_id em = cid \<and> em_source_text em = Some t) \<or>
     (\<exists>ck \<in> set (rd_chunks db). ck_project_id ck \<in> P \<and> ck_contract_id ck = cid \<and> ck_text ck = t) \<or>
     (\<exists>cl \<in> set (rd_clauses db). cl_project_id cl \<in> P \<and> cl_contract_id cl = cid \<and> cl_text cl = t)"

definition in_core :: "retrieval_db \<Rightarrow> uuid set \<Rightarrow> uuid set \<Rightarrow> embedding_level \<times> uuid \<times> uuid \<times> string \<times> uuid option \<Rightarrow> bool" where
  "in_core db P K x = (case x of (l, pid, cid, t, chunk) \<Rightarrow>
     pid \<in> P \<and> cid \<in> K \<and> text_source db P cid t \<and>
     (l = EL_CHUNK \<longrightarrow> (\<forall>ck \<in> set (rd_chunks db). chunk = Some (ck_id ck) \<longrightarrow> ck_contract_id ck = cid)))"

definition fits :: "retrieval_db \<Rightarrow> uuid set \<Rightarrow> uuid set \<Rightarrow> evidence \<Rightarrow> bool" where
  "fits db P K e \<longleftrightarrow> in_core db P K (core e)"

lemma fits_core: "core e = core e' \<Longrightarrow> fits db P K e = fits db P K e'"
  by (simp add: fits_def)

text \<open>The index is consistent: a vector row belongs to the project and contract of the row it was made from,
  and says so in its metadata. The indexing stage writes it that way.\<close>

definition index_ok :: "retrieval_db \<Rightarrow> bool" where
  "index_ok db \<longleftrightarrow> distinct (map ck_id (rd_chunks db)) \<and>
     (\<forall>em \<in> set (rd_embeddings db).
        (\<forall>u v. dict_get (em_filter_metadata em) ''project_id'' = Some v \<and> uuid_parse (py_str v) = Some u \<longrightarrow> u = em_project_id em) \<and>
        (em_level em = EL_CHUNK \<longrightarrow> (\<forall>ck \<in> set (rd_chunks db). ck_id ck = em_ref_id em \<longrightarrow>
           ck_project_id ck = em_project_id em \<and> ck_contract_id ck = em_contract_id em)) \<and>
        (em_level em = EL_CLAUSE \<longrightarrow> (\<forall>cl \<in> set (rd_clauses db). cl_id cl = em_ref_id em \<longrightarrow>
           cl_project_id cl = em_project_id em \<and> cl_contract_id cl = em_contract_id em)))"

text \<open>The contracts a search may return, given its candidate list.\<close>

definition allowed :: "uuid set \<Rightarrow> uuid list \<Rightarrow> bool" where
  "allowed K candidates \<longleftrightarrow> K = UNIV \<or> candidates \<noteq> [] \<and> set candidates \<subseteq> K"

lemma allowedD: "allowed K cs \<Longrightarrow> cs = [] \<or> c \<in> set cs \<Longrightarrow> c \<in> K"
  by (auto simp: allowed_def)

section \<open>Steps that keep the core\<close>

lemma core_updates [simp]:
  "core (e\<lparr>ev_rank := i\<rparr>) = core e" "core (e\<lparr>ev_score := q\<rparr>) = core e" "core (e\<lparr>ev_similarity := s\<rparr>) = core e"
  "core (e\<lparr>ev_source := t\<rparr>) = core e" "core (e\<lparr>ev_contract_title := tt\<rparr>) = core e"
  "core (e\<lparr>ev_metadata := d\<rparr>) = core e" "core (e\<lparr>ev_rerank_score := s\<rparr>) = core e"
  by (simp_all add: core_def)

lemma same_passage_core: "same_passage a b \<Longrightarrow> core a = core b"
proof -
  assume "same_passage a b"
  then have "core (a\<lparr>ev_metadata := [], ev_rank := 0, ev_source := [], ev_rerank_score := None\<rparr>) =
      core (b\<lparr>ev_metadata := [], ev_rank := 0, ev_source := [], ev_rerank_score := None\<rparr>)"
    unfolding same_passage_def by (rule arg_cong)
  then show ?thesis by simp
qed

lemma unranked_core: "unranked a = unranked b \<Longrightarrow> core a = core b"
proof -
  assume "unranked a = unranked b"
  then have "core (unranked a) = core (unranked b)"
    by (rule arg_cong)
  then show ?thesis
    by (simp add: unranked_def)
qed

lemma core_attach_title [simp]: "core (attach_title db e) = core e"
  by (simp add: attach_title_def)

lemma fuse_from:
  assumes "e \<in> set (fuse vs ks n)"
  shows "\<exists>e0 \<in> set vs \<union> set ks. core e = core e0"
proof -
  obtain scores items where acc: "fuse_leg ks (fuse_leg vs ([], [])) = (scores, items)"
    by force
  note legs = fuse_legs[where vs = vs and ks = ks, unfolded acc fst_conv snd_conv]
  obtain kq i where kq: "kq \<in> set scores" "e = (fused_item vs ks items kq)\<lparr>ev_rank := i\<rparr>"
    using assms by (auto simp: fuse_def acc dest!: set_ranked in_set_takeD)
  obtain k q where k: "kq = (k, q)" by (cases kq)
  have "k \<in> hit_keys vs ks"
    using kq(1) k legs(2) by force
  then obtain e0 where "dict_get items k = Some e0" "e0 \<in> set vs \<union> set ks"
    using legs(4) by blast
  then show ?thesis
    using kq(2) k by (intro bexI[of _ e0]) (simp_all add: fused_item_def Let_def)
qed

lemma applied_from:
  assumes "apply_ranking raw xs = Inr ys" "x \<in> set ys"
  shows "\<exists>e0 \<in> set xs. core x = core e0"
proof -
  have "unranked x \<in># image_mset unranked (mset ys)"
    using assms(2) by auto
  then obtain e0 where "e0 \<in> set xs" "unranked x = unranked e0"
    unfolding apply_ranking_laws(2)[OF assms(1)] by auto
  then show ?thesis using unranked_core by blast
qed

lemma reranked_from:
  assumes "apply_reranker enabled answer xs m = Inr ys" "x \<in> set ys"
  shows "\<exists>e0 \<in> set xs. core x = core e0"
proof (cases "enabled \<and> \<not> length xs \<le> 1 \<and> answer \<noteq> None")
  case True
  then obtain raw where raw: "answer = Some raw" by blast
  have "xs \<noteq> []" using True by auto
  then obtain zs where "apply_ranking raw xs = Inr zs" "ys = take m zs"
    using assms(1) True raw by (cases "apply_ranking raw xs") (auto simp: apply_reranker_def llm_rerank_def)
  then show ?thesis
    using assms(2) applied_from by (blast dest: in_set_takeD)
next
  case False
  then have "x \<in> set xs"
    using assms by (auto simp: apply_reranker_def llm_rerank_def noop_rerank_def split: if_splits dest!: in_set_takeD)
  then show ?thesis by blast
qed

lemma rerank_from:
  assumes "rerank_evidence enabled k answer es = Inr out" "e \<in> set out"
  shows "\<exists>e0 \<in> set es. core e = core e0"
  using assms reranked_from[of enabled answer "filter (\<lambda>e. \<not> is_expansion e) es"]
  by (fastforce simp: rerank_evidence_def Let_def split: if_splits sum.splits)

section \<open>The searches\<close>

lemma vector_hits_from:
  "vector_hits env plan qv n ems = Inr es \<Longrightarrow> e \<in> set es \<Longrightarrow>
    \<exists>em \<in> set ems. \<exists>pid r. hit_project plan em = Inr pid \<and> e = vector_hit env qv r pid em"
proof (induction env plan qv n ems arbitrary: es rule: vector_hits.induct)
  case (2 env plan qv n em ems)
  obtain pid rest where step: "hit_project plan em = Inr pid" "vector_hits env plan qv (n + 1) ems = Inr rest"
    "es = vector_hit env qv n pid em # rest"
    using "2.prems"(1) by (auto split: sum.splits)
  show ?case
  proof (cases "e \<in> set rest")
    case True
    then show ?thesis
      using "2.IH"[OF step(1,2)] by (meson list.set_intros(2))
  next
    case False
    then have "e = vector_hit env qv n pid em"
      using "2.prems"(2) step(3) by simp
    then show ?thesis
      using step(1) by (intro bexI[of _ em] exI[of _ pid] exI[of _ n]) simp_all
  qed
qed simp

lemma hit_project_ok:
  assumes "index_ok db" "em \<in> set (rd_embeddings db)" "hit_project plan em = Inr pid" "is_scoped plan"
    "em_project_id em \<in> set (rp_project_ids plan)"
  shows "pid \<in> set (rp_project_ids plan)"
  using assms
  by (auto simp: hit_project_def index_ok_def is_scoped_def truthy_opt_def split: if_splits option.splits)

lemma text_source_rows:
  "ck \<in> set (rd_chunks db) \<Longrightarrow> ck_project_id ck \<in> P \<Longrightarrow> text_source db P (ck_contract_id ck) (ck_text ck)"
  "cl \<in> set (rd_clauses db) \<Longrightarrow> cl_project_id cl \<in> P \<Longrightarrow> text_source db P (cl_contract_id cl) (cl_text cl)"
  by (auto simp: text_source_def)

lemma text_source_or: "text_source db P c a \<Longrightarrow> text_source db P c b \<Longrightarrow> text_source db P c (or_text a b)"
  by (simp add: or_text_def)

lemma hydrated_fits:
  fixes env qv r
  assumes "index_ok db" "em \<in> set (rd_embeddings db)" "em_project_id em \<in> P" "pid \<in> P" "em_contract_id em \<in> K"
  defines "e \<equiv> vector_hit env qv r pid em"
  shows "fits db P K (case ev_level e of EL_CHUNK \<Rightarrow> hydrate_chunk db e | EL_CLAUSE \<Rightarrow> hydrate_clause db e | EL_DOCUMENT_SUMMARY \<Rightarrow> e)"
proof -
  have e: "ev_level e = em_level em" "ev_ref_id e = em_ref_id em" "ev_contract_id e = em_contract_id em"
    "ev_project_id e = pid" "ev_chunk_id e = None"
    and body: "ev_text e = [] \<or> em_source_text em = Some (ev_text e)"
    by (auto simp: e_def vector_hit_def blank_evidence_def Let_def split: option.splits)
  have own: "text_source db P (em_contract_id em) (ev_text e)"
    using body assms(2,3) by (auto simp: text_source_def)
  show ?thesis
  proof (cases "em_level em")
    case EL_CHUNK
    show ?thesis
    proof (cases "List.find (\<lambda>ck. ck_id ck = ev_ref_id e) (rd_chunks db)")
      case None
      then show ?thesis
        using own assms(4,5) e by (simp add: EL_CHUNK hydrate_chunk_def fits_def in_core_def core_def)
    next
      case (Some ck)
      then have ck: "ck \<in> set (rd_chunks db)" "ck_id ck = em_ref_id em"
        using e by (auto dest: find_SomeD)
      have row: "\<forall>x \<in> set (rd_chunks db). ck_id x = em_ref_id em \<longrightarrow> ck_project_id x = em_project_id em \<and> ck_contract_id x = em_contract_id em"
        using assms(1,2) EL_CHUNK unfolding index_ok_def by blast
      have "text_source db P (em_contract_id em) (or_text (ev_text e) (ck_text ck))"
        using text_source_or[OF own] text_source_rows(1)[OF ck(1), of P] row ck assms(3) by simp
      then show ?thesis
        using Some row ck assms(4,5) e by (simp add: EL_CHUNK hydrate_chunk_def fits_def in_core_def core_def)
    qed
  next
    case EL_CLAUSE
    show ?thesis
    proof (cases "List.find (\<lambda>cl. cl_id cl = ev_ref_id e) (rd_clauses db)")
      case None
      then show ?thesis
        using own assms(4,5) e by (simp add: EL_CLAUSE hydrate_clause_def fits_def in_core_def core_def)
    next
      case (Some cl)
      then have cl: "cl \<in> set (rd_clauses db)" "cl_id cl = em_ref_id em"
        using e by (auto dest: find_SomeD)
      have row: "cl_project_id cl = em_project_id em" "cl_contract_id cl = em_contract_id em"
        using assms(1,2) EL_CLAUSE cl unfolding index_ok_def by blast+
      have "text_source db P (em_contract_id em) (or_text (ev_text e) (cl_text cl))"
        using text_source_or[OF own] text_source_rows(2)[OF cl(1), of P] row assms(3) by simp
      then show ?thesis
        using Some assms(4,5) e by (simp add: EL_CLAUSE hydrate_clause_def fits_def in_core_def core_def)
    qed
  next
    case EL_DOCUMENT_SUMMARY
    then show ?thesis
      using own assms(4,5) e by (simp add: fits_def in_core_def core_def)
  qed
qed

lemma vector_search_fits:
  assumes "index_ok db" "is_scoped plan" "allowed K candidates" "P = set (rp_project_ids plan)"
    "vector_search env plan b candidates qv db = Inr es" "e \<in> set es"
  shows "fits db P K e"
proof -
  obtain hits where hits: "vector_hits env plan qv 1 (embedding_search env plan b candidates qv db) = Inr hits"
    "es = hydrate db hits"
    using assms(5) by (auto simp: vector_search_def map_sum_def split: sum.splits)
  obtain h where h: "h \<in> set hits"
    "e = attach_title db (case ev_level h of EL_CHUNK \<Rightarrow> hydrate_chunk db h | EL_CLAUSE \<Rightarrow> hydrate_clause db h
      | EL_DOCUMENT_SUMMARY \<Rightarrow> h)"
    using assms(6) hits(2) by (auto simp: hydrate_def)
  obtain em pid r where em: "em \<in> set (embedding_search env plan b candidates qv db)" "hit_project plan em = Inr pid"
    "h = vector_hit env qv r pid em"
    using vector_hits_from[OF hits(1) h(1)] by blast
  have row: "em \<in> set (rd_embeddings db)" "em_project_id em \<in> P" "candidates = [] \<or> em_contract_id em \<in> set candidates"
    using em(1) assms(4)
    by (auto simp: embedding_search_def embedding_matches_def split: if_splits dest!: in_set_takeD)
  have "pid \<in> P"
    using hit_project_ok[OF assms(1) row(1) em(2) assms(2)] row(2) assms(4) by simp
  then have "fits db P K (case ev_level h of EL_CHUNK \<Rightarrow> hydrate_chunk db h | EL_CLAUSE \<Rightarrow> hydrate_clause db h
      | EL_DOCUMENT_SUMMARY \<Rightarrow> h)"
    unfolding em(3) by (rule hydrated_fits[OF assms(1) row(1,2) _ allowedD[OF assms(3) row(3)]])
  then show ?thesis
    unfolding h(2) by (rule fits_core[THEN iffD1, rotated]) simp
qed

lemma chunk_fits:
  assumes "index_ok db" "ck \<in> set (rd_chunks db)" "ck_project_id ck \<in> P" "ck_contract_id ck \<in> K"
    "core e = (EL_CHUNK, ck_project_id ck, ck_contract_id ck, ck_text ck, Some (ck_id ck))"
  shows "fits db P K e"
proof -
  have "\<forall>x \<in> set (rd_chunks db). ck_id ck = ck_id x \<longrightarrow> ck_contract_id x = ck_contract_id ck"
    using assms(1,2) by (auto simp: index_ok_def distinct_map dest: inj_onD)
  then show ?thesis
    using text_source_rows(1)[OF assms(2,3)] assms(3,4)
    by (simp add: fits_def in_core_def assms(5))
qed

lemma keyword_search_fits:
  assumes "index_ok db" "allowed K candidates" "P = set (rp_project_ids plan)" "e \<in> set (keyword_search env plan b candidates db)"
  shows "fits db P K e"
proof -
  obtain r ck where ck: "e = keyword_hit env (rp_query plan) (r, ck)" "ck \<in> set (rd_chunks db)" "ck_project_id ck \<in> P"
    "candidates = [] \<or> ck_contract_id ck \<in> set candidates"
    using assms(3,4)
    by (auto simp: keyword_search_def enumerate_eq_zip split: if_splits dest!: set_zip_rightD in_set_takeD)
  show ?thesis
    using assms(1) ck(2,3) allowedD[OF assms(2) ck(4)]
    by (rule chunk_fits) (simp add: ck(1) keyword_hit_def blank_evidence_def core_def)
qed

definition descent_ok :: "retrieval_db \<Rightarrow> uuid set \<Rightarrow> uuid set \<Rightarrow> descent \<Rightarrow> bool" where
  "descent_ok db P K s \<longleftrightarrow> (\<forall>e \<in> set (ds_evidence s). fits db P K e) \<and> allowed K (ds_candidates s)"

lemma search_level_ok:
  assumes "index_ok db" "is_scoped plan" "P = set (rp_project_ids plan)" "descent_ok db P K s"
    "search_level env plan db qv b s = Inr s'"
  shows "descent_ok db P K s'"
proof -
  have cands: "allowed K (ds_candidates s)" and old: "\<forall>e \<in> set (ds_evidence s). fits db P K e"
    using assms(4) by (simp_all add: descent_ok_def)
  define found where "found = (case qv of None \<Rightarrow> Inr [] | Some v \<Rightarrow> if v = [] then Inr [] else vector_search env plan b (ds_candidates s) v db)"
  obtain vs where vs: "found = Inr vs"
    using assms(5) unfolding search_level_def found_def[symmetric] by (cases found) simp_all
  have vs_fit: "\<forall>e \<in> set vs. fits db P K e"
  proof (cases "qv = None \<or> qv = Some []")
    case True
    then have "vs = []" using vs unfolding found_def by (elim disjE) simp_all
    then show ?thesis by simp
  next
    case False
    then obtain v where "qv = Some v" "v \<noteq> []" by (cases qv) simp_all
    then have "vector_search env plan b (ds_candidates s) v db = Inr vs"
      using vs by (simp add: found_def)
    then show ?thesis
      using vector_search_fits[OF assms(1,2) cands assms(3)] by blast
  qed
  define ks where "ks = (if rp_mode plan = SM_SEMANTIC then [] else keyword_search env plan b (ds_candidates s) db)"
  have ks_fit: "\<forall>e \<in> set ks. fits db P K e"
    using keyword_search_fits[OF assms(1) cands assms(3)] by (auto simp: ks_def)
  define merged where "merged = (case rp_mode plan of SM_SEMANTIC \<Rightarrow> vs | SM_KEYWORD \<Rightarrow> ks | SM_HYBRID \<Rightarrow> fuse vs ks (lb_limit b))"
  have merged_fit: "\<forall>e \<in> set merged. fits db P K e"
  proof (cases "rp_mode plan = SM_HYBRID")
    case True
    show ?thesis
    proof
      fix e
      assume "e \<in> set merged"
      then have "\<exists>e0 \<in> set vs \<union> set ks. core e = core e0"
        using True by (intro fuse_from) (simp add: merged_def)
      then show "fits db P K e"
        using vs_fit ks_fit fits_core by blast
    qed
  next
    case False
    then show ?thesis
      using vs_fit ks_fit by (cases "rp_mode plan") (simp_all add: merged_def)
  qed
  have contracts: "e \<in> set merged \<Longrightarrow> ev_contract_id e \<in> K" for e
    using merged_fit by (auto simp: fits_def in_core_def core_def)
  have evidence: "ds_evidence s' = ds_evidence s @ merged"
    and candidates: "ds_candidates s' = ds_candidates s \<or>
      merged \<noteq> [] \<and> ds_candidates s' = take MAX_CANDIDATE_CONTRACTS (map ev_contract_id merged)"
    using assms(5)
    unfolding search_level_def found_def[symmetric] vs sum.case Let_def ks_def[symmetric] merged_def[symmetric] sum.inject
    by (cases "lb_level b = EL_DOCUMENT_SUMMARY \<and> merged \<noteq> []"; simp only: if_True if_False; elim subst; simp)+
  have "allowed K (ds_candidates s')"
    using candidates
  proof
    assume new: "merged \<noteq> [] \<and> ds_candidates s' = take MAX_CANDIDATE_CONTRACTS (map ev_contract_id merged)"
    then have "ds_candidates s' \<noteq> []"
      by (cases merged) (simp_all add: MAX_CANDIDATE_CONTRACTS_def)
    moreover have "set (ds_candidates s') \<subseteq> K"
      using new contracts by (auto dest!: in_set_takeD)
    ultimately show ?thesis by (simp add: allowed_def)
  qed (use cands in simp)
  then show ?thesis
    using old merged_fit by (auto simp: descent_ok_def evidence)
qed

lemma search_levels_ok:
  assumes "index_ok db" "is_scoped plan" "P = set (rp_project_ids plan)"
  shows "descent_ok db P K s \<Longrightarrow> search_levels env plan db qv bs s = Inr s' \<Longrightarrow> descent_ok db P K s'"
proof (induction bs arbitrary: s)
  case (Cons b bs)
  then obtain mid where mid: "search_level env plan db qv b s = Inr mid" "search_levels env plan db qv bs mid = Inr s'"
    by (auto split: sum.splits)
  show ?case
    using Cons.IH[OF search_level_ok[OF assms Cons.prems(1) mid(1)] mid(2)] .
qed simp

section \<open>The expansions\<close>

lemma neighbours_for_many_from:
  assumes "dict_get (neighbours_for_many chunks pid w table) k = Some ns" "r \<in> set ns"
  shows "r \<in> set (scoped_chunks pid table) \<and> (\<exists>c \<in> set chunks. ck_id c = k \<and> ck_contract_id r = ck_contract_id c)"
proof -
  define rows where "rows = filter (\<lambda>r. list_ex (in_span r) (fold (widen_span w) chunks [])) (scoped_chunks pid table)"
  define many where "many c = List.map_filter (\<lambda>i. at_position rows (ck_contract_id c, ck_version c, ck_reading_order c + i)) (offsets w)" for c :: chunk_row
  have found: "r \<in> set (scoped_chunks pid table) \<and> ck_contract_id r = ck_contract_id c" if "r \<in> set (many c)" for c
    using that by (auto simp: many_def in_map_filter at_position_def rows_def dest!: find_SomeD)
  have inv: "\<forall>k ns. dict_get (fold (\<lambda>c d. AList.update (ck_id c) (many c) d) cs d) k = Some ns \<longrightarrow>
      (\<exists>c \<in> set cs. ck_id c = k \<and> ns = many c) \<or> dict_get d k = Some ns" for cs d
  proof (induction cs arbitrary: d)
    case (Cons c cs)
    show ?case
    proof (intro allI impI)
      fix k ns
      assume "dict_get (fold (\<lambda>c d. AList.update (ck_id c) (many c) d) (c # cs) d) k = Some ns"
      then have "(\<exists>x \<in> set cs. ck_id x = k \<and> ns = many x) \<or> dict_get (AList.update (ck_id c) (many c) d) k = Some ns"
        using Cons.IH[of "AList.update (ck_id c) (many c) d"] by simp
      then show "(\<exists>x \<in> set (c # cs). ck_id x = k \<and> ns = many x) \<or> dict_get d k = Some ns"
        by (auto simp: dict_get_alist_update split: if_splits)
    qed
  qed simp
  have "neighbours_for_many chunks pid w table = [] \<or>
      neighbours_for_many chunks pid w table = fold (\<lambda>c d. AList.update (ck_id c) (many c) d) chunks []"
    by (simp add: neighbours_for_many_def Let_def rows_def many_def[abs_def])
  then have "\<exists>c \<in> set chunks. ck_id c = k \<and> ns = many c"
    using assms(1) inv[of chunks "[]"] by (auto simp: dict_get_def)
  then show ?thesis using assms(2) found by blast
qed

definition near_ok :: "retrieval_db \<Rightarrow> uuid set \<Rightarrow> (uuid \<times> chunk_row list) list \<Rightarrow> bool" where
  "near_ok db P near \<longleftrightarrow> (\<forall>k ns r. dict_get near k = Some ns \<and> r \<in> set ns \<longrightarrow>
     r \<in> set (rd_chunks db) \<and> ck_project_id r \<in> P \<and>
     (\<exists>c \<in> set (rd_chunks db). ck_id c = k \<and> ck_contract_id r = ck_contract_id c))"

lemma load_project_ok:
  assumes "near_ok db P near" "pid \<in> P"
  shows "near_ok db P (snd (load_project w db (pid, ids) (chunks_by_id, near)))"
proof -
  let ?new = "neighbours_for_many (list_by_ids ids pid (rd_chunks db)) pid w (rd_chunks db)"
  have "dict_get (dict_update near ?new) k = Some ns \<Longrightarrow>
      dict_get near k = Some ns \<or> (k, ns) \<in> set ?new" for k ns
    by (auto simp: dict_get_def map_of_dict_update split: option.splits dest!: map_of_SomeD)
  moreover have "distinct (map fst ?new)"
  proof -
    have "distinct (map fst (fold (\<lambda>c d. AList.update (ck_id c) (f c) d) cs d))"
      if "distinct (map fst d)" for f :: "chunk_row \<Rightarrow> chunk_row list" and cs d
      using that by (induction cs arbitrary: d) (simp_all add: distinct_update)
    then show ?thesis by (simp add: neighbours_for_many_def Let_def)
  qed
  ultimately have split: "dict_get (dict_update near ?new) k = Some ns \<Longrightarrow>
      dict_get near k = Some ns \<or> dict_get ?new k = Some ns" for k ns
    by (auto simp: dict_get_def)
  have sub: "set (list_by_ids ids pid (rd_chunks db)) \<subseteq> set (rd_chunks db)"
    by (auto simp: list_by_ids_def scoped_chunks_def)
  show ?thesis
    unfolding near_ok_def load_project_def prod.case Let_def snd_conv
  proof (intro allI impI)
    fix k ns r
    assume r: "dict_get (dict_update near ?new) k = Some ns \<and> r \<in> set ns"
    then consider "dict_get near k = Some ns" "r \<in> set ns" | "dict_get ?new k = Some ns" "r \<in> set ns"
      using split[of k ns] by blast
    then show "r \<in> set (rd_chunks db) \<and> ck_project_id r \<in> P \<and>
        (\<exists>c \<in> set (rd_chunks db). ck_id c = k \<and> ck_contract_id r = ck_contract_id c)"
    proof cases
      case 1
      then show ?thesis using assms(1) unfolding near_ok_def by blast
    next
      case 2
      then show ?thesis
        using neighbours_for_many_from[OF 2] sub assms(2) unfolding scoped_chunks_def by fastforce
    qed
  qed
qed

lemma fold_from:
  assumes "x \<in> set (snd (fold f xs acc))"
    "\<And>y acc. y \<in> set xs \<Longrightarrow> x \<in> set (snd (f y acc)) \<Longrightarrow> x \<in> set (snd acc) \<or> Q x"
  shows "x \<in> set (snd acc) \<or> Q x"
  using assms
proof (induction xs arbitrary: acc)
  case (Cons y xs)
  have "x \<in> set (snd (fold f xs (f y acc)))"
    using Cons.prems(1) by simp
  then have "x \<in> set (snd (f y acc)) \<or> Q x"
    using Cons.prems(2) by (rule Cons.IH) (rule list.set_intros(2))
  then show ?case using Cons.prems(2)[of y acc] by auto
qed simp

lemma load_projects_ok:
  "near_ok db P (snd acc) \<Longrightarrow> fst ` set groups \<subseteq> P \<Longrightarrow> near_ok db P (snd (fold (load_project w db) groups acc))"
proof (induction groups arbitrary: acc)
  case (Cons g groups)
  obtain pid ids chunks near where pairs: "g = (pid, ids)" "acc = (chunks, near)"
    by (cases g, cases acc)
  have "near_ok db P (snd (load_project w db g acc))"
    using load_project_ok[of db P near pid w ids chunks] Cons.prems by (simp add: pairs)
  then show ?case
    using Cons by simp
qed simp

lemma seeds_by_project_keys: "fst ` set (seeds_by_project seeds) \<subseteq> ev_project_id ` set seeds"
proof -
  have keys: "fst ` set (fold (\<lambda>e d. AList.update (ev_project_id e) (f e d) d) es d) \<subseteq> fst ` set d \<union> ev_project_id ` set es"
    for f :: "evidence \<Rightarrow> (uuid \<times> uuid list) list \<Rightarrow> uuid list" and es d
  proof (induction es arbitrary: d)
    case (Cons e es)
    have "fst ` set (AList.update (ev_project_id e) (f e d) d) = insert (ev_project_id e) (fst ` set d)"
      by (simp add: dom_update)
    then show ?case
      using Cons.IH[of "AList.update (ev_project_id e) (f e d) d"] by auto
  qed simp
  then show ?thesis
    using keys[of "\<lambda>e d. (case dict_get d (ev_project_id e) of None \<Rightarrow> [] | Some ids \<Rightarrow> ids) @ [the (ev_chunk_id e)]" seeds "[]"]
    unfolding seeds_by_project_def by simp
qed

lemma expand_neighbours_from:
  assumes "x \<in> set (expand_neighbours env plan db es)"
  shows "\<exists>e ck cks. e \<in> set es \<and> ev_level e = EL_CHUNK \<and> ev_chunk_id e \<noteq> None \<and> ck \<in> set cks \<and> x = neighbour_evidence e ck \<and>
    dict_get (snd (fold (load_project (rp_neighbour_window plan) db)
      (seeds_by_project (filter (\<lambda>e. ev_chunk_id e \<noteq> None) (take (re_max_chunks env) (by_level EL_CHUNK es)))) ([], [])))
      (the (ev_chunk_id e)) = Some cks"
proof -
  define seeds where "seeds = filter (\<lambda>e. ev_chunk_id e \<noteq> None) (take (re_max_chunks env) (by_level EL_CHUNK es))"
  obtain chunks_by_id near where loaded:
    "fold (load_project (rp_neighbour_window plan) db) (seeds_by_project seeds) ([], []) = (chunks_by_id, near)"
    by force
  have from_fresh: "x \<in> set (snd acc) \<or> (\<exists>ck \<in> set cks. x = neighbour_evidence e ck)"
    if "x \<in> set (snd (fresh_neighbours e cks acc))" for e cks acc
    using that unfolding fresh_neighbours_def by (rule fold_from) (auto split: if_splits)
  have seed: "e \<in> set es \<and> ev_level e = EL_CHUNK \<and> ev_chunk_id e \<noteq> None" if "e \<in> set seeds" for e
    using that by (auto simp: seeds_def by_level_def dest!: in_set_takeD)
  define step where "step e acc = (if dict_get chunks_by_id (the (ev_chunk_id e)) = None then acc
      else fresh_neighbours e (case dict_get near (the (ev_chunk_id e)) of None \<Rightarrow> [] | Some cks \<Rightarrow> cks) acc)" for e acc
  have "x \<in> set (snd (fold step seeds (set (List.map_filter ev_chunk_id es), [])))"
    using assms unfolding expand_neighbours_def Let_def seeds_def[symmetric] loaded prod.case step_def[abs_def, symmetric]
    by (simp split: if_splits)
  then have "x \<in> set (snd (set (List.map_filter ev_chunk_id es), [])) \<or> (\<exists>e ck cks. e \<in> set seeds \<and> ck \<in> set cks \<and>
      x = neighbour_evidence e ck \<and> dict_get near (the (ev_chunk_id e)) = Some cks)"
  proof (rule fold_from)
    fix e acc
    assume e: "e \<in> set seeds" "x \<in> set (snd (step e acc))"
    show "x \<in> set (snd acc) \<or> (\<exists>e ck cks. e \<in> set seeds \<and> ck \<in> set cks \<and>
      x = neighbour_evidence e ck \<and> dict_get near (the (ev_chunk_id e)) = Some cks)"
    proof (cases "x \<in> set (snd acc)")
      case False
      then have "x \<in> set (snd (fresh_neighbours e (case dict_get near (the (ev_chunk_id e)) of None \<Rightarrow> [] | Some cks \<Rightarrow> cks) acc))"
        using e(2) by (simp add: step_def split: if_splits)
      then have "\<exists>ck \<in> set (case dict_get near (the (ev_chunk_id e)) of None \<Rightarrow> [] | Some cks \<Rightarrow> cks). x = neighbour_evidence e ck"
        using False from_fresh by blast
      then obtain ck cks where "ck \<in> set cks" "x = neighbour_evidence e ck" "dict_get near (the (ev_chunk_id e)) = Some cks"
        by (cases "dict_get near (the (ev_chunk_id e))") auto
      then show ?thesis
        using e(1) by blast
    qed simp
  qed
  then show ?thesis
    unfolding seeds_def[symmetric] loaded snd_conv using seed by fastforce
qed

lemma expand_neighbours_fits:
  assumes "index_ok db" "\<forall>e \<in> set es. fits db P K e" "x \<in> set (expand_neighbours env plan db es)"
  shows "fits db P K x"
proof -
  define seeds where "seeds = filter (\<lambda>e. ev_chunk_id e \<noteq> None) (take (re_max_chunks env) (by_level EL_CHUNK es))"
  define near where "near = snd (fold (load_project (rp_neighbour_window plan) db) (seeds_by_project seeds) ([], []))"
  obtain e ck cks where x: "e \<in> set es" "ev_level e = EL_CHUNK" "ev_chunk_id e \<noteq> None" "ck \<in> set cks"
    "x = neighbour_evidence e ck" "dict_get near (the (ev_chunk_id e)) = Some cks"
    using expand_neighbours_from[OF assms(3)] unfolding near_def seeds_def by blast
  have "ev_project_id ` set seeds \<subseteq> P"
    using assms(2) by (auto simp: seeds_def by_level_def fits_def in_core_def core_def dest!: in_set_takeD)
  then have "near_ok db P near"
    unfolding near_def
    by (intro load_projects_ok) (use seeds_by_project_keys[of seeds] in \<open>auto simp: near_ok_def dict_get_def\<close>)
  then obtain c where c: "ck \<in> set (rd_chunks db)" "ck_project_id ck \<in> P" "c \<in> set (rd_chunks db)"
    "ck_id c = the (ev_chunk_id e)" "ck_contract_id ck = ck_contract_id c"
    using x(4,6) unfolding near_ok_def by blast
  have "ck_contract_id c = ev_contract_id e \<and> ev_contract_id e \<in> K"
    using assms(2) x(1-3) c(3,4) by (auto simp: fits_def in_core_def core_def)
  then have "ck_contract_id ck \<in> K"
    using c(5) by simp
  with assms(1) c(1,2) show ?thesis
    by (rule chunk_fits) (simp add: x(5) neighbour_evidence_def blank_evidence_def core_def)
qed

lemma expand_graph_from:
  assumes "x \<in> set (expand_graph plan db es)"
  shows "\<exists>e cl node r. e \<in> set es \<and> cl \<in> set (rd_clauses db) \<and> cl_project_id cl = ev_project_id e \<and>
    cl_contract_id cl = ev_contract_id e \<and> x = graph_evidence e node r cl" (is "?Q x")
proof -
  have edge: "x \<in> set (snd acc) \<or> ?Q x"
    if e: "e \<in> set es" and out: "x \<in> set (snd (follow_edge db e node r acc))" for e node r acc
  proof (cases "x \<in> set (snd acc)")
    case False
    then obtain cl where "clause_at (ev_project_id e) (ev_contract_id e) (edge_target node r) db = Some cl"
      "x = graph_evidence e node r cl"
      using out by (cases acc) (auto simp: follow_edge_def Let_def split: if_splits option.splits)
    then show ?thesis
      using e by (auto simp: clause_at_def dest!: find_SomeD)
  qed simp
  have "x \<in> set (snd ({} :: string set, [])) \<or> ?Q x"
    using assms unfolding expand_graph_def
  proof (rule fold_from)
    fix e acc
    assume e: "e \<in> set (take 10 (by_level EL_CLAUSE es))"
      and out: "x \<in> set (snd (if \<not> nonempty_opt (ev_clause_number e) then acc
         else fold (follow_edge db e (the (ev_clause_number e)))
           (edges_at (ev_project_id e) (the (ev_clause_number e)) (rp_graph_depth plan * 5) db) acc))"
    have "e \<in> set es"
      using e by (auto simp: by_level_def dest!: in_set_takeD)
    show "x \<in> set (snd acc) \<or> ?Q x"
    proof (cases "nonempty_opt (ev_clause_number e)")
      case True
      with out have "x \<in> set (snd (fold (follow_edge db e (the (ev_clause_number e)))
           (edges_at (ev_project_id e) (the (ev_clause_number e)) (rp_graph_depth plan * 5) db) acc))"
        by simp
      then show ?thesis
        by (rule fold_from) (rule edge[OF \<open>e \<in> set es\<close>])
    qed (use out in simp)
  qed
  then show ?thesis by simp
qed

lemma expand_graph_fits:
  assumes "\<forall>e \<in> set es. fits db P K e" "x \<in> set (expand_graph plan db es)"
  shows "fits db P K x"
proof -
  obtain e cl node r where x: "e \<in> set es" "cl \<in> set (rd_clauses db)" "cl_project_id cl = ev_project_id e"
    "cl_contract_id cl = ev_contract_id e" "x = graph_evidence e node r cl"
    using expand_graph_from[OF assms(2)] by blast
  have e: "ev_project_id e \<in> P" "ev_contract_id e \<in> K"
    using assms(1) x(1) by (auto simp: fits_def in_core_def core_def)
  then have "text_source db P (ev_contract_id e) (cl_text cl)"
    using text_source_rows(2)[OF x(2), of P] x(3,4) by simp
  then show ?thesis
    using e x(3,4) by (simp add: x(5) graph_evidence_def blank_evidence_def fits_def in_core_def core_def)
qed

lemma deduplicate_from:
  assumes "k \<in> set (deduplicate es)"
  shows "\<exists>e \<in> set es. core k = core e"
proof -
  let ?xs = "sort_key (\<lambda>e. - ev_score e) (best_by_key es)"
  obtain ks where ks: "thinned ?xs ks" "list_all2 same_passage (suppress_near_duplicates ?xs) ks"
    using suppress_thinned by blast
  have "list_all2 same_passage (deduplicate es) ks"
    unfolding deduplicate_def using ks(2) by (rule ranked_same)
  then obtain k' where k': "k' \<in> set ks" "same_passage k k'"
    using assms by (metis in_set_conv_nth list_all2_conv_all_nth)
  have "k' \<in> set (best_by_key es)"
    using thinned_laws(2)[OF ks(1)] k'(1) by (metis set_sort subsetD)
  then obtain e where "e \<in> set es" "same_passage k' e"
    using best_by_key_laws(2) by blast
  then show ?thesis
    using k'(2) same_passage_core by metis
qed

lemma finish_fits:
  assumes "index_ok db" "\<forall>e \<in> set es. fits db P K e" "finish_evidence env plan db es = Inr out" "x \<in> set out"
  shows "fits db P K x"
proof -
  define es1 where "es1 = (if rp_neighbour_window plan > 0 then es @ expand_neighbours env plan db es else es)"
  define es2 where "es2 = (if rp_graph_depth plan > 0 then es1 @ expand_graph plan db es1 else es1)"
  define es3 where "es3 = map (attach_title db) (deduplicate es2)"
  have f1: "\<forall>e \<in> set es1. fits db P K e"
    using assms(2) expand_neighbours_fits[OF assms(1,2)] by (auto simp: es1_def)
  have f2: "\<forall>e \<in> set es2. fits db P K e"
    using f1 expand_graph_fits[OF f1] by (auto simp: es2_def)
  have f3: "\<forall>e \<in> set es3. fits db P K e"
  proof
    fix e
    assume "e \<in> set es3"
    then obtain k where k: "k \<in> set (deduplicate es2)" "core e = core k"
      by (auto simp: es3_def)
    then show "fits db P K e"
      using deduplicate_from[OF k(1)] f2 fits_core by metis
  qed
  have "\<exists>e \<in> set es3. core x = core e"
  proof (cases "rp_rerank plan \<and> es3 \<noteq> []")
    case True
    then show ?thesis
      using assms(3,4) rerank_from
      unfolding finish_evidence_def es1_def[symmetric] Let_def es2_def[symmetric] es3_def[symmetric] by auto
  next
    case False
    then have "x \<in> set es3"
      using assms(3,4) unfolding finish_evidence_def es1_def[symmetric] Let_def es2_def[symmetric] es3_def[symmetric] by auto
    then show ?thesis by blast
  qed
  then show ?thesis using f3 fits_core by blast
qed

section \<open>The pre-filter\<close>

lemma mset_nulls_last [simp]: "mset (nulls_last f xs) = mset xs"
  by (simp add: nulls_last_def)

lemma prefilter_sound:
  assumes "metadata_prefilter env plan db = (ids, rows, over)" "c \<in> set ids"
  shows "c \<in> (\<lambda>pc. pj_contract_id (fst pc)) ` set (filter (prefilter_holds plan) (joined db))"
proof -
  define sorted where "sorted = nulls_last (\<lambda>(m, c). map_option uminus (pj_risk_score m))
      (nulls_last (\<lambda>(m, c). pj_expiration_date m)
        (sort_key (\<lambda>(m, c). pj_contract_id m) (filter (prefilter_holds plan) (joined db))))"
  have "mset sorted = mset (filter (prefilter_holds plan) (joined db))"
    by (simp only: sorted_def mset_nulls_last mset_sort)
  then have same: "set sorted = set (filter (prefilter_holds plan) (joined db))"
    by (metis set_mset_mset)
  have "ids = map (\<lambda>pc. pj_contract_id (fst pc)) (take 200 (take 201 sorted))"
    using assms(1) unfolding metadata_prefilter_def Let_def sorted_def[symmetric]
    by (simp add: MAX_CANDIDATE_CONTRACTS_def case_prod_unfold)
  then have "c \<in> (\<lambda>pc. pj_contract_id (fst pc)) ` set sorted"
    using assms(2) set_take_subset[of 200 sorted] by auto
  then show ?thesis unfolding same .
qed

text \<open>The metadata pre-filter returns contracts that satisfy every condition of the plan and of its filters, in
  its projects, at most two hundred of them with one payload row each. It reports truncation exactly when more
  than two hundred match, and without truncation it returns every match.\<close>

theorem prefilter_finds_the_matches:
  assumes "metadata_prefilter env plan db = (ids, rows, over)"
  defines "matching \<equiv> filter (prefilter_holds plan) (joined db)"
  shows "length rows = length ids \<and> length ids = min 200 (length matching) \<and>
    set ids \<subseteq> (\<lambda>pc. pj_contract_id (fst pc)) ` set matching \<and> (over \<longleftrightarrow> 200 < length matching) \<and>
    (over \<or> mset ids = image_mset (\<lambda>pc. pj_contract_id (fst pc)) (mset matching))"
proof -
  define sorted where "sorted = nulls_last (\<lambda>(m, c). map_option uminus (pj_risk_score m))
      (nulls_last (\<lambda>(m, c). pj_expiration_date m) (sort_key (\<lambda>(m, c). pj_contract_id m) matching))"
  have same: "mset sorted = mset matching"
    by (simp add: sorted_def)
  then have len: "length sorted = length matching"
    by (metis size_mset)
  have out: "ids = map (\<lambda>pc. pj_contract_id (fst pc)) (take 200 (take 201 sorted))"
    "rows = map (payload_row env) (take 200 (take 201 sorted))" "over \<longleftrightarrow> length (take 201 sorted) > 200"
    using assms(1) unfolding metadata_prefilter_def Let_def matching_def[symmetric] sorted_def[symmetric]
    by (simp_all add: MAX_CANDIDATE_CONTRACTS_def case_prod_unfold)
  have "over \<or> mset ids = image_mset (\<lambda>pc. pj_contract_id (fst pc)) (mset matching)"
  proof (cases "length sorted \<le> 200")
    case True
    then have "take 200 (take 201 sorted) = sorted" by simp
    then show ?thesis by (simp only: same[symmetric] out mset_map simp_thms)
  next
    case False
    then show ?thesis by (simp add: out)
  qed
  moreover have "set ids \<subseteq> (\<lambda>pc. pj_contract_id (fst pc)) ` set matching"
    using prefilter_sound[OF assms(1)] unfolding matching_def by blast
  moreover have "length rows = length ids \<and> length ids = min 200 (length matching) \<and> (over \<longleftrightarrow> 200 < length matching)"
    unfolding out by (auto simp: len)
  ultimately show ?thesis by blast
qed

lemma prefilter_candidates:
  assumes "metadata_prefilter env plan db = (ids, rows, over)" "rp_contract_ids plan \<noteq> []" "c \<in> set ids"
  shows "c \<in> set (rp_contract_ids plan)"
proof -
  have "\<exists>pc. c = pj_contract_id (fst pc) \<and> prefilter_holds plan pc"
    using prefilter_sound[OF assms(1,3)] by auto
  then show ?thesis
    using assms(2) by (auto simp: prefilter_holds_def Let_def)
qed

section \<open>Scope\<close>

lemma retrieve_evidence:
  assumes "retrieve env plan db = Inr r" "e \<in> set (rr_evidence r)" "index_ok db"
    "\<And>ids rows over. metadata_prefilter env plan db = (ids, rows, over) \<Longrightarrow> over = rr_truncated r \<Longrightarrow>
       over \<or> ids \<noteq> [] \<or> filter_is_empty (rp_filters plan) \<Longrightarrow> allowed K (if over then [] else ids)"
  shows "fits db (set (rp_project_ids plan)) K e"
proof -
  obtain ids rows over where pre: "metadata_prefilter env plan db = (ids, rows, over)"
    by (metis prod_cases3)
  define start where "start = \<lparr>ds_evidence = [], ds_candidates = (if over then [] else ids), ds_narrowed = None, ds_top = []\<rparr>"
  have scoped: "is_scoped plan"
    using assms(1,2) by (cases "is_scoped plan") (auto simp: retrieve_def blank_result_def)
  have searched: "rp_strategy plan \<noteq> RS_METADATA_ONLY"
    "\<not> ((if over then [] else ids) = [] \<and> \<not> over \<and> \<not> filter_is_empty (rp_filters plan))"
    using assms(1,2) scoped by (auto simp: retrieve_def pre Let_def blank_result_def split: if_splits)
  obtain s where s: "search_levels env plan db (embed_query env plan) (rp_levels plan) start = Inr s"
    using assms(1) scoped searched
    unfolding retrieve_def pre prod.case Let_def start_def[symmetric] by (auto split: sum.splits)
  have r: "finish_evidence env plan db (ds_evidence s) = Inr (rr_evidence r)" "rr_truncated r = over"
    using assms(1) scoped searched s
    unfolding retrieve_def pre prod.case Let_def start_def[symmetric] by (auto simp: blank_result_def split: sum.splits)
  have "over \<or> ids \<noteq> [] \<or> filter_is_empty (rp_filters plan)"
    using searched(2) by (cases over) auto
  then have "allowed K (if over then [] else ids)"
    using assms(4)[OF pre r(2)[symmetric]] by blast
  then have "descent_ok db (set (rp_project_ids plan)) K start"
    by (simp add: descent_ok_def start_def)
  then have "descent_ok db (set (rp_project_ids plan)) K s"
    by (rule search_levels_ok[OF assms(3) scoped refl]) (rule s)
  then show ?thesis
    using finish_fits[OF assms(3) _ r(1) assms(2)] unfolding descent_ok_def by blast
qed

lemma retrieve_scoped_fits:
  assumes "index_ok db" "retrieve env plan db = Inr r" "e \<in> set (rr_evidence r)"
  shows "fits db (set (rp_project_ids plan)) UNIV e"
  using assms(2,3,1) by (rule retrieve_evidence) (simp add: allowed_def)

lemma retrieve_named_fits:
  assumes "index_ok db" "retrieve env plan db = Inr r" "e \<in> set (rr_evidence r)" "\<not> rr_truncated r"
    "rp_contract_ids plan \<noteq> []" "\<not> filter_is_empty (rp_filters plan)"
  shows "fits db (set (rp_project_ids plan)) (set (rp_contract_ids plan)) e"
  using assms(2,3,1)
proof (rule retrieve_evidence)
  fix ids rows over
  assume "metadata_prefilter env plan db = (ids, rows, over)" "over = rr_truncated r"
    "over \<or> ids \<noteq> [] \<or> filter_is_empty (rp_filters plan)"
  then show "allowed (set (rp_contract_ids plan)) (if over then [] else ids)"
    using assms(4-6) prefilter_candidates by (auto simp: allowed_def)
qed

text \<open>C30: Retrieval never leaves its scope. Whatever the strategy, mode, expansions and re-ranking, and whatever the
  provider answers, each piece of evidence belongs to a project of the plan, and its text is empty or the text of
  a vector row, chunk or clause of one of those projects and of the contract the evidence cites. The index must
  label its vector rows with the projects they belong to.\<close>

theorem retrieval_stays_in_scope:
  assumes "index_ok db" "retrieve env plan db = Inr r" "e \<in> set (rr_evidence r)"
  shows "ev_project_id e \<in> set (rp_project_ids plan) \<and>
    text_source db (set (rp_project_ids plan)) (ev_contract_id e) (ev_text e)"
  using retrieve_scoped_fits[OF assms] by (simp add: fits_def in_core_def core_def)

text \<open>C31: A question about named contracts is answered from those contracts only: when the pre-filter was not
  truncated and the filters carry the restriction, each piece of evidence, expansions included, comes from
  a contract the plan names.\<close>

theorem named_contracts_only:
  assumes "index_ok db" "retrieve env plan db = Inr r" "e \<in> set (rr_evidence r)" "\<not> rr_truncated r"
    "rp_contract_ids plan \<noteq> []" "\<not> filter_is_empty (rp_filters plan)"
  shows "ev_contract_id e \<in> set (rp_contract_ids plan)"
  using retrieve_named_fits[OF assms] by (simp add: fits_def in_core_def core_def)

section \<open>Witnesses\<close>

definition sample_contract :: contract_row where
  "sample_contract = \<lparr>c_id = 1, c_project_id = 7, c_file_type = FT_PDF, c_title = Some ''Lease'', c_status = CS_READY,
     c_needs_review = False, c_page_count = None, c_language = None, c_agreement_type = None, c_agreement_subtype = None,
     c_classification_confidence = None, c_profile_id = None, c_profile_version = None, c_processed_at = None,
     c_deleted_at = None\<rparr>"

definition sample_projection :: projection where
  "sample_projection = \<lparr>pj_contract_id = 1, pj_project_id = 7, pj_risk_score = None, pj_risk_band = None,
     pj_effective_date = None, pj_expiration_date = None, pj_contract_value = None, pj_currency = None, pj_party_a = None,
     pj_party_b = None, pj_has_unlimited_liability = None, pj_missing_mandatory_clauses = []\<rparr>"

definition sample_db :: retrieval_db where
  "sample_db = \<lparr>rd_embeddings = [], rd_chunks = [sample_chunk 1 0 None], rd_clauses = [], rd_contracts = [sample_contract],
     rd_metadata = [sample_projection], rd_edges = []\<rparr>"

definition sample_env :: retrieval_env where
  "sample_env = \<lparr>re_embed_query = (\<lambda>q. None), re_model = [], re_distance = (\<lambda>v w. 0), re_ts_rank = (\<lambda>q ck. Some 1),
     re_fts_down = False, re_ranking = (\<lambda>q es. None), re_reranker_enabled = False, re_rerank_top_k = 10,
     re_max_chunks = 10, re_float = (\<lambda>q. JNull)\<rparr>"

definition sample_plan :: retrieval_plan where
  "sample_plan = \<lparr>rp_query = ''rent'', rp_strategy = RS_CHUNK_RETRIEVAL, rp_mode = SM_KEYWORD, rp_project_ids = [7],
     rp_contract_ids = [1],
     rp_filters = \<lparr>mf_agreement_types = [], mf_risk_bands = [], mf_clause_types = [], mf_parties = [],
       mf_expiring_before = None, mf_expiring_after = None, mf_effective_after = None,
       mf_has_unlimited_liability = None, mf_missing_mandatory = None, mf_contract_ids = [1]\<rparr>,
     rp_levels = [\<lparr>lb_level = EL_CHUNK, lb_limit = 5, lb_min_similarity = 0\<rparr>], rp_neighbour_window = 0,
     rp_graph_depth = 0, rp_rerank = False\<rparr>"

lemmas sample_defs = sample_contract_def sample_projection_def sample_db_def sample_env_def sample_plan_def sample_chunk_def

lemma sample_index: "index_ok sample_db"
  by (simp add: index_ok_def sample_defs)

lemma sample_prefilter: "metadata_prefilter sample_env sample_plan sample_db = ([1], [payload_row sample_env (sample_projection, sample_contract)], False)"
  by (simp add: metadata_prefilter_def nulls_last_def joined_def prefilter_holds_def Let_def MAX_CANDIDATE_CONTRACTS_def sample_defs)

lemma sample_retrieval:
  "\<exists>r e. retrieve sample_env sample_plan sample_db = Inr r \<and> rr_evidence r = [e] \<and> \<not> rr_truncated r"
proof -
  have plan: "is_scoped sample_plan" "rp_strategy sample_plan = RS_CHUNK_RETRIEVAL" "rp_mode sample_plan = SM_KEYWORD"
    "rp_levels sample_plan = [\<lparr>lb_level = EL_CHUNK, lb_limit = 5, lb_min_similarity = 0\<rparr>]"
    by (simp_all add: is_scoped_def sample_plan_def)
  obtain e where hit: "keyword_search sample_env sample_plan \<lparr>lb_level = EL_CHUNK, lb_limit = 5, lb_min_similarity = 0\<rparr> [1] sample_db = [e]"
    by (simp add: keyword_search_def sample_defs)
  have one: "\<exists>e'. deduplicate [e] = [e']"
    by (simp add: deduplicate_def best_by_key_def dedup_step_def suppress_near_duplicates_def ranked_def dict_get_def)
  have finished: "\<exists>e'. finish_evidence sample_env sample_plan sample_db [e] = Inr [e']"
    using one by (auto simp: finish_evidence_def sample_plan_def)
  show ?thesis
    using finished unfolding retrieve_def plan sample_prefilter
    by (auto simp: embed_query_def search_level_def plan Let_def hit[unfolded One_nat_def] blank_result_def)
qed

theorem prefilter_finds_the_matches_witness:
  "\<exists>ids. ids = [1] \<and> length ids = min 200 (length (filter (prefilter_holds sample_plan) (joined sample_db)))"
  using prefilter_finds_the_matches[OF sample_prefilter] by simp

theorem retrieval_stays_in_scope_witness:
  "\<exists>r e. retrieve sample_env sample_plan sample_db = Inr r \<and> rr_evidence r = [e] \<and> ev_project_id e = 7"
proof -
  obtain r e where r: "retrieve sample_env sample_plan sample_db = Inr r" "rr_evidence r = [e]"
    using sample_retrieval by blast
  then have "ev_project_id e \<in> set (rp_project_ids sample_plan)"
    using retrieval_stays_in_scope[OF sample_index r(1), of e] by simp
  then show ?thesis using r by (simp add: sample_plan_def)
qed

theorem named_contracts_only_witness:
  "\<exists>r e. retrieve sample_env sample_plan sample_db = Inr r \<and> rr_evidence r = [e] \<and> ev_contract_id e = 1"
proof -
  obtain r e where r: "retrieve sample_env sample_plan sample_db = Inr r" "rr_evidence r = [e]" "\<not> rr_truncated r"
    using sample_retrieval by blast
  then have "ev_contract_id e \<in> set (rp_contract_ids sample_plan)"
    using named_contracts_only[OF sample_index r(1) _ r(3)] by (simp add: sample_plan_def filter_is_empty_def)
  then show ?thesis using r by (simp add: sample_plan_def)
qed

end
