(* ===== verification/CopilotLaws.thy ===== *)
theory CopilotLaws
  imports Copilot AnswerLaws RetrievalLaws
begin

text \<open>
  The laws of the planner and of the question pipeline: a plan keeps the scope it was given and reads text,
  what a question can make fail, when the guardrail speaks, and that the sources of every answer lie
  in the projects and the contract of the question.
\<close>

section \<open>Plans\<close>

lemma extract_filters_keeps:
  assumes "extract_filters today query types cids = Inr f"
  shows "mf_contract_ids f = cids \<and> mf_agreement_types f = types \<and> mf_parties f = []"
  using assms by (auto simp: extract_filters_def Let_def split: option.splits sum.splits)

lemma plan_queryD:
  assumes "plan_query st today query rq = Inr p"
  shows "rp_project_ids p = pq_project_ids rq" "rp_contract_ids p = pq_contract_ids rq" "rp_mode p = pq_mode rq"
    "mf_contract_ids (rp_filters p) = pq_contract_ids rq"
    "mf_agreement_types (rp_filters p) = with_document_type st (pq_agreement_types rq) (pq_analysis rq) (pq_document_type rq)"
    "rp_strategy p = select_strategy (pn_intent p) (strip query) (pq_scope rq) (pq_contract_ids rq) (pq_prefer_content rq)"
    "rp_levels p = level_budgets st (rp_strategy p) (pq_scope rq) (pq_level_limit rq) (pq_contract_ids rq \<noteq> [] \<and> pq_for_answer rq)"
  using assms extract_filters_keeps by (auto simp: plan_query_def Let_def split: sum.splits)

lemma content_strategy:
  assumes "prefer_content \<or> scope = SC_CONTRACT \<or> cids \<noteq> []"
  shows "select_strategy i q scope cids prefer_content \<noteq> RS_METADATA_ONLY"
  using assms by (cases i) (auto simp: select_strategy_def Let_def)

lemma strategy_not_chunks: "select_strategy i q scope cids prefer_content \<noteq> RS_CHUNK_RETRIEVAL"
  by (cases i) (auto simp: select_strategy_def Let_def)

text \<open>C29: A plan keeps the scope it was asked for: its projects, its contracts, in the filters too, and no document type
  but the request's or one detected with the configured confidence. Unless it answers from the metadata alone, which
  it never does for an answer, a contract scope or named contracts, it reads clauses and then chunks, after the
  document summaries exactly where these can still narrow the search; a given limit applies to every level.\<close>

theorem plan_keeps_its_scope:
  assumes "plan_query st today query rq = Inr p"
  shows "rp_project_ids p = pq_project_ids rq \<and> rp_contract_ids p = pq_contract_ids rq \<and>
    mf_contract_ids (rp_filters p) = pq_contract_ids rq \<and>
    (\<forall>t \<in> set (mf_agreement_types (rp_filters p)). t \<in> set (pq_agreement_types rq) \<or>
       (\<exists>d a. pq_document_type rq = Some d \<and> t = dt_agreement_type d \<and>
          (st_document_type_confidence_threshold st \<le> 0 \<or>
           pq_analysis rq = Some a \<and> st_document_type_confidence_threshold st \<le> qa_confidence a))) \<and>
    (if rp_strategy p = RS_METADATA_ONLY
     then rp_levels p = [] \<and> \<not> pq_prefer_content rq \<and> pq_scope rq \<noteq> SC_CONTRACT \<and> pq_contract_ids rq = []
     else map lb_level (rp_levels p) =
       (if rp_strategy p \<noteq> RS_CLAUSE_RETRIEVAL \<and> (pq_contract_ids rq = [] \<or> \<not> pq_for_answer rq)
        then [EL_DOCUMENT_SUMMARY] else []) @ [EL_CLAUSE, EL_CHUNK]) \<and>
    (\<forall>n. pq_level_limit rq = Some n \<longrightarrow> (\<forall>b \<in> set (rp_levels p). lb_limit b = n))"
proof -
  note p = plan_queryD[OF assms]
  have types: "t \<in> set (pq_agreement_types rq) \<or> (\<exists>d a. pq_document_type rq = Some d \<and> t = dt_agreement_type d \<and>
          (st_document_type_confidence_threshold st \<le> 0 \<or>
           pq_analysis rq = Some a \<and> st_document_type_confidence_threshold st \<le> qa_confidence a))"
    if "t \<in> set (mf_agreement_types (rp_filters p))" for t
    using that unfolding p(5) with_document_type_def Let_def
    by (auto split: if_splits option.splits)
  have levels: "if rp_strategy p = RS_METADATA_ONLY
     then rp_levels p = [] \<and> \<not> pq_prefer_content rq \<and> pq_scope rq \<noteq> SC_CONTRACT \<and> pq_contract_ids rq = []
     else map lb_level (rp_levels p) =
       (if rp_strategy p \<noteq> RS_CLAUSE_RETRIEVAL \<and> (pq_contract_ids rq = [] \<or> \<not> pq_for_answer rq)
        then [EL_DOCUMENT_SUMMARY] else []) @ [EL_CLAUSE, EL_CHUNK]"
  proof (cases "rp_strategy p = RS_METADATA_ONLY")
    case True
    then show ?thesis
      using content_strategy[of "pq_prefer_content rq" "pq_scope rq" "pq_contract_ids rq"] p(6,7)
      by (auto simp: level_budgets_def)
  next
    case False
    have "rp_strategy p \<noteq> RS_CHUNK_RETRIEVAL"
      unfolding p(6) by (rule strategy_not_chunks)
    then show ?thesis
      using False unfolding p(7)
      by (cases "rp_strategy p") (simp_all add: level_budgets_def budget_for_def)
  qed
  have limits: "lb_limit b = n" if "pq_level_limit rq = Some n" "b \<in> set (rp_levels p)" for b n
    using that unfolding p(7) by (auto simp: level_budgets_def budget_for_def Let_def split: if_splits)
  show ?thesis
    using p(1,2,4) types levels limits by blast
qed

text \<open>A question can make the planner raise: a period beyond the calendar overflows the date it is turned into, and
  no handler catches the exception, for any settings and any caller.\<close>

theorem long_period_raises:
  assumes "0 < today"
  shows "plan_query st today ''next 9999999 days'' rq = Inl OverflowError"
proof -
  have "lower (strip ''next 9999999 days'') = ''next 9999999 days''"
    by code_simp
  moreover have "matched_text (counted ''next '' '' day'') ''next 9999999 days'' = Some ''next 9999999 days''"
    by code_simp
  moreover have "group_digits ''next 9999999 days'' = ''9999999''"
    by code_simp
  moreover have "hex_value CHR ''9'' = Some 9"
    by code_simp
  then have "digits_value ''9999999'' = 9999999"
    by (simp add: digits_value_def)
  ultimately have period: "resolve_period (lower (strip ''next 9999999 days'')) = Some 9999999"
    by (simp add: resolve_period_def PERIOD_PATTERNS_def)
  have "date_plus today 9999999 = Inl OverflowError"
    using assms by (simp add: date_plus_def MAX_ORDINAL_def)
  then show ?thesis
    by (simp add: plan_query_def extract_filters_def period Let_def)
qed

section \<open>The guardrail\<close>

lemma truncate_fields [simp]:
  "rp_query (retrieval_plan.truncate p) = rp_query p" "rp_mode (retrieval_plan.truncate p) = rp_mode p"
  "rp_project_ids (retrieval_plan.truncate p) = rp_project_ids p"
  "rp_contract_ids (retrieval_plan.truncate p) = rp_contract_ids p"
  "rp_filters (retrieval_plan.truncate p) = rp_filters p" "rp_strategy (retrieval_plan.truncate p) = rp_strategy p"
  by (simp_all add: retrieval_plan.truncate_def)

text \<open>What a preparation holds, whichever of the two retrievals it kept.\<close>

lemma prepareD:
  assumes "prepare env db query pids cid history = Inr p"
  obtains rq pl where
    "pq_project_ids rq = pids" "pq_contract_ids rq = (case cid of None \<Rightarrow> [] | Some c \<Rightarrow> [c])"
    "plan_query (ce_settings env) (ce_today env) query rq = Inr pl" "pp_plan p = pl \<or> pp_plan p = drop_types pl"
    "retrieve (ce_retrieval env) (retrieval_plan.truncate (pp_plan p)) db = Inr (pp_retrieval p)"
    "pp_package p = package_for env query history (pp_plan p) (pp_retrieval p)"
proof -
  obtain contract where contract: "(case cid of None \<Rightarrow> Inr None | Some c \<Rightarrow> map_sum id Some (load_contract c pids db)) = Inr contract"
    using assms by (auto simp: prepare_def split: sum.splits)
  obtain analysis dt where dt: "document_type_of env query contract = (analysis, dt)"
    by (cases "document_type_of env query contract")
  define rq where "rq = copilot_request env pids cid analysis dt"
  obtain pl where pl: "plan_query (ce_settings env) (ce_today env) query rq = Inr pl"
    using assms by (auto simp: prepare_def contract dt rq_def split: sum.splits)
  obtain r where r: "retrieve (ce_retrieval env) (retrieval_plan.truncate pl) db = Inr r"
    using assms pl by (auto simp: prepare_def contract dt rq_def split: sum.splits)
  note run = assms[unfolded prepare_def contract sum.case dt prod.case rq_def[symmetric] pl r]
  have fields: "(pp_plan p = pl \<or> pp_plan p = drop_types pl) \<and>
    retrieve (ce_retrieval env) (retrieval_plan.truncate (pp_plan p)) db = Inr (pp_retrieval p) \<and>
    pp_package p = package_for env query history (pp_plan p) (pp_retrieval p)"
    using run r by (auto split: if_splits sum.splits)
  show ?thesis
    using that[of rq pl] pl fields by (simp add: rq_def copilot_request_def)
qed

lemma drop_types_fields [simp]:
  "rp_project_ids (drop_types pl) = rp_project_ids pl" "rp_contract_ids (drop_types pl) = rp_contract_ids pl"
  "mf_contract_ids (rp_filters (drop_types pl)) = mf_contract_ids (rp_filters pl)"
  by (simp_all add: drop_types_def)

lemma generator_unused:
  "prepare (env\<lparr>ce_generate := g\<rparr>) db query pids cid history = prepare env db query pids cid history"
proof -
  have same: "document_type_of (env\<lparr>ce_generate := g\<rparr>) = document_type_of env"
    "copilot_request (env\<lparr>ce_generate := g\<rparr>) = copilot_request env"
    "package_for (env\<lparr>ce_generate := g\<rparr>) = package_for env"
    by (intro ext, simp add: document_type_of_def copilot_request_def package_for_def clears_the_bar_def Let_def split: option.split)+
  have fields: "ce_settings (env\<lparr>ce_generate := g\<rparr>) = ce_settings env" "ce_today (env\<lparr>ce_generate := g\<rparr>) = ce_today env"
    "ce_retrieval (env\<lparr>ce_generate := g\<rparr>) = ce_retrieval env"
    by simp_all
  show ?thesis
    unfolding prepare_def same fields ..
qed

lemma base_result_fields [simp]:
  "cr_insufficient_context (base_result p a) = False" "cr_sources (base_result p a) = []"
  "cr_answer (base_result p a) = a" "cr_scope_truncated (base_result p a) = rr_truncated (pp_retrieval p)"
  by (simp_all add: base_result_def Let_def)

lemma copilot_package:
  assumes "copilot_answer env db query pids cid history = Inr r" "prepare env db query pids cid history = Inr p"
  shows "cr_insufficient_context r = (pp_package p = None)"
  using assms
  by (auto simp: copilot_answer_def guardrail_result_def degraded_result_def finish_def split: option.splits sum.splits if_splits)

lemma no_vectors_no_top:
  "search_levels env pl db None bs s = Inr s' \<Longrightarrow> ds_top s' = ds_top s"
  by (induction bs arbitrary: s) (auto simp: search_level_def Let_def split: if_splits sum.splits)

lemma no_vectors_no_similarity:
  assumes "\<And>q. re_embed_query env q = None" "retrieve env pl db = Inr r"
  shows "rr_top_similarity r = []"
proof -
  obtain ids rows over where pre: "metadata_prefilter env pl db = (ids, rows, over)"
    by (metis prod_cases3)
  have no_vector: "embed_query env pl = None"
    using assms(1) by (simp add: embed_query_def)
  define start where "start = \<lparr>ds_evidence = [], ds_candidates = (if over then [] else ids), ds_narrowed = None, ds_top = []\<rparr>"
  have top: "search_levels env pl db None (rp_levels pl) start = Inr s \<Longrightarrow> ds_top s = []" for s
    by (drule no_vectors_no_top) (simp add: start_def)
  consider "\<not> is_scoped pl" | "is_scoped pl" "rp_strategy pl = RS_METADATA_ONLY"
    | "is_scoped pl" "rp_strategy pl \<noteq> RS_METADATA_ONLY" "(if over then [] else ids) = [] \<and> \<not> over \<and> \<not> filter_is_empty (rp_filters pl)"
    | "is_scoped pl" "rp_strategy pl \<noteq> RS_METADATA_ONLY" "\<not> ((if over then [] else ids) = [] \<and> \<not> over \<and> \<not> filter_is_empty (rp_filters pl))"
    by blast
  then show ?thesis
  proof cases
    case 4
    obtain s where s: "search_levels env pl db None (rp_levels pl) start = Inr s"
      using assms(2) 4 unfolding retrieve_def pre prod.case Let_def start_def[symmetric] no_vector
      by (cases "search_levels env pl db None (rp_levels pl) start") simp_all
    show ?thesis
      using assms(2) 4 s top[OF s] unfolding retrieve_def pre prod.case Let_def start_def[symmetric] no_vector
      by (auto split: sum.splits)
  qed (use assms(2) in \<open>auto simp: retrieve_def pre Let_def blank_result_def\<close>)
qed

text \<open>The keyword fall-back never reaches an answer. When the query cannot be embedded, retrieval still finds
  passages by full text, but their similarity is unmeasured, the guardrail reads that as zero, and with any
  positive threshold every question is refused.\<close>

theorem keyword_evidence_is_never_answered:
  assumes "\<And>q. re_embed_query (ce_retrieval env) q = None" "0 < st_answer_similarity_threshold (ce_settings env)"
    "copilot_answer env db query pids cid history = Inr r"
  shows "cr_insufficient_context r"
proof -
  obtain p where p: "prepare env db query pids cid history = Inr p"
    using assms(3) by (auto simp: copilot_answer_def split: sum.splits)
  obtain rq pl where pl: 
    "retrieve (ce_retrieval env) (retrieval_plan.truncate (pp_plan p)) db = Inr (pp_retrieval p)"
    "pp_package p = package_for env query history (pp_plan p) (pp_retrieval p)"
    using prepareD[OF p] by metis
  have "rr_top_similarity (pp_retrieval p) = []"
    using no_vectors_no_similarity[OF assms(1) pl(1)] .
  then have "answerable_similarity (pp_retrieval p) = 0"
    by (simp add: answerable_similarity_def)
  then have "pp_package p = None"
    using pl(2) assms(2) by (simp add: package_for_def clears_the_bar_def)
  then show ?thesis
    using copilot_package[OF assms(3) p] by simp
qed

section \<open>Sources\<close>

lemma set_prioritise: "set (prioritise intent es) \<subseteq> set es"
  by (auto simp: prioritise_def enumerate_eq_zip dest: set_zip_rightD)

lemma citation_from_evidence:
  assumes "c \<in> set (cp_citations (assemble b q i es rows ws h m))"
  shows "\<exists>e \<in> set es. ct_contract_id c = ev_contract_id e \<and> ct_text c = strip (ev_text e)"
proof -
  define good where "good c \<longleftrightarrow> (\<exists>e \<in> set es. ct_contract_id c = ev_contract_id e \<and> ct_text c = strip (ev_text e))" for c :: citation
  have step: "Ball (set (pk_citations (fold (admit_item m b) xs s))) good"
    if "set xs \<subseteq> set es" "Ball (set (pk_citations s)) good" for xs s
    using that
  proof (induction xs arbitrary: s)
    case (Cons x xs)
    have "good (to_citation l (strip (ev_text x)) x)" for l
      using Cons.prems(1) by (auto simp: good_def to_citation_def)
    then have "Ball (set (pk_citations (admit_item m b x s))) good"
      using Cons.prems(2) by (auto simp: admit_item_def drop_item_def)
    then show ?case using Cons.IH Cons.prems(1) by simp
  qed simp
  have "\<exists>s0. cp_citations (assemble b q i es rows ws h m) = pk_citations (fold (admit_item m b) (prioritise i es) s0) \<and> pk_citations s0 = []"
    unfolding assemble_def Let_def
    by (simp split del: if_split, rule exI, rule conjI, rule refl, simp)
  then obtain s0 where s0: "cp_citations (assemble b q i es rows ws h m) = pk_citations (fold (admit_item m b) (prioritise i es) s0)"
    "pk_citations s0 = []"
    by blast
  have "Ball (set (cp_citations (assemble b q i es rows ws h m))) good"
    unfolding s0(1) by (rule step[OF set_prioritise]) (simp add: s0(2))
  then show ?thesis using assms by (simp add: good_def)
qed

lemma answer_cites_package:
  assumes "rag_answer nfkc provider package fmt = Inr a"
  shows "set (an_citations a) \<subseteq> set (cp_citations package)"
  using assms
  by (auto simp: rag_answer_def Let_def empty_answer_def blank_answer_def validate_fields split: if_splits generation.splits)

lemma source_from_package:
  assumes "copilot_answer env db query pids cid history = Inr r" "prepare env db query pids cid history = Inr p" "s \<in> set (cr_sources r)"
  shows "\<exists>package c. pp_package p = Some package \<and> c \<in> set (cp_citations package) \<and> s = to_source c"
proof (cases "pp_package p")
  case None
  then have "r = guardrail_result p"
    using assms(1,2) by (simp add: copilot_answer_def)
  then show ?thesis
    using assms(3) by (simp add: guardrail_result_def)
next
  case (Some package)
  then have "(\<exists>a. rag_answer (ce_nfkc env) (ce_generate env) package None = Inr a \<and> r = finish p package a) \<or> r = degraded_result p package"
    using assms(1,2) by (auto simp: copilot_answer_def split: sum.splits if_splits)
  then have "s \<in> to_source ` set (cp_citations package)"
  proof
    assume "\<exists>a. rag_answer (ce_nfkc env) (ce_generate env) package None = Inr a \<and> r = finish p package a"
    then obtain a where a: "set (an_citations a) \<subseteq> set (cp_citations package)" "r = finish p package a"
      using answer_cites_package by blast
    then show ?thesis
      using assms(3) by (auto simp: finish_def sources_def split: if_splits)
  qed (use assms(3) in \<open>simp add: degraded_result_def sources_def\<close>)
  then show ?thesis using Some by blast
qed

text \<open>C28: The guardrail holds. The Copilot says it has insufficient context exactly when the retrieval it kept found
  no evidence, or when the best similarity of a clause or chunk in it is below the threshold. It then answers
  with the fixed sentence and lists no sources, and the model is not asked, for whatever it would have returned
  the result is the same. Otherwise each source listed is a piece of that evidence.\<close>

theorem weak_evidence_is_never_answered:
  assumes "copilot_answer env db query pids cid history = Inr r"
  shows "\<exists>p. prepare env db query pids cid history = Inr p \<and> rp_project_ids (pp_plan p) = pids \<and>
    retrieve (ce_retrieval env) (retrieval_plan.truncate (pp_plan p)) db = Inr (pp_retrieval p) \<and>
    (cr_insufficient_context r \<longleftrightarrow> rr_evidence (pp_retrieval p) = [] \<or>
      answerable_similarity (pp_retrieval p) < st_answer_similarity_threshold (ce_settings env)) \<and>
    (if cr_insufficient_context r
     then cr_answer r = INSUFFICIENT_CONTEXT \<and> cr_sources r = [] \<and>
       (\<forall>g. copilot_answer (env\<lparr>ce_generate := g\<rparr>) db query pids cid history = Inr r)
     else \<forall>s \<in> set (cr_sources r). \<exists>e \<in> set (rr_evidence (pp_retrieval p)).
       sr_contract_id s = ev_contract_id e \<and> sr_text s = strip (ev_text e))"
proof -
  obtain p where p: "prepare env db query pids cid history = Inr p"
    using assms by (auto simp: copilot_answer_def split: sum.splits)
  obtain rq pl where pl: "pq_project_ids rq = pids" "plan_query (ce_settings env) (ce_today env) query rq = Inr pl"
    "pp_plan p = pl \<or> pp_plan p = drop_types pl"
    "retrieve (ce_retrieval env) (retrieval_plan.truncate (pp_plan p)) db = Inr (pp_retrieval p)"
    "pp_package p = package_for env query history (pp_plan p) (pp_retrieval p)"
    using prepareD[OF p] by metis
  have bar: "cr_insufficient_context r \<longleftrightarrow> rr_evidence (pp_retrieval p) = [] \<or>
      answerable_similarity (pp_retrieval p) < st_answer_similarity_threshold (ce_settings env)"
    using copilot_package[OF assms p] by (auto simp: pl(5) package_for_def clears_the_bar_def)
  have pids: "rp_project_ids (pp_plan p) = pids"
    using pl(1,3) plan_queryD(1)[OF pl(2)] by auto
  have refused: "cr_answer r = INSUFFICIENT_CONTEXT \<and> cr_sources r = [] \<and>
      (\<forall>g. copilot_answer (env\<lparr>ce_generate := g\<rparr>) db query pids cid history = Inr r)" if "pp_package p = None"
    using assms p that generator_unused
    by (auto simp: copilot_answer_def guardrail_result_def)
  have listed: "\<exists>e \<in> set (rr_evidence (pp_retrieval p)). sr_contract_id s = ev_contract_id e \<and> sr_text s = strip (ev_text e)"
    if s: "s \<in> set (cr_sources r)" for s
  proof -
    obtain package c where c: "pp_package p = Some package" "c \<in> set (cp_citations package)" "s = to_source c"
      using source_from_package[OF assms p s] by blast
    then show ?thesis
      using citation_from_evidence by (fastforce simp: pl(5) package_for_def to_source_def split: if_splits)
  qed
  show ?thesis
    using p pids pl(4) bar refused listed copilot_package[OF assms p] by (intro exI[of _ p]) simp
qed

text \<open>C27: An answer shows its reader nothing from outside the question's scope. Every source of every result, of an
  answer, of a degraded one and after the search was widened, is text of a row of the given projects and of the
  contract it names; and when the question is about one contract, every source comes from it, unless the result
  says that its scope was truncated.\<close>

theorem sources_stay_in_scope:
  assumes "index_ok db" "copilot_answer env db query pids cid history = Inr r" "s \<in> set (cr_sources r)"
  shows "(\<exists>t. text_source db (set pids) (sr_contract_id s) t \<and> sr_text s = strip t) \<and>
    (cid = Some c \<longrightarrow> cr_scope_truncated r \<or> sr_contract_id s = c)"
proof -
  obtain p where p: "prepare env db query pids cid history = Inr p"
    using assms(2) by (auto simp: copilot_answer_def split: sum.splits)
  obtain rq pl where pl: "pq_project_ids rq = pids" "pq_contract_ids rq = (case cid of None \<Rightarrow> [] | Some c \<Rightarrow> [c])"
    "plan_query (ce_settings env) (ce_today env) query rq = Inr pl" "pp_plan p = pl \<or> pp_plan p = drop_types pl"
    "retrieve (ce_retrieval env) (retrieval_plan.truncate (pp_plan p)) db = Inr (pp_retrieval p)"
    "pp_package p = package_for env query history (pp_plan p) (pp_retrieval p)"
    using prepareD[OF p] by metis
  obtain package ct where ct: "pp_package p = Some package" "ct \<in> set (cp_citations package)" "s = to_source ct"
    using source_from_package[OF assms(2) p assms(3)] by blast
  then obtain e where e: "e \<in> set (rr_evidence (pp_retrieval p))" "ct_contract_id ct = ev_contract_id e" "ct_text ct = strip (ev_text e)"
    using pl(6) citation_from_evidence unfolding package_for_def by (metis option.distinct(1) option.inject)
  have s: "sr_contract_id s = ev_contract_id e" "sr_text s = strip (ev_text e)"
    using ct(3) e by (simp_all add: to_source_def)
  have scope: "rp_project_ids (pp_plan p) = pids" "rp_contract_ids (pp_plan p) = pq_contract_ids rq"
    "mf_contract_ids (rp_filters (pp_plan p)) = pq_contract_ids rq"
    using pl(1,4) plan_queryD[OF pl(3)] by auto
  have "text_source db (set pids) (ev_contract_id e) (ev_text e)"
    using retrieve_scoped_fits[OF assms(1) pl(5) e(1)] scope(1) by (simp add: fits_def in_core_def core_def)
  moreover have "ev_contract_id e = c" if cid: "cid = Some c" and full: "\<not> cr_scope_truncated r"
  proof -
    have "cr_scope_truncated r = rr_truncated (pp_retrieval p)"
      using assms(2) p ct(1)
      by (auto simp: copilot_answer_def degraded_result_def finish_def split: sum.splits if_splits)
    moreover have "pq_contract_ids rq = [c]"
      using pl(2) cid by simp
    ultimately have "fits db (set pids) {c} e"
      using retrieve_named_fits[OF assms(1) pl(5) e(1)] scope full by (simp add: filter_is_empty_def)
    then show ?thesis by (simp add: fits_def in_core_def core_def)
  qed
  ultimately show ?thesis
    using s by metis
qed

section \<open>Witnesses\<close>

definition sample_settings :: "rat \<Rightarrow> retrieval_settings" where
  "sample_settings threshold =
     \<lparr>st_max_documents = 25, st_max_clauses = 40, st_max_chunks = 20, st_min_similarity = None,
      st_min_similarity_document = None, st_min_similarity_clause = None, st_min_similarity_chunk = None,
      st_graph_max_depth = 3, st_reranker_enabled = False, st_document_type_confidence_threshold = 3 / 4,
      st_answer_similarity_threshold = threshold, st_copilot_top_k = 25, st_top_context_chunks = 8\<rparr>"

text \<open>An environment whose embedding service and model are both unreachable.\<close>

definition sample_copilot :: "rat \<Rightarrow> copilot_env" where
  "sample_copilot threshold =
     \<lparr>ce_settings = sample_settings threshold, ce_retrieval = sample_env\<lparr>re_max_chunks := 0\<rparr>, ce_today = 738000, ce_doc_types_known = False,
      ce_analyse = (\<lambda>q. no_analysis), ce_resolve = (\<lambda>l. None), ce_budget = 3000, ce_nfkc = (\<lambda>s. s),
      ce_generate = (\<lambda>prompt. GenError (access_error ''ProviderError'' ''provider_error'' [] []))\<rparr>"

lemma sample_period: "resolve_period (lower (strip ''rent'')) = None"
  by code_simp

lemma sample_intent: "detect_intent (strip ''rent'') (Some a) = qa_intent a"
proof -
  have "first_intent INTENT_PATTERNS (lower (strip ''rent'')) = None"
    by code_simp
  then show ?thesis by (simp add: detect_intent_def)
qed

lemma sample_filters:
  "\<not> rx_search (RAlt (stem ''missing clause'') (RAlt (phrase ''missing mandatory'') (phrase ''incomplete''))) (lower ''rent'')"
  "\<not> rx_search (RAlt (stem ''unlimited liabilit'') (phrase ''uncapped'')) (lower ''rent'')"
  "filter (asks_for_band (lower ''rent'')) RISK_BANDS = []"
  by code_simp+

lemma sample_strategy: "select_strategy QI_GENERAL_QA ''rent'' SC_CONTRACT [Suc 0] True = RS_HYBRID"
proof -
  have "\<not> rx_search CLAUSE_NUMBER ''rent''"
    by code_simp
  then show ?thesis by (simp add: select_strategy_def)
qed

definition sample_request :: "rat \<Rightarrow> plan_request" where
  "sample_request threshold = copilot_request (sample_copilot threshold) [7] (Some 1) no_analysis None"

lemma sample_planned:
  obtains pl where "plan_query (sample_settings threshold) today ''rent'' (sample_request threshold) = Inr pl"
    "rp_strategy pl = RS_HYBRID" "rp_mode pl = SM_HYBRID" "rp_project_ids pl = [7]" "rp_contract_ids pl = [1]"
    "mf_agreement_types (rp_filters pl) = []" "mf_contract_ids (rp_filters pl) = [1]" "rp_graph_depth pl = 0" "\<not> rp_rerank pl"
    "rp_query pl = ''rent''" "prefilter_holds (retrieval_plan.truncate pl) (sample_projection, sample_contract)"
    "\<exists>b c. rp_levels pl = [b, c] \<and> lb_level b = EL_CLAUSE \<and> lb_level c = EL_CHUNK \<and> lb_limit b = 25 \<and> lb_limit c = 25"
proof -
  have rq: "pq_project_ids (sample_request threshold) = [7]" "pq_contract_ids (sample_request threshold) = [1]"
    "pq_analysis (sample_request threshold) = Some no_analysis" "pq_scope (sample_request threshold) = SC_CONTRACT"
    "pq_prefer_content (sample_request threshold)" "pq_mode (sample_request threshold) = SM_HYBRID" "pq_for_answer (sample_request threshold)"
    "pq_agreement_types (sample_request threshold) = []" "pq_document_type (sample_request threshold) = None"
    "pq_level_limit (sample_request threshold) = Some 25"
    by (simp_all add: sample_request_def copilot_request_def sample_copilot_def sample_settings_def)
  have word: "strip ''rent'' = ''rent''" by code_simp
  note eval = plan_query_def rq sample_intent[unfolded word] sample_strategy sample_filters extract_filters_def
    sample_period[unfolded word] with_document_type_def no_analysis_def Let_def word
  show ?thesis
    by (rule that, simp add: eval)
      (simp_all add: level_budgets_def budget_for_def sample_settings_def prefilter_holds_def retrieval_plan.truncate_def
        sample_defs neighbour_window_def sample_strategy sample_filters)
qed

lemma deduplicate_nonempty: "es \<noteq> [] \<Longrightarrow> deduplicate es \<noteq> []"
proof -
  assume "es \<noteq> []"
  then have "best_by_key es \<noteq> []"
    using best_by_key_laws(3)[of "hd es" es] by fastforce
  moreover have admit: "admit e xs \<noteq> []" for e xs
    by (cases xs) simp_all
  have grows: "xs \<noteq> [] \<or> acc \<noteq> [] \<Longrightarrow> fold admit xs acc \<noteq> []" for xs acc
    by (induction xs arbitrary: acc) (auto simp: admit)
  ultimately have "sort_key (\<lambda>e. - ev_score e) (best_by_key es) \<noteq> []"
    by (metis length_0_conv length_sort)
  then have "suppress_near_duplicates (sort_key (\<lambda>e. - ev_score e) (best_by_key es)) \<noteq> []"
    unfolding suppress_near_duplicates_def by (intro grows) simp
  then show ?thesis
    unfolding deduplicate_def ranked_def by (metis length_0_conv length_enumerate length_map)
qed

lemma admitted_stays: "pk_citations s \<noteq> [] \<Longrightarrow> pk_citations (fold (admit_item m b) xs s) \<noteq> []"
  by (induction xs arbitrary: s) (auto simp: admit_item_def drop_item_def)

lemma assemble_nonempty:
  assumes "es \<noteq> []" "Ball (set es) has_text" "0 < m"
  shows "cp_citations (assemble b q i es rows ws h m) \<noteq> []"
proof -
  have "prioritise i es \<noteq> []"
    using assms(1) by (simp add: prioritise_def enumerate_eq_zip flip: length_greater_0_conv)
  then obtain x xs where x: "prioritise i es = x # xs"
    by (cases "prioritise i es") simp_all
  then have "has_text x"
    using assms(2) set_prioritise[of i es] by auto
  then have "pk_citations (admit_item m b x \<lparr>pk_citations = [], pk_spent = n, pk_label = 1, pk_dropped = 0\<rparr>) \<noteq> []" for n
    using assms(3) by (simp add: admit_item_def has_text_def MIN_ITEMS_def)
  then have "pk_citations (fold (admit_item m b) (prioritise i es) \<lparr>pk_citations = [], pk_spent = n, pk_label = 1, pk_dropped = 0\<rparr>) \<noteq> []" for n
    unfolding x by (simp add: admitted_stays)
  then show ?thesis
    unfolding assemble_def Let_def by (simp split del: if_split)
qed

lemma sample_found:
  assumes "plan_query (sample_settings threshold) today ''rent'' (sample_request threshold) = Inr pl"
  shows "\<exists>r. retrieve (sample_env\<lparr>re_max_chunks := 0\<rparr>) (retrieval_plan.truncate pl) sample_db = Inr r \<and> rr_evidence r \<noteq> [] \<and>
    \<not> rr_truncated r \<and> (\<forall>e \<in> set (rr_evidence r). ev_text e = ''text'' \<and> ev_contract_id e = 1)"
proof -
  let ?env = "sample_env\<lparr>re_max_chunks := 0\<rparr>" and ?plan = "retrieval_plan.truncate pl"
  obtain pl' b c where pl: "pl' = pl" "rp_strategy pl = RS_HYBRID" "rp_mode pl = SM_HYBRID" "rp_project_ids pl = [7]"
    "rp_contract_ids pl = [1]" "rp_graph_depth pl = 0" "\<not> rp_rerank pl" "rp_query pl = ''rent''"
    "prefilter_holds ?plan (sample_projection, sample_contract)" "rp_levels pl = [b, c]" "lb_level b = EL_CLAUSE"
    "lb_level c = EL_CHUNK" "lb_limit b = 25" "lb_limit c = 25"
    by (rule sample_planned[of threshold today]) (use assms in auto)
  have plan: "rp_levels ?plan = [b, c]" "\<not> rp_rerank ?plan" "rp_graph_depth ?plan = 0"
    using pl by (simp_all add: retrieval_plan.truncate_def)
  have pre: "metadata_prefilter ?env ?plan sample_db = ([1], [payload_row ?env (sample_projection, sample_contract)], False)"
    using pl(9) by (simp add: metadata_prefilter_def nulls_last_def joined_def Let_def MAX_CANDIDATE_CONTRACTS_def sample_db_def
      sample_projection_def sample_contract_def)
  obtain h where h: "keyword_search ?env ?plan b [1] sample_db = [h]" "keyword_search ?env ?plan c [1] sample_db = [h]"
    "ev_text h = ''text''" "ev_contract_id h = 1" "ev_chunk_id h = Some 1" "ev_level h = EL_CHUNK"
    using pl by (simp add: keyword_search_def sample_defs keyword_hit_def blank_evidence_def)
  define f where "f = fuse [] [h] 25"
  have f: "f \<noteq> []" "\<forall>e \<in> set f. ev_text e = ''text'' \<and> ev_contract_id e = 1"
    using h(3,4) by (simp_all add: f_def ranking_eval)
  have searched: "search_levels ?env ?plan sample_db None [b, c] \<lparr>ds_evidence = [], ds_candidates = [1], ds_narrowed = None, ds_top = []\<rparr> =
      Inr \<lparr>ds_evidence = f @ f, ds_candidates = [1], ds_narrowed = None, ds_top = []\<rparr>"
    using pl h(1,2) by (simp add: search_level_def f_def Let_def One_nat_def[symmetric] del: One_nat_def)
  define out where "out = map (attach_title sample_db) (deduplicate (f @ f))"
  have expand: "expand_neighbours ?env ?plan sample_db (f @ f) = []"
    by (simp add: expand_neighbours_def)
  have finished: "finish_evidence ?env ?plan sample_db (f @ f) = Inr out"
    using plan expand by (simp add: out_def finish_evidence_def)
  have "ev_text (attach_title sample_db k) = ''text'' \<and> ev_contract_id (attach_title sample_db k) = 1"
    if kept: "k \<in> set (deduplicate (f @ f))" for k
  proof -
    obtain e where "e \<in> set f" "core k = core e"
      using deduplicate_from[OF kept] by auto
    then show ?thesis
      using f(2) by (simp add: core_def attach_title_def)
  qed
  then have out: "out \<noteq> []" "\<forall>e \<in> set out. ev_text e = ''text'' \<and> ev_contract_id e = 1"
    using deduplicate_nonempty[of "f @ f"] f(1) by (auto simp: out_def)
  have scoped: "is_scoped ?plan" "rp_strategy ?plan = RS_HYBRID" "rp_mode ?plan = SM_HYBRID"
    using pl by (simp_all add: is_scoped_def retrieval_plan.truncate_def)
  have unvectored: "embed_query ?env ?plan = None" "re_embed_query ?env (rp_query ?plan) = None"
    by (simp_all add: embed_query_def sample_env_def)
  have "retrieve ?env ?plan sample_db = Inr (blank_result\<lparr>rr_metadata_rows := [payload_row ?env (sample_projection, sample_contract)],
      rr_candidate_contracts := [1], rr_evidence := out, rr_counts := count_by_source out,
      rr_warnings := [''Semantic search was unavailable, so results are keyword-based only.'']\<rparr>)"
    unfolding retrieve_def pre prod.case Let_def if_False unvectored plan(1) searched sum.case
    using pl(2,3) scoped(1) by (simp add: scoped finished blank_result_def)
  then show ?thesis
    using out by (simp add: blank_result_def)
qed

text \<open>The question is prepared at any threshold; at zero its evidence is packed.\<close>

lemma sample_prepared:
  "\<exists>p. prepare (sample_copilot threshold) sample_db ''rent'' [7] (Some 1) [] = Inr p \<and> \<not> rr_truncated (pp_retrieval p) \<and>
    (threshold = 0 \<longrightarrow> (\<exists>package. pp_package p = Some package \<and> cp_citations package \<noteq> []))"
proof -
  let ?ask = "sample_copilot threshold"
  obtain pl where pl: "plan_query (sample_settings threshold) 738000 ''rent'' (sample_request threshold) = Inr pl"
    "mf_agreement_types (rp_filters pl) = []"
    by (rule sample_planned)
  obtain r where r: "retrieve (sample_env\<lparr>re_max_chunks := 0\<rparr>) (retrieval_plan.truncate pl) sample_db = Inr r" "rr_evidence r \<noteq> []"
    "\<not> rr_truncated r" "\<forall>e \<in> set (rr_evidence r). ev_text e = ''text'' \<and> ev_contract_id e = 1"
    using sample_found[OF pl(1)] by blast
  have contract: "load_contract 1 [7] sample_db = Inr sample_contract"
    by (simp add: load_contract_def sample_db_def sample_contract_def)
  have document_type: "document_type_of ?ask ''rent'' (Some sample_contract) = (no_analysis, None)"
    by (simp add: document_type_of_def sample_contract_def no_analysis_def nonempty_opt_def)
  have env: "ce_settings ?ask = sample_settings threshold" "ce_today ?ask = 738000" "ce_retrieval ?ask = sample_env\<lparr>re_max_chunks := 0\<rparr>"
    by (simp_all add: sample_copilot_def)
  have request: "copilot_request ?ask [7] (Some 1) no_analysis None = sample_request threshold"
    by (simp add: sample_request_def)
  have prepared: "prepare ?ask sample_db ''rent'' [7] (Some 1) [] = Inr \<lparr>pp_plan = pl, pp_retrieval = r, pp_analysis = no_analysis,
      pp_document_type = None, pp_retrieval_mode = copilot_mode pl None (Some 1), pp_package = package_for ?ask ''rent'' [] pl r,
      pp_relaxed_filters = False\<rparr>"
    unfolding prepare_def option.case contract map_sum.simps sum.case document_type prod.case env request pl(1) r(1)
    using r(2) by simp
  have texts: "Ball (set (rr_evidence r)) has_text"
    using r(4) by (auto simp: has_text_def strip_def is_space_def)
  have similarity: "answerable_similarity r = 0"
    using no_vectors_no_similarity[OF _ r(1)] by (simp add: answerable_similarity_def sample_env_def)
  have "\<exists>package. package_for ?ask ''rent'' [] pl r = Some package \<and> cp_citations package \<noteq> []" if "threshold = 0"
  proof -
    have "clears_the_bar ?ask r"
      using that r(2) similarity by (simp add: clears_the_bar_def sample_copilot_def sample_settings_def)
    then show ?thesis
      using assemble_nonempty[OF r(2) texts] by (simp add: package_for_def sample_copilot_def sample_settings_def)
  qed
  then show ?thesis
    using prepared r(3) by simp
qed

lemma sample_answered:
  "\<exists>r s. copilot_answer (sample_copilot 0) sample_db ''rent'' [7] (Some 1) [] = Inr r \<and> s \<in> set (cr_sources r) \<and>
    \<not> cr_scope_truncated r \<and> \<not> cr_insufficient_context r"
proof -
  obtain p package where p: "prepare (sample_copilot 0) sample_db ''rent'' [7] (Some 1) [] = Inr p" "\<not> rr_truncated (pp_retrieval p)"
    "pp_package p = Some package" "cp_citations package \<noteq> []"
    using sample_prepared[of 0] by auto
  have "\<not> package_is_empty package"
    using p(4) by (simp add: package_is_empty_def)
  then have "rag_answer (ce_nfkc (sample_copilot 0)) (ce_generate (sample_copilot 0)) package None =
      Inl (access_error ''ProviderError'' ''provider_error'' [] [])"
    by (simp add: rag_answer_def sample_copilot_def Let_def)
  then have "copilot_answer (sample_copilot 0) sample_db ''rent'' [7] (Some 1) [] = Inr (degraded_result p package)"
    using p by (simp add: copilot_answer_def provider_error_def access_error_def)
  moreover have "to_source (hd (cp_citations package)) \<in> set (cr_sources (degraded_result p package))"
    using p(4) by (simp add: degraded_result_def sources_def)
  ultimately show ?thesis
    using p(2) by (intro exI[of _ "degraded_result p package"] exI[of _ "to_source (hd (cp_citations package))"])
      (simp add: degraded_result_def)
qed

lemma sample_refused:
  "\<exists>r. copilot_answer (sample_copilot (1 / 2)) sample_db ''rent'' [7] (Some 1) [] = Inr r \<and> cr_insufficient_context r"
proof -
  obtain p where p: "prepare (sample_copilot (1 / 2)) sample_db ''rent'' [7] (Some 1) [] = Inr p"
    using sample_prepared by blast
  obtain rq pl where pl:
    "retrieve (ce_retrieval (sample_copilot (1 / 2))) (retrieval_plan.truncate (pp_plan p)) sample_db = Inr (pp_retrieval p)"
    "pp_package p = package_for (sample_copilot (1 / 2)) ''rent'' [] (pp_plan p) (pp_retrieval p)"
    using prepareD[OF p] by metis
  have none: "re_embed_query (ce_retrieval (sample_copilot (1 / 2))) q = None" for q
    by (simp add: sample_copilot_def sample_env_def)
  have "pp_package p = None"
    using no_vectors_no_similarity[OF none pl(1)] pl(2)
    by (simp add: package_for_def clears_the_bar_def answerable_similarity_def sample_copilot_def sample_settings_def)
  then have "copilot_answer (sample_copilot (1 / 2)) sample_db ''rent'' [7] (Some 1) [] = Inr (guardrail_result p)"
    using p by (simp add: copilot_answer_def)
  then show ?thesis
    by (simp add: guardrail_result_def)
qed

theorem plan_keeps_its_scope_witness:
  "\<exists>pl. plan_query (sample_settings 0) 1 ''rent'' (sample_request 0) = Inr pl \<and> map lb_level (rp_levels pl) = [EL_CLAUSE, EL_CHUNK]"
proof -
  obtain pl where pl: "plan_query (sample_settings 0) 1 ''rent'' (sample_request 0) = Inr pl" "rp_strategy pl = RS_HYBRID"
    by (rule sample_planned)
  have "pq_contract_ids (sample_request 0) \<noteq> []" "pq_for_answer (sample_request 0)"
    by (simp_all add: sample_request_def copilot_request_def)
  then show ?thesis
    using plan_keeps_its_scope[OF pl(1)] pl by auto
qed

theorem long_period_raises_witness:
  "plan_query (sample_settings 0) 738000 ''next 9999999 days'' (sample_request 0) = Inl OverflowError"
  by (rule long_period_raises) simp

theorem weak_evidence_is_never_answered_witness:
  "(\<exists>p r s. prepare (sample_copilot 0) sample_db ''rent'' [7] (Some 1) [] = Inr p \<and>
      copilot_answer (sample_copilot 0) sample_db ''rent'' [7] (Some 1) [] = Inr r \<and> s \<in> set (cr_sources r) \<and>
      (\<exists>e \<in> set (rr_evidence (pp_retrieval p)). sr_contract_id s = ev_contract_id e \<and> sr_text s = strip (ev_text e))) \<and>
   (\<exists>r. copilot_answer (sample_copilot (1 / 2)) sample_db ''rent'' [7] (Some 1) [] = Inr r \<and> cr_answer r = INSUFFICIENT_CONTEXT)"
proof
  obtain r s where r: "copilot_answer (sample_copilot 0) sample_db ''rent'' [7] (Some 1) [] = Inr r" "s \<in> set (cr_sources r)"
      "\<not> cr_insufficient_context r"
    using sample_answered by blast
  show "\<exists>p r s. prepare (sample_copilot 0) sample_db ''rent'' [7] (Some 1) [] = Inr p \<and>
      copilot_answer (sample_copilot 0) sample_db ''rent'' [7] (Some 1) [] = Inr r \<and> s \<in> set (cr_sources r) \<and>
      (\<exists>e \<in> set (rr_evidence (pp_retrieval p)). sr_contract_id s = ev_contract_id e \<and> sr_text s = strip (ev_text e))"
  proof -
    obtain p where p: "prepare (sample_copilot 0) sample_db ''rent'' [7] (Some 1) [] = Inr p"
      "\<forall>s \<in> set (cr_sources r). \<exists>e \<in> set (rr_evidence (pp_retrieval p)).
        sr_contract_id s = ev_contract_id e \<and> sr_text s = strip (ev_text e)"
      using weak_evidence_is_never_answered[OF r(1)] r(3) by auto
    then show ?thesis using r by blast
  qed
next
  obtain r where r: "copilot_answer (sample_copilot (1 / 2)) sample_db ''rent'' [7] (Some 1) [] = Inr r" "cr_insufficient_context r"
    using sample_refused by blast
  then show "\<exists>r. copilot_answer (sample_copilot (1 / 2)) sample_db ''rent'' [7] (Some 1) [] = Inr r \<and> cr_answer r = INSUFFICIENT_CONTEXT"
    using weak_evidence_is_never_answered[OF r(1)] by auto
qed

theorem keyword_evidence_is_never_answered_witness:
  "\<exists>r. copilot_answer (sample_copilot (1 / 2)) sample_db ''rent'' [7] (Some 1) [] = Inr r \<and> cr_insufficient_context r"
  using sample_refused keyword_evidence_is_never_answered[of "sample_copilot (1 / 2)"]
  by (auto simp: sample_copilot_def sample_settings_def sample_env_def)

theorem sources_stay_in_scope_witness:
  "\<exists>r s. copilot_answer (sample_copilot 0) sample_db ''rent'' [7] (Some 1) [] = Inr r \<and> s \<in> set (cr_sources r) \<and> sr_contract_id s = 1"
proof -
  obtain r s where r: "copilot_answer (sample_copilot 0) sample_db ''rent'' [7] (Some 1) [] = Inr r" "s \<in> set (cr_sources r)"
    "\<not> cr_scope_truncated r"
    using sample_answered by blast
  have "sr_contract_id s = 1"
    using sources_stay_in_scope[OF sample_index r(1,2), of 1] r(3) by blast
  then show ?thesis using r by blast
qed

end
