(* ===== verification/Spec2Isabelle.thy ===== *)
theory Spec2Isabelle
  imports Maintenance UsersLaws AlertSteady AlertService ExportLaws BatchPlanner CopilotLaws
begin

text \<open>
  A verification development of CLEAR, the contract-intelligence platform under
  \<^verbatim>\<open>src/backend\<close>. Uploaded contracts are processed by a pipeline of six stages
  (validation, parser, docpipeline, extraction, embedding, indexing). What is modelled here is the
  part that decides what runs, runs it once, remembers that it ran, and hands on the work (the
  orchestrator, its tables and its queues); the part that decides who may do what (identity,
  sessions, permissions, user management); and the part that watches contracts and the platform
  (alerts, their rules, and the calls to providers); the part by which contract data leaves it
  (the repository query, the exports and the object store); and the part that finds evidence for a
  question and vets the answer (the chunk store, the query planner, retrieval, context assembly, answer
  validation, and the Copilot service that composes them).

  \<^bold>\<open>How the parts interact.\<close> A job is created for a contract and a message for its first stage is put
  on a queue. A worker takes the message and calls the runner. The runner loads the job, asks the
  workflow engine for a plan, either reuses a checkpoint or calls the stage's handler, records the
  outcome in the job, its run history and the artifacts in one transaction, and after the commit
  enqueues the next stage or a retry. Sweeps recover what a dead worker left behind; users retry,
  cancel and reprocess jobs through the API. Every request is made by a user whose access token and
  memberships give the scope it runs in, and every change of an account, a membership or an alert
  writes an audit row. The maintenance loop also evaluates the alert rules over the contracts, and
  failures of the platform are raised as alerts and delivered over the configured channels. A user
  asks for an export of the contracts a filter selects; a background task collects the rows the
  scope of the request admits, has them rendered, stores the file and completes the row; a short-lived
  link opens it, and the maintenance loop removes it when it has expired. A question becomes a
  retrieval plan; the engine narrows to candidate contracts by their metadata, searches vectors and
  full text level by level, fuses both, widens the hits by neighbours and graph edges, deduplicates
  and re-ranks; the Copilot refuses when the best similarity stays below its threshold, otherwise the
  assembler packs what fits the budget into a package of numbered citations, the
  prompt renders them inside a delimited block, and the validator checks the citations of the answer
  the model returns against that package.

  \<^bold>\<open>Theories\<close>, in the order they build on each other:

  \<^item> \<open>Prelude\<close>: JSON values, dictionaries in insertion order, tables as lists of rows, and the
    lemmas on them the components share.
  \<^item> \<open>Enums\<close> (\<^verbatim>\<open>core/enums.py\<close>): stages, job, run and queue states, priorities, artifact kinds
    and the static tables over them, with the code's values and orders.
  \<^item> \<open>Versions\<close> (\<^verbatim>\<open>core/versions.py\<close>): the version payload a stage stamps on its checkpoint and
    the comparison that decides reuse.
  \<^item> \<open>Models\<close> (\<^verbatim>\<open>models/*.py\<close>, \<^verbatim>\<open>core/errors.py\<close>): the rows, the database as one record of row
    lists, the errors. \<open>Fixtures\<close> holds the concrete rows the witnesses use.
  \<^item> \<open>Workflow\<close> (\<^verbatim>\<open>orchestrator/workflow.py\<close>): the planner.
  \<^item> \<open>ProcessingRepo\<close> (\<^verbatim>\<open>repositories/processing.py\<close> and what it uses of \<^verbatim>\<open>base.py\<close> and
    \<^verbatim>\<open>contract.py\<close>): every operation on jobs, stage runs and artifacts, and the invariant \<open>db_wf\<close>
    of the tables.
  \<^item> \<open>QueueMessage\<close>, \<open>PgQueue\<close>, \<open>RedisQueue\<close> (\<^verbatim>\<open>orchestrator/queue.py\<close>, \<^verbatim>\<open>models/queue.py\<close>): the
    message and its serialisation, the Postgres table with leases and a retry budget, and the Redis
    lists with their delay tier.
  \<^item> \<open>Runner\<close> and \<open>RunnerLaws\<close> (\<^verbatim>\<open>orchestrator/runner.py\<close>): one execution with its transaction,
    failure handling and dispatch; its laws.
  \<^item> \<open>Pipeline\<close> (\<open>InlineDriver\<close> of \<^verbatim>\<open>orchestrator/queue.py\<close>): the pipeline driven to its end.
  \<^item> \<open>Worker\<close> (\<^verbatim>\<open>cli.py\<close>): the claim loop and the settling of leases.
  \<^item> \<open>JobsApi\<close> (\<^verbatim>\<open>api/v1/jobs.py\<close>, \<^verbatim>\<open>cli.py\<close>): retry, cancel and reprocess.
  \<^item> \<open>Maintenance\<close> (\<^verbatim>\<open>orchestrator/maintenance.py\<close>): the periodic sweeps.
  \<^item> \<open>AuditLog\<close> (\<^verbatim>\<open>services/audit.py\<close>): the diff of two values and its redaction.
  \<^item> \<open>Identity\<close> (\<^verbatim>\<open>models/identity.py\<close>, \<^verbatim>\<open>repositories/identity.py\<close>), \<open>Security\<close> (\<^verbatim>\<open>core/security.py\<close>)
    and \<open>Access\<close> (\<^verbatim>\<open>core/deps.py\<close>): accounts, memberships and refresh
    tokens; the claims of a token; roles, overrides and the scope of a request.
  \<^item> \<open>Auth\<close> and \<open>AuthLaws\<close> (\<^verbatim>\<open>services/auth.py\<close>, \<^verbatim>\<open>api/v1/auth.py\<close>): sign-in, lock-out, rotation and revocation.
  \<^item> \<open>Users\<close> and \<open>UsersLaws\<close> (\<^verbatim>\<open>services/user.py\<close>, \<^verbatim>\<open>services/project.py\<close>): the operations on
    accounts and memberships, and the guards that keep an administrator and a manager.
  \<^item> \<open>Resilience\<close> (\<^verbatim>\<open>ai/resilience.py\<close>): which provider errors are retried, the back-off and
    the deadline of the retry loop.
  \<^item> \<open>Dates\<close>: calendar dates as ordinals, their ISO text, and Python's \<open>str\<close> and \<open>int\<close> on JSON.
  \<^item> \<open>Alerts\<close> (\<^verbatim>\<open>models/alert.py\<close>, \<^verbatim>\<open>api/v1/admin.py\<close>), \<open>AlertEvaluator\<close>
    (\<^verbatim>\<open>services/alert_evaluator.py\<close>) with \<open>AlertLaws\<close> and \<open>AlertSteady\<close>, and \<open>AlertService\<close>
    (\<^verbatim>\<open>services/alerts.py\<close>): the alert rows and what users do to them, the sweep that raises, refreshes
    and retires them, and the events of the platform with their delivery (\<^verbatim>\<open>alerting/\<close>).
  \<^item> \<open>Storage\<close> (\<^verbatim>\<open>storage/base.py\<close>, \<^verbatim>\<open>storage/local.py\<close>): the keys of stored objects, the
    paths they resolve to, and the operations of the local adapter on a file system.
  \<^item> \<open>ContractQuery\<close> (\<open>filtered_query\<close> of \<^verbatim>\<open>repositories/contract.py\<close>): the filters of the
    repository screens as a predicate on a contract and its metadata row.
  \<^item> \<open>ExportData\<close> (\<^verbatim>\<open>export/dataset.py\<close>, \<^verbatim>\<open>export/base.py\<close>, \<^verbatim>\<open>export/xlsx.py\<close>): the columns, rows
    and notes of every sheet, the masking of clauses, and what is written to the grid of a worksheet.
  \<^item> \<open>Exports\<close> and \<open>ExportLaws\<close> (\<^verbatim>\<open>export/service.py\<close>, \<^verbatim>\<open>api/v1/exports.py\<close>): the life of an
    export job, its background task, its download and its sweeps; their laws.
  \<^item> \<open>Numbers\<close>: Python's \<open>round\<close> on exact rationals. \<open>PyRegex\<close>: the backtracking matcher of the regular
    expressions the code uses (\<open>finditer\<close>, \<open>sub\<close>, \<open>search\<close>), with its relation to the language they denote.
  \<^item> \<open>BatchPlanner\<close> (\<^verbatim>\<open>ai/extraction/batch_planner.py\<close>): which clauses share an extraction call.
  \<^item> \<open>ChunkStore\<close> (\<^verbatim>\<open>repositories/chunk.py\<close>): persisting a chunk set, and its scoped reads.
  \<^item> \<open>Ranking\<close> and \<open>RankingLaws\<close> (\<^verbatim>\<open>ai/retrieval/engine.py\<close>, \<^verbatim>\<open>ai/retrieval/rerank.py\<close>): evidence, rank
    fusion, deduplication, near duplicates and re-ranking.
  \<^item> \<open>Retrieval\<close> and \<open>RetrievalLaws\<close> (\<^verbatim>\<open>ai/retrieval/engine.py\<close>, \<^verbatim>\<open>repositories/embedding.py\<close>,
    \<^verbatim>\<open>repositories/knowledge.py\<close>, the plan of \<^verbatim>\<open>ai/retrieval/planner.py\<close>): the execution of a plan over
    the tables, and its scope.
  \<^item> \<open>Sanitise\<close> (\<^verbatim>\<open>ai/rag/sanitise.py\<close>), \<open>Context\<close> and \<open>ContextLaws\<close> (\<^verbatim>\<open>ai/retrieval/context.py\<close>, the user
    message of \<^verbatim>\<open>ai/rag/orchestrator.py\<close>): sanitising a passage, packing citations, rendering the prompt.
  \<^item> \<open>Answers\<close> and \<open>AnswerLaws\<close> (\<^verbatim>\<open>ai/rag/engine.py\<close>): citations of an answer, its validation and confidence.
  \<^item> \<open>QueryPlanner\<close> (\<^verbatim>\<open>ai/retrieval/planner.py\<close>, the retrieval settings of \<^verbatim>\<open>core/config.py\<close>): the intent of a
    question, its strategy, filters and budgets, with all tables of patterns.
  \<^item> \<open>Copilot\<close> and \<open>CopilotLaws\<close> (\<^verbatim>\<open>services/copilot.py\<close>): a question from its contract to the result shown,
    with the retry, the guardrail and the degraded answer.

  \<^bold>\<open>State and operations.\<close> A class or dataclass of the code is a record, an enum a datatype, an
  exception a value of \<open>exn\<close> and an operation that may raise returns a sum. A repository method or a
  driver method is a function from the database or queue to the new one; the clock, generated ids,
  the locks held by other transactions and environment settings are arguments. Python integers are
  \<open>int\<close>: they do not wrap. A queue claim under \<open>SKIP LOCKED\<close> takes the set of rows others hold as an
  argument, and interleavings of workers, API and sweeps are step relations (\<open>pg_step\<close>,
  \<open>worker_step\<close>, \<open>export_step\<close>).

  \<^bold>\<open>Interfaces.\<close> Locales state the contracts between components: \<open>job_transition\<close> (what an
  update of a job row keeps; every transition of the repository, the runner and the sweep is an
  interpretation), \<open>queue_update\<close> (what an update of a queue row keeps; claim, complete, fail and
  reclaim are its interpretations) and \<open>queue_client\<close> (what dispatching a message adds to the pending
  work; the Postgres and the Redis driver are its interpretations, and the runner's dispatch law is
  proved once from it), \<open>user_update\<close> and \<open>token_update\<close> (what an update of an account or of a refresh
  token keeps; the operations of the repository and of the service are the interpretations),
  \<open>alert_change\<close> (what a step keeps of the alert rows; the refresh, the retirement, the escalation, a
  user's decision and the sweeps built of them are the interpretations), and \<open>object_storage\<close> (what
  reading finds after a write, under which keys objects are independent; the local adapter is the
  interpretation).

  \<^bold>\<open>What the lemmas show.\<close>

  \<^item> Runner: an execution leaves an active job retrying, with a next stage, \<open>READY\<close> or \<open>FAILED\<close>; it
    appends one run that mirrors its outcome, and none for a job that is not active; the context a handler hands
    on is written as the session writes it, which is not always; a failure is retried exactly when the exception is
    retryable and attempts remain; a success is the checkpoint later jobs find; each run hands on at
    most one message, and a job is never left waiting for a message that could not be queued.
  \<^item> Pipeline and worker: the inline pipeline terminates with its job at rest; settling a lease
    leaves exactly the handed-on work; no stage exceeds its concurrency.
  \<^item> Queues: table invariant, most urgent row first, bounded redelivery, deduplication, exact lease
    recovery; promotion of delayed Redis entries conserves the work, and the order it yields.
  \<^item> Planner and versions: plans cover their scope and cascade, a skip implies a successful run in the
    history with the versions in force,
    when planning raises, which checkpoints a change of the embedding model or of the profile
    invalidates.
  \<^item> Tables: append-only history with fresh attempt numbers, one current artifact per kind, downstream
    invalidation, the two checkpoint selectors and where they disagree.
  \<^item> API and sweeps: a retry opens a new job and keeps the evidence, a cancelled job stays inert, a
    forced retry may still reuse checkpoints, a sweep fails exactly the stalled jobs.
  \<^item> Audit: fields named as credentials are redacted at the top level of a payload, and only there.
  \<^item> Identity: when a sign-in succeeds, what a rotation and a revocation leave, which of the service's
    writes are lost because its request rolls back; the permission of a member, and that no sequence
    of operations loses the last administrator.
  \<^item> Alerts: after a sweep the open alerts of an evaluated kind are exactly the ones the rules call
    for, a second sweep changes nothing but the time stamp of the evaluation, exactly the alerts whose
    condition is gone are resolved and users' decisions stay otherwise; one failure that repeats is one alert.
  \<^item> Provider calls: transient failures and no others are retried, as long as attempts and the deadline
    allow, within a bounded time.
  \<^item> Storage: every key stays below its contract, distinct names give distinct objects, what was last put
    is read back, and what the path check does not exclude.
  \<^item> Exports: a dataset holds well-typed rows of the requester's projects only, masked wording never
    leaves, what becomes of a failed export, the link opens the file that was stored and nobody
    else's, the sweep expires exactly what is due.
  \<^item> Extraction batches: every clause is planned once, batches respect their size, budget and overlap
    with the seed, and a later clause is left out only for a reason.
  \<^item> Chunk store: parents are inserted before children, two rows with the same contract, version and
    reading order are refused, the batched neighbour query agrees with the
    single one, and the walk to the root ends on any parent links.
  \<^item> Retrieval: evidence never leaves the projects of the plan and, for named contracts, not these;
    the pre-filter returns exactly the matches; fusion is reciprocal rank fusion; deduplication keeps
    the best of each passage; re-ranking permutes, or raises on a score or an index that overflows.
  \<^item> Answers: a sanitised passage holds no delimiter and the rendered block stays closed while its
    labels hold no bracket, which the code does not ensure; the context keeps its budget; a validated
    answer shows only offered citations and is flagged when it should be.
  \<^item> Copilot: a plan keeps its scope; every source shown comes from the scope of the question; exactly
    on weak evidence the question is refused and the model not asked; with a positive threshold this includes all
    evidence found by keywords alone; a period beyond the calendar raises.

  \<^bold>\<open>Bounds.\<close> No definition uses fuel; the walk over parent chunks has the twelve steps the code gives
  it. The recursion of the inline driver is bounded by the stage order
  and the attempt limit (lexicographically), which is its termination proof; the retry loops of
  provider calls and of alert delivery by the attempts left; all other loops are structural.

  \<^bold>\<open>Assumptions.\<close> A stage handler is a parameter; theorems about an execution assume it is \<open>isolated\<close>:
  it leaves the orchestrator's own tables as they are, up to the progress fields it reports. The
  object storage, the clock and the services that the drivers call are parameters too. A committed
  transaction is atomic and its own writes do not fail, so the branch of the runner that repairs a session
  in which one did is left out. Reporting a message back to the Postgres queue reads its row and updates it
  as one step. Attempts count from 1. Fields, log lines, metrics, spans, cache
  evictions and notifications that no modelled operation reads are left out. Password hashing and
  the signing of tokens are parameters with their documented contract as named hypotheses; the
  providers and the delivery channels are parameters without any. Seconds that the code keeps as
  floats are reals, the jitter's draws lie between 0 and 1, and numbers in JSON are integers. The
  rendering of a workbook, SHA-256 and the reading of a filter from JSON (pydantic) are parameters of
  the export model; amounts are exact rationals; the rows of a query come in the order of its
  \<^verbatim>\<open>ORDER BY\<close>; the file system has no symbolic links below the storage root; and a cell outside
  the 1048576 rows of a worksheet is not shown, as XlsxWriter documents. Scores, similarities and confidences, floats in the code, are
  exact rationals, and of the numbers a re-ranking model answers the infinite ones, \<open>NaN\<close> and integers beyond the
  doubles are told apart. The contract and the project a chunk names exist. The vector distance, the full-text rank, the NFKC normalisation, the embedding of
  the query and the answers of the models are parameters without any hypothesis; the scope of
  retrieval assumes that a vector row names its own project in its metadata (\<open>index_ok\<close>), as the
  indexing stage writes it. Text outside the evidence block, questions included, is made of ASCII
  characters. The classifier of questions and the taxonomy are parameters of the Copilot.

  \<^bold>\<open>Not modelled\<close>: what only calls models, services or libraries this repository does not hold: the
  parsers over PDF and DOCX libraries and the document model they fill, clause location and
  extraction by language model, the embedding services and the rebuild of the vector index, the
  channel adapters, the Node dispatcher behind the BullMQ driver, the HTTP layer and the front end.
  Also left out, for want of a contract of their own: the classification of questions by a model
  (\<^verbatim>\<open>ai/retrieval/analysis.py\<close>), the reasons a plan reports, the clause and demonstration seeds, the
  settings but those of retrieval. Modellable and not done: the stage handlers, upload and
  archive handling, extraction validation and risk scoring, the graph builder, the portfolio and
  knowledge views.
\<close>

end
